(* ===== verification/Prelude.thy ===== *)
theory Prelude
  imports Main "HOL-Library.Word"
begin

text \<open>
  Shared vocabulary of the development: the Python built-ins the components use
  (string methods on ASCII strings, slices, \<open>next(... if ...)\<close>, \<open>dict.fromkeys\<close>,
  calendar dates as proleptic ordinals), the result type of code that may raise, and the
  named collections of facts the component proofs share.

  Conventions. A Python \<open>int\<close> is \<^typ>\<open>int\<close>; a \<open>str\<close> is a \<^typ>\<open>string\<close> of ASCII
  characters (the identifiers, codes and keys of the modelled code are ASCII); \<open>None\<close> is
  \<^const>\<open>None\<close>; a raised exception is the \<^const>\<open>Inl\<close> side of a sum.
\<close>

named_theorems res_simps "unfolding the result monad"

section \<open>Results of code that may raise\<close>

datatype py_error =
    IndexError | StructError | ValueError | ZeroDivision | InvalidOperation | KeyError
  | TypeError | UnicodeError | OSError | ProtocolError

type_synonym 'a res = "py_error + 'a"

definition bindR :: "'e + 'a \<Rightarrow> ('a \<Rightarrow> 'e + 'b) \<Rightarrow> 'e + 'b" where
  "bindR m f = (case m of Inl e \<Rightarrow> Inl e | Inr x \<Rightarrow> f x)"

text \<open>Using an optional value as if it were there: the exception Python raises on \<open>None\<close>.\<close>

definition need :: "py_error \<Rightarrow> 'a option \<Rightarrow> 'a res" where
  "need e x = (case x of None \<Rightarrow> Inl e | Some v \<Rightarrow> Inr v)"

fun mapR :: "('a \<Rightarrow> 'e + 'b) \<Rightarrow> 'a list \<Rightarrow> 'e + 'b list" where
  "mapR f [] = Inr []"
| "mapR f (x # xs) = bindR (f x) (\<lambda>y. bindR (mapR f xs) (\<lambda>ys. Inr (y # ys)))"

lemma bindR_simps [simp, res_simps]:
  "bindR (Inl e) f = Inl e" "bindR (Inr x) f = f x"
  by (simp_all add: bindR_def)

lemma bindR_eq_Inr [simp, res_simps]: "bindR m f = Inr y \<longleftrightarrow> (\<exists>x. m = Inr x \<and> f x = Inr y)"
  by (cases m) (auto simp: bindR_def)

lemma mapR_length: "mapR f xs = Inr ys \<Longrightarrow> length ys = length xs"
  by (induction xs arbitrary: ys) auto

lemma mapR_nth: "mapR f xs = Inr ys \<Longrightarrow> i < length xs \<Longrightarrow> f (xs ! i) = Inr (ys ! i)"
  by (induction xs arbitrary: ys i) (auto simp: nth_Cons split: nat.splits)

lemma mapR_total: "(\<And>x. x \<in> set xs \<Longrightarrow> f x = Inr (g x)) \<Longrightarrow> mapR f xs = Inr (map g xs)"
  by (induction xs) auto

section \<open>Strings\<close>

definition upper_char :: "char \<Rightarrow> char" where
  "upper_char c = (let n = of_char c :: nat in if 97 \<le> n \<and> n \<le> 122 then char_of (n - 32) else c)"

definition py_upper :: "string \<Rightarrow> string" where
  "py_upper s = map upper_char s"

fun startswith :: "'a list \<Rightarrow> 'a list \<Rightarrow> bool" where
  "startswith xs [] = True"
| "startswith [] (p # ps) = False"
| "startswith (x # xs) (p # ps) = (x = p \<and> startswith xs ps)"

definition is_digit :: "char \<Rightarrow> bool" where
  "is_digit c = (let n = of_char c :: nat in 48 \<le> n \<and> n \<le> 57)"

text \<open>\<open>s.partition(sep)\<close> for a one-character separator: (before, separator found, after).\<close>

fun py_partition :: "char \<Rightarrow> string \<Rightarrow> string \<times> bool \<times> string" where
  "py_partition sep [] = ([], False, [])"
| "py_partition sep (c # cs) =
     (if c = sep then ([], True, cs)
      else (case py_partition sep cs of (a, b, d) \<Rightarrow> (c # a, b, d)))"

definition is_space :: "char \<Rightarrow> bool" where
  "is_space c = (let n = of_char c :: nat in n = 32 \<or> (9 \<le> n \<and> n \<le> 13) \<or> (28 \<le> n \<and> n \<le> 31))"

definition py_strip :: "string \<Rightarrow> string" where
  "py_strip s = rev (dropWhile is_space (rev (dropWhile is_space s)))"

text \<open>\<open>s.split(sep)\<close> for a one-character separator.\<close>

fun py_split :: "char \<Rightarrow> string \<Rightarrow> string list" where
  "py_split sep [] = [[]]"
| "py_split sep (c # cs) =
     (if c = sep then [] # py_split sep cs
      else (case py_split sep cs of [] \<Rightarrow> [[c]] | w # ws \<Rightarrow> (c # w) # ws))"

text \<open>\<open>needle in text\<close>.\<close>

fun occurs :: "string \<Rightarrow> string \<Rightarrow> bool" where
  "occurs needle [] = (needle = [])"
| "occurs needle (c # cs) = (startswith (c # cs) needle \<or> occurs needle cs)"

lemma startswith_iff: "startswith xs ps \<longleftrightarrow> take (length ps) xs = ps"
  by (induction xs ps rule: startswith.induct) auto

lemma startswith_append [simp]: "startswith (ps @ xs) ps"
  by (simp add: startswith_iff)

lemma upper_char_idem [simp]: "upper_char (upper_char c) = upper_char c"
proof (cases "97 \<le> (of_char c :: nat) \<and> (of_char c :: nat) \<le> 122")
  case True
  then have "(of_char c :: nat) - 32 < 256" by linarith
  then have "of_char (char_of ((of_char c :: nat) - 32) :: char) = (of_char c :: nat) - 32"
    by simp
  with True show ?thesis by (auto simp: upper_char_def Let_def)
qed (auto simp: upper_char_def Let_def)

lemma py_upper_idem [simp]: "py_upper (py_upper s) = py_upper s"
  by (simp add: py_upper_def comp_def)

lemma py_upper_Cons [simp]: "py_upper (c # s) = upper_char c # py_upper s"
  and py_upper_Nil [simp]: "py_upper [] = []"
  and py_upper_append [simp]: "py_upper (s @ t) = py_upper s @ py_upper t"
  by (simp_all add: py_upper_def)

lemma is_digit_upper [simp]: "is_digit c \<Longrightarrow> upper_char c = c"
  by (auto simp: is_digit_def upper_char_def Let_def)

lemma py_upper_digits: "\<forall>c \<in> set s. is_digit c \<Longrightarrow> py_upper s = s"
  by (induction s) auto

lemma py_partition_append: "sep \<notin> set s \<Longrightarrow> py_partition sep (s @ sep # t) = (s, True, t)"
  by (induction s) auto

lemma py_partition_none: "sep \<notin> set s \<Longrightarrow> py_partition sep s = (s, False, [])"
  by (induction s) auto

section \<open>Sequences\<close>

text \<open>\<open>next((x for x in xs if p(x)), None)\<close>.\<close>

definition py_next :: "('a \<Rightarrow> bool) \<Rightarrow> 'a list \<Rightarrow> 'a option" where
  "py_next p xs = List.find p xs"

text \<open>\<open>list(dict.fromkeys(xs))\<close>: the first occurrence of each element, in order.\<close>

fun fromkeys :: "'a list \<Rightarrow> 'a list" where
  "fromkeys [] = []"
| "fromkeys (x # xs) = x # filter (\<lambda>y. y \<noteq> x) (fromkeys xs)"

lemma set_fromkeys [simp]: "set (fromkeys xs) = set xs"
  by (induction xs) auto

lemma distinct_fromkeys [simp]: "distinct (fromkeys xs)"
  by (induction xs) auto

lemma fromkeys_distinct: "distinct xs \<Longrightarrow> fromkeys xs = xs"
  by (induction xs) (auto intro!: filter_True)

lemma fromkeys_eq_Nil [simp]: "fromkeys xs = [] \<longleftrightarrow> xs = []"
  by (cases xs) auto

text \<open>Slices \<open>xs[i:j]\<close> with non-negative bounds.\<close>

definition slice :: "nat \<Rightarrow> nat \<Rightarrow> 'a list \<Rightarrow> 'a list" where
  "slice i j xs = take (j - i) (drop i xs)"

lemma length_slice [simp]: "length (slice i j xs) = min (j - i) (length xs - i)"
  by (simp add: slice_def min.commute)

section \<open>Calendar dates\<close>

text \<open>
  A \<open>datetime.date\<close> is its proleptic ordinal (\<open>date.toordinal()\<close>, day 1 is 0001-01-01);
  dates compare as their ordinals. \<open>mk_date\<close> is the constructor, \<^const>\<open>None\<close> its
  ValueError.
\<close>

type_synonym date = int

definition leap_year :: "int \<Rightarrow> bool" where
  "leap_year y = (y mod 4 = 0 \<and> (y mod 100 \<noteq> 0 \<or> y mod 400 = 0))"

definition days_in_month :: "int \<Rightarrow> int \<Rightarrow> int" where
  "days_in_month y m =
     (if m = 2 then (if leap_year y then 29 else 28)
      else if m \<in> {4, 6, 9, 11} then 30 else 31)"

definition days_before_month :: "int \<Rightarrow> int \<Rightarrow> int" where
  "days_before_month y m = sum_list (map (days_in_month y) [1..m - 1])"

definition days_before_year :: "int \<Rightarrow> int" where
  "days_before_year y = (let p = y - 1 in p * 365 + p div 4 - p div 100 + p div 400)"

definition date_ordinal :: "int \<Rightarrow> int \<Rightarrow> int \<Rightarrow> date" where
  "date_ordinal y m d = days_before_year y + days_before_month y m + d"

definition mk_date :: "int \<Rightarrow> int \<Rightarrow> int \<Rightarrow> date option" where
  "mk_date y m d =
     (if 1 \<le> y \<and> y \<le> 9999 \<and> 1 \<le> m \<and> m \<le> 12 \<and> 1 \<le> d \<and> d \<le> days_in_month y m
      then Some (date_ordinal y m d) else None)"

section \<open>Instants and the exchange clock\<close>

text \<open>
  An aware \<open>datetime\<close> is its number of microseconds since 1970-01-01T00:00Z. The
  conversion to \<open>Asia/Shanghai\<close> is the fixed offset +08:00, which is what the zone
  database says for every instant since 1991-09-15 (the repository handles no earlier
  market data). \<open>1970-01-01\<close> has ordinal 719163 and was a Thursday (weekday 3).
\<close>

type_synonym instant = int

definition us_second :: int where "us_second = 1000000"
definition us_minute :: int where "us_minute = 60 * us_second"
definition us_hour :: int where "us_hour = 60 * us_minute"
definition us_day :: int where "us_day = 24 * us_hour"

definition shanghai_us :: "instant \<Rightarrow> int" where
  "shanghai_us t = t + 8 * us_hour"

definition local_date :: "instant \<Rightarrow> date" where
  "local_date t = shanghai_us t div us_day + 719163"

definition local_clock :: "instant \<Rightarrow> int" where
  "local_clock t = shanghai_us t mod us_day"

definition local_weekday :: "instant \<Rightarrow> int" where
  "local_weekday t = (shanghai_us t div us_day + 3) mod 7"

definition clock_time :: "int \<Rightarrow> int \<Rightarrow> int" where
  "clock_time h m = h * us_hour + m * us_minute"

text \<open>\<open>datetime.combine(d, c, tzinfo=CN_TZ).astimezone(utc)\<close>.\<close>

definition combine_local :: "date \<Rightarrow> int \<Rightarrow> instant" where
  "combine_local d c = (d - 719163) * us_day + c - 8 * us_hour"

lemmas us_defs = us_second_def us_minute_def us_hour_def us_day_def

lemma combine_local_clock: "combine_local (local_date t) (local_clock t) = t"
  using div_mult_mod_eq [of "shanghai_us t" us_day]
  by (simp add: combine_local_def local_date_def local_clock_def shanghai_us_def)

lemma local_clock_bounds: "0 \<le> local_clock t" "local_clock t < us_day"
  by (simp_all add: local_clock_def us_defs)

lemma local_clock_combine: "0 \<le> c \<Longrightarrow> c < us_day \<Longrightarrow> local_clock (combine_local d c) = c"
proof -
  have "shanghai_us (combine_local d c) = c + (d - 719163) * us_day"
    by (simp add: combine_local_def shanghai_us_def)
  then show "0 \<le> c \<Longrightarrow> c < us_day \<Longrightarrow> local_clock (combine_local d c) = c"
    by (simp add: local_clock_def)
qed

lemma local_date_combine: "0 \<le> c \<Longrightarrow> c < us_day \<Longrightarrow> local_date (combine_local d c) = d"
proof -
  have "shanghai_us (combine_local d c) = c + (d - 719163) * us_day"
    by (simp add: combine_local_def shanghai_us_def)
  moreover have "us_day \<noteq> 0" by (simp add: us_defs)
  ultimately show "0 \<le> c \<Longrightarrow> c < us_day \<Longrightarrow> local_date (combine_local d c) = d"
    by (simp add: local_date_def)
qed

end
