(* ===== verification/PyNumbers.thy ===== *)
theory PyNumbers
  imports Complex_Main "HOL-Library.Log_Nat" Prelude
begin

text \<open>
  Python's non-integer numbers. A \<open>decimal.Decimal\<close> under the default context and a
  binary64 \<open>float\<close> are both rationals of a bounded precision: every arithmetic operation
  returns the exact result rounded half-even to \<open>p\<close> significant digits of base \<open>b\<close>
  (\<open>28\<close> decimal digits for \<open>Decimal\<close>, \<open>53\<close> binary digits for \<open>float\<close>). \<open>rne b p\<close> is
  that rounding; \<open>dec\<close> and \<open>flt\<close> are its two instances, and the operators \<open>dmul\<close>,
  \<open>ddiv\<close>, \<open>fadd\<close> \<open>\<dots>\<close> are the ones the components call. Exponent range limits
  (overflow to infinity, subnormals, \<open>Emax\<close>) lie outside the magnitudes of prices,
  volumes and returns and are not modelled; a division by zero raises.

  The laws the components use are the locale \<open>rounding\<close>; it is interpreted on both
  instances below.
\<close>

section \<open>Rounding half-even to a number of significant digits\<close>

definition rfloor :: "rat \<Rightarrow> int" where
  "rfloor x = (case quotient_of x of (n, d) \<Rightarrow> n div d)"

definition half_even :: "rat \<Rightarrow> int" where
  "half_even x =
     (let f = rfloor x; r = x - of_int f
      in if r < 1 / 2 then f else if 1 / 2 < r then f + 1 else if even f then f else f + 1)"

text \<open>The number of base-\<open>b\<close> digits of an integer (computed on \<^typ>\<open>int\<close>, whose
  numerals are binary), and the exponent of the leading digit of a positive rational.\<close>

function ilog :: "int \<Rightarrow> int \<Rightarrow> int" where
  "ilog b n = (if b \<le> 1 \<or> n < 1 then 0 else 1 + ilog b (n div b))"
  by pat_completeness auto
termination
  by (relation "measure (\<lambda>(b, n). nat n)") (auto intro!: int_div_less_self)

definition rexp :: "nat \<Rightarrow> rat \<Rightarrow> int" where
  "rexp b x =
     (case quotient_of x of (n, d) \<Rightarrow>
       let e = ilog (int b) n - ilog (int b) d
       in if x < of_nat b powi e then e - 1 else e)"

definition rne :: "nat \<Rightarrow> nat \<Rightarrow> rat \<Rightarrow> rat" where
  "rne b p x =
     (if x = 0 then 0
      else let q = of_nat b powi (rexp b \<bar>x\<bar> + 1 - int p) in of_int (half_even (x / q)) * q)"

lemma rfloor_floor: "rfloor x = \<lfloor>x\<rfloor>"
  by (simp add: rfloor_def rat_floor_code)

lemma half_even_of_int [simp]: "half_even (of_int n) = n"
  by (simp add: half_even_def rfloor_floor)

lemma half_even_dist: "\<bar>of_int (half_even x) - x\<bar> \<le> 1 / 2"
proof -
  have "of_int \<lfloor>x\<rfloor> \<le> x" "x < of_int \<lfloor>x\<rfloor> + 1" by linarith+
  then show ?thesis by (auto simp: half_even_def rfloor_floor Let_def)
qed

lemma half_even_mono: "x \<le> y \<Longrightarrow> half_even x \<le> half_even y"
proof -
  assume le: "x \<le> y"
  show ?thesis
  proof (cases "\<lfloor>x\<rfloor> = \<lfloor>y\<rfloor>")
    case True
    with le show ?thesis by (auto simp: half_even_def rfloor_floor Let_def)
  next
    case False
    with le have "\<lfloor>x\<rfloor> + 1 \<le> \<lfloor>y\<rfloor>" using floor_mono [OF le] by linarith
    then show ?thesis by (auto simp: half_even_def rfloor_floor Let_def)
  qed
qed

lemma half_even_minus: "half_even (- x) = - half_even x"
proof (cases "x = of_int \<lfloor>x\<rfloor>")
  case True
  then show ?thesis by (metis half_even_of_int of_int_minus)
next
  case False
  define f where "f = \<lfloor>x\<rfloor>"
  have "of_int f \<le> x" "x < of_int f + 1" unfolding f_def by linarith+
  with False have lt: "of_int f < x" "x < of_int f + 1" unfolding f_def by linarith+
  then have "\<lfloor>- x\<rfloor> = - f - 1" by (intro floor_unique) auto
  with lt show ?thesis
    by (auto simp: half_even_def rfloor_floor Let_def f_def [symmetric])
qed

declare ilog.simps [simp del]

lemma ilog_floorlog: "1 < b \<Longrightarrow> ilog (int b) n = int (floorlog b (nat n))"
proof (induction "int b" n rule: ilog.induct)
  case (1 n)
  show ?case
  proof (cases "n < 1")
    case True
    then show ?thesis by (simp add: ilog.simps [of "int b"] floorlog_def)
  next
    case False
    then have "ilog (int b) n = 1 + int (floorlog b (nat (n div int b)))"
      using 1 by (simp add: ilog.simps [of "int b" n])
    also have "nat (n div int b) = nat n div b" using False by (simp add: nat_div_distrib)
    also have "1 + int (floorlog b (nat n div b)) = int (floorlog b (nat n))"
      using False 1 compute_floorlog [of b "nat n"] by simp
    finally show ?thesis .
  qed
qed

lemma rexp_bounds:
  assumes b: "1 < b" and x: "0 < x"
  shows "of_nat b powi rexp b x \<le> x \<and> x < of_nat b powi (rexp b x + 1)"
proof -
  obtain n d where nd: "quotient_of x = (n, d)" by fastforce
  then have d: "0 < d" by (rule quotient_of_denom_pos)
  from nd have xq: "x = of_int n / of_int d" by (rule quotient_of_div)
  with x d have n: "0 < n" by (simp add: zero_less_divide_iff)
  define ln ld where "ln = floorlog b (nat n)" and "ld = floorlog b (nat d)"
  define B where "B = (of_nat b :: rat)"
  have B: "1 < B" "B \<noteq> 0" using b by (simp_all add: B_def)
  have lpos: "0 < ln" "0 < ld" using b n d
    by (metis ln_def ld_def bot_nat_0.not_eq_extremum floorlog_eq_zero_iff linorder_not_le zero_less_nat_eq)+
  have bn: "B ^ (ln - 1) \<le> of_int n" "of_int n < B ^ ln"
    and bd: "B ^ (ld - 1) \<le> of_int d" "of_int d < B ^ ld"
    using floorlog_bounds [of "nat n" b] floorlog_bounds [of "nat d" b] b n d
    unfolding ln_def ld_def B_def
    by (metis of_nat_le_iff of_nat_power of_nat_less_iff of_nat_nat zero_less_nat_eq less_imp_le of_int_of_nat_eq)+
  define e where "e = int ln - int ld"
  have hi: "x < B powi (e + 1)"
  proof -
    have "x < B ^ ln / of_int d" using xq bn d by (simp add: divide_strict_right_mono)
    also have "\<dots> \<le> B ^ ln / B ^ (ld - 1)" using bd B by (intro divide_left_mono) (auto intro: mult_pos_pos simp: d)
    also have "\<dots> = B powi (e + 1)"
      using B lpos by (simp add: e_def power_int_diff power_int_add of_nat_diff flip: power_int_of_nat)
    finally show ?thesis .
  qed
  have lo: "B powi (e - 1) \<le> x"
  proof -
    have "B powi (e - 1) = B ^ (ln - 1) / B ^ ld"
      using B lpos by (simp add: e_def power_int_diff power_int_add of_nat_diff flip: power_int_of_nat)
    also have "\<dots> \<le> of_int n / B ^ ld" using bn B by (simp add: divide_right_mono)
    also have "\<dots> \<le> x" using xq bd n d B by (auto intro!: divide_left_mono mult_pos_pos)
    finally show ?thesis .
  qed
  show ?thesis
    using hi lo by (auto simp: rexp_def nd Let_def ilog_floorlog [OF b] ln_def [symmetric] ld_def [symmetric]
        e_def [symmetric] B_def [symmetric])
qed

lemma rexp_unique:
  assumes b: "1 < b" and lo: "of_nat b powi e \<le> x" and hi: "x < of_nat b powi (e + 1)"
  shows "rexp b x = e"
proof -
  have B: "(1::rat) < of_nat b" using b by simp
  have x: "0 < x" using lo B by (meson order_less_le_trans zero_less_one less_trans zero_less_power_int)
  note bnd = rexp_bounds [OF b x]
  have "of_nat b powi rexp b x < (of_nat b :: rat) powi (e + 1)" using bnd hi by linarith
  then have 1: "rexp b x < e + 1" using B by (meson not_le power_int_increasing less_imp_le)
  have "of_nat b powi e < (of_nat b :: rat) powi (rexp b x + 1)" using bnd lo by linarith
  then have 2: "e < rexp b x + 1" using B by (meson not_le power_int_increasing less_imp_le)
  from 1 2 show ?thesis by linarith
qed

lemma rexp_mono:
  assumes b: "1 < b" and x: "0 < x" and le: "x \<le> y"
  shows "rexp b x \<le> rexp b y"
proof -
  have B: "(1::rat) < of_nat b" using b by simp
  have "of_nat b powi rexp b x < (of_nat b :: rat) powi (rexp b y + 1)"
    using rexp_bounds [OF b x] rexp_bounds [OF b, of y] x le by linarith
  then have "rexp b x < rexp b y + 1" using B by (meson not_le power_int_increasing less_imp_le)
  then show ?thesis by linarith
qed

lemma rne_zero [simp]: "rne b p 0 = 0"
  by (simp add: rne_def)

lemma rne_minus: "rne b p (- x) = - rne b p x"
  by (simp add: rne_def Let_def half_even_minus)

text \<open>The rounded value stays inside the binade of its argument.\<close>

lemma rne_binade:
  assumes b: "1 < b" and p: "0 < p" and x: "0 < x"
  shows "of_nat b powi rexp b x \<le> rne b p x \<and> rne b p x \<le> of_nat b powi (rexp b x + 1)"
proof -
  define B where "B = (of_nat b :: rat)"
  define e where "e = rexp b x"
  define q where "q = B powi (e + 1 - int p)"
  have B: "1 < B" "B \<noteq> 0" "0 < B" using b by (simp_all add: B_def)
  have q: "0 < q" using B by (simp add: q_def)
  have bnd: "B powi e \<le> x" "x < B powi (e + 1)"
    using rexp_bounds [OF b x] by (simp_all add: B_def e_def)
  have lo_q: "of_int (int (b ^ (p - 1))) * q = B powi e"
    using B p by (simp add: B_def q_def of_nat_diff flip: power_int_of_nat power_int_add)
  have hi_q: "of_int (int (b ^ p)) * q = B powi (e + 1)"
    using B by (simp add: B_def q_def flip: power_int_of_nat power_int_add)
  have "of_int (int (b ^ (p - 1))) \<le> x / q" using bnd lo_q q by (simp add: pos_le_divide_eq)
  then have "int (b ^ (p - 1)) \<le> half_even (x / q)"
    using half_even_mono half_even_of_int by metis
  then have 1: "B powi e \<le> of_int (half_even (x / q)) * q"
    using q lo_q by (metis mult_right_mono of_int_le_iff less_imp_le)
  have "x / q \<le> of_int (int (b ^ p))" using bnd hi_q q by (simp add: pos_divide_le_eq)
  then have "half_even (x / q) \<le> int (b ^ p)"
    using half_even_mono half_even_of_int by metis
  then have 2: "of_int (half_even (x / q)) * q \<le> B powi (e + 1)"
    using q hi_q by (metis mult_right_mono of_int_le_iff less_imp_le)
  have "rne b p x = of_int (half_even (x / q)) * q"
    using x by (simp add: rne_def Let_def q_def e_def B_def)
  with 1 2 show ?thesis by (simp add: B_def e_def)
qed

lemma rne_pos: "1 < b \<Longrightarrow> 0 < p \<Longrightarrow> 0 < x \<Longrightarrow> 0 < rne b p x"
  using rne_binade [of b p x]
  by (meson order_less_le_trans zero_less_power_int of_nat_0_less_iff less_trans zero_less_one)

lemma rne_mono_pos:
  assumes b: "1 < b" and p: "0 < p" and x: "0 < x" and le: "x \<le> y"
  shows "rne b p x \<le> rne b p y"
proof (cases "rexp b x = rexp b y")
  case True
  define q where "q = (of_nat b :: rat) powi (rexp b y + 1 - int p)"
  have q: "0 < q" using b by (simp add: q_def)
  have "half_even (x / q) \<le> half_even (y / q)"
    using le q by (intro half_even_mono divide_right_mono) auto
  then have "of_int (half_even (x / q)) * q \<le> of_int (half_even (y / q)) * q"
    using q by (simp add: mult_right_mono)
  then show ?thesis using x le True by (simp add: rne_def Let_def q_def)
next
  case False
  with rexp_mono [OF b x le] have "rexp b x + 1 \<le> rexp b y" by linarith
  then have "(of_nat b :: rat) powi (rexp b x + 1) \<le> of_nat b powi rexp b y"
    using b by (intro power_int_increasing) auto
  then show ?thesis using rne_binade [OF b p x] rne_binade [OF b p, of y] x le by linarith
qed

lemma rne_mono:
  assumes b: "1 < b" and p: "0 < p" and le: "x \<le> y"
  shows "rne b p x \<le> rne b p y"
proof -
  consider "0 < x" | "x \<le> 0" "0 \<le> y" | "y < 0" using le by linarith
  then show ?thesis
  proof cases
    case 1
    then show ?thesis using rne_mono_pos [OF b p] le by blast
  next
    case 2
    have "rne b p x \<le> 0"
      using 2 rne_pos [OF b p, of "- x"] by (cases "x = 0") (auto simp: rne_minus)
    moreover have "0 \<le> rne b p y"
      using 2 rne_pos [OF b p, of y] by (cases "y = 0") auto
    ultimately show ?thesis by linarith
  next
    case 3
    then have "rne b p (- y) \<le> rne b p (- x)" using le by (intro rne_mono_pos [OF b p]) auto
    then show ?thesis by (simp add: rne_minus)
  qed
qed

text \<open>Numbers of at most \<open>p\<close> digits are exact.\<close>

lemma rne_exact_pos:
  assumes b: "1 < b" and p: "0 < p" and m: "0 < m" "m \<le> int (b ^ p)"
  shows "rne b p (of_int m * of_nat b powi k) = of_int m * of_nat b powi k"
proof -
  define B where "B = (of_nat b :: rat)"
  define x where "x = of_int m * B powi k"
  define e where "e = rexp b x"
  define q where "q = B powi (e + 1 - int p)"
  have B: "1 < B" "B \<noteq> 0" "0 < B" using b by (simp_all add: B_def)
  have x: "0 < x" using m B by (simp add: x_def)
  have bnd: "B powi e \<le> x" using rexp_bounds [OF b x] by (simp add: B_def e_def)
  have Bp: "of_int (int (b ^ p)) = B powi int p" by (simp add: B_def)
  have q0: "q \<noteq> 0" using B by (simp add: q_def)
  have "\<exists>n. x / q = of_int n"
  proof (cases "e + 1 - int p \<le> k")
    case True
    then obtain j where j: "k = (e + 1 - int p) + int j" by (metis zle_iff_zadd)
    have "x / q = of_int (m * int (b ^ j))"
      using B by (simp add: x_def q_def j power_int_add B_def [symmetric])
    then show ?thesis by blast
  next
    case False
    have "x \<le> B powi int p * B powi k"
    proof -
      have "of_int m \<le> (of_int (int (b ^ p)) :: rat)" using m by (simp only: of_int_le_iff)
      then show ?thesis using B by (simp add: x_def B_def mult_right_mono)
    qed
    then have "B powi e \<le> B powi (int p + k)" using bnd B by (simp add: power_int_add)
    then have "e \<le> int p + k" using B by (meson not_le power_int_strict_increasing)
    with False have k: "k = e - int p" by linarith
    have "0 < B powi (e - int p)" using B by simp
    moreover have "B powi (e - int p) \<noteq> 0" "0 < B powi (e - int p)" using B by simp_all
    moreover have "B powi e = B powi int p * B powi (e - int p)"
      using B power_int_add [of B "int p" "e - int p"] by simp
    ultimately have "B powi int p \<le> of_int m" using k bnd x_def by (metis mult_le_cancel_right_pos)
    then have "of_int (int (b ^ p)) \<le> (of_int m :: rat)" by (simp only: Bp)
    with m have "m = int (b ^ p)" by linarith
    then have "x = B powi e"
      using B k power_int_add [of B "int p" "e - int p"] by (simp add: x_def B_def)
    then have "x / q = B powi (e - (e + 1 - int p))"
      using B by (simp only: q_def power_int_diff [of B e "e + 1 - int p"] simp_thms)
    also have "\<dots> = of_int (int (b ^ (p - 1)))"
      using p by (simp add: B_def of_nat_diff flip: power_int_of_nat)
    finally show ?thesis by blast
  qed
  then obtain n where n: "x / q = of_int n" by blast
  then have "of_int n * q = x" using q0 by (simp add: field_simps)
  then have "rne b p x = x"
    using x n by (simp add: rne_def Let_def e_def [symmetric] B_def [symmetric] q_def [symmetric])
  then show ?thesis by (simp add: x_def B_def)
qed

lemma rne_exact:
  assumes b: "1 < b" and p: "0 < p" and m: "\<bar>m\<bar> \<le> int (b ^ p)"
  shows "rne b p (of_int m * of_nat b powi k) = of_int m * of_nat b powi k"
proof -
  consider "m = 0" | "0 < m" | "0 < - m" by linarith
  then show ?thesis
  proof cases
    case 3
    then have "rne b p (of_int (- m) * of_nat b powi k) = of_int (- m) * of_nat b powi k"
      using m by (intro rne_exact_pos [OF b p]) auto
    then show ?thesis by (simp add: rne_minus)
  qed (use m rne_exact_pos [OF b p] in auto)
qed

lemma rne_idem:
  assumes b: "1 < b" and p: "0 < p"
  shows "rne b p (rne b p x) = rne b p x"
proof (cases "x = 0")
  case False
  define q where "q = (of_nat b :: rat) powi (rexp b \<bar>x\<bar> + 1 - int p)"
  define m where "m = half_even (x / q)"
  have q: "0 < q" using b by (simp add: q_def)
  have eq: "rne b p x = of_int m * q" using False by (simp add: rne_def Let_def q_def m_def)
  have "\<bar>rne b p x\<bar> = rne b p \<bar>x\<bar>"
    using rne_pos [OF b p, of "\<bar>x\<bar>"] False rne_minus [of b p x] by (cases "0 < x") auto
  also have "\<dots> \<le> of_nat b powi (rexp b \<bar>x\<bar> + 1)"
    using rne_binade [OF b p, of "\<bar>x\<bar>"] False by auto
  also have "\<dots> = of_int (int (b ^ p)) * q"
    using b by (simp add: q_def flip: power_int_of_nat power_int_add)
  finally have "of_int \<bar>m\<bar> * q \<le> of_int (int (b ^ p)) * q"
    using q by (simp add: eq abs_mult)
  then have "of_int \<bar>m\<bar> \<le> (of_int (int (b ^ p)) :: rat)" using q by simp
  then have "\<bar>m\<bar> \<le> int (b ^ p)" by (simp only: of_int_le_iff)
  then show ?thesis using rne_exact [OF b p] by (simp add: eq q_def)
qed simp

section \<open>Evaluation on integers\<close>

text \<open>Code equations that keep the intermediate values of a rounding in the integers, so that
  no fraction is normalised before the result.\<close>

lemma less_powi_iff:
  fixes n d :: int
  assumes "0 < b" "0 < d"
  shows "rat_of_int n / of_int d < of_nat b powi e \<longleftrightarrow>
    (if 0 \<le> e then n < d * int b ^ nat e else n * int b ^ nat (- e) < d)"
proof (cases "0 \<le> e")
  case True
  then have "rat_of_nat b powi e = of_int (int b ^ nat e)" by (simp add: power_int_def)
  moreover have "rat_of_int n / of_int d < of_int m \<longleftrightarrow> n < d * m" for m
    using assms by (simp add: pos_divide_less_eq mult.commute flip: of_int_mult)
  ultimately show ?thesis using True by (simp only: if_True)
next
  case False
  let ?p = "int b ^ nat (- e)"
  have p: "0 < ?p" using assms by simp
  have "rat_of_nat b powi e = 1 / of_int ?p" using False by (simp add: power_int_def inverse_eq_divide power_one_over)
  moreover have "rat_of_int n / of_int d < 1 / of_int ?p \<longleftrightarrow> n * ?p < d"
    using p assms by (simp add: divide_less_eq less_divide_eq flip: of_int_mult of_int_power)
  ultimately show ?thesis using False by simp
qed

lemma rexp_code [code]:
  "rexp b x =
     (case quotient_of x of (n, d) \<Rightarrow>
       let e = ilog (int b) n - ilog (int b) d
       in if b = 0 then (if x < 0 powi e then e - 1 else e)
          else if (if 0 \<le> e then n < d * int b ^ nat e else n * int b ^ nat (- e) < d) then e - 1 else e)"
proof (cases "quotient_of x")
  case (Pair n d)
  then have "x = of_int n / of_int d" "0 < d" by (auto simp: quotient_of_div quotient_of_denom_pos)
  then show ?thesis
    using less_powi_iff [of b d n] Pair by (simp add: rexp_def Let_def)
qed

definition half_even_div :: "int \<Rightarrow> int \<Rightarrow> int" where
  "half_even_div n d =
     (let f = n div d; r = 2 * (n mod d)
      in if r < d then f else if d < r then f + 1 else if even f then f else f + 1)"

lemma half_even_div:
  assumes "0 < d"
  shows "half_even (of_int n / of_int d) = half_even_div n d"
proof -
  have f: "rfloor (of_int n / of_int d) = n div d" by (simp add: rfloor_floor floor_divide_of_int_eq)
  have "n = (n div d) * d + n mod d" by simp
  then have "rat_of_int n = of_int (n div d) * of_int d + of_int (n mod d)" by (metis of_int_add of_int_mult)
  then have r: "rat_of_int n / of_int d - of_int (n div d) = of_int (n mod d) / of_int d"
    using assms by (simp add: field_simps)
  have "(rat_of_int (n mod d) / of_int d < 1 / 2) = (2 * (n mod d) < d)"
    "(1 / 2 < rat_of_int (n mod d) / of_int d) = (d < 2 * (n mod d))"
    using assms by (simp_all add: divide_less_eq less_divide_eq mult.commute) linarith+
  then show ?thesis unfolding half_even_def half_even_div_def f r Let_def by simp
qed

lemma rne_code [code]:
  "rne b p x =
     (if x = 0 then 0
      else if b = 0 then (let q = 0 powi (rexp 0 \<bar>x\<bar> + 1 - int p) in of_int (half_even (x / q)) * q)
      else case quotient_of x of (n, d) \<Rightarrow>
        let k = int p - 1 - rexp b \<bar>x\<bar>
        in if 0 \<le> k
           then (let s = int b ^ nat k; m = n * s
                 in if m mod d = 0 then x else of_int (half_even_div m d) / of_int s)
           else (let s = int b ^ nat (- k) in of_int (half_even_div n (d * s) * s)))"
proof (cases "x = 0 \<or> b = 0")
  case False
  obtain n d where nd: "quotient_of x = (n, d)" by (cases "quotient_of x")
  then have xq: "x = of_int n / of_int d" "0 < d" by (auto simp: quotient_of_div quotient_of_denom_pos)
  define k where "k = int p - 1 - rexp b \<bar>x\<bar>"
  define q where "q = rat_of_nat b powi (- k)"
  have q: "rexp b \<bar>x\<bar> + 1 - int p = - k" by (simp add: k_def)
  have r: "rne b p x = of_int (half_even (x / q)) * q" using False by (simp add: rne_def q q_def Let_def)
  show ?thesis
  proof (cases "0 \<le> k")
    case True
    define s where "s = int b ^ nat k"
    have s: "0 < s" "q = 1 / of_int s"
      using False True by (auto simp: s_def q_def power_int_minus power_int_def inverse_eq_divide power_one_over)
    have xs: "x / q = of_int (n * s) / of_int d" by (simp add: xq s)
    have he: "rne b p x = of_int (half_even_div (n * s) d) / of_int s"
      unfolding r xs half_even_div [OF xq(2)] by (simp add: s)
    moreover have "of_int (half_even_div (n * s) d) / of_int s = x" if "(n * s) mod d = 0"
    proof -
      have "rat_of_int (n * s) = of_int (n * s div d) * of_int d"
        using that by (metis add.right_neutral div_mult_mod_eq of_int_mult)
      moreover have "x * of_int s = rat_of_int (n * s) / of_int d" by (simp add: xq)
      ultimately have xs: "x * of_int s = of_int (n * s div d)" using xq(2) by simp
      then show ?thesis
        using that s(1) xq(2) by (simp add: half_even_div_def Let_def flip: xs)
    qed
    ultimately show ?thesis using False True nd by (simp add: Let_def k_def [symmetric] s_def [symmetric])
  next
    case k: False
    define s where "s = int b ^ nat (- k)"
    have s: "0 < s" "q = of_int s" using False k by (auto simp: s_def q_def power_int_def)
    have xs: "x / q = of_int n / of_int (d * s)" by (simp add: xq s)
    have "0 < d * s" using xq s by simp
    then have "half_even (x / q) = half_even_div n (d * s)" unfolding xs by (rule half_even_div)
    then have "rne b p x = of_int (half_even_div n (d * s) * s)"
      unfolding r by (simp add: s)
    then show ?thesis using False k nd by (simp add: Let_def k_def [symmetric] s_def [symmetric])
  qed
qed (auto simp: rne_def)

section \<open>The interface of a rounding\<close>

locale rounding =
  fixes rnd :: "rat \<Rightarrow> rat"
  assumes rnd_mono: "x \<le> y \<Longrightarrow> rnd x \<le> rnd y"
    and rnd_idem: "rnd (rnd x) = rnd x"
    and rnd_minus: "rnd (- x) = - rnd x"
    and rnd_pos: "0 < x \<Longrightarrow> 0 < rnd x"
    and rnd_small_int: "\<bar>n\<bar> \<le> 10 ^ 15 \<Longrightarrow> rnd (of_int n) = of_int n"
begin

lemma rnd_0: "rnd 0 = 0"
  using rnd_small_int [of 0] by simp

lemma rnd_1: "rnd 1 = 1"
  using rnd_small_int [of 1] by simp

lemma rnd_nonneg: "0 \<le> x \<Longrightarrow> 0 \<le> rnd x"
  using rnd_pos [of x] rnd_0 by (cases "x = 0") auto

lemma rnd_neg: "x < 0 \<Longrightarrow> rnd x < 0"
  using rnd_pos [of "- x"] rnd_minus [of x] by simp

lemma rnd_eq_0: "rnd x = 0 \<longleftrightarrow> x = 0"
  using rnd_pos [of x] rnd_neg [of x] rnd_0 by (cases x "0 :: rat" rule: linorder_cases) auto

lemma rnd_sign: "0 < rnd x \<longleftrightarrow> 0 < x" "rnd x < 0 \<longleftrightarrow> x < 0"
  using rnd_pos [of x] rnd_neg [of x] rnd_0 by (cases x "0 :: rat" rule: linorder_cases; auto)+

lemma rnd_nonneg_iff: "0 \<le> rnd x \<longleftrightarrow> 0 \<le> x"
  using rnd_sign [of x] by (simp add: not_less [symmetric])

text \<open>A representable bound survives rounding.\<close>

lemma rnd_le: "x \<le> y \<Longrightarrow> rnd y = y \<Longrightarrow> rnd x \<le> y"
  using rnd_mono [of x y] by simp

lemma rnd_ge: "y \<le> x \<Longrightarrow> rnd y = y \<Longrightarrow> y \<le> rnd x"
  using rnd_mono [of y x] by simp

lemma rnd_diff_le: "0 \<le> c \<Longrightarrow> rnd x = x \<Longrightarrow> rnd (x - c) \<le> x"
  by (rule rnd_le) auto

lemma rnd_diff_strict: "rnd x = x \<Longrightarrow> rnd y = y \<Longrightarrow> 0 < rnd (x - y) \<longleftrightarrow> y < x"
  by (simp add: rnd_sign)

end

section \<open>Decimal and float\<close>

definition dec :: "rat \<Rightarrow> rat" where
  "dec x = rne 10 28 x"

definition flt :: "rat \<Rightarrow> rat" where
  "flt x = rne 2 53 x"

lemma rne_small_int:
  assumes b: "1 < b" and p: "0 < p" and n: "\<bar>n\<bar> \<le> int (b ^ p)"
  shows "rne b p (of_int n) = of_int n"
  using rne_exact [OF b p n, of 0] by simp

interpretation dec: rounding dec
  by unfold_locales
    (auto simp: dec_def rne_mono rne_idem rne_minus rne_pos intro!: rne_small_int)

interpretation flt: rounding flt
  by unfold_locales
    (auto simp: flt_def rne_mono rne_idem rne_minus rne_pos intro!: rne_small_int)

text \<open>The arithmetic operators of the two types. \<open>+\<close> on exact operands rounds once.\<close>

definition dadd :: "rat \<Rightarrow> rat \<Rightarrow> rat" where "dadd x y = dec (x + y)"
definition dsub :: "rat \<Rightarrow> rat \<Rightarrow> rat" where "dsub x y = dec (x - y)"
definition dmul :: "rat \<Rightarrow> rat \<Rightarrow> rat" where "dmul x y = dec (x * y)"

definition ddiv :: "rat \<Rightarrow> rat \<Rightarrow> rat res" where
  "ddiv x y = (if y = 0 then Inl ZeroDivision else Inr (dec (x / y)))"

definition fadd :: "rat \<Rightarrow> rat \<Rightarrow> rat" where "fadd x y = flt (x + y)"
definition fsub :: "rat \<Rightarrow> rat \<Rightarrow> rat" where "fsub x y = flt (x - y)"
definition fmul :: "rat \<Rightarrow> rat \<Rightarrow> rat" where "fmul x y = flt (x * y)"

definition fdiv :: "rat \<Rightarrow> rat \<Rightarrow> rat res" where
  "fdiv x y = (if y = 0 then Inl ZeroDivision else Inr (flt (x / y)))"

text \<open>\<open>Decimal.quantize(cent, rounding)\<close>: to a multiple of one hundredth.\<close>

datatype rounding_mode = RoundFloor | RoundCeiling | RoundHalfUp | RoundDown

definition round_half_up :: "rat \<Rightarrow> int" where
  "round_half_up x = (if 0 \<le> x then rfloor (x + 1 / 2) else - rfloor (- x + 1 / 2))"

definition round_int :: "rounding_mode \<Rightarrow> rat \<Rightarrow> int" where
  "round_int m x =
     (case m of
        RoundFloor \<Rightarrow> rfloor x
      | RoundCeiling \<Rightarrow> - rfloor (- x)
      | RoundHalfUp \<Rightarrow> round_half_up x
      | RoundDown \<Rightarrow> (if 0 \<le> x then rfloor x else - rfloor (- x)))"

definition quantize_cent :: "rounding_mode \<Rightarrow> rat \<Rightarrow> rat" where
  "quantize_cent m x = of_int (round_int m (x * 100)) / 100"

lemma quantize_cent_floor: "quantize_cent RoundFloor x \<le> x" "x < quantize_cent RoundFloor x + 1 / 100"
  unfolding quantize_cent_def round_int_def rfloor_floor rounding_mode.simps by linarith+

lemma quantize_cent_ceiling: "x \<le> quantize_cent RoundCeiling x" "quantize_cent RoundCeiling x < x + 1 / 100"
  unfolding quantize_cent_def round_int_def rfloor_floor rounding_mode.simps of_int_minus by linarith+

lemma quantize_cent_half_up: "\<bar>quantize_cent RoundHalfUp x - x\<bar> \<le> 1 / 200"
proof (cases "0 \<le> x")
  case True
  then have "quantize_cent RoundHalfUp x = of_int \<lfloor>x * 100 + 1 / 2\<rfloor> / 100"
    by (simp add: quantize_cent_def round_int_def round_half_up_def rfloor_floor)
  then show ?thesis by (simp only: abs_le_iff) linarith
next
  case False
  then have "quantize_cent RoundHalfUp x = - of_int \<lfloor>- (x * 100) + 1 / 2\<rfloor> / 100"
    by (simp add: quantize_cent_def round_int_def round_half_up_def rfloor_floor)
  then show ?thesis by (simp only: abs_le_iff) linarith
qed

lemma round_int_mono:
  assumes le: "x \<le> y"
  shows "round_int m x \<le> round_int m y"
proof -
  have mono: "\<lfloor>x\<rfloor> \<le> \<lfloor>y\<rfloor>" "\<lfloor>- y\<rfloor> \<le> \<lfloor>- x\<rfloor>" "\<lfloor>x + 1 / 2\<rfloor> \<le> \<lfloor>y + 1 / 2\<rfloor>"
    "\<lfloor>- y + 1 / 2\<rfloor> \<le> \<lfloor>- x + 1 / 2\<rfloor>"
    using le by (intro floor_mono; simp)+
  have y: "0 \<le> \<lfloor>y + 1 / 2\<rfloor>" "0 \<le> \<lfloor>y\<rfloor>" if "0 \<le> y" using that by linarith+
  have x: "- \<lfloor>- x + 1 / 2\<rfloor> \<le> 0" "- \<lfloor>- x\<rfloor> \<le> 0" if "\<not> 0 \<le> x" using that by linarith+
  have "\<not> (0 \<le> x \<and> \<not> 0 \<le> y)" using le by linarith
  then consider "0 \<le> x" "0 \<le> y" | "\<not> 0 \<le> x" "0 \<le> y" | "\<not> 0 \<le> x" "\<not> 0 \<le> y" by blast
  then show ?thesis
  proof cases
    case 2
    then show ?thesis using mono order_trans [OF x(1) y(1)] order_trans [OF x(2) y(2)]
      by (cases m) (simp_all add: round_int_def round_half_up_def rfloor_floor)
  qed (use mono in \<open>(cases m; simp add: round_int_def round_half_up_def rfloor_floor)+\<close>)
qed

lemma quantize_cent_mono: "x \<le> y \<Longrightarrow> quantize_cent m x \<le> quantize_cent m y"
  by (auto simp: quantize_cent_def intro!: divide_right_mono round_int_mono)


end
