(* ===== verification/MarketRules.thy ===== *)
theory MarketRules
  imports PyNumbers
begin

text \<open>
  \<open>quant-service/app/market_rules.py\<close> and \<open>market_session_rules.py\<close>: the board of a
  code, the daily price band, the limit prices around a previous close, and the exchange
  sessions. The wall clock a function reads when it is given no time is the argument
  \<open>now\<close>. A float literal of the source (\<open>0.30\<close>) stands for the decimal it is written
  as; a use as a binary float applies \<^const>\<open>flt\<close>.
\<close>

section \<open>Boards and price bands\<close>

datatype board = Beijing | Registration | MainBoard

definition REGISTRATION_BOARD_PREFIXES :: "string list" where
  "REGISTRATION_BOARD_PREFIXES = [''300'', ''301'', ''302'', ''688'', ''689'']"

definition BEIJING_PREFIXES :: "string list" where
  "BEIJING_PREFIXES = [''4'', ''8'', ''920'']"

definition MAIN_BOARD_ST_TEN_PERCENT_FROM :: date where
  "MAIN_BOARD_ST_TEN_PERCENT_FROM = date_ordinal 2026 7 6"

definition cn_today :: "instant \<Rightarrow> date" where
  "cn_today now = local_date now"

text \<open>\<open>int(text)\<close> on an ASCII string: surrounding blanks, one sign, digits with single
  underscores between them.\<close>

fun digits_val :: "int \<Rightarrow> bool \<Rightarrow> string \<Rightarrow> int option" where
  "digits_val acc after_digit [] = (if after_digit then Some acc else None)"
| "digits_val acc after_digit (c # cs) =
     (if is_digit c then digits_val (10 * acc + (of_char c - 48)) True cs
      else if c = CHR ''_'' \<and> after_digit then digits_val acc False cs else None)"

definition py_int :: "string \<Rightarrow> int option" where
  "py_int s =
     (case py_strip s of
        [] \<Rightarrow> None
      | c # cs \<Rightarrow>
          if c = CHR ''-'' then map_option uminus (digits_val 0 False cs)
          else if c = CHR ''+'' then digits_val 0 False cs
          else digits_val 0 False (c # cs))"

datatype date_arg = DateNone | DateIs date | DatetimeIs date | DateText string

definition as_exchange_date :: "date_arg \<Rightarrow> date option" where
  "as_exchange_date v =
     (case v of
        DateNone \<Rightarrow> None
      | DatetimeIs d \<Rightarrow> Some d
      | DateIs d \<Rightarrow> Some d
      | DateText s \<Rightarrow>
          if s = [] then None
          else let text = take 8 (filter (\<lambda>c. c \<noteq> CHR ''-'') (py_strip s)) in
            case (py_int (slice 0 4 text), py_int (slice 4 6 text), py_int (slice 6 8 text)) of
              (Some y, Some m, Some d) \<Rightarrow> mk_date y m d
            | _ \<Rightarrow> None)"

definition a_share_board :: "string \<Rightarrow> board" where
  "a_share_board symbol =
     (case py_partition CHR ''.'' (py_upper symbol) of
        (code, _, exchange) \<Rightarrow>
          if exchange = ''BJ'' \<or> list_ex (startswith code) BEIJING_PREFIXES then Beijing
          else if list_ex (startswith code) REGISTRATION_BOARD_PREFIXES then Registration
          else MainBoard)"

definition a_share_limit_ratio :: "string \<Rightarrow> bool \<Rightarrow> date_arg \<Rightarrow> instant \<Rightarrow> rat" where
  "a_share_limit_ratio symbol is_st trade_date now =
     (case a_share_board symbol of
        Beijing \<Rightarrow> 30 / 100
      | Registration \<Rightarrow> 20 / 100
      | MainBoard \<Rightarrow>
          if is_st then
            (let session = (case as_exchange_date trade_date of Some d \<Rightarrow> d | None \<Rightarrow> cn_today now)
             in if session \<ge> MAIN_BOARD_ST_TEN_PERCENT_FROM then 10 / 100 else 5 / 100)
          else 10 / 100)"

definition a_share_limit_prices :: "string \<Rightarrow> rat \<Rightarrow> rat \<Rightarrow> rat \<times> rat" where
  "a_share_limit_prices symbol pre_close ratio =
     (let beijing = (a_share_board symbol = Beijing)
      in (quantize_cent (if beijing then RoundFloor else RoundHalfUp) (dmul pre_close (dadd 1 ratio)),
          quantize_cent (if beijing then RoundCeiling else RoundHalfUp) (dmul pre_close (dsub 1 ratio))))"

definition is_st_security_name :: "string option \<Rightarrow> bool" where
  "is_st_security_name name =
     (let value = py_upper (py_strip (case name of None \<Rightarrow> [] | Some s \<Rightarrow> s))
      in startswith value ''ST'' \<or> startswith value ''*ST'')"

section \<open>Sessions\<close>

definition in_clock :: "int \<Rightarrow> int \<Rightarrow> int \<Rightarrow> int \<Rightarrow> int \<Rightarrow> bool" where
  "in_clock h1 m1 h2 m2 c \<longleftrightarrow> clock_time h1 m1 \<le> c \<and> c \<le> clock_time h2 m2"

definition china_equity_session :: "instant \<Rightarrow> bool \<times> string" where
  "china_equity_session now =
     (if 5 \<le> local_weekday now then (False, ''SSE is closed on weekends'')
      else if in_clock 9 30 11 30 (local_clock now) \<or> in_clock 13 0 15 0 (local_clock now)
      then (True, ''within SSE continuous auction session'')
      else (False, ''outside SSE continuous auction sessions (09:30-11:30, 13:00-15:00 Asia/Shanghai)''))"

definition china_equity_observation_session :: "instant \<Rightarrow> bool \<times> string" where
  "china_equity_observation_session now =
     (if 5 \<le> local_weekday now then (False, ''SSE is closed on weekends'')
      else if in_clock 9 15 11 30 (local_clock now) \<or> in_clock 13 0 15 0 (local_clock now)
      then (True, ''within SSE evidence observation session'')
      else (False, ''outside SSE evidence observation sessions (09:15-11:30, 13:00-15:00 Asia/Shanghai)''))"

definition china_futures_session :: "instant \<Rightarrow> bool \<times> string" where
  "china_futures_session now =
     (if 5 \<le> local_weekday now then (False, ''CFFEX is closed on weekends'')
      else if in_clock 9 0 11 30 (local_clock now) \<or> in_clock 13 30 15 0 (local_clock now)
      then (True, ''within CFFEX day session'')
      else (False, ''outside CFFEX day sessions (09:00-11:30, 13:30-15:00 Asia/Shanghai)''))"

definition exchange_date :: "instant \<Rightarrow> date" where
  "exchange_date now = local_date now"

text \<open>\<open>date.weekday()\<close> of an ordinal: \<open>(ordinal + 6) mod 7\<close>.\<close>

definition weekend_verdict :: "date \<Rightarrow> (bool \<times> string) option" where
  "weekend_verdict d =
     (if (d + 6) mod 7 \<ge> 5 then Some (False, ''SSE trade calendar treats weekends as closed'') else None)"

text \<open>The argument is the fetched row's \<open>is_open\<close>, \<^const>\<open>None\<close> for a missing row.\<close>

definition calendar_verdict :: "bool option \<Rightarrow> bool \<times> string" where
  "calendar_verdict row =
     (case row of
        None \<Rightarrow> (False, ''SSE trade calendar has no entry for today; fail closed'')
      | Some is_open \<Rightarrow>
          if \<not> is_open then (False, ''SSE trade calendar marks today closed'')
          else (True, ''SSE trade calendar marks today open''))"

definition realtime_clock :: "string option \<Rightarrow> instant \<Rightarrow> bool \<times> string" where
  "realtime_clock api_name now =
     (if api_name = Some ''rt_fut_min'' then china_futures_session now else china_equity_session now)"

definition observation_clock :: "instant \<Rightarrow> bool \<times> string" where
  "observation_clock now = china_equity_observation_session now"

definition session_verdict :: "bool \<times> string \<Rightarrow> bool \<times> string \<Rightarrow> bool \<times> string" where
  "session_verdict clock calendar =
     (case clock of (active, reason) \<Rightarrow>
        if \<not> active then (active, reason)
        else (case calendar of (calendar_open, calendar_reason) \<Rightarrow>
          if calendar_open then (True, reason) else (False, calendar_reason)))"

section \<open>Lemmas\<close>

named_theorems session_defs "the exchange clocks"

lemmas [session_defs] =
  china_equity_session_def china_equity_observation_session_def china_futures_session_def
  in_clock_def clock_time_def us_defs

lemma weekday_of_date: "local_weekday t = (local_date t + 6) mod 7"
proof -
  have "(x + 3) mod 7 = (x + 719163 + 6) mod (7 :: int)" for x
    using mod_mult_self1 [of "x + 3" 102738 7] by (simp add: algebra_simps)
  then show ?thesis unfolding local_weekday_def local_date_def .
qed

lemma a_share_limit_ratio_range:
  "a_share_limit_ratio s st d now \<in> {5 / 100, 10 / 100, 20 / 100, 30 / 100}"
  by (simp add: a_share_limit_ratio_def Let_def split: board.split)

lemma a_share_limit_ratio_bounds:
  "0 < a_share_limit_ratio s st d now" "a_share_limit_ratio s st d now < 1"
  using a_share_limit_ratio_range [of s st d now] by auto

text \<open>Sums of two-decimal numbers below one million are exact decimals.\<close>

lemma dec_exact: "\<bar>m\<bar> \<le> 10 ^ 28 \<Longrightarrow> dec (of_int m * 10 powi k) = of_int m * 10 powi k"
  using rne_exact [of 10 28 m k] by (simp add: dec_def)

lemma dec_hundredths: "\<bar>m\<bar> \<le> 10 ^ 28 \<Longrightarrow> dec (of_int m / 100) = of_int m / 100"
  using dec_exact [of m "- 2"] by (simp add: field_simps)

lemma band_factor_exact:
  assumes "r \<in> {5 / 100, 10 / 100, 20 / 100, 30 / 100}"
  shows "dadd 1 r = 1 + r" "dsub 1 r = 1 - r"
proof -
  from assms obtain k :: int where k: "r = of_int k / 100" "0 \<le> k" "k \<le> 30"
  proof -
    assume a: "\<And>k. r = of_int k / 100 \<Longrightarrow> 0 \<le> k \<Longrightarrow> k \<le> 30 \<Longrightarrow> thesis"
    from assms show thesis using a [of 5] a [of 10] a [of 20] a [of 30] by auto
  qed
  have e: "1 + r = of_int (100 + k) / 100" "1 - r = of_int (100 - k) / 100"
    using k(1) by (simp_all add: field_simps)
  show "dadd 1 r = 1 + r" unfolding dadd_def e by (rule dec_hundredths) (use k in simp)
  show "dsub 1 r = 1 - r" unfolding dsub_def e by (rule dec_hundredths) (use k in simp)
qed


lemma dmul_cents_exact:
  assumes "r = of_int k / 100" "0 \<le> k" "k \<le> 200" "0 \<le> n" "n \<le> 10 ^ 15"
  shows "dmul (of_int n / 100) r = of_int n / 100 * r"
proof -
  have "\<bar>n * k\<bar> \<le> 10 ^ 15 * 200"
    using mult_mono [of n "10 ^ 15" k 200] assms by (simp add: abs_mult)
  then have "dec (of_int (n * k) * 10 powi (- 4)) = of_int (n * k) * 10 powi (- 4)"
    by (intro dec_exact) simp
  moreover have "of_int n / 100 * r = of_int (n * k) * 10 powi (- 4)"
    using assms(1) by simp
  ultimately show ?thesis unfolding dmul_def by (simp only: simp_thms)
qed

lemma quantize_cent_cents [simp]: "quantize_cent m (of_int n / 100) = of_int n / 100"
proof -
  have h: "\<lfloor>of_int n + (1 / 2 :: rat)\<rfloor> = n" "\<lfloor>(1 / 2 :: rat) - of_int n\<rfloor> = - n"
    "\<lfloor>1 / 2 :: rat\<rfloor> = 0"
    by (intro floor_unique; simp)+
  show ?thesis
    by (cases m) (simp_all add: quantize_cent_def round_int_def round_half_up_def rfloor_floor h
        floor_uminus_of_int)
qed

lemma session_verdict_open:
  "fst (session_verdict c k) \<longleftrightarrow> fst c \<and> fst k"
  by (simp add: session_verdict_def split: prod.split)

lemma calendar_verdict_open: "fst (calendar_verdict row) \<longleftrightarrow> row = Some True"
  by (simp add: calendar_verdict_def split: option.split)

section \<open>Properties\<close>

text \<open>
  The limit prices of a previous close quoted in cents bracket it: the down limit never
  exceeds the previous close, the up limit never falls below it, both lie within a cent of
  the exact band, and on the Beijing board both stay inside the band (the up limit rounds
  down, the down limit rounds up).
\<close>

theorem limit_prices_bracket:
  assumes pre: "pre = of_int n / 100" "0 < n" "n \<le> 10 ^ 15"
    and r: "r = a_share_limit_ratio symbol st d now"
    and prices: "a_share_limit_prices symbol pre r = (up, down)"
  shows "down \<le> pre \<and> pre \<le> up \<and> \<bar>up - pre * (1 + r)\<bar> < 1 / 100 \<and> \<bar>down - pre * (1 - r)\<bar> < 1 / 100
    \<and> (a_share_board symbol = Beijing \<longrightarrow> up \<le> pre * (1 + r) \<and> pre * (1 - r) \<le> down)"
proof -
  have rng: "r \<in> {5 / 100, 10 / 100, 20 / 100, 30 / 100}"
    unfolding r by (rule a_share_limit_ratio_range)
  then obtain k :: int where k: "1 + r = of_int (100 + k) / 100" "1 - r = of_int (100 - k) / 100"
    "0 \<le> k" "k \<le> 30"
  proof -
    assume a: "\<And>k. 1 + r = of_int (100 + k) / 100 \<Longrightarrow> 1 - r = of_int (100 - k) / 100 \<Longrightarrow> 0 \<le> k \<Longrightarrow> k \<le> 30 \<Longrightarrow> thesis"
    from rng show thesis using a [of 5] a [of 10] a [of 20] a [of 30] by auto
  qed
  have exact: "dmul pre (dadd 1 r) = pre * (1 + r)" "dmul pre (dsub 1 r) = pre * (1 - r)"
    unfolding band_factor_exact [OF rng] pre(1)
    by (rule dmul_cents_exact [OF k(1)] dmul_cents_exact [OF k(2)]; use k pre in simp)+
  have mono: "pre \<le> pre * (1 + r)" "pre * (1 - r) \<le> pre"
    using pre rng by (auto simp: field_simps)
  have q: "quantize_cent m pre = pre" for m by (simp add: pre)
  have le: "pre \<le> quantize_cent m (pre * (1 + r))" "quantize_cent m (pre * (1 - r)) \<le> pre" for m
    using quantize_cent_mono [OF mono(1), of m] quantize_cent_mono [OF mono(2), of m] by (simp_all add: q)
  have near: "\<bar>quantize_cent RoundHalfUp x - x\<bar> < 1 / 100" "\<bar>quantize_cent RoundFloor x - x\<bar> < 1 / 100"
    "\<bar>quantize_cent RoundCeiling x - x\<bar> < 1 / 100" for x
    using quantize_cent_half_up [of x] quantize_cent_floor [of x] quantize_cent_ceiling [of x] by linarith+
  show ?thesis
  proof (cases "a_share_board symbol = Beijing")
    case True
    then have e: "up = quantize_cent RoundFloor (pre * (1 + r))" "down = quantize_cent RoundCeiling (pre * (1 - r))"
      using prices by (simp_all add: a_share_limit_prices_def exact)
    show ?thesis unfolding e
      using le near quantize_cent_floor(1) quantize_cent_ceiling(1) by blast
  next
    case False
    then have e: "up = quantize_cent RoundHalfUp (pre * (1 + r))" "down = quantize_cent RoundHalfUp (pre * (1 - r))"
      using prices by (simp_all add: a_share_limit_prices_def exact)
    show ?thesis unfolding e using le near False by blast
  qed
qed

theorem limit_prices_bracket_witness:
  "a_share_limit_prices ''430047.BJ'' (1003 / 100) (30 / 100) = (1303 / 100, 703 / 100)
   \<and> (1303 / 100 :: rat) \<le> 1003 / 100 * (1 + 30 / 100)"
proof -
  have r: "(30 / 100 :: rat) = a_share_limit_ratio ''430047.BJ'' False DateNone 0" by code_simp
  have b: "a_share_board ''430047.BJ'' = Beijing" by code_simp
  have p: "a_share_limit_prices ''430047.BJ'' (1003 / 100) (30 / 100) = (1303 / 100, 703 / 100)"
    by code_simp
  have n: "1003 / 100 = (of_int 1003 / 100 :: rat)" "(0 :: int) < 1003" "(1003 :: int) \<le> 10 ^ 15" by simp_all
  note bracket = limit_prices_bracket [OF n r p, THEN conjunct2, THEN conjunct2, THEN conjunct2, THEN conjunct2]
  show ?thesis by (rule conjI [OF p]) (rule bracket [THEN mp, OF b, THEN conjunct1])
qed

text \<open>
  A live confirmation is allowed exactly when it is a weekday, the local clock is inside
  a continuous-auction window and the stored calendar row says the day is open; a missing
  row fails closed, and an open confirmation session always lies inside the observation
  session.
\<close>

theorem session_gate:
  "(fst (session_verdict (realtime_clock None now) (calendar_verdict row)) \<longleftrightarrow>
     local_weekday now < 5 \<and> row = Some True \<and>
     (clock_time 9 30 \<le> local_clock now \<and> local_clock now \<le> clock_time 11 30 \<or>
      clock_time 13 0 \<le> local_clock now \<and> local_clock now \<le> clock_time 15 0))
   \<and> (fst (realtime_clock None now) \<longrightarrow> fst (observation_clock now) \<and> weekend_verdict (exchange_date now) = None)"
  by (auto simp: session_verdict_open calendar_verdict_open realtime_clock_def observation_clock_def
      weekend_verdict_def exchange_date_def weekday_of_date session_defs)

theorem session_gate_witness:
  "fst (realtime_clock None 1760407200000000) \<and> fst (observation_clock 1760407200000000)"
proof -
  have "fst (realtime_clock None 1760407200000000)" by code_simp
  then show ?thesis using session_gate [of 1760407200000000 None] by blast
qed

end
