(* ===== verification/AshareReality.thy ===== *)
theory AshareReality
  imports MarketRules
begin

text \<open>
  \<open>quant-service/app/ashare_reality.py\<close>: board-lot rounding, the limit state of a quote,
  tradability of an order and the paper cost of a trade. A key of the quote dictionary is a
  \<open>field\<close>: absent, present with \<open>None\<close>, or present with a value; numeric fields hold the
  float \<open>_number\<close> reads. \<open>Decimal\<close> parameters are exact decimals.
\<close>

datatype 'v field = Absent | Null | Val 'v

definition LOT_SIZE :: int where "LOT_SIZE = 100"
definition DEFAULT_COMMISSION_RATE :: rat where "DEFAULT_COMMISSION_RATE = 3 / 10000"
definition DEFAULT_STAMP_TAX_RATE :: rat where "DEFAULT_STAMP_TAX_RATE = 5 / 10000"
definition DEFAULT_TRANSFER_FEE_RATE :: rat where "DEFAULT_TRANSFER_FEE_RATE = 1 / 100000"
definition DEFAULT_SLIPPAGE_BPS :: rat where "DEFAULT_SLIPPAGE_BPS = 5"

section \<open>Board lots\<close>

definition dec_to_int :: "rat \<Rightarrow> int" where
  "dec_to_int x = round_int RoundDown x"

definition round_board_lot :: "rat \<Rightarrow> int \<Rightarrow> int res" where
  "round_board_lot quantity lot_size =
     bindR (ddiv quantity (of_int lot_size))
       (\<lambda>lots. Inr (dec_to_int (dmul (of_int (round_int RoundDown lots)) (of_int lot_size))))"

section \<open>Limit state of a quote\<close>

record quote_data =
  q_symbol :: "string field"
  q_ts_code :: "string field"
  q_is_st :: "bool field"
  q_price :: "rat field"
  q_limit_up :: "rat field"
  q_limit_down :: "rat field"
  q_pct_change :: "rat field"
  q_at_limit_up :: "bool field"
  q_at_limit_down :: "bool field"
  q_price_trade_date :: "date_arg field"
  q_trading_date :: "date_arg field"
  q_is_suspended :: "bool field"
  q_allow_limit_fill :: "bool field"

definition empty_quote :: quote_data where
  "empty_quote = \<lparr>q_symbol = Absent, q_ts_code = Absent, q_is_st = Absent, q_price = Absent,
     q_limit_up = Absent, q_limit_down = Absent, q_pct_change = Absent, q_at_limit_up = Absent,
     q_at_limit_down = Absent, q_price_trade_date = Absent, q_trading_date = Absent,
     q_is_suspended = Absent, q_allow_limit_fill = Absent\<rparr>"

text \<open>\<open>{**raw, **quote}\<close>: a key of the quote hides the raw one, even with value \<open>None\<close>.\<close>

definition merge_field :: "'v field \<Rightarrow> 'v field \<Rightarrow> 'v field" where
  "merge_field raw quote = (case quote of Absent \<Rightarrow> raw | _ \<Rightarrow> quote)"

definition get_field :: "'v field \<Rightarrow> 'v option" where
  "get_field f = (case f of Val v \<Rightarrow> Some v | _ \<Rightarrow> None)"

definition truthy :: "bool field \<Rightarrow> bool" where
  "truthy f = (f = Val True)"

definition text_or :: "string option \<Rightarrow> string \<Rightarrow> string" where
  "text_or v rest = (case v of Some s \<Rightarrow> if s = [] then rest else s | None \<Rightarrow> rest)"

definition date_or :: "date_arg option \<Rightarrow> date_arg \<Rightarrow> date_arg" where
  "date_or v rest =
     (case v of None \<Rightarrow> rest | Some DateNone \<Rightarrow> rest | Some (DateText []) \<Rightarrow> rest | Some d \<Rightarrow> d)"

record limit_state =
  at_limit_up :: bool
  at_limit_down :: bool
  limit_ratio :: rat
  limit_up :: "rat option"
  limit_down :: "rat option"

definition price_limit_state :: "string option \<Rightarrow> quote_data \<Rightarrow> quote_data \<Rightarrow> instant \<Rightarrow> limit_state" where
  "price_limit_state symbol raw quote now =
     (let m = (\<lambda>f. merge_field (f raw) (f quote));
          resolved_symbol = text_or symbol (text_or (get_field (merge_field (q_symbol raw) (q_symbol quote)))
            (text_or (get_field (merge_field (q_ts_code raw) (q_ts_code quote))) []));
          is_st = truthy (merge_field (q_is_st raw) (q_is_st quote));
          price = get_field (m q_price);
          lup = get_field (m q_limit_up);
          ldown = get_field (m q_limit_down);
          pct = get_field (m q_pct_change);
          up0 = truthy (merge_field (q_at_limit_up raw) (q_at_limit_up quote));
          down0 = truthy (merge_field (q_at_limit_down raw) (q_at_limit_down quote));
          up1 = (case (price, lup) of (Some p, Some l) \<Rightarrow> up0 \<or> p \<ge> fmul l (flt (999 / 1000)) | _ \<Rightarrow> up0);
          down1 = (case (price, ldown) of (Some p, Some l) \<Rightarrow> down0 \<or> p \<le> fmul l (flt (1001 / 1000)) | _ \<Rightarrow> down0);
          ratio = a_share_limit_ratio resolved_symbol is_st
            (date_or (get_field (merge_field (q_price_trade_date raw) (q_price_trade_date quote)))
              (date_or (get_field (merge_field (q_trading_date raw) (q_trading_date quote))) DateNone)) now;
          threshold = fmul (fmul (flt ratio) 100) (flt (98 / 100));
          up2 = (case (pct, lup) of (Some c, None) \<Rightarrow> up1 \<or> c \<ge> threshold | _ \<Rightarrow> up1);
          down2 = (case (pct, ldown) of (Some c, None) \<Rightarrow> down1 \<or> c \<le> - threshold | _ \<Rightarrow> down1)
      in \<lparr>at_limit_up = up2, at_limit_down = down2, limit_ratio = flt ratio, limit_up = lup, limit_down = ldown\<rparr>)"

section \<open>Tradability\<close>

definition lower_char :: "char \<Rightarrow> char" where
  "lower_char c = (let n = of_char c :: nat in if 65 \<le> n \<and> n \<le> 90 then char_of (n + 32) else c)"

definition py_lower :: "string \<Rightarrow> string" where
  "py_lower s = map lower_char s"

definition assess_tradability ::
    "string option \<Rightarrow> int \<Rightarrow> quote_data \<Rightarrow> quote_data \<Rightarrow> int \<Rightarrow> string option \<Rightarrow> instant \<Rightarrow> bool \<times> string list" where
  "assess_tradability side requested_quantity raw quote sellable_quantity symbol now =
     (let s = py_lower (case side of None \<Rightarrow> [] | Some x \<Rightarrow> x);
          limits = price_limit_state symbol raw quote now;
          allow = truthy (q_allow_limit_fill quote);
          reasons =
            (if s \<notin> {''buy'', ''sell''} then [''unsupported_order_side''] else [])
            @ (if requested_quantity \<le> 0 then [''non_positive_quantity''] else [])
            @ (if truthy (q_is_suspended quote) then [''suspended''] else [])
            @ (if s = ''sell'' \<and> sellable_quantity < requested_quantity
               then [''t_plus_one_or_insufficient_sellable_quantity''] else [])
            @ (if s = ''buy'' \<and> at_limit_up limits \<and> \<not> allow then [''limit_up_non_fill_risk''] else [])
            @ (if s = ''sell'' \<and> at_limit_down limits \<and> \<not> allow then [''limit_down_non_fill_risk''] else [])
      in (reasons = [], fromkeys reasons))"

section \<open>Trade costs\<close>

record trade_cost =
  notional :: rat
  commission :: rat
  stamp_tax :: rat
  transfer_fee :: rat
  slippage :: rat
  total_cost :: rat

definition estimate_trade_cost :: "string \<Rightarrow> int \<Rightarrow> rat \<Rightarrow> rat \<Rightarrow> rat \<Rightarrow> rat \<Rightarrow> rat \<Rightarrow> trade_cost" where
  "estimate_trade_cost side quantity price commission_rate stamp_tax_rate slippage_bps transfer_fee_rate =
     (let ntl = dmul price (of_int (max 0 quantity));
          com = (if ntl \<noteq> 0 then max 5 (dmul ntl commission_rate) else 0);
          stamp = (if py_lower side = ''sell'' then dmul ntl stamp_tax_rate else 0);
          slip = dec (dmul ntl slippage_bps / 10000);
          fee = dmul ntl transfer_fee_rate
      in \<lparr>notional = ntl, commission = com, stamp_tax = stamp, transfer_fee = fee, slippage = slip,
          total_cost = dadd (dadd (dadd com stamp) fee) slip\<rparr>)"

definition round_trip_cost_pct :: "rat \<Rightarrow> rat \<Rightarrow> rat \<Rightarrow> rat \<Rightarrow> rat" where
  "round_trip_cost_pct commission_rate stamp_tax_rate slippage_bps transfer_fee_rate =
     (let slip = dec (slippage_bps / 10000);
          buy = dadd (dadd commission_rate transfer_fee_rate) slip;
          sell = dadd (dadd (dadd commission_rate transfer_fee_rate) stamp_tax_rate) slip
      in dmul (dadd buy sell) 100)"

section \<open>Lemmas\<close>

lemma dmul_nonneg: "0 \<le> x \<Longrightarrow> 0 \<le> y \<Longrightarrow> 0 \<le> dmul x y"
  by (simp add: dmul_def dec.rnd_nonneg)

lemma dadd_nonneg: "0 \<le> x \<Longrightarrow> 0 \<le> y \<Longrightarrow> 0 \<le> dadd x y"
  by (simp add: dadd_def dec.rnd_nonneg)

lemma dmul_mono: "x \<le> x' \<Longrightarrow> y \<le> y' \<Longrightarrow> 0 \<le> x \<Longrightarrow> 0 \<le> y \<Longrightarrow> dmul x y \<le> dmul x' y'"
  by (simp add: dmul_def dec.rnd_mono mult_mono)

lemma dadd_mono: "x \<le> x' \<Longrightarrow> y \<le> y' \<Longrightarrow> dadd x y \<le> dadd x' y'"
  by (simp add: dadd_def dec.rnd_mono)

text \<open>Adding a non-negative amount to a decimal never falls below it.\<close>

lemma dadd_ge: "dec x = x \<Longrightarrow> 0 \<le> y \<Longrightarrow> x \<le> dadd x y"
  unfolding dadd_def by (rule dec.rnd_ge) auto

lemma dec_dadd [simp]: "dec (dadd x y) = dadd x y"
  by (simp add: dadd_def dec.rnd_idem)

lemma dec_dsub [simp]: "dec (dsub x y) = dsub x y"
  by (simp add: dsub_def dec.rnd_idem)

lemma dec_dmul [simp]: "dec (dmul x y) = dmul x y"
  by (simp add: dmul_def dec.rnd_idem)

lemmas dec_arith = dmul_nonneg dadd_nonneg dmul_mono dadd_mono dadd_ge

lemma dec_small_int: "\<bar>n\<bar> \<le> 10 ^ 15 \<Longrightarrow> dec (of_int n) = of_int n"
  by (rule dec.rnd_small_int)

lemma dec_5: "dec 5 = 5"
  using dec_small_int [of 5] by simp

lemma round_int_of_int [simp]: "round_int m (of_int n) = n"
proof -
  have "\<lfloor>of_int n + (1 / 2 :: rat)\<rfloor> = n" "\<lfloor>(1 / 2 :: rat) - of_int n\<rfloor> = - n"
    by (intro floor_unique; simp)+
  then show ?thesis
    by (cases m) (simp_all add: round_int_def round_half_up_def rfloor_floor)
qed

lemma round_down_div: "0 \<le> n \<Longrightarrow> round_int RoundDown (of_int n / 100) = n div 100"
  using floor_divide_of_int_eq [of n 100, where ?'a = rat]
  by (simp add: round_int_def rfloor_floor)

lemma trade_cost_parts_nonneg:
  assumes "0 \<le> price" "0 \<le> cr" "0 \<le> sr" "0 \<le> bps" "0 \<le> tr"
  shows "0 \<le> notional (estimate_trade_cost side q price cr sr bps tr)"
    "0 \<le> commission (estimate_trade_cost side q price cr sr bps tr)"
    "0 \<le> stamp_tax (estimate_trade_cost side q price cr sr bps tr)"
    "0 \<le> transfer_fee (estimate_trade_cost side q price cr sr bps tr)"
    "0 \<le> slippage (estimate_trade_cost side q price cr sr bps tr)"
  using assms by (auto simp: estimate_trade_cost_def Let_def dmul_nonneg dec.rnd_nonneg le_max_iff_disj)

section \<open>Properties\<close>

text \<open>
  Board-lot rounding of a whole share count: the result is a multiple of 100, never
  exceeds the request and falls short of it by less than one lot.
\<close>

theorem round_board_lot_spec:
  assumes "0 \<le> n" "n \<le> 10 ^ 15"
  shows "\<exists>r. round_board_lot (of_int n) LOT_SIZE = Inr r \<and> r mod LOT_SIZE = 0 \<and> r \<le> n \<and> n < r + LOT_SIZE"
proof -
  have "dec (of_int n / 100) = of_int n / 100" using assms by (intro dec_hundredths) simp
  then have lots: "ddiv (of_int n) (of_int LOT_SIZE) = Inr (of_int n / 100)"
    by (simp add: ddiv_def LOT_SIZE_def)
  have "\<bar>n div 100 * 100\<bar> \<le> 10 ^ 15" using assms by auto
  then have "dmul (of_int (n div 100)) 100 = of_int (n div 100 * 100)"
    unfolding dmul_def using dec_small_int [of "n div 100 * 100"] by simp
  then have "round_board_lot (of_int n) LOT_SIZE = Inr (n div 100 * 100)"
    using lots assms(1) by (simp add: round_board_lot_def round_down_div LOT_SIZE_def dec_to_int_def
        del: of_int_mult)
  then show ?thesis by (simp add: LOT_SIZE_def) linarith
qed

theorem round_board_lot_spec_witness:
  "\<exists>r. round_board_lot 1099 LOT_SIZE = Inr r \<and> r mod LOT_SIZE = 0 \<and> r \<le> 1099 \<and> 1099 < r + LOT_SIZE"
  using round_board_lot_spec [of 1099] by simp

text \<open>
  A trade cost is never negative, a trade of a positive amount pays at least the
  five-yuan commission floor in total, an empty one pays nothing, and a sale costs at least
  as much as the purchase of the same shares at the same price.
\<close>

theorem trade_cost_bounds:
  assumes "0 \<le> price" "0 \<le> cr" "0 \<le> sr" "0 \<le> bps" "0 \<le> tr"
  shows "0 \<le> total_cost (estimate_trade_cost side q price cr sr bps tr)
    \<and> (0 < q \<and> 0 < price \<longrightarrow> 5 \<le> total_cost (estimate_trade_cost side q price cr sr bps tr))
    \<and> (q \<le> 0 \<longrightarrow> total_cost (estimate_trade_cost side q price cr sr bps tr) = 0)
    \<and> total_cost (estimate_trade_cost ''buy'' q price cr sr bps tr)
       \<le> total_cost (estimate_trade_cost ''sell'' q price cr sr bps tr)"
proof -
  define c where "c = estimate_trade_cost side q price cr sr bps tr"
  note parts = trade_cost_parts_nonneg [OF assms, of side q, folded c_def]
  have total: "total_cost c = dadd (dadd (dadd (commission c) (stamp_tax c)) (transfer_fee c)) (slippage c)"
    by (simp add: c_def estimate_trade_cost_def Let_def)
  have nonneg: "0 \<le> total_cost c"
    unfolding total by (intro dadd_nonneg parts)
  have floor: "5 \<le> total_cost c" if "0 < q" "0 < price"
  proof -
    have "0 < notional c"
      using that by (simp add: c_def estimate_trade_cost_def Let_def dmul_def dec.rnd_pos)
    then have "5 \<le> commission c" by (simp add: c_def estimate_trade_cost_def Let_def split: if_splits)
    then have "5 \<le> dadd (commission c) (stamp_tax c)"
      unfolding dadd_def using parts(3) by (intro dec.rnd_ge dec_5) auto
    then have "5 \<le> dadd (dadd (commission c) (stamp_tax c)) (transfer_fee c)"
      using dadd_ge [OF dec_dadd parts(4)] order_trans by blast
    then show ?thesis unfolding total using dadd_ge [OF dec_dadd parts(5)] order_trans by blast
  qed
  have empty: "total_cost c = 0" if "q \<le> 0"
    using that by (simp add: c_def estimate_trade_cost_def Let_def dmul_def dadd_def dec.rnd_0 max_def)
  have "total_cost (estimate_trade_cost ''buy'' q price cr sr bps tr)
     \<le> total_cost (estimate_trade_cost ''sell'' q price cr sr bps tr)"
    using trade_cost_parts_nonneg [OF assms, of "''sell''" q]
    by (auto simp: estimate_trade_cost_def Let_def py_lower_def lower_char_def intro!: dadd_mono)
  with nonneg floor empty show ?thesis unfolding c_def by blast
qed

theorem trade_cost_bounds_witness:
  "5 \<le> total_cost (estimate_trade_cost ''sell'' 100 10 (3 / 10000) (5 / 10000) 5 (1 / 100000))"
  using trade_cost_bounds [of 10 "3 / 10000" "5 / 10000" 5 "1 / 100000" "''sell''" 100] by simp

text \<open>
  Tradability is decided exactly by the side, the quantity, the suspension, the T+1
  sellable quantity and the limit state: an order is allowed iff none of the blocking
  conditions holds, and every refusal names its reason once.
\<close>

theorem assess_tradability_iff:
  "(fst (assess_tradability side qty raw quote sellable symbol now) \<longleftrightarrow>
     py_lower (case side of None \<Rightarrow> [] | Some x \<Rightarrow> x) \<in> {''buy'', ''sell''} \<and> 0 < qty
     \<and> q_is_suspended quote \<noteq> Val True
     \<and> (py_lower (case side of None \<Rightarrow> [] | Some x \<Rightarrow> x) = ''sell'' \<longrightarrow> qty \<le> sellable)
     \<and> (q_allow_limit_fill quote \<noteq> Val True \<longrightarrow>
          (py_lower (case side of None \<Rightarrow> [] | Some x \<Rightarrow> x) = ''buy'' \<longrightarrow>
             \<not> at_limit_up (price_limit_state symbol raw quote now))
        \<and> (py_lower (case side of None \<Rightarrow> [] | Some x \<Rightarrow> x) = ''sell'' \<longrightarrow>
             \<not> at_limit_down (price_limit_state symbol raw quote now))))
   \<and> (snd (assess_tradability side qty raw quote sellable symbol now) = [] \<longleftrightarrow>
        fst (assess_tradability side qty raw quote sellable symbol now))
   \<and> distinct (snd (assess_tradability side qty raw quote sellable symbol now))"
  by (auto simp: assess_tradability_def Let_def truthy_def)

theorem assess_tradability_iff_witness:
  "\<not> fst (assess_tradability (Some ''BUY'') 100 empty_quote
        (empty_quote\<lparr>q_price := Val 11, q_limit_up := Val 11\<rparr>) 0 (Some ''600519.SH'') 0)"
proof -
  have up: "at_limit_up (price_limit_state (Some ''600519.SH'') empty_quote
      (empty_quote\<lparr>q_price := Val 11, q_limit_up := Val 11\<rparr>) 0)"
    by code_simp
  have "py_lower ''BUY'' = ''buy''" by code_simp
  then show ?thesis
    using assess_tradability_iff [of "Some ''BUY''" 100 empty_quote
        "empty_quote\<lparr>q_price := Val 11, q_limit_up := Val 11\<rparr>" 0 "Some ''600519.SH''" 0] up
    by (simp add: empty_quote_def)
qed

end
