(* ===== verification/T1Settlement.thy ===== *)
theory T1Settlement
  imports AshareReality
begin

text \<open>
  \<open>quant-service/app/t1_settlement.py\<close>: settlement of a daily idea under T+1. Bars are
  \<open>SettlementBar\<close> values (the row reader \<open>from_row\<close> is not modelled); a \<open>PricedBar\<close> is
  the same record extended by its source, so the functions the code calls on either take a
  record scheme. An exit rule is a closure that may keep state between bars: it is a step
  function over an explicit state.
\<close>

record settlement_bar =
  trading_date :: date
  bar_open :: "rat option"
  bar_high :: "rat option"
  bar_low :: "rat option"
  bar_close :: "rat option"
  pre_close :: "rat option"
  adj_factor :: "rat option"
  is_suspended :: bool
  limit_up_price :: "rat option"
  limit_down_price :: "rat option"

record priced_bar = settlement_bar +
  source :: settlement_bar

datatype price_basis = AdjFactorAdjusted | UnadjustedMissingAdjFactor

record price_window_data =
  bars :: "priced_bar list"
  basis :: price_basis

definition MIN_HOLDING_SESSIONS :: int where "MIN_HOLDING_SESSIONS = 2"
definition MAX_EXIT_ROLL_SESSIONS :: nat where "MAX_EXIT_ROLL_SESSIONS = 10"

definition ROUND_TRIP_COST :: rat where
  "ROUND_TRIP_COST =
     dec (round_trip_cost_pct DEFAULT_COMMISSION_RATE DEFAULT_STAMP_TAX_RATE DEFAULT_SLIPPAGE_BPS
            DEFAULT_TRANSFER_FEE_RATE / 100)"

definition LIMIT_TOLERANCE :: rat where "LIMIT_TOLERANCE = 1 / 1000"

section \<open>Limits of a bar\<close>

definition or_else :: "'a option \<Rightarrow> 'a \<Rightarrow> 'a option" where
  "or_else x d = (case x of Some v \<Rightarrow> Some v | None \<Rightarrow> Some d)"

definition limits :: "'b settlement_bar_scheme \<Rightarrow> string \<Rightarrow> rat option \<times> rat option" where
  "limits bar symbol =
     (if limit_up_price bar \<noteq> None \<and> limit_down_price bar \<noteq> None
      then (limit_up_price bar, limit_down_price bar)
      else case pre_close bar of
          None \<Rightarrow> (limit_up_price bar, limit_down_price bar)
        | Some pre \<Rightarrow>
            if pre \<le> 0 then (limit_up_price bar, limit_down_price bar)
            else (case a_share_limit_prices symbol pre
                         (a_share_limit_ratio symbol False (DateIs (trading_date bar)) 0) of
                    (band_up, band_down) \<Rightarrow>
                      (or_else (limit_up_price bar) band_up, or_else (limit_down_price bar) band_down)))"

definition at_up :: "rat \<Rightarrow> rat option \<Rightarrow> bool" where
  "at_up price lmt = (case lmt of None \<Rightarrow> False | Some l \<Rightarrow> price \<ge> dmul l (dsub 1 LIMIT_TOLERANCE))"

definition at_down :: "rat \<Rightarrow> rat option \<Rightarrow> bool" where
  "at_down price lmt = (case lmt of None \<Rightarrow> False | Some l \<Rightarrow> price \<le> dmul l (dadd 1 LIMIT_TOLERANCE))"

section \<open>One price basis for a window\<close>

definition scale :: "bool \<Rightarrow> rat option \<Rightarrow> settlement_bar \<Rightarrow> rat option" where
  "scale adjusted v bar =
     (if adjusted then (case (v, adj_factor bar) of (Some x, Some a) \<Rightarrow> Some (dmul x a) | _ \<Rightarrow> v) else v)"

definition factor_positive :: "settlement_bar \<Rightarrow> bool" where
  "factor_positive bar = (case adj_factor bar of None \<Rightarrow> False | Some a \<Rightarrow> a > 0)"

definition priced :: "bool \<Rightarrow> settlement_bar \<Rightarrow> priced_bar" where
  "priced adjusted bar =
     \<lparr>trading_date = trading_date bar, bar_open = scale adjusted (bar_open bar) bar,
      bar_high = scale adjusted (bar_high bar) bar, bar_low = scale adjusted (bar_low bar) bar,
      bar_close = scale adjusted (bar_close bar) bar, pre_close = scale adjusted (pre_close bar) bar,
      adj_factor = (if adjusted then Some 1 else None), is_suspended = is_suspended bar,
      limit_up_price = scale adjusted (limit_up_price bar) bar,
      limit_down_price = scale adjusted (limit_down_price bar) bar, source = bar\<rparr>"

definition price_window :: "settlement_bar list \<Rightarrow> price_window_data" where
  "price_window path =
     (let adjusted = list_all factor_positive path
      in \<lparr>bars = map (priced adjusted) path,
          basis = (if adjusted then AdjFactorAdjusted else UnadjustedMissingAdjFactor)\<rparr>)"

section \<open>What a session allows\<close>

definition entry_block_reason :: "'b settlement_bar_scheme \<Rightarrow> int \<Rightarrow> string \<Rightarrow> string option" where
  "entry_block_reason bar direction symbol =
     (if is_suspended bar then Some ''entry_suspended''
      else case bar_open bar of
          None \<Rightarrow> Some ''entry_open_missing''
        | Some op \<Rightarrow>
            if op \<le> 0 then Some ''entry_open_missing''
            else (case limits bar symbol of (lup, ldown) \<Rightarrow>
              if direction > 0 \<and> at_up op lup then Some ''entry_opened_at_limit_up''
              else if direction < 0 \<and> at_down op ldown then Some ''entry_opened_at_limit_down''
              else None))"

datatype sale_field = OpenField | CloseField

definition field_price :: "'b settlement_bar_scheme \<Rightarrow> sale_field \<Rightarrow> rat option" where
  "field_price bar f = (case f of OpenField \<Rightarrow> bar_open bar | CloseField \<Rightarrow> bar_close bar)"

definition sale_blocked :: "string \<Rightarrow> 'b settlement_bar_scheme \<Rightarrow> sale_field \<Rightarrow> bool" where
  "sale_blocked symbol bar f =
     (case field_price bar f of
        None \<Rightarrow> True
      | Some price \<Rightarrow>
          if is_suspended bar \<or> price \<le> 0 then True
          else at_down price (snd (limits bar symbol)))"

definition exit_blocked :: "'b settlement_bar_scheme \<Rightarrow> int \<Rightarrow> string \<Rightarrow> bool" where
  "exit_blocked bar direction symbol =
     (if direction > 0 then sale_blocked symbol bar CloseField
      else case bar_close bar of
          None \<Rightarrow> True
        | Some c \<Rightarrow>
            if is_suspended bar \<or> c \<le> 0 then True
            else at_up c (fst (limits bar symbol)))"

definition opens_at_up_limit :: "string \<Rightarrow> 'b settlement_bar_scheme \<Rightarrow> bool option" where
  "opens_at_up_limit symbol bar =
     (case bar_open bar of None \<Rightarrow> None | Some op \<Rightarrow> Some (at_up op (fst (limits bar symbol))))"

definition closes_at_up_limit :: "string \<Rightarrow> 'b settlement_bar_scheme \<Rightarrow> bool option" where
  "closes_at_up_limit symbol bar =
     (case bar_close bar of None \<Rightarrow> None | Some c \<Rightarrow> Some (at_up c (fst (limits bar symbol))))"

section \<open>Walking an exit rule\<close>

datatype decision = AtField string | FixedPrice string rat

datatype walked =
    Settled (exit_index: nat) (exit_field: string) (exit_price: "rat option") (exit_reason: string)
  | WalkPending (pending_reason: string)

type_synonym 's exit_rule = "'s \<Rightarrow> nat \<Rightarrow> priced_bar \<Rightarrow> decision option \<times> 's"

definition field_name :: "sale_field \<Rightarrow> string" where
  "field_name f = (case f of OpenField \<Rightarrow> ''open'' | CloseField \<Rightarrow> ''close'')"

definition field_of_name :: "string \<Rightarrow> sale_field res" where
  "field_of_name s =
     (if s = ''open'' then Inr OpenField else if s = ''close'' then Inr CloseField else Inl ValueError)"

definition roll_blocked :: "string \<Rightarrow> int \<Rightarrow> priced_bar \<Rightarrow> sale_field \<Rightarrow> bool" where
  "roll_blocked symbol direction candidate f =
     (if direction > 0 then sale_blocked symbol candidate f else exit_blocked candidate (- 1) symbol)"

text \<open>The inner loop: \<open>left\<close> is \<open>max_exit_roll_sessions - roll\<close>.\<close>

fun roll_exit :: "string \<Rightarrow> int \<Rightarrow> sale_field \<Rightarrow> priced_bar list \<Rightarrow> nat \<Rightarrow> nat \<Rightarrow> nat \<Rightarrow> walked" where
  "roll_exit symbol direction f bs index roll left =
     (let ci = index + roll in
      if ci \<ge> length bs then WalkPending ''not_resolved''
      else
        let candidate = bs ! ci;
            cf = (if roll = 0 then f else CloseField)
        in
          if \<not> roll_blocked symbol direction candidate cf
          then Settled ci (field_name cf) (field_price candidate cf)
                 (if roll = 0 then ''rule'' else ''exit_rolled_past_blocked_session'')
          else if cf = OpenField \<and> \<not> roll_blocked symbol direction candidate CloseField
          then Settled ci ''close'' (bar_close candidate) ''open_blocked_close_fallback''
          else (case left of
              0 \<Rightarrow> (case bar_close candidate of
                     None \<Rightarrow> WalkPending ''exit_blocked_without_price''
                   | Some c \<Rightarrow> Settled ci ''close'' (Some c) ''exit_blocked_valued_at_close'')
            | Suc left' \<Rightarrow> roll_exit symbol direction f bs index (Suc roll) left'))"

text \<open>The outer loop over the bars from \<open>index\<close> on; \<open>todo\<close> is the rest of the window.\<close>

fun walk_from :: "string \<Rightarrow> int \<Rightarrow> nat \<Rightarrow> 's exit_rule \<Rightarrow> priced_bar list \<Rightarrow> 's \<Rightarrow> nat \<Rightarrow> priced_bar list
    \<Rightarrow> walked res" where
  "walk_from symbol direction maxroll rule bs st index [] = Inr (WalkPending ''not_resolved'')"
| "walk_from symbol direction maxroll rule bs st index (bar # todo) =
     (case rule st index bar of
        (None, st') \<Rightarrow> walk_from symbol direction maxroll rule bs st' (Suc index) todo
      | (Some d, st') \<Rightarrow>
          (case d of
             FixedPrice name p \<Rightarrow>
               if name \<in> {''target'', ''stop''} then Inr (Settled index name (Some p) ''rule'')
               else bindR (field_of_name name)
                 (\<lambda>f. Inr (roll_exit symbol direction f bs index 0 maxroll))
           | AtField name \<Rightarrow>
               bindR (field_of_name name)
                 (\<lambda>f. Inr (roll_exit symbol direction f bs index 0 maxroll))))"

definition walk_exit :: "priced_bar list \<Rightarrow> string \<Rightarrow> 's exit_rule \<Rightarrow> 's \<Rightarrow> nat \<Rightarrow> int \<Rightarrow> walked res" where
  "walk_exit bs symbol rule st maxroll direction = walk_from symbol direction maxroll rule bs st 0 bs"

section \<open>Settlement\<close>

record settled_outcome =
  s_direction :: int
  entry_date :: date
  exit_date :: date
  entry_price :: "rat option"
  exit_close :: "rat option"
  s_basis :: price_basis
  requested_horizon_sessions :: int
  sessions_held :: int
  exit_rolled_sessions :: int
  gross_return :: rat
  net_return :: rat
  s_round_trip_cost :: rat
  benchmark_return :: "rat option"
  excess_return :: "rat option"
  maximum_favorable_excursion :: rat
  maximum_adverse_excursion :: rat
  tradability :: string

datatype settlement =
    SettlePending string "date option"
  | EntryUnfillable string date
  | SettleDone settled_outcome

text \<open>\<open>max(xs)\<close> and \<open>min(xs)\<close>, a ValueError on an empty sequence.\<close>

fun py_max :: "rat list \<Rightarrow> rat res" where
  "py_max [] = Inl ValueError"
| "py_max (x # xs) = Inr (fold max xs x)"

fun py_min :: "rat list \<Rightarrow> rat res" where
  "py_min [] = Inl ValueError"
| "py_min (x # xs) = Inr (fold min xs x)"

definition ratio_minus_one :: "rat \<Rightarrow> rat \<Rightarrow> rat res" where
  "ratio_minus_one a b = bindR (ddiv a b) (\<lambda>q. Inr (dsub q 1))"

definition or_close :: "(priced_bar \<Rightarrow> rat option) \<Rightarrow> priced_bar \<Rightarrow> rat option" where
  "or_close f bar = (case f bar of Some v \<Rightarrow> Some v | None \<Rightarrow> bar_close bar)"

definition sell_at_close :: "unit exit_rule" where
  "sell_at_close st index bar = (Some (AtField ''close''), st)"

text \<open>The part of \<open>settle\<close> after the walk: the window up to the exit bar, on one price basis.\<close>

definition settled_result :: "settlement_bar list \<Rightarrow> settlement_bar \<Rightarrow> int \<Rightarrow> int \<Rightarrow> (date \<Rightarrow> date \<Rightarrow> rat option) option
    \<Rightarrow> rat \<Rightarrow> nat \<Rightarrow> nat \<Rightarrow> string \<Rightarrow> settlement res" where
  "settled_result path entry direction horizon_sessions benchmark cost target_index wi reason =
     (let ei = target_index + wi;
          window = take (ei + 1) path;
          pw = price_window window;
          highs = List.map_filter (or_close bar_high) (bars pw);
          lows = List.map_filter (or_close bar_low) (bars pw)
      in
       bindR (need TypeError (bar_open (hd (bars pw)))) (\<lambda>ep.
       bindR (need TypeError (bar_close (last (bars pw)))) (\<lambda>xp.
       bindR (ratio_minus_one xp ep) (\<lambda>g0.
       bindR (py_max highs) (\<lambda>hi.
       bindR (py_min lows) (\<lambda>lo.
       bindR (if direction > 0 then ratio_minus_one hi ep else ratio_minus_one ep lo) (\<lambda>fav.
       bindR (if direction > 0 then ratio_minus_one lo ep else ratio_minus_one ep hi) (\<lambda>adv.
         (let gross = dmul g0 (of_int direction);
              market = (case benchmark of None \<Rightarrow> None
                | Some f \<Rightarrow> f (trading_date entry) (trading_date (last window)));
              bench = map_option (\<lambda>m. dmul m (of_int direction)) market
          in Inr (SettleDone \<lparr>s_direction = direction, entry_date = trading_date entry,
               exit_date = trading_date (last window), entry_price = bar_open entry,
               exit_close = bar_close (last window), s_basis = basis pw,
               requested_horizon_sessions = horizon_sessions,
               sessions_held = int ei + 1, exit_rolled_sessions = int ei - int target_index,
               gross_return = gross, net_return = dsub gross cost, s_round_trip_cost = cost,
               benchmark_return = bench,
               excess_return = map_option (\<lambda>b. dsub gross b) bench,
               maximum_favorable_excursion = fav, maximum_adverse_excursion = adv,
               tradability = (if wi = 0 \<and> reason = ''rule'' then ''observed_open'' else reason)\<rparr>))))))))))"

definition settle :: "settlement_bar list \<Rightarrow> string \<Rightarrow> int \<Rightarrow> int \<Rightarrow> (date \<Rightarrow> date \<Rightarrow> rat option) option
    \<Rightarrow> rat \<Rightarrow> nat \<Rightarrow> settlement res" where
  "settle path symbol direction0 horizon_sessions benchmark cost maxroll =
     (let direction = (if direction0 > 0 then 1 else - 1 :: int) in
      case path of
        [] \<Rightarrow> Inr (SettlePending ''no_entry_session_yet'' None)
      | entry # _ \<Rightarrow>
        (case entry_block_reason entry direction symbol of
           Some reason \<Rightarrow> Inr (EntryUnfillable reason (trading_date entry))
         | None \<Rightarrow>
           (let target_index = nat (max horizon_sessions MIN_HOLDING_SESSIONS - 1) in
            if target_index \<ge> length path
            then Inr (SettlePending ''exit_session_not_observed'' (Some (trading_date entry)))
            else
              bindR (walk_exit (bars (price_window (drop target_index path))) symbol sell_at_close () maxroll direction)
                (\<lambda>w. case w of
                   WalkPending reason \<Rightarrow>
                     Inr (SettlePending (if reason = ''exit_blocked_without_price''
                            then ''exit_blocked_without_price'' else ''exit_session_not_observed'')
                          (Some (trading_date entry)))
                 | Settled wi _ _ reason \<Rightarrow>
                     settled_result path entry direction horizon_sessions benchmark cost target_index wi reason))))"

section \<open>Market return over the same sessions\<close>

record day_return =
  open_to_close :: "rat option"
  close_to_close :: "rat option"

fun compound :: "rat \<Rightarrow> day_return list \<Rightarrow> rat option" where
  "compound acc [] = Some acc"
| "compound acc (d # ds) =
     (case close_to_close d of None \<Rightarrow> None | Some step \<Rightarrow> compound (dmul acc (dadd 1 step)) ds)"

text \<open>\<open>daily\<close> is the mapping as its list of items; dates are distinct.\<close>

definition market_window_return :: "(date \<times> day_return) list \<Rightarrow> date \<Rightarrow> date \<Rightarrow> rat option" where
  "market_window_return daily entry_d exit_d =
     (case map_of daily entry_d of
        None \<Rightarrow> None
      | Some first \<Rightarrow>
          (case open_to_close first of
             None \<Rightarrow> None
           | Some oc \<Rightarrow>
               map_option (\<lambda>c. dsub c 1)
                 (compound (dadd 1 oc)
                    (map (\<lambda>d. the (map_of daily d))
                      (sort (filter (\<lambda>d. entry_d < d \<and> d \<le> exit_d) (map fst daily)))))))"

section \<open>Lemmas\<close>

declare roll_exit.simps [simp del]

lemmas sale_defs = sale_blocked_def exit_blocked_def roll_blocked_def field_price_def

lemma roll_blocked_none: "bar_close bar = None \<Longrightarrow> roll_blocked symbol direction bar CloseField"
  by (simp add: sale_defs)

lemma roll_exit_Settled:
  "roll_exit symbol direction f bs index roll left = Settled ci name p reason \<Longrightarrow>
     index + roll \<le> ci \<and> ci \<le> index + roll + left \<and> ci < length bs
     \<and> (\<forall>j. index + roll \<le> j \<and> j < ci \<longrightarrow> roll_blocked symbol direction (bs ! j) CloseField)
     \<and> (reason = ''exit_blocked_valued_at_close'' \<and> ci = index + roll + left \<and> name = ''close''
        \<or> name = ''close'' \<and> \<not> roll_blocked symbol direction (bs ! ci) CloseField
        \<or> name = ''open'' \<and> \<not> roll_blocked symbol direction (bs ! ci) OpenField)
     \<and> (name = ''close'' \<or> name = ''open'' \<and> f = OpenField \<and> roll = 0)
     \<and> (name = ''close'' \<longrightarrow> p = bar_close (bs ! ci)) \<and> (name = ''open'' \<longrightarrow> p = bar_open (bs ! ci))"
proof (induction left arbitrary: roll)
  case 0
  then show ?case
    by (cases f) (auto simp: roll_exit.simps [of _ _ _ _ _ _ 0] Let_def field_name_def field_price_def
        split: if_splits option.splits)
next
  case (Suc left)
  show ?case
  proof (cases "roll_exit symbol direction f bs index (Suc roll) left = Settled ci name p reason
      \<and> roll_blocked symbol direction (bs ! (index + roll)) CloseField")
    case True
    note ih = Suc.IH [OF conjunct1 [OF True]]
    have "roll_blocked symbol direction (bs ! j) CloseField" if "index + roll \<le> j" "j < ci" for j
      using that True ih by (cases "j = index + roll") auto
    with ih show ?thesis by auto
  next
    case False
    have nb: "\<not> roll_blocked symbol direction (bs ! (index + roll)) CloseField
        \<Longrightarrow> \<not> roll_blocked symbol direction (bs ! (index + roll)) f \<or> f = OpenField"
      by (cases f) auto
    from Suc.prems False nb show ?thesis
      by (cases f) (auto simp: roll_exit.simps [of _ _ _ _ _ _ "Suc left"] Let_def field_name_def
          field_price_def split: if_splits)
  qed
qed

lemma roll_exit_bounds:
  assumes "roll_exit symbol direction f bs index roll left = Settled ci name p reason"
  shows "index + roll \<le> ci" "ci \<le> index + roll + left" "ci < length bs"
  using roll_exit_Settled [OF assms] by blast+

lemma roll_exit_valued:
  "roll_exit symbol direction f bs index roll left = Settled ci name p ''exit_blocked_valued_at_close'' \<Longrightarrow>
     ci = index + roll + left"
proof (induction left arbitrary: roll)
  case 0
  then show ?case
    by (auto simp: roll_exit.simps [of _ _ _ _ _ _ 0] Let_def split: if_splits option.splits)
next
  case (Suc left)
  then have "roll_exit symbol direction f bs index (Suc roll) left = Settled ci name p ''exit_blocked_valued_at_close''"
    by (auto simp: roll_exit.simps [of _ _ _ _ _ _ "Suc left"] Let_def split: if_splits)
  from Suc.IH [OF this] show ?case by simp
qed

lemma roll_exit_close:
  assumes "roll_exit symbol direction CloseField bs index roll left = Settled ci name p reason"
  shows "bar_close (bs ! ci) \<noteq> None"
proof
  assume none: "bar_close (bs ! ci) = None"
  then have "roll_blocked symbol direction (bs ! ci) CloseField" by (rule roll_blocked_none)
  moreover have "reason = ''exit_blocked_valued_at_close'' \<Longrightarrow> False"
    using assms none
    by (induction left arbitrary: roll)
      (auto simp: roll_exit.simps [of _ _ _ _ _ _ 0] roll_exit.simps [of _ _ _ _ _ _ "Suc _"] Let_def
        split: if_splits option.splits)
  ultimately show False using roll_exit_Settled [OF assms] by auto
qed

lemma roll_exit_append:
  "roll_exit symbol direction f bs index roll left = Settled ci name p reason \<Longrightarrow>
   roll_exit symbol direction f (bs @ later) index roll left = Settled ci name p reason"
proof (induction left arbitrary: roll)
  case 0
  then have lt: "index + roll < length bs"
    by (auto simp: roll_exit.simps [of _ _ _ _ _ _ 0] Let_def split: if_splits)
  then have "(bs @ later) ! (index + roll) = bs ! (index + roll)" by (simp add: nth_append)
  with lt 0 show ?case
    by (simp only: roll_exit.simps [of _ _ _ _ _ _ 0] Let_def length_append)
      (cases "roll = 0"; cases f; auto simp: not_le split: if_splits option.splits)
next
  case (Suc left)
  then have lt: "index + roll < length bs"
    by (auto simp: roll_exit.simps [of _ _ _ _ _ _ "Suc left"] Let_def split: if_splits)
  then have "(bs @ later) ! (index + roll) = bs ! (index + roll)" by (simp add: nth_append)
  with lt Suc.prems Suc.IH [of "Suc roll"] show ?case
    by (simp only: roll_exit.simps [of _ _ _ _ _ _ "Suc left"] Let_def length_append)
      (cases "roll = 0"; cases f; auto simp: not_le split: if_splits)
qed

lemma walk_from_append:
  "walk_from symbol direction m rule bs st index todo = Inr (Settled ci name p reason) \<Longrightarrow>
   walk_from symbol direction m rule (bs @ later) st index (todo @ later') = Inr (Settled ci name p reason)"
proof (induction todo arbitrary: st index)
  case (Cons bar todo)
  then show ?case
    by (auto simp: roll_exit_append split: prod.splits option.splits decision.splits if_splits)
qed simp

lemma walk_sell_at_close:
  "bs \<noteq> [] \<Longrightarrow> walk_exit bs symbol sell_at_close () m direction
     = Inr (roll_exit symbol direction CloseField bs 0 0 m)"
  by (cases bs) (simp_all add: walk_exit_def sell_at_close_def field_of_name_def)

lemma bars_price_window [simp]:
  "bars (price_window path) = map (priced (list_all factor_positive path)) path"
  by (simp add: price_window_def Let_def)

lemma priced_close_None [simp]: "bar_close (priced a bar) = None \<longleftrightarrow> bar_close bar = None"
  by (auto simp: priced_def scale_def split: option.splits)

lemma priced_open_pos:
  "bar_open bar = Some x \<Longrightarrow> 0 < x \<Longrightarrow> (a \<longrightarrow> factor_positive bar) \<Longrightarrow>
   \<exists>y. bar_open (priced a bar) = Some y \<and> 0 < y"
  by (auto simp: priced_def scale_def factor_positive_def dmul_def dec.rnd_pos split: option.splits)

lemma entry_ok_open: "entry_block_reason bar direction symbol = None \<Longrightarrow> \<exists>x. bar_open bar = Some x \<and> 0 < x"
  by (auto simp: entry_block_reason_def split: if_splits option.splits)

lemma ratio_minus_one_ok: "b \<noteq> 0 \<Longrightarrow> \<exists>q. ratio_minus_one a b = Inr q"
  by (simp add: ratio_minus_one_def ddiv_def)

lemma map_filter_nonempty: "x \<in> set xs \<Longrightarrow> f x \<noteq> None \<Longrightarrow> List.map_filter f xs \<noteq> []"
  by (induction xs) (auto simp: map_filter_simps split: option.splits)

lemma py_max_ok: "xs \<noteq> [] \<Longrightarrow> \<exists>m. py_max xs = Inr m"
  and py_min_ok: "xs \<noteq> [] \<Longrightarrow> \<exists>m. py_min xs = Inr m"
  by (cases xs; simp)+

lemma fold_max_in: "fold max xs x \<in> insert x (set xs)" for x :: rat
  by (induction xs arbitrary: x) (auto simp: max_def split: if_splits)

lemma fold_min_in: "fold min xs x \<in> insert x (set xs)" for x :: rat
  by (induction xs arbitrary: x) (auto simp: min_def split: if_splits)

lemma py_max_in: "py_max xs = Inr m \<Longrightarrow> m \<in> set xs"
  using fold_max_in by (cases xs) auto

lemma py_min_in: "py_min xs = Inr m \<Longrightarrow> m \<in> set xs"
  using fold_min_in by (cases xs) auto

lemma in_map_filter: "x \<in> set (List.map_filter f xs) \<longleftrightarrow> (\<exists>y \<in> set xs. f y = Some x)"
  by (force simp: List.map_filter_def)

lemma scale_pos:
  "(a \<longrightarrow> factor_positive bar) \<Longrightarrow> (\<forall>x. v = Some x \<longrightarrow> 0 < x) \<Longrightarrow> scale a v bar = Some y \<Longrightarrow> 0 < y"
  by (auto simp: scale_def factor_positive_def dmul_def dec.rnd_pos split: option.splits if_splits)

definition prices_positive :: "settlement_bar \<Rightarrow> bool" where
  "prices_positive bar = (\<forall>v \<in> {bar_high bar, bar_low bar, bar_close bar}. case v of None \<Rightarrow> True | Some x \<Rightarrow> 0 < x)"

lemma prices_positiveD:
  "prices_positive bar \<Longrightarrow> v \<in> {bar_high bar, bar_low bar, bar_close bar} \<Longrightarrow> v = Some x \<Longrightarrow> 0 < x"
  by (auto simp: prices_positive_def split: option.splits)

lemma or_close_priced_pos:
  assumes "a \<longrightarrow> factor_positive bar" "prices_positive bar" "f = bar_high \<or> f = bar_low"
    and "or_close f (priced a bar) = Some x"
  shows "0 < x"
proof -
  have "scale a (bar_high bar) bar = Some x \<or> scale a (bar_low bar) bar = Some x \<or> scale a (bar_close bar) bar = Some x"
    using assms(3,4) by (auto simp: or_close_def priced_def split: option.splits)
  then show ?thesis
    using scale_pos [OF assms(1)] prices_positiveD [OF assms(2)] by blast
qed

lemma py_max_window_pos:
  assumes "\<And>bar. bar \<in> set window \<Longrightarrow> prices_positive bar" "a = list_all factor_positive window"
    and "f = bar_high \<or> f = bar_low" "x \<in> set (List.map_filter (or_close f) (map (priced a) window))"
  shows "0 < x"
  using assms or_close_priced_pos [of a _ f x] by (auto simp: in_map_filter list_all_iff)

lemma window_range:
  assumes "window \<noteq> []" "bar_close (last window) \<noteq> None" "f = bar_high \<or> f = bar_low"
  shows "List.map_filter (or_close f) (map (priced a) window) \<noteq> []"
proof -
  have "or_close f (priced a (last window)) \<noteq> None"
    using assms(2) priced_close_None [of a "last window"]
    by (simp add: or_close_def del: not_None_eq split: option.splits)
  then show ?thesis using assms(1) by (intro map_filter_nonempty [of "priced a (last window)"]) simp_all
qed

lemma settled_result_ok:
  assumes "\<And>bar. bar \<in> set path \<Longrightarrow> prices_positive bar" "path = entry # rest"
    and "entry_block_reason entry dir symbol = None"
    and "t + wi < length path" "bar_close (path ! (t + wi)) \<noteq> None"
  shows "\<exists>r. settled_result path entry direction h bm cost t wi rs = Inr r"
proof -
  define window where "window = take (t + wi + 1) path"
  define a where "a = list_all factor_positive window"
  let ?bs = "map (priced a) window"
  have "window = take (t + wi) path @ [path ! (t + wi)]"
    using assms(4) by (simp add: window_def take_Suc_conv_app_nth)
  moreover have "hd window = entry" by (simp add: window_def assms(2))
  ultimately have ws: "window \<noteq> []" "hd window = entry" "last window = path ! (t + wi)" by auto
  have sub: "bar \<in> set window \<Longrightarrow> prices_positive bar" for bar
    using assms(1) by (auto simp: window_def dest: in_set_takeD)
  have cl: "bar_close (last window) \<noteq> None" using assms(5) ws by simp
  have "entry \<in> set window" using ws hd_in_set by metis
  then obtain op where op: "bar_open (priced a entry) = Some op" "0 < op"
    using entry_ok_open [OF assms(3)] priced_open_pos [of entry _ a] by (auto simp: a_def list_all_iff)
  obtain hi lo where hl: "py_max (List.map_filter (or_close bar_high) ?bs) = Inr hi"
    "py_min (List.map_filter (or_close bar_low) ?bs) = Inr lo"
    using py_max_ok py_min_ok window_range [OF ws(1) cl] by metis
  have nz: "op \<noteq> 0" "lo \<noteq> 0" "hi \<noteq> 0"
    using op py_max_window_pos [OF sub a_def _ py_max_in [OF hl(1)]]
      py_max_window_pos [OF sub a_def _ py_min_in [OF hl(2)]] by auto
  have "bar_close (last ?bs) \<noteq> None" using cl ws(1) by (simp add: last_map)
  then obtain xp where xp: "bar_close (last ?bs) = Some xp" by blast
  have hdop: "bar_open (hd ?bs) = Some op" using op ws by (simp add: hd_map)
  have bs: "bars (price_window window) = ?bs" by (simp add: a_def)
  show ?thesis
    using nz unfolding settled_result_def Let_def window_def [symmetric] bs hl hdop xp
    by (simp add: need_def ratio_minus_one_def ddiv_def)
qed

lemma settled_result_Done:
  assumes "settled_result path entry direction h bm cost t wi reason = Inr (SettleDone res)"
  shows "sessions_held res = int (t + wi) + 1 \<and> exit_rolled_sessions res = int wi
    \<and> entry_date res = trading_date entry \<and> exit_date res = trading_date (last (take (t + wi + 1) path))
    \<and> net_return res = dsub (gross_return res) cost \<and> gross_return res = dec (gross_return res)
    \<and> tradability res = (if wi = 0 \<and> reason = ''rule'' then ''observed_open'' else reason)"
  using assms unfolding settled_result_def Let_def bindR_eq_Inr
  by (elim exE conjE; simp add: dec.rnd_idem dmul_def; elim subst; simp add: dec.rnd_idem)

text \<open>What a settled outcome was computed from.\<close>

lemma settle_Done_cases:
  assumes "settle path symbol d h bm cost m = Inr (SettleDone res)"
  obtains wi name p reason where
    "path \<noteq> []" "entry_block_reason (hd path) (if d > 0 then 1 else - 1) symbol = None"
    "nat (max h MIN_HOLDING_SESSIONS - 1) < length path"
    "roll_exit symbol (if d > 0 then 1 else - 1) CloseField
       (bars (price_window (drop (nat (max h MIN_HOLDING_SESSIONS - 1)) path))) 0 0 m = Settled wi name p reason"
    "sessions_held res = int (nat (max h MIN_HOLDING_SESSIONS - 1) + wi) + 1"
    "exit_rolled_sessions res = int wi"
    "entry_date res = trading_date (hd path)"
    "exit_date res = trading_date (last (take (nat (max h MIN_HOLDING_SESSIONS - 1) + wi + 1) path))"
    "net_return res = dsub (gross_return res) cost"
    "gross_return res = dec (gross_return res)"
    "tradability res = (if wi = 0 \<and> reason = ''rule'' then ''observed_open'' else reason)"
proof -
  let ?t = "nat (max h MIN_HOLDING_SESSIONS - 1)"
  let ?d = "if d > 0 then 1 else - 1 :: int"
  obtain entry rest where path: "path = entry # rest" using assms by (cases path) (auto simp: settle_def)
  have e: "entry_block_reason entry ?d symbol = None"
    using assms by (auto simp: settle_def path Let_def split: option.splits if_splits)
  have t: "?t < length path"
    using assms e by (auto simp: settle_def path Let_def split: if_splits)
  have w: "walk_exit (bars (price_window (drop ?t path))) symbol sell_at_close () m ?d
     = Inr (roll_exit symbol ?d CloseField (bars (price_window (drop ?t path))) 0 0 m)"
    using t by (intro walk_sell_at_close) simp
  show thesis
  proof (cases "roll_exit symbol ?d CloseField (bars (price_window (drop ?t path))) 0 0 m")
    case (WalkPending r)
    then show thesis using assms e t w by (simp add: settle_def path Let_def)
  next
    case (Settled wi name p reason)
    then have "settled_result path entry ?d h bm cost ?t wi reason = Inr (SettleDone res)"
      using assms e t w by (simp add: settle_def path Let_def)
    from that [OF _ _ t Settled] settled_result_Done [OF this] e show thesis by (simp add: path)
  qed
qed

text \<open>Three sessions: a buyable open, a close at the lower limit, a close that can be sold.\<close>

definition demo_bar :: "date \<Rightarrow> rat \<Rightarrow> rat \<Rightarrow> rat \<Rightarrow> settlement_bar" where
  "demo_bar day op cl floor_price =
     \<lparr>trading_date = day, bar_open = Some op, bar_high = Some (max op cl), bar_low = Some (min op cl),
      bar_close = Some cl, pre_close = None, adj_factor = None, is_suspended = False,
      limit_up_price = Some 20, limit_down_price = Some floor_price\<rparr>"

definition demo_path :: "settlement_bar list" where
  "demo_path = [demo_bar 739000 10 10 9, demo_bar 739001 9 9 9, demo_bar 739002 8 (17 / 2) 7]"

lemma demo_settled:
  "\<exists>res. settle demo_path ''600000'' 1 2 None (212 / 100000) 10 = Inr (SettleDone res)"
proof -
  have "(case settle demo_path ''600000'' 1 2 None (212 / 100000) 10 of Inr (SettleDone res) \<Rightarrow> True | _ \<Rightarrow> False)"
    by code_simp
  then show ?thesis by (auto split: sum.splits settlement.splits)
qed

section \<open>Properties\<close>

text \<open>
  C1. T+1: a settled idea was held for at least two sessions and exactly as many as asked
  for plus the sessions its exit rolled, at most the roll bound; the exit bar is one of the
  given bars, the entry is the first one, and the net return is the gross return less the
  round-trip cost, never above the gross return.
\<close>

theorem settle_t1:
  assumes "settle path symbol d h bm cost m = Inr (SettleDone res)" and "0 \<le> cost"
  shows "2 \<le> sessions_held res \<and> sessions_held res = max h MIN_HOLDING_SESSIONS + exit_rolled_sessions res
    \<and> 0 \<le> exit_rolled_sessions res \<and> exit_rolled_sessions res \<le> int m
    \<and> sessions_held res \<le> int (length path)
    \<and> entry_date res = trading_date (path ! 0)
    \<and> exit_date res = trading_date (path ! nat (sessions_held res - 1))
    \<and> net_return res = dsub (gross_return res) cost \<and> net_return res \<le> gross_return res"
  using assms(1)
proof (cases rule: settle_Done_cases)
  case c: (1 wi name p reason)
  let ?t = "nat (max h MIN_HOLDING_SESSIONS - 1)"
  note r = roll_exit_bounds [OF c(4)]
  have wi: "wi \<le> m" "?t + wi < length path" using r c(3) by simp_all
  have t: "int ?t = max h MIN_HOLDING_SESSIONS - 1" "1 \<le> int ?t" by (auto simp: MIN_HOLDING_SESSIONS_def)
  have "last (take (?t + wi + 1) path) = path ! (?t + wi)"
    using wi by (simp add: take_Suc_conv_app_nth)
  moreover have "net_return res \<le> gross_return res"
    unfolding c(9) dsub_def by (rule dec.rnd_diff_le) (use assms c(10) in auto)
  moreover have "nat (sessions_held res - 1) = ?t + wi"
    unfolding c(5) by (simp only: add_diff_cancel_right' nat_int)
  moreover have "sessions_held res = max h MIN_HOLDING_SESSIONS + int wi" "2 \<le> sessions_held res"
    "sessions_held res \<le> int (length path)" using c(5) t wi(2) by linarith+
  ultimately show ?thesis using c(1,6-9) wi(1) by (simp add: hd_conv_nth)
qed

theorem settle_t1_witness:
  "\<exists>res. settle demo_path ''600000'' 1 2 None (212 / 100000) 10 = Inr (SettleDone res)
     \<and> sessions_held res = 2 + exit_rolled_sessions res"
proof -
  obtain res where r: "settle demo_path ''600000'' 1 2 None (212 / 100000) 10 = Inr (SettleDone res)"
    using demo_settled by blast
  have "(0::rat) \<le> 212 / 100000" by simp
  from settle_t1 [OF r this] have "sessions_held res = max 2 MIN_HOLDING_SESSIONS + exit_rolled_sessions res"
    by blast
  with r show ?thesis by (auto simp: MIN_HOLDING_SESSIONS_def)
qed

text \<open>
  C30. The exit is the first session that could sell: every session between the requested
  one and the exit was blocked, and the exit session itself was not, unless the outcome
  says it was valued at the close of the last blocked session after the full roll bound.
\<close>

theorem settle_first_sellable:
  assumes "settle path symbol d h bm cost m = Inr (SettleDone res)"
    and "t = nat (max h MIN_HOLDING_SESSIONS - 1)"
    and "window = bars (price_window (drop t path))"
    and "dir = (if d > 0 then 1 else - 1)"
  shows "(\<forall>j < nat (exit_rolled_sessions res). roll_blocked symbol dir (window ! j) CloseField)
    \<and> (if tradability res = ''exit_blocked_valued_at_close'' then exit_rolled_sessions res = int m
       else \<not> roll_blocked symbol dir (window ! nat (exit_rolled_sessions res)) CloseField)"
  using assms(1)
proof (cases rule: settle_Done_cases)
  case c: (1 wi name p reason)
  from c(4) have r: "roll_exit symbol dir CloseField window 0 0 m = Settled wi name p reason"
    unfolding assms(2-4) .
  have valued: "reason = ''exit_blocked_valued_at_close'' \<Longrightarrow> wi = m"
    using roll_exit_valued r by fastforce
  show ?thesis using roll_exit_Settled [OF r] c(6,11) valued by auto
qed

theorem settle_first_sellable_witness:
  "\<exists>res. settle demo_path ''600000'' 1 2 None (212 / 100000) 10 = Inr (SettleDone res)
     \<and> (\<forall>j < nat (exit_rolled_sessions res).
          roll_blocked ''600000'' 1 (bars (price_window (drop 1 demo_path)) ! j) CloseField)"
proof -
  obtain res where r: "settle demo_path ''600000'' 1 2 None (212 / 100000) 10 = Inr (SettleDone res)"
    using demo_settled by blast
  have "(1::nat) = nat (max 2 MIN_HOLDING_SESSIONS - 1)" "(1::int) = (if (1::int) > 0 then 1 else - 1)"
    by (simp_all add: MIN_HOLDING_SESSIONS_def)
  from settle_first_sellable [OF r this(1) refl this(2)] r show ?thesis by blast
qed

text \<open>
  Settlement never raises when every price of the path is positive: whatever the
  direction, the horizon, the roll bound and the benchmark, the result is a pending, an
  unfillable or a settled outcome.
\<close>

theorem settle_total:
  assumes pos: "\<forall>bar \<in> set path. prices_positive bar"
  shows "\<exists>r. settle path symbol d h bm cost m = Inr r"
proof (cases path)
  case Nil
  then show ?thesis by (simp add: settle_def Let_def)
next
  case (Cons entry rest)
  let ?t = "nat (max h MIN_HOLDING_SESSIONS - 1)"
  let ?d = "if d > 0 then 1 else - 1 :: int"
  let ?w = "roll_exit symbol ?d CloseField (bars (price_window (drop ?t path))) 0 0 m"
  note w = walk_sell_at_close [of "bars (price_window (drop ?t path))" symbol m ?d]
  show ?thesis
  proof (cases "entry_block_reason entry ?d symbol")
    case None
    note e = this
    show ?thesis
    proof (cases "?t < length path")
      case True
      note t = this
      show ?thesis
      proof (cases ?w)
        case Settled: (Settled wi nm p rs)
        have "t + wi < length path \<and> bar_close (path ! (t + wi)) \<noteq> None" if "t = ?t" for t
          using roll_exit_bounds [OF Settled] roll_exit_close [OF Settled] t that by simp
        then have "\<exists>r. settled_result path entry ?d h bm cost ?t wi rs = Inr r"
          using pos Cons by (intro settled_result_ok [OF _ Cons e]) blast+
        with e t w Settled show ?thesis by (simp add: settle_def Cons Let_def)
      qed (use e t w in \<open>simp add: settle_def Cons Let_def\<close>)
    qed (use e in \<open>simp add: settle_def Cons Let_def\<close>)
  qed (simp add: settle_def Cons Let_def)
qed

theorem settle_total_witness: "\<exists>r. settle demo_path ''600000'' 1 2 None (212 / 100000) 10 = Inr r"
  by (rule settle_total) (simp add: demo_path_def demo_bar_def prices_positive_def)



end
