(* ===== verification/TacticExits.thy ===== *)
theory TacticExits
  imports T1Settlement
begin

text \<open>
  \<open>quant-service/app/tactic_exits.py\<close>: the twelve sell rules a tactic trial compares, and the
  evaluation of one pick under all of them. A rule of the code is a closure built from the
  exit context; \<open>must_rise\<close> and \<open>below_ma5\<close> keep a variable between the bars. Here a rule is an
  \<open>exit_kind\<close> with an explicit \<open>exit_state\<close>: \<open>init_exit\<close> is the state when the closure is built,
  \<open>exit_step\<close> is one call of it. Display names of the rules are left out.
\<close>

definition MAX_SELL_SESSIONS :: nat where "MAX_SELL_SESSIONS = 10"

record exit_context =
  c_symbol :: string
  c_slot :: string
  c_entry_price :: rat
  c_reference_price :: rat
  c_prior_closes :: "rat list"

datatype exit_state = NoState | Highest rat | Ma5 "rat list" bool

type_synonym exit_call = "exit_context \<Rightarrow> exit_state exit_rule"

section \<open>The sell rules\<close>

definition close_rule :: exit_call where
  "close_rule ctx st index bar = (Some (AtField ''close''), st)"

definition open_rule :: exit_call where
  "open_rule ctx st index bar = (Some (AtField ''open''), st)"

definition above_price :: "rat option \<Rightarrow> rat \<Rightarrow> bool" where
  "above_price v level = (case v of None \<Rightarrow> False | Some x \<Rightarrow> x > level)"

definition at_least_price :: "rat option \<Rightarrow> rat \<Rightarrow> bool" where
  "at_least_price v level = (case v of None \<Rightarrow> False | Some x \<Rightarrow> x \<ge> level)"

definition below_price :: "rat option \<Rightarrow> rat \<Rightarrow> bool" where
  "below_price v level = (case v of None \<Rightarrow> False | Some x \<Rightarrow> x < level)"

definition at_most_price :: "rat option \<Rightarrow> rat \<Rightarrow> bool" where
  "at_most_price v level = (case v of None \<Rightarrow> False | Some x \<Rightarrow> x \<le> level)"

definition target_rule :: "rat \<Rightarrow> exit_call" where
  "target_rule level ctx st index bar =
     (let target = dmul (c_entry_price ctx) (dadd 1 level) in
      (if above_price (bar_open bar) target then Some (AtField ''open'')
       else if at_least_price (bar_high bar) target then Some (FixedPrice ''target'' target)
       else Some (AtField ''close''), st))"

definition stop_rule :: exit_call where
  "stop_rule ctx st index bar =
     (let stop = dmul (c_entry_price ctx) (97 / 100) in
      (if below_price (bar_open bar) stop then Some (FixedPrice ''stop'' stop)
       else if at_most_price (bar_low bar) stop then Some (FixedPrice ''stop'' stop)
       else Some (AtField ''close''), st))"

definition bracket_rule :: "bool \<Rightarrow> exit_call" where
  "bracket_rule stop_first ctx st index bar =
     (let target = dmul (c_entry_price ctx) (105 / 100);
          stop = dmul (c_entry_price ctx) (97 / 100);
          target_hit = (above_price (bar_open bar) target \<or> at_least_price (bar_high bar) target);
          stop_hit = (below_price (bar_open bar) stop \<or> at_most_price (bar_low bar) stop)
      in (if target_hit \<and> stop_hit
          then Some (if stop_first then FixedPrice ''stop'' stop else FixedPrice ''target'' target)
          else if target_hit
          then Some (if above_price (bar_open bar) target then AtField ''open'' else FixedPrice ''target'' target)
          else if stop_hit then Some (FixedPrice ''stop'' stop)
          else Some (AtField ''close''), st))"

definition hold_while_sealed :: exit_call where
  "hold_while_sealed ctx st index bar =
     (case closes_at_up_limit (c_symbol ctx) bar of
        None \<Rightarrow> None
      | Some sealed \<Rightarrow> if sealed then None else Some (AtField ''close''), st)"

definition opening_gap :: "priced_bar \<Rightarrow> rat option" where
  "opening_gap bar =
     (case (bar_open bar, pre_close bar) of
        (Some op, Some pre) \<Rightarrow> if pre \<le> 0 then None else Some (dsub (dec (op / pre)) 1)
      | _ \<Rightarrow> None)"

definition gap_rule :: exit_call where
  "gap_rule ctx st index bar =
     (case closes_at_up_limit (c_symbol ctx) bar of
        None \<Rightarrow> None
      | Some sealed \<Rightarrow>
          if index = 0 then
            (case (opens_at_up_limit (c_symbol ctx) bar, opening_gap bar) of
               (Some opened_limit, Some gap) \<Rightarrow>
                 if opened_limit \<or> gap < 5 / 100 then (if sealed then None else Some (AtField ''close''))
                 else Some (AtField ''open'')
             | _ \<Rightarrow> None)
          else if sealed then None else Some (AtField ''close''), st)"

definition must_rise :: exit_call where
  "must_rise ctx st index bar =
     (case (bar_close bar, st) of
        (Some c, Highest highest) \<Rightarrow>
          if c \<le> highest then (Some (AtField ''close''), st) else (None, Highest c)
      | _ \<Rightarrow> (None, st))"

definition last_n :: "nat \<Rightarrow> 'a list \<Rightarrow> 'a list" where
  "last_n n xs = drop (length xs - n) xs"

text \<open>\<open>sum(closes[-4:] + [close], Decimal(0)) / 5\<close>\<close>

definition ma5 :: "rat list \<Rightarrow> rat \<Rightarrow> rat" where
  "ma5 closes c = dec (fold (\<lambda>x acc. dadd acc x) (last_n 4 closes @ [c]) 0 / 5)"

definition below_ma5 :: exit_call where
  "below_ma5 ctx st index bar =
     (case st of
        Ma5 closes pending \<Rightarrow>
          if pending then (Some (AtField ''open''), Ma5 closes False)
          else (case bar_close bar of
             None \<Rightarrow> (None, st)
           | Some c \<Rightarrow> (None, Ma5 (closes @ [c]) (length closes \<ge> 4 \<and> c < ma5 closes c)))
      | _ \<Rightarrow> (None, st))"

datatype exit_kind = ExitOpen | ExitClose | ExitTarget rat | ExitStop | ExitBracket bool
  | ExitHoldSealed | ExitGap | ExitMustRise | ExitBelowMa5

definition EXITS :: "(string \<times> exit_kind) list" where
  "EXITS =
     [(''open'', ExitOpen), (''close'', ExitClose), (''tp3'', ExitTarget (3 / 100)),
      (''tp5'', ExitTarget (5 / 100)), (''tp8'', ExitTarget (8 / 100)), (''sl3'', ExitStop),
      (''tp5_sl3_stop_first'', ExitBracket True), (''tp5_sl3_target_first'', ExitBracket False),
      (''hold_while_sealed'', ExitHoldSealed), (''gap_rule'', ExitGap),
      (''must_rise'', ExitMustRise), (''below_ma5'', ExitBelowMa5)]"

fun init_exit :: "exit_kind \<Rightarrow> exit_context \<Rightarrow> exit_state" where
  "init_exit ExitMustRise ctx = Highest (c_entry_price ctx)"
| "init_exit ExitBelowMa5 ctx = Ma5 (c_prior_closes ctx) False"
| "init_exit _ ctx = NoState"

fun exit_step :: "exit_kind \<Rightarrow> exit_call" where
  "exit_step ExitOpen = open_rule"
| "exit_step ExitClose = close_rule"
| "exit_step (ExitTarget level) = target_rule level"
| "exit_step ExitStop = stop_rule"
| "exit_step (ExitBracket stop_first) = bracket_rule stop_first"
| "exit_step ExitHoldSealed = hold_while_sealed"
| "exit_step ExitGap = gap_rule"
| "exit_step ExitMustRise = must_rise"
| "exit_step ExitBelowMa5 = below_ma5"

definition capped :: "'s exit_rule \<Rightarrow> 's exit_rule" where
  "capped rule st index bar =
     (if index \<ge> MAX_SELL_SESSIONS - 1 then (Some (AtField ''close''), st) else rule st index bar)"

section \<open>The evaluation of a pick\<close>

record exit_result =
  r_status :: string
  r_raw :: "rat option"
  r_net :: "rat option"
  r_index :: "nat option"
  r_field :: "string option"
  r_reason :: "string option"
  r_price :: "rat option"
  r_basis :: price_basis

definition bare_result :: "string \<Rightarrow> price_basis \<Rightarrow> string option \<Rightarrow> exit_result" where
  "bare_result status b reason =
     \<lparr>r_status = status, r_raw = None, r_net = None, r_index = None, r_field = None,
      r_reason = reason, r_price = None, r_basis = b\<rparr>"

fun return_result :: "walked \<Rightarrow> rat \<Rightarrow> price_basis \<Rightarrow> rat \<Rightarrow> nat \<Rightarrow> exit_result res" where
  "return_result (WalkPending reason) base b cost offset = Inr (bare_result ''not_resolved'' b (Some reason))"
| "return_result (Settled i f p reason) base b cost offset =
     bindR (need TypeError p) (\<lambda>price.
     bindR (ratio_minus_one price base) (\<lambda>raw.
       Inr \<lparr>r_status = ''settled'', r_raw = Some raw, r_net = Some (dsub raw cost),
            r_index = Some (offset + i), r_field = Some f, r_reason = Some reason,
            r_price = Some price, r_basis = b\<rparr>))"

definition basis_reference :: "rat option \<Rightarrow> price_window_data \<Rightarrow> rat option res" where
  "basis_reference reference_close window =
     (case reference_close of
        None \<Rightarrow> Inr None
      | Some r \<Rightarrow>
          (case basis window of
             AdjFactorAdjusted \<Rightarrow>
               bindR (need TypeError (adj_factor (source (hd (bars window))))) (\<lambda>a. Inr (Some (dmul r a)))
           | UnadjustedMissingAdjFactor \<Rightarrow> Inr (Some r)))"

text \<open>\<open>_measure\<close> is called on one bar, with the field high or low.\<close>

definition measure_bar :: "price_window_data \<Rightarrow> nat \<Rightarrow> rat option \<Rightarrow> (priced_bar \<Rightarrow> rat option) \<Rightarrow> rat option res" where
  "measure_bar window start reference f =
     (case reference of
        None \<Rightarrow> Inr None
      | Some r \<Rightarrow>
          if start + 1 > length (bars window) then Inr None
          else (case f (bars window ! start) of
                  None \<Rightarrow> Inr None
                | Some v \<Rightarrow> bindR (ratio_minus_one v r) (\<lambda>q. Inr (Some q))))"

definition every_exit :: "exit_result \<Rightarrow> (string \<times> exit_result) list" where
  "every_exit r = map (\<lambda>(key, _). (key, r)) EXITS"

definition evaluate_exit :: "string \<Rightarrow> exit_context \<Rightarrow> price_window_data \<Rightarrow> nat \<Rightarrow> rat \<Rightarrow> string \<times> exit_kind
    \<Rightarrow> (string \<times> exit_result) res" where
  "evaluate_exit symbol ctx window start cost ex =
     (case ex of (key, kind) \<Rightarrow>
       bindR (walk_exit (drop start (bars window)) symbol (capped (exit_step kind ctx)) (init_exit kind ctx)
                MAX_EXIT_ROLL_SESSIONS 1)
         (\<lambda>w. bindR (return_result w (c_entry_price ctx) (basis window) cost start) (\<lambda>r. Inr (key, r))))"

definition evaluate_entry :: "string \<Rightarrow> string \<Rightarrow> settlement_bar list \<Rightarrow> bool \<Rightarrow> rat option \<Rightarrow> rat option \<Rightarrow> nat
    \<Rightarrow> rat option list \<Rightarrow> (string \<times> exit_result) list res" where
  "evaluate_entry symbol slot raw_path held held_reference entry_price0 entry_index prior_closes =
     (let window = price_window raw_path;
          base = (if held then held_reference else entry_price0);
          start = (if held then 1 else entry_index + 1)
      in case base of
           None \<Rightarrow> Inr (every_exit (bare_result ''missing_bar'' (basis window) None))
         | Some b \<Rightarrow>
             if \<not> held \<and> entry_index \<ge> length raw_path
             then Inr (every_exit (bare_result ''missing_bar'' (basis window) None))
             else (case (if held then None else entry_block_reason (raw_path ! entry_index) 1 symbol) of
                Some blocked \<Rightarrow> Inr (every_exit (bare_result ''no_trade'' (basis window) (Some blocked)))
              | None \<Rightarrow>
                  if start \<ge> length (bars window)
                  then Inr (every_exit (bare_result ''not_resolved'' (basis window) (Some ''not_resolved'')))
                  else
                    bindR (mapR (\<lambda>v. basis_reference (Some v) window) (List.map_filter id prior_closes)) (\<lambda>priors.
                      (let ctx = \<lparr>c_symbol = symbol, c_slot = slot, c_entry_price = b,
                                  c_reference_price = (case held_reference of None \<Rightarrow> b | Some r \<Rightarrow> if r = 0 then b else r),
                                  c_prior_closes = List.map_filter id priors\<rparr>
                       in mapR (evaluate_exit symbol ctx window start (if held then 0 else ROUND_TRIP_COST)) EXITS))))"

record pick_evaluation =
  held_entry :: "(string \<times> exit_result) list"
  buy_open_entry :: "(string \<times> exit_result) list"
  seal :: "bool option"
  big_loss :: "bool option"
  s1_high :: "rat option"
  s1_low :: "rat option"
  s3_high :: "rat option"
  s1_open_to_close :: "rat option"

definition three_session_high :: "price_window_data \<Rightarrow> rat option \<Rightarrow> rat option res" where
  "three_session_high window reference =
     (case reference of
        None \<Rightarrow> Inr None
      | Some r \<Rightarrow>
          if 1 \<ge> length (bars window) then Inr None
          else (let highs = map bar_high (take 3 (drop 1 (bars window))) in
                if None \<in> set highs then Inr None
                else bindR (py_max (List.map_filter id highs)) (\<lambda>hi.
                       bindR (ratio_minus_one hi r) (\<lambda>q. Inr (Some q)))))"

definition open_to_close_of :: "priced_bar option \<Rightarrow> rat option" where
  "open_to_close_of s1 =
     (case s1 of
        None \<Rightarrow> None
      | Some bar \<Rightarrow>
          (case (bar_open bar, bar_close bar) of
             (Some op, Some c) \<Rightarrow> if op = 0 then None else Some (dsub (dec (c / op)) 1)
           | _ \<Rightarrow> None))"

definition evaluate_pick :: "string \<Rightarrow> string \<Rightarrow> settlement_bar list \<Rightarrow> rat option \<Rightarrow> rat option list
    \<Rightarrow> pick_evaluation res" where
  "evaluate_pick symbol slot raw_path reference_close prior_closes =
     (if raw_path = [] then
        (let none = every_exit (bare_result ''missing_bar'' UnadjustedMissingAdjFactor None)
         in Inr \<lparr>held_entry = none, buy_open_entry = none, seal = None, big_loss = None, s1_high = None,
                 s1_low = None, s3_high = None, s1_open_to_close = None\<rparr>)
      else
        (let window = price_window raw_path;
             entry_index = (if slot = ''auction'' then 0 else 1 :: nat);
             entry_price0 = (if entry_index < length (bars window) then bar_open (bars window ! entry_index) else None)
         in
          bindR (if slot = ''auction'' then basis_reference reference_close window
                 else Inr (bar_close (hd (bars window)))) (\<lambda>held_reference.
          bindR (evaluate_entry symbol slot raw_path True held_reference entry_price0 entry_index prior_closes) (\<lambda>held.
          bindR (evaluate_entry symbol slot raw_path False held_reference entry_price0 entry_index prior_closes) (\<lambda>buy.
            (let s1 = (if 1 < length (bars window) then Some (bars window ! 1) else None);
                 reference = (case held_reference of Some r \<Rightarrow> Some r | None \<Rightarrow> entry_price0)
             in
              bindR (measure_bar window 1 reference bar_high) (\<lambda>hi.
              bindR (measure_bar window 1 reference bar_low) (\<lambda>lo.
              bindR (three_session_high window reference) (\<lambda>hi3.
                Inr \<lparr>held_entry = held, buy_open_entry = buy,
                     seal = Option.bind s1 (closes_at_up_limit symbol),
                     big_loss = Option.bind (map_of held ''close'')
                       (\<lambda>r. map_option (\<lambda>raw. raw \<le> - 5 / 100) (r_raw r)),
                     s1_high = hi, s1_low = lo, s3_high = hi3,
                     s1_open_to_close = open_to_close_of s1\<rparr>)))))))))"

section \<open>The contract of a sell rule\<close>

text \<open>\<open>walk_exit\<close> accepts the fields open and close and the fixed prices target and stop; it
  raises on any other. A rule that keeps to these can be walked, and under the session cap it
  always sells once the window is long enough.\<close>

fun valid_decision :: "decision \<Rightarrow> bool" where
  "valid_decision (AtField name) = (name = ''open'' \<or> name = ''close'')"
| "valid_decision (FixedPrice name p) = (name = ''target'' \<or> name = ''stop'')"

lemma field_of_name_valid: "name = ''open'' \<or> name = ''close'' \<Longrightarrow> \<exists>f. field_of_name name = Inr f"
  by (auto simp: field_of_name_def)

lemma roll_exit_settles:
  assumes "index + roll + left < length bs" "\<forall>bar \<in> set bs. bar_close bar \<noteq> None"
  shows "\<exists>ci nm p r. roll_exit symbol direction f bs index roll left = Settled ci nm p r"
  using assms(1)
proof (induction left arbitrary: roll)
  case 0
  then have "bar_close (bs ! (index + roll)) \<noteq> None" using assms(2) by simp
  with 0 show ?case by (auto simp: roll_exit.simps [of _ _ _ _ _ _ 0] Let_def)
next
  case (Suc left)
  with Suc.IH [of "Suc roll"] show ?case
    by (auto simp: roll_exit.simps [of _ _ _ _ _ _ "Suc left"] Let_def)
qed

lemma roll_exit_rule:
  assumes "roll_exit symbol direction f bs index 0 left = Settled index name p ''rule''"
  shows "name = field_name f \<and> p = field_price (bs ! index) f"
  using assms
  by (cases left) (auto simp: roll_exit.simps [of _ _ _ _ _ 0 0] roll_exit.simps [of _ _ _ _ _ 0 "Suc _"] Let_def
      dest: roll_exit_bounds split: if_splits option.splits)

lemma roll_exit_price:
  assumes "roll_exit symbol direction f bs index roll left = Settled ci nm p r" "\<forall>bar \<in> set bs. bar_close bar \<noteq> None"
    and "0 < direction"
  shows "p \<noteq> None"
proof -
  note s = roll_exit_Settled [OF assms(1)]
  have close: "bar_close (bs ! ci) \<noteq> None" using s assms(2) by simp
  have "nm = ''open'' \<Longrightarrow> \<not> roll_blocked symbol direction (bs ! ci) OpenField" 
    using s by auto
  then have "nm = ''open'' \<Longrightarrow> bar_open (bs ! ci) \<noteq> None"
    using assms(3) by (cases "bar_open (bs ! ci)") (simp_all add: sale_defs)
  with close s show ?thesis by blast
qed

locale sale_rule =
  fixes step :: "'s exit_rule"
  assumes keeps_to_fields: "step st i bar = (Some d, st') \<Longrightarrow> valid_decision d"
begin

lemma capped_keeps_to_fields: "capped step st i bar = (Some d, st') \<Longrightarrow> valid_decision d"
  using keeps_to_fields by (auto simp: capped_def split: if_splits)

lemma capped_decides:
  assumes "i \<le> MAX_SELL_SESSIONS - 1" "capped step st i bar = (None, st')"
  shows "Suc i \<le> MAX_SELL_SESSIONS - 1"
  using assms by (auto simp: capped_def split: if_splits)

lemma walk_never_raises: "\<exists>w. walk_from symbol direction m (capped step) bs st i todo = Inr w"
proof (induction todo arbitrary: st i)
  case (Cons bar todo)
  then show ?case
    using capped_keeps_to_fields [of st i bar] field_of_name_valid
    by (auto split: prod.splits option.splits decision.splits)
qed simp

lemma walk_settles:
  assumes "i \<le> MAX_SELL_SESSIONS - 1" "MAX_SELL_SESSIONS - 1 + m < length bs" "i + length todo = length bs"
    and "\<forall>bar \<in> set bs. bar_close bar \<noteq> None" "0 < direction"
  shows "\<exists>ci nm p r. walk_from symbol direction m (capped step) bs st i todo = Inr (Settled ci nm (Some p) r)
    \<and> ci \<le> MAX_SELL_SESSIONS - 1 + m"
  using assms(1,3)
proof (induction todo arbitrary: st i)
  case Nil
  then show ?case using assms(2) by simp
next
  case (Cons bar todo)
  obtain dec st' where step: "capped step st i bar = (dec, st')" by fastforce
  show ?case
  proof (cases dec)
    case None
    then show ?thesis
      using Cons capped_decides [of i st bar st'] step by simp
  next
    case (Some d)
    note valid = capped_keeps_to_fields [of st i bar d st']
    have roll: "\<exists>ci nm p r. roll_exit symbol direction f bs i 0 m = Settled ci nm (Some p) r
      \<and> ci \<le> MAX_SELL_SESSIONS - 1 + m" for f
    proof -
      have "i + 0 + m < length bs" using Cons assms(2) by simp
      from roll_exit_settles [OF this assms(4)]
      obtain ci nm p r where "roll_exit symbol direction f bs i 0 m = Settled ci nm p r" by blast
      with roll_exit_price [OF this assms(4,5)] roll_exit_bounds [OF this] Cons.prems(1) show ?thesis by auto
    qed
    show ?thesis
    proof (cases d)
      case (AtField name)
      then show ?thesis
        using Some step valid roll field_of_name_valid [of name] by auto
    next
      case (FixedPrice name p)
      then show ?thesis using Some step valid Cons.prems(1) by auto
    qed
  qed
qed

end

lemma exit_step_valid: "exit_step kind ctx st i bar = (Some d, st') \<Longrightarrow> valid_decision d"
  by (cases kind)
    (auto simp: open_rule_def close_rule_def target_rule_def stop_rule_def bracket_rule_def Let_def
      hold_while_sealed_def gap_rule_def must_rise_def below_ma5_def
      split: if_splits option.splits exit_state.splits)

interpretation exits: sale_rule "exit_step kind ctx" for kind ctx
  by unfold_locales (rule exit_step_valid)

interpretation close_sale: sale_rule sell_at_close
  by unfold_locales (simp add: sell_at_close_def)

text \<open>
  C8. Every one of the twelve rules sells: on a window with a close on every session that
  covers the session cap and the roll bound, the walk of the capped rule is settled, with a
  price, at the latest at the last session of the cap plus the roll bound.
\<close>

theorem capped_exit_settles:
  assumes "MAX_SELL_SESSIONS - 1 + m < length bs" and "\<forall>bar \<in> set bs. bar_close bar \<noteq> None"
  shows "\<exists>ci nm p r. walk_exit bs symbol (capped (exit_step kind ctx)) (init_exit kind ctx) m 1
      = Inr (Settled ci nm (Some p) r) \<and> ci \<le> MAX_SELL_SESSIONS - 1 + m"
  unfolding walk_exit_def using assms by (intro exits.walk_settles) simp_all

theorem capped_exit_settles_witness:
  "\<exists>ci nm p r. walk_exit (replicate 12 (priced False (demo_bar 739000 10 10 9))) ''600000''
      (capped (exit_step ExitHoldSealed \<lparr>c_symbol = ''600000'', c_slot = ''close'', c_entry_price = 10,
        c_reference_price = 10, c_prior_closes = []\<rparr>))
      (init_exit ExitHoldSealed \<lparr>c_symbol = ''600000'', c_slot = ''close'', c_entry_price = 10,
        c_reference_price = 10, c_prior_closes = []\<rparr>) 2 1
      = Inr (Settled ci nm (Some p) r) \<and> ci \<le> MAX_SELL_SESSIONS - 1 + 2"
  by (rule capped_exit_settles) (simp_all add: MAX_SELL_SESSIONS_def demo_bar_def)

lemma walk_first:
  assumes "rule st 0 bar = (Some d, st')" "valid_decision d"
  shows "walk_exit (bar # later) symbol rule st m direction = Inr (case d of
      FixedPrice name p \<Rightarrow> Settled 0 name (Some p) ''rule''
    | AtField name \<Rightarrow>
        roll_exit symbol direction (if name = ''open'' then OpenField else CloseField) (bar # later) 0 0 m)"
  using assms by (cases d) (auto simp: walk_exit_def field_of_name_def)

lemma capped_first: "capped rule st 0 bar = rule st 0 bar"
  by (simp add: capped_def MAX_SELL_SESSIONS_def)

text \<open>
  A take-profit never fills below its target: when the walk of a target rule sells in the
  first session under the rule, it sold at an open above the target, or exactly at the target
  in a session whose high reached it, or at the close of a session whose high did not.
\<close>

theorem take_profit_fill:
  assumes "walk_exit (bar # later) symbol (capped (exit_step (ExitTarget level) ctx))
      (init_exit (ExitTarget level) ctx) m 1 = Inr (Settled 0 field p ''rule'')"
    and "target = dmul (c_entry_price ctx) (dadd 1 level)"
  shows "field = ''target'' \<and> p = Some target \<and> at_least_price (bar_high bar) target
    \<or> field = ''open'' \<and> p = bar_open bar \<and> above_price p target
    \<or> field = ''close'' \<and> p = bar_close bar \<and> \<not> at_least_price (bar_high bar) target"
proof -
  let ?rule = "capped (exit_step (ExitTarget level) ctx)"
  have first: "walk_exit (bar # later) symbol ?rule NoState m 1 = Inr (case d of
      FixedPrice name p \<Rightarrow> Settled 0 name (Some p) ''rule''
    | AtField name \<Rightarrow> roll_exit symbol 1 (if name = ''open'' then OpenField else CloseField) (bar # later) 0 0 m)"
    if "target_rule level ctx NoState 0 bar = (Some d, NoState)" "valid_decision d" for d
    using that by (intro walk_first) (simp_all add: capped_first)
  have roll: "field = field_name f \<and> p = field_price bar f"
    if "roll_exit symbol 1 f (bar # later) 0 0 m = Settled 0 field p ''rule''" for f
    using roll_exit_rule [OF that] by simp
  consider "above_price (bar_open bar) target" | "\<not> above_price (bar_open bar) target" "at_least_price (bar_high bar) target"
    | "\<not> above_price (bar_open bar) target" "\<not> at_least_price (bar_high bar) target" by blast
  then show ?thesis
  proof cases
    case 1
    then have "target_rule level ctx NoState 0 bar = (Some (AtField ''open''), NoState)"
      by (simp add: target_rule_def Let_def assms(2))
    from first [OF this] assms(1) roll [of OpenField] 1 show ?thesis
      by (simp add: field_name_def field_price_def)
  next
    case 2
    then have "target_rule level ctx NoState 0 bar = (Some (FixedPrice ''target'' target), NoState)"
      by (simp add: target_rule_def Let_def assms(2))
    from first [OF this] assms(1) 2 show ?thesis by simp
  next
    case 3
    then have "target_rule level ctx NoState 0 bar = (Some (AtField ''close''), NoState)"
      by (simp add: target_rule_def Let_def assms(2))
    from first [OF this] assms(1) roll [of CloseField] 3 show ?thesis
      by (simp add: field_name_def field_price_def)
  qed
qed

theorem take_profit_fill_witness:
  "above_price (Some 11) (dmul 10 (dadd 1 (3 / 100)))"
proof -
  let ?ctx = "\<lparr>c_symbol = ''600000'', c_slot = ''close'', c_entry_price = 10,
        c_reference_price = 10, c_prior_closes = []\<rparr>"
  let ?bar = "priced False (demo_bar 739000 11 10 9)"
  have e: "walk_exit [?bar] ''600000'' (capped (exit_step (ExitTarget (3 / 100)) ?ctx))
      (init_exit (ExitTarget (3 / 100)) ?ctx) 2 1 = Inr (Settled 0 ''open'' (Some 11) ''rule'')"
    by code_simp
  have t: "dmul 10 (dadd 1 (3 / 100)) = dmul (c_entry_price ?ctx) (dadd 1 (3 / 100))" by simp
  have "''open'' \<noteq> ''target''" "''open'' \<noteq> ''close''" by simp_all
  with take_profit_fill [OF e t] show ?thesis by argo
qed

text \<open>
  The stop of \<open>sl3\<close>, as coded: whenever the first session opens below the stop or its low
  reaches it, the walk settles there at exactly the stop, whatever the limits and suspension of
  that session; so a session that opens below the stop is booked over its own open, and a
  suspended session is still booked as sold.
\<close>

theorem stop_fill:
  assumes "stop = dmul (c_entry_price ctx) (97 / 100)"
    and "below_price (bar_open bar) stop \<or> at_most_price (bar_low bar) stop"
  shows "walk_exit (bar # later) symbol (capped (exit_step ExitStop ctx)) (init_exit ExitStop ctx) m 1
      = Inr (Settled 0 ''stop'' (Some stop) ''rule'')
    \<and> (below_price (bar_open bar) stop \<longrightarrow> (\<exists>op. bar_open bar = Some op \<and> op < stop))"
proof -
  have "capped (exit_step ExitStop ctx) NoState 0 bar = (Some (FixedPrice ''stop'' stop), NoState)"
    using assms by (auto simp: capped_def MAX_SELL_SESSIONS_def stop_rule_def Let_def)
  then show ?thesis by (auto simp: walk_exit_def below_price_def split: option.splits)
qed

theorem stop_fill_witness:
  "walk_exit [priced False (demo_bar 739000 9 9 9)] ''600000''
     (capped (exit_step ExitStop \<lparr>c_symbol = ''600000'', c_slot = ''close'', c_entry_price = 10,
        c_reference_price = 10, c_prior_closes = []\<rparr>))
     (init_exit ExitStop \<lparr>c_symbol = ''600000'', c_slot = ''close'', c_entry_price = 10,
        c_reference_price = 10, c_prior_closes = []\<rparr>) 2 1
     = Inr (Settled 0 ''stop'' (Some (dmul 10 (97 / 100))) ''rule'')"
proof -
  let ?bar = "priced False (demo_bar 739000 9 9 9)"
  let ?ctx = "\<lparr>c_symbol = ''600000'', c_slot = ''close'', c_entry_price = 10,
        c_reference_price = 10, c_prior_closes = []\<rparr>"
  have "dmul 10 (97 / 100) = dmul (c_entry_price ?ctx) (97 / 100)" by simp
  moreover have "below_price (bar_open ?bar) (dmul 10 (97 / 100)) \<or> at_most_price (bar_low ?bar) (dmul 10 (97 / 100))"
    by code_simp
  ultimately show ?thesis using stop_fill by blast
qed

section \<open>The rules that hold\<close>

text \<open>The state of a rule after a run of sessions in which it decided nothing.\<close>

fun keeps :: "'s exit_rule \<Rightarrow> 's \<Rightarrow> nat \<Rightarrow> priced_bar list \<Rightarrow> 's option" where
  "keeps rule st i [] = Some st"
| "keeps rule st i (bar # bs) =
     (case rule st i bar of (None, st') \<Rightarrow> keeps rule st' (Suc i) bs | (Some _, _) \<Rightarrow> None)"

lemma walk_keeps:
  "keeps rule st i run = Some st' \<Longrightarrow>
   walk_from symbol direction m rule bs st i (run @ rest)
     = walk_from symbol direction m rule bs st' (i + length run) rest"
  by (induction run arbitrary: st i) (auto split: prod.splits option.splits)

lemma keeps_append:
  "keeps rule st i (xs @ ys) = Option.bind (keeps rule st i xs) (\<lambda>s. keeps rule s (i + length xs) ys)"
  by (induction xs arbitrary: st i) (auto split: prod.splits option.splits)

lemma must_rise_keeps:
  "map bar_close run = map Some cs \<Longrightarrow> sorted_wrt (<) (h # cs) \<Longrightarrow>
   keeps (must_rise ctx) (Highest h) i run = Some (Highest (last (h # cs)))"
proof (induction run arbitrary: h i cs)
  case (Cons bar run)
  from Cons.prems(1) obtain c cs' where cs: "cs = c # cs'" "bar_close bar = Some c" "map bar_close run = map Some cs'"
    by (cases cs) auto
  with Cons.prems(2) have "h < c" "sorted_wrt (<) (c # cs')" by auto
  with Cons.IH [OF cs(3), of c] cs show ?case by (simp add: must_rise_def)
qed simp

text \<open>
  \<open>must_rise\<close> sells at the first close that is not a new closing high: as long as the closes
  rise strictly above the entry and one another the position is kept, and the first close at
  or below the previous high starts the sale at that session's close.
\<close>

theorem must_rise_sale:
  assumes "map bar_close run = map Some cs" and "sorted_wrt (<) (c_entry_price ctx # cs)"
    and "bar_close bar = Some c" and "c \<le> last (c_entry_price ctx # cs)"
  shows "walk_exit run symbol (exit_step ExitMustRise ctx) (init_exit ExitMustRise ctx) m 1
      = Inr (WalkPending ''not_resolved'')
    \<and> walk_exit (run @ bar # later) symbol (exit_step ExitMustRise ctx) (init_exit ExitMustRise ctx) m 1
      = Inr (roll_exit symbol 1 CloseField (run @ bar # later) (length run) 0 m)"
proof -
  let ?h = "Highest (last (c_entry_price ctx # cs))"
  have k: "keeps (must_rise ctx) (Highest (c_entry_price ctx)) 0 run = Some ?h"
    using must_rise_keeps assms(1,2) by blast
  have "must_rise ctx ?h (length run) bar = (Some (AtField ''close''), ?h)"
    using assms(3,4) by (simp add: must_rise_def)
  then show ?thesis
    using walk_keeps [OF k, of symbol 1 m run "[]"]
      walk_keeps [OF k, of symbol 1 m "run @ bar # later" "bar # later"]
    by (simp add: walk_exit_def field_of_name_def)
qed

theorem must_rise_sale_witness:
  "walk_exit ([priced False (demo_bar 739000 10 11 9), priced False (demo_bar 739001 11 12 9)]
       @ priced False (demo_bar 739002 12 (23 / 2) 9) # []) ''600000''
     (exit_step ExitMustRise \<lparr>c_symbol = ''600000'', c_slot = ''close'', c_entry_price = 10,
        c_reference_price = 10, c_prior_closes = []\<rparr>)
     (init_exit ExitMustRise \<lparr>c_symbol = ''600000'', c_slot = ''close'', c_entry_price = 10,
        c_reference_price = 10, c_prior_closes = []\<rparr>) 2 1
   = Inr (roll_exit ''600000'' 1 CloseField
       ([priced False (demo_bar 739000 10 11 9), priced False (demo_bar 739001 11 12 9)]
        @ priced False (demo_bar 739002 12 (23 / 2) 9) # [])
       (length [priced False (demo_bar 739000 10 11 9), priced False (demo_bar 739001 11 12 9)]) 0 2)"
  by (rule must_rise_sale [where cs = "[11, 12]" and c = "23 / 2", THEN conjunct2])
    (simp_all add: priced_def scale_def demo_bar_def)

fun ma5_quiet :: "rat list \<Rightarrow> rat list \<Rightarrow> bool" where
  "ma5_quiet closes [] = True"
| "ma5_quiet closes (c # cs) = (\<not> (length closes \<ge> 4 \<and> c < ma5 closes c) \<and> ma5_quiet (closes @ [c]) cs)"

lemma below_ma5_keeps:
  "map bar_close run = map Some cs \<Longrightarrow> ma5_quiet closes cs \<Longrightarrow>
   keeps (below_ma5 ctx) (Ma5 closes False) i run = Some (Ma5 (closes @ cs) False)"
proof (induction run arbitrary: closes i cs)
  case (Cons bar run)
  from Cons.prems(1) obtain c cs' where cs: "cs = c # cs'" "bar_close bar = Some c" "map bar_close run = map Some cs'"
    by (cases cs) auto
  with Cons.prems(2) have q: "(4 \<le> length closes \<and> c < ma5 closes c) = False" "ma5_quiet (closes @ [c]) cs'"
    by auto
  have "below_ma5 ctx (Ma5 closes False) i bar = (None, Ma5 (closes @ [c]) False)"
    by (simp add: below_ma5_def cs(2) q(1))
  with Cons.IH [OF cs(3) q(2)] cs(1) show ?case by simp
qed simp

text \<open>
  \<open>below_ma5\<close> sells at the open of the session after the first close below the average of
  the last five closes, the closes before the entry counted in, and keeps the position in
  every session up to it.
\<close>

theorem below_ma5_sale:
  assumes "map bar_close run = map Some cs" and "ma5_quiet (c_prior_closes ctx) cs"
    and "bar_close breach = Some c"
    and "4 \<le> length (c_prior_closes ctx @ cs)" and "c < ma5 (c_prior_closes ctx @ cs) c"
  shows "walk_exit (run @ breach # nxt # later) symbol (exit_step ExitBelowMa5 ctx) (init_exit ExitBelowMa5 ctx) m 1
      = Inr (roll_exit symbol 1 OpenField (run @ breach # nxt # later) (Suc (length run)) 0 m)"
proof -
  let ?st = "Ma5 (c_prior_closes ctx @ cs) False"
  have k: "keeps (below_ma5 ctx) (Ma5 (c_prior_closes ctx) False) 0 run = Some ?st"
    using below_ma5_keeps assms(1,2) by blast
  have b: "below_ma5 ctx ?st (length run) breach = (None, Ma5 (c_prior_closes ctx @ cs @ [c]) True)"
    using assms(3-5) by (simp add: below_ma5_def)
  show ?thesis
    using walk_keeps [OF k, of symbol 1 m "run @ breach # nxt # later" "breach # nxt # later"] b
    by (simp add: walk_exit_def field_of_name_def below_ma5_def)
qed

theorem below_ma5_sale_witness:
  "walk_exit ([] @ priced False (demo_bar 739000 10 9 8) # priced False (demo_bar 739001 9 9 8) # []) ''600000''
     (exit_step ExitBelowMa5 \<lparr>c_symbol = ''600000'', c_slot = ''close'', c_entry_price = 10,
        c_reference_price = 10, c_prior_closes = [10, 10, 10, 10]\<rparr>)
     (init_exit ExitBelowMa5 \<lparr>c_symbol = ''600000'', c_slot = ''close'', c_entry_price = 10,
        c_reference_price = 10, c_prior_closes = [10, 10, 10, 10]\<rparr>) 2 1
   = Inr (roll_exit ''600000'' 1 OpenField
       ([] @ priced False (demo_bar 739000 10 9 8) # priced False (demo_bar 739001 9 9 8) # [])
       (Suc (length ([] :: priced_bar list))) 0 2)"
proof (rule below_ma5_sale [where cs = "[]" and c = 9])
  show "9 < ma5 (c_prior_closes \<lparr>c_symbol = ''600000'', c_slot = ''close'', c_entry_price = 10,
        c_reference_price = 10, c_prior_closes = [10, 10, 10, 10]\<rparr> @ []) 9" by code_simp
qed (simp_all add: priced_def scale_def demo_bar_def)

section \<open>Whole evaluations\<close>

lemma every_exit_keys [simp]: "map fst (every_exit r) = map fst EXITS"
  by (simp add: every_exit_def split_def comp_def)

lemma every_exit_results: "(k, r) \<in> set (every_exit r') \<Longrightarrow> r = r'"
  by (auto simp: every_exit_def)

lemma evaluate_exit_key: "evaluate_exit symbol ctx window start cost ex = Inr kr \<Longrightarrow> fst kr = fst ex"
  by (auto simp: evaluate_exit_def split: prod.splits)

lemma mapR_map_fst:
  "(\<And>x y. f x = Inr y \<Longrightarrow> fst y = fst x) \<Longrightarrow> mapR f xs = Inr ys \<Longrightarrow> map fst ys = map fst xs"
  by (induction xs arbitrary: ys) auto

lemma mapR_in: "mapR f xs = Inr ys \<Longrightarrow> y \<in> set ys \<Longrightarrow> \<exists>x \<in> set xs. f x = Inr y"
  by (induction xs arbitrary: ys) auto

lemma walk_from_bounds:
  "walk_from symbol direction m rule bs st i todo = Inr (Settled ci nm p r) \<Longrightarrow> i + length todo = length bs \<Longrightarrow>
   ci < length bs"
proof (induction todo arbitrary: st i)
  case (Cons bar todo)
  then show ?case
    by (auto dest: roll_exit_bounds split: prod.splits option.splits decision.splits if_splits)
qed simp

text \<open>What a settled result of one exit says.\<close>

definition sound_result :: "nat \<Rightarrow> nat \<Rightarrow> rat \<Rightarrow> exit_result \<Rightarrow> bool" where
  "sound_result start n cost r =
     (case (r_index r, r_raw r, r_net r) of
        (Some i, Some raw, Some net) \<Rightarrow> start \<le> i \<and> i < n \<and> net = dsub raw cost \<and> raw = dec raw
      | (None, None, None) \<Rightarrow> r_status r \<noteq> ''settled''
      | _ \<Rightarrow> False)"

lemma bare_sound: "status \<noteq> ''settled'' \<Longrightarrow> sound_result start n cost (bare_result status b reason)"
  by (simp add: sound_result_def bare_result_def)

lemma ratio_minus_one_rounded: "ratio_minus_one a b = Inr q \<Longrightarrow> q = dec q"
  by (auto simp: ratio_minus_one_def dsub_def dec.rnd_idem)

lemma return_result_sound:
  assumes "return_result w base b cost offset = Inr r"
    and "\<And>i f p reason. w = Settled i f p reason \<Longrightarrow> offset + i < n"
  shows "sound_result offset n cost r"
proof (cases w)
  case (WalkPending reason)
  then show ?thesis using assms(1) bare_sound by auto
next
  case (Settled i f p reason)
  then show ?thesis
    using assms ratio_minus_one_rounded by (auto simp: sound_result_def)
qed

lemma evaluate_exit_sound:
  assumes "evaluate_exit symbol ctx window start cost ex = Inr (k, r)" "start < length (bars window)"
  shows "sound_result start (length (bars window)) cost r"
proof -
  obtain key kind where ex: "ex = (key, kind)" by fastforce
  with assms(1) obtain w where
    w: "walk_from symbol 1 MAX_EXIT_ROLL_SESSIONS (capped (exit_step kind ctx)) (drop start (bars window))
          (init_exit kind ctx) 0 (drop start (bars window)) = Inr w"
    and r: "return_result w (c_entry_price ctx) (basis window) cost start = Inr r"
    by (auto simp: evaluate_exit_def walk_exit_def)
  show ?thesis
  proof (rule return_result_sound [OF r])
    fix i f p reason assume "w = Settled i f p reason"
    with walk_from_bounds [of symbol 1 _ _ _ _ 0] w show "start + i < length (bars window)"
      using assms(2) by fastforce
  qed
qed

lemma evaluate_entry_sound:
  assumes "evaluate_entry symbol slot path held ref ep ei priors = Inr rs"
  shows "map fst rs = map fst EXITS \<and>
    (\<forall>(k, r) \<in> set rs. sound_result (if held then 1 else ei + 1) (length path) (if held then 0 else ROUND_TRIP_COST) r)"
proof -
  let ?start = "if held then 1 else ei + 1"
  let ?cost = "if held then 0 else ROUND_TRIP_COST"
  consider status reason where "rs = every_exit (bare_result status (basis (price_window path)) reason)"
      "status \<noteq> ''settled''"
    | ctx where "mapR (evaluate_exit symbol ctx (price_window path) ?start ?cost) EXITS = Inr rs"
      "?start < length path"
    using assms by (auto simp: evaluate_entry_def Let_def split: option.splits if_splits)
  then show ?thesis
  proof cases
    case 1
    then show ?thesis using bare_sound [OF 1(2)] by (auto dest: every_exit_results)
  next
    case 2
    have "map fst rs = map fst EXITS"
      by (rule mapR_map_fst [OF _ 2(1)]) (rule evaluate_exit_key)
    moreover have "sound_result ?start (length path) ?cost r" if "(k, r) \<in> set rs" for k r
      using mapR_in [OF 2(1) that] evaluate_exit_sound [of symbol ctx "price_window path" ?start ?cost _ k r] 2(2)
      by auto
    ultimately show ?thesis by blast
  qed
qed

text \<open>
  The evaluation of a pick has exactly one result per rule under both entries; a settled
  result is sold strictly after its entry session (T+1) and inside the window, a bought entry
  pays exactly the round-trip cost, and a held entry pays nothing.
\<close>

theorem evaluate_pick_sound:
  assumes "evaluate_pick symbol slot path ref priors = Inr ev" and "path \<noteq> []"
  shows "map fst (held_entry ev) = map fst EXITS \<and> map fst (buy_open_entry ev) = map fst EXITS
    \<and> (\<forall>(k, r) \<in> set (held_entry ev). sound_result 1 (length path) 0 r)
    \<and> (\<forall>(k, r) \<in> set (buy_open_entry ev).
         sound_result (if slot = ''auction'' then 1 else 2) (length path) ROUND_TRIP_COST r)"
proof -
  let ?ei = "if slot = ''auction'' then 0 else 1 :: nat"
  obtain hr ep where h: "evaluate_entry symbol slot path True hr ep ?ei priors = Inr (held_entry ev)"
    and b: "evaluate_entry symbol slot path False hr ep ?ei priors = Inr (buy_open_entry ev)"
    using assms by (auto simp: evaluate_pick_def Let_def split: if_splits)
  have "(if slot = ''auction'' then 1 else 2 :: nat) = ?ei + 1" by simp
  then show ?thesis using evaluate_entry_sound [OF h] evaluate_entry_sound [OF b] by simp
qed

theorem evaluate_pick_sound_witness:
  "\<exists>ev. evaluate_pick ''600000'' ''auction'' [demo_bar 739000 10 10 9] None [] = Inr ev
     \<and> map fst (held_entry ev) = map fst EXITS"
proof -
  have "(case evaluate_pick ''600000'' ''auction'' [demo_bar 739000 10 10 9] None [] of Inr _ \<Rightarrow> True | Inl _ \<Rightarrow> False)"
    by code_simp
  then obtain ev where "evaluate_pick ''600000'' ''auction'' [demo_bar 739000 10 10 9] None [] = Inr ev"
    by (auto split: sum.splits)
  with evaluate_pick_sound [OF this] show ?thesis by blast
qed

end
