(* ===== verification/PyBytes.thy ===== *)
theory PyBytes
  imports PyNumbers
begin

text \<open>
  Bytes and the parts of the \<open>struct\<close> module the wire decoders use. A byte string is a list of
  integers from 0 to 255. The decoders of the code move a cursor \<open>pos\<close> forward over a fixed
  body; here the cursor is the rest of the body from \<open>pos\<close> on, so \<open>data[pos]\<close> is the first
  element of the rest (an IndexError when there is none) and \<open>struct.unpack(f, data[pos:pos+n])\<close>
  takes \<open>n\<close> bytes (a struct.error when fewer are left). The locale \<open>codec\<close> is the interface of
  a decoder: what an encoder wrote is read back, and the rest is left for the next one.
\<close>

type_synonym bytes = "int list"
type_synonym 'a parser = "bytes \<Rightarrow> ('a \<times> bytes) res"

definition valid_bytes :: "bytes \<Rightarrow> bool" where
  "valid_bytes bs = list_all (\<lambda>b. 0 \<le> b \<and> b < 256) bs"

section \<open>Fixed-width integers\<close>

fun le_value :: "bytes \<Rightarrow> int" where
  "le_value [] = 0"
| "le_value (b # bs) = b + 256 * le_value bs"

fun le_bytes :: "nat \<Rightarrow> int \<Rightarrow> bytes" where
  "le_bytes 0 v = []"
| "le_bytes (Suc n) v = (v mod 256) # le_bytes n (v div 256)"

definition take_bytes :: "nat \<Rightarrow> bytes parser" where
  "take_bytes n bs = (if length bs < n then Inl StructError else Inr (take n bs, drop n bs))"

definition unpack_u :: "nat \<Rightarrow> int parser" where
  "unpack_u n bs = bindR (take_bytes n bs) (\<lambda>(raw, rest). Inr (le_value raw, rest))"

definition to_signed :: "nat \<Rightarrow> int \<Rightarrow> int" where
  "to_signed n v = (if v \<ge> 128 * 256 ^ (n - 1) then v - 256 ^ n else v)"

definition unpack_i :: "nat \<Rightarrow> int parser" where
  "unpack_i n bs = bindR (unpack_u n bs) (\<lambda>(v, rest). Inr (to_signed n v, rest))"

definition pack_u :: "nat \<Rightarrow> int \<Rightarrow> bytes res" where
  "pack_u n v = (if 0 \<le> v \<and> v < 256 ^ n then Inr (le_bytes n v) else Inl StructError)"

lemma length_le_bytes [simp]: "length (le_bytes n v) = n"
  by (induction n arbitrary: v) auto

lemma valid_le_bytes: "valid_bytes (le_bytes n v)"
  by (induction n arbitrary: v) (auto simp: valid_bytes_def)

lemma le_value_bytes: "0 \<le> v \<Longrightarrow> v < 256 ^ n \<Longrightarrow> le_value (le_bytes n v) = v"
  by (induction n arbitrary: v) auto

lemma le_value_bound: "valid_bytes bs \<Longrightarrow> 0 \<le> le_value bs \<and> le_value bs < 256 ^ length bs"
  by (induction bs) (auto simp: valid_bytes_def)

lemma le_bytes_value: "valid_bytes bs \<Longrightarrow> le_bytes (length bs) (le_value bs) = bs"
  by (induction bs) (auto simp: valid_bytes_def)

lemma take_bytes_append [simp]: "length raw = n \<Longrightarrow> take_bytes n (raw @ rest) = Inr (raw, rest)"
  by (auto simp: take_bytes_def)

lemma unpack_u_le_bytes [simp]:
  "0 \<le> v \<Longrightarrow> v < 256 ^ n \<Longrightarrow> unpack_u n (le_bytes n v @ rest) = Inr (v, rest)"
  by (simp add: unpack_u_def le_value_bytes)

lemma take_bytes_rest: "take_bytes n bs = Inr (raw, rest) \<Longrightarrow> bs = raw @ rest \<and> length raw = n"
  by (auto simp: take_bytes_def split: if_splits)

lemma unpack_u_rest: "unpack_u n bs = Inr (v, rest) \<Longrightarrow> length rest + n = length bs"
  by (auto simp: unpack_u_def dest!: take_bytes_rest)

section \<open>Decoders\<close>

fun read_n :: "'a parser \<Rightarrow> nat \<Rightarrow> 'a list parser" where
  "read_n p 0 bs = Inr ([], bs)"
| "read_n p (Suc n) bs =
     bindR (p bs) (\<lambda>(v, rest). bindR (read_n p n rest) (\<lambda>(vs, rest'). Inr (v # vs, rest')))"

locale codec =
  fixes enc :: "'a \<Rightarrow> bytes" and decode :: "'a parser" and ok :: "'a \<Rightarrow> bool"
  assumes round_trip: "ok v \<Longrightarrow> decode (enc v @ rest) = Inr (v, rest)"
begin

lemma round_trip_end: "ok v \<Longrightarrow> decode (enc v) = Inr (v, [])"
  using round_trip [of v "[]"] by simp

text \<open>The encoding is prefix free.\<close>

lemma prefix_free: "ok v \<Longrightarrow> ok w \<Longrightarrow> enc v @ r = enc w @ r' \<Longrightarrow> v = w \<and> r = r'"
  using round_trip by (metis Inr_inject Pair_inject)

lemma read_n_round_trip:
  "list_all ok vs \<Longrightarrow> read_n decode (length vs) (concat (map enc vs) @ rest) = Inr (vs, rest)"
  by (induction vs) (auto simp: round_trip)

end

text \<open>The unsigned fields of \<open>struct\<close>.\<close>

interpretation uint: codec "le_bytes n" "unpack_u n" "\<lambda>v. 0 \<le> v \<and> v < 256 ^ n" for n
  by unfold_locales simp

lemma read_n_length: "read_n p n bs = Inr (vs, rest) \<Longrightarrow> length vs = n"
  by (induction n arbitrary: bs vs) (auto split: prod.splits)

lemma read_n_mono:
  "(\<And>bs v rest. p bs = Inr (v, rest) \<Longrightarrow> length rest \<le> length bs) \<Longrightarrow>
   read_n p n bs = Inr (vs, rest) \<Longrightarrow> length rest \<le> length bs"
  by (induction n arbitrary: bs vs) (fastforce split: prod.splits)+

section \<open>Seven bits a byte\<close>

text \<open>The little-endian base-128 format both wire protocols use for integers: the top bit is set on
  every byte but the last.\<close>

function more_bytes :: "int \<Rightarrow> bytes" where
  "more_bytes n = (if n < 128 then [n] else (128 + n mod 128) # more_bytes (n div 128))"
  by pat_completeness auto
termination by (relation "measure nat") auto

declare more_bytes.simps [simp del]

lemma more_bytes_neq_Nil [simp]: "more_bytes n \<noteq> []"
  by (simp add: more_bytes.simps [of n])

section \<open>IEEE single precision\<close>

text \<open>The value of a Python float that need not be finite. The sign of a zero is not kept.\<close>

datatype py_float = Finite rat | Infinite bool | NotANumber

definition float32_value :: "int \<Rightarrow> py_float" where
  "float32_value raw =
     (let negative = raw \<ge> 2 ^ 31;
          e = raw div 2 ^ 23 mod 256;
          f = raw mod 2 ^ 23;
          sign = (if negative then - 1 else 1 :: rat)
      in if e = 255 then (if f = 0 then Infinite negative else NotANumber)
         else if e = 0 then Finite (sign * of_int f / 2 ^ 149)
         else Finite (sign * of_int (2 ^ 23 + f) * 2 powi (e - 150)))"

section \<open>Text\<close>

definition ascii_char :: "int \<Rightarrow> char" where
  "ascii_char b = char_of b"

text \<open>\<open>raw.decode("ascii")\<close> and \<open>text.encode("ascii")\<close>\<close>

definition ascii_decode :: "bytes \<Rightarrow> string res" where
  "ascii_decode bs = (if list_all (\<lambda>b. b < 128) bs then Inr (map ascii_char bs) else Inl UnicodeError)"

definition ascii_encode :: "string \<Rightarrow> bytes res" where
  "ascii_encode s =
     (if list_all (\<lambda>c. (of_char c :: int) < 128) s then Inr (map of_char s) else Inl UnicodeError)"

lemma ascii_round_trip: "ascii_encode s = Inr bs \<Longrightarrow> ascii_decode bs = Inr s"
  by (auto simp: ascii_encode_def ascii_decode_def ascii_char_def list_all_iff comp_def split: if_splits
      intro: map_idI)

lemma ascii_encode_length: "ascii_encode s = Inr bs \<Longrightarrow> length bs = length s"
  by (auto simp: ascii_encode_def split: if_splits)

text \<open>Decimal numerals: \<open>str(n)\<close> of a natural number and \<open>f"{n:0wd}"\<close>.\<close>

function (sequential) dec_digits :: "int \<Rightarrow> string" where
  "dec_digits n = (if n < 10 then [ascii_char (48 + n)] else dec_digits (n div 10) @ [ascii_char (48 + n mod 10)])"
  by pat_completeness auto
termination
  by (relation "measure nat") auto

declare dec_digits.simps [simp del]

definition zero_pad :: "nat \<Rightarrow> int \<Rightarrow> string" where
  "zero_pad w n = (let d = dec_digits n in replicate (w - length d) (CHR ''0'') @ d)"

end
