(* ===== verification/TdxWire.thy ===== *)
theory TdxWire
  imports PyBytes MarketRules "HOL-Library.Sublist"
begin

text \<open>
  \<open>quant-service/app/datasources/sources/tdx_protocol.py\<close>, the wire format of the TDX quote
  protocol: the decoding primitives, the request builders and the response parsers. Prices on
  the wire are variable-length signed integers, bars and ticks are differences from the
  previous row. The Chinese names of ex-rights categories are not modelled (they are a
  display text of the category number).
\<close>

section \<open>Constants\<close>

definition MARKETS :: "(string \<times> int) list" where
  "MARKETS = [(''SZ'', 0), (''SH'', 1), (''BJ'', 2)]"

definition MAX_QUOTES_PER_REQUEST :: nat where "MAX_QUOTES_PER_REQUEST = 80"
definition MAX_TICKS_PER_REQUEST :: int where "MAX_TICKS_PER_REQUEST = 2000"
definition MAX_BARS_PER_REQUEST :: int where "MAX_BARS_PER_REQUEST = 800"
definition RESPONSE_HEADER_LEN :: nat where "RESPONSE_HEADER_LEN = 16"

definition BAR_CATEGORIES :: "(string \<times> int) list" where
  "BAR_CATEGORIES =
     [(''5m'', 0), (''15m'', 1), (''30m'', 2), (''60m'', 3), (''1d'', 9), (''1w'', 5), (''1M'', 6),
      (''1m'', 8), (''1q'', 10), (''1y'', 11)]"

definition MINUTE_BAR_CATEGORIES :: "int list" where "MINUTE_BAR_CATEGORIES = [0, 1, 2, 3, 8]"

section \<open>Decoding primitives\<close>

text \<open>The loop of \<open>decode_price\<close>; \<open>w\<close> is \<open>1 << shift\<close>.\<close>

fun price_more :: "int \<Rightarrow> int \<Rightarrow> int parser" where
  "price_more acc w [] = Inl IndexError"
| "price_more acc w (b # bs) =
     (let value' = acc + b mod 128 * w
      in if b \<ge> 128 then price_more value' (w * 128) bs else Inr (value', bs))"

fun decode_price :: "int parser" where
  "decode_price [] = Inl IndexError"
| "decode_price (b # bs) =
     (let value = b mod 64; negative = odd (b div 64)
      in bindR (if b \<ge> 128 then price_more value 64 bs else Inr (value, bs))
           (\<lambda>(v, rest). Inr (if negative then - v else v, rest)))"

definition pow2 :: "int \<Rightarrow> rat" where "pow2 n = 2 powi n"

definition decode_volume :: "int \<Rightarrow> rat" where
  "decode_volume raw =
     (let logpoint = raw div 2 ^ 24;
          hleax = raw div 2 ^ 16 mod 256;
          lheax = raw div 2 ^ 8 mod 256;
          lleax = raw mod 256;
          dw_ecx = logpoint * 2 - 127;
          dw_edx = logpoint * 2 - 134;
          dw_esi = logpoint * 2 - 142;
          dw_eax = logpoint * 2 - 150;
          xmm6 = (if dw_ecx < 0 then flt (1 / pow2 \<bar>dw_ecx\<bar>) else pow2 \<bar>dw_ecx\<bar>);
          xmm4 = (if hleax > 128
                  then fadd (fmul (pow2 dw_edx) 128) (fmul (of_int (hleax mod 128)) (pow2 (dw_edx + 1)))
                  else if dw_edx \<ge> 0 then fmul (pow2 dw_edx) (of_int hleax)
                  else fmul (flt (1 / pow2 dw_edx)) (of_int hleax));
          xmm3 = fmul (pow2 dw_esi) (of_int lheax);
          xmm1 = fmul (pow2 dw_eax) (of_int lleax);
          doubled = (hleax \<ge> 128);
          xmm3' = (if doubled then fmul xmm3 2 else xmm3);
          xmm1' = (if doubled then fmul xmm1 2 else xmm1)
      in fadd (fadd (fadd xmm6 xmm4) xmm3') xmm1')"

definition float32 :: "int \<Rightarrow> py_float" where
  "float32 raw =
     (case float32_value raw of
        Finite x \<Rightarrow> if \<bar>x\<bar> < flt (1 / 10 ^ 20) then Finite 0 else Finite x
      | v \<Rightarrow> v)"

definition bar_datetime :: "int \<Rightarrow> string parser" where
  "bar_datetime category bs =
     (if category < 4 \<or> category \<in> {7, 8} then
        bindR (unpack_u 2 bs) (\<lambda>(zipday, rest).
        bindR (unpack_u 2 rest) (\<lambda>(minutes, rest').
          (let year = zipday div 2 ^ 11 + 2004;
               month = zipday mod 2048 div 100;
               day = zipday mod 2048 mod 100
           in Inr (zero_pad 4 year @ ''-'' @ zero_pad 2 month @ ''-'' @ zero_pad 2 day @ '' ''
                   @ zero_pad 2 (minutes div 60) @ '':'' @ zero_pad 2 (minutes mod 60), rest'))))
      else
        bindR (unpack_u 4 bs) (\<lambda>(packed, rest).
          Inr (zero_pad 4 (packed div 10000) @ ''-'' @ zero_pad 2 (packed mod 10000 div 100) @ ''-''
               @ zero_pad 2 (packed mod 100), rest)))"

section \<open>Request builders\<close>

definition code_bytes :: "string \<Rightarrow> bytes res" where
  "code_bytes code =
     bindR (ascii_encode code) (\<lambda>raw. if length raw \<noteq> 6 then Inl ValueError else Inr raw)"

text \<open>\<open>struct.pack("<...", ...)\<close> of unsigned fields given with their widths.\<close>

fun pack_fields :: "(nat \<times> int) list \<Rightarrow> bytes res" where
  "pack_fields [] = Inr []"
| "pack_fields ((n, v) # fs) = bindR (pack_u n v) (\<lambda>b. bindR (pack_fields fs) (\<lambda>bs. Inr (b @ bs)))"

definition pack_stock :: "int \<times> string \<Rightarrow> bytes res" where
  "pack_stock stock =
     bindR (code_bytes (snd stock)) (\<lambda>code. bindR (pack_u 1 (fst stock)) (\<lambda>m. Inr (m @ code)))"

definition build_quotes_request :: "(int \<times> string) list \<Rightarrow> bytes res" where
  "build_quotes_request stocks =
     (let n = int (length stocks) * 7 + 12 in
      bindR (pack_fields [(2, 0x10C), (4, 0x02006320), (2, n), (2, n), (4, 0x5053E), (4, 0), (2, 0),
                          (2, int (length stocks))])
        (\<lambda>header. bindR (mapR pack_stock stocks) (\<lambda>parts. Inr (header @ concat parts))))"

definition build_bars_request :: "int \<Rightarrow> int \<Rightarrow> string \<Rightarrow> int \<Rightarrow> int \<Rightarrow> bytes res" where
  "build_bars_request category market code start count =
     bindR (code_bytes code) (\<lambda>c.
     bindR (pack_fields [(2, 0x10C), (4, 0x01016408), (2, 0x1C), (2, 0x1C), (2, 0x052D), (2, market)]) (\<lambda>a.
     bindR (pack_fields [(2, category), (2, 1), (2, start), (2, count), (4, 0), (4, 0), (2, 0)]) (\<lambda>b.
       Inr (a @ c @ b))))"

definition build_ticks_request :: "int \<Rightarrow> string \<Rightarrow> int \<Rightarrow> int \<Rightarrow> bytes res" where
  "build_ticks_request market code start count =
     bindR (code_bytes code) (\<lambda>c.
     bindR (pack_fields [(2, market)]) (\<lambda>a.
     bindR (pack_fields [(2, start), (2, count)]) (\<lambda>b.
       Inr ([0x0c, 0x17, 0x08, 0x01, 0x01, 0x01, 0x0e, 0, 0x0e, 0, 0xc5, 0x0f] @ a @ c @ b))))"

text \<open>\<open>int(trade_date.strftime("%Y%m%d"))\<close> is given by its number.\<close>

definition build_history_ticks_request :: "int \<Rightarrow> string \<Rightarrow> int \<Rightarrow> int \<Rightarrow> int \<Rightarrow> bytes res" where
  "build_history_ticks_request market code stamp start count =
     bindR (code_bytes code) (\<lambda>c.
     bindR (pack_fields [(4, stamp), (2, market)]) (\<lambda>a.
     bindR (pack_fields [(2, start), (2, count)]) (\<lambda>b.
       Inr ([0x0c, 0x01, 0x30, 0x01, 0, 0x01, 0x12, 0, 0x12, 0, 0xb5, 0x0f] @ a @ c @ b))))"

definition build_xdxr_request :: "int \<Rightarrow> string \<Rightarrow> bytes res" where
  "build_xdxr_request market code =
     bindR (code_bytes code) (\<lambda>c.
     bindR (pack_fields [(1, market)]) (\<lambda>a.
       Inr ([0x0c, 0x1f, 0x18, 0x76, 0, 0x01, 0x0b, 0, 0x0b, 0, 0x0f, 0, 0x01, 0] @ a @ c)))"

section \<open>Response parsers\<close>

text \<open>\<open>x / 100\<close> and \<open>x / 1000\<close> of integers.\<close>

definition hundredths :: "int \<Rightarrow> rat" where "hundredths x = flt (of_int x / 100)"
definition thousandths :: "int \<Rightarrow> rat" where "thousandths x = flt (of_int x / 1000)"

record quote_level =
  bid :: rat
  ask :: rat
  bid_vol :: int
  ask_vol :: int

record quote_row =
  q_market :: int
  q_code :: string
  q_price :: rat
  q_last_close :: rat
  q_open :: rat
  q_high :: rat
  q_low :: rat
  q_server_time_raw :: int
  q_volume_lots :: int
  q_current_volume_lots :: int
  q_amount :: rat
  q_outer_volume_lots :: int
  q_inner_volume_lots :: int
  q_speed_pct :: rat
  q_levels :: "quote_level list"

definition to_level :: "int \<Rightarrow> int list \<Rightarrow> quote_level" where
  "to_level price l =
     \<lparr>bid = hundredths (price + l ! 0), ask = hundredths (price + l ! 1), bid_vol = l ! 2, ask_vol = l ! 3\<rparr>"

definition read_quote :: "quote_row parser" where
  "read_quote bs =
     bindR (take_bytes 9 bs) (\<lambda>(head, r1).
     bindR (read_n decode_price 9 r1) (\<lambda>(values, r2).
     bindR (unpack_u 4 r2) (\<lambda>(amount_raw, r3).
     bindR (decode_price r3) (\<lambda>(sell_volume, r4).
     bindR (decode_price r4) (\<lambda>(buy_volume, r5).
     bindR (read_n decode_price 2 r5) (\<lambda>(_, r6).
     bindR (read_n (read_n decode_price 4) 5 r6) (\<lambda>(levels, r7).
     bindR (read_n decode_price 4 (drop 2 r7)) (\<lambda>(_, r8).
     bindR (unpack_i 2 r8) (\<lambda>(speed_raw, r9).
     bindR (unpack_u 2 r9) (\<lambda>(_, r10).
     bindR (ascii_decode (take 6 (drop 1 head))) (\<lambda>code.
       (let price = values ! 0 in
        Inr (\<lparr>q_market = hd head, q_code = code,
              q_price = hundredths price, q_last_close = hundredths (price + values ! 1),
              q_open = hundredths (price + values ! 2), q_high = hundredths (price + values ! 3),
              q_low = hundredths (price + values ! 4), q_server_time_raw = values ! 5,
              q_volume_lots = values ! 7, q_current_volume_lots = values ! 8,
              q_amount = decode_volume amount_raw, q_outer_volume_lots = buy_volume,
              q_inner_volume_lots = sell_volume, q_speed_pct = hundredths speed_raw,
              q_levels = map (to_level price) levels\<rparr>, r10)))))))))))))"

definition match_requested :: "(int \<times> string) list \<Rightarrow> quote_row list \<Rightarrow> quote_row list res" where
  "match_requested requested quotes =
     (if length quotes \<noteq> length requested then Inl ProtocolError
      else Inr (map snd (filter (\<lambda>(wanted, q). (q_market q, q_code q) = wanted) (zip requested quotes))))"

definition parse_quotes :: "bytes \<Rightarrow> (int \<times> string) list option \<Rightarrow> quote_row list res" where
  "parse_quotes body requested =
     bindR (unpack_u 2 (drop 2 body)) (\<lambda>(count, rest).
     bindR (read_n read_quote (nat count) rest) (\<lambda>(quotes, _).
       (case requested of None \<Rightarrow> Inr quotes | Some want \<Rightarrow> match_requested want quotes)))"

record bar_row =
  b_datetime :: string
  b_open :: rat
  b_close :: rat
  b_high :: rat
  b_low :: rat
  b_volume :: py_float
  b_amount :: py_float

definition bar_amount :: "int \<Rightarrow> int \<Rightarrow> py_float" where
  "bar_amount category raw =
     (if category \<in> set MINUTE_BAR_CATEGORIES then float32 raw else Finite (decode_volume raw))"

text \<open>One row of \<open>parse_bars\<close>: the row and the new base.\<close>

definition read_bar :: "int \<Rightarrow> int \<Rightarrow> (bar_row \<times> int) parser" where
  "read_bar category base bs =
     bindR (bar_datetime category bs) (\<lambda>(stamp, r1).
     bindR (decode_price r1) (\<lambda>(open_diff, r2).
     bindR (decode_price r2) (\<lambda>(close_diff, r3).
     bindR (decode_price r3) (\<lambda>(high_diff, r4).
     bindR (decode_price r4) (\<lambda>(low_diff, r5).
     bindR (unpack_u 4 r5) (\<lambda>(volume_raw, r6).
     bindR (unpack_u 4 r6) (\<lambda>(amount_raw, r7).
       (let open_value = open_diff + base in
        Inr ((\<lparr>b_datetime = stamp, b_open = thousandths open_value,
               b_close = thousandths (open_value + close_diff), b_high = thousandths (open_value + high_diff),
               b_low = thousandths (open_value + low_diff), b_volume = bar_amount category volume_raw,
               b_amount = bar_amount category amount_raw\<rparr>, open_value + close_diff), r7)))))))))"

fun read_bars :: "int \<Rightarrow> nat \<Rightarrow> int \<Rightarrow> bytes \<Rightarrow> bar_row list res" where
  "read_bars category 0 base bs = Inr []"
| "read_bars category (Suc n) base bs =
     bindR (read_bar category base bs) (\<lambda>((bar, base'), rest).
     bindR (read_bars category n base' rest) (\<lambda>bars. Inr (bar # bars)))"

definition parse_bars :: "int \<Rightarrow> bytes \<Rightarrow> bar_row list res" where
  "parse_bars category body =
     bindR (unpack_u 2 body) (\<lambda>(count, rest). read_bars category (nat count) 0 rest)"

definition TICK_SIDES :: "(int \<times> string) list" where
  "TICK_SIDES = [(0, ''B''), (1, ''S''), (2, ''N''), (5, ''P''), (8, ''A'')]"

definition side_of :: "int \<Rightarrow> string" where
  "side_of code = (case map_of TICK_SIDES code of Some s \<Rightarrow> s | None \<Rightarrow> ''N'')"

record tick_row =
  t_time :: string
  t_price :: rat
  t_volume_lots :: int
  t_prints :: "int option"
  t_side :: string
  t_side_code :: int

definition read_tick :: "bool \<Rightarrow> int \<Rightarrow> (tick_row \<times> int) parser" where
  "read_tick history price bs =
     bindR (unpack_u 2 bs) (\<lambda>(minutes, r1).
     bindR (decode_price r1) (\<lambda>(delta, r2).
     bindR (decode_price r2) (\<lambda>(volume, r3).
     bindR (if history then Inr (None, r3)
            else bindR (decode_price r3) (\<lambda>(n, r). Inr (Some n, r))) (\<lambda>(prints, r4).
     bindR (decode_price r4) (\<lambda>(side, r5).
     bindR (decode_price r5) (\<lambda>(_, r6).
       Inr ((\<lparr>t_time = zero_pad 2 (minutes div 60) @ '':'' @ zero_pad 2 (minutes mod 60),
              t_price = hundredths (price + delta), t_volume_lots = volume, t_prints = prints,
              t_side = side_of side, t_side_code = side\<rparr>, price + delta), r6)))))))"

fun read_ticks :: "bool \<Rightarrow> nat \<Rightarrow> int \<Rightarrow> bytes \<Rightarrow> tick_row list res" where
  "read_ticks history 0 price bs = Inr []"
| "read_ticks history (Suc n) price bs =
     bindR (read_tick history price bs) (\<lambda>((tick, price'), rest).
     bindR (read_ticks history n price' rest) (\<lambda>ticks. Inr (tick # ticks)))"

definition parse_ticks :: "bool \<Rightarrow> bytes \<Rightarrow> tick_row list res" where
  "parse_ticks history body =
     bindR (unpack_u 2 body) (\<lambda>(count, _).
       read_ticks history (nat count) 0 (drop (if history then 6 else 2) body))"

datatype xdxr_detail =
    ExRights py_float py_float py_float py_float
  | SplitRatio py_float
  | Warrant py_float py_float
  | ShareChange rat rat rat rat

record xdxr_row =
  x_date :: string
  x_category :: int
  x_detail :: xdxr_detail

definition share_count :: "int \<Rightarrow> rat" where
  "share_count value = (if value \<noteq> 0 then decode_volume value else 0)"

definition xdxr_detail_of :: "int \<Rightarrow> int list \<Rightarrow> xdxr_detail" where
  "xdxr_detail_of category w =
     (if category = 1
      then ExRights (float32_value (w ! 0)) (float32_value (w ! 1)) (float32_value (w ! 2)) (float32_value (w ! 3))
      else if category \<in> {11, 12} then SplitRatio (float32_value (w ! 2))
      else if category \<in> {13, 14} then Warrant (float32_value (w ! 0)) (float32_value (w ! 2))
      else ShareChange (share_count (w ! 0)) (share_count (w ! 1)) (share_count (w ! 2)) (share_count (w ! 3)))"

definition read_byte :: "int parser" where
  "read_byte bs = (case bs of [] \<Rightarrow> Inl IndexError | b # rest \<Rightarrow> Inr (b, rest))"

definition read_xdxr :: "xdxr_row parser" where
  "read_xdxr bs =
     bindR (bar_datetime 9 (drop 8 bs)) (\<lambda>(stamp, r1).
     bindR (read_byte r1) (\<lambda>(category, r2).
     bindR (read_n (unpack_u 4) 4 r2) (\<lambda>(words, r3).
       Inr (\<lparr>x_date = stamp, x_category = category, x_detail = xdxr_detail_of category words\<rparr>, r3))))"

definition parse_xdxr :: "bytes \<Rightarrow> xdxr_row list res" where
  "parse_xdxr body =
     (if length body < 11 then Inr []
      else bindR (unpack_u 2 (drop 9 body)) (\<lambda>(count, rest).
           bindR (read_n read_xdxr (nat count) rest) (\<lambda>(rows, _). Inr rows)))"

section \<open>Variable-length integers\<close>

text \<open>The format \<open>decode_price\<close> reads, written out as an encoder: sign and six bits in the first
  byte, seven bits in each further one, the top bit set on every byte but the last.\<close>

definition encode_price :: "int \<Rightarrow> bytes" where
  "encode_price v =
     (let a = \<bar>v\<bar>; sign = (if v < 0 then 64 else 0)
      in if a < 64 then [sign + a] else (128 + sign + a mod 64) # more_bytes (a div 64))"

lemma price_more_bytes:
  "0 \<le> n \<Longrightarrow> price_more acc w (more_bytes n @ rest) = Inr (acc + n * w, rest)"
proof (induction n arbitrary: acc w rule: more_bytes.induct)
  case (1 n)
  show ?case
  proof (cases "n < 128")
    case True
    then show ?thesis using 1(2) by (simp add: more_bytes.simps [of n])
  next
    case False
    have "acc + n mod 128 * w + n div 128 * (w * 128) = acc + (n div 128 * 128 + n mod 128) * w"
      by (simp only: algebra_simps)
    then show ?thesis
      using 1 False by (simp add: more_bytes.simps [of n] Let_def)
  qed
qed

lemma decode_price_head:
  assumes "0 \<le> x" "x < 64"
  shows "decode_price (x # bs) = Inr (x, bs)" "decode_price ((64 + x) # bs) = Inr (- x, bs)"
    "decode_price ((128 + x) # bs) = price_more x 64 bs"
    "decode_price ((192 + x) # bs) = bindR (price_more x 64 bs) (\<lambda>(v, rest). Inr (- v, rest))"
proof -
  have d: "(64 * k + x) div 64 = k" "(64 * k + x) mod 64 = x" for k :: int
    using assms by (auto intro: int_div_pos_eq int_mod_pos_eq)
  show "decode_price (x # bs) = Inr (x, bs)"
    using assms d [of 0] by (simp add: Let_def)
  show "decode_price ((64 + x) # bs) = Inr (- x, bs)"
    using assms d [of 1] by (simp add: Let_def del: div_add_self1)
  show "decode_price ((128 + x) # bs) = price_more x 64 bs"
    using assms d [of 2] by (cases "price_more x 64 bs") (auto simp: Let_def)
  show "decode_price ((192 + x) # bs) = bindR (price_more x 64 bs) (\<lambda>(v, rest). Inr (- v, rest))"
    using assms d [of 3] by (simp add: Let_def)
qed

lemma decode_encode_price: "decode_price (encode_price v @ rest) = Inr (v, rest)"
proof -
  have eq: "\<bar>v\<bar> mod 64 + \<bar>v\<bar> div 64 * 64 = \<bar>v\<bar>" by simp
  have more: "price_more (\<bar>v\<bar> mod 64) 64 (more_bytes (\<bar>v\<bar> div 64) @ rest) = Inr (\<bar>v\<bar>, rest)"
    using price_more_bytes [of "\<bar>v\<bar> div 64"] eq by simp
  have m: "0 \<le> \<bar>v\<bar> mod 64" "\<bar>v\<bar> mod 64 < 64" by simp_all
  consider "\<bar>v\<bar> < 64" "v < 0" | "\<bar>v\<bar> < 64" "\<not> v < 0" | "\<not> \<bar>v\<bar> < 64" "v < 0" | "\<not> \<bar>v\<bar> < 64" "\<not> v < 0"
    by blast
  then show ?thesis
  proof cases
    case 1
    then show ?thesis using decode_price_head(2) [of "\<bar>v\<bar>" rest] by (simp add: encode_price_def)
  next
    case 2
    then show ?thesis using decode_price_head(1) [of "\<bar>v\<bar>" rest] by (simp add: encode_price_def)
  next
    case 3
    have "encode_price v = (192 + \<bar>v\<bar> mod 64) # more_bytes (\<bar>v\<bar> div 64)"
      using 3 by (simp add: encode_price_def Let_def)
    then show ?thesis
      by (simp only: append_Cons decode_price_head(4) [OF m] more) (use 3 in simp)
  next
    case 4
    have "encode_price v = (128 + \<bar>v\<bar> mod 64) # more_bytes (\<bar>v\<bar> div 64)"
      using 4 by (simp add: encode_price_def Let_def)
    then show ?thesis
      by (simp only: append_Cons decode_price_head(3) [OF m] more) (use 4 in simp)
  qed
qed

interpretation price: codec encode_price decode_price "\<lambda>_. True"
  by unfold_locales (rule decode_encode_price)

text \<open>A continuation that never ends is the only way to fail, and a value always consumes a byte.\<close>

lemma price_more_suffix:
  "price_more acc w bs = Inr (v, rest) \<Longrightarrow> \<exists>used. bs = used @ rest \<and> used \<noteq> []
     \<and> list_all (\<lambda>b. b \<ge> 128) (butlast used) \<and> \<not> last used \<ge> 128"
proof (induction bs arbitrary: acc w)
  case (Cons b bs)
  show ?case
  proof (cases "b \<ge> 128")
    case True
    with Cons.prems have "price_more (acc + b mod 128 * w) (w * 128) bs = Inr (v, rest)" by (simp add: Let_def)
    from Cons.IH [OF this] obtain used where "bs = used @ rest" "used \<noteq> []"
      "list_all (\<lambda>b. b \<ge> 128) (butlast used)" "\<not> last used \<ge> 128" by blast
    with True show ?thesis by (intro exI [of _ "b # used"]) auto
  next
    case False
    with Cons.prems show ?thesis by (intro exI [of _ "[b]"]) (auto simp: Let_def)
  qed
qed simp

lemma price_more_error: "(\<exists>e. price_more acc w bs = Inl e) \<longleftrightarrow> list_all (\<lambda>b. b \<ge> 128) bs"
  by (induction bs arbitrary: acc w) (auto simp: Let_def)

lemma price_more_Inl: "price_more acc w bs = Inl e \<Longrightarrow> e = IndexError"
  by (induction bs arbitrary: acc w) (auto simp: Let_def split: if_splits)

section \<open>The packed volume\<close>

text \<open>What the packed format denotes: the top byte is an exponent of 4, the low three bytes a
  fraction of 24 bits whose first bit chooses the half of the base-4 binade.\<close>

definition packed_value :: "int \<Rightarrow> rat" where
  "packed_value raw =
     (let e = raw div 2 ^ 24 * 2 - 127; m = raw mod 2 ^ 24
      in if m < 2 ^ 23 then of_int (2 ^ 23 + m) * pow2 (e - 23) else of_int m * pow2 (e - 22))"

lemma flt_int_pow2: "\<bar>m\<bar> \<le> 2 ^ 53 \<Longrightarrow> flt (of_int m * pow2 k) = of_int m * pow2 k"
  using rne_exact [of 2 53 m k] by (simp add: flt_def pow2_def)

lemma pow2_pos [simp]: "0 < pow2 k" "pow2 k \<noteq> 0" "\<not> pow2 k < 0"
  by (simp_all add: pow2_def not_less)

lemma pow2_add: "pow2 (a + b) = pow2 a * pow2 b"
  by (simp add: pow2_def power_int_add)

lemma pow2_nat: "pow2 (int n) = 2 ^ n"
  by (simp add: pow2_def)

lemma flt_pow2 [simp]: "flt (pow2 k) = pow2 k"
  using flt_int_pow2 [of 1 k] by simp

lemma pow2_minus: "1 / pow2 k = pow2 (- k)"
  by (simp add: pow2_def power_int_minus inverse_eq_divide)

text \<open>Sums of integer multiples of one power of two round to themselves while they fit 53 bits.\<close>

lemma fadd_pow2: "\<bar>a + b\<bar> \<le> 2 ^ 53 \<Longrightarrow>
  fadd (of_int a * pow2 k) (of_int b * pow2 k) = of_int (a + b) * pow2 k"
  using flt_int_pow2 [of "a + b" k] by (simp add: fadd_def algebra_simps)

lemma fmul_pow2: "\<bar>a\<bar> \<le> 2 ^ 53 \<Longrightarrow> fmul (pow2 k) (of_int a) = of_int a * pow2 k"
  using flt_int_pow2 [of a k] by (simp add: fmul_def mult.commute)

lemma pow2_shift: "of_int a * pow2 (k + int n) = of_int (a * 2 ^ n) * pow2 k"
  by (simp add: pow2_add pow2_nat)

lemma bytes_of_mantissa:
  fixes raw :: int
  shows "raw mod 2 ^ 24 = (raw div 2 ^ 16 mod 256) * 2 ^ 16 + (raw div 2 ^ 8 mod 256) * 2 ^ 8 + raw mod 256"
proof -
  have "raw mod (2 ^ 16 * 256) = 2 ^ 16 * (raw div 2 ^ 16 mod 256) + raw mod 2 ^ 16"
    "raw mod (2 ^ 8 * 256) = 2 ^ 8 * (raw div 2 ^ 8 mod 256) + raw mod 2 ^ 8"
    by (rule zmod_zmult2_eq; simp)+
  then show ?thesis by simp
qed

lemma xmm6_value: "(if d < 0 then flt (1 / pow2 \<bar>d\<bar>) else pow2 \<bar>d\<bar>) = pow2 d"
  by (simp add: pow2_minus)

text \<open>Everything but the second byte is decoded without a rounding error.\<close>

lemma decode_volume_parts:
  assumes "k = raw div 2 ^ 24 * 2 - 150" "h = raw div 2 ^ 16 mod 256"
    and "l1 = raw div 2 ^ 8 mod 256" "l0 = raw mod 256" "xmm4 = of_int x * pow2 k" "0 \<le> x" "x < 2 ^ 50"
    and "xmm4 = (if h > 128 then fadd (fmul (pow2 (k + 16)) 128) (fmul (of_int (h mod 128)) (pow2 (k + 16 + 1)))
                 else if k + 16 \<ge> 0 then fmul (pow2 (k + 16)) (of_int h)
                 else fmul (flt (1 / pow2 (k + 16))) (of_int h))"
  shows "decode_volume raw = of_int (2 ^ 23 + x + (l1 * 256 + l0) * (if h \<ge> 128 then 2 else 1)) * pow2 k"
proof -
  have bounds: "0 \<le> l1" "l1 < 256" "0 \<le> l0" "l0 < 256" by (simp_all add: assms)
  have ks: "raw div 2 ^ 24 * 2 - 134 = k + 16" "raw div 2 ^ 24 * 2 - 142 = k + 8"
    "raw div 2 ^ 24 * 2 - 127 = k + int 23" by (simp_all add: assms)
  have x3: "fmul (pow2 (k + 8)) (of_int l1) = of_int (l1 * 256) * pow2 k"
    using bounds fmul_pow2 [of l1 "k + 8"] pow2_shift [of l1 k 8] by simp
  have x1: "fmul (pow2 k) (of_int l0) = of_int l0 * pow2 k"
    using bounds by (intro fmul_pow2) simp
  have dbl: "fmul (of_int a * pow2 k) 2 = of_int (a * 2) * pow2 k" if "0 \<le> a" "a < 2 ^ 50" for a
    using flt_int_pow2 [of "a * 2" k] that by (simp add: fmul_def algebra_simps)
  have x6: "pow2 (k + int 23) = of_int (2 ^ 23) * pow2 k"
    using pow2_shift [of 1 k 23] by simp
  have s1: "fadd (of_int (2 ^ 23) * pow2 k) (of_int x * pow2 k) = of_int (2 ^ 23 + x) * pow2 k"
    using assms(6,7) by (intro fadd_pow2) simp
  have s2: "fadd (of_int (2 ^ 23 + x) * pow2 k) (of_int a * pow2 k) = of_int (2 ^ 23 + x + a) * pow2 k"
    if "0 \<le> a" "a \<le> 2 ^ 20" for a
    using assms(6,7) that by (intro fadd_pow2) simp
  have s3: "fadd (of_int (2 ^ 23 + x + a) * pow2 k) (of_int b * pow2 k) = of_int (2 ^ 23 + x + a + b) * pow2 k"
    if "0 \<le> a" "a \<le> 2 ^ 20" "0 \<le> b" "b \<le> 2 ^ 20" for a b
    using assms(6,7) that by (intro fadd_pow2) simp
  have eax: "raw div 2 ^ 24 * 2 - 150 = k" by (simp add: assms)
  have form: "decode_volume raw = fadd (fadd (fadd (pow2 (k + int 23)) xmm4)
      (if h \<ge> 128 then fmul (fmul (pow2 (k + 8)) (of_int l1)) 2 else fmul (pow2 (k + 8)) (of_int l1)))
      (if h \<ge> 128 then fmul (fmul (pow2 k) (of_int l0)) 2 else fmul (pow2 k) (of_int l0))"
    unfolding decode_volume_def Let_def xmm6_value ks eax assms(2-4) [symmetric] assms(8) ..
  show ?thesis
  proof (cases "h \<ge> 128")
    case True
    have d: "fmul (of_int (l1 * 256) * pow2 k) 2 = of_int (l1 * 256 * 2) * pow2 k"
      "fmul (of_int l0 * pow2 k) 2 = of_int (l0 * 2) * pow2 k"
      by (rule dbl; use bounds in simp)+
    have f: "fadd (of_int (2 ^ 23 + x) * pow2 k) (of_int (l1 * 256 * 2) * pow2 k)
        = of_int (2 ^ 23 + x + l1 * 256 * 2) * pow2 k"
      "fadd (of_int (2 ^ 23 + x + l1 * 256 * 2) * pow2 k) (of_int (l0 * 2) * pow2 k)
        = of_int (2 ^ 23 + x + l1 * 256 * 2 + l0 * 2) * pow2 k"
      by (rule s2 s3; use bounds in simp)+
    have "decode_volume raw = of_int (2 ^ 23 + x + l1 * 256 * 2 + l0 * 2) * pow2 k"
      unfolding form assms(5) x6 x3 x1 using True by (simp only: if_True s1 d f)
    moreover have "2 ^ 23 + x + l1 * 256 * 2 + l0 * 2 = 2 ^ 23 + x + (l1 * 256 + l0) * 2" by simp
    ultimately show ?thesis using True by (simp only: if_True)
  next
    case False
    have f: "fadd (of_int (2 ^ 23 + x) * pow2 k) (of_int (l1 * 256) * pow2 k)
        = of_int (2 ^ 23 + x + l1 * 256) * pow2 k"
      "fadd (of_int (2 ^ 23 + x + l1 * 256) * pow2 k) (of_int l0 * pow2 k)
        = of_int (2 ^ 23 + x + l1 * 256 + l0) * pow2 k"
      by (rule s2 s3; use bounds in simp)+
    have "decode_volume raw = of_int (2 ^ 23 + x + l1 * 256 + l0) * pow2 k"
      unfolding form assms(5) x6 x3 x1 using False by (simp only: if_False s1 f)
    with False show ?thesis by (simp add: add.assoc)
  qed
qed

text \<open>The second byte: as the format has it, except for small values.\<close>

lemma decode_volume_value:
  assumes "0 \<le> raw" and "k = raw div 2 ^ 24 * 2 - 150" and "h = raw div 2 ^ 16 mod 256"
    and "h > 128 \<or> k + 16 \<ge> 0 \<or> h = 0"
  shows "decode_volume raw = packed_value raw"
proof -
  have h: "0 \<le> h" "h < 256" by (simp_all add: assms)
  let ?x = "if h > 128 then 128 * 2 ^ 16 + h mod 128 * 2 ^ 17 else h * 2 ^ 16"
  define xmm4 where "xmm4 = (if h > 128 then fadd (fmul (pow2 (k + 16)) 128) (fmul (of_int (h mod 128)) (pow2 (k + 16 + 1)))
                 else if k + 16 \<ge> 0 then fmul (pow2 (k + 16)) (of_int h)
                 else fmul (flt (1 / pow2 (k + 16))) (of_int h))"
  have p16: "of_int a * pow2 (k + 16) = of_int (a * 2 ^ 16) * pow2 k" for a
    using pow2_shift [of a k 16] by simp
  have p17: "of_int a * pow2 (k + 16 + 1) = of_int (a * 2 ^ 17) * pow2 k" for a
    using pow2_shift [of a k 17] by (simp add: add.assoc)
  have "xmm4 = of_int ?x * pow2 k"
  proof (cases "h > 128")
    case True
    have "fmul (pow2 (k + 16)) (of_int 128) = of_int (128 * 2 ^ 16) * pow2 k"
      unfolding p16 [symmetric] by (rule fmul_pow2) simp
    moreover have "fmul (of_int (h mod 128)) (pow2 (k + 16 + 1)) = of_int (h mod 128 * 2 ^ 17) * pow2 k"
      unfolding p17 [symmetric] fmul_def by (rule flt_int_pow2) (use pos_mod_bound [of 128 h] in simp)
    moreover have "fadd (of_int (128 * 2 ^ 16) * pow2 k) (of_int (h mod 128 * 2 ^ 17) * pow2 k)
        = of_int (128 * 2 ^ 16 + h mod 128 * 2 ^ 17) * pow2 k"
      by (rule fadd_pow2) (use pos_mod_bound [of 128 h] in simp)
    ultimately show ?thesis using True by (simp add: xmm4_def)
  next
    case False
    have "fmul y (of_int h) = of_int (h * 2 ^ 16) * pow2 k" if "y = pow2 (k + 16) \<or> h = 0" for y
    proof (cases "h = 0")
      case nz: False
      then have "fmul y (of_int h) = of_int h * pow2 (k + 16)"
        using that h fmul_pow2 [of h "k + 16"] by simp
      then show ?thesis by (simp only: p16)
    qed (simp add: fmul_def flt.rnd_0)
    with False assms(4) show ?thesis
      by (cases "k + 16 \<ge> 0") (auto simp: xmm4_def)
  qed
  moreover have "0 \<le> ?x" "?x < 2 ^ 50" using h pos_mod_bound [of 128 h] by auto
  ultimately have v: "decode_volume raw = of_int (2 ^ 23 + ?x
      + (raw div 2 ^ 8 mod 256 * 256 + raw mod 256) * (if h \<ge> 128 then 2 else 1)) * pow2 k"
    using decode_volume_parts [OF assms(2,3) refl refl _ _ _ xmm4_def] by blast
  define m where "m = raw mod 2 ^ 24"
  have m: "m = h * 2 ^ 16 + (raw div 2 ^ 8 mod 256 * 256 + raw mod 256)"
    unfolding m_def assms(3) bytes_of_mantissa [of raw] by simp
  have l: "0 \<le> raw div 2 ^ 8 mod 256 * 256 + raw mod 256" "raw div 2 ^ 8 mod 256 * 256 + raw mod 256 < 2 ^ 16"
    using pos_mod_bound [of 256 "raw div 2 ^ 8"] pos_mod_bound [of 256 raw] by (simp_all add: algebra_simps)
  show ?thesis
  proof (cases "h \<ge> 128")
    case False
    then have "m < 2 ^ 23" using m l(2) h by simp
    moreover have "raw div 2 ^ 24 * 2 - 127 - 23 = k" by (simp add: assms(2))
    ultimately have "packed_value raw = of_int (2 ^ 23 + m) * pow2 k"
      unfolding packed_value_def Let_def m_def [symmetric] by (simp only: if_True)
    moreover have "2 ^ 23 + ?x + (raw div 2 ^ 8 mod 256 * 256 + raw mod 256) * (if h \<ge> 128 then 2 else 1) = 2 ^ 23 + m"
      using False m by simp
    ultimately show ?thesis by (simp only: v)
  next
    case True
    then have "\<not> m < 2 ^ 23" using m l(1) by simp
    moreover have "raw div 2 ^ 24 * 2 - 127 - 22 = k + int 1" by (simp add: assms(2))
    ultimately have "packed_value raw = of_int m * pow2 (k + int 1)"
      unfolding packed_value_def Let_def m_def [symmetric] by (simp only: if_False)
    then have "packed_value raw = of_int (m * 2 ^ 1) * pow2 k" by (simp only: pow2_shift)
    moreover have "h mod 128 = h - 128" using True h by (intro int_mod_pos_eq [where q = 1]) simp_all
    then have "2 ^ 23 + ?x + (raw div 2 ^ 8 mod 256 * 256 + raw mod 256) * (if h \<ge> 128 then 2 else 1) = m * 2 ^ 1"
      using True m by auto
    ultimately show ?thesis by (simp only: v)
  qed
qed

section \<open>Properties\<close>

text \<open>
  \<open>decode_price\<close> inverts the variable-length format for every integer, of either sign and
  any size, and leaves the following bytes; on any input it consumes at least one byte, stops
  at the first byte without a continuation bit, and fails with an IndexError exactly when every
  byte of the input continues.
\<close>

theorem decode_price_spec:
  "decode_price (encode_price v @ rest) = Inr (v, rest)
   \<and> (decode_price bs = Inr (w, tail) \<longrightarrow> (\<exists>used. bs = used @ tail \<and> used \<noteq> []
        \<and> list_all (\<lambda>b. b \<ge> 128) (butlast used) \<and> \<not> last used \<ge> 128))
   \<and> (decode_price bs = Inl IndexError \<longleftrightarrow> list_all (\<lambda>b. b \<ge> 128) bs)"
proof (intro conjI impI)
  show "decode_price (encode_price v @ rest) = Inr (v, rest)" by (rule price.round_trip) simp
next
  assume d: "decode_price bs = Inr (w, tail)"
  then obtain b bs' where bs: "bs = b # bs'" by (cases bs) auto
  show "\<exists>used. bs = used @ tail \<and> used \<noteq> [] \<and> list_all (\<lambda>b. b \<ge> 128) (butlast used) \<and> \<not> last used \<ge> 128"
  proof (cases "b \<ge> 128")
    case True
    with d bs obtain v' where "price_more (b mod 64) 64 bs' = Inr (v', tail)" by (auto simp: Let_def)
    from price_more_suffix [OF this] obtain used where "bs' = used @ tail" "used \<noteq> []"
      "list_all (\<lambda>b. b \<ge> 128) (butlast used)" "\<not> last used \<ge> 128" by blast
    with True bs show ?thesis by (intro exI [of _ "b # used"]) auto
  next
    case False
    with d bs show ?thesis by (intro exI [of _ "[b]"]) (auto simp: Let_def)
  qed
next
  show "decode_price bs = Inl IndexError \<longleftrightarrow> list_all (\<lambda>b. b \<ge> 128) bs"
  proof (cases bs)
    case (Cons b bs')
    then show ?thesis
      using price_more_error [of "b mod 64" 64 bs'] price_more_Inl [of "b mod 64" 64 bs']
      by (cases "price_more (b mod 64) 64 bs'") (auto simp: Let_def)
  qed simp
qed

theorem decode_price_spec_witness:
  "(\<exists>used. [192, 1, 7 :: int] = used @ [7] \<and> used \<noteq> [] \<and> list_all (\<lambda>b. b \<ge> 128) (butlast used) \<and> \<not> last used \<ge> 128)"
proof -
  have "decode_price [192, 1, 7] = Inr (- 64, [7])" by code_simp
  then show ?thesis using decode_price_spec by blast
qed

text \<open>
  \<open>decode_volume\<close> computes exactly the packed number, with no rounding error in any of its
  floating-point steps, whenever the exponent byte is at least 67 (values from 128 on) or the
  second byte is zero or above 128.
\<close>

theorem decode_volume_exact:
  assumes "0 \<le> raw"
    and "67 \<le> raw div 2 ^ 24 \<or> raw div 2 ^ 16 mod 256 = 0 \<or> 128 < raw div 2 ^ 16 mod 256"
  shows "decode_volume raw = packed_value raw"
  by (rule decode_volume_value [OF assms(1) refl refl]) (use assms(2) in linarith)

theorem decode_volume_exact_witness: "decode_volume 0x49123456 = packed_value 0x49123456"
  by (rule decode_volume_exact) simp_all

lemma fadd_ge_left: "flt a = a \<Longrightarrow> 0 \<le> b \<Longrightarrow> a \<le> fadd a b"
  by (simp add: fadd_def flt.rnd_ge)

lemma fadd_ge_right: "flt b = b \<Longrightarrow> 0 \<le> a \<Longrightarrow> b \<le> fadd a b"
  by (simp add: fadd_def flt.rnd_ge)

lemma fmul_nonneg: "0 \<le> a \<Longrightarrow> 0 \<le> b \<Longrightarrow> 0 \<le> fmul a b"
  by (simp add: fmul_def flt.rnd_nonneg)

lemma flt_fadd [simp]: "flt (fadd a b) = fadd a b"
  by (simp add: fadd_def flt.rnd_idem)

lemma fadd3_ge:
  assumes "flt b = b" "0 \<le> a" "0 \<le> c" "0 \<le> d"
  shows "b \<le> fadd (fadd (fadd a b) c) d"
proof -
  have "b \<le> fadd a b" using assms by (intro fadd_ge_right)
  also have "\<dots> \<le> fadd (fadd a b) c" using assms by (intro fadd_ge_left) simp_all
  also have "\<dots> \<le> fadd (fadd (fadd a b) c) d" using assms by (intro fadd_ge_left) simp_all
  finally show ?thesis .
qed

lemma pow2_mono: "a \<le> b \<Longrightarrow> pow2 a \<le> pow2 b"
  by (simp add: pow2_def power_int_increasing)

lemma packed_value_less: "packed_value raw < pow2 (raw div 2 ^ 24 * 2 - 125)"
proof -
  have m: "raw mod 2 ^ 24 < 2 ^ 24" "0 \<le> raw mod 2 ^ 24" by simp_all
  have shift: "pow2 (k + int n) = of_int (2 ^ n) * pow2 k" for k n
    by (simp add: pow2_add pow2_nat)
  have e: "raw div 2 ^ 24 * 2 - 125 = raw div 2 ^ 24 * 2 - 127 - 23 + int 25"
    "raw div 2 ^ 24 * 2 - 125 = raw div 2 ^ 24 * 2 - 127 - 22 + int 24" by simp_all
  show ?thesis
  proof (cases "raw mod 2 ^ 24 < 2 ^ 23")
    case True
    have "of_int (2 ^ 23 + raw mod 2 ^ 24) < (of_int (2 ^ 25) :: rat)"
      by (subst of_int_less_iff) (use True in simp)
    with True show ?thesis unfolding e(1) shift by (simp add: packed_value_def Let_def)
  next
    case False
    have "of_int (raw mod 2 ^ 24) < (of_int (2 ^ 24) :: rat)"
      by (subst of_int_less_iff) (use m in simp)
    with False show ?thesis unfolding e(2) shift by (simp add: packed_value_def Let_def)
  qed
qed

text \<open>
  Below that exponent a second byte from 1 to 128 is scaled by the reciprocal of its
  weight: the result is at least the byte times \<open>2 ^ (134 - 2 * exponent)\<close>, while the number the
  bytes denote is below \<open>2 ^ (2 * exponent - 125)\<close>; for exponents up to 64 the result is
  always too large.
\<close>

theorem decode_volume_small:
  assumes "0 \<le> raw" and "lp = raw div 2 ^ 24" and "h = raw div 2 ^ 16 mod 256"
    and "lp < 67" and "0 < h" and "h \<le> 128"
  shows "of_int h * pow2 (134 - 2 * lp) \<le> decode_volume raw \<and> packed_value raw < pow2 (2 * lp - 125)
    \<and> (lp \<le> 64 \<longrightarrow> packed_value raw < decode_volume raw)"
proof -
  have x4: "fmul (flt (1 / pow2 (lp * 2 - 134))) (of_int h) = of_int h * pow2 (134 - 2 * lp)"
    using fmul_pow2 [of h "134 - 2 * lp"] assms(5,6) by (simp add: pow2_minus mult.commute)
  have big: "of_int h * pow2 (134 - 2 * lp) \<le> decode_volume raw"
  proof -
    have c: "\<not> h > 128" "\<not> lp * 2 - 134 \<ge> 0" using assms by simp_all
    show ?thesis
      unfolding decode_volume_def Let_def assms(2,3) [symmetric] xmm6_value
      unfolding if_not_P [OF c(1)] if_not_P [OF c(2)] x4
      using flt_int_pow2 [of h "134 - 2 * lp"] assms(5,6)
      by (intro fadd3_ge) (simp_all add: fmul_nonneg less_imp_le)
  qed
  have small: "packed_value raw < pow2 (2 * lp - 125)"
    using packed_value_less [of raw] by (simp add: assms(2) mult.commute)
  have "packed_value raw < decode_volume raw" if "lp \<le> 64"
  proof -
    have "pow2 (2 * lp - 125) \<le> pow2 (134 - 2 * lp)" using that by (intro pow2_mono) simp
    also have "\<dots> \<le> of_int h * pow2 (134 - 2 * lp)" using assms(5) by (simp add: mult_le_cancel_right1 not_less less_imp_le)
    finally show ?thesis using small big by linarith
  qed
  with big small show ?thesis by blast
qed

theorem decode_volume_small_witness:
  "packed_value 0x40400000 < decode_volume 0x40400000"
proof -
  have "0 \<le> (0x40400000 :: int)" "64 = (0x40400000 :: int) div 2 ^ 24" "64 = (0x40400000 :: int) div 2 ^ 16 mod 256"
    "(64 :: int) < 67" "0 < (64 :: int)" "(64 :: int) \<le> 128" by simp_all
  from decode_volume_small [OF this] show ?thesis by simp
qed

lemma pack_stock_length: "pack_stock s = Inr b \<Longrightarrow> length b = 7"
  by (auto simp: pack_stock_def code_bytes_def pack_u_def split: if_splits)

lemma mapR_pack_stock_length: "mapR pack_stock stocks = Inr bs \<Longrightarrow> length (concat bs) = 7 * length stocks"
  by (induction stocks arbitrary: bs) (auto dest: pack_stock_length)

text \<open>
  A quotes request declares its own length: the two length fields of the header are the
  number of bytes after the ten-byte prefix, the count field is the number of stocks, and each
  stock takes seven bytes, its market and its code.
\<close>

theorem quotes_request_length:
  assumes "build_quotes_request stocks = Inr req"
  shows "length req = 22 + 7 * length stocks
    \<and> le_value (take 2 (drop 6 req)) = int (length req) - 10 \<and> le_value (take 2 (drop 8 req)) = int (length req) - 10
    \<and> le_value (take 2 (drop 20 req)) = int (length stocks)"
proof -
  let ?n = "int (length stocks) * 7 + 12"
  have n: "0 \<le> ?n" "?n < 256 ^ 2" "int (length stocks) < 256 ^ 2"
    using assms by (auto simp: build_quotes_request_def Let_def pack_u_def split: if_splits)
  obtain parts where parts: "mapR pack_stock stocks = Inr parts"
    and req: "req = le_bytes 2 0x10C @ le_bytes 4 0x02006320 @ le_bytes 2 ?n @ le_bytes 2 ?n @ le_bytes 4 0x5053E
      @ le_bytes 4 0 @ le_bytes 2 0 @ le_bytes 2 (int (length stocks)) @ concat parts"
    using assms by (auto simp: build_quotes_request_def Let_def pack_u_def split: if_splits)
  have len: "length req = 22 + 7 * length stocks"
    using mapR_pack_stock_length [OF parts] by (simp add: req)
  have "take 2 (drop 6 req) = le_bytes 2 ?n" "take 2 (drop 8 req) = le_bytes 2 ?n"
    "take 2 (drop 20 req) = le_bytes 2 (int (length stocks))"
    by (simp_all add: req)
  then show ?thesis using n len by (simp add: le_value_bytes)
qed

theorem quotes_request_length_witness:
  "\<exists>req. build_quotes_request [(1, ''600519''), (0, ''000001'')] = Inr req \<and> length req = 36"
proof -
  have "(case build_quotes_request [(1, ''600519''), (0, ''000001'')] of Inr _ \<Rightarrow> True | Inl _ \<Rightarrow> False)"
    by code_simp
  then obtain req where r: "build_quotes_request [(1, ''600519''), (0, ''000001'')] = Inr req"
    by (auto split: sum.splits)
  from quotes_request_length [OF this] have "length req = 22 + 7 * length [(1::int, ''600519''), (0, ''000001'')]"
    by blast
  with r show ?thesis by simp
qed

section \<open>Rows\<close>

text \<open>The body a server sends for a list of bars, given by absolute prices in thousandths: each
  row is the difference from the previous close, and close, high and low from its open.\<close>

record wire_bar =
  w_stamp :: bytes
  w_open :: int
  w_close :: int
  w_high :: int
  w_low :: int
  w_volume :: int
  w_amount :: int

definition encode_bar :: "int \<Rightarrow> wire_bar \<Rightarrow> bytes" where
  "encode_bar base b =
     w_stamp b @ encode_price (w_open b - base) @ encode_price (w_close b - w_open b)
     @ encode_price (w_high b - w_open b) @ encode_price (w_low b - w_open b)
     @ le_bytes 4 (w_volume b) @ le_bytes 4 (w_amount b)"

fun encode_bars :: "int \<Rightarrow> wire_bar list \<Rightarrow> bytes" where
  "encode_bars base [] = []"
| "encode_bars base (b # bs) = encode_bar base b @ encode_bars (w_close b) bs"

definition wire_bar_ok :: "wire_bar \<Rightarrow> bool" where
  "wire_bar_ok b =
     (length (w_stamp b) = 4 \<and> 0 \<le> w_volume b \<and> w_volume b < 256 ^ 4 \<and> 0 \<le> w_amount b \<and> w_amount b < 256 ^ 4)"

definition stamp_text :: "int \<Rightarrow> bytes \<Rightarrow> string" where
  "stamp_text category raw = (case bar_datetime category raw of Inr (t, _) \<Rightarrow> t | Inl _ \<Rightarrow> [])"

definition bar_of_wire :: "int \<Rightarrow> wire_bar \<Rightarrow> bar_row" where
  "bar_of_wire category b =
     \<lparr>b_datetime = stamp_text category (w_stamp b), b_open = thousandths (w_open b),
      b_close = thousandths (w_close b), b_high = thousandths (w_high b), b_low = thousandths (w_low b),
      b_volume = bar_amount category (w_volume b), b_amount = bar_amount category (w_amount b)\<rparr>"

lemma length4: "length raw = 4 \<Longrightarrow> \<exists>a b c d. raw = [a, b, c, d]"
  by (auto simp: length_Suc_conv numeral_eq_Suc)

lemma bar_datetime_reads:
  assumes "length raw = 4"
  shows "bar_datetime category (raw @ rest) = Inr (stamp_text category raw, rest)"
proof -
  obtain a b c d where raw: "raw = [a, b, c, d]" using length4 assms by blast
  have u2: "unpack_u 2 (x # y # r) = Inr (le_value [x, y], r)"
    and u4: "unpack_u 4 (x # y # z # t # r) = Inr (le_value [x, y, z, t], r)" for x y z t r
    by (simp_all add: unpack_u_def take_bytes_def)
  show ?thesis
    by (simp add: raw stamp_text_def bar_datetime_def u2 u4 Let_def del: le_value.simps)
qed

lemma read_bar_encode:
  "wire_bar_ok b \<Longrightarrow>
   read_bar category base (encode_bar base b @ rest) = Inr ((bar_of_wire category b, w_close b), rest)"
  by (simp add: read_bar_def encode_bar_def wire_bar_ok_def bar_datetime_reads decode_encode_price bar_of_wire_def)

lemma read_bars_encode:
  "list_all wire_bar_ok bs \<Longrightarrow>
   read_bars category (length bs) base (encode_bars base bs) = Inr (map (bar_of_wire category) bs)"
  by (induction bs arbitrary: base) (simp_all add: read_bar_encode)

text \<open>
  \<open>parse_bars\<close> rebuilds the absolute prices of every bar from the differences on the wire,
  for any number of bars that fits the count field: the running base is the previous close,
  and each bar's close, high and low are taken from its own open.
\<close>

theorem parse_bars_round_trip:
  assumes "list_all wire_bar_ok bs" and "length bs < 65536"
  shows "parse_bars category (le_bytes 2 (int (length bs)) @ encode_bars 0 bs) = Inr (map (bar_of_wire category) bs)"
proof -
  have "unpack_u 2 (le_bytes 2 (int (length bs)) @ encode_bars 0 bs) = Inr (int (length bs), encode_bars 0 bs)"
    using assms(2) by (intro unpack_u_le_bytes) simp_all
  then show ?thesis using read_bars_encode [OF assms(1)] by (simp add: parse_bars_def)
qed

theorem parse_bars_round_trip_witness:
  "parse_bars 9 (le_bytes 2 (int (length
       [\<lparr>w_stamp = le_bytes 4 20260102, w_open = 10000, w_close = 9900, w_high = 10100, w_low = 9800,
         w_volume = 0, w_amount = 0\<rparr>]))
     @ encode_bars 0
       [\<lparr>w_stamp = le_bytes 4 20260102, w_open = 10000, w_close = 9900, w_high = 10100, w_low = 9800,
         w_volume = 0, w_amount = 0\<rparr>])
   = Inr (map (bar_of_wire 9)
       [\<lparr>w_stamp = le_bytes 4 20260102, w_open = 10000, w_close = 9900, w_high = 10100, w_low = 9800,
         w_volume = 0, w_amount = 0\<rparr>])"
  by (rule parse_bars_round_trip) (simp_all add: wire_bar_ok_def)

lemma kept_subseq:
  "length qs = length want \<Longrightarrow>
   subseq (map (\<lambda>q. (q_market q, q_code q)) (map snd (filter (\<lambda>(w, q). (q_market q, q_code q) = w) (zip want qs)))) want"
  by (induction qs want rule: list_induct2) (auto simp: split_def)

lemma zip_snd_in: "x \<in> set (map snd (filter P (zip want qs))) \<Longrightarrow> x \<in> set qs"
  by (auto dest: set_zip_rightD)

text \<open>
  A quote answer is matched to its request by position: when it is accepted, its length was
  the number of requested symbols, and the rows kept are, in order, a selection of the requested
  (market, code) pairs, so a placeholder row never stands for another symbol.
\<close>

theorem parse_quotes_requested:
  assumes "parse_quotes body (Some want) = Inr kept"
  shows "\<exists>rows. parse_quotes body None = Inr rows \<and> length rows = length want \<and> set kept \<subseteq> set rows
    \<and> subseq (map (\<lambda>q. (q_market q, q_code q)) kept) want"
proof -
  obtain rows where r: "parse_quotes body None = Inr rows" "match_requested want rows = Inr kept"
    using assms by (auto simp: parse_quotes_def split: prod.splits)
  then have len: "length rows = length want"
    and kept: "kept = map snd (filter (\<lambda>(w, q). (q_market q, q_code q) = w) (zip want rows))"
    by (auto simp: match_requested_def split: if_splits)
  have "set kept \<subseteq> set rows" unfolding kept using zip_snd_in by (rule subsetI)
  with r(1) len kept_subseq [OF len, folded kept] show ?thesis by (intro exI [of _ rows] conjI)
qed

theorem parse_quotes_requested_witness:
  "\<exists>rows. parse_quotes [0, 0, 0, 0] None = Inr rows \<and> length rows = length ([] :: (int \<times> string) list)"
proof -
  have "parse_quotes [0, 0, 0, 0] (Some []) = Inr []" by (simp add: parse_quotes_def unpack_u_def take_bytes_def match_requested_def)
  from parse_quotes_requested [OF this] show ?thesis by blast
qed

end
