(* ===== verification/TdxClient.thy ===== *)
theory TdxClient
  imports TdxWire "HOL-Library.Product_Lexorder" "HOL-Library.Multiset"
begin

text \<open>
  \<open>quant-service/app/datasources/sources/tdx_protocol.py\<close>, the client: framing on a socket, the
  chunked and paged reads, failover over the host pool with cooldowns, and the symbols
  (\<open>tdx_bj_codes.py\<close>, \<open>tdx_hosts.py\<close>). A connection is the list of chunks its \<open>recv\<close> calls are going
  to deliver, with the requests sent so far; \<open>inflate\<close> stands for \<open>zlib.decompress\<close> and is \<open>None\<close>
  where it raises. An operation on a host is an argument of the failover: it yields a result or
  an exception, whether the socket had connected, and the clock when it ended.
\<close>

section \<open>Hosts and codes\<close>

definition DEFAULT_HOSTS :: "(string \<times> int) list" where
  "DEFAULT_HOSTS =
     [
      (''115.238.56.198'', 7709), (''218.75.126.9'', 7709), (''180.153.18.170'', 7709),
      (''123.60.164.122'', 7709), (''124.70.199.56'', 7709), (''150.158.160.2'', 7709),
      (''123.60.70.228'', 7709), (''124.71.187.72'', 7709), (''60.191.117.167'', 7709),
      (''121.36.248.138'', 7709), (''60.12.136.250'', 7709), (''122.51.120.217'', 7709),
      (''123.60.73.44'', 7709), (''115.238.90.165'', 7709), (''111.231.113.208'', 7709),
      (''124.71.187.122'', 7709), (''121.36.225.169'', 7709), (''220.178.55.71'', 7709),
      (''118.25.98.114'', 7709), (''101.35.121.35'', 7709)
     ]"

definition OLD_TO_NEW :: "(string \<times> string) list" where
  "OLD_TO_NEW =
     [
      (''430017'', ''920017''), (''430047'', ''920047''), (''430090'', ''920090''), (''430139'', ''920139''),
      (''430198'', ''920198''), (''430300'', ''920300''), (''430418'', ''920418''), (''430425'', ''920425''),
      (''430476'', ''920476''), (''430478'', ''920478''), (''430489'', ''920489''), (''430510'', ''920510''),
      (''430556'', ''920556''), (''430564'', ''920564''), (''430685'', ''920685''), (''430718'', ''920718''),
      (''830779'', ''920779''), (''830799'', ''920799''), (''830809'', ''920809''), (''830832'', ''920832''),
      (''830839'', ''920839''), (''830852'', ''920186''), (''830879'', ''920879''), (''830896'', ''920896''),
      (''830946'', ''920946''), (''830964'', ''920964''), (''830974'', ''920974''), (''831010'', ''920010''),
      (''831039'', ''920039''), (''831075'', ''920108''), (''831087'', ''920087''), (''831152'', ''920152''),
      (''831167'', ''920267''), (''831175'', ''920375''), (''831195'', ''920195''), (''831278'', ''920378''),
      (''831304'', ''920304''), (''831305'', ''920405''), (''831370'', ''920370''), (''831396'', ''920496''),
      (''831445'', ''920445''), (''831490'', ''920008''), (''831526'', ''920526''), (''831627'', ''920627''),
      (''831641'', ''920641''), (''831689'', ''920689''), (''831726'', ''920726''), (''831768'', ''920768''),
      (''831832'', ''920932''), (''831834'', ''920834''), (''831855'', ''920855''), (''831856'', ''920856''),
      (''831906'', ''920906''), (''831961'', ''920961''), (''832000'', ''920000''), (''832023'', ''920023''),
      (''832089'', ''920089''), (''832110'', ''920110''), (''832145'', ''920145''), (''832149'', ''920249''),
      (''832171'', ''920171''), (''832175'', ''920175''), (''832225'', ''920225''), (''832278'', ''920278''),
      (''832419'', ''920419''), (''832469'', ''920469''), (''832471'', ''920471''), (''832491'', ''920491''),
      (''832522'', ''920522''), (''832566'', ''920566''), (''832651'', ''920651''), (''832662'', ''920662''),
      (''832735'', ''920735''), (''832786'', ''920786''), (''832802'', ''920802''), (''832876'', ''920876''),
      (''832885'', ''920885''), (''832978'', ''920978''), (''832982'', ''920982''), (''833030'', ''920130''),
      (''833075'', ''920075''), (''833137'', ''920168''), (''833171'', ''920571''), (''833230'', ''920230''),
      (''833243'', ''920161''), (''833266'', ''920266''), (''833284'', ''920284''), (''833346'', ''920346''),
      (''833394'', ''920394''), (''833427'', ''920427''), (''833429'', ''920429''), (''833454'', ''920454''),
      (''833455'', ''920455''), (''833509'', ''920509''), (''833523'', ''920523''), (''833533'', ''920533''),
      (''833575'', ''920575''), (''833580'', ''920580''), (''833751'', ''920751''), (''833781'', ''920781''),
      (''833819'', ''920819''), (''833873'', ''920873''), (''833914'', ''920914''), (''833943'', ''920943''),
      (''834014'', ''920014''), (''834021'', ''920021''), (''834033'', ''920033''), (''834058'', ''920058''),
      (''834062'', ''920062''), (''834081'', ''920187''), (''834261'', ''920261''), (''834407'', ''920407''),
      (''834415'', ''920415''), (''834475'', ''920475''), (''834549'', ''920068''), (''834599'', ''920599''),
      (''834639'', ''920639''), (''834682'', ''920682''), (''834765'', ''920765''), (''834770'', ''920770''),
      (''834950'', ''920950''), (''835174'', ''920174''), (''835179'', ''920179''), (''835184'', ''920184''),
      (''835185'', ''920185''), (''835207'', ''920207''), (''835237'', ''920237''), (''835305'', ''920305''),
      (''835368'', ''920368''), (''835438'', ''920438''), (''835508'', ''920508''), (''835579'', ''920579''),
      (''835640'', ''920640''), (''835670'', ''920670''), (''835857'', ''920057''), (''835892'', ''920992''),
      (''835985'', ''920985''), (''836077'', ''920077''), (''836149'', ''920149''), (''836208'', ''920208''),
      (''836221'', ''920221''), (''836239'', ''920239''), (''836247'', ''920247''), (''836260'', ''920260''),
      (''836263'', ''920263''), (''836270'', ''920270''), (''836395'', ''920395''), (''836414'', ''920414''),
      (''836419'', ''920519''), (''836422'', ''920422''), (''836433'', ''920433''), (''836504'', ''920504''),
      (''836547'', ''920547''), (''836675'', ''920675''), (''836699'', ''920699''), (''836717'', ''920717''),
      (''836720'', ''920720''), (''836807'', ''920807''), (''836826'', ''920826''), (''836871'', ''920871''),
      (''836892'', ''920892''), (''836942'', ''920942''), (''836957'', ''920957''), (''836961'', ''920061''),
      (''837006'', ''920006''), (''837023'', ''920123''), (''837046'', ''920046''), (''837092'', ''920092''),
      (''837174'', ''920274''), (''837212'', ''920212''), (''837242'', ''920242''), (''837344'', ''920344''),
      (''837403'', ''920403''), (''837592'', ''920592''), (''837663'', ''920663''), (''837748'', ''920748''),
      (''837821'', ''920821''), (''838030'', ''920030''), (''838163'', ''920163''), (''838171'', ''920271''),
      (''838227'', ''920227''), (''838262'', ''920262''), (''838275'', ''920275''), (''838402'', ''920402''),
      (''838670'', ''920870''), (''838701'', ''920701''), (''838810'', ''920810''), (''838837'', ''920837''),
      (''838924'', ''920924''), (''838971'', ''920971''), (''839167'', ''920167''), (''839273'', ''920273''),
      (''839371'', ''920371''), (''839493'', ''920493''), (''839680'', ''920680''), (''839719'', ''920719''),
      (''839725'', ''920725''), (''839729'', ''920729''), (''839790'', ''920790''), (''839792'', ''920792''),
      (''839946'', ''920146''), (''839962'', ''920003''), (''870199'', ''920199''), (''870204'', ''920204''),
      (''870299'', ''920299''), (''870357'', ''920357''), (''870436'', ''920436''), (''870508'', ''920608''),
      (''870656'', ''920656''), (''870726'', ''920926''), (''870800'', ''920016''), (''870866'', ''920866''),
      (''870976'', ''920976''), (''871245'', ''920245''), (''871263'', ''920363''), (''871396'', ''920396''),
      (''871478'', ''920578''), (''871553'', ''920553''), (''871634'', ''920634''), (''871642'', ''920642''),
      (''871694'', ''920694''), (''871753'', ''920753''), (''871857'', ''920857''), (''871970'', ''920970''),
      (''871981'', ''920981''), (''872190'', ''920190''), (''872351'', ''920351''), (''872374'', ''920374''),
      (''872392'', ''920392''), (''872541'', ''920541''), (''872808'', ''920808''), (''872869'', ''920099''),
      (''872895'', ''920895''), (''872925'', ''920925''), (''872931'', ''920931''), (''872953'', ''920953''),
      (''873001'', ''920001''), (''873044'', ''920080''), (''873122'', ''920122''), (''873124'', ''920258''),
      (''873132'', ''920132''), (''873152'', ''920252''), (''873167'', ''920367''), (''873169'', ''920169''),
      (''873223'', ''920223''), (''873234'', ''920088''), (''873294'', ''920012''), (''873305'', ''920505''),
      (''873339'', ''920339''), (''873414'', ''920072''), (''873524'', ''920083''), (''873527'', ''920527''),
      (''873570'', ''920570''), (''873576'', ''920576''), (''873593'', ''920593''), (''873664'', ''920066''),
      (''873665'', ''920665''), (''873669'', ''920100''), (''873679'', ''920679''), (''873682'', ''920106''),
      (''873690'', ''920690''), (''873693'', ''920693''), (''873694'', ''920160''), (''873697'', ''920036''),
      (''873700'', ''920222''), (''873702'', ''920022''), (''873703'', ''920703''), (''873706'', ''920706''),
      (''873715'', ''920056''), (''873718'', ''920060''), (''873726'', ''920026''), (''873727'', ''920019''),
      (''873739'', ''920091''), (''873743'', ''920118''), (''873772'', ''920206''), (''873783'', ''920128''),
      (''873794'', ''920166''), (''873806'', ''920806''), (''873833'', ''920833''), (''873843'', ''920002''),
      (''873867'', ''920158''), (''873879'', ''920029''), (''873884'', ''920112''), (''873908'', ''920082''),
      (''873918'', ''920098''), (''874016'', ''920116''), (''874021'', ''920111''), (''874025'', ''920025''),
      (''874047'', ''920027''), (''874075'', ''920079''), (''874084'', ''920045''), (''874085'', ''920015''),
      (''874094'', ''920037''), (''874096'', ''920035''), (''874105'', ''920050''), (''874134'', ''920076''),
      (''874157'', ''920188''), (''874194'', ''920020''), (''874195'', ''920018''), (''874202'', ''920177''),
      (''874287'', ''920038''), (''874289'', ''920009''), (''874302'', ''920096''), (''874308'', ''920086''),
      (''874318'', ''920189''), (''874325'', ''920007''), (''874326'', ''920220''), (''874327'', ''920191''),
      (''874360'', ''920229''), (''874378'', ''920289''), (''874386'', ''920269''), (''874391'', ''920071''),
      (''874396'', ''920238''), (''874397'', ''920005''), (''874400'', ''920180''), (''874405'', ''920078''),
      (''874433'', ''920202''), (''874450'', ''920101''), (''874457'', ''920136''), (''874468'', ''920011''),
      (''874481'', ''920183''), (''874489'', ''920119''), (''874492'', ''920200''), (''874495'', ''920126''),
      (''874500'', ''920138''), (''874502'', ''920028''), (''874510'', ''920211''), (''874513'', ''920159''),
      (''874519'', ''920156''), (''874520'', ''920117''), (''874538'', ''920125''), (''874546'', ''920055''),
      (''874555'', ''920218''), (''874558'', ''920181''), (''874560'', ''920121''), (''874571'', ''920157''),
      (''874572'', ''920069''), (''874573'', ''920093''), (''874580'', ''920178''), (''874600'', ''920065''),
      (''874617'', ''920059''), (''874627'', ''920107''), (''874628'', ''920081''), (''874637'', ''920201''),
      (''874640'', ''920268''), (''874643'', ''920124''), (''874687'', ''920165''), (''874693'', ''920193''),
      (''874709'', ''920288''), (''874747'', ''920176''), (''874772'', ''920298'')
     ]"

text \<open>\<open>raw\<close> is the value of \<open>TDX_HQ_HOSTS\<close>, empty when it is not set.\<close>

definition host_item :: "string \<Rightarrow> (string \<times> int) option res" where
  "host_item item =
     (case py_partition (CHR '':'') (py_strip item) of
        (host, _, port) \<Rightarrow>
          if host = [] then Inr None
          else if port = [] then Inr (Some (host, 7709))
          else (case py_int port of None \<Rightarrow> Inl ValueError | Some p \<Rightarrow> Inr (Some (host, p))))"

definition configured_hosts :: "string \<Rightarrow> (string \<times> int) list res" where
  "configured_hosts raw0 =
     (let raw = py_strip raw0 in
      if raw = [] then Inr DEFAULT_HOSTS
      else bindR (mapR host_item (py_split (CHR '','') raw)) (\<lambda>items.
        (let hosts = List.map_filter id items in Inr (if hosts = [] then DEFAULT_HOSTS else hosts))))"

section \<open>Framing\<close>

record connection =
  incoming :: "bytes list"
  sent :: "bytes list"

text \<open>\<open>recv(n)\<close> returns at most \<open>n\<close> bytes of the next chunk; an empty chunk is a closed peer.\<close>

fun recv_exact :: "nat \<Rightarrow> bytes list \<Rightarrow> (bytes \<times> bytes list) res" where
  "recv_exact 0 chunks = Inr ([], chunks)"
| "recv_exact (Suc n) [] = Inl ProtocolError"
| "recv_exact (Suc n) (c # cs) =
     (if c = [] then Inl ProtocolError
      else if length c > Suc n then Inr (take (Suc n) c, drop (Suc n) c # cs)
      else bindR (recv_exact (Suc n - length c) cs) (\<lambda>(rest, cs'). Inr (c @ rest, cs')))"

definition exchange :: "(bytes \<Rightarrow> bytes option) \<Rightarrow> connection \<Rightarrow> bytes \<Rightarrow> (bytes \<times> connection) res" where
  "exchange inflate conn request =
     bindR (recv_exact RESPONSE_HEADER_LEN (incoming conn)) (\<lambda>(header, in1).
     bindR (unpack_u 2 (drop 12 header)) (\<lambda>(zipped, h1).
     bindR (unpack_u 2 h1) (\<lambda>(unzipped, _).
     bindR (recv_exact (nat zipped) in1) (\<lambda>(body, in2).
       (let conn' = \<lparr>incoming = in2, sent = sent conn @ [request]\<rparr> in
        if zipped \<noteq> unzipped
        then (case inflate body of None \<Rightarrow> Inl ProtocolError | Some raw \<Rightarrow> Inr (raw, conn'))
        else Inr (body, conn'))))))"

definition SETUP_COMMANDS :: "bytes list" where
  "SETUP_COMMANDS =
     [[0x0c, 0x02, 0x18, 0x93, 0x00, 0x01, 0x03, 0x00, 0x03, 0x00, 0x0d, 0x00, 0x01],
      [0x0c, 0x02, 0x18, 0x94, 0x00, 0x01, 0x03, 0x00, 0x03, 0x00, 0x0d, 0x00, 0x02],
      [0x0c, 0x03, 0x18, 0x99, 0x00, 0x01, 0x20, 0x00, 0x20, 0x00, 0xdb, 0x0f, 0xd5, 0xd0, 0xc9, 0xcc, 0xd6,
       0xa4, 0xa8, 0xaf, 0x00, 0x00, 0x00, 0x8f, 0xc2, 0x25, 0x40, 0x13, 0x00, 0x00, 0xd5, 0x00, 0xc9, 0xcc,
       0xbd, 0xf0, 0xd7, 0xea, 0x00, 0x00, 0x00, 0x02]]"

definition HANDSHAKE_PROFILES :: "string list" where
  "HANDSHAKE_PROFILES = [''login_one'', ''legacy_3'']"

fun exchange_each :: "(bytes \<Rightarrow> bytes option) \<Rightarrow> connection \<Rightarrow> bytes list \<Rightarrow> connection res" where
  "exchange_each inflate conn [] = Inr conn"
| "exchange_each inflate conn (r # rs) =
     bindR (exchange inflate conn r) (\<lambda>(_, conn'). exchange_each inflate conn' rs)"

text \<open>\<open>TdxClient.__enter__\<close> after the socket is connected.\<close>

definition handshake :: "(bytes \<Rightarrow> bytes option) \<Rightarrow> string \<Rightarrow> connection \<Rightarrow> connection res" where
  "handshake inflate profile conn =
     exchange_each inflate conn (if profile = ''login_one'' then take 1 SETUP_COMMANDS else SETUP_COMMANDS)"

section \<open>Operations of a connection\<close>

definition chunks :: "nat \<Rightarrow> 'a list \<Rightarrow> 'a list list" where
  "chunks n xs = map (\<lambda>i. take n (drop (i * n) xs)) [0..<(length xs + n - 1) div n]"

fun quotes_chunks :: "(bytes \<Rightarrow> bytes option) \<Rightarrow> connection \<Rightarrow> (int \<times> string) list list
    \<Rightarrow> (quote_row list \<times> connection) res" where
  "quotes_chunks inflate conn [] = Inr ([], conn)"
| "quotes_chunks inflate conn (stocks # rest) =
     bindR (build_quotes_request stocks) (\<lambda>request.
     bindR (exchange inflate conn request) (\<lambda>(body, conn1).
     bindR (parse_quotes body (Some stocks)) (\<lambda>rows.
     bindR (quotes_chunks inflate conn1 rest) (\<lambda>(more, conn2). Inr (rows @ more, conn2)))))"

definition client_quotes :: "(bytes \<Rightarrow> bytes option) \<Rightarrow> connection \<Rightarrow> (int \<times> string) list
    \<Rightarrow> (quote_row list \<times> connection) res" where
  "client_quotes inflate conn stocks = quotes_chunks inflate conn (chunks MAX_QUOTES_PER_REQUEST stocks)"

definition client_bars :: "(bytes \<Rightarrow> bytes option) \<Rightarrow> connection \<Rightarrow> int \<Rightarrow> int \<Rightarrow> string \<Rightarrow> int \<Rightarrow> int
    \<Rightarrow> (bar_row list \<times> connection) res" where
  "client_bars inflate conn category market code start n_rows =
     bindR (build_bars_request category market code start (min n_rows MAX_BARS_PER_REQUEST)) (\<lambda>request.
     bindR (exchange inflate conn request) (\<lambda>(body, conn').
     bindR (parse_bars category body) (\<lambda>rows. Inr (rows, conn'))))"

text \<open>The pages of \<open>ticks\<close>, newest first; \<open>left\<close> requests may still be sent. \<open>stamp\<close> is the date as a
  number, \<open>None\<close> for today.\<close>

fun tick_pages :: "(bytes \<Rightarrow> bytes option) \<Rightarrow> connection \<Rightarrow> int \<Rightarrow> string \<Rightarrow> int option \<Rightarrow> int \<Rightarrow> nat
    \<Rightarrow> (tick_row list list \<times> connection) res" where
  "tick_pages inflate conn market code stamp page 0 = Inr ([], conn)"
| "tick_pages inflate conn market code stamp page (Suc left) =
     (let start = page * MAX_TICKS_PER_REQUEST in
      bindR (case stamp of
               None \<Rightarrow> build_ticks_request market code start MAX_TICKS_PER_REQUEST
             | Some day \<Rightarrow> build_history_ticks_request market code day start MAX_TICKS_PER_REQUEST) (\<lambda>request.
      bindR (exchange inflate conn request) (\<lambda>(body, conn1).
      bindR (parse_ticks (stamp \<noteq> None) body) (\<lambda>rows.
        if int (length rows) < MAX_TICKS_PER_REQUEST then Inr ([rows], conn1)
        else bindR (tick_pages inflate conn1 market code stamp (page + 1) left) (\<lambda>(pages, conn2).
               Inr (rows # pages, conn2))))))"

definition client_ticks :: "(bytes \<Rightarrow> bytes option) \<Rightarrow> connection \<Rightarrow> int \<Rightarrow> string \<Rightarrow> int option \<Rightarrow> nat
    \<Rightarrow> (tick_row list \<times> connection) res" where
  "client_ticks inflate conn market code stamp max_requests =
     bindR (tick_pages inflate conn market code stamp 0 max_requests) (\<lambda>(pages, conn').
       Inr (concat (rev pages), conn'))"

definition client_xdxr :: "(bytes \<Rightarrow> bytes option) \<Rightarrow> connection \<Rightarrow> int \<Rightarrow> string
    \<Rightarrow> (xdxr_row list \<times> connection) res" where
  "client_xdxr inflate conn market code =
     bindR (build_xdxr_request market code) (\<lambda>request.
     bindR (exchange inflate conn request) (\<lambda>(body, conn').
     bindR (parse_xdxr body) (\<lambda>rows. Inr (rows, conn'))))"

section \<open>Failover\<close>

type_synonym host = "string \<times> int"
type_synonym cooldowns = "host \<Rightarrow> rat"

definition COOLDOWN_SECONDS :: rat where "COOLDOWN_SECONDS = 300"

definition cooling :: "cooldowns \<Rightarrow> rat \<Rightarrow> host \<Rightarrow> bool" where
  "cooling until now h = (until h > now)"

definition ordered_hosts :: "cooldowns \<Rightarrow> rat \<Rightarrow> host list \<Rightarrow> host list" where
  "ordered_hosts until now hosts =
     map snd (sort_key (\<lambda>(i, h). (cooling until now h, i)) (enumerate 0 hosts))"

definition mark_cooldown :: "cooldowns \<Rightarrow> host \<Rightarrow> rat \<Rightarrow> cooldowns" where
  "mark_cooldown until h now = until(h := now + COOLDOWN_SECONDS)"

text \<open>\<open>run host profile now\<close>: the result of the operation, whether the socket connected, the clock after it.\<close>

type_synonym 'a operation = "host \<Rightarrow> string \<Rightarrow> rat \<Rightarrow> 'a res \<times> bool \<times> rat"

definition caught :: "py_error \<Rightarrow> bool" where
  "caught e = (e \<in> {OSError, ProtocolError, StructError, IndexError, ValueError, UnicodeError})"

definition transport_error :: "py_error \<Rightarrow> bool" where
  "transport_error e = (e \<in> {OSError, ProtocolError})"

datatype 'a tried = Answered 'a string | Raised py_error | Failed "(string \<times> py_error) list" bool

definition try_once :: "'a operation \<Rightarrow> host \<Rightarrow> string \<Rightarrow> rat \<Rightarrow> 'a tried \<times> bool \<times> rat" where
  "try_once run h p now =
     (case run h p now of
        (Inr v, con, now') \<Rightarrow> (Answered v p, con, now')
      | (Inl e, con, now') \<Rightarrow>
          (if caught e then Failed [(p, e)] (transport_error e) else Raised e, con, now'))"

definition try_host :: "'a operation \<Rightarrow> host \<Rightarrow> string \<Rightarrow> rat \<Rightarrow> 'a tried \<times> rat" where
  "try_host run h profile now =
     (case try_once run h profile now of
        (Failed es transport, con, now') \<Rightarrow>
          if profile = ''login_one'' \<and> con then
            (case try_once run h ''legacy_3'' now' of
               (Failed es' transport', _, now'') \<Rightarrow> (Failed (es @ es') (transport \<or> transport'), now'')
             | (r, _, now'') \<Rightarrow> (r, now''))
          else (Failed es transport, now')
      | (r, _, now') \<Rightarrow> (r, now'))"

fun call_hosts :: "'a operation \<Rightarrow> string \<Rightarrow> rat \<Rightarrow> (host \<times> string \<times> py_error) list \<Rightarrow> host list \<Rightarrow> rat \<Rightarrow> cooldowns
    \<Rightarrow> ('a \<times> host \<times> string) res \<times> cooldowns" where
  "call_hosts run profile last_start errors [] now until = (Inl ProtocolError, until)"
| "call_hosts run profile last_start errors (h # hs) now until =
     (if errors \<noteq> [] \<and> now > last_start then (Inl ProtocolError, until)
      else (case try_host run h profile now of
          (Answered v p, now') \<Rightarrow> (Inr (v, h, p), until)
        | (Raised e, now') \<Rightarrow> (Inl e, until)
        | (Failed es transport, now') \<Rightarrow>
            call_hosts run profile last_start (errors @ map (\<lambda>(p, e). (h, p, e)) es) hs now'
              (if transport then mark_cooldown until h now' else until)))"

definition call_sync :: "'a operation \<Rightarrow> host list \<Rightarrow> string \<Rightarrow> rat \<Rightarrow> rat \<Rightarrow> cooldowns
    \<Rightarrow> ('a \<times> host \<times> string) res \<times> cooldowns" where
  "call_sync run hosts profile failover_seconds now until =
     (if profile \<notin> set HANDSHAKE_PROFILES \<and> hosts \<noteq> [] then (Inl ValueError, until)
      else call_hosts run profile (now + failover_seconds) [] (ordered_hosts until now hosts) now until)"

section \<open>Symbols\<close>

definition market_code :: "string \<Rightarrow> (int \<times> string) res" where
  "market_code s =
     (case py_partition (CHR ''.'') (py_upper s) of
        (code, _, exchange_name) \<Rightarrow>
          (case map_of MARKETS exchange_name of
             None \<Rightarrow> Inl ValueError
           | Some market \<Rightarrow>
               if length code \<noteq> 6 \<or> \<not> list_all is_digit code then Inl ValueError
               else Inr (market,
                 if exchange_name = ''BJ''
                 then (case map_of OLD_TO_NEW code of Some new_code \<Rightarrow> new_code | None \<Rightarrow> code)
                 else code)))"

definition EXCHANGES :: "(int \<times> string) list" where
  "EXCHANGES = map (\<lambda>(e, m). (m, e)) MARKETS"

definition tdx_symbol :: "int \<Rightarrow> string \<Rightarrow> string res" where
  "tdx_symbol market code = bindR (need KeyError (map_of EXCHANGES market)) (\<lambda>e. Inr (code @ ''.'' @ e))"

definition requested_stocks :: "string list \<Rightarrow> (int \<times> string) list res" where
  "requested_stocks symbols = (if symbols = [] then Inl ValueError else mapR market_code symbols)"

text \<open>A row is its symbol and the rest of its fields; the third component of the result is the
  \<open>source_symbol\<close> of a translated row. The warning text is the list it names.\<close>

definition answer_symbol :: "string \<Rightarrow> (string \<times> string) res" where
  "answer_symbol item =
     bindR (market_code item) (\<lambda>(m, c). bindR (tdx_symbol m c) (\<lambda>a. Inr (item, a)))"

definition batch_evidence :: "(string \<times> 'r) list \<Rightarrow> string list
    \<Rightarrow> ((string \<times> 'r \<times> string option) list \<times> rat \<times> string list) res" where
  "batch_evidence rows symbols =
     bindR (mapR answer_symbol symbols) (\<lambda>requested.
       (let returned = map fst rows;
            missing = map fst (filter (\<lambda>(_, answer). answer \<notin> set returned) requested);
            translated = map_of (rev (map (\<lambda>(item, answer). (answer, item))
                           (filter (\<lambda>(item, answer). py_upper item \<noteq> answer) requested)));
            rows' = map (\<lambda>(s, r). (s, r, translated s)) rows
        in bindR (fdiv (of_int (int (length rows'))) (of_int (int (length symbols)))) (\<lambda>coverage.
             Inr (rows', coverage, missing))))"

section \<open>Lemmas\<close>

lemma recv_exact_spec:
  assumes "list_all (\<lambda>c. c \<noteq> []) cs"
  shows "if length (concat cs) < n then recv_exact n cs = Inl ProtocolError
    else \<exists>cs'. recv_exact n cs = Inr (take n (concat cs), cs') \<and> concat cs' = drop n (concat cs)
           \<and> list_all (\<lambda>c. c \<noteq> []) cs'"
  using assms
proof (induction n cs rule: recv_exact.induct)
  case (3 n c cs)
  show ?case
  proof (cases "length c > Suc n")
    case True
    then show ?thesis using 3 by (auto simp: drop_eq_Nil)
  next
    case False
    with 3 show ?thesis
      by (cases "length (concat cs) < Suc n - length c") (auto simp: less_diff_conv2)
  qed
qed auto

lemma recv_exact_ok:
  assumes "list_all (\<lambda>c. c \<noteq> []) cs" "concat cs = xs @ ys" "length xs = n"
  obtains cs' where "recv_exact n cs = Inr (xs, cs')" "concat cs' = ys" "list_all (\<lambda>c. c \<noteq> []) cs'"
  using recv_exact_spec [OF assms(1), of n] assms(2,3) by (auto split: if_splits)

lemma exchange_reads:
  assumes "list_all (\<lambda>c. c \<noteq> []) (incoming conn)" "length pre = 12" "length body < 65536"
    and "0 \<le> unzipped" "unzipped < 65536"
    and "concat (incoming conn) = pre @ le_bytes 2 (int (length body)) @ le_bytes 2 unzipped @ body @ later"
  obtains rest where "concat rest = later" "list_all (\<lambda>c. c \<noteq> []) rest"
    "exchange inflate conn request =
       (let conn' = \<lparr>incoming = rest, sent = sent conn @ [request]\<rparr> in
        if int (length body) \<noteq> unzipped
        then (case inflate body of None \<Rightarrow> Inl ProtocolError | Some raw \<Rightarrow> Inr (raw, conn'))
        else Inr (body, conn'))"
proof -
  let ?h = "pre @ le_bytes 2 (int (length body)) @ le_bytes 2 unzipped"
  have cat: "concat (incoming conn) = ?h @ body @ later" using assms(6) by simp
  obtain in1 where in1: "recv_exact RESPONSE_HEADER_LEN (incoming conn) = Inr (?h, in1)"
    "concat in1 = body @ later" "list_all (\<lambda>c. c \<noteq> []) in1"
    using recv_exact_ok [OF assms(1) cat, of RESPONSE_HEADER_LEN] assms(2) by (auto simp: RESPONSE_HEADER_LEN_def)
  obtain in2 where in2: "recv_exact (length body) in1 = Inr (body, in2)" "concat in2 = later"
    "list_all (\<lambda>c. c \<noteq> []) in2"
    using recv_exact_ok [OF in1(3,2) refl] by blast
  have z: "unpack_u 2 (drop 12 ?h) = Inr (int (length body), le_bytes 2 unzipped)"
    using assms(2,3) by simp
  have u: "unpack_u 2 (le_bytes 2 unzipped) = Inr (unzipped, [])"
    using assms(4,5) unpack_u_le_bytes [of unzipped 2 "[]"] by simp
  show thesis
    by (rule that [OF in2(2,3)]) (simp only: exchange_def in1(1) bindR_simps prod.case z u nat_int in2(1) Let_def)
qed

lemma ordered_hosts_partition:
  "ordered_hosts until now hosts =
     filter (\<lambda>h. \<not> cooling until now h) hosts @ filter (cooling until now) hosts"
proof -
  let ?key = "\<lambda>(i :: nat, h). (cooling until now h, i)"
  let ?ys = "filter (\<lambda>p. \<not> cooling until now (snd p)) (enumerate 0 hosts)
           @ filter (\<lambda>p. cooling until now (snd p)) (enumerate 0 hosts)"
  have srt: "sorted (map fst (filter P (enumerate 0 hosts)))" for P
    by (rule sorted_filter) simp
  have run: "sorted (map ?key (filter P (enumerate 0 hosts)))" if P: "\<And>p. P p \<Longrightarrow> cooling until now (snd p) = b" for P b
    using srt [of P] unfolding sorted_map
    by (rule sorted_wrt_mono_rel [rotated]) (auto simp: P split_def less_eq_prod_def)
  have "sort_key ?key (enumerate 0 hosts) = ?ys"
  proof (rule sort_key_inj_key_eq)
    show "mset (enumerate 0 hosts) = mset ?ys" 
      using multiset_partition [of "mset (enumerate 0 hosts)" "\<lambda>p. cooling until now (snd p)"]
      by (simp add: add.commute)
    show "inj_on ?key (set (enumerate 0 hosts))"
      by (auto simp: inj_on_def in_set_enumerate_eq)
    show "sorted (map ?key ?ys)"
      unfolding map_append sorted_append
      using run [of "\<lambda>p. \<not> cooling until now (snd p)" False] run [of "\<lambda>p. cooling until now (snd p)" True]
      by (auto simp: split_def less_eq_prod_def)
  qed
  moreover have "map snd (filter (\<lambda>p. Q (snd p)) (enumerate 0 hosts)) = filter Q hosts" for Q
    using filter_map [of Q snd "enumerate 0 hosts"] by (simp add: comp_def)
  ultimately show ?thesis unfolding ordered_hosts_def by simp
qed

section \<open>Properties\<close>

text \<open>
  One exchange reads exactly one response frame, however the network cuts it into chunks:
  the body of the declared length is returned as it is, or decompressed when the two declared
  lengths differ, an undecompressible body is a protocol error, and everything after the frame
  is left for the next exchange.
\<close>

theorem exchange_frame:
  assumes "list_all (\<lambda>c. c \<noteq> []) (incoming conn)" and "length pre = 12" and "length body < 65536"
    and "0 \<le> unzipped" and "unzipped < 65536"
    and "concat (incoming conn) = pre @ le_bytes 2 (int (length body)) @ le_bytes 2 unzipped @ body @ later"
  shows "case exchange inflate conn request of
      Inl e \<Rightarrow> e = ProtocolError \<and> int (length body) \<noteq> unzipped \<and> inflate body = None
    | Inr (payload, conn') \<Rightarrow>
        (if int (length body) = unzipped then payload = body else inflate body = Some payload)
        \<and> concat (incoming conn') = later \<and> sent conn' = sent conn @ [request]"
proof -
  obtain rest where r: "concat rest = later"
    and e: "exchange inflate conn request =
       (let conn' = \<lparr>incoming = rest, sent = sent conn @ [request]\<rparr> in
        if int (length body) \<noteq> unzipped
        then (case inflate body of None \<Rightarrow> Inl ProtocolError | Some raw \<Rightarrow> Inr (raw, conn'))
        else Inr (body, conn'))"
    by (rule exchange_reads [OF assms])
  show ?thesis unfolding e Let_def using r by (cases "inflate body") simp_all
qed

theorem exchange_frame_witness:
  "case exchange Some \<lparr>incoming = [replicate 12 0 @ [2], [0, 2, 0, 7], [8, 9]], sent = []\<rparr> [1] of
      Inl e \<Rightarrow> False
    | Inr (payload, conn') \<Rightarrow> payload = [7, 8] \<and> concat (incoming conn') = [9]"
proof -
  let ?c = "\<lparr>incoming = [replicate 12 0 @ [2], [0, 2, 0, 7], [8, 9]], sent = []\<rparr>"
  have "concat (incoming ?c) = replicate 12 0 @ le_bytes 2 (int (length [7, 8 :: int])) @ le_bytes 2 2 @ [7, 8] @ [9]"
    by (simp add: numeral_eq_Suc)
  from exchange_frame [OF _ _ _ _ _ this, of Some "[1]"] show ?thesis
    by (auto split: sum.splits)
qed

text \<open>
  The hosts of a call are the given ones, each exactly as often as given: those that are not
  cooling down first, then the others, both in the given order; a host marked by a transport
  failure is behind every fresh host until its five minutes are over.
\<close>

theorem ordered_hosts_stable:
  "ordered_hosts until now hosts =
     filter (\<lambda>h. until h \<le> now) hosts @ filter (\<lambda>h. now < until h) hosts
   \<and> mset (ordered_hosts until now hosts) = mset hosts
   \<and> (cooling (mark_cooldown until h t) now h \<longleftrightarrow> now < t + 300)"
proof -
  have "mset (filter (\<lambda>h. until h \<le> now) hosts @ filter (\<lambda>h. now < until h) hosts) = mset hosts"
    using multiset_partition [of "mset hosts" "\<lambda>h. now < until h"] by (simp add: not_less add.commute)
  moreover have "ordered_hosts until now hosts = filter (\<lambda>h. until h \<le> now) hosts @ filter (\<lambda>h. now < until h) hosts"
    unfolding ordered_hosts_partition cooling_def [abs_def] by (simp add: not_less)
  ultimately show ?thesis by (simp add: cooling_def mark_cooldown_def COOLDOWN_SECONDS_def)
qed

lemma try_host_cases:
  "try_host run h profile now = (Answered v p, now') \<Longrightarrow> \<exists>t c t'. run h p t = (Inr v, c, t')"
  "try_host run h profile now = (Failed es transport, now') \<Longrightarrow>
     es \<noteq> [] \<and> (transport \<longrightarrow> (\<exists>p t e c t'. run h p t = (Inl e, c, t') \<and> transport_error e))"
  by (auto simp: try_host_def try_once_def split: prod.splits sum.splits tried.splits if_splits; metis)+

lemma call_hosts_sound:
  assumes "call_hosts run profile limit errors hosts now until = (r, until')"
  shows "(\<forall>v h p. r = Inr (v, h, p) \<longrightarrow> h \<in> set hosts \<and> (\<exists>t c t'. run h p t = (Inr v, c, t')))
    \<and> (\<forall>h. until' h \<noteq> until h \<longrightarrow> h \<in> set hosts
         \<and> (\<exists>p t e c t'. run h p t = (Inl e, c, t') \<and> transport_error e))"
  using assms
proof (induction hosts arbitrary: errors now until)
  case (Cons h hs)
  show ?case
  proof (cases "errors \<noteq> [] \<and> now > limit")
    case True
    with Cons.prems show ?thesis by auto
  next
    case False
    obtain tr now' where th: "try_host run h profile now = (tr, now')" by fastforce
    show ?thesis
    proof (cases tr)
      case (Answered v p)
      with Cons.prems False th try_host_cases(1) [of run h profile now v p now'] show ?thesis by auto
    next
      case (Raised e)
      with Cons.prems False th show ?thesis by auto
    next
      case (Failed es transport)
      with Cons.prems False th have rec: "call_hosts run profile limit (errors @ map (\<lambda>(p, e). (h, p, e)) es) hs now'
          (if transport then mark_cooldown until h now' else until) = (r, until')" by auto
      note ih = Cons.IH [OF rec]
      have "\<exists>p t e c t'. run h p t = (Inl e, c, t') \<and> transport_error e" if transport
        using try_host_cases(2) [of run h profile now es transport now'] th Failed that by auto
      moreover have "(if transport then mark_cooldown until h now' else until) x = until x" if "x \<noteq> h \<or> \<not> transport" for x
        using that by (auto simp: mark_cooldown_def)
      ultimately show ?thesis using ih by (metis list.set_intros)
    qed
  qed
qed auto

lemma call_hosts_live:
  assumes good: "good \<in> set hosts" "\<And>t. \<exists>v c t'. run good profile t = (Inr v, c, t')"
    and quiet: "\<And>h p t e c t'. run h p t = (Inl e, c, t') \<Longrightarrow> caught e"
    and quick: "\<And>h p t r c t'. run h p t = (r, c, t') \<Longrightarrow> t' \<le> limit"
    and now: "now \<le> limit"
  shows "\<exists>x. fst (call_hosts run profile limit errors hosts now until) = Inr x"
  using good(1) now
proof (induction hosts arbitrary: errors now until)
  case (Cons h hs)
  obtain tr now' where th: "try_host run h profile now = (tr, now')" by fastforce
  have now': "now' \<le> limit"
    using th quick by (auto simp: try_host_def try_once_def split: prod.splits sum.splits tried.splits if_splits)
  have nr: "tr \<noteq> Raised e" for e
    using th quiet by (auto simp: try_host_def try_once_def split: prod.splits sum.splits tried.splits if_splits)
  show ?case
  proof (cases tr)
    case (Failed es transport)
    have "h \<noteq> good"
      using th Failed good(2) [of now] by (auto simp: try_host_def try_once_def)
    with Cons now' have "\<exists>x. fst (call_hosts run profile limit errs hs now' u) = Inr x" for errs u by auto
    with Cons.prems(2) Failed th show ?thesis by simp
  qed (use Cons.prems(2) th nr in auto)
qed simp


definition demo_run :: "host \<Rightarrow> string \<Rightarrow> rat \<Rightarrow> int res \<times> bool \<times> rat" where
  "demo_run h p t = (if snd h = 2 then Inr 42 else Inl OSError, False, 0)"


text \<open>
  What a call returns was answered by one of the given hosts under the profile it names, and
  a call puts a host into cooldown only if it is one of the given hosts and an attempt on it
  failed in the transport (an answer that does not parse costs no cooldown).
\<close>

theorem call_sync_sound:
  assumes "call_sync run hosts profile failover_seconds now until = (r, until')"
  shows "(\<forall>v h p. r = Inr (v, h, p) \<longrightarrow> h \<in> set hosts \<and> (\<exists>t c t'. run h p t = (Inr v, c, t')))
    \<and> (\<forall>h. until' h \<noteq> until h \<longrightarrow> h \<in> set hosts
         \<and> (\<exists>p t e c t'. run h p t = (Inl e, c, t') \<and> transport_error e))"
proof (cases "profile \<notin> set HANDSHAKE_PROFILES \<and> hosts \<noteq> []")
  case True
  with assms show ?thesis by (auto simp: call_sync_def)
next
  case False
  have st: "set (ordered_hosts until now hosts) = set hosts"
    by (auto simp: ordered_hosts_partition)
  have "call_hosts run profile (now + failover_seconds) [] (ordered_hosts until now hosts) now until = (r, until')"
    using assms False by (auto simp: call_sync_def split: if_splits)
  from call_hosts_sound [OF this] show ?thesis unfolding st .
qed

theorem call_sync_sound_witness:
  "\<exists>r until'. call_sync demo_run [(''a'', 1)] ''login_one'' 15 0 (\<lambda>_. 0) = (r, until')
     \<and> (\<forall>h. until' h \<noteq> 0 \<longrightarrow> h \<in> set [(''a'', 1)])"
proof -
  obtain r until' where e: "call_sync demo_run [(''a'', 1)] ''login_one'' 15 0 (\<lambda>_. 0) = (r, until')" by fastforce
  from call_sync_sound [OF e] e show ?thesis by blast
qed

text \<open>The table of renamed codes: six digits each, every new code in the 920 block, no old one.\<close>

definition new_code_ok :: "string \<times> string \<Rightarrow> bool" where
  "new_code_ok p = (length (snd p) = 6 \<and> list_all is_digit (snd p) \<and> take 3 (snd p) = ''920'' \<and> take 3 (fst p) \<noteq> ''920'')"

lemma OLD_TO_NEW_ok: "list_all new_code_ok OLD_TO_NEW"
  by code_simp

lemma OLD_TO_NEW_lookup:
  "map_of OLD_TO_NEW code = Some new_code \<Longrightarrow>
     length new_code = 6 \<and> list_all is_digit new_code \<and> take 3 new_code = ''920'' \<and> take 3 code \<noteq> ''920''"
  using OLD_TO_NEW_ok by (auto dest!: map_of_SomeD simp: list_all_iff new_code_ok_def)

lemma markets_lookup: "map_of MARKETS e = Some m \<longleftrightarrow> (e, m) \<in> {(''SZ'', 0), (''SH'', 1), (''BJ'', 2)}"
  by (auto simp: MARKETS_def)

lemma market_code_join:
  assumes "length code = 6" "list_all is_digit code" "map_of MARKETS e = Some m"
  shows "market_code (code @ ''.'' @ e) =
    Inr (m, if e = ''BJ'' then (case map_of OLD_TO_NEW code of Some c \<Rightarrow> c | None \<Rightarrow> code) else code)"
proof -
  have up: "py_upper code = code" "py_upper e = e"
    using assms(2,3) by (auto simp: list_all_iff py_upper_digits markets_lookup upper_char_def)
  have "CHR ''.'' \<notin> set code" using assms(2) by (auto simp: list_all_iff is_digit_def)
  then have "py_partition (CHR ''.'') (code @ ''.'' @ e) = (code, True, e)"
    using py_partition_append [of "CHR ''.''" code e] by simp
  then show ?thesis using assms up by (simp add: market_code_def upper_char_def)
qed

text \<open>
  \<open>symbol\<close> and \<open>market_code\<close> are inverse on what the client requests: whatever spelling was
  accepted, the (market, code) pair has a six-digit code, its symbol exists, and reading that
  symbol gives the same pair again, so a renamed Beijing code is translated once and stays.
\<close>

theorem market_code_symbol_round_trip:
  assumes "market_code s = Inr (m, code)"
  shows "length code = 6 \<and> list_all is_digit code
    \<and> (\<exists>text. tdx_symbol m code = Inr text \<and> market_code text = Inr (m, code))"
proof -
  obtain c0 b e where p: "py_partition (CHR ''.'') (py_upper s) = (c0, b, e)" by (cases "py_partition (CHR ''.'') (py_upper s)")
  with assms obtain m' where m: "map_of MARKETS e = Some m'" and c0: "length c0 = 6" "list_all is_digit c0"
    and res: "m' = m" "code = (if e = ''BJ'' then (case map_of OLD_TO_NEW c0 of Some c \<Rightarrow> c | None \<Rightarrow> c0) else c0)"
    by (auto simp: market_code_def split: option.splits if_splits)
  have code: "length code = 6" "list_all is_digit code"
    using c0 res OLD_TO_NEW_lookup [of c0] by (auto split: option.splits)
  have stays: "(if e = ''BJ'' then (case map_of OLD_TO_NEW code of Some c \<Rightarrow> c | None \<Rightarrow> code) else code) = code"
    using res OLD_TO_NEW_lookup [of c0] OLD_TO_NEW_lookup [of code] by (auto split: option.splits)
  have "tdx_symbol m code = Inr (code @ ''.'' @ e)"
    using m res(1) by (auto simp: tdx_symbol_def need_def EXCHANGES_def MARKETS_def split: if_splits)
  moreover have "market_code (code @ ''.'' @ e) = Inr (m, code)"
    using market_code_join [OF code m] stays res(1) by simp
  ultimately show ?thesis using code by blast
qed

theorem market_code_symbol_round_trip_witness:
  "\<exists>text. tdx_symbol 2 ''920017'' = Inr text \<and> market_code text = Inr (2, ''920017'')"
proof -
  have "market_code ''430017.bj'' = Inr (2, ''920017'')" by code_simp
  from market_code_symbol_round_trip [OF this] show ?thesis by blast
qed

end
