(* ===== verification/ProtoWire.thy ===== *)
theory ProtoWire
  imports PyBytes
begin

text \<open>
  \<open>feishu-relay/bridge/proto_wire.py\<close>: the schema-tolerant reader of protobuf envelopes. A reader
  carries the offset and the rest of the bytes; it changes the telemetry as it goes, and what it
  recorded stays recorded when it raises, so a result is an error or a value together with the
  telemetry. Groups nest, so the field reader has fuel: one unit per field or group, and the
  number of bytes plus one is always enough (\<open>read_until_fuel\<close>). The decoding of a message's
  content by the generated protobuf classes (\<open>larkx\<close>, not part of the repository) and the search
  for card JSON in it are an argument of the entity decoder.
\<close>

section \<open>Errors and telemetry\<close>

datatype proto_problem =
    TruncatedVarint | DepthExceeded | BadFieldNumber | UnexpectedEndGroup | TruncatedFixed64
  | TruncatedBytes | TruncatedFixed32 | UnsupportedWire | UnterminatedGroup | TrailingBytes
  | NoPacket | MissingMessage | OutOfFuel

record proto_error =
  e_problem :: proto_problem
  e_layer :: string
  e_field :: "int option"
  e_wire :: "int option"
  e_offset :: "int option"

definition tolerant_error :: "proto_problem \<Rightarrow> string \<Rightarrow> int option \<Rightarrow> int option \<Rightarrow> int option \<Rightarrow> proto_error" where
  "tolerant_error problem layer f w off =
     \<lparr>e_problem = problem, e_layer = layer, e_field = f, e_wire = w, e_offset = off\<rparr>"

text \<open>A key \<open>f"{layer}:{field}:{wire}"\<close> is the triple of its parts.\<close>

type_synonym field_key = "string \<times> int \<times> int"

record telemetry =
  unknown_fields :: "field_key \<Rightarrow> int"
  wire_mismatches :: "field_key \<Rightarrow> int"
  groups_skipped :: int
  entry_errors :: "proto_error list"
  field_signatures :: "field_key list"

definition new_telemetry :: telemetry where
  "new_telemetry =
     \<lparr>unknown_fields = (\<lambda>_. 0), wire_mismatches = (\<lambda>_. 0), groups_skipped = 0, entry_errors = [],
      field_signatures = []\<rparr>"

definition EXPECTED_FIELDS :: "(string \<times> int list) list" where
  "EXPECTED_FIELDS =
     [(''frame'', [8]), (''packet'', [1, 3, 5]), (''push'', [1]), (''entry'', [1, 2]),
      (''entity'', [1, 2, 3, 4, 5, 8, 9, 10, 12, 13, 14, 20, 24, 46])]"

definition EXPECTED_WIRES :: "(string \<times> (int \<times> int) list) list" where
  "EXPECTED_WIRES =
     [(''frame'', [(8, 2)]), (''packet'', [(1, 2), (3, 0), (5, 2)]), (''push'', [(1, 2)]),
      (''entry'', [(1, 2), (2, 2)]),
      (''entity'', [(1, 2), (2, 0), (3, 2), (4, 0), (5, 2), (8, 2), (9, 2), (10, 2), (12, 2), (13, 0),
        (14, 0), (20, 2), (24, 2), (46, 0)])]"

definition lookup_list :: "(string \<times> 'a list) list \<Rightarrow> string \<Rightarrow> 'a list" where
  "lookup_list table layer = (case map_of table layer of None \<Rightarrow> [] | Some xs \<Rightarrow> xs)"

definition record_field :: "telemetry \<Rightarrow> string \<Rightarrow> int \<Rightarrow> int \<Rightarrow> telemetry" where
  "record_field tel layer field wire =
     (let key = (layer, field, wire);
          tel1 = tel\<lparr>field_signatures := field_signatures tel @ [key]\<rparr>
      in if field \<notin> set (lookup_list EXPECTED_FIELDS layer)
         then tel1\<lparr>unknown_fields := (unknown_fields tel1)(key := unknown_fields tel1 key + 1)\<rparr>
         else if (field, wire) \<notin> set (lookup_list EXPECTED_WIRES layer)
         then tel1\<lparr>wire_mismatches := (wire_mismatches tel1)(key := wire_mismatches tel1 key + 1)\<rparr>
         else tel1)"

section \<open>Reading fields\<close>

text \<open>The loop of the varint reader: \<open>left\<close> bytes may still be read (\<open>shift <= 63\<close> allows ten), \<open>w\<close>
  is \<open>1 << shift\<close>.\<close>

fun varint_more :: "nat \<Rightarrow> int \<Rightarrow> int \<Rightarrow> bytes \<Rightarrow> (int \<times> nat \<times> bytes) option" where
  "varint_more 0 acc w bs = None"
| "varint_more (Suc left) acc w [] = None"
| "varint_more (Suc left) acc w (b # bs) =
     (let acc' = acc + b mod 128 * w
      in if b < 128 then Some (acc', 1, bs)
         else map_option (\<lambda>(v, n, rest). (v, Suc n, rest)) (varint_more left acc' (w * 128) bs))"

definition read_varint :: "string \<Rightarrow> int \<Rightarrow> bytes \<Rightarrow> proto_error + (int \<times> int \<times> bytes)" where
  "read_varint layer offset bs =
     (case varint_more 10 0 1 bs of
        None \<Rightarrow> Inl (tolerant_error TruncatedVarint layer None None (Some offset))
      | Some (v, n, rest) \<Rightarrow> Inr (v, offset + int n, rest))"

datatype proto_value = VInt int | VBytes bytes

type_synonym proto_field = "int \<times> int \<times> proto_value"

definition take_value :: "proto_error \<Rightarrow> int \<Rightarrow> int \<Rightarrow> bytes \<Rightarrow> proto_error + (proto_value \<times> int \<times> bytes)" where
  "take_value err n offset bs =
     (if n > int (length bs) then Inl err
      else Inr (VBytes (take (nat n) bs), offset + n, drop (nat n) bs))"

definition read_value :: "string \<Rightarrow> int \<Rightarrow> int \<Rightarrow> int \<Rightarrow> int \<Rightarrow> bytes \<Rightarrow> proto_error + (proto_value \<times> int \<times> bytes)" where
  "read_value layer field wire field_offset offset bs =
     (let err = (\<lambda>problem. tolerant_error problem layer (Some field) (Some wire) (Some field_offset)) in
      if wire = 0 then bindR (read_varint layer offset bs) (\<lambda>(v, off, rest). Inr (VInt v, off, rest))
      else if wire = 1 then take_value (err TruncatedFixed64) 8 offset bs
      else if wire = 2 then
        bindR (read_varint layer offset bs) (\<lambda>(n, off, rest). take_value (err TruncatedBytes) n off rest)
      else if wire = 5 then take_value (err TruncatedFixed32) 4 offset bs
      else Inl (err UnsupportedWire))"

definition MAX_DEPTH :: nat where "MAX_DEPTH = 16"

primrec read_until :: "nat \<Rightarrow> string \<Rightarrow> nat \<Rightarrow> int option \<Rightarrow> int \<Rightarrow> bytes \<Rightarrow> telemetry
    \<Rightarrow> (proto_error + (proto_field list \<times> int \<times> bytes)) \<times> telemetry" where
  "read_until 0 layer depth end_group offset bs tel =
     (Inl (tolerant_error OutOfFuel layer None None (Some offset)), tel)"
| "read_until (Suc fuel) layer depth end_group offset bs tel =
     (if depth > MAX_DEPTH then (Inl (tolerant_error DepthExceeded layer None None (Some offset)), tel)
      else if bs = [] then
        (case end_group of
           None \<Rightarrow> (Inr ([], offset, []), tel)
         | Some g \<Rightarrow> (Inl (tolerant_error UnterminatedGroup layer (Some g) (Some 3) (Some offset)), tel))
      else (case read_varint layer offset bs of
          Inl e \<Rightarrow> (Inl e, tel)
        | Inr (tag, off1, r1) \<Rightarrow>
            (let field = tag div 8; wire = tag mod 8; field_offset = off1 - 1 in
             if field \<le> 0 then (Inl (tolerant_error BadFieldNumber layer None None (Some field_offset)), tel)
             else if wire = 4 then
               (if end_group = Some field then (Inr ([], off1, r1), tel)
                else (Inl (tolerant_error UnexpectedEndGroup layer (Some field) (Some wire) (Some field_offset)), tel))
             else
               (let tel1 = record_field tel layer field wire in
                if wire = 3 then
                  (case read_until fuel layer (Suc depth) (Some field) off1 r1
                          (tel1\<lparr>groups_skipped := groups_skipped tel1 + 1\<rparr>) of
                     (Inl e, tel2) \<Rightarrow> (Inl e, tel2)
                   | (Inr (_, off2, r2), tel2) \<Rightarrow> read_until fuel layer depth end_group off2 r2 tel2)
                else (case read_value layer field wire field_offset off1 r1 of
                    Inl e \<Rightarrow> (Inl e, tel1)
                  | Inr (v, off2, r2) \<Rightarrow>
                      (case read_until fuel layer depth end_group off2 r2 tel1 of
                         (Inl e, tel2) \<Rightarrow> (Inl e, tel2)
                       | (Inr (fs, off3, r3), tel2) \<Rightarrow> (Inr ((field, wire, v) # fs, off3, r3), tel2)))))))"

definition read_proto_fields :: "bytes \<Rightarrow> string \<Rightarrow> telemetry \<Rightarrow> (proto_error + proto_field list) \<times> telemetry" where
  "read_proto_fields raw layer tel =
     (case read_until (Suc (length raw)) layer 0 None 0 raw tel of
        (Inl e, tel') \<Rightarrow> (Inl e, tel')
      | (Inr (fs, offset, _), tel') \<Rightarrow>
          if offset \<noteq> int (length raw)
          then (Inl (tolerant_error TrailingBytes layer None None (Some offset)), tel')
          else (Inr fs, tel'))"

definition first_proto_field :: "proto_field list \<Rightarrow> int \<Rightarrow> int \<Rightarrow> proto_value option" where
  "first_proto_field pfs number wire =
     map_option (\<lambda>(_, _, v). v) (py_next (\<lambda>(f, w, _). f = number \<and> w = wire) pfs)"

section \<open>Text\<close>

text \<open>A Python \<open>str\<close> here is its list of code points. \<open>bytes.decode("utf-8", errors="replace")\<close>:
  a malformed sequence gives one U+FFFD for its longest well-formed beginning.\<close>

type_synonym text_points = "int list"

definition REPLACEMENT :: int where "REPLACEMENT = 0xFFFD"

definition continuation :: "int \<Rightarrow> bool" where
  "continuation b = (0x80 \<le> b \<and> b \<le> 0xBF)"

definition second_ok :: "int \<Rightarrow> int \<Rightarrow> bool" where
  "second_ok lead b =
     (if lead = 0xE0 then 0xA0 \<le> b \<and> b \<le> 0xBF
      else if lead = 0xED then 0x80 \<le> b \<and> b \<le> 0x9F
      else if lead = 0xF0 then 0x90 \<le> b \<and> b \<le> 0xBF
      else if lead = 0xF4 then 0x80 \<le> b \<and> b \<le> 0x8F
      else continuation b)"

text \<open>The code point at the head of non-empty bytes, and how many bytes it takes.\<close>

definition utf8_head :: "int \<Rightarrow> bytes \<Rightarrow> int \<times> nat" where
  "utf8_head b bs =
     (if b < 0x80 then (b, 1)
      else if 0xC2 \<le> b \<and> b \<le> 0xDF then
        (case bs of
           c1 # _ \<Rightarrow> if continuation c1 then ((b - 0xC0) * 64 + (c1 - 0x80), 2) else (REPLACEMENT, 1)
         | [] \<Rightarrow> (REPLACEMENT, 1))
      else if 0xE0 \<le> b \<and> b \<le> 0xEF then
        (case bs of
           c1 # rest \<Rightarrow>
             if \<not> second_ok b c1 then (REPLACEMENT, 1)
             else (case rest of
                 c2 # _ \<Rightarrow> if continuation c2
                           then ((b - 0xE0) * 4096 + (c1 - 0x80) * 64 + (c2 - 0x80), 3) else (REPLACEMENT, 2)
               | [] \<Rightarrow> (REPLACEMENT, 2))
         | [] \<Rightarrow> (REPLACEMENT, 1))
      else if 0xF0 \<le> b \<and> b \<le> 0xF4 then
        (case bs of
           c1 # rest \<Rightarrow>
             if \<not> second_ok b c1 then (REPLACEMENT, 1)
             else (case rest of
                 c2 # rest' \<Rightarrow>
                   if \<not> continuation c2 then (REPLACEMENT, 2)
                   else (case rest' of
                       c3 # _ \<Rightarrow> if continuation c3
                         then ((b - 0xF0) * 262144 + (c1 - 0x80) * 4096 + (c2 - 0x80) * 64 + (c3 - 0x80), 4)
                         else (REPLACEMENT, 3)
                     | [] \<Rightarrow> (REPLACEMENT, 3))
               | [] \<Rightarrow> (REPLACEMENT, 2))
         | [] \<Rightarrow> (REPLACEMENT, 1))
      else (REPLACEMENT, 1))"

function (sequential) utf8_replace :: "bytes \<Rightarrow> text_points" where
  "utf8_replace [] = []"
| "utf8_replace (b # bs) = (case utf8_head b bs of (c, n) \<Rightarrow> c # utf8_replace (drop (n - 1) bs))"
  by pat_completeness auto
termination
  by (relation "measure length") auto

definition points :: "string \<Rightarrow> text_points" where
  "points s = map of_char s"

text \<open>\<open>_proto_text(value)\<close>: a number is written in decimal.\<close>

definition proto_text :: "proto_value \<Rightarrow> text_points" where
  "proto_text v =
     (case v of VBytes bs \<Rightarrow> utf8_replace bs
      | VInt n \<Rightarrow> points (if n < 0 then ''-'' @ dec_digits (- n) else dec_digits n))"

definition unicode_space :: "int \<Rightarrow> bool" where
  "unicode_space c =
     (9 \<le> c \<and> c \<le> 13 \<or> 28 \<le> c \<and> c \<le> 32 \<or> c \<in> {0x85, 0xA0, 0x1680, 0x2028, 0x2029, 0x202F, 0x205F, 0x3000}
      \<or> 0x2000 \<le> c \<and> c \<le> 0x200A)"

definition strip_points :: "text_points \<Rightarrow> text_points" where
  "strip_points s = rev (dropWhile unicode_space (rev (dropWhile unicode_space s)))"

section \<open>Messages\<close>

record 'c proto_message =
  m_msg_id :: text_points
  m_msg_type :: int
  m_from_id :: text_points
  m_chat_id :: text_points
  m_chat_type :: int
  m_scope :: string
  m_anchor :: text_points
  m_root_id :: text_points
  m_parent_id :: text_points
  m_cid :: text_points
  m_position :: "int option"
  m_create_time :: "int option"
  m_update_time :: "int option"
  m_content :: 'c

text \<open>The dictionary the loop fills: a later field of the same number overwrites an earlier one.\<close>

definition last_proto_field :: "proto_field list \<Rightarrow> int \<Rightarrow> int \<Rightarrow> proto_value option" where
  "last_proto_field pfs number wire = first_proto_field (rev pfs) number wire"

definition entity_text :: "proto_field list \<Rightarrow> int \<Rightarrow> text_points" where
  "entity_text pfs number =
     (case last_proto_field pfs number 2 of Some v \<Rightarrow> proto_text v | None \<Rightarrow> [])"

definition entity_int :: "proto_field list \<Rightarrow> int \<Rightarrow> int option" where
  "entity_int pfs number =
     (case last_proto_field pfs number 0 of Some (VInt n) \<Rightarrow> Some n | _ \<Rightarrow> None)"

definition entity_content :: "proto_field list \<Rightarrow> bytes" where
  "entity_content pfs = (case last_proto_field pfs 5 2 of Some (VBytes b) \<Rightarrow> b | _ \<Rightarrow> [])"

definition or_default :: "'a option \<Rightarrow> 'a \<Rightarrow> 'a" where
  "or_default x d = (case x of Some v \<Rightarrow> v | None \<Rightarrow> d)"

definition message_scope :: "int \<Rightarrow> text_points \<Rightarrow> text_points \<Rightarrow> text_points \<Rightarrow> string \<times> text_points" where
  "message_scope chat_type root_id thread_id chat_id =
     (if chat_type = 1 then (''chat'', [])
      else if root_id \<noteq> [] \<and> root_id \<noteq> points ''0''
      then (''topic'', if thread_id \<noteq> [] then thread_id else root_id)
      else if chat_type = 3 then (''chat'', chat_id)
      else (''chat'', []))"

definition tolerant_entity_message :: "(int \<Rightarrow> bytes \<Rightarrow> 'c) \<Rightarrow> bytes \<Rightarrow> telemetry
    \<Rightarrow> (proto_error + 'c proto_message) \<times> telemetry" where
  "tolerant_entity_message decode_content raw tel =
     (case read_proto_fields raw ''entity'' tel of
        (Inl e, tel') \<Rightarrow> (Inl e, tel')
      | (Inr pfs, tel') \<Rightarrow>
          (let msg_type = or_default (entity_int pfs 2) 0;
               chat_type = or_default (entity_int pfs 46) 0;
               root_id = entity_text pfs 8;
               chat_id = entity_text pfs 10
           in case message_scope chat_type root_id (entity_text pfs 20) chat_id of
                (scope, anchor) \<Rightarrow>
                  (Inr \<lparr>m_msg_id = entity_text pfs 1, m_msg_type = msg_type,
                        m_from_id = entity_text pfs 3,
                        m_chat_id = (if chat_id \<noteq> [] then chat_id else entity_text pfs 24),
                        m_chat_type = chat_type, m_scope = scope, m_anchor = anchor, m_root_id = root_id,
                        m_parent_id = entity_text pfs 9, m_cid = entity_text pfs 12,
                        m_position = entity_int pfs 13, m_create_time = entity_int pfs 4,
                        m_update_time = entity_int pfs 14,
                        m_content = decode_content msg_type (entity_content pfs)\<rparr>, tel')))"

definition log_error :: "telemetry \<Rightarrow> proto_error \<Rightarrow> telemetry" where
  "log_error tel e = tel\<lparr>entry_errors := entry_errors tel @ [e]\<rparr>"

definition MAX_ENTRY_ERRORS :: nat where "MAX_ENTRY_ERRORS = 32"

text \<open>One entry of the push: its message, or none, and the telemetry.\<close>

definition push_entry :: "(int \<Rightarrow> bytes \<Rightarrow> 'c) \<Rightarrow> bytes \<Rightarrow> telemetry \<Rightarrow> 'c proto_message option \<times> telemetry" where
  "push_entry decode_content entry_raw tel =
     (let caught = (\<lambda>e t. if length (entry_errors t) < MAX_ENTRY_ERRORS then log_error t e else t) in
      case read_proto_fields entry_raw ''entry'' tel of
        (Inl e, tel1) \<Rightarrow> (None, caught e tel1)
      | (Inr entry, tel1) \<Rightarrow>
          (case first_proto_field entry 2 2 of
             Some (VBytes message_raw) \<Rightarrow>
               (case tolerant_entity_message decode_content message_raw tel1 of
                  (Inl e, tel2) \<Rightarrow> (None, caught e tel2)
                | (Inr m, tel2) \<Rightarrow> (if m_msg_id m \<noteq> [] then Some m else None, tel2))
           | _ \<Rightarrow> (None, log_error tel1 (tolerant_error MissingMessage ''entry'' None None None))))"

fun push_entries :: "(int \<Rightarrow> bytes \<Rightarrow> 'c) \<Rightarrow> proto_field list \<Rightarrow> telemetry
    \<Rightarrow> 'c proto_message list \<times> telemetry" where
  "push_entries decode_content [] tel = ([], tel)"
| "push_entries decode_content ((field, wire, v) # fs) tel =
     (case v of
        VBytes entry_raw \<Rightarrow>
          if field \<noteq> 1 \<or> wire \<noteq> 2 then push_entries decode_content fs tel
          else (case push_entry decode_content entry_raw tel of
              (m, tel1) \<Rightarrow>
                (case push_entries decode_content fs tel1 of
                   (ms, tel2) \<Rightarrow> ((case m of None \<Rightarrow> ms | Some x \<Rightarrow> x # ms), tel2)))
      | VInt _ \<Rightarrow> push_entries decode_content fs tel)"

definition tolerant_push_messages :: "(int \<Rightarrow> bytes \<Rightarrow> 'c) \<Rightarrow> bytes \<Rightarrow> telemetry
    \<Rightarrow> (proto_error + 'c proto_message list) \<times> telemetry" where
  "tolerant_push_messages decode_content raw tel =
     (case read_proto_fields raw ''push'' tel of
        (Inl e, tel') \<Rightarrow> (Inl e, tel')
      | (Inr pfs, tel') \<Rightarrow>
          (case push_entries decode_content pfs tel' of (ms, tel2) \<Rightarrow> (Inr ms, tel2)))"

section \<open>Frames\<close>

record packet_head =
  p_sid :: text_points
  p_cmd :: int

definition int_or_zero :: "proto_value option \<Rightarrow> int" where
  "int_or_zero v = (case v of Some (VInt n) \<Rightarrow> n | _ \<Rightarrow> 0)"

definition text_or_empty :: "proto_value option \<Rightarrow> text_points" where
  "text_or_empty v = (case v of Some x \<Rightarrow> proto_text x | None \<Rightarrow> [])"

text \<open>The result's last component is the \<open>partial\<close> flag of the finished telemetry.\<close>

definition tolerant_websocket_decode :: "(int \<Rightarrow> bytes \<Rightarrow> 'c) \<Rightarrow> bytes
    \<Rightarrow> proto_error + (packet_head \<times> 'c proto_message list \<times> telemetry \<times> bool)" where
  "tolerant_websocket_decode decode_content raw =
     (case read_proto_fields raw ''frame'' new_telemetry of
        (Inl e, _) \<Rightarrow> Inl e
      | (Inr frame, tel1) \<Rightarrow>
          (case first_proto_field frame 8 2 of
             Some (VBytes packet_raw) \<Rightarrow>
               (case read_proto_fields packet_raw ''packet'' tel1 of
                  (Inl e, _) \<Rightarrow> Inl e
                | (Inr packet_fields, tel2) \<Rightarrow>
                    (let packet = \<lparr>p_sid = text_or_empty (first_proto_field packet_fields 1 2),
                                   p_cmd = int_or_zero (first_proto_field packet_fields 3 0)\<rparr>;
                         pushed = (case first_proto_field packet_fields 5 2 of
                           Some (VBytes push_raw) \<Rightarrow> tolerant_push_messages decode_content push_raw tel2
                         | _ \<Rightarrow> (Inr [], tel2))
                     in case pushed of
                          (Inl e, _) \<Rightarrow> Inl e
                        | (Inr ms, tel3) \<Rightarrow> Inr (packet, ms, tel3, entry_errors tel3 \<noteq> [])))
           | _ \<Rightarrow> Inl (tolerant_error NoPacket ''frame'' None None None)))"

record notify_frame =
  n_cmd :: int
  n_chat_id :: text_points
  n_message_id :: text_points

text \<open>\<open>str.isdigit\<close>: ASCII digits, and \<open>other_digit\<close> for the other digits of Unicode.\<close>

definition is_digit_text :: "(int \<Rightarrow> bool) \<Rightarrow> text_points \<Rightarrow> bool" where
  "is_digit_text other_digit s =
     (s \<noteq> [] \<and> list_all (\<lambda>c. 48 \<le> c \<and> c \<le> 57 \<or> 128 \<le> c \<and> other_digit c) s)"

definition fields_of :: "bytes \<Rightarrow> string \<Rightarrow> telemetry \<Rightarrow> (proto_field list \<times> telemetry) option" where
  "fields_of raw layer tel =
     (case read_proto_fields raw layer tel of (Inl _, _) \<Rightarrow> None | (Inr fs, tel') \<Rightarrow> Some (fs, tel'))"

definition bytes_of :: "proto_value option \<Rightarrow> bytes option" where
  "bytes_of v = (case v of Some (VBytes b) \<Rightarrow> Some b | _ \<Rightarrow> None)"

definition parse_notify_frame :: "(int \<Rightarrow> bool) \<Rightarrow> bytes \<Rightarrow> notify_frame option" where
  "parse_notify_frame other_digit raw =
     Option.bind (fields_of raw ''frame'' new_telemetry) (\<lambda>(frame, t1).
     Option.bind (bytes_of (first_proto_field frame 8 2)) (\<lambda>packet_raw.
     Option.bind (fields_of packet_raw ''packet'' t1) (\<lambda>(packet_fields, t2).
     Option.bind (bytes_of (first_proto_field packet_fields 5 2)) (\<lambda>payload.
     Option.bind (fields_of payload ''notify'' t2) (\<lambda>(notify, t3).
     Option.bind (bytes_of (first_proto_field notify 1 2)) (\<lambda>body.
     Option.bind (fields_of body ''notify_body'' t3) (\<lambda>(notify_body, _).
       (let chat_id = strip_points (text_or_empty (first_proto_field notify_body 1 2)) in
        if \<not> is_digit_text other_digit chat_id then None
        else Some \<lparr>n_cmd = int_or_zero (first_proto_field packet_fields 3 0), n_chat_id = chat_id,
                   n_message_id = strip_points (text_or_empty (first_proto_field packet_fields 1 2))\<rparr>))))))))"

section \<open>Lemmas\<close>

subsection \<open>Varints\<close>

lemma varint_more_bytes:
  "0 \<le> n \<Longrightarrow> n < 128 ^ left \<Longrightarrow> 0 < left \<Longrightarrow>
   varint_more left acc w (more_bytes n @ rest) = Some (acc + n * w, length (more_bytes n), rest)"
proof (induction n arbitrary: left acc w rule: more_bytes.induct)
  case (1 n)
  obtain l where l: "left = Suc l" using 1(4) by (cases left) auto
  show ?case
  proof (cases "n < 128")
    case True
    then show ?thesis using 1(2) l by (simp add: more_bytes.simps [of n] Let_def)
  next
    case False
    have d: "n div 128 < 128 ^ l" "0 < l"
      using 1(3) False l by (auto simp: div_less_iff_less_mult mult.commute intro: ccontr)
    have "acc + n mod 128 * w + n div 128 * (w * 128) = acc + (n div 128 * 128 + n mod 128) * w"
      by (simp only: algebra_simps)
    then show ?thesis
      using 1(1) [OF False _ d, of "acc + n mod 128 * w" "w * 128"] 1(2) False l
      by (simp add: more_bytes.simps [of n] Let_def)
  qed
qed

lemma varint_more_used:
  "varint_more left acc w bs = Some (v, n, rest) \<Longrightarrow> n + length rest = length bs \<and> 0 < n"
  by (induction left acc w bs arbitrary: v n rest rule: varint_more.induct) (auto simp: Let_def split: if_splits)

lemma varint_more_nonneg:
  "varint_more left acc w bs = Some (v, n, rest) \<Longrightarrow> 0 \<le> acc \<Longrightarrow> 0 \<le> w \<Longrightarrow> 0 \<le> v"
proof (induction left acc w bs arbitrary: v n rest rule: varint_more.induct)
  case (3 left acc w b bs)
  have acc: "0 \<le> acc + b mod 128 * w" and w: "0 \<le> w * 128" using 3(3,4) by simp_all
  show ?case
  proof (cases "b < 128")
    case True
    with 3(2) have "v = acc + b mod 128 * w" by (simp add: Let_def)
    with acc show ?thesis by (simp only:)
  next
    case False
    with 3(2) obtain n' where "varint_more left (acc + b mod 128 * w) (w * 128) bs = Some (v, n', rest)"
      by (auto simp: Let_def simp del: varint_more.simps(3) simp: varint_more.simps(3) [of _ _ _ b])
    from 3(1) [OF refl False this acc w] show ?thesis .
  qed
qed auto

lemma read_varint_bytes:
  "0 \<le> n \<Longrightarrow> n < 128 ^ 10 \<Longrightarrow>
   read_varint layer offset (more_bytes n @ rest) = Inr (n, offset + int (length (more_bytes n)), rest)"
  using varint_more_bytes [of n 10 0 1 rest] by (simp add: read_varint_def)

lemma read_varint_used:
  "read_varint layer offset bs = Inr (v, off, rest) \<Longrightarrow>
   off + int (length rest) = offset + int (length bs) \<and> length rest < length bs"
  using varint_more_used [of 10 0 1 bs v] by (cases "varint_more 10 0 1 bs") (auto simp: read_varint_def)

lemma read_varint_nonneg: "read_varint layer offset bs = Inr (v, off, rest) \<Longrightarrow> 0 \<le> v"
  using varint_more_nonneg [of 10 0 1 bs v] by (cases "varint_more 10 0 1 bs") (auto simp: read_varint_def)

lemma take_value_used:
  "take_value err n offset bs = Inr (v, off, rest) \<Longrightarrow> 0 \<le> n \<Longrightarrow>
   off + int (length rest) = offset + int (length bs) \<and> length rest \<le> length bs"
  by (auto simp: take_value_def split: if_splits)

subsection \<open>The reader without its telemetry\<close>

primrec read_pure :: "nat \<Rightarrow> string \<Rightarrow> nat \<Rightarrow> int option \<Rightarrow> int \<Rightarrow> bytes
    \<Rightarrow> proto_error + (proto_field list \<times> int \<times> bytes)" where
  "read_pure 0 layer depth end_group offset bs = Inl (tolerant_error OutOfFuel layer None None (Some offset))"
| "read_pure (Suc fuel) layer depth end_group offset bs =
     (if depth > MAX_DEPTH then Inl (tolerant_error DepthExceeded layer None None (Some offset))
      else if bs = [] then
        (case end_group of
           None \<Rightarrow> Inr ([], offset, [])
         | Some g \<Rightarrow> Inl (tolerant_error UnterminatedGroup layer (Some g) (Some 3) (Some offset)))
      else bindR (read_varint layer offset bs) (\<lambda>(tag, off1, r1).
        (let field = tag div 8; wire = tag mod 8; field_offset = off1 - 1 in
         if field \<le> 0 then Inl (tolerant_error BadFieldNumber layer None None (Some field_offset))
         else if wire = 4 then
           (if end_group = Some field then Inr ([], off1, r1)
            else Inl (tolerant_error UnexpectedEndGroup layer (Some field) (Some wire) (Some field_offset)))
         else if wire = 3 then
           bindR (read_pure fuel layer (Suc depth) (Some field) off1 r1) (\<lambda>(_, off2, r2).
             read_pure fuel layer depth end_group off2 r2)
         else
           bindR (read_value layer field wire field_offset off1 r1) (\<lambda>(v, off2, r2).
             bindR (read_pure fuel layer depth end_group off2 r2) (\<lambda>(fs, off3, r3).
               Inr ((field, wire, v) # fs, off3, r3))))))"

lemma fst_read_until: "fst (read_until fuel layer depth eg off bs tel) = read_pure fuel layer depth eg off bs"
proof (induction fuel arbitrary: depth eg off bs tel)
  case (Suc fuel)
  have until: "read_until fuel layer d g o1 b t = (read_pure fuel layer d g o1 b, snd (read_until fuel layer d g o1 b t))"
    for d g o1 b t
    by (simp add: prod_eq_iff Suc)
  show ?case
  proof (cases "read_varint layer off bs")
    case (Inr a)
    obtain tag off1 r1 where a: "a = (tag, off1, r1)" by (cases a)
    let ?f = "tag div 8" and ?w = "tag mod 8"
    let ?t1 = "record_field tel layer ?f ?w"
    obtain t2 where g: "read_until fuel layer (Suc depth) (Some ?f) off1 r1 (?t1\<lparr>groups_skipped := groups_skipped ?t1 + 1\<rparr>)
        = (read_pure fuel layer (Suc depth) (Some ?f) off1 r1, t2)"
      using until by blast
    show ?thesis
    proof (cases "?w = 3")
      case True
      then show ?thesis
        using Inr a g Suc [of depth eg]
        by (cases "read_pure fuel layer (Suc depth) (Some ?f) off1 r1") (auto simp: Let_def split: option.splits)
    next
      case False
      show ?thesis
      proof (cases "read_value layer ?f ?w (off1 - 1) off1 r1")
        case (Inl e)
        then show ?thesis using Inr a False by (auto simp: Let_def split: option.splits)
      next
        case v: (Inr x)
        obtain v off2 r2 where x: "x = (v, off2, r2)" by (cases x)
        obtain t3 where rec: "read_until fuel layer depth eg off2 r2 ?t1 = (read_pure fuel layer depth eg off2 r2, t3)"
          using until by blast
        show ?thesis
          using Inr a False v x rec
          by (cases "read_pure fuel layer depth eg off2 r2") (auto simp: Let_def split: option.splits)
      qed
    qed
  qed (auto split: option.splits)
qed simp

lemma read_value_used:
  "read_value layer field wire fo offset bs = Inr (v, off, rest) \<Longrightarrow>
   off + int (length rest) = offset + int (length bs) \<and> length rest \<le> length bs"
proof -
  assume r: "read_value layer field wire fo offset bs = Inr (v, off, rest)"
  consider "wire = 0" | "wire = 1" | "wire = 2" | "wire = 5" | "wire \<notin> {0, 1, 2, 5}" by blast
  then show ?thesis
  proof cases
    case 1
    with r show ?thesis using read_varint_used [of layer offset bs] by (fastforce simp: read_value_def Let_def)
  next
    case 3
    with r obtain n o1 r1 where "read_varint layer offset bs = Inr (n, o1, r1)"
      "take_value (tolerant_error TruncatedBytes layer (Some field) (Some 2) (Some fo)) n o1 r1 = Inr (v, off, rest)"
      by (auto simp: read_value_def Let_def)
    with read_varint_used [OF this(1)] read_varint_nonneg [OF this(1)] take_value_used [OF this(2)]
    show ?thesis by simp
  qed (use r take_value_used in \<open>auto simp: read_value_def Let_def\<close>)
qed

lemma read_pure_used:
  "read_pure fuel layer depth eg offset bs = Inr (fs, off, rest) \<Longrightarrow>
   off + int (length rest) = offset + int (length bs) \<and> length rest \<le> length bs"
proof (induction fuel arbitrary: depth eg offset bs fs off rest)
  case (Suc fuel)
  show ?case
  proof (cases "bs = []")
    case True
    with Suc.prems show ?thesis by (auto split: if_splits option.splits)
  next
    case False
    with Suc.prems obtain tag o1 r1 where v: "read_varint layer offset bs = Inr (tag, o1, r1)"
      by (auto split: if_splits)
    note u = read_varint_used [OF v]
    consider "tag mod 8 = 4" "off = o1" "rest = r1"
      | o2 r2 x where "read_pure fuel layer (Suc depth) (Some (tag div 8)) o1 r1 = Inr (x, o2, r2)"
          "read_pure fuel layer depth eg o2 r2 = Inr (fs, off, rest)"
      | y o2 r2 fs' where "read_value layer (tag div 8) (tag mod 8) (o1 - 1) o1 r1 = Inr (y, o2, r2)"
          "read_pure fuel layer depth eg o2 r2 = Inr (fs', off, rest)"
      using Suc.prems False v by (auto simp: Let_def split: if_splits)
    then show ?thesis
    proof cases
      case 2
      with u Suc.IH [OF 2(1)] Suc.IH [OF 2(2)] show ?thesis by simp
    next
      case 3
      with u read_value_used [OF 3(1)] Suc.IH [OF 3(2)] show ?thesis by simp
    qed (use u in simp)
  qed
qed simp

text \<open>Enough fuel: one unit more than the bytes that are left.\<close>

lemma read_pure_fuel:
  "length bs < fuel \<Longrightarrow> length bs < fuel' \<Longrightarrow>
   read_pure fuel layer depth eg offset bs = read_pure fuel' layer depth eg offset bs"
proof (induction fuel arbitrary: fuel' depth eg offset bs)
  case (Suc fuel)
  obtain k where k: "fuel' = Suc k" using Suc.prems(2) by (cases fuel') auto
  show ?case
  proof (cases "bs = [] \<or> (\<exists>e. read_varint layer offset bs = Inl e)")
    case True
    then show ?thesis by (auto simp: k)
  next
    case False
    then obtain tag o1 r1 where v: "read_varint layer offset bs = Inr (tag, o1, r1)"
      by (cases "read_varint layer offset bs") auto
    have r1: "length r1 < fuel" "length r1 < k"
      using read_varint_used [OF v] Suc.prems k by simp_all
    have rec: "read_pure fuel layer d g o2 r2 = read_pure k layer d g o2 r2" if "length r2 \<le> length r1" for d g o2 r2
      using Suc.IH [of r2 k] r1 that by simp
    have "bindR (read_pure fuel layer (Suc depth) (Some (tag div 8)) o1 r1)
            (\<lambda>(_, off2, r2). read_pure fuel layer depth eg off2 r2)
        = bindR (read_pure k layer (Suc depth) (Some (tag div 8)) o1 r1)
            (\<lambda>(_, off2, r2). read_pure k layer depth eg off2 r2)"
      unfolding rec [OF order_refl]
      by (cases "read_pure k layer (Suc depth) (Some (tag div 8)) o1 r1")
        (auto dest!: read_pure_used intro: rec)
    moreover have "bindR (read_value layer (tag div 8) (tag mod 8) (o1 - 1) o1 r1)
            (\<lambda>(v, off2, r2). bindR (read_pure fuel layer depth eg off2 r2) (\<lambda>(fs, off3, r3).
               Inr ((tag div 8, tag mod 8, v) # fs, off3, r3)))
        = bindR (read_value layer (tag div 8) (tag mod 8) (o1 - 1) o1 r1)
            (\<lambda>(v, off2, r2). bindR (read_pure k layer depth eg off2 r2) (\<lambda>(fs, off3, r3).
               Inr ((tag div 8, tag mod 8, v) # fs, off3, r3)))"
      by (cases "read_value layer (tag div 8) (tag mod 8) (o1 - 1) o1 r1")
        (auto dest!: read_value_used simp: rec)
    ultimately show ?thesis
      using False v by (simp add: k Let_def)
  qed
qed simp

subsection \<open>The format as an encoder\<close>

datatype wire_item = WField int int proto_value | WGroup int "wire_item list"

definition encode_value :: "int \<Rightarrow> proto_value \<Rightarrow> bytes" where
  "encode_value wire v =
     (case v of VInt n \<Rightarrow> more_bytes n
      | VBytes b \<Rightarrow> if wire = 2 then more_bytes (int (length b)) @ b else b)"

fun encode_item :: "wire_item \<Rightarrow> bytes" where
  "encode_item (WField f w v) = more_bytes (f * 8 + w) @ encode_value w v"
| "encode_item (WGroup f items) = more_bytes (f * 8 + 3) @ concat (map encode_item items) @ more_bytes (f * 8 + 4)"

definition encode_items :: "wire_item list \<Rightarrow> bytes" where
  "encode_items items = concat (map encode_item items)"

definition number_ok :: "int \<Rightarrow> bool" where
  "number_ok f = (1 \<le> f \<and> f * 8 + 7 < 128 ^ 10)"

definition value_ok :: "int \<Rightarrow> proto_value \<Rightarrow> bool" where
  "value_ok wire v =
     (case v of VInt n \<Rightarrow> wire = 0 \<and> 0 \<le> n \<and> n < 128 ^ 10
      | VBytes b \<Rightarrow> wire = 1 \<and> length b = 8 \<or> wire = 5 \<and> length b = 4
                   \<or> wire = 2 \<and> int (length b) < 128 ^ 10)"

fun item_ok :: "wire_item \<Rightarrow> bool" where
  "item_ok (WField f w v) = (number_ok f \<and> value_ok w v)"
| "item_ok (WGroup f items) = (number_ok f \<and> list_all item_ok items)"

text \<open>\<open>fits n item\<close>: the item's groups nest at most \<open>n\<close> deep.\<close>

fun fits :: "nat \<Rightarrow> wire_item \<Rightarrow> bool" where
  "fits n (WField f w v) = True"
| "fits 0 (WGroup f items) = False"
| "fits (Suc n) (WGroup f items) = list_all (fits n) items"

definition top_fields :: "wire_item list \<Rightarrow> proto_field list" where
  "top_fields items =
     List.map_filter (\<lambda>i. case i of WField f w v \<Rightarrow> Some (f, w, v) | WGroup _ _ \<Rightarrow> None) items"

lemma encode_items_simps [simp]:
  "encode_items [] = []" "encode_items (i # is) = encode_item i @ encode_items is"
  by (simp_all add: encode_items_def)

lemma top_fields_simps [simp]:
  "top_fields [] = []" "top_fields (WField f w v # is) = (f, w, v) # top_fields is"
  "top_fields (WGroup f inner # is) = top_fields is"
  by (simp_all add: top_fields_def map_filter_simps)

lemma tag_parts: "0 \<le> w \<Longrightarrow> w < 8 \<Longrightarrow> (f * 8 + w) div 8 = f \<and> (f * 8 + w) mod 8 = (w :: int)"
  by auto

lemma read_tag:
  "number_ok f \<Longrightarrow> 0 \<le> w \<Longrightarrow> w < 8 \<Longrightarrow> read_varint layer offset (more_bytes (f * 8 + w) @ rest)
     = Inr (f * 8 + w, offset + int (length (more_bytes (f * 8 + w))), rest)"
  by (rule read_varint_bytes) (auto simp: number_ok_def)

lemma take_value_append:
  "int (length b) = n \<Longrightarrow> take_value err n offset (b @ rest) = Inr (VBytes b, offset + n, rest)"
  by (auto simp: take_value_def)

lemma read_value_encode:
  assumes "value_ok w v"
  shows "read_value layer f w fo offset (encode_value w v @ rest)
    = Inr (v, offset + int (length (encode_value w v)), rest)"
proof (cases v)
  case (VInt n)
  with assms show ?thesis
    using read_varint_bytes [of n layer offset rest] by (simp add: read_value_def encode_value_def value_ok_def)
next
  case (VBytes b)
  then consider "w = 1" "length b = 8" | "w = 5" "length b = 4" | "w = 2" "int (length b) < 128 ^ 10"
    using assms by (auto simp: value_ok_def)
  then show ?thesis
  proof cases
    case 3
    have "read_varint layer offset (more_bytes (int (length b)) @ b @ rest)
        = Inr (int (length b), offset + int (length (more_bytes (int (length b)))), b @ rest)"
      using 3(2) by (intro read_varint_bytes) simp_all
    then show ?thesis using 3(1) VBytes by (simp add: read_value_def encode_value_def take_value_append)
  qed (simp_all add: VBytes read_value_def encode_value_def take_value_append)
qed

lemma wire_of_value: "value_ok w v \<Longrightarrow> w \<in> {0, 1, 2, 5}"
  by (auto simp: value_ok_def split: proto_value.splits)

lemma read_pure_end_group:
  assumes "number_ok f" "depth \<le> MAX_DEPTH" "fuel \<noteq> 0"
  shows "read_pure fuel layer depth (Some f) offset (more_bytes (f * 8 + 4) @ rest)
    = Inr ([], offset + int (length (more_bytes (f * 8 + 4))), rest)"
proof -
  obtain k where "fuel = Suc k" using assms(3) by (cases fuel) auto
  then show ?thesis
    using assms(1,2) read_tag [OF assms(1), of 4 layer offset rest] tag_parts [of 4 f]
    by (simp add: Let_def number_ok_def)
qed

lemma read_pure_field:
  assumes "number_ok f" "value_ok w v" "depth \<le> MAX_DEPTH"
  shows "read_pure (Suc fuel) layer depth eg offset (encode_item (WField f w v) @ rest) =
    bindR (read_pure fuel layer depth eg (offset + int (length (encode_item (WField f w v)))) rest)
      (\<lambda>(fs, o3, r3). Inr ((f, w, v) # fs, o3, r3))"
proof -
  have w: "0 \<le> w" "w < 8" "w \<noteq> 4" "w \<noteq> 3" using wire_of_value [OF assms(2)] by auto
  let ?o = "offset + int (length (more_bytes (f * 8 + w)))"
  have "read_varint layer offset (more_bytes (f * 8 + w) @ encode_value w v @ rest) = Inr (f * 8 + w, ?o, encode_value w v @ rest)"
    by (rule read_tag [OF assms(1) w(1,2)])
  then show ?thesis
    using assms(1,3) w tag_parts [OF w(1,2), of f]
    by (simp add: Let_def number_ok_def read_value_encode [OF assms(2)] add.assoc)
qed

lemma read_pure_group:
  assumes "number_ok f" "depth \<le> MAX_DEPTH"
  shows "read_pure (Suc fuel) layer depth eg offset (more_bytes (f * 8 + 3) @ rest) =
    bindR (read_pure fuel layer (Suc depth) (Some f) (offset + int (length (more_bytes (f * 8 + 3)))) rest)
      (\<lambda>(_, off2, r2). read_pure fuel layer depth eg off2 r2)"
  using assms read_tag [OF assms(1), of 3 layer offset rest] tag_parts [of 3 f]
  by (simp add: Let_def number_ok_def)

lemma bindR_Inr [simp]: "bindR m Inr = m"
  by (cases m) auto

lemma encode_item_pos: "0 < length (encode_item i)"
  by (cases i) simp_all

lemma read_pure_items:
  "length (encode_items items @ tail) < fuel \<Longrightarrow> list_all item_ok items \<Longrightarrow>
   list_all (fits (MAX_DEPTH - depth)) items \<Longrightarrow> depth \<le> MAX_DEPTH \<Longrightarrow>
   read_pure fuel layer depth eg offset (encode_items items @ tail) =
     bindR (read_pure fuel layer depth eg (offset + int (length (encode_items items))) tail)
       (\<lambda>(fs, off, r). Inr (top_fields items @ fs, off, r))"
proof (induction fuel arbitrary: items depth eg offset tail)
  case (Suc fuel)
  show ?case
  proof (cases items)
    case Nil
    then show ?thesis by (simp del: read_pure.simps)
  next
    case (Cons item rest)
    have "length tail < fuel"
      using Suc.prems(1) encode_item_pos [of item] by (simp add: Cons del: length_greater_0_conv)
    then have tl: "read_pure fuel layer depth eg off tail = read_pure (Suc fuel) layer depth eg off tail" for off
      by (intro read_pure_fuel) simp_all
    show ?thesis
    proof (cases item)
      case (WField f w v)
      let ?o = "offset + int (length (encode_item item))"
      have ok: "number_ok f" "value_ok w v" using Suc.prems(2) Cons WField by auto
      have len: "length (encode_items rest @ tail) < fuel"
      proof -
        have "0 < length (more_bytes (f * 8 + w))" by simp
        with Suc.prems(1) show ?thesis by (simp add: Cons WField del: length_greater_0_conv)
      qed
      have "read_pure (Suc fuel) layer depth eg offset (encode_items items @ tail)
          = bindR (read_pure fuel layer depth eg ?o (encode_items rest @ tail))
              (\<lambda>(fs, o3, r3). Inr ((f, w, v) # fs, o3, r3))"
        using read_pure_field [OF ok Suc.prems(4), of fuel layer eg offset "encode_items rest @ tail"]
        by (simp add: Cons WField del: read_pure.simps)
      also have "read_pure fuel layer depth eg ?o (encode_items rest @ tail)
          = bindR (read_pure (Suc fuel) layer depth eg (?o + int (length (encode_items rest))) tail)
              (\<lambda>(fs, off, r). Inr (top_fields rest @ fs, off, r))"
        unfolding tl [symmetric] by (rule Suc.IH [OF len]) (use Suc.prems Cons in simp_all)
      finally show ?thesis
        by (cases "read_pure (Suc fuel) layer depth eg (?o + int (length (encode_items rest))) tail")
          (auto simp: Cons WField add.assoc simp del: read_pure.simps)
    next
      case (WGroup f inner)
      obtain d where d: "MAX_DEPTH - depth = Suc d" "list_all (fits d) inner"
        using Suc.prems(3) Cons WGroup by (cases "MAX_DEPTH - depth") auto
      have ok: "number_ok f" "list_all item_ok inner" using Suc.prems(2) Cons WGroup by auto
      have dd: "Suc depth \<le> MAX_DEPTH" "MAX_DEPTH - Suc depth = d" using d by auto
      let ?close = "more_bytes (f * 8 + 4)"
      let ?o1 = "offset + int (length (more_bytes (f * 8 + 3)))"
      let ?o2 = "?o1 + int (length (encode_items inner)) + int (length ?close)"
      have enc: "encode_items items @ tail
          = more_bytes (f * 8 + 3) @ encode_items inner @ ?close @ encode_items rest @ tail"
        by (simp add: Cons WGroup encode_items_def)
      have pos: "0 < length (more_bytes n)" for n by simp
      have len: "length (encode_items inner @ ?close @ encode_items rest @ tail) < fuel"
        "length (encode_items rest @ tail) < fuel"
        using Suc.prems(1) pos [of "f * 8 + 3"] unfolding enc length_append by linarith+
      have inner: "read_pure fuel layer (Suc depth) (Some f) ?o1 (encode_items inner @ ?close @ encode_items rest @ tail)
          = Inr (top_fields inner, ?o2, encode_items rest @ tail)"
        using Suc.IH [OF len(1) ok(2) _ dd(1)] d(2) dd(2) len
          read_pure_end_group [OF ok(1) dd(1), of fuel layer _ "encode_items rest @ tail"]
        by simp
      have "read_pure (Suc fuel) layer depth eg offset (encode_items items @ tail)
          = read_pure fuel layer depth eg ?o2 (encode_items rest @ tail)"
        unfolding enc read_pure_group [OF ok(1) Suc.prems(4)] inner by simp
      also have "\<dots> = bindR (read_pure (Suc fuel) layer depth eg (?o2 + int (length (encode_items rest))) tail)
              (\<lambda>(fs, off, r). Inr (top_fields rest @ fs, off, r))"
        unfolding tl [symmetric] by (rule Suc.IH [OF len(2)]) (use Suc.prems Cons in simp_all)
      also have "?o2 + int (length (encode_items rest)) = offset + int (length (encode_items items))"
        by (simp add: Cons WGroup encode_items_def)
      finally show ?thesis by (simp add: Cons WGroup del: read_pure.simps)
    qed
  qed
qed simp

lemma fst_read_proto_fields:
  "fst (read_proto_fields raw layer tel) =
     bindR (read_pure (Suc (length raw)) layer 0 None 0 raw) (\<lambda>(fs, offset, _).
       if offset \<noteq> int (length raw) then Inl (tolerant_error TrailingBytes layer None None (Some offset)) else Inr fs)"
proof -
  obtain r t where u: "read_until (Suc (length raw)) layer 0 None 0 raw tel = (r, t)" by fastforce
  then have r: "read_pure (Suc (length raw)) layer 0 None 0 raw = r"
    using fst_read_until [of "Suc (length raw)" layer 0 None 0 raw tel] by simp
  show ?thesis
    unfolding read_proto_fields_def u r by (cases r) auto
qed

lemma read_fields_items:
  assumes "list_all item_ok items" "list_all (fits MAX_DEPTH) items"
  shows "fst (read_proto_fields (encode_items items) layer tel) = Inr (top_fields items)"
proof -
  let ?n = "Suc (length (encode_items items))"
  have "read_pure ?n layer 0 None 0 (encode_items items @ []) =
     bindR (read_pure ?n layer 0 None (0 + int (length (encode_items items))) [])
       (\<lambda>(fs, off, r). Inr (top_fields items @ fs, off, r))"
    using assms by (intro read_pure_items) simp_all
  then show ?thesis by (simp add: fst_read_proto_fields)
qed

lemma bindR_eq_Inl: "bindR m f = Inl e \<longleftrightarrow> m = Inl e \<or> (\<exists>x. m = Inr x \<and> f x = Inl e)"
  by (cases m) auto

lemma read_pure_top_rest:
  "length bs < fuel \<Longrightarrow> read_pure fuel layer depth None offset bs = Inr (fs, off, rest) \<Longrightarrow> rest = []"
proof (induction fuel arbitrary: offset bs fs off)
  case (Suc fuel)
  show ?case
  proof (cases "bs = []")
    case False
    with Suc.prems(2) obtain tag o1 r1 where v: "read_varint layer offset bs = Inr (tag, o1, r1)"
      by (auto split: if_splits)
    have r1: "length r1 < fuel" using read_varint_used [OF v] Suc.prems(1) by simp
    consider o2 r2 x where "read_pure fuel layer (Suc depth) (Some (tag div 8)) o1 r1 = Inr (x, o2, r2)"
          "read_pure fuel layer depth None o2 r2 = Inr (fs, off, rest)"
      | y o2 r2 fs' where "read_value layer (tag div 8) (tag mod 8) (o1 - 1) o1 r1 = Inr (y, o2, r2)"
          "read_pure fuel layer depth None o2 r2 = Inr (fs', off, rest)"
      using Suc.prems(2) False v by (auto simp: Let_def split: if_splits)
    then show ?thesis
    proof cases
      case 1
      from Suc.IH [OF _ 1(2)] read_pure_used [OF 1(1)] r1 show ?thesis by simp
    next
      case 2
      from Suc.IH [OF _ 2(2)] read_value_used [OF 2(1)] r1 show ?thesis by simp
    qed
  qed (use Suc.prems in \<open>auto split: if_splits\<close>)
qed simp

section \<open>Properties\<close>

text \<open>
  C36. The reader returns exactly the fields that were encoded, in order, whatever their
  numbers and wire types, and skips every group with all it holds, as long as groups nest no
  deeper than the limit of sixteen; an unknown field or layer changes nothing of this.
\<close>

theorem read_fields_round_trip:
  assumes "list_all item_ok items" and "list_all (fits MAX_DEPTH) items"
  shows "fst (read_proto_fields (encode_items items) layer tel) = Inr (top_fields items)"
  using assms by (rule read_fields_items)

theorem read_fields_round_trip_witness:
  "fst (read_proto_fields (encode_items [WGroup 3 [WField 4 0 (VInt 5)], WField 1 2 (VBytes [104, 105])]) ''push'' new_telemetry)
     = Inr (top_fields [WGroup 3 [WField 4 0 (VInt 5)], WField 1 2 (VBytes [104, 105])])"
  by (rule read_fields_round_trip) (simp_all add: number_ok_def value_ok_def MAX_DEPTH_def numeral_eq_Suc)

lemma read_pure_errors:
  "length bs < fuel \<Longrightarrow> read_pure fuel layer depth eg offset bs = Inl e \<Longrightarrow>
   e_problem e \<noteq> OutOfFuel \<and> e_problem e \<noteq> TrailingBytes
   \<and> (\<exists>pos. e_offset e = Some pos \<and> offset \<le> pos \<and> pos \<le> offset + int (length bs))"
proof (induction fuel arbitrary: depth eg offset bs)
  case (Suc fuel)
  note err = tolerant_error_def
  show ?case
  proof (cases "depth > MAX_DEPTH \<or> bs = []")
    case True
    with Suc.prems show ?thesis by (auto simp: err split: if_splits option.splits)
  next
    case False
    show ?thesis
    proof (cases "read_varint layer offset bs")
      case (Inl e')
      with Suc.prems False show ?thesis by (auto simp: err read_varint_def split: option.splits)
    next
      case (Inr a)
      then obtain tag o1 r1 where v: "read_varint layer offset bs = Inr (tag, o1, r1)" by (cases a) auto
      note u = read_varint_used [OF v]
      let ?f = "tag div 8" and ?w = "tag mod 8"
      have sub: ?thesis if "read_pure fuel layer d g o2 r2 = Inl e" "length r2 \<le> length r1"
          "o2 + int (length r2) = o1 + int (length r1)" for d g o2 r2
        using Suc.IH [OF _ that(1)] u that Suc.prems(1) by auto
      consider "e_problem e \<in> {BadFieldNumber, UnexpectedEndGroup}" "e_offset e = Some (o1 - 1)"
        | "read_pure fuel layer (Suc depth) (Some ?f) o1 r1 = Inl e"
        | x o2 r2 where "read_pure fuel layer (Suc depth) (Some ?f) o1 r1 = Inr (x, o2, r2)"
            "read_pure fuel layer depth eg o2 r2 = Inl e"
        | "read_value layer ?f ?w (o1 - 1) o1 r1 = Inl e"
        | y o2 r2 where "read_value layer ?f ?w (o1 - 1) o1 r1 = Inr (y, o2, r2)"
            "read_pure fuel layer depth eg o2 r2 = Inl e"
        using Suc.prems(2) False v by (auto simp: Let_def err bindR_eq_Inl split: if_splits)
      then show ?thesis
      proof cases
        case 1
        with u show ?thesis by auto
      next
        case 2
        then show ?thesis by (rule sub) simp_all
      next
        case 3
        from 3(2) show ?thesis by (rule sub) (use read_pure_used [OF 3(1)] in simp_all)
      next
        case 4
        have "\<exists>pos. e_offset e = Some pos \<and> o1 - 1 \<le> pos \<and> pos \<le> o1 + int (length r1)"
          and "e_problem e \<noteq> OutOfFuel \<and> e_problem e \<noteq> TrailingBytes"
          using 4 by (auto simp: read_value_def Let_def take_value_def read_varint_def err bindR_eq_Inl
              split: if_splits option.splits)
        with u show ?thesis by auto
      next
        case 5
        from 5(2) show ?thesis by (rule sub) (use read_value_used [OF 5(1)] in simp_all)
      qed
    qed
  qed
qed simp

text \<open>
  C37. On any input the reader ends: it consumes the whole input and returns its fields, or it
  raises an error whose offset lies inside the input; the trailing-bytes check of the caller
  never fires, since a top-level read stops only at the end.
\<close>

theorem read_fields_total:
  "case fst (read_proto_fields raw layer tel) of
     Inr fs \<Rightarrow> read_pure (Suc (length raw)) layer 0 None 0 raw = Inr (fs, int (length raw), [])
   | Inl e \<Rightarrow> e_problem e \<noteq> OutOfFuel \<and> e_problem e \<noteq> TrailingBytes
       \<and> (\<exists>pos. e_offset e = Some pos \<and> 0 \<le> pos \<and> pos \<le> int (length raw))"
proof (cases "read_pure (Suc (length raw)) layer 0 None 0 raw")
  case (Inl e)
  then show ?thesis
    using read_pure_errors [OF _ Inl] by (simp add: fst_read_proto_fields del: read_pure.simps)
next
  case (Inr a)
  then obtain fs off r where a: "read_pure (Suc (length raw)) layer 0 None 0 raw = Inr (fs, off, r)"
    by (cases a) auto
  have "r = []" using read_pure_top_rest [OF _ a] by simp
  with read_pure_used [OF a] a show ?thesis by (simp add: fst_read_proto_fields del: read_pure.simps)
qed

subsection \<open>Pushes\<close>

text \<open>What is decoded does not depend on the telemetry.\<close>

lemma read_proto_fields_tel: "fst (read_proto_fields raw layer tel) = fst (read_proto_fields raw layer tel')"
  by (simp only: fst_read_proto_fields)

lemma entity_tel:
  "fst (tolerant_entity_message dc raw tel) = fst (tolerant_entity_message dc raw tel')"
  using read_proto_fields_tel [of raw "''entity''" tel tel']
  by (auto simp: tolerant_entity_message_def Let_def split: prod.splits sum.splits)

definition decode_entry :: "(int \<Rightarrow> bytes \<Rightarrow> 'c) \<Rightarrow> bytes \<Rightarrow> 'c proto_message option" where
  "decode_entry dc raw = fst (push_entry dc raw new_telemetry)"

lemma push_entry_tel: "fst (push_entry dc raw tel) = decode_entry dc raw"
proof -
  obtain r t where r: "read_proto_fields raw ''entry'' tel = (r, t)" by fastforce
  obtain t' where r': "read_proto_fields raw ''entry'' new_telemetry = (r, t')"
    using read_proto_fields_tel [of raw "''entry''" tel new_telemetry] r by (metis fst_conv surj_pair)
  show ?thesis
  proof (cases r)
    case (Inl e)
    then show ?thesis using r r' by (simp add: decode_entry_def push_entry_def)
  next
    case (Inr entry)
    have "fst (tolerant_entity_message dc m t) = fst (tolerant_entity_message dc m t')" for m by (rule entity_tel)
    then show ?thesis
      using Inr r r'
      by (auto simp: decode_entry_def push_entry_def split: option.splits proto_value.splits prod.splits sum.splits)
        (metis fst_conv sum.simps old.sum.inject)+
  qed
qed

definition push_items :: "bytes list \<Rightarrow> wire_item list" where
  "push_items es = map (\<lambda>e. WField 1 2 (VBytes e)) es"

lemma top_fields_push: "top_fields (push_items es) = map (\<lambda>e. (1, 2, VBytes e)) es"
  by (induction es) (simp_all add: push_items_def)

lemma push_entries_map:
  "fst (push_entries dc (map (\<lambda>e. (1, 2, VBytes e)) es) tel) = List.map_filter (decode_entry dc) es"
proof (induction es arbitrary: tel)
  case (Cons e es)
  obtain m t where p: "push_entry dc e tel = (m, t)" by fastforce
  then have "m = decode_entry dc e" using push_entry_tel [of dc e tel] by simp
  then show ?case using Cons [of t] p by (auto simp: map_filter_simps split: prod.splits option.splits)
qed (simp add: map_filter_simps)

text \<open>
  C35. A push loses nothing but its malformed entries: the messages of a push are those of its
  entries, each decoded as if it came alone, in order, so one entry that does not parse never
  drops or changes another.
\<close>

theorem push_isolates_entries:
  assumes "list_all (\<lambda>e. int (length e) < 128 ^ 10) es"
  shows "fst (tolerant_push_messages dc (encode_items (push_items es)) tel)
    = Inr (List.map_filter (decode_entry dc) es)"
proof -
  have "list_all item_ok (push_items es)" "list_all (fits MAX_DEPTH) (push_items es)"
    using assms by (auto simp: push_items_def list_all_iff number_ok_def value_ok_def MAX_DEPTH_def)
  then have "fst (read_proto_fields (encode_items (push_items es)) ''push'' tel) = Inr (top_fields (push_items es))"
    by (rule read_fields_items)
  then obtain t where "read_proto_fields (encode_items (push_items es)) ''push'' tel = (Inr (map (\<lambda>e. (1, 2, VBytes e)) es), t)"
    unfolding top_fields_push by (metis fst_conv surj_pair)
  then show ?thesis
    using push_entries_map [of dc es t] by (auto simp: tolerant_push_messages_def split: prod.splits)
qed

theorem push_isolates_entries_witness:
  "fst (tolerant_push_messages (\<lambda>_ _. ()) (encode_items (push_items [[255], [18, 3, 10, 1, 55]])) new_telemetry)
    = Inr (List.map_filter (decode_entry (\<lambda>_ _. ())) [[255], [18, 3, 10, 1, 55]])"
  by (rule push_isolates_entries) simp

text \<open>An entry whose fields parse but which holds no message payload.\<close>

definition no_payload :: "bytes \<Rightarrow> bool" where
  "no_payload e =
     (case fst (read_proto_fields e ''entry'' new_telemetry) of
        Inl _ \<Rightarrow> False
      | Inr entry \<Rightarrow> bytes_of (first_proto_field entry 2 2) = None)"

lemma record_field_errors [simp]: "entry_errors (record_field tel layer f w) = entry_errors tel"
  by (simp add: record_field_def Let_def)

lemma read_until_errors: "entry_errors (snd (read_until fuel layer depth eg off bs tel)) = entry_errors tel"
proof (induction fuel arbitrary: depth eg off bs tel)
  case (Suc fuel)
  have IH: "entry_errors t = entry_errors tel'" if "read_until fuel layer d g o1 b tel' = (r, t)" for d g o1 b tel' r t
    using Suc [of d g o1 b tel'] that by simp
  show ?case
  proof (cases "read_varint layer off bs")
    case (Inr a)
    obtain tag o1 r1 where a: "a = (tag, o1, r1)" by (cases a)
    let ?t1 = "record_field tel layer (tag div 8) (tag mod 8)"
    obtain rg tg where g: "read_until fuel layer (Suc depth) (Some (tag div 8)) o1 r1
        (?t1\<lparr>groups_skipped := groups_skipped ?t1 + 1\<rparr>) = (rg, tg)" by fastforce
    have tg: "entry_errors tg = entry_errors tel" using IH [OF g] by simp
    show ?thesis
    proof (cases "tag mod 8 = 3")
      case True
      then show ?thesis
        using Inr a g tg Suc [of depth eg] by (cases rg) (auto simp: Let_def split: option.splits)
    next
      case False
      show ?thesis
      proof (cases "read_value layer (tag div 8) (tag mod 8) (o1 - 1) o1 r1")
        case (Inl e)
        then show ?thesis using Inr a False by (auto simp: Let_def split: option.splits)
      next
        case v: (Inr x)
        obtain y o2 r2 where x: "x = (y, o2, r2)" by (cases x)
        obtain r3 t3 where rec: "read_until fuel layer depth eg o2 r2 ?t1 = (r3, t3)" by fastforce
        have "entry_errors t3 = entry_errors tel" using IH [OF rec] by simp
        then show ?thesis
          using Inr a False v x rec by (cases r3) (auto simp: Let_def split: option.splits)
      qed
    qed
  qed (auto split: option.splits)
qed simp

lemma read_proto_fields_errors:
  "read_proto_fields raw layer tel = (r, tel') \<Longrightarrow> entry_errors tel' = entry_errors tel"
  using read_until_errors [of "Suc (length raw)" layer 0 None 0 raw tel]
  by (auto simp: read_proto_fields_def simp del: read_until.simps split: prod.splits sum.splits if_splits)

lemma push_entry_no_payload:
  assumes "no_payload e" "push_entry dc e tel = (m, tel')"
  shows "m = None \<and> length (entry_errors tel') = length (entry_errors tel) + 1"
proof -
  obtain r t where r: "read_proto_fields e ''entry'' tel = (r, t)" by fastforce
  then have "fst (read_proto_fields e ''entry'' new_telemetry) = r"
    using read_proto_fields_tel [of e "''entry''" tel new_telemetry] by simp
  with assms(1) obtain entry where "r = Inr entry" "bytes_of (first_proto_field entry 2 2) = None"
    by (auto simp: no_payload_def split: sum.splits)
  with assms(2) r read_proto_fields_errors [OF r] show ?thesis
    by (auto simp: push_entry_def log_error_def bytes_of_def split: option.splits proto_value.splits)
qed

text \<open>
  The telemetry of a push is not bounded by the cap of 32 entry errors: every entry without
  a message payload adds an error of its own, however many there are.
\<close>

theorem missing_payloads_unbounded:
  assumes "list_all no_payload es"
  shows "length (entry_errors (snd (push_entries dc (map (\<lambda>e. (1, 2, VBytes e)) es) tel)))
    = length (entry_errors tel) + length es"
  using assms
proof (induction es arbitrary: tel)
  case (Cons e es)
  obtain m t where p: "push_entry dc e tel = (m, t)" by fastforce
  from push_entry_no_payload [OF _ p] Cons.prems have "length (entry_errors t) = length (entry_errors tel) + 1" by simp
  with Cons.IH [of t] Cons.prems p show ?case by (auto split: prod.splits)
qed simp

theorem missing_payloads_unbounded_witness:
  "length (entry_errors (snd (push_entries (\<lambda>_ _. ()) (map (\<lambda>e. (1, 2, VBytes e)) (replicate 40 [])) new_telemetry))) = 40"
proof -
  have "no_payload []" by code_simp
  then have "list_all no_payload (replicate 40 [])" by (simp add: list_all_iff)
  from missing_payloads_unbounded [OF this, of "\<lambda>_ _. ()" new_telemetry] show ?thesis
    by (simp add: new_telemetry_def)
qed

end
