(* ===== verification/PyStats.thy ===== *)
theory PyStats
  imports PyNumbers
begin

text \<open>
  The Python 3.12 built-ins and \<open>statistics\<close> functions on lists of floats that the score and the
  trial records use: \<open>sum\<close> (Neumaier's compensated loop), \<open>math.fsum\<close>, \<open>statistics.mean\<close> and
  \<open>stdev\<close> (exact rationals, rounded once at the end), the correctly rounded square root, and
  \<open>round(x, n)\<close>. Everything computes.
\<close>

section \<open>Sums\<close>

definition fsum :: "rat list \<Rightarrow> rat" where
  "fsum xs = flt (sum_list xs)"

primrec neumaier :: "rat list \<Rightarrow> rat \<Rightarrow> rat \<Rightarrow> rat" where
  "neumaier [] f c = (if c = 0 then f else fadd f c)"
| "neumaier (x # xs) f c =
     (let t = fadd f x;
          e = (if \<bar>x\<bar> \<le> \<bar>f\<bar> then fadd (fsub f t) x else fadd (fsub x t) f)
      in neumaier xs t (fadd c e))"

definition float_sum :: "rat list \<Rightarrow> rat" where
  "float_sum xs = (case xs of [] \<Rightarrow> 0 | x # rest \<Rightarrow> neumaier rest x 0)"

text \<open>\<open>max\<close> of a list of floats.\<close>

fun float_max :: "rat list \<Rightarrow> rat res" where
  "float_max [] = Inl ValueError"
| "float_max (x # xs) = Inr (fold max xs x)"

section \<open>Square roots\<close>

function isqrt :: "int \<Rightarrow> int" where
  "isqrt n = (if n \<le> 0 then 0 else
     let s = 2 * isqrt (n div 4) in if (s + 1) * (s + 1) \<le> n then s + 1 else s)"
  by pat_completeness auto
termination by (relation "measure nat") (auto intro!: int_div_less_self)

declare isqrt.simps [simp del]

lemma isqrt_bounds: "0 \<le> n \<Longrightarrow> 0 \<le> isqrt n \<and> isqrt n * isqrt n \<le> n \<and> n < (isqrt n + 1) * (isqrt n + 1)"
proof (induction n rule: isqrt.induct)
  case (1 n)
  show ?case
  proof (cases "n \<le> 0")
    case True
    with "1.prems" have "n = 0" by simp
    then show ?thesis by (simp add: isqrt.simps [of 0])
  next
    case False
    define r where "r = isqrt (n div 4)"
    have r: "0 \<le> r" "r * r \<le> n div 4" "n div 4 < (r + 1) * (r + 1)"
      using "1.IH" False by (simp_all add: r_def)
    define s where "s = 2 * r"
    have eq: "isqrt n = (if (s + 1) * (s + 1) \<le> n then s + 1 else s)"
      using False unfolding r_def s_def by (simp add: isqrt.simps [of n] Let_def)
    have lo: "s * s \<le> n" using r unfolding s_def by linarith
    have "n < 4 * ((r + 1) * (r + 1))" using r(3) by linarith
    then have hi: "n < (s + 2) * (s + 2)" unfolding s_def by (simp add: algebra_simps)
    show ?thesis using r(1) lo hi by (auto simp: eq s_def algebra_simps)
  qed
qed

text \<open>\<open>statistics._float_sqrt_of_frac\<close>: the square root of a fraction rounded to odd at 109 bits
  or more, then to a float. \<open>n << k\<close> is multiplication by a power of two.\<close>

definition sqrt_rto :: "int \<Rightarrow> int \<Rightarrow> int" where
  "sqrt_rto n m = (let a = isqrt (n div m) in if a * a * m \<noteq> n \<and> even a then a + 1 else a)"

definition float_sqrt :: "rat \<Rightarrow> rat" where
  "float_sqrt x =
     (case quotient_of x of (n, m) \<Rightarrow>
       let q = (ilog 2 n - ilog 2 m - 109) div 2
       in if 0 \<le> q then flt (of_int (sqrt_rto n (m * 2 ^ nat (2 * q)) * 2 ^ nat q))
          else flt (of_int (sqrt_rto (n * 2 ^ nat (- 2 * q)) m) / 2 ^ nat (- q)))"

section \<open>The statistics module\<close>

definition mean_float :: "rat list \<Rightarrow> rat res" where
  "mean_float xs = (if xs = [] then Inl ValueError else Inr (flt (sum_list xs / of_nat (length xs))))"

definition sum_squares :: "rat list \<Rightarrow> rat" where
  "sum_squares xs =
     (let n = of_nat (length xs); sx = sum_list xs; sxx = sum_list (map (\<lambda>x. x * x) xs)
      in (n * sxx - sx * sx) / n)"

definition stdev_float :: "rat list \<Rightarrow> rat res" where
  "stdev_float xs =
     (if length xs < 2 then Inl ValueError
      else Inr (float_sqrt (sum_squares xs / of_nat (length xs - 1))))"

text \<open>\<open>round(x, n)\<close> of a float: the nearest multiple of \<open>10 ^ -n\<close>, half-even, as a float.\<close>

definition round_digits :: "nat \<Rightarrow> rat \<Rightarrow> rat" where
  "round_digits n x = flt (of_int (half_even (x * 10 ^ n)) / 10 ^ n)"

text \<open>\<open>xs[-n:]\<close>.\<close>

definition last_slice :: "int \<Rightarrow> 'a list \<Rightarrow> 'a list" where
  "last_slice n xs = (if 0 < n then drop (length xs - nat n) xs else drop (nat (- n)) xs)"

lemma mean_float_total: "xs \<noteq> [] \<Longrightarrow> mean_float xs = Inr (flt (sum_list xs / of_nat (length xs)))"
  by (simp add: mean_float_def)

lemma flt_pos_iff: "0 < flt x \<longleftrightarrow> 0 < x"
  using flt.rnd_sign [of x] by simp

end
