(* ===== verification/LimitUpRisk.thy ===== *)
theory LimitUpRisk
  imports PyStats PyBytes "HOL-Library.Multiset"
begin

text \<open>
  \<open>quant-service/app/limit_up_risk.py\<close> and the symbol rule it uses
  (\<open>datasources/http.py: ashare_symbol\<close>): the limit-up list of a day is decoded against the day's
  bars, and the rows with enough history are scored by the ranks of nine features. A list row is
  a JSON array: a cell is null, an integer, a float or a text. Bars hold database decimals, which
  the code converts with \<open>float\<close>; a missing one raises TypeError.
\<close>

section \<open>JSON cells\<close>

datatype cell = CNull | CInt int | CFloat rat | CText string

text \<open>\<open>float(text)\<close>: sign, digits, fraction and exponent, blanks stripped. The words \<open>inf\<close> and
  \<open>nan\<close> and underscores between digits are not accepted here.\<close>

fun digits_value :: "int \<Rightarrow> string \<Rightarrow> int" where
  "digits_value acc [] = acc"
| "digits_value acc (c # cs) = digits_value (acc * 10 + (of_char c - 48)) cs"

definition split_digits :: "string \<Rightarrow> string \<times> string" where
  "split_digits s = (takeWhile is_digit s, dropWhile is_digit s)"

definition split_sign :: "string \<Rightarrow> int \<times> string" where
  "split_sign s =
     (case s of [] \<Rightarrow> (1, s)
      | c # cs \<Rightarrow> if c = CHR ''-'' then (- 1, cs) else if c = CHR ''+'' then (1, cs) else (1, s))"

definition exponent_text :: "string \<Rightarrow> int option" where
  "exponent_text s =
     (case s of [] \<Rightarrow> Some 0
      | c # cs \<Rightarrow>
          if c = CHR ''e'' \<or> c = CHR ''E'' then
            (case split_sign cs of (sg, ds) \<Rightarrow>
               if ds \<noteq> [] \<and> list_all is_digit ds then Some (sg * digits_value 0 ds) else None)
          else None)"

definition float_text :: "string \<Rightarrow> rat res" where
  "float_text s =
     (case split_sign (py_strip s) of (sg, t) \<Rightarrow>
      case split_digits t of (whole, u) \<Rightarrow>
      case (case u of c # cs \<Rightarrow> if c = CHR ''.'' then split_digits cs else ([], u) | [] \<Rightarrow> ([], [])) of
        (fraction, rest) \<Rightarrow>
      if whole = [] \<and> fraction = [] then Inl ValueError
      else (case exponent_text rest of
              None \<Rightarrow> Inl ValueError
            | Some e \<Rightarrow> Inr (flt (of_int (sg * digits_value 0 (whole @ fraction))
                              * 10 powi (e - int (length fraction))))))"

definition cell_float :: "cell \<Rightarrow> rat res" where
  "cell_float c =
     (case c of CNull \<Rightarrow> Inl TypeError | CInt n \<Rightarrow> Inr (flt (of_int n)) | CFloat x \<Rightarrow> Inr (flt x)
      | CText s \<Rightarrow> float_text s)"

text \<open>\<open>str(cell)\<close>. Of the text of a float only its decimal point matters here: a code that holds one
  has no exchange suffix after it, so it is no symbol.\<close>

definition int_text :: "int \<Rightarrow> string" where
  "int_text n = (if n < 0 then CHR ''-'' # dec_digits (- n) else dec_digits n)"

definition cell_text :: "cell \<Rightarrow> string" where
  "cell_text c =
     (case c of CNull \<Rightarrow> ''None'' | CInt n \<Rightarrow> int_text n
      | CFloat x \<Rightarrow> int_text (rfloor x) @ ''.0'' | CText s \<Rightarrow> s)"

definition zfill :: "nat \<Rightarrow> string \<Rightarrow> string" where
  "zfill n s =
     (case s of c # cs \<Rightarrow>
        if c = CHR ''-'' \<or> c = CHR ''+'' then c # replicate (n - length s) CHR ''0'' @ cs
        else replicate (n - length s) CHR ''0'' @ s
      | [] \<Rightarrow> replicate n CHR ''0'')"

definition cell_true :: "cell \<Rightarrow> bool" where
  "cell_true c = (case c of CNull \<Rightarrow> False | CInt n \<Rightarrow> n \<noteq> 0 | CFloat x \<Rightarrow> x \<noteq> 0 | CText s \<Rightarrow> s \<noteq> [])"

text \<open>\<open>==\<close> of two cells: numbers compare across their types.\<close>

fun cell_eq :: "cell \<Rightarrow> cell \<Rightarrow> bool" where
  "cell_eq (CInt m) (CFloat y) = (of_int m = y)"
| "cell_eq (CFloat x) (CInt n) = (x = of_int n)"
| "cell_eq a b = (a = b)"

section \<open>Symbols\<close>

definition EXCHANGE_SUFFIXES :: "string list" where
  "EXCHANGE_SUFFIXES = [''SH'', ''SZ'', ''BJ'']"

definition starts_any :: "string \<Rightarrow> string list \<Rightarrow> bool" where
  "starts_any s ps = list_ex (startswith s) ps"

definition code_exchange :: "string \<Rightarrow> string option" where
  "code_exchange text =
     (if starts_any text [''600'', ''601'', ''603'', ''605'', ''688'', ''689''] then Some ''SH''
      else if starts_any text [''000'', ''001'', ''002'', ''003'', ''300'', ''301'', ''302''] then Some ''SZ''
      else if starts_any text [''920'', ''43'', ''83'', ''87''] then Some ''BJ''
      else None)"

definition ashare_symbol :: "string \<Rightarrow> string \<Rightarrow> string option" where
  "ashare_symbol code exchange_hint =
     (let text0 = py_upper (py_strip code);
          hint0 = py_upper (py_strip exchange_hint);
          (hint1, text1) = (if length text0 = 8 \<and> take 2 text0 \<in> set EXCHANGE_SUFFIXES
                            then (take 2 text0, drop 2 text0) else (hint0, text0));
          (text2, dotted, suffix) = py_partition CHR ''.'' text1
      in if dotted \<and> suffix \<notin> set EXCHANGE_SUFFIXES then None
         else if \<not> (length text2 = 6 \<and> list_all is_digit text2) then None
         else (let hint2 = (if dotted then suffix else hint1) in
           case code_exchange text2 of
             None \<Rightarrow> None
           | Some exch \<Rightarrow>
               if hint2 \<in> set EXCHANGE_SUFFIXES \<and> hint2 \<noteq> exch then None
               else Some (text2 @ ''.'' @ exch)))"

section \<open>Clock of the first seal\<close>

definition seal_instant :: "rat \<Rightarrow> instant" where
  "seal_instant epoch = half_even (epoch * 1000000)"

definition clock_hour :: "instant \<Rightarrow> int" where "clock_hour t = local_clock t div us_hour"
definition clock_minute :: "instant \<Rightarrow> int" where "clock_minute t = local_clock t div us_minute mod 60"
definition clock_second :: "instant \<Rightarrow> int" where "clock_second t = local_clock t div us_second mod 60"

definition seal_minutes :: "rat \<Rightarrow> int" where
  "seal_minutes epoch =
     (let local = seal_instant epoch; minutes = clock_hour local * 60 + clock_minute local - 570
      in if minutes \<le> 0 then 0 else if 13 \<le> clock_hour local then minutes - 90 else minutes)"

definition seal_clock_text :: "rat \<Rightarrow> string" where
  "seal_clock_text epoch =
     (let local = seal_instant epoch
      in zero_pad 2 (clock_hour local) @ '':'' @ zero_pad 2 (clock_minute local) @ '':''
         @ zero_pad 2 (clock_second local))"

section \<open>Decoding the lists\<close>

record limit_bar =
  lb_limit_up :: "rat option"
  lb_open :: "rat option"
  lb_high :: "rat option"
  lb_low :: "rat option"
  lb_close :: "rat option"
  lb_pre_close :: "rat option"
  lb_amount :: "rat option"
  lb_prior_amounts :: "rat list"

definition bar_float :: "rat option \<Rightarrow> rat res" where
  "bar_float x = bindR (need TypeError x) (\<lambda>v. Inr (flt v))"

definition limit_up_price :: "string \<Rightarrow> limit_bar \<Rightarrow> rat res" where
  "limit_up_price code bar =
     (case lb_limit_up bar of
        Some stored \<Rightarrow>
          if stored \<noteq> 0 then Inr (flt stored)
          else bindR (bar_float (lb_pre_close bar)) (\<lambda>pre.
            Inr (round_digits 2 (fmul pre (flt (if starts_any code [''30'', ''68''] then 12 / 10 else 11 / 10)))))
      | None \<Rightarrow>
          bindR (bar_float (lb_pre_close bar)) (\<lambda>pre.
            Inr (round_digits 2 (fmul pre (flt (if starts_any code [''30'', ''68''] then 12 / 10 else 11 / 10))))))"

record limit_coverage =
  n_malformed :: nat
  n_excluded_code :: nat
  n_duplicate :: nat
  n_missing_bar :: nat
  n_limit_ratio :: nat
  n_not_at_limit :: nat

record decoded_row =
  d_symbol :: string
  d_name :: cell
  d_sector :: cell
  d_first_seal :: cell
  d_seal_money :: rat
  d_seal_max :: rat
  d_main_net :: rat
  d_turnover :: rat
  d_float_cap :: rat
  d_boards :: rat
  d_reopened :: rat
  d_bar :: limit_bar

record decode_state =
  s_coverage :: limit_coverage
  s_seen :: "string list"
  s_rows :: "decoded_row list"

type_synonym raw_row = "cell list option"

definition decode_cells :: "string \<Rightarrow> limit_bar \<Rightarrow> cell list \<Rightarrow> decoded_row res" where
  "decode_cells symbol bar row =
     bindR (cell_float (row ! 6)) (\<lambda>money.
     bindR (cell_float (row ! 7)) (\<lambda>mx.
     bindR (cell_float (row ! 8)) (\<lambda>net.
     bindR (cell_float (row ! 11)) (\<lambda>turn.
     bindR (cell_float (row ! 13)) (\<lambda>cap.
     bindR (cell_float (row ! 15)) (\<lambda>boards.
     bindR (cell_float (row ! 16)) (\<lambda>reopened.
       Inr \<lparr>d_symbol = symbol, d_name = row ! 1, d_sector = row ! 5, d_first_seal = row ! 4,
            d_seal_money = money, d_seal_max = mx, d_main_net = net, d_turnover = turn,
            d_float_cap = cap, d_boards = boards, d_reopened = reopened, d_bar = bar\<rparr>)))))))"

definition bump :: "((nat \<Rightarrow> nat) \<Rightarrow> limit_coverage \<Rightarrow> limit_coverage) \<Rightarrow> decode_state \<Rightarrow> decode_state" where
  "bump upd st = st\<lparr>s_coverage := upd Suc (s_coverage st)\<rparr>"

definition decode_row :: "(string \<Rightarrow> limit_bar option) \<Rightarrow> raw_row \<Rightarrow> decode_state \<Rightarrow> decode_state res" where
  "decode_row bars raw st =
     (case raw of
        None \<Rightarrow> Inr (bump n_malformed_update st)
      | Some row \<Rightarrow>
          if length row < 23 then Inr (bump n_malformed_update st)
          else let code = zfill 6 (cell_text (row ! 0)) in
            (case ashare_symbol code [] of
               None \<Rightarrow> Inr (bump n_excluded_code_update st)
             | Some symbol \<Rightarrow>
                 if drop (length symbol - 3) symbol = ''.BJ'' then Inr (bump n_excluded_code_update st)
                 else if symbol \<in> set (s_seen st) then Inr (bump n_duplicate_update st)
                 else let st1 = st\<lparr>s_seen := s_seen st @ [symbol]\<rparr> in
                   (case bars symbol of
                      None \<Rightarrow> Inr (bump n_missing_bar_update st1)
                    | Some bar \<Rightarrow>
                        bindR (limit_up_price code bar) (\<lambda>limit_up.
                        bindR (bar_float (lb_pre_close bar)) (\<lambda>pre.
                        bindR (fdiv limit_up pre) (\<lambda>ratio.
                          if round_digits 2 (fsub ratio 1) < flt (8 / 100)
                          then Inr (bump n_limit_ratio_update st1)
                          else bindR (bar_float (lb_close bar)) (\<lambda>c.
                            if c < fsub limit_up (flt (5 / 1000))
                            then Inr (bump n_not_at_limit_update st1)
                            else bindR (decode_cells symbol bar row) (\<lambda>d.
                              Inr (st1\<lparr>s_rows := s_rows st1 @ [d]\<rparr>)))))))))"

primrec decode_rows :: "(string \<Rightarrow> limit_bar option) \<Rightarrow> raw_row list \<Rightarrow> decode_state \<Rightarrow> decode_state res" where
  "decode_rows bars [] st = Inr st"
| "decode_rows bars (raw # rest) st = bindR (decode_row bars raw st) (decode_rows bars rest)"

definition LIST_KEYS :: "string list" where
  "LIST_KEYS = [''pid:1'', ''pid:2'', ''pid:3'', ''pid:4'', ''pid:5'']"

definition empty_decode :: decode_state where
  "empty_decode =
     \<lparr>s_coverage = \<lparr>n_malformed = 0, n_excluded_code = 0, n_duplicate = 0, n_missing_bar = 0,
                    n_limit_ratio = 0, n_not_at_limit = 0\<rparr>, s_seen = [], s_rows = []\<rparr>"

definition list_rows :: "(string \<Rightarrow> raw_row list option) \<Rightarrow> raw_row list" where
  "list_rows day_lists = concat (map (\<lambda>key. case day_lists key of None \<Rightarrow> [] | Some rows \<Rightarrow> rows) LIST_KEYS)"

definition decode_limit_rows :: "(string \<Rightarrow> raw_row list option) \<Rightarrow> (string \<Rightarrow> limit_bar option)
    \<Rightarrow> (decoded_row list \<times> limit_coverage) res" where
  "decode_limit_rows day_lists bars =
     bindR (decode_rows bars (list_rows day_lists) empty_decode) (\<lambda>st. Inr (s_rows st, s_coverage st))"

section \<open>Ranks\<close>

text \<open>\<open>_ranks\<close>: the loop over the groups of equal values of the sorted \<open>(position, value)\<close> pairs.
  \<open>index\<close> counts the pairs before the group; each group gets the mean of its one-based places.\<close>

function rank_groups :: "nat \<Rightarrow> nat \<Rightarrow> (nat \<times> rat) list \<Rightarrow> rat list \<Rightarrow> rat list" where
  "rank_groups size_all index [] ranks = ranks"
| "rank_groups size_all index ((p, v) # rest) ranks =
     (let group = (p, v) # takeWhile (\<lambda>item. snd item = v) rest;
          end_index = index + length group;
          rank = flt (of_nat (index + 1 + end_index) / 2);
          ranks1 = fold (\<lambda>item rs. rs[fst item := flt (rank / of_nat size_all)]) group ranks
      in rank_groups size_all end_index (dropWhile (\<lambda>item. snd item = v) rest) ranks1)"
  by pat_completeness auto
termination
  by (relation "measure (\<lambda>(size_all, index, xs, ranks). length xs)") (auto simp: le_imp_less_Suc length_dropWhile_le)

definition rank_values :: "rat list \<Rightarrow> rat list" where
  "rank_values values =
     rank_groups (length values) 0 (sort_key snd (enumerate 0 values)) (replicate (length values) 0)"

section \<open>The score of a day\<close>

text \<open>The fitted coefficients, as the floats their decimal literals denote.\<close>

definition COEFFICIENTS :: "(string \<times> rat) list" where
  "COEFFICIENTS =
     [(''rank_vr'', flt (13579072948992335 / 10 ^ 18)),
      (''rank_flow'', flt (- 11645549322296539 / 10 ^ 17)),
      (''rank_intraday'', flt (12705396492255722 / 10 ^ 17)),
      (''rank_gap'', flt (696963591815818 / 10 ^ 16)),
      (''rank_seal_ratio'', flt (- 19162589861558535 / 10 ^ 17)),
      (''rank_seal_minutes'', flt (- 11676472440931669 / 10 ^ 17)),
      (''opened_minus_day_mean'', flt (- 28410675174980395 / 10 ^ 18)),
      (''rank_boards'', flt (18757755167541718 / 10 ^ 17)),
      (''rank_float_cap'', flt (- 10006322974064638 / 10 ^ 17))]"

definition coefficient :: "string \<Rightarrow> rat" where
  "coefficient key = the (map_of COEFFICIENTS key)"

record risk_row =
  k_symbol :: string
  k_name :: cell
  k_sector :: cell
  k_vr :: rat
  k_gap :: rat
  k_intraday :: rat
  k_flow :: rat
  k_seal_ratio :: rat
  k_seal_minutes :: int
  k_first_seal :: string
  k_opened :: rat
  k_boards :: rat
  k_float_cap :: rat
  k_sealed_from_open :: bool
  k_risk :: rat
  k_risk_rank :: rat

text \<open>A candidate is its row with the score still to come (zero).\<close>

definition candidate :: "decoded_row \<Rightarrow> risk_row option res" where
  "candidate d =
     (let bar = d_bar d; prior = lb_prior_amounts bar in
      if length prior < 10 then Inr None
      else
        bindR (bar_float (lb_amount bar)) (\<lambda>turnover.
        let recent = last_slice 20 prior in
        bindR (fdiv (fsum (map flt recent)) (of_nat (length recent))) (\<lambda>usual.
        bindR (fdiv turnover usual) (\<lambda>vr.
        bindR (bar_float (lb_open bar)) (\<lambda>op.
        bindR (bar_float (lb_pre_close bar)) (\<lambda>pre.
        bindR (fdiv op pre) (\<lambda>gap.
        bindR (bar_float (lb_close bar)) (\<lambda>c.
        bindR (fdiv c op) (\<lambda>intra.
        bindR (fdiv (d_main_net d) (d_turnover d)) (\<lambda>flow.
        bindR (fdiv (d_seal_money d) (d_turnover d)) (\<lambda>seal_ratio.
        bindR (cell_float (d_first_seal d)) (\<lambda>epoch.
          Inr (Some \<lparr>k_symbol = d_symbol d, k_name = d_name d, k_sector = d_sector d, k_vr = vr,
            k_gap = fsub gap 1, k_intraday = fsub intra 1, k_flow = flow, k_seal_ratio = seal_ratio,
            k_seal_minutes = seal_minutes epoch, k_first_seal = seal_clock_text epoch,
            k_opened = d_reopened d, k_boards = d_boards d, k_float_cap = d_float_cap d,
            k_sealed_from_open = (seal_minutes epoch = 0), k_risk = 0, k_risk_rank = 0\<rparr>)))))))))))))"

definition centred_ranks :: "(risk_row \<Rightarrow> rat) \<Rightarrow> risk_row list \<Rightarrow> rat list" where
  "centred_ranks f items = map (\<lambda>r. fsub r (flt (1 / 2))) (rank_values (map f items))"

definition risk_score :: "risk_row list \<Rightarrow> rat \<Rightarrow> nat \<Rightarrow> rat" where
  "risk_score items opened_mean index =
     (let term = (\<lambda>key f. fmul (coefficient key) (centred_ranks f items ! index)) in
      fadd (fadd (fadd (fadd (fadd (fadd (fadd (fadd
        (term ''rank_vr'' k_vr)
        (term ''rank_flow'' k_flow))
        (term ''rank_intraday'' k_intraday))
        (term ''rank_gap'' k_gap))
        (term ''rank_seal_ratio'' k_seal_ratio))
        (term ''rank_seal_minutes'' (\<lambda>r. of_int (k_seal_minutes r))))
        (fmul (coefficient ''opened_minus_day_mean'') (fsub (k_opened (items ! index)) opened_mean)))
        (term ''rank_boards'' k_boards))
        (term ''rank_float_cap'' k_float_cap))"

record risk_day =
  y_rows :: "risk_row list"
  y_coverage :: limit_coverage
  y_insufficient_history :: nat
  y_ranks_reliable :: bool

definition score_candidates :: "risk_row list \<Rightarrow> risk_row list" where
  "score_candidates items =
     (let opened_mean = flt (fsum (map k_opened items) / of_nat (length items));
          scores = map (risk_score items opened_mean) [0..<length items];
          ranks = rank_values scores
      in map (\<lambda>i. (items ! i)\<lparr>k_risk := scores ! i, k_risk_rank := fmul (ranks ! i) 100\<rparr>)
           [0..<length items])"

definition score_day :: "(string \<Rightarrow> raw_row list option) \<Rightarrow> (string \<Rightarrow> limit_bar option) \<Rightarrow> risk_day res" where
  "score_day day_lists bars =
     bindR (decode_limit_rows day_lists bars) (\<lambda>(decoded, cov).
     bindR (mapR candidate decoded) (\<lambda>found.
       let items = List.map_filter id found in
       Inr \<lparr>y_rows = (if items = [] then [] else score_candidates items), y_coverage = cov,
            y_insufficient_history = length (filter (\<lambda>c. c = None) found),
            y_ranks_reliable = (items \<noteq> [] \<and> 20 \<le> length items)\<rparr>))"

section \<open>Is the score working\<close>

record fifth_summary =
  big_loss_rate :: rat
  mean_next_day_return :: rat

definition group_summary :: "rat list \<Rightarrow> fifth_summary res" where
  "group_summary returns =
     bindR (fdiv (of_nat (length (filter (\<lambda>v. v \<le> flt (- 5 / 100)) returns))) (of_nat (length returns))) (\<lambda>rate.
     bindR (fdiv (float_sum returns) (of_nat (length returns))) (\<lambda>m.
       Inr \<lparr>big_loss_rate = rate, mean_next_day_return = m\<rparr>))"

definition outcome_pairs :: "risk_row list \<Rightarrow> (string \<Rightarrow> rat option) \<Rightarrow> (risk_row \<times> rat) list" where
  "outcome_pairs rows next_day_returns =
     List.map_filter (\<lambda>row. map_option (\<lambda>v. (row, flt v)) (next_day_returns (k_symbol row))) rows"

definition fifth_comparison :: "risk_row list \<Rightarrow> (string \<Rightarrow> rat option) \<Rightarrow> (fifth_summary \<times> fifth_summary) option res" where
  "fifth_comparison rows next_day_returns =
     (let outcomes = outcome_pairs rows next_day_returns in
      if length outcomes < 20 then Inr None
      else (let sorted_outcomes = sort_key (\<lambda>item. k_risk (fst item)) outcomes;
                fifth = length outcomes div 5
            in bindR (group_summary (map snd (take fifth sorted_outcomes))) (\<lambda>low.
               bindR (group_summary (map snd (last_slice (int fifth) sorted_outcomes))) (\<lambda>high.
                 Inr (Some (low, high))))))"

record working_status =
  w_sessions :: nat
  w_lowest :: "rat option"
  w_highest :: "rat option"
  w_difference_points :: "rat option"
  w_t_value :: "rat option"
  w_status :: string

definition mean_or_none :: "rat list \<Rightarrow> rat option" where
  "mean_or_none xs = (case mean_float xs of Inl _ \<Rightarrow> None | Inr m \<Rightarrow> Some m)"

text \<open>\<open>n ** 0.5\<close> of a small integer is taken to be the correctly rounded square root.\<close>

definition daily_t_value :: "rat list \<Rightarrow> rat option" where
  "daily_t_value differences =
     (case (mean_float differences, stdev_float differences) of
        (Inr m, Inr spread) \<Rightarrow>
          if spread = 0 then None
          else Some (flt (m / flt (spread / float_sqrt (of_nat (length differences)))))
      | _ \<Rightarrow> None)"

type_synonym day_summary = "fifth_summary \<times> fifth_summary"

definition recent_status :: "day_summary list \<Rightarrow> int \<Rightarrow> working_status" where
  "recent_status summaries most =
     (let recent = last_slice most summaries;
          lows = map (\<lambda>s. big_loss_rate (fst s)) recent;
          highs = map (\<lambda>s. big_loss_rate (snd s)) recent;
          differences = map (\<lambda>s. fsub (big_loss_rate (snd s)) (big_loss_rate (fst s))) recent;
          lowest = mean_or_none lows;
          highest = mean_or_none highs;
          points = (case (lowest, highest) of (Some l, Some h) \<Rightarrow> Some (fmul (fsub h l) 100) | _ \<Rightarrow> None);
          t = (if 2 \<le> length differences then daily_t_value differences else None)
      in \<lparr>w_sessions = length recent, w_lowest = lowest, w_highest = highest,
          w_difference_points = points, w_t_value = t,
          w_status =
            (if length recent < 60 then ''insufficient_history''
             else case (points, t) of
               (Some p, Some tv) \<Rightarrow> if 3 \<le> p \<and> 2 \<le> tv then ''working'' else ''not_working_recently''
             | _ \<Rightarrow> ''not_working_recently'')\<rparr>)"

definition ROUND_TRIP_COSTS :: "(string \<times> rat) list" where
  "ROUND_TRIP_COSTS =
     [(''commission_5bp_slippage_10bp'', flt (15 / 10000)), (''commission_5bp_slippage_20bp'', flt (25 / 10000))]"

record open_to_close =
  oc_status :: working_status
  oc_means :: "rat option \<times> rat option"
  oc_net :: "(string \<times> rat option \<times> rat option) list"

definition open_to_close_status :: "day_summary list \<Rightarrow> int \<Rightarrow> open_to_close" where
  "open_to_close_status summaries most =
     (let recent = last_slice most summaries;
          low = mean_or_none (map (\<lambda>s. mean_next_day_return (fst s)) recent);
          high = mean_or_none (map (\<lambda>s. mean_next_day_return (snd s)) recent)
      in \<lparr>oc_status = recent_status summaries most, oc_means = (low, high),
          oc_net = map (\<lambda>(name, cost). (name, map_option (\<lambda>v. fsub v cost) low, map_option (\<lambda>v. fsub v cost) high))
                     ROUND_TRIP_COSTS\<rparr>)"


section \<open>Every list row is accounted for\<close>

definition coverage_total :: "limit_coverage \<Rightarrow> nat" where
  "coverage_total c = n_malformed c + n_excluded_code c + n_duplicate c + n_missing_bar c
     + n_limit_ratio c + n_not_at_limit c"

text \<open>What holds between two list rows: the decoded rows have different symbols, each seen before,
  and none is on the Beijing exchange.\<close>

definition decode_ok :: "decode_state \<Rightarrow> bool" where
  "decode_ok st =
     (distinct (map d_symbol (s_rows st))
      \<and> (\<forall>d \<in> set (s_rows st). d_symbol d \<in> set (s_seen st)
           \<and> drop (length (d_symbol d) - 3) (d_symbol d) \<noteq> ''.BJ''))"

lemma decode_cells_symbol: "decode_cells symbol bar row = Inr d \<Longrightarrow> d_symbol d = symbol \<and> d_bar d = bar"
  by (auto simp: decode_cells_def)

lemma decode_row_step:
  assumes "decode_row bars raw st = Inr st'" and "decode_ok st"
  shows "decode_ok st' \<and>
    coverage_total (s_coverage st') + length (s_rows st') = Suc (coverage_total (s_coverage st) + length (s_rows st))"
proof (cases raw)
  case None
  then show ?thesis using assms by (auto simp: decode_row_def bump_def coverage_total_def decode_ok_def)
next
  case (Some row)
  show ?thesis
  proof (cases "length row < 23")
    case True
    then show ?thesis using assms Some by (auto simp: decode_row_def bump_def coverage_total_def decode_ok_def)
  next
    case long: False
    show ?thesis
    proof (cases "ashare_symbol (zfill 6 (cell_text (row ! 0))) []")
      case None
      then show ?thesis using assms Some long
        by (auto simp: decode_row_def bump_def coverage_total_def decode_ok_def)
    next
      case symbol: (Some symbol)
      consider "drop (length symbol - 3) symbol = ''.BJ''" | "symbol \<in> set (s_seen st)" | "bars symbol = None"
        | bar where "drop (length symbol - 3) symbol \<noteq> ''.BJ''" "symbol \<notin> set (s_seen st)" "bars symbol = Some bar"
        by blast
      then show ?thesis
      proof cases
        case 4
        then show ?thesis using assms Some long symbol
          by (auto simp: decode_row_def bump_def coverage_total_def decode_ok_def Let_def
                split: if_splits dest!: decode_cells_symbol)
      qed (use assms Some long symbol in
        \<open>auto simp: decode_row_def bump_def coverage_total_def decode_ok_def Let_def split: if_splits\<close>)
    qed
  qed
qed

lemma decode_rows_steps:
  "decode_rows bars raws st = Inr st' \<Longrightarrow> decode_ok st \<Longrightarrow>
   decode_ok st' \<and> coverage_total (s_coverage st') + length (s_rows st')
     = length raws + (coverage_total (s_coverage st) + length (s_rows st))"
  by (induction raws arbitrary: st) (auto dest!: decode_row_step)

lemma decode_limit_rows_accounts:
  assumes "decode_limit_rows day_lists bars = Inr (rows, coverage)"
  shows "coverage_total coverage + length rows = length (list_rows day_lists)"
    and "distinct (map d_symbol rows)"
    and "\<forall>d \<in> set rows. drop (length (d_symbol d) - 3) (d_symbol d) \<noteq> ''.BJ''"
proof -
  obtain st where st: "decode_rows bars (list_rows day_lists) empty_decode = Inr st"
    "rows = s_rows st" "coverage = s_coverage st"
    using assms by (auto simp: decode_limit_rows_def)
  have "decode_ok empty_decode" by (simp add: decode_ok_def empty_decode_def)
  from decode_rows_steps [OF st(1) this]
  have ok: "decode_ok st" "coverage_total (s_coverage st) + length (s_rows st) = length (list_rows day_lists)"
    by (simp_all add: empty_decode_def coverage_total_def)
  show "coverage_total coverage + length rows = length (list_rows day_lists)"
    and "distinct (map d_symbol rows)"
    and "\<forall>d \<in> set rows. drop (length (d_symbol d) - 3) (d_symbol d) \<noteq> ''.BJ''"
    using ok by (simp_all add: st(2,3) decode_ok_def)
qed

section \<open>Ranks against their definition\<close>

text \<open>The place of a value among all values: the mean of the places its equals take.\<close>

definition count_if :: "('a \<Rightarrow> bool) \<Rightarrow> 'a list \<Rightarrow> nat" where
  "count_if p xs = length (filter p xs)"

definition average_rank :: "rat list \<Rightarrow> rat \<Rightarrow> rat" where
  "average_rank values v =
     (let below = count_if (\<lambda>x. x < v) values; equal_to = count_if (\<lambda>x. x = v) values
      in flt (flt (of_nat (below + 1 + (below + equal_to)) / 2) / of_nat (length values)))"

lemma takeWhile_group: "sorted (map snd ((p, v) # rest))
    \<Longrightarrow> takeWhile (\<lambda>item. snd item = v) rest = filter (\<lambda>item. snd item = v) rest
      \<and> dropWhile (\<lambda>item. snd item = v) rest = filter (\<lambda>item. v < snd item) rest"
proof (induction rest)
  case (Cons x rest)
  show ?case
  proof (cases "snd x = v")
    case True
    with Cons show ?thesis by simp
  next
    case False
    with Cons.prems have gt: "v < snd x" by (simp add: order_less_le)
    then have above: "\<forall>item \<in> set (x # rest). v < snd item"
      using Cons.prems by (auto intro: order_less_le_trans)
    then have "filter (\<lambda>item. v < snd item) (x # rest) = x # rest" by simp
    moreover have "filter (\<lambda>item. snd item = v) (x # rest) = []"
      using above by (auto simp: filter_empty_conv)
    ultimately show ?thesis using False by simp
  qed
qed simp

lemma fold_update_nth: "i < length rs \<Longrightarrow>
    fold (\<lambda>item rs. rs[fst item := c]) g rs ! i = (if i \<in> fst ` set g then c else rs ! i)"
  and fold_update_length: "length (fold (\<lambda>item rs. rs[fst item := c]) g rs) = length rs"
  by (induction g arbitrary: rs) (auto simp: nth_list_update)

lemma rank_groups_nth:
  "sorted (map snd xs) \<Longrightarrow> distinct (map fst xs) \<Longrightarrow> i < length rs \<Longrightarrow>
   (\<forall>v. (i, v) \<in> set xs \<longrightarrow>
      rank_groups n idx xs rs ! i =
        flt (flt (of_nat (idx + count_if (\<lambda>q. snd q < v) xs + 1
                  + (idx + count_if (\<lambda>q. snd q < v) xs + count_if (\<lambda>q. snd q = v) xs)) / 2) / of_nat n))
   \<and> (i \<notin> fst ` set xs \<longrightarrow> rank_groups n idx xs rs ! i = rs ! i)"
proof (induction n idx xs rs rule: rank_groups.induct)
  case (2 n idx p v rest rs)
  define g where "g = (p, v) # takeWhile (\<lambda>item. snd item = v) rest"
  define d where "d = dropWhile (\<lambda>item. snd item = v) rest"
  define c where "c = flt (flt (of_nat (idx + 1 + (idx + length g)) / 2) / of_nat n)"
  define rs1 where "rs1 = fold (\<lambda>item rs. rs[fst item := c]) g rs"
  have split: "(p, v) # rest = g @ d" by (simp add: g_def d_def)
  have d_filter: "d = filter (\<lambda>item. v < snd item) rest"
    and g_filter: "g = filter (\<lambda>item. snd item = v) ((p, v) # rest)"
    using takeWhile_group [OF "2.prems"(1)] by (simp_all add: d_def g_def)
  have g_v: "\<forall>q \<in> set g. snd q = v" and d_v: "\<forall>q \<in> set d. v < snd q"
    by (auto simp: g_filter d_filter)
  have step: "rank_groups n idx ((p, v) # rest) rs = rank_groups n (idx + length g) d rs1"
    by (simp add: g_def [symmetric] d_def [symmetric] rs1_def c_def Let_def)
  have "sorted (map snd d)" "distinct (map fst d)"
    using "2.prems"(1,2) unfolding split by (simp_all add: sorted_append)
  then have IH: "(\<forall>w. (i, w) \<in> set d \<longrightarrow>
      rank_groups n (idx + length g) d rs1 ! i =
        flt (flt (of_nat (idx + length g + count_if (\<lambda>q. snd q < w) d + 1
              + (idx + length g + count_if (\<lambda>q. snd q < w) d + count_if (\<lambda>q. snd q = w) d)) / 2) / of_nat n))
   \<and> (i \<notin> fst ` set d \<longrightarrow> rank_groups n (idx + length g) d rs1 ! i = rs1 ! i)"
    using "2.IH" [OF g_def refl refl] "2.prems"(3)
    by (simp add: g_def [symmetric] d_def [symmetric] rs1_def c_def fold_update_length)
  have disj: "fst ` set g \<inter> fst ` set d = {}" using "2.prems"(2) unfolding split by simp
  have count_v: "count_if (\<lambda>q. snd q < v) (g @ d) = 0" "count_if (\<lambda>q. snd q = v) (g @ d) = length g"
    using g_v d_v by (auto simp: count_if_def filter_empty_conv)
  have count_w: "count_if (\<lambda>q. snd q < w) (g @ d) = length g + count_if (\<lambda>q. snd q < w) d"
      "count_if (\<lambda>q. snd q = w) (g @ d) = count_if (\<lambda>q. snd q = w) d" if "v < w" for w
    using g_v that by (auto simp: count_if_def filter_empty_conv)
  show ?case unfolding step unfolding split
  proof (intro conjI allI impI)
    fix w assume iw: "(i, w) \<in> set (g @ d)"
    show "rank_groups n (idx + length g) d rs1 ! i =
        flt (flt (of_nat (idx + count_if (\<lambda>q. snd q < w) (g @ d) + 1
                  + (idx + count_if (\<lambda>q. snd q < w) (g @ d) + count_if (\<lambda>q. snd q = w) (g @ d))) / 2) / of_nat n)"
    proof (cases "(i, w) \<in> set g")
      case True
      then have "w = v" "i \<in> fst ` set g" using g_v by force+
      then have "rank_groups n (idx + length g) d rs1 ! i = c"
        using IH disj "2.prems"(3) by (auto simp: rs1_def fold_update_nth)
      then show ?thesis using \<open>w = v\<close> by (simp add: count_v c_def add.commute add.left_commute)
    next
      case False
      with iw have iw: "(i, w) \<in> set d" by simp
      then have "v < w" using d_v by force
      then show ?thesis using IH iw by (simp add: count_w add.assoc)
    qed
  next
    assume "i \<notin> fst ` set (g @ d)"
    then show "rank_groups n (idx + length g) d rs1 ! i = rs ! i"
      using IH "2.prems"(3) by (simp add: rs1_def fold_update_nth image_Un)
  qed
qed simp

lemma count_sorted_enumerate: "count_if (\<lambda>q. P (snd q)) (sort_key snd (enumerate 0 values)) = count_if P values"
proof -
  have "size (filter_mset (\<lambda>q. P (snd q)) (mset (sort_key snd (enumerate 0 values))))
      = size (filter_mset (\<lambda>q. P (snd q)) (mset (enumerate 0 values)))"
    by simp
  then have "length (filter (\<lambda>q. P (snd q)) (sort_key snd (enumerate 0 values)))
      = length (filter (\<lambda>q. P (snd q)) (enumerate 0 values))"
    by (simp only: mset_filter [symmetric] size_mset)
  also have "\<dots> = length (filter P (map snd (enumerate 0 values)))"
    by (simp only: filter_map length_map comp_def)
  finally show ?thesis by (simp add: count_if_def)
qed

lemma rank_groups_length: "length (rank_groups n idx xs rs) = length rs"
  by (induction n idx xs rs rule: rank_groups.induct) (simp_all add: Let_def fold_update_length)

lemma length_rank_values [simp]: "length (rank_values values) = length values"
  by (simp add: rank_values_def rank_groups_length)

lemma rank_values_nth: "i < length values \<Longrightarrow> rank_values values ! i = average_rank values (values ! i)"
proof -
  assume i: "i < length values"
  let ?xs = "sort_key snd (enumerate 0 values)"
  have "(i, values ! i) \<in> set ?xs" using i by (force simp: in_set_enumerate_eq)
  moreover have "distinct (map fst ?xs)"
  proof -
    have "mset (map fst ?xs) = mset (map fst (enumerate 0 values))" by (simp only: mset_map mset_sort)
    then show ?thesis by (metis distinct_enumerate mset_eq_imp_distinct_iff map_fst_enumerate distinct_upt)
  qed
  ultimately show ?thesis
    using rank_groups_nth [of ?xs i "replicate (length values) 0" "length values" 0] i
      count_sorted_enumerate [of "\<lambda>x. x < values ! i" "values"] count_sorted_enumerate [of "\<lambda>x. x = values ! i" "values"]
    by (simp add: rank_values_def average_rank_def)
qed

text \<open>
  The rank loop computes the average rank: the entry of each value is the mean of the
  one-based places the equal values take in the sorted order, divided by the number of values.
\<close>

theorem rank_values_average:
  "rank_values values = map (average_rank values) values"
  by (rule nth_equalityI) (simp_all add: rank_values_nth)

end
