(* ===== verification/TacticConditions.thy ===== *)
theory TacticConditions
  imports LimitUpRisk "HOL-Library.Char_ord" "HOL-Library.List_Lexorder" "HOL-Library.Product_Lexorder"
begin

text \<open>
  \<open>quant-service/app/tactic_conditions.py\<close>: the history features of a limit-up stock, the rows of
  the two readings of a day (after the close, at the opening auction), the registered conditions
  and their three-valued evaluation (\<open>True\<close>, \<open>False\<close>, unknown), and the roles of a stock in the
  ladder of its theme. A row is one record for both readings: a key the code's dict does not hold
  is \<^const>\<open>None\<close>, which is what its \<open>row.get(key)\<close> gives. Names, sources and history texts of
  the conditions are display texts and are left out. The weight \<open>math.pow(0.5, age / 20.0)\<close> of the
  C library is the argument \<open>decay\<close> of the features, a function of the age.
\<close>

section \<open>History features\<close>

record history_bar =
  hb_close :: "rat option"
  hb_high :: "rat option"
  hb_amount :: "rat option"
  hb_volume :: "rat option"
  hb_adj_factor :: "rat option"

record history_values =
  hf_basis :: string
  hf_vr :: "rat option"
  hf_turnover_vs_max250 :: "rat option"
  hf_runup_20 :: "rat option"
  hf_close_vs_high60 :: "rat option"
  hf_cost_below :: "rat option"
  hf_cost_above :: "rat option"

definition adjusted_price :: "history_bar \<Rightarrow> (history_bar \<Rightarrow> rat option) \<Rightarrow> bool \<Rightarrow> rat res" where
  "adjusted_price row fld adjusted =
     bindR (bar_float (fld row)) (\<lambda>v.
       if adjusted then bindR (bar_float (hb_adj_factor row)) (\<lambda>a. Inr (fmul v a)) else Inr v)"

definition amount_cny :: "history_bar \<Rightarrow> rat res" where
  "amount_cny row = bindR (bar_float (hb_amount row)) (\<lambda>a. Inr (fmul a 1000))"

definition factor_usable :: "history_bar \<Rightarrow> bool" where
  "factor_usable row = (case hb_adj_factor row of None \<Rightarrow> False | Some a \<Rightarrow> 0 < flt a)"

definition volume_ratio :: "history_bar \<Rightarrow> history_bar list \<Rightarrow> rat option res" where
  "volume_ratio current recent =
     (if 10 \<le> length recent
      then bindR (amount_cny current) (\<lambda>today.
           bindR (mapR amount_cny recent) (\<lambda>amounts.
           bindR (fdiv (float_sum amounts) (of_nat (length recent))) (\<lambda>usual.
           bindR (fdiv today usual) (\<lambda>q. Inr (Some q)))))
      else Inr None)"

definition price_change :: "rat \<Rightarrow> rat \<Rightarrow> rat option res" where
  "price_change price base = bindR (fdiv price base) (\<lambda>q. Inr (Some (fsub q 1)))"

text \<open>The cost sample of one earlier bar: its decayed volume and average price; an empty volume
  gives none. Ages count back from the last bar, from 1.\<close>

definition cost_sample :: "(nat \<Rightarrow> rat) \<Rightarrow> bool \<Rightarrow> nat \<Rightarrow> history_bar \<Rightarrow> (rat \<times> rat) option res" where
  "cost_sample decay adjusted age row =
     bindR (bar_float (hb_volume row)) (\<lambda>volume.
       if volume \<le> 0 then Inr None
       else bindR (amount_cny row) (\<lambda>amount.
            bindR (fdiv amount (fmul volume 100)) (\<lambda>average.
              if adjusted
              then bindR (bar_float (hb_adj_factor row)) (\<lambda>a. Inr (Some (fmul volume (decay age), fmul average a)))
              else Inr (Some (fmul volume (decay age), average)))))"

definition cost_samples :: "(nat \<Rightarrow> rat) \<Rightarrow> bool \<Rightarrow> history_bar list \<Rightarrow> (rat \<times> rat) list res" where
  "cost_samples decay adjusted previous =
     bindR (mapR (\<lambda>(age, row). cost_sample decay adjusted age row) (enumerate 1 (rev (last_slice 120 previous))))
       (\<lambda>found. Inr (List.map_filter id found))"

definition cost_share :: "(rat \<Rightarrow> bool) \<Rightarrow> (rat \<times> rat) list \<Rightarrow> rat \<Rightarrow> rat option res" where
  "cost_share within_band samples size_all =
     bindR (fdiv (float_sum (map fst (filter (\<lambda>s. within_band (snd s)) samples))) size_all) (\<lambda>q. Inr (Some q))"

definition history_features :: "(nat \<Rightarrow> rat) \<Rightarrow> history_bar list \<Rightarrow> history_values res" where
  "history_features decay window =
     (if window = [] then Inl IndexError
      else let current = last window; previous = butlast window;
               adjusted = list_all factor_usable window in
        bindR (volume_ratio current (last_slice 20 previous)) (\<lambda>vr.
        bindR (if length previous < 60 then Inr None
               else bindR (mapR amount_cny (last_slice 250 previous)) (\<lambda>amounts.
                    bindR (float_max amounts) (\<lambda>largest.
                    bindR (amount_cny current) (\<lambda>today.
                    bindR (fdiv today largest) (\<lambda>q. Inr (Some q)))))) (\<lambda>vs_max.
        bindR (if length window < 21 then Inr None
               else bindR (adjusted_price current hb_close adjusted) (\<lambda>c.
                    bindR (adjusted_price (window ! (length window - 21)) hb_close adjusted) (\<lambda>earlier.
                      price_change c earlier))) (\<lambda>runup.
        bindR (if length previous < 60 then Inr None
               else bindR (mapR (\<lambda>row. adjusted_price row hb_high adjusted) (last_slice 60 previous)) (\<lambda>highs.
                    bindR (float_max highs) (\<lambda>highest.
                    bindR (adjusted_price current hb_close adjusted) (\<lambda>c. price_change c highest)))) (\<lambda>vs_high.
        bindR (cost_samples decay adjusted previous) (\<lambda>samples.
        bindR (if length samples < 20 then Inr (None, None)
               else bindR (adjusted_price current hb_close adjusted) (\<lambda>c.
                    let size_all = float_sum (map fst samples) in
                    bindR (cost_share (\<lambda>p. p < c) samples size_all) (\<lambda>below_close.
                    bindR (cost_share (\<lambda>p. c \<le> p \<and> p < fmul c (flt (130 / 100))) samples size_all) (\<lambda>overhead.
                      Inr (below_close, overhead))))) (\<lambda>(cost_below, cost_above).
          Inr \<lparr>hf_basis = (if adjusted then ''adjusted'' else ''unadjusted_missing_adj_factor''),
               hf_vr = vr, hf_turnover_vs_max250 = vs_max, hf_runup_20 = runup,
               hf_close_vs_high60 = vs_high, hf_cost_below = cost_below, hf_cost_above = cost_above\<rparr>)))))))"

section \<open>Rows\<close>

datatype seal_mark = SealText string | SealEpoch rat

record prev_row =
  pv_turnover :: "rat option"
  pv_complete :: "bool option"
  pv_flags :: "string list"
  pv_unknown :: "string list"

record trial_row =
  t_symbol :: string
  t_sector :: cell
  t_boards :: "rat option"
  t_board_bucket :: "string option"
  t_first_seal :: "seal_mark option"
  t_seal_money :: "rat option"
  t_main_net :: "rat option"
  t_turnover :: "rat option"
  t_reopened :: "rat option"
  t_sealed_from_open :: "bool option"
  t_one_word :: "bool option"
  t_vr :: "rat option"
  t_gap :: "rat option"
  t_risk_rank :: "rat option"
  t_theme_count :: "nat option"
  t_turnover_vs_max250 :: "rat option"
  t_runup_20 :: "rat option"
  t_close_vs_high60 :: "rat option"
  t_cost_below :: "rat option"
  t_cost_above :: "rat option"
  t_opens_at_limit :: "bool option"
  t_gap_bucket :: "string option"
  t_amount :: "rat option"
  t_auction_amount_rank :: "nat option"
  t_prev :: "prev_row option"
  t_flags :: "string list"
  t_unknown :: "string list"

definition board_bucket :: "rat \<Rightarrow> string" where
  "board_bucket boards = (if boards = 1 then ''1'' else if boards = 2 then ''2'' else ''3+'')"

definition build_trial_row :: "decoded_row \<Rightarrow> history_values \<Rightarrow> rat option \<Rightarrow> decoded_row list \<Rightarrow> trial_row res" where
  "build_trial_row decoded features risk_rank decoded_rows =
     (let bar = d_bar decoded; sector = d_sector decoded in
      bindR (cell_float (d_first_seal decoded)) (\<lambda>epoch.
      bindR (bar_float (lb_high bar)) (\<lambda>high.
      bindR (bar_float (lb_low bar)) (\<lambda>low.
      bindR (bar_float (lb_open bar)) (\<lambda>op.
      bindR (bar_float (lb_pre_close bar)) (\<lambda>pre.
      bindR (fdiv op pre) (\<lambda>gap.
        Inr \<lparr>t_symbol = d_symbol decoded, t_sector = sector, t_boards = Some (d_boards decoded),
             t_board_bucket = Some (board_bucket (flt (d_boards decoded))),
             t_first_seal = Some (SealText (seal_clock_text epoch)),
             t_seal_money = Some (d_seal_money decoded), t_main_net = Some (d_main_net decoded),
             t_turnover = Some (d_turnover decoded), t_reopened = Some (d_reopened decoded),
             t_sealed_from_open = Some (seal_minutes epoch = 0), t_one_word = Some (high = low),
             t_vr = hf_vr features, t_gap = Some (fsub gap 1), t_risk_rank = risk_rank,
             t_theme_count = (if \<not> cell_true sector then None
               else Some (count_if (\<lambda>d. cell_eq (d_sector d) sector) decoded_rows)),
             t_turnover_vs_max250 = hf_turnover_vs_max250 features, t_runup_20 = hf_runup_20 features,
             t_close_vs_high60 = hf_close_vs_high60 features, t_cost_below = hf_cost_below features,
             t_cost_above = hf_cost_above features, t_opens_at_limit = None, t_gap_bucket = None,
             t_amount = None, t_auction_amount_rank = None, t_prev = None, t_flags = [], t_unknown = []\<rparr>)))))))"

record day_context =
  dc_limit_up_count :: "nat option"
  dc_boards_3plus_count :: "nat option"
  dc_market_turnover :: "rat option"
  dc_market_turnover_median60 :: "rat option"
  dc_prev_top_board_sealed_again :: "bool option"

definition row_boards :: "trial_row \<Rightarrow> rat res" where
  "row_boards row = bar_float (t_boards row)"

definition build_day_context :: "trial_row list \<Rightarrow> rat option \<Rightarrow> rat option \<Rightarrow> bool option \<Rightarrow> day_context res" where
  "build_day_context rows market_turnover market_turnover_median60 prev_top_board_sealed_again =
     bindR (mapR row_boards rows) (\<lambda>boards.
       Inr \<lparr>dc_limit_up_count = Some (length rows),
            dc_boards_3plus_count = Some (count_if (\<lambda>b. 3 \<le> b) boards),
            dc_market_turnover = market_turnover, dc_market_turnover_median60 = market_turnover_median60,
            dc_prev_top_board_sealed_again = prev_top_board_sealed_again\<rparr>)"

record desk_row =
  ds_symbol :: string
  ds_gap :: "rat option"
  ds_opens_at_limit :: "bool option"
  ds_bucket :: "string option"
  ds_risk_rank :: "rat option"
  ds_boards :: "rat option"
  ds_sealed_from_open :: "bool option"
  ds_amount :: "rat option"

definition amount_ranked :: "desk_row list \<Rightarrow> desk_row list" where
  "amount_ranked pool =
     sort_key (\<lambda>item. (- flt (the (ds_amount item)), ds_symbol item)) (filter (\<lambda>item. ds_amount item \<noteq> None) pool)"

definition build_auction_row :: "desk_row \<Rightarrow> desk_row list \<Rightarrow> prev_row option \<Rightarrow> trial_row" where
  "build_auction_row row pool previous_close =
     (let ranked = amount_ranked pool;
          rank = map_option fst (py_next (\<lambda>(i, item). ds_symbol item = ds_symbol row) (enumerate 1 ranked))
      in \<lparr>t_symbol = ds_symbol row, t_sector = CNull, t_boards = ds_boards row,
          t_board_bucket = map_option (\<lambda>b. board_bucket (flt b)) (ds_boards row), t_first_seal = None,
          t_seal_money = None, t_main_net = None, t_turnover = None, t_reopened = None,
          t_sealed_from_open = ds_sealed_from_open row, t_one_word = None, t_vr = None,
          t_gap = ds_gap row, t_risk_rank = ds_risk_rank row, t_theme_count = None,
          t_turnover_vs_max250 = None, t_runup_20 = None, t_close_vs_high60 = None, t_cost_below = None,
          t_cost_above = None, t_opens_at_limit = ds_opens_at_limit row, t_gap_bucket = ds_bucket row,
          t_amount = ds_amount row,
          t_auction_amount_rank = (if ds_amount row = None then None else rank),
          t_prev = previous_close, t_flags = [], t_unknown = []\<rparr>)"


section \<open>Conditions\<close>

text \<open>What a stock condition reads: the row, and the values derived from the other rows under keys that
  start with an underscore.\<close>

record evidence =
  ev_row :: trial_row
  ev_derived :: "string \<Rightarrow> bool option"

datatype condition_test =
    StockTest "evidence \<Rightarrow> bool option res"
  | DayTest "day_context \<Rightarrow> bool option"

record condition =
  cd_key :: string
  cd_slot :: string
  cd_level :: string
  cd_test :: condition_test
  cd_claim :: int
  cd_claim_outcome :: string
  cd_status :: string

definition compare_value :: "rat option \<Rightarrow> (rat \<Rightarrow> bool) \<Rightarrow> bool option" where
  "compare_value x predicate = map_option (\<lambda>v. predicate (flt v)) x"

definition bool_field :: "bool option \<Rightarrow> bool \<Rightarrow> bool option" where
  "bool_field x expected = map_option (\<lambda>v. v = expected) x"

text \<open>\<open>"HH:MM:SS".split(":")\<close> must give three parts.\<close>

definition seal_seconds :: "seal_mark \<Rightarrow> rat res" where
  "seal_seconds m =
     (case m of
        SealEpoch epoch \<Rightarrow>
          let local = seal_instant (flt epoch)
          in Inr (of_int (clock_hour local * 3600 + clock_minute local * 60 + clock_second local))
      | SealText s \<Rightarrow>
          (case py_partition CHR '':'' s of (h, found1, rest) \<Rightarrow>
           case py_partition CHR '':'' rest of (mi, found2, sec) \<Rightarrow>
             if \<not> found1 \<or> \<not> found2 \<or> CHR '':'' \<in> set sec then Inl ValueError
             else bindR (float_text h) (\<lambda>hours.
                  bindR (float_text mi) (\<lambda>minutes.
                  bindR (float_text sec) (\<lambda>seconds.
                    Inr (fadd (fadd (fmul hours 3600) (fmul minutes 60)) seconds))))))"

definition seal_of :: "trial_row \<Rightarrow> rat option res" where
  "seal_of row =
     (case t_first_seal row of None \<Rightarrow> Inr None | Some m \<Rightarrow> bindR (seal_seconds m) (\<lambda>v. Inr (Some v)))"

definition seal_before :: "trial_row \<Rightarrow> int \<Rightarrow> int \<Rightarrow> bool option res" where
  "seal_before row h m =
     bindR (seal_of row) (\<lambda>seal. Inr (map_option (\<lambda>v. v < of_int (h * 3600 + m * 60)) seal))"

definition seal_at_or_after :: "trial_row \<Rightarrow> int \<Rightarrow> int \<Rightarrow> bool option res" where
  "seal_at_or_after row h m =
     bindR (seal_of row) (\<lambda>seal. Inr (map_option (\<lambda>v. of_int (h * 3600 + m * 60) \<le> v) seal))"

definition seal_early :: "trial_row \<Rightarrow> bool option res" where
  "seal_early row =
     bindR (seal_before row 10 0) (\<lambda>early.
       Inr (case (early, t_sealed_from_open row) of
              (Some e, Some s) \<Rightarrow> Some (e \<and> \<not> s)
            | _ \<Rightarrow> None))"

definition condition_of :: "string \<Rightarrow> string \<Rightarrow> string \<Rightarrow> condition_test \<Rightarrow> int \<Rightarrow> string \<Rightarrow> condition" where
  "condition_of key slot level test claim status =
     \<lparr>cd_key = key, cd_slot = slot, cd_level = level, cd_test = test, cd_claim = claim,
      cd_claim_outcome = ''held:close'', cd_status = status\<rparr>"

definition row_test :: "(trial_row \<Rightarrow> rat option) \<Rightarrow> (rat \<Rightarrow> bool) \<Rightarrow> condition_test" where
  "row_test fld predicate = StockTest (\<lambda>ev. Inr (compare_value (fld (ev_row ev)) predicate))"

definition count_test :: "(trial_row \<Rightarrow> nat option) \<Rightarrow> (rat \<Rightarrow> bool) \<Rightarrow> condition_test" where
  "count_test fld predicate = row_test (\<lambda>row. map_option of_nat (fld row)) predicate"

definition derived_test :: "string \<Rightarrow> condition_test" where
  "derived_test key = StockTest (\<lambda>ev. Inr (ev_derived ev key))"

definition flag_test :: "(trial_row \<Rightarrow> bool option) \<Rightarrow> bool \<Rightarrow> condition_test" where
  "flag_test fld expected = StockTest (\<lambda>ev. Inr (bool_field (fld (ev_row ev)) expected))"

definition close_conditions :: "condition list" where
  "close_conditions =
     [condition_of ''theme_big'' ''close'' ''stock'' (count_test t_theme_count (\<lambda>v. 10 \<le> v)) 1 ''holds'',
      condition_of ''theme_7plus'' ''close'' ''stock'' (count_test t_theme_count (\<lambda>v. 7 \<le> v)) 1 ''holds'',
      condition_of ''theme_lone'' ''close'' ''stock'' (count_test t_theme_count (\<lambda>v. v \<le> 3)) 1 ''holds'',
      condition_of ''theme_leader_earliest'' ''close'' ''stock'' (derived_test ''_theme_leader_earliest'') 1 ''holds'',
      condition_of ''theme_leader_top_board'' ''close'' ''stock'' (derived_test ''_theme_leader_top_board'') 1 ''holds'',
      condition_of ''market_top_board'' ''close'' ''stock'' (derived_test ''_market_top_board'') 1 ''holds'',
      condition_of ''board_2_3'' ''close'' ''stock'' (row_test t_boards (\<lambda>v. 2 \<le> v \<and> v \<le> 3)) 1 ''mixed'',
      condition_of ''board_4plus'' ''close'' ''stock'' (row_test t_boards (\<lambda>v. 4 \<le> v)) 1 ''mixed'',
      condition_of ''board_6plus'' ''close'' ''stock'' (row_test t_boards (\<lambda>v. 6 \<le> v)) 1 ''mixed'',
      condition_of ''seal_small'' ''close'' ''stock'' (row_test t_seal_money (\<lambda>v. v < 20000000)) 1 ''holds'',
      condition_of ''seal_large'' ''close'' ''stock'' (row_test t_seal_money (\<lambda>v. 300000000 \<le> v)) 1 ''mixed'',
      condition_of ''volume_heavy'' ''close'' ''stock'' (row_test t_vr (\<lambda>v. 3 \<le> v)) 1 ''holds'',
      condition_of ''volume_shrunk'' ''close'' ''stock'' (row_test t_vr (\<lambda>v. v < 1)) 1 ''mixed'',
      condition_of ''amount_record_250'' ''close'' ''stock'' (row_test t_turnover_vs_max250 (\<lambda>v. 1 \<le> v)) (- 1) ''against'',
      condition_of ''seal_late'' ''close'' ''stock'' (StockTest (\<lambda>ev. seal_at_or_after (ev_row ev) 14 30)) 1 ''holds'',
      condition_of ''seal_early'' ''close'' ''stock'' (StockTest (\<lambda>ev. seal_early (ev_row ev))) 1 ''untested'',
      condition_of ''sealed_from_open'' ''close'' ''stock'' (flag_test t_sealed_from_open True) 1 ''holds'',
      condition_of ''reopened'' ''close'' ''stock''
        (flag_test (\<lambda>row. map_option (\<lambda>v. v \<noteq> 0) (t_reopened row)) True) (- 1) ''against'',
      condition_of ''runup_40'' ''close'' ''stock'' (row_test t_runup_20 (\<lambda>v. flt (40 / 100) \<le> v)) 1 ''holds'',
      condition_of ''turnover_10bn'' ''close'' ''stock'' (row_test t_turnover (\<lambda>v. 10000000000 \<le> v)) 1 ''mixed'',
      condition_of ''above_high60'' ''close'' ''stock'' (row_test t_close_vs_high60 (\<lambda>v. 0 < v)) 1 ''mixed'',
      condition_of ''main_net_out'' ''close'' ''stock'' (row_test t_main_net (\<lambda>v. v < 0)) 1 ''holds'',
      condition_of ''risk_top_fifth'' ''close'' ''stock'' (row_test t_risk_rank (\<lambda>v. 80 \<le> v)) 1 ''holds'',
      condition_of ''catch_up_first_board'' ''close'' ''stock'' (derived_test ''_catch_up_first_board'') 1 ''mixed'',
      condition_of ''cost_above_band'' ''close'' ''stock'' (row_test t_cost_below (\<lambda>v. flt (95 / 100) \<le> v)) 1 ''mixed'',
      condition_of ''cost_overhead_heavy'' ''close'' ''stock'' (row_test t_cost_above (\<lambda>v. flt (30 / 100) \<le> v)) 1 ''mixed'']"

definition env_ladder_ok :: "day_context \<Rightarrow> bool option" where
  "env_ladder_ok day =
     (case (dc_boards_3plus_count day, dc_limit_up_count day) of
        (Some high, Some size_all) \<Rightarrow> Some (5 < high \<and> 20 < size_all)
      | _ \<Rightarrow> None)"

definition env_turnover_above_median :: "day_context \<Rightarrow> bool option" where
  "env_turnover_above_median day =
     (case (dc_market_turnover day, dc_market_turnover_median60 day) of
        (Some turnover, Some median60) \<Rightarrow> Some (median60 < turnover)
      | _ \<Rightarrow> None)"

definition day_conditions :: "condition list" where
  "day_conditions =
     [condition_of ''env_ladder_ok'' ''close'' ''day'' (DayTest env_ladder_ok) (- 1) ''against'',
      condition_of ''env_turnover_2p1'' ''close'' ''day''
        (DayTest (\<lambda>day. compare_value (dc_market_turnover day) (\<lambda>v. 2100000000000 \<le> v))) (- 1) ''against'',
      condition_of ''env_turnover_above_median60'' ''close'' ''day'' (DayTest env_turnover_above_median) 1 ''untested'',
      condition_of ''env_top_board_failed'' ''close'' ''day''
        (DayTest (\<lambda>day. bool_field (dc_prev_top_board_sealed_again day) False)) 1 ''mixed'']"

definition gap_up_not_sealed :: "trial_row \<Rightarrow> bool option" where
  "gap_up_not_sealed row =
     (case (t_opens_at_limit row, t_gap row) of
        (Some opened, Some gap) \<Rightarrow> Some (flt (5 / 100) \<le> gap \<and> \<not> opened)
      | _ \<Rightarrow> None)"

definition auction_burst :: "trial_row \<Rightarrow> bool option" where
  "auction_burst row =
     (case (t_amount row, Option.bind (t_prev row) pv_turnover) of
        (Some amount, Some turnover) \<Rightarrow> Some (fmul (flt (217 / 1000)) turnover \<le> amount)
      | _ \<Rightarrow> None)"

definition board_gap_below_typical :: "trial_row \<Rightarrow> bool option" where
  "board_gap_below_typical row =
     (case (t_boards row, t_gap row, t_opens_at_limit row) of
        (Some boards, Some gap, Some opened) \<Rightarrow>
          Some (2 \<le> boards \<and> \<not> opened \<and> gap < flt (if boards = 2 then 543 / 10000 else 860 / 10000))
      | _ \<Rightarrow> None)"

definition auction_conditions :: "condition list" where
  "auction_conditions =
     [condition_of ''opens_at_limit'' ''auction'' ''stock'' (flag_test t_opens_at_limit True) 1 ''holds'',
      condition_of ''gap_down_2'' ''auction'' ''stock'' (row_test t_gap (\<lambda>v. v < flt (- 2 / 100))) 1 ''holds'',
      condition_of ''gap_up_5_not_sealed'' ''auction'' ''stock'' (StockTest (\<lambda>ev. Inr (gap_up_not_sealed (ev_row ev)))) 1 ''holds'',
      condition_of ''gap_3_to_8'' ''auction'' ''stock''
        (row_test t_gap (\<lambda>v. flt (3 / 100) \<le> v \<and> v < flt (8 / 100))) (- 1) ''against'',
      condition_of ''gap_0_to_5'' ''auction'' ''stock'' (row_test t_gap (\<lambda>v. 0 \<le> v \<and> v < flt (5 / 100))) 1 ''untested'',
      condition_of ''auction_amount_top5'' ''auction'' ''stock'' (count_test t_auction_amount_rank (\<lambda>v. v \<le> 5)) 1 ''mixed'',
      condition_of ''auction_burst'' ''auction'' ''stock'' (StockTest (\<lambda>ev. Inr (auction_burst (ev_row ev)))) 1 ''mixed'',
      condition_of ''board_gap_below_typical'' ''auction'' ''stock''
        (StockTest (\<lambda>ev. Inr (board_gap_below_typical (ev_row ev)))) 1 ''mixed'']"

definition role_condition :: "string \<Rightarrow> string \<Rightarrow> int \<Rightarrow> string \<Rightarrow> condition" where
  "role_condition key test_key claim status =
     condition_of key ''close'' ''stock'' (derived_test test_key) claim status"

definition ladder_conditions :: "condition list" where
  "ladder_conditions =
     [role_condition ''tier_first'' ''_tier_first'' 1 ''holds'',
      role_condition ''front_row'' ''_front_row'' 1 ''holds'',
      role_condition ''kawei_leader'' ''_kawei_leader'' 1 ''holds'',
      role_condition ''leader_switch'' ''_leader_switch'' 1 ''mixed'',
      role_condition ''assist'' ''_assist'' 1 ''mixed'',
      role_condition ''back_row'' ''_back_row'' (- 1) ''holds'',
      role_condition ''sole_high_board'' ''_sole_high_board'' (- 1) ''against'',
      role_condition ''ladder_full'' ''_ladder_full'' 1 ''mixed'',
      role_condition ''weak_to_strong'' ''_weak_to_strong'' (- 1) ''against'',
      role_condition ''divergence_to_consensus'' ''_divergence_to_consensus'' 1 ''holds'',
      role_condition ''consensus_to_divergence'' ''_consensus_to_divergence'' (- 1) ''holds'',
      role_condition ''rebound_board'' ''_rebound_board'' (- 1) ''holds'']"

text \<open>The registered outcome and claim of each condition.\<close>

definition CONDITION_METADATA :: "(string \<times> string \<times> int) list" where
  "CONDITION_METADATA =
     [(''theme_big'', ''held:close'', 1), (''theme_7plus'', ''held:close'', 1), (''theme_lone'', ''held:close'', - 1),
      (''theme_leader_earliest'', ''held:close'', 1), (''theme_leader_top_board'', ''held:close'', 1),
      (''market_top_board'', ''seal'', 1), (''board_2_3'', ''seal'', 1), (''board_4plus'', ''big_loss'', 1),
      (''board_6plus'', ''held:close'', - 1), (''seal_small'', ''held:close'', - 1), (''seal_large'', ''held:close'', 1),
      (''volume_heavy'', ''held:close'', - 1), (''volume_shrunk'', ''held:close'', 1),
      (''amount_record_250'', ''held:close'', 1), (''seal_late'', ''held:close'', - 1), (''seal_early'', ''held:close'', 1),
      (''sealed_from_open'', ''seal'', 1), (''reopened'', ''held:close'', 1), (''runup_40'', ''big_loss'', 1),
      (''turnover_10bn'', ''seal'', - 1), (''above_high60'', ''held:close'', 1), (''main_net_out'', ''held:close'', - 1),
      (''risk_top_fifth'', ''big_loss'', 1), (''catch_up_first_board'', ''held:close'', 1),
      (''cost_above_band'', ''held:close'', 1), (''cost_overhead_heavy'', ''held:close'', - 1),
      (''env_ladder_ok'', ''held:close'', 1), (''env_turnover_2p1'', ''held:close'', 1),
      (''env_turnover_above_median60'', ''held:close'', 1), (''env_top_board_failed'', ''held:close'', - 1),
      (''opens_at_limit'', ''seal'', 1), (''gap_down_2'', ''open_to_close'', 1),
      (''gap_up_5_not_sealed'', ''open_to_close'', - 1), (''gap_3_to_8'', ''buy_open:close'', 1),
      (''gap_0_to_5'', ''buy_open:close'', 1), (''auction_amount_top5'', ''seal'', 1),
      (''auction_burst'', ''buy_open:close'', 1), (''board_gap_below_typical'', ''buy_open:close'', - 1),
      (''tier_first'', ''held:close'', 1), (''front_row'', ''held:close'', 1), (''kawei_leader'', ''seal'', 1),
      (''leader_switch'', ''held:close'', 1), (''assist'', ''seal'', - 1), (''back_row'', ''seal'', - 1),
      (''sole_high_board'', ''held:close'', 1), (''ladder_full'', ''held:close'', 1),
      (''weak_to_strong'', ''held:close'', 1), (''divergence_to_consensus'', ''held:close'', 1),
      (''consensus_to_divergence'', ''big_loss'', 1), (''rebound_board'', ''held:close'', 1)]"

definition finalize_condition :: "condition \<Rightarrow> condition" where
  "finalize_condition c =
     (case map_of CONDITION_METADATA (cd_key c) of
        Some (outcome, claim) \<Rightarrow> c\<lparr>cd_claim := claim, cd_claim_outcome := outcome\<rparr>
      | None \<Rightarrow> c)"

definition CONDITIONS :: "condition list" where
  "CONDITIONS =
     map finalize_condition (close_conditions @ day_conditions @ auction_conditions @ ladder_conditions)"


section \<open>Leaders\<close>

text \<open>A sort key of the code is a tuple of numbers, texts and \<open>None\<close>. Tuples compare at their first
  unequal part; \<open>None\<close> compares with nothing. \<open>min(xs, key=f)\<close> keeps the first least element.\<close>

datatype key_part = KNone | KNum rat | KText string

fun part_less :: "key_part \<Rightarrow> key_part \<Rightarrow> bool res" where
  "part_less (KNum a) (KNum b) = Inr (a < b)"
| "part_less (KText a) (KText b) = Inr (a < b)"
| "part_less _ _ = Inl TypeError"

fun key_less :: "key_part list \<Rightarrow> key_part list \<Rightarrow> bool res" where
  "key_less (a # as) (b # bs) = (if a = b then key_less as bs else part_less a b)"
| "key_less as bs = Inr (length as < length bs)"

primrec min_from :: "('a \<Rightarrow> key_part list res) \<Rightarrow> 'a list \<Rightarrow> 'a \<Rightarrow> key_part list \<Rightarrow> 'a res" where
  "min_from f [] best least = Inr best"
| "min_from f (x # xs) best least =
     bindR (f x) (\<lambda>k. bindR (key_less k least) (\<lambda>smaller.
       if smaller then min_from f xs x k else min_from f xs best least))"

fun min_by :: "('a \<Rightarrow> key_part list res) \<Rightarrow> 'a list \<Rightarrow> 'a res" where
  "min_by f [] = Inl ValueError"
| "min_by f (x # xs) = bindR (f x) (\<lambda>k. min_from f xs x k)"

definition seal_key :: "rat option \<Rightarrow> key_part" where
  "seal_key seal = (case seal of None \<Rightarrow> KNone | Some v \<Rightarrow> KNum v)"

definition earliest_key :: "trial_row \<Rightarrow> key_part list res" where
  "earliest_key row =
     bindR (seal_of row) (\<lambda>seal. bindR (row_boards row) (\<lambda>b. Inr [seal_key seal, KNum (- b), KText (t_symbol row)]))"

definition top_key :: "trial_row \<Rightarrow> key_part list res" where
  "top_key row =
     bindR (row_boards row) (\<lambda>b. bindR (seal_of row) (\<lambda>seal. Inr [KNum (- b), seal_key seal, KText (t_symbol row)]))"

definition tier_key :: "trial_row \<Rightarrow> key_part list res" where
  "tier_key row = bindR (seal_of row) (\<lambda>seal. Inr [seal_key seal, KText (t_symbol row)])"

definition theme_of :: "cell \<Rightarrow> trial_row list \<Rightarrow> trial_row list" where
  "theme_of sector rows = filter (\<lambda>item. cell_eq (t_sector item) sector) rows"

definition lacks_board_or_seal :: "trial_row \<Rightarrow> bool" where
  "lacks_board_or_seal row = (t_boards row = None \<or> t_first_seal row = None)"

definition market_top :: "trial_row \<Rightarrow> trial_row list \<Rightarrow> bool option res" where
  "market_top row rows =
     (if rows = [] then Inr None
      else if list_ex (\<lambda>item. t_boards item = None) rows then Inr None
      else bindR (row_boards row) (\<lambda>own.
           bindR (mapR row_boards rows) (\<lambda>all_boards.
           bindR (float_max all_boards) (\<lambda>top.
             Inr (Some (own = top \<and> 3 \<le> own))))))"

definition derived_close :: "trial_row \<Rightarrow> trial_row list \<Rightarrow> (string \<Rightarrow> bool option) res" where
  "derived_close row rows =
     (let sector = t_sector row; theme = theme_of sector rows in
      bindR (if \<not> cell_true sector \<or> list_ex lacks_board_or_seal theme then Inr (None, None, None)
             else if length theme < 2 then Inr (None, None, None)
             else bindR (min_by earliest_key theme) (\<lambda>earliest.
                  bindR (min_by top_key theme) (\<lambda>top.
                  bindR (row_boards row) (\<lambda>own.
                  bindR (row_boards top) (\<lambda>high.
                    Inr (Some (t_symbol row = t_symbol earliest), Some (t_symbol row = t_symbol top),
                         Some (own = 1 \<and> 3 \<le> high)))))))
        (\<lambda>(leader_earliest, leader_top, catch_up).
      bindR (market_top row rows) (\<lambda>top_board.
        Inr ((\<lambda>_. None)(''_theme_leader_earliest'' := leader_earliest, ''_theme_leader_top_board'' := leader_top,
               ''_market_top_board'' := top_board, ''_catch_up_first_board'' := catch_up)))))"

section \<open>Roles in the ladder\<close>

record reading =
  rd_complete :: bool
  rd_rows :: "trial_row list"

definition complete_rows :: "reading option \<Rightarrow> trial_row list option" where
  "complete_rows r = (case r of None \<Rightarrow> None | Some x \<Rightarrow> if rd_complete x then Some (rd_rows x) else None)"

definition row_for :: "trial_row list \<Rightarrow> string \<Rightarrow> trial_row option" where
  "row_for rows symbol = py_next (\<lambda>row. t_symbol row = symbol) rows"

definition theme_leader :: "trial_row list \<Rightarrow> cell \<Rightarrow> trial_row option res" where
  "theme_leader rows sector =
     (if \<not> cell_true sector then Inr None
      else let theme = theme_of sector rows in
        if length theme < 2 then Inr None else bindR (min_by top_key theme) (\<lambda>x. Inr (Some x)))"

definition tier_first :: "trial_row \<Rightarrow> trial_row list \<Rightarrow> rat option \<Rightarrow> bool option res" where
  "tier_first row tier seal =
     (if t_boards row = None \<or> seal = None then Inr None
      else if length tier < 3 then Inr (Some False)
      else bindR (row_boards row) (\<lambda>b.
        if b < 2 then Inr (Some False)
        else bindR (min_by tier_key tier) (\<lambda>x. Inr (Some (t_symbol row = t_symbol x)))))"

text \<open>Places relative to the theme's leader: front row, back row, assist.\<close>

definition leader_places :: "trial_row \<Rightarrow> trial_row option \<Rightarrow> rat option
    \<Rightarrow> (bool option \<times> bool option \<times> bool option) res" where
  "leader_places row leader seal =
     (case (leader, seal) of
        (Some l, Some s) \<Rightarrow>
          bindR (seal_of l) (\<lambda>leader_seal0.
          bindR (row_boards row) (\<lambda>own.
          bindR (row_boards l) (\<lambda>high.
            if own < high \<or> own = 1 \<and> 2 \<le> high then
              bindR (need TypeError leader_seal0) (\<lambda>leader_seal.
                Inr (Some (own < high \<and> s < leader_seal), Some (own < high \<and> leader_seal < s),
                     Some (own = 1 \<and> 2 \<le> high \<and> 0 \<le> fsub s leader_seal \<and> fsub s leader_seal \<le> 1800)))
            else Inr (Some False, Some False, Some False))))
      | _ \<Rightarrow> Inr (None, None, None))"

definition sole_high_board :: "trial_row \<Rightarrow> trial_row list \<Rightarrow> bool option res" where
  "sole_high_board row tier =
     (if t_boards row = None then Inr None
      else bindR (row_boards row) (\<lambda>b. Inr (Some (3 \<le> b \<and> length tier = 1))))"

definition ladder_step :: "rat \<Rightarrow> nat" where
  "ladder_step b = (if b = 1 then 1 else if b = 2 then 2 else 3)"

definition ladder_full :: "cell \<Rightarrow> trial_row list \<Rightarrow> bool option res" where
  "ladder_full sector theme =
     bindR (mapR row_boards theme) (\<lambda>boards.
       Inr (if \<not> cell_true sector \<or> theme = [] then None
            else Some (set (map ladder_step boards) = {1, 2, 3})))"

text \<open>Overtaking yesterday's leader of the theme: \<open>_kawei_leader\<close> and \<open>_leader_switch\<close>.\<close>

definition leader_change :: "trial_row \<Rightarrow> trial_row list \<Rightarrow> trial_row list \<Rightarrow> trial_row list option
    \<Rightarrow> trial_row option \<Rightarrow> trial_row option \<Rightarrow> rat option \<Rightarrow> (bool option \<times> bool option) res" where
  "leader_change row rows theme prior_rows prior_leader leader seal =
     (if \<not> cell_true (t_sector row) \<or> prior_rows = None then Inr (None, None)
      else case prior_leader of
        None \<Rightarrow> Inr (Some False, Some False)
      | Some pl \<Rightarrow>
          bindR (row_boards pl) (\<lambda>prior_boards.
            if prior_boards < 2 then Inr (Some False, Some False)
            else let today = row_for rows (t_symbol pl) in
              bindR (case today of
                       None \<Rightarrow> Inr False
                     | Some other \<Rightarrow>
                         if t_symbol row = t_symbol pl then Inr False
                         else (case seal of
                                 None \<Rightarrow> Inr False
                               | Some s \<Rightarrow> bindR (seal_of other) (\<lambda>o_seal.
                                   bindR (need TypeError o_seal) (\<lambda>v. Inr (s < v)))))
                (\<lambda>kawei. Inr (Some kawei,
                   Some (Some (t_symbol row) = map_option t_symbol leader \<and> today = None \<and> 2 \<le> length theme)))))"

definition truthy_num :: "rat option \<Rightarrow> bool" where
  "truthy_num x = (case x of None \<Rightarrow> False | Some v \<Rightarrow> v \<noteq> 0)"

definition num_test :: "rat option \<Rightarrow> (rat \<Rightarrow> bool) \<Rightarrow> bool" where
  "num_test x p = (case x of None \<Rightarrow> False | Some v \<Rightarrow> p (flt v))"

text \<open>Today against the stock's own row of the day before: weak to strong, divergence to consensus,
  consensus to divergence.\<close>

definition day_turns :: "trial_row \<Rightarrow> trial_row option \<Rightarrow> rat option
    \<Rightarrow> (bool option \<times> bool option \<times> bool option) res" where
  "day_turns row prior seal =
     (case prior of
        None \<Rightarrow> Inr (None, None, None)
      | Some p \<Rightarrow>
          bindR (seal_at_or_after p 13 0) (\<lambda>late.
          let weak = (late = Some True \<or> truthy_num (t_reopened p)
                      \<or> num_test (t_seal_money p) (\<lambda>v. v < 20000000)) in
          bindR (if seal = None \<or> t_boards row = None then Inr None
                 else bindR (row_boards row) (\<lambda>b. Inr (Some (2 \<le> b \<and> weak \<and> the seal \<le> 9 * 3600 + 45 * 60))))
            (\<lambda>weak_to_strong.
            Inr (weak_to_strong,
                 map_option (\<lambda>w. (truthy_num (t_reopened p) \<or> num_test (t_vr p) (\<lambda>v. 2 \<le> v)) \<and> w) (t_one_word row),
                 case (t_one_word row, t_one_word p) of
                   (Some now, Some earlier) \<Rightarrow> Some (earlier \<and> \<not> now)
                 | _ \<Rightarrow> None))))"

definition REBOUND_LAGS :: "nat list" where "REBOUND_LAGS = [2, 3]"

definition rebound_candidate :: "trial_row \<Rightarrow> trial_row list list \<Rightarrow> nat \<Rightarrow> bool res" where
  "rebound_candidate row history lag =
     (let index = lag - 1 in
      case row_for (history ! index) (t_symbol row) of
        None \<Rightarrow> Inr False
      | Some earlier \<Rightarrow>
          bindR (row_boards earlier) (\<lambda>b.
            if b < 2 then Inr False
            else bindR (row_boards row) (\<lambda>own.
              Inr (own = 1 \<and> list_all (\<lambda>rows. row_for rows (t_symbol row) = None) (take index history)))))"

definition rebound_value :: "trial_row \<Rightarrow> reading option list \<Rightarrow> bool option res" where
  "rebound_value row previous =
     (if t_boards row = None then Inr None
      else let history = map complete_rows (take 3 previous) in
        if length previous < 3 \<or> None \<in> set history then Inr None
        else bindR (mapR (rebound_candidate row (map the history)) REBOUND_LAGS) (\<lambda>candidates.
          Inr (Some (list_ex id candidates))))"

definition role_values :: "trial_row \<Rightarrow> trial_row list \<Rightarrow> reading option list \<Rightarrow> (string \<Rightarrow> bool option) res" where
  "role_values row rows previous =
     (let sector = t_sector row; theme = theme_of sector rows;
          tier = filter (\<lambda>item. t_boards item = t_boards row) rows in
      bindR (theme_leader rows sector) (\<lambda>leader.
      bindR (seal_of row) (\<lambda>seal.
      bindR (tier_first row tier seal) (\<lambda>first.
      bindR (leader_places row leader seal) (\<lambda>(front, back, assist).
      bindR (sole_high_board row tier) (\<lambda>sole.
      bindR (ladder_full sector theme) (\<lambda>full.
      let prior_rows = (case previous of [] \<Rightarrow> None | r # _ \<Rightarrow> complete_rows r);
          prior = Option.bind prior_rows (\<lambda>rs. row_for rs (t_symbol row)) in
      bindR (case prior_rows of None \<Rightarrow> Inr None | Some rs \<Rightarrow> theme_leader rs sector) (\<lambda>prior_leader.
      bindR (leader_change row rows theme prior_rows prior_leader leader seal) (\<lambda>(kawei, switch).
      bindR (day_turns row prior seal) (\<lambda>(strong, consensus, divergence).
      bindR (rebound_value row previous) (\<lambda>rebound.
        Inr ((\<lambda>_. None)(''_tier_first'' := first, ''_front_row'' := front, ''_back_row'' := back,
               ''_assist'' := assist, ''_sole_high_board'' := sole, ''_ladder_full'' := full,
               ''_kawei_leader'' := kawei, ''_leader_switch'' := switch, ''_weak_to_strong'' := strong,
               ''_divergence_to_consensus'' := consensus, ''_consensus_to_divergence'' := divergence,
               ''_rebound_board'' := rebound)))))))))))))"

text \<open>The roles are kept by symbol: of two rows with one symbol the later wins.\<close>

definition evaluate_ladder_roles :: "trial_row list \<Rightarrow> reading option list \<Rightarrow> trial_row list res" where
  "evaluate_ladder_roles rows previous =
     bindR (mapR (\<lambda>row. role_values row rows previous) rows) (\<lambda>role_list.
       let roles = map_of (rev (zip (map t_symbol rows) role_list));
           role_keys = map cd_key ladder_conditions in
       Inr (map (\<lambda>row. let vals = the (roles (t_symbol row)) in
              row\<lparr>t_flags := filter (\<lambda>key. vals (CHR ''_'' # key) = Some True) role_keys,
                  t_unknown := filter (\<lambda>key. vals (CHR ''_'' # key) = None) role_keys\<rparr>) rows))"

section \<open>The evaluation of a reading\<close>

text \<open>\<open>{**row, **derived, **roles}\<close>; the keys of the roles and of the derived values differ. A day
  condition finds none of its keys in a stock row, a stock condition none in the day's context.\<close>

definition condition_value :: "condition \<Rightarrow> trial_row \<Rightarrow> trial_row list \<Rightarrow> (string \<Rightarrow> bool option) option \<Rightarrow> bool option res" where
  "condition_value c row rows roles =
     bindR (derived_close row rows) (\<lambda>derived.
       case cd_test c of
         StockTest test \<Rightarrow>
           test \<lparr>ev_row = row,
                 ev_derived = (\<lambda>key. case roles of None \<Rightarrow> derived key
                   | Some r \<Rightarrow> (case r key of None \<Rightarrow> derived key | Some v \<Rightarrow> Some v))\<rparr>
       | DayTest test \<Rightarrow> Inr None)"

definition conditions_of :: "string \<Rightarrow> string \<Rightarrow> condition list" where
  "conditions_of level slot = filter (\<lambda>c. cd_level c = level \<and> cd_slot c = slot) CONDITIONS"

definition keys_with :: "'v \<Rightarrow> (string \<times> 'v) list \<Rightarrow> string list" where
  "keys_with v vals = map fst (filter (\<lambda>kv. snd kv = v) vals)"

definition prev_key :: "string \<Rightarrow> string" where
  "prev_key key = ''prev.'' @ key"

text \<open>The value a condition of the session before has at the auction.\<close>

definition prev_value :: "prev_row option \<Rightarrow> string \<Rightarrow> bool option" where
  "prev_value prev key =
     (case prev of
        None \<Rightarrow> None
      | Some p \<Rightarrow>
          if pv_complete p = Some False then None
          else if key \<in> set (pv_flags p) then Some True
          else if key \<in> set (pv_unknown p) then None else Some False)"

definition prev_values :: "trial_row \<Rightarrow> (string \<times> bool option) list" where
  "prev_values row = map (\<lambda>c. (prev_key (cd_key c), prev_value (t_prev row) (cd_key c))) close_conditions"

definition evaluate_row :: "string \<Rightarrow> trial_row list \<Rightarrow> reading option list \<Rightarrow> trial_row \<Rightarrow> trial_row res" where
  "evaluate_row slot rows previous row =
     bindR (if slot = ''close'' then bindR (role_values row rows previous) (\<lambda>r. Inr (Some r)) else Inr None) (\<lambda>roles.
     bindR (mapR (\<lambda>c. bindR (condition_value c row rows roles) (\<lambda>v. Inr (cd_key c, v))) (conditions_of ''stock'' slot)) (\<lambda>own.
       let vals = own @ (if slot = ''auction'' then prev_values row else []) in
       Inr (row\<lparr>t_flags := keys_with (Some True) vals, t_unknown := keys_with None vals\<rparr>)))"

definition day_value :: "condition \<Rightarrow> day_context \<Rightarrow> bool option" where
  "day_value c day = (case cd_test c of DayTest test \<Rightarrow> test day | StockTest _ \<Rightarrow> None)"

record evaluated =
  e_rows :: "trial_row list"
  e_day_flags :: "string list"
  e_day_unknown :: "string list"

definition evaluate_conditions :: "trial_row list \<Rightarrow> day_context \<Rightarrow> string \<Rightarrow> reading option list \<Rightarrow> evaluated res" where
  "evaluate_conditions rows day slot previous =
     bindR (mapR (evaluate_row slot rows previous) rows) (\<lambda>found.
       let vals = map (\<lambda>c. (cd_key c, day_value c day)) (conditions_of ''day'' slot) in
       Inr \<lparr>e_rows = found, e_day_flags = keys_with (Some True) vals, e_day_unknown = keys_with None vals\<rparr>)"


text \<open>A row of a small example: a code, its theme, boards and first seal.\<close>

definition example_row :: "string \<Rightarrow> string \<Rightarrow> rat \<Rightarrow> string \<Rightarrow> trial_row" where
  "example_row symbol sector boards seal =
     \<lparr>t_symbol = symbol, t_sector = CText sector, t_boards = Some boards, t_board_bucket = Some (board_bucket boards),
      t_first_seal = Some (SealText seal), t_seal_money = Some 50000000, t_main_net = Some 1, t_turnover = Some 1000,
      t_reopened = Some 0, t_sealed_from_open = Some False, t_one_word = Some False, t_vr = Some 1, t_gap = Some 0,
      t_risk_rank = None, t_theme_count = Some 2, t_turnover_vs_max250 = None, t_runup_20 = None,
      t_close_vs_high60 = None, t_cost_below = None, t_cost_above = None, t_opens_at_limit = None,
      t_gap_bucket = None, t_amount = None, t_auction_amount_rank = None, t_prev = None, t_flags = [], t_unknown = []\<rparr>"

definition no_day :: day_context where
  "no_day = \<lparr>dc_limit_up_count = None, dc_boards_3plus_count = None, dc_market_turnover = None,
             dc_market_turnover_median60 = None, dc_prev_top_board_sealed_again = None\<rparr>"

section \<open>The registry\<close>

lemma registry_keys_distinct: "distinct (map cd_key CONDITIONS)"
  by code_simp

lemma registry_metadata: "list_all (\<lambda>c. map_of CONDITION_METADATA (cd_key c) \<noteq> None)
    (close_conditions @ day_conditions @ auction_conditions @ ladder_conditions)"
  by code_simp

lemma conditions_of_distinct: "distinct (map cd_key (conditions_of level slot))"
  unfolding conditions_of_def using registry_keys_distinct by (simp add: distinct_map_filter)

section \<open>Flags and unknowns of an evaluated row\<close>

lemma keys_with_iff: "distinct (map fst vals) \<Longrightarrow> (k, v) \<in> set vals \<Longrightarrow> k \<in> set (keys_with w vals) \<longleftrightarrow> v = w"
  by (force simp: keys_with_def dest: eq_key_imp_eq_value)

lemma keys_with_subset: "set (keys_with w vals) \<subseteq> fst ` set vals"
  by (auto simp: keys_with_def)

lemma mapR_keyed:
  assumes "mapR (\<lambda>c. bindR (f c) (\<lambda>v. Inr (k c, v))) cs = Inr own"
  shows "map fst own = map k cs" and "c \<in> set cs \<Longrightarrow> \<exists>v. f c = Inr v \<and> (k c, v) \<in> set own"
proof -
  show "map fst own = map k cs" using assms
    by (induction cs arbitrary: own) auto
  show "\<exists>v. f c = Inr v \<and> (k c, v) \<in> set own" if "c \<in> set cs" using assms that
    by (induction cs arbitrary: own) auto
qed

lemma evaluate_row_close:
  assumes "evaluate_row ''close'' rows previous row = Inr row'"
  obtains roles fl un where "role_values row rows previous = Inr roles" "row' = row\<lparr>t_flags := fl, t_unknown := un\<rparr>"
    "\<And>c. c \<in> set (conditions_of ''stock'' ''close'') \<Longrightarrow>
       \<exists>v. condition_value c row rows (Some roles) = Inr v
         \<and> (cd_key c \<in> set fl \<longleftrightarrow> v = Some True) \<and> (cd_key c \<in> set un \<longleftrightarrow> v = None)"
proof -
  obtain roles own where roles: "role_values row rows previous = Inr roles"
    and own: "mapR (\<lambda>c. bindR (condition_value c row rows (Some roles)) (\<lambda>v. Inr (cd_key c, v)))
                (conditions_of ''stock'' ''close'') = Inr own"
    and row': "row' = row\<lparr>t_flags := keys_with (Some True) own, t_unknown := keys_with None own\<rparr>"
    using assms by (auto simp: evaluate_row_def)
  have d: "distinct (map fst own)" by (simp add: mapR_keyed(1) [OF own] conditions_of_distinct)
  show thesis
    by (rule that [OF roles row'])
      (use mapR_keyed(2) [OF own] keys_with_iff [OF d] in blast)
qed

section \<open>The leader of a theme\<close>

fun triple_key :: "rat \<times> rat \<times> string \<Rightarrow> key_part list" where
  "triple_key (a, b, c) = [KNum a, KNum b, KText c]"

lemma key_less_triple: "key_less (triple_key x) (triple_key y) = Inr (x < y)"
  by (cases x; cases y) (auto simp: less_prod_def)

lemma min_from_least:
  fixes g :: "'a \<Rightarrow> 'k::linorder"
  assumes less: "\<And>x y. key_less (kf x) (kf y) = Inr (x < y)"
  shows "(\<And>x. x \<in> set xs \<Longrightarrow> f x = Inr (kf (g x))) \<Longrightarrow>
   \<exists>m. min_from f xs best (kf (g best)) = Inr m \<and> m \<in> insert best (set xs)
     \<and> (\<forall>x \<in> insert best (set xs). g m \<le> g x)"
proof (induction xs arbitrary: best)
  case (Cons x xs)
  show ?case
  proof (cases "g x < g best")
    case True
    with Cons.prems Cons.IH [of x] obtain m where
      "min_from f xs x (kf (g x)) = Inr m" "m \<in> insert x (set xs)" "\<forall>y \<in> insert x (set xs). g m \<le> g y"
      by auto
    then show ?thesis using True Cons.prems by (auto simp: less intro: order.strict_implies_order order_trans)
  next
    case False
    with Cons.prems Cons.IH [of best] obtain m where
      "min_from f xs best (kf (g best)) = Inr m" "m \<in> insert best (set xs)" "\<forall>y \<in> insert best (set xs). g m \<le> g y"
      by auto
    then show ?thesis using False Cons.prems by (auto simp: less not_less intro: order_trans)
  qed
qed simp

lemma min_by_least:
  fixes g :: "'a \<Rightarrow> 'k::linorder"
  assumes "xs \<noteq> []" and less: "\<And>x y. key_less (kf x) (kf y) = Inr (x < y)"
    and "\<And>x. x \<in> set xs \<Longrightarrow> f x = Inr (kf (g x))"
  obtains m where "min_by f xs = Inr m" "m \<in> set xs" "\<forall>x \<in> set xs. g m \<le> g x"
proof -
  obtain x rest where xs: "xs = x # rest" using assms(1) by (cases xs) auto
  from min_from_least [of kf rest f g x, OF less] assms(3)
  obtain m where "min_from f rest x (kf (g x)) = Inr m" "m \<in> insert x (set rest)"
    "\<forall>y \<in> insert x (set rest). g m \<le> g y"
    unfolding xs by auto
  then show thesis using that assms(3) by (simp add: xs)
qed

fun pair_key :: "rat \<times> string \<Rightarrow> key_part list" where
  "pair_key (a, c) = [KNum a, KText c]"

lemma key_less_pair: "key_less (pair_key x) (pair_key y) = Inr (x < y)"
  by (cases x; cases y) (auto simp: less_prod_def)

text \<open>Cells compare by their value: an integer equals the float of the same value.\<close>

fun cell_value :: "cell \<Rightarrow> cell" where
  "cell_value (CInt n) = CFloat (of_int n)"
| "cell_value c = c"

lemma cell_eq_value: "cell_eq a b \<longleftrightarrow> cell_value a = cell_value b"
  by (cases a; cases b) auto

lemma cell_true_value: "cell_value a = cell_value b \<Longrightarrow> cell_true a = cell_true b"
  by (cases a; cases b) (auto simp: cell_true_def)

lemma theme_of_eq: "cell_eq a b \<Longrightarrow> theme_of a rows = theme_of b rows"
  by (simp add: theme_of_def cell_eq_value)

text \<open>A row whose board count and first seal are known.\<close>

definition seal_time :: "trial_row \<Rightarrow> rat" where
  "seal_time row = (case seal_of row of Inr (Some s) \<Rightarrow> s | _ \<Rightarrow> 0)"

definition placed :: "trial_row \<Rightarrow> bool" where
  "placed row = (t_boards row \<noteq> None \<and> (case seal_of row of Inr (Some s) \<Rightarrow> True | _ \<Rightarrow> False))"

lemma placed_keys:
  assumes "placed row"
  shows "earliest_key row = Inr (triple_key (seal_time row, - flt (the (t_boards row)), t_symbol row))"
    and "top_key row = Inr (triple_key (- flt (the (t_boards row)), seal_time row, t_symbol row))"
    and "row_boards row = Inr (flt (the (t_boards row)))" and "\<not> lacks_board_or_seal row"
proof -
  obtain b s where "t_boards row = Some b" "seal_of row = Inr (Some s)"
    using assms by (auto simp: placed_def split: sum.splits option.splits)
  moreover from this have "t_first_seal row \<noteq> None" by (auto simp: seal_of_def split: option.splits)
  ultimately show "earliest_key row = Inr (triple_key (seal_time row, - flt (the (t_boards row)), t_symbol row))"
    and "top_key row = Inr (triple_key (- flt (the (t_boards row)), seal_time row, t_symbol row))"
    and "row_boards row = Inr (flt (the (t_boards row)))" and "\<not> lacks_board_or_seal row"
    by (auto simp: earliest_key_def top_key_def row_boards_def bar_float_def need_def seal_key_def seal_time_def
        lacks_board_or_seal_def)
qed

lemma leader_of_theme:
  assumes "2 \<le> length theme" and "\<forall>r \<in> set theme. placed r" and "theme = theme_of sector rows" and "cell_true sector"
  obtains l where "l \<in> set theme" "\<forall>r \<in> set theme. seal_time l \<le> seal_time r"
    "\<And>row derived. cell_eq (t_sector row) sector \<Longrightarrow> derived_close row rows = Inr derived \<Longrightarrow>
       derived ''_theme_leader_earliest'' = Some (t_symbol row = t_symbol l)"
proof -
  have ne: "theme \<noteq> []" using assms(1) by auto
  obtain l where l: "min_by earliest_key theme = Inr l" "l \<in> set theme"
    "\<forall>r \<in> set theme. (seal_time l, - flt (the (t_boards l)), t_symbol l) \<le> (seal_time r, - flt (the (t_boards r)), t_symbol r)"
    using min_by_least [OF ne key_less_triple, of earliest_key "\<lambda>r. (seal_time r, - flt (the (t_boards r)), t_symbol r)"]
      placed_keys(1) assms(2) by blast
  have nl: "\<not> list_ex lacks_board_or_seal theme" using placed_keys(4) assms(2) by (auto simp: list_ex_iff)
  show thesis
  proof
    show "l \<in> set theme" by (rule l)
    show "\<forall>r \<in> set theme. seal_time l \<le> seal_time r" using l(3) by (auto simp: less_eq_prod_def)
    fix row derived assume same: "cell_eq (t_sector row) sector" and der: "derived_close row rows = Inr derived"
    have th: "theme_of (t_sector row) rows = theme" using theme_of_eq [OF same] assms(3) by simp
    have tr: "cell_true (t_sector row)" using same assms(4) by (auto simp: cell_eq_value dest: cell_true_value)
    show "derived ''_theme_leader_earliest'' = Some (t_symbol row = t_symbol l)"
      using der assms(1) by (auto simp: derived_close_def Let_def th tr nl l(1))
  qed
qed


lemma finalize_fields [simp]:
  "cd_key (finalize_condition c) = cd_key c" "cd_test (finalize_condition c) = cd_test c"
  "cd_level (finalize_condition c) = cd_level c" "cd_slot (finalize_condition c) = cd_slot c"
  by (simp_all add: finalize_condition_def split: option.splits)

lemma condition_of_fields [simp]:
  "cd_key (condition_of key slot level test claim status) = key" "cd_test (condition_of key slot level test claim status) = test"
  "cd_level (condition_of key slot level test claim status) = level" "cd_slot (condition_of key slot level test claim status) = slot"
  by (simp_all add: condition_of_def)

lemma leader_condition:
  obtains c where "c \<in> set (conditions_of ''stock'' ''close'')" "cd_key c = ''theme_leader_earliest''"
    "cd_test c = derived_test ''_theme_leader_earliest''"
proof -
  define c0 where "c0 = condition_of ''theme_leader_earliest'' ''close'' ''stock''
    (derived_test ''_theme_leader_earliest'') 1 ''holds''"
  have "c0 \<in> set close_conditions" unfolding close_conditions_def c0_def by (intro list.set_intros)
  then have "finalize_condition c0 \<in> set CONDITIONS" by (auto simp: CONDITIONS_def)
  then have "finalize_condition c0 \<in> set (conditions_of ''stock'' ''close'')"
    by (simp add: conditions_of_def c0_def)
  then show thesis by (rule that) (simp_all add: c0_def)
qed

lemma role_keys_apart: "role_values row rows previous = Inr roles \<Longrightarrow> roles ''_theme_leader_earliest'' = None"
  unfolding role_values_def Let_def bindR_eq_Inr by (elim exE conjE) (auto split: prod.splits)

lemma evaluate_row_leader:
  assumes "evaluate_row ''close'' rows previous row = Inr row'"
  obtains derived where "derived_close row rows = Inr derived"
    "''theme_leader_earliest'' \<in> set (t_flags row') \<longleftrightarrow> derived ''_theme_leader_earliest'' = Some True"
    "t_symbol row' = t_symbol row" "t_sector row' = t_sector row"
proof -
  obtain c where c: "c \<in> set (conditions_of ''stock'' ''close'')" "cd_key c = ''theme_leader_earliest''"
    "cd_test c = derived_test ''_theme_leader_earliest''"
    by (rule leader_condition)
  from evaluate_row_close [OF assms] obtain roles fl un where
    roles: "role_values row rows previous = Inr roles" and row': "row' = row\<lparr>t_flags := fl, t_unknown := un\<rparr>"
    and vals: "\<And>c. c \<in> set (conditions_of ''stock'' ''close'') \<Longrightarrow>
       \<exists>v. condition_value c row rows (Some roles) = Inr v
         \<and> (cd_key c \<in> set fl \<longleftrightarrow> v = Some True) \<and> (cd_key c \<in> set un \<longleftrightarrow> v = None)"
    by metis
  from vals [OF c(1)] obtain v where v: "condition_value c row rows (Some roles) = Inr v"
    "cd_key c \<in> set fl \<longleftrightarrow> v = Some True" by blast
  from v(1) obtain derived where d: "derived_close row rows = Inr derived"
    "v = derived ''_theme_leader_earliest''"
    by (auto simp: condition_value_def c(3) derived_test_def role_keys_apart [OF roles])
  show thesis by (rule that [OF d(1)]) (use v(2) d(2) c(2) in \<open>simp_all add: row'\<close>)
qed

text \<open>
  After a complete reading, a theme of at least two stocks whose boards and first seals are
  all known has exactly one earliest leader: one stock of the theme, sealed no later than any
  other of it, carries the flag theme_leader_earliest, and no other stock of the theme does
  (stocks are told apart by their symbols).
\<close>

theorem theme_leader_flag:
  assumes "evaluate_conditions rows day ''close'' previous = Inr ev"
    and "theme = theme_of sector rows" and "cell_true sector" and "2 \<le> length theme"
    and "\<forall>r \<in> set theme. placed r"
  shows "\<exists>l \<in> set theme. (\<forall>r \<in> set theme. seal_time l \<le> seal_time r)
    \<and> (\<forall>r \<in> set (e_rows ev). cell_eq (t_sector r) sector \<longrightarrow>
         (''theme_leader_earliest'' \<in> set (t_flags r) \<longleftrightarrow> t_symbol r = t_symbol l))"
proof -
  obtain l where l: "l \<in> set theme" "\<forall>r \<in> set theme. seal_time l \<le> seal_time r"
    and leader: "\<And>row derived. cell_eq (t_sector row) sector \<Longrightarrow> derived_close row rows = Inr derived \<Longrightarrow>
       derived ''_theme_leader_earliest'' = Some (t_symbol row = t_symbol l)"
    using leader_of_theme [OF assms(4,5,2,3)] by metis
  obtain found where found: "mapR (evaluate_row ''close'' rows previous) rows = Inr found" "e_rows ev = found"
    using assms(1) by (auto simp: evaluate_conditions_def Let_def)
  have "''theme_leader_earliest'' \<in> set (t_flags r) \<longleftrightarrow> t_symbol r = t_symbol l"
    if r: "r \<in> set found" and same: "cell_eq (t_sector r) sector" for r
  proof -
    obtain i where i: "i < length found" "r = found ! i" using r by (auto simp: in_set_conv_nth)
    then have "evaluate_row ''close'' rows previous (rows ! i) = Inr r"
      using mapR_nth [OF found(1)] mapR_length [OF found(1)] by simp
    from evaluate_row_leader [OF this] obtain derived where
      "derived_close (rows ! i) rows = Inr derived"
      "''theme_leader_earliest'' \<in> set (t_flags r) \<longleftrightarrow> derived ''_theme_leader_earliest'' = Some True"
      "t_symbol r = t_symbol (rows ! i)" "t_sector r = t_sector (rows ! i)"
      by blast
    then show ?thesis using leader [of "rows ! i" derived] same by simp
  qed
  then show ?thesis using l found(2) by blast
qed


section \<open>Readings that never raise\<close>

text \<open>Every row that is read has its boards and its first seal.\<close>

definition placed_previous :: "reading option list \<Rightarrow> bool" where
  "placed_previous previous =
     (\<forall>r \<in> set previous. \<forall>rows. complete_rows r = Some rows \<longrightarrow> (\<forall>row \<in> set rows. placed row))"

lemma placed_simps:
  assumes "placed row"
  shows "seal_of row = Inr (Some (seal_time row))" "\<exists>b. t_boards row = Some b \<and> row_boards row = Inr (flt b)"
    "tier_key row = Inr (pair_key (seal_time row, t_symbol row))"
  using assms
  by (auto simp: placed_def seal_time_def row_boards_def bar_float_def need_def tier_key_def seal_key_def
      split: sum.splits option.splits)

lemma mapR_boards: "\<forall>r \<in> set rows. placed r \<Longrightarrow> \<exists>bs. mapR row_boards rows = Inr bs \<and> length bs = length rows"
proof (induction rows)
  case (Cons r rows)
  with placed_simps(2) [of r] show ?case by auto
qed simp

lemma float_max_total: "xs \<noteq> [] \<Longrightarrow> \<exists>m. float_max xs = Inr m"
  by (cases xs) auto

lemma theme_of_placed: "\<forall>r \<in> set rows. placed r \<Longrightarrow> \<forall>r \<in> set (theme_of sector rows). placed r"
  by (simp add: theme_of_def)

lemma min_by_placed:
  assumes "xs \<noteq> []" "\<forall>r \<in> set xs. placed r"
  shows "\<exists>m \<in> set xs. min_by earliest_key xs = Inr m" "\<exists>m \<in> set xs. min_by top_key xs = Inr m"
    "\<exists>m \<in> set xs. min_by tier_key xs = Inr m"
proof -
  obtain m where "min_by earliest_key xs = Inr m" "m \<in> set xs"
    using min_by_least [OF assms(1) key_less_triple, of earliest_key
        "\<lambda>r. (seal_time r, - flt (the (t_boards r)), t_symbol r)"] placed_keys(1) assms(2) by metis
  then show "\<exists>m \<in> set xs. min_by earliest_key xs = Inr m" by blast
  obtain m where "min_by top_key xs = Inr m" "m \<in> set xs"
    using min_by_least [OF assms(1) key_less_triple, of top_key
        "\<lambda>r. (- flt (the (t_boards r)), seal_time r, t_symbol r)"] placed_keys(2) assms(2) by metis
  then show "\<exists>m \<in> set xs. min_by top_key xs = Inr m" by blast
  obtain m where "min_by tier_key xs = Inr m" "m \<in> set xs"
    using min_by_least [OF assms(1) key_less_pair, of tier_key "\<lambda>r. (seal_time r, t_symbol r)"]
      placed_simps(3) assms(2) by metis
  then show "\<exists>m \<in> set xs. min_by tier_key xs = Inr m" by blast
qed

lemma row_for_in: "row_for rows symbol = Some r \<Longrightarrow> r \<in> set rows"
  by (auto simp: row_for_def py_next_def find_Some_iff)

lemma derived_close_total:
  assumes "\<forall>r \<in> set rows. placed r" "row \<in> set rows"
  shows "\<exists>derived. derived_close row rows = Inr derived"
proof -
  define theme where "theme = theme_of (t_sector row) rows"
  have th: "\<forall>r \<in> set theme. placed r" using theme_of_placed [OF assms(1)] by (simp add: theme_def)
  obtain own where own: "row_boards row = Inr own" using placed_simps(2) assms by blast
  obtain bs where bs: "mapR row_boards rows = Inr bs" "length bs = length rows" using mapR_boards [OF assms(1)] by blast
  then obtain top where top: "float_max bs = Inr top" using float_max_total [of bs] assms(2) by fastforce
  have "\<exists>v. market_top row rows = Inr v"
    by (simp add: market_top_def own bs top)
  moreover have "\<exists>v. min_by earliest_key theme = Inr v" "\<exists>v b. min_by top_key theme = Inr v \<and> row_boards v = Inr b"
    if "\<not> length theme < 2"
  proof -
    have ne: "theme \<noteq> []" using that by auto
    show "\<exists>v. min_by earliest_key theme = Inr v" using min_by_placed(1) [OF ne th] by blast
    show "\<exists>v b. min_by top_key theme = Inr v \<and> row_boards v = Inr b"
      using min_by_placed(2) [OF ne th] placed_simps(2) th by blast
  qed
  ultimately show ?thesis
    by (cases "length theme < 2") (auto simp: derived_close_def Let_def theme_def [symmetric] own)
qed

lemma theme_leader_total:
  assumes "\<forall>r \<in> set rows. placed r"
  shows "\<exists>l. theme_leader rows sector = Inr l \<and> (\<forall>r. l = Some r \<longrightarrow> placed r)"
proof -
  have th: "\<forall>r \<in> set (theme_of sector rows). placed r" by (rule theme_of_placed [OF assms])
  show ?thesis
  proof (cases "length (theme_of sector rows) < 2")
    case False
    then have "theme_of sector rows \<noteq> []" by auto
    with min_by_placed(2) [OF this th] th show ?thesis by (auto simp: theme_leader_def Let_def)
  qed (simp add: theme_leader_def)
qed

lemma leader_places_total:
  "placed row \<Longrightarrow> \<forall>r. leader = Some r \<longrightarrow> placed r \<Longrightarrow> \<exists>v. leader_places row leader seal = Inr v"
proof -
  assume row: "placed row" and leader: "\<forall>r. leader = Some r \<longrightarrow> placed r"
  obtain b where b: "row_boards row = Inr (flt b)" using placed_simps(2) [OF row] by blast
  show ?thesis
  proof (cases leader)
    case (Some l)
    with leader have l: "placed l" by simp
    obtain h where h: "row_boards l = Inr (flt h)" using placed_simps(2) [OF l] by blast
    show ?thesis
      by (cases seal) (simp_all add: leader_places_def Some placed_simps(1) [OF l] b h need_def del: bindR_eq_Inr)
  qed (simp add: leader_places_def)
qed

lemma tier_first_total:
  assumes "placed row" "\<forall>r \<in> set tier. placed r"
  shows "\<exists>v. tier_first row tier seal = Inr v"
proof (cases "length tier < 3")
  case False
  then have "tier \<noteq> []" by auto
  with min_by_placed(3) [OF this assms(2)] placed_simps(2) [OF assms(1)] show ?thesis
    by (auto simp: tier_first_def)
qed (simp add: tier_first_def)

lemma leader_change_total:
  assumes "\<forall>r \<in> set rows. placed r" "\<forall>r. prior_leader = Some r \<longrightarrow> placed r"
  shows "\<exists>v. leader_change row rows theme prior_rows prior_leader leader seal = Inr v"
proof (cases prior_leader)
  case (Some pl)
  obtain b where b: "row_boards pl = Inr (flt b)" using placed_simps(2) assms(2) Some by blast
  have today: "seal_of r = Inr (Some (seal_time r))" if "row_for rows (t_symbol pl) = Some r" for r
    using placed_simps(1) assms(1) row_for_in [OF that] by blast
  show ?thesis
    by (cases "row_for rows (t_symbol pl)"; cases seal)
      (auto simp: leader_change_def Some b today need_def)
qed (simp add: leader_change_def)

lemma day_turns_total:
  "placed row \<Longrightarrow> \<forall>r. prior = Some r \<longrightarrow> placed r \<Longrightarrow> \<exists>v. day_turns row prior seal = Inr v"
  using placed_simps(2) [of row] placed_simps(1) [of "the prior"]
  by (cases prior) (auto simp: day_turns_def seal_at_or_after_def)

lemma rebound_total:
  assumes "placed row" "placed_previous previous"
  shows "\<exists>v. rebound_value row previous = Inr v"
proof -
  define history where "history = map complete_rows (take 3 previous)"
  have "\<exists>v. rebound_candidate row (map the history) lag = Inr v"
    if lag: "lag - 1 < length history" and known: "None \<notin> set history" for lag
  proof -
    have mem: "history ! (lag - 1) \<in> set history" using lag by simp
    then obtain rows where rows: "history ! (lag - 1) = Some rows" using known by (metis option.exhaust)
    obtain r where r: "r \<in> set previous" "complete_rows r = Some rows"
      using mem rows by (auto simp: history_def dest: in_set_takeD)
    then have rp: "\<forall>x \<in> set rows. placed x" using assms(2) by (auto simp: placed_previous_def)
    have nth: "map the history ! (lag - 1) = rows" using lag rows by simp
    obtain b where b: "row_boards row = Inr (flt b)" using placed_simps(2) [OF assms(1)] by blast
    show ?thesis
    proof (cases "row_for rows (t_symbol row)")
      case (Some e)
      obtain h where "row_boards e = Inr (flt h)" using placed_simps(2) rp row_for_in [OF Some] by blast
      then show ?thesis
        unfolding rebound_candidate_def Let_def nth by (cases "flt h < 2") (auto simp add: Some b simp del: bindR_eq_Inr)
    qed (unfold rebound_candidate_def Let_def nth, auto)
  qed
  note cand = this
  show ?thesis
  proof (cases "length previous < 3 \<or> None \<in> set history")
    case False
    then have "length history = 3" by (simp add: history_def)
    with cand [of 2] cand [of 3] False show ?thesis
      using placed_simps(2) [OF assms(1)]
      by (auto simp: rebound_value_def Let_def history_def [symmetric] REBOUND_LAGS_def)
  qed (use placed_simps(2) [OF assms(1)] in \<open>auto simp: rebound_value_def Let_def history_def [symmetric]\<close>)
qed

lemma role_values_total:
  assumes "\<forall>r \<in> set rows. placed r" "row \<in> set rows" "placed_previous previous"
  shows "\<exists>roles. role_values row rows previous = Inr roles"
proof -
  let ?sector = "t_sector row" and ?theme = "theme_of (t_sector row) rows"
    and ?tier = "filter (\<lambda>item. t_boards item = t_boards row) rows"
  define prior_rows where "prior_rows = (case previous of [] \<Rightarrow> None | r # _ \<Rightarrow> complete_rows r)"
  have row: "placed row" using assms(1,2) by blast
  have prior: "\<forall>r \<in> set rs. placed r" if "prior_rows = Some rs" for rs
    using that assms(3) by (auto simp: prior_rows_def placed_previous_def split: list.splits)
  obtain leader where leader: "theme_leader rows ?sector = Inr leader" "\<forall>r. leader = Some r \<longrightarrow> placed r"
    using theme_leader_total [OF assms(1)] by blast
  obtain prior_leader where pl: "(case prior_rows of None \<Rightarrow> Inr None | Some rs \<Rightarrow> theme_leader rs ?sector) = Inr prior_leader"
    "\<forall>r. prior_leader = Some r \<longrightarrow> placed r"
    using theme_leader_total prior by (cases prior_rows) (auto, blast)
  have pr: "\<forall>r. Option.bind prior_rows (\<lambda>rs. row_for rs (t_symbol row)) = Some r \<longrightarrow> placed r"
    using prior row_for_in by (cases prior_rows) auto
  have seal: "seal_of row = Inr (Some (seal_time row))" by (rule placed_simps(1) [OF row])
  have bs: "\<exists>bs. mapR row_boards ?theme = Inr bs"
    using mapR_boards [OF theme_of_placed [OF assms(1)]] by blast
  obtain first where 1: "tier_first row ?tier (Some (seal_time row)) = Inr first"
    using tier_first_total [OF row, of ?tier] assms(1) by auto
  obtain pf pb pa where 2: "leader_places row leader (Some (seal_time row)) = Inr (pf, pb, pa)"
    using leader_places_total [OF row leader(2)] by (metis prod_cases3)
  obtain sole where 3: "sole_high_board row ?tier = Inr sole"
    using placed_simps(2) [OF row] by (auto simp: sole_high_board_def)
  obtain full where 4: "ladder_full ?sector ?theme = Inr full"
    using bs by (auto simp: ladder_full_def)
  obtain k sw where 5: "leader_change row rows ?theme prior_rows prior_leader leader (Some (seal_time row)) = Inr (k, sw)"
    using leader_change_total [OF assms(1) pl(2)] by (metis prod.exhaust)
  obtain d1 d2 d3 where 6: "day_turns row (Option.bind prior_rows (\<lambda>rs. row_for rs (t_symbol row))) (Some (seal_time row))
      = Inr (d1, d2, d3)"
    using day_turns_total [OF row pr] by (metis prod_cases3)
  obtain rb where 7: "rebound_value row previous = Inr rb" using rebound_total [OF row assms(3)] by blast
  show ?thesis
    unfolding role_values_def Let_def prior_rows_def [symmetric]
    by (simp add: leader(1) seal 1 2 3 4 pl(1) 5 6 7)
qed

text \<open>A stock condition raises only where the derived values or the row's own seal do.\<close>

definition quiet_test :: "condition_test \<Rightarrow> bool" where
  "quiet_test t = (case t of StockTest f \<Rightarrow> \<forall>ev. placed (ev_row ev) \<longrightarrow> (\<exists>v. f ev = Inr v) | DayTest f \<Rightarrow> True)"

lemma quiet_tests [simp]:
  "quiet_test (row_test fld predicate)" "quiet_test (count_test cfld predicate)" "quiet_test (derived_test key)"
  "quiet_test (flag_test bfld expected)" "quiet_test (DayTest f)"
  "quiet_test (StockTest (\<lambda>ev. Inr (h (ev_row ev))))"
  "quiet_test (StockTest (\<lambda>ev. seal_at_or_after (ev_row ev) a b))"
  "quiet_test (StockTest (\<lambda>ev. seal_early (ev_row ev)))"
  by (auto simp: quiet_test_def row_test_def count_test_def derived_test_def flag_test_def seal_at_or_after_def
      seal_early_def seal_before_def placed_simps(1))

lemma conditions_quiet: "c \<in> set CONDITIONS \<Longrightarrow> quiet_test (cd_test c)"
proof -
  have "list_all (\<lambda>c. quiet_test (cd_test c)) close_conditions"
    "list_all (\<lambda>c. quiet_test (cd_test c)) day_conditions"
    "list_all (\<lambda>c. quiet_test (cd_test c)) auction_conditions"
    "list_all (\<lambda>c. quiet_test (cd_test c)) ladder_conditions"
    by (simp_all add: close_conditions_def day_conditions_def auction_conditions_def ladder_conditions_def
        role_condition_def)
  then show "c \<in> set CONDITIONS \<Longrightarrow> quiet_test (cd_test c)"
    by (auto simp: CONDITIONS_def list_all_iff)
qed

lemma condition_value_total:
  assumes "c \<in> set CONDITIONS" "placed row" "derived_close row rows = Inr derived"
  shows "\<exists>v. condition_value c row rows roles = Inr v"
  using conditions_quiet [OF assms(1)] assms(2)
  by (auto simp: condition_value_def assms(3) quiet_test_def split: condition_test.splits)

lemma mapR_succeeds: "(\<And>x. x \<in> set xs \<Longrightarrow> \<exists>y. f x = Inr y) \<Longrightarrow> \<exists>ys. mapR f xs = Inr ys"
proof (induction xs)
  case (Cons x xs)
  obtain y ys where "f x = Inr y" "mapR f xs = Inr ys" using Cons by (meson list.set_intros)
  then show ?case by simp
qed simp

text \<open>The evaluation after the close never raises on rows whose boards and seals are known.\<close>

lemma evaluate_close_total:
  assumes "\<forall>r \<in> set rows. placed r" "placed_previous previous"
  shows "\<exists>ev. evaluate_conditions rows day ''close'' previous = Inr ev"
proof -
  have "\<exists>row'. evaluate_row ''close'' rows previous row = Inr row'" if row: "row \<in> set rows" for row
  proof -
    obtain roles where roles: "role_values row rows previous = Inr roles"
      using role_values_total [OF assms(1) row assms(2)] by blast
    obtain derived where d: "derived_close row rows = Inr derived" using derived_close_total [OF assms(1) row] by blast
    have "\<exists>own. mapR (\<lambda>c. bindR (condition_value c row rows (Some roles)) (\<lambda>v. Inr (cd_key c, v)))
        (conditions_of ''stock'' ''close'') = Inr own"
    proof (rule mapR_succeeds)
      fix c assume "c \<in> set (conditions_of ''stock'' ''close'')"
      then have "c \<in> set CONDITIONS" by (simp add: conditions_of_def)
      from condition_value_total [OF this _ d] assms(1) row
      show "\<exists>y. bindR (condition_value c row rows (Some roles)) (\<lambda>v. Inr (cd_key c, v)) = Inr y" by fastforce
    qed
    then show ?thesis by (auto simp: evaluate_row_def roles)
  qed
  then obtain found where "mapR (evaluate_row ''close'' rows previous) rows = Inr found" using mapR_succeeds by blast
  then show ?thesis by (simp add: evaluate_conditions_def Let_def)
qed

definition example_theme :: "trial_row list" where
  "example_theme = [example_row ''A'' ''Theme'' 2 ''09:40:00'', example_row ''B'' ''Theme'' 1 ''10:40:00'']"

lemma example_placed: "\<forall>r \<in> set example_theme. placed r"
  by code_simp

lemma theme_leader_flag_witness:
  "\<exists>ev. evaluate_conditions example_theme no_day ''close'' [] = Inr ev \<and>
    (\<exists>l \<in> set example_theme. (\<forall>r \<in> set (e_rows ev). cell_eq (t_sector r) (CText ''Theme'') \<longrightarrow>
         (''theme_leader_earliest'' \<in> set (t_flags r) \<longleftrightarrow> t_symbol r = t_symbol l)))"
proof -
  obtain ev where ev: "evaluate_conditions example_theme no_day ''close'' [] = Inr ev"
    using evaluate_close_total [OF example_placed, of "[]" no_day] by (auto simp: placed_previous_def)
  have th: "theme_of (CText ''Theme'') example_theme = example_theme"
    by (simp add: theme_of_def example_theme_def example_row_def)
  have "2 \<le> length example_theme" "cell_true (CText ''Theme'')"
    by (simp_all add: example_theme_def cell_true_def)
  then show ?thesis
    using theme_leader_flag [OF ev th [symmetric]] example_placed ev by blast
qed

end
