(* ===== verification/TacticTrials.thy ===== *)
theory TacticTrials
  imports TacticConditions TacticExits
begin

text \<open>
  \<open>quant-service/app/tactic_trials.py\<close>: the registered tactics, their three-valued evaluation on the
  rows of a reading, the daily comparison of the picks with the rows of the same cells, and the
  records folded from one digest a day, with the Benjamini-Hochberg correction of
  \<open>research_trials.py\<close>. An outcome value is a truth value or the number its text denotes
  (the code goes through \<open>Decimal(str(value))\<close>). Display names, the fingerprint of the registry
  and the text lines of the evening summary are left out; \<open>math.erfc\<close> is an argument.
\<close>

section \<open>Tactics\<close>

record trial_tactic =
  tc_key :: string
  tc_slot :: string
  tc_side :: string
  tc_all_of :: "string list"
  tc_none_of :: "string list"
  tc_at_least :: "(nat \<times> string list) option"
  tc_day_conditions :: "string list"
  tc_cell :: "string list"
  tc_entry :: string
  tc_exit :: string
  tc_primary :: string
  tc_expects :: int
  tc_registered_on :: date

definition REGISTERED_ON :: date where "REGISTERED_ON = date_ordinal 2026 10 13"

definition STATE_OUTCOMES :: "string list" where
  "STATE_OUTCOMES = [''seal'', ''big_loss'', ''open_to_close'']"

definition combination :: "trial_tactic \<Rightarrow> bool" where
  "combination tac = (\<not> startswith (tc_key tac) ''only.'')"

record tactic_terms =
  tt_all_of :: "string list"
  tt_none_of :: "string list"
  tt_at_least :: "(nat \<times> string list) option"
  tt_day :: "string list"
  tt_cell :: "string list"
  tt_exit :: "string option"

definition no_terms :: tactic_terms where
  "no_terms = \<lparr>tt_all_of = [], tt_none_of = [], tt_at_least = None, tt_day = [], tt_cell = [], tt_exit = None\<rparr>"

definition combo :: "string \<Rightarrow> string \<Rightarrow> string \<Rightarrow> tactic_terms \<Rightarrow> string \<Rightarrow> int \<Rightarrow> trial_tactic" where
  "combo key slot side terms primary expects =
     \<lparr>tc_key = key, tc_slot = slot, tc_side = side, tc_all_of = tt_all_of terms, tc_none_of = tt_none_of terms,
      tc_at_least = tt_at_least terms, tc_day_conditions = tt_day terms,
      tc_cell = (if tt_cell terms \<noteq> [] then tt_cell terms
        else if slot = ''close'' then [''board_bucket''] else [''board_bucket'', ''gap_bucket'']),
      tc_entry = (if side = ''hold'' \<or> (side = ''avoid'' \<and> slot = ''close'') then ''held'' else ''buy_open''),
      tc_exit = (case tt_exit terms of Some e \<Rightarrow> e
        | None \<Rightarrow> if side = ''focus'' \<or> side = ''hold'' then ''gap_rule'' else ''close''),
      tc_primary = primary, tc_expects = expects, tc_registered_on = REGISTERED_ON\<rparr>"

definition COMBINATIONS :: "trial_tactic list" where
  "COMBINATIONS =
     [combo ''leader_hold'' ''close'' ''hold'' (no_terms\<lparr>tt_all_of := [''theme_7plus'', ''theme_leader_earliest''],
        tt_none_of := [''seal_small'', ''volume_heavy'', ''seal_late'']\<rparr>) ''held:gap_rule'' 1,
      combo ''relay_2_3'' ''close'' ''focus'' (no_terms\<lparr>tt_all_of := [''board_2_3'', ''theme_7plus''],
        tt_none_of := [''seal_small'', ''volume_heavy'']\<rparr>) ''seal'' 1,
      combo ''far_volume_cleared'' ''close'' ''focus'' (no_terms\<lparr>tt_all_of := [''amount_record_250'', ''theme_big'']\<rparr>)
        ''buy_open:gap_rule'' 1,
      combo ''shrunk_acceleration'' ''close'' ''focus'' (no_terms\<lparr>tt_all_of := [''volume_shrunk''],
        tt_none_of := [''sealed_from_open''], tt_at_least := Some (1, [''board_2_3'', ''board_4plus''])\<rparr>) ''seal'' 1,
      combo ''ladder_env_relay'' ''close'' ''focus'' (no_terms\<lparr>tt_at_least := Some (1, [''board_2_3'', ''board_4plus'']),
        tt_day := [''env_ladder_ok'']\<rparr>) ''buy_open:gap_rule'' 1,
      combo ''after_top_failed'' ''close'' ''avoid'' (no_terms\<lparr>tt_at_least := Some (1, [''board_2_3'', ''board_4plus'']),
        tt_day := [''env_top_board_failed'']\<rparr>) ''held:close'' (- 1),
      combo ''weak_board_two_signs'' ''close'' ''avoid'' (no_terms\<lparr>tt_at_least := Some (2, [''seal_small'',
        ''volume_heavy'', ''amount_record_250'', ''seal_late'', ''runup_40'', ''risk_top_fifth'', ''theme_lone''])\<rparr>)
        ''big_loss'' 1,
      combo ''tier_race_winner'' ''close'' ''hold'' (no_terms\<lparr>tt_all_of := [''tier_first''],
        tt_none_of := [''seal_small'', ''volume_heavy'']\<rparr>) ''held:gap_rule'' 1,
      combo ''kawei_hold'' ''close'' ''hold'' (no_terms\<lparr>tt_all_of := [''theme_7plus''],
        tt_at_least := Some (1, [''front_row'', ''kawei_leader''])\<rparr>) ''seal'' 1,
      combo ''assist_no_relay'' ''close'' ''avoid'' (no_terms\<lparr>tt_none_of := [''tier_first'', ''front_row''],
        tt_at_least := Some (1, [''assist'', ''back_row''])\<rparr>) ''seal'' (- 1),
      combo ''catch_up_low'' ''close'' ''focus'' (no_terms\<lparr>tt_all_of := [''catch_up_first_board''],
        tt_none_of := [''runup_40'', ''seal_small'', ''seal_late'']\<rparr>) ''buy_open:gap_rule'' 1,
      combo ''first_open_after_one_word'' ''close'' ''avoid'' (no_terms\<lparr>tt_all_of := [''consensus_to_divergence'']\<rparr>)
        ''big_loss'' 1,
      combo ''rebound_board_risk'' ''close'' ''avoid'' (no_terms\<lparr>tt_all_of := [''rebound_board'']\<rparr>) ''big_loss'' 1,
      combo ''kawei_gap_up'' ''auction'' ''avoid'' (no_terms\<lparr>tt_all_of := [''gap_up_5_not_sealed''],
        tt_at_least := Some (1, [''prev.front_row'', ''prev.kawei_leader'']), tt_cell := [''board_bucket'']\<rparr>)
        ''buy_open:close'' (- 1),
      combo ''tier_winner_moderate_gap'' ''auction'' ''focus'' (no_terms\<lparr>tt_all_of := [''prev.tier_first'', ''gap_0_to_5''],
        tt_cell := [''board_bucket'']\<rparr>) ''buy_open:gap_rule'' 1,
      combo ''leader_moderate_gap'' ''auction'' ''focus'' (no_terms\<lparr>tt_all_of := [''prev.theme_leader_earliest'',
        ''prev.theme_7plus'', ''gap_0_to_5''], tt_none_of := [''prev.risk_top_fifth''], tt_cell := [''board_bucket'']\<rparr>)
        ''buy_open:gap_rule'' 1,
      combo ''teacher_auction_entry'' ''auction'' ''focus'' (no_terms\<lparr>tt_all_of := [''gap_3_to_8'', ''auction_burst''],
        tt_none_of := [''prev.sealed_from_open''], tt_cell := [''board_bucket''], tt_exit := Some ''must_rise''\<rparr>)
        ''buy_open:must_rise'' 1,
      combo ''amount_top5_big_theme'' ''auction'' ''focus'' (no_terms\<lparr>tt_all_of := [''auction_amount_top5'',
        ''prev.theme_big'']\<rparr>) ''seal'' 1,
      combo ''gap_up_weak_board'' ''auction'' ''avoid'' (no_terms\<lparr>tt_all_of := [''gap_up_5_not_sealed''],
        tt_at_least := Some (1, [''prev.seal_small'', ''prev.volume_heavy'']), tt_cell := [''board_bucket'']\<rparr>)
        ''open_to_close'' (- 1),
      combo ''weak_board_gap_down'' ''auction'' ''focus'' (no_terms\<lparr>tt_all_of := [''gap_down_2''],
        tt_at_least := Some (1, [''prev.seal_small'', ''prev.volume_heavy'']), tt_cell := [''board_bucket'']\<rparr>)
        ''buy_open:gap_rule'' 1]"

definition return_side :: "string \<Rightarrow> int \<Rightarrow> string" where
  "return_side outcome claim =
     (if claim = - 1 then ''avoid'' else if outcome = ''big_loss'' then ''avoid''
      else if outcome = ''buy_open:close'' then ''focus'' else ''hold'')"

definition single_tactic :: "condition \<Rightarrow> trial_tactic" where
  "single_tactic c =
     \<lparr>tc_key = ''only.'' @ cd_key c, tc_slot = cd_slot c, tc_side = return_side (cd_claim_outcome c) (cd_claim c),
      tc_all_of = [cd_key c], tc_none_of = [], tc_at_least = None, tc_day_conditions = [],
      tc_cell = [''board_bucket''], tc_entry = (if cd_slot c = ''close'' then ''held'' else ''buy_open''),
      tc_exit = ''close'', tc_primary = cd_claim_outcome c, tc_expects = cd_claim c,
      tc_registered_on = REGISTERED_ON\<rparr>"

definition single_condition_tactics :: "trial_tactic list" where
  "single_condition_tactics = map single_tactic (filter (\<lambda>c. cd_level c = ''stock'') CONDITIONS)"

definition TACTICS :: "trial_tactic list" where
  "TACTICS = COMBINATIONS @ single_condition_tactics"

section \<open>Three-valued evaluation\<close>

record day_flags =
  df_flags :: "string list"
  df_unknown :: "string list"

definition flag_value :: "string \<Rightarrow> string list \<Rightarrow> string list \<Rightarrow> bool option" where
  "flag_value key flags unknown =
     (if key \<in> set flags then Some True else if key \<in> set unknown then None else Some False)"

definition tactic_condition_value :: "string \<Rightarrow> trial_row \<Rightarrow> bool option" where
  "tactic_condition_value key row =
     (if startswith key ''prev.'' \<and> t_prev row = None then None else flag_value key (t_flags row) (t_unknown row))"

definition day_condition_value :: "string \<Rightarrow> trial_row \<Rightarrow> day_flags \<Rightarrow> bool option" where
  "day_condition_value key row day =
     (if startswith key ''prev.'' \<and> t_prev row = None then None else flag_value key (df_flags day) (df_unknown day))"

definition combine :: "bool option list \<Rightarrow> bool option" where
  "combine vals = (if Some False \<in> set vals then Some False else if None \<in> set vals then None else Some True)"

definition at_least :: "(nat \<times> string list) option \<Rightarrow> trial_row \<Rightarrow> bool option" where
  "at_least need_of row =
     (case need_of of
        None \<Rightarrow> Some True
      | Some (minimum, keys) \<Rightarrow>
          let states = map (\<lambda>key. tactic_condition_value key row) keys;
              true_count = count_if (\<lambda>s. s = Some True) states;
              unknown_count = count_if (\<lambda>s. s = None) states
          in if minimum \<le> true_count then Some True
             else if true_count + unknown_count < minimum then Some False else None)"

definition none_of_value :: "bool option list \<Rightarrow> bool option" where
  "none_of_value vals = (if Some True \<in> set vals then Some False else if None \<in> set vals then None else Some True)"

definition evaluate_tactic :: "trial_tactic \<Rightarrow> trial_row \<Rightarrow> day_flags \<Rightarrow> bool option" where
  "evaluate_tactic tac row day =
     combine (map (\<lambda>key. tactic_condition_value key row) (tc_all_of tac)
       @ [none_of_value (map (\<lambda>key. tactic_condition_value key row) (tc_none_of tac)),
          at_least (tc_at_least tac) row]
       @ map (\<lambda>key. day_condition_value key row day) (tc_day_conditions tac))"

section \<open>One day of a tactic\<close>

datatype measured = MBool bool | MNum rat

definition number :: "measured \<Rightarrow> rat" where
  "number v = (case v of MBool b \<Rightarrow> (if b then 1 else 0) | MNum x \<Rightarrow> x)"

definition mean_of :: "measured option list \<Rightarrow> rat option" where
  "mean_of vals =
     (let valid = List.map_filter (map_option number) vals
      in if valid = [] then None else Some (dec (fold (\<lambda>x acc. dadd acc x) valid 0 / of_nat (length valid))))"

record exit_item =
  x_status :: string
  x_raw :: "measured option"
  x_net :: "measured option"

record outcome =
  o_entries :: "string \<Rightarrow> string \<Rightarrow> exit_item option"
  o_states :: "string \<Rightarrow> measured option"

definition no_outcome :: outcome where
  "no_outcome = \<lparr>o_entries = (\<lambda>_ _. None), o_states = (\<lambda>_. None)\<rparr>"

definition outcome_for :: "(string \<Rightarrow> outcome option) \<Rightarrow> string \<Rightarrow> outcome" where
  "outcome_for outcomes symbol = (case outcomes symbol of None \<Rightarrow> no_outcome | Some r \<Rightarrow> r)"

definition outcome_value :: "outcome \<Rightarrow> string \<Rightarrow> measured option \<times> string option" where
  "outcome_value result key =
     (case py_partition CHR '':'' key of (entry, found, exit_key) \<Rightarrow>
        if found then
          (case o_entries result entry exit_key of
             None \<Rightarrow> (None, None)
           | Some item \<Rightarrow> (if entry = ''buy_open'' then x_net item else x_raw item, Some (x_status item)))
        else (o_states result key, None))"

definition outcome_keys :: "string list" where
  "outcome_keys =
     concat (map (\<lambda>entry. map (\<lambda>e. entry @ '':'' @ fst e) EXITS) [''held'', ''buy_open'']) @ STATE_OUTCOMES"

definition cell_field :: "trial_row \<Rightarrow> string \<Rightarrow> string option" where
  "cell_field row fld =
     (if fld = ''board_bucket'' then t_board_bucket row
      else if fld = ''gap_bucket'' then t_gap_bucket row else None)"

definition cell_of :: "trial_row \<Rightarrow> string list \<Rightarrow> string option list" where
  "cell_of row flds = map (cell_field row) flds"

record summary =
  sm_pick_mean :: "rat option"
  sm_comparison_mean :: "rat option"
  sm_cell_means :: "(string \<times> rat option \<times> nat) list"
  sm_difference :: "rat option"
  sm_pick_values :: nat
  sm_pick_values_missing :: nat
  sm_comparison_values :: nat
  sm_comparison_values_missing :: nat
  sm_differences :: nat

definition summary_of :: "trial_row list \<Rightarrow> trial_row list list \<Rightarrow> (string \<Rightarrow> outcome option) \<Rightarrow> string \<Rightarrow> summary" where
  "summary_of picks comparisons outcomes key =
     (let worth = (\<lambda>row. fst (outcome_value (outcome_for outcomes (t_symbol row)) key));
          pick_values = map worth picks;
          comparison_values = map (map worth) comparisons;
          comparison_means = map mean_of comparison_values;
          differences = List.map_filter
            (\<lambda>(v, m). case (v, m) of (Some x, Some y) \<Rightarrow> Some (dsub (number x) y) | _ \<Rightarrow> None)
            (zip pick_values comparison_means)
      in \<lparr>sm_pick_mean = mean_of pick_values,
          sm_comparison_mean = mean_of (map (map_option MNum) comparison_means),
          sm_cell_means = map (\<lambda>(row, m, g). (t_symbol row, m, length g))
            (zip picks (zip comparison_means comparisons)),
          sm_difference = mean_of (map (\<lambda>d. Some (MNum d)) differences),
          sm_pick_values = count_if (\<lambda>v. v \<noteq> None) pick_values,
          sm_pick_values_missing = count_if (\<lambda>v. v = None) pick_values,
          sm_comparison_values = count_if (\<lambda>v. v \<noteq> None) (concat comparison_values),
          sm_comparison_values_missing = count_if (\<lambda>v. v = None) (concat comparison_values),
          sm_differences = length differences\<rparr>)"

record day_counts =
  ct_picks :: nat
  ct_without_comparison :: nat
  ct_rows_unknown :: nat
  ct_no_trade :: nat
  ct_not_resolved :: nat

record tactic_day_result =
  dr_primary :: summary
  dr_outcomes :: "(string \<times> summary) list"
  dr_counts :: day_counts

definition picks_of :: "trial_tactic \<Rightarrow> trial_row list \<Rightarrow> day_flags \<Rightarrow> trial_row list" where
  "picks_of tac rows day = filter (\<lambda>row. evaluate_tactic tac row day = Some True) rows"

definition comparison_of :: "trial_tactic \<Rightarrow> trial_row list \<Rightarrow> day_flags \<Rightarrow> trial_row \<Rightarrow> trial_row list" where
  "comparison_of tac rows day row =
     filter (\<lambda>c. evaluate_tactic tac c day = Some False \<and> cell_of c (tc_cell tac) = cell_of row (tc_cell tac)) rows"

definition day_result :: "trial_tactic \<Rightarrow> trial_row list \<Rightarrow> day_flags \<Rightarrow> (string \<Rightarrow> outcome option) \<Rightarrow> string list
    \<Rightarrow> tactic_day_result res" where
  "day_result tac rows day outcomes keys =
     (let picks = picks_of tac rows day;
          comparisons = map (comparison_of tac rows day) picks;
          statuses = map (\<lambda>row. snd (outcome_value (outcome_for outcomes (t_symbol row))
                        (tc_entry tac @ '':'' @ tc_exit tac))) picks;
          scored = map (\<lambda>key. (key, summary_of picks comparisons outcomes key))
            (if keys = [] then outcome_keys else keys)
      in bindR (need KeyError (map_of scored (tc_primary tac))) (\<lambda>primary.
           Inr \<lparr>dr_primary = primary, dr_outcomes = scored,
                dr_counts = \<lparr>ct_picks = length picks, ct_without_comparison = count_if (\<lambda>g. g = []) comparisons,
                  ct_rows_unknown = count_if (\<lambda>row. evaluate_tactic tac row day = None) rows,
                  ct_no_trade = count_if (\<lambda>s. s = Some ''no_trade'') statuses,
                  ct_not_resolved = count_if (\<lambda>s. s = Some ''not_resolved'') statuses\<rparr>\<rparr>))"


section \<open>Evaluation against classical logic\<close>

text \<open>The two-valued meaning of a tactic, and the truth assignments a row with unknowns allows.\<close>

definition classical_pick :: "trial_tactic \<Rightarrow> (string \<Rightarrow> bool) \<Rightarrow> (string \<Rightarrow> bool) \<Rightarrow> bool" where
  "classical_pick tac truth day_truth =
     ((\<forall>k \<in> set (tc_all_of tac). truth k) \<and> (\<forall>k \<in> set (tc_none_of tac). \<not> truth k)
      \<and> (case tc_at_least tac of None \<Rightarrow> True | Some (n, keys) \<Rightarrow> n \<le> count_if truth keys)
      \<and> (\<forall>k \<in> set (tc_day_conditions tac). day_truth k))"

definition completes :: "(string \<Rightarrow> bool option) \<Rightarrow> (string \<Rightarrow> bool) \<Rightarrow> bool" where
  "completes known truth = (\<forall>k b. known k = Some b \<longrightarrow> truth k = b)"

text \<open>No key both asked for and excluded.\<close>

definition wanted_keys :: "trial_tactic \<Rightarrow> string list" where
  "wanted_keys tac = tc_all_of tac @ (case tc_at_least tac of None \<Rightarrow> [] | Some (n, keys) \<Rightarrow> keys)"

definition separate_keys :: "trial_tactic \<Rightarrow> bool" where
  "separate_keys tac = list_all (\<lambda>k. k \<notin> set (wanted_keys tac)) (tc_none_of tac)"

lemma combine_iff:
  "combine vals = Some True \<longleftrightarrow> (\<forall>v \<in> set vals. v = Some True)"
  "combine vals = Some False \<longleftrightarrow> Some False \<in> set vals"
  by (auto simp: combine_def) (metis (full_types) not_Some_eq)+

lemma none_of_value_iff:
  "none_of_value vals = Some True \<longleftrightarrow> (\<forall>v \<in> set vals. v = Some False)"
  "none_of_value vals = Some False \<longleftrightarrow> Some True \<in> set vals"
  by (auto simp: none_of_value_def) (metis (full_types) not_Some_eq)+

lemma count_if_mono: "(\<And>x. x \<in> set xs \<Longrightarrow> P x \<Longrightarrow> Q x) \<Longrightarrow> count_if P xs \<le> count_if Q xs"
  by (induction xs) (auto simp: count_if_def le_SucI)

lemma count_if_disj: "(\<And>x. x \<in> set xs \<Longrightarrow> \<not> (P x \<and> Q x)) \<Longrightarrow>
    count_if P xs + count_if Q xs = count_if (\<lambda>x. P x \<or> Q x) xs"
  by (induction xs) (auto simp: count_if_def)

lemma at_least_iff:
  "at_least (Some (n, keys)) row = Some True
     \<longleftrightarrow> n \<le> count_if (\<lambda>k. tactic_condition_value k row = Some True) keys"
  "at_least (Some (n, keys)) row = Some False
     \<longleftrightarrow> count_if (\<lambda>k. tactic_condition_value k row \<noteq> Some False) keys < n"
proof -
  have t: "count_if (\<lambda>s. s = v) (map (\<lambda>k. tactic_condition_value k row) keys)
      = count_if (\<lambda>k. tactic_condition_value k row = v) keys" for v
    by (simp add: count_if_def filter_map comp_def)
  have u: "count_if (\<lambda>k. tactic_condition_value k row = Some True) keys
      + count_if (\<lambda>k. tactic_condition_value k row = None) keys
      = count_if (\<lambda>k. tactic_condition_value k row \<noteq> Some False) keys"
    by (subst count_if_disj) (auto simp: count_if_def intro!: arg_cong [of _ _ "\<lambda>p. length (filter p keys)"])
  show "at_least (Some (n, keys)) row = Some True
     \<longleftrightarrow> n \<le> count_if (\<lambda>k. tactic_condition_value k row = Some True) keys"
    "at_least (Some (n, keys)) row = Some False
     \<longleftrightarrow> count_if (\<lambda>k. tactic_condition_value k row \<noteq> Some False) keys < n"
    using u by (auto simp: at_least_def Let_def t)
qed

text \<open>The two extreme completions: every unknown key that is wanted true and every excluded one
  false, and the other way round.\<close>

definition extreme :: "trial_tactic \<Rightarrow> bool \<Rightarrow> (string \<Rightarrow> bool option) \<Rightarrow> string \<Rightarrow> bool" where
  "extreme tac wish known k =
     (case known k of Some b \<Rightarrow> b | None \<Rightarrow> if k \<in> set (tc_none_of tac) then \<not> wish else wish)"

lemma extreme_completes: "completes known (extreme tac wish known)"
  by (auto simp: completes_def extreme_def)

definition fill :: "bool \<Rightarrow> (string \<Rightarrow> bool option) \<Rightarrow> string \<Rightarrow> bool" where
  "fill wish known k = (case known k of Some b \<Rightarrow> b | None \<Rightarrow> wish)"

lemma fill_completes: "completes known (fill wish known)"
  by (auto simp: completes_def fill_def)

lemma fill_iff: "fill False known k \<longleftrightarrow> known k = Some True" "fill True known k \<longleftrightarrow> known k \<noteq> Some False"
  by (auto simp: fill_def split: option.splits)

lemma fill_fun: "fill False known = (\<lambda>k. known k = Some True)" "fill True known = (\<lambda>k. known k \<noteq> Some False)"
  by (rule ext, simp add: fill_iff)+

lemma extreme_wanted:
  assumes "separate_keys tac" "k \<in> set (wanted_keys tac)"
  shows "extreme tac wish known k = fill wish known k"
  using assms by (auto simp: separate_keys_def list_all_iff extreme_def fill_def split: option.splits)

lemma extreme_excluded: "k \<in> set (tc_none_of tac) \<Longrightarrow> extreme tac wish known k = fill (\<not> wish) known k"
  by (simp add: extreme_def fill_def split: option.splits)

lemma wanted_count:
  assumes "separate_keys tac" "tc_at_least tac = Some (n, keys)"
  shows "count_if (extreme tac wish known) keys = count_if (fill wish known) keys"
  unfolding count_if_def
  by (rule arg_cong [of _ _ length], rule filter_cong [OF refl])
    (use extreme_wanted [OF assms(1)] assms(2) in \<open>simp add: wanted_keys_def\<close>)

lemma evaluate_true_iff:
  assumes "separate_keys tac"
  shows "evaluate_tactic tac row day = Some True \<longleftrightarrow>
    classical_pick tac (extreme tac False (\<lambda>k. tactic_condition_value k row))
      (fill False (\<lambda>k. day_condition_value k row day))"
proof -
  have all: "\<forall>k \<in> set (tc_all_of tac). extreme tac False f k = (f k = Some True)" for f
    using extreme_wanted [OF assms] by (simp add: wanted_keys_def fill_iff)
  have none: "\<forall>k \<in> set (tc_none_of tac). extreme tac False f k = (f k \<noteq> Some False)" for f
    by (simp add: extreme_excluded fill_iff)
  show ?thesis
  proof (cases "tc_at_least tac")
    case None
    then show ?thesis using all none
      by (auto simp: evaluate_tactic_def combine_iff none_of_value_iff classical_pick_def at_least_def fill_iff)
  next
    case (Some nk)
    obtain n keys where nk: "nk = (n, keys)" by fastforce
    show ?thesis using all none wanted_count [OF assms, of n keys False "\<lambda>k. tactic_condition_value k row"] Some
      by (auto simp: evaluate_tactic_def combine_iff none_of_value_iff classical_pick_def nk at_least_iff fill_fun)
  qed
qed

lemma evaluate_false_iff:
  assumes "separate_keys tac"
  shows "evaluate_tactic tac row day = Some False \<longleftrightarrow>
    \<not> classical_pick tac (extreme tac True (\<lambda>k. tactic_condition_value k row))
      (fill True (\<lambda>k. day_condition_value k row day))"
proof -
  have all: "\<forall>k \<in> set (tc_all_of tac). extreme tac True f k = (f k \<noteq> Some False)" for f
    using extreme_wanted [OF assms] by (simp add: wanted_keys_def fill_iff)
  have none: "\<forall>k \<in> set (tc_none_of tac). extreme tac True f k = (f k = Some True)" for f
    by (simp add: extreme_excluded fill_iff)
  have ev: "evaluate_tactic tac row day = Some False \<longleftrightarrow>
      (\<exists>k \<in> set (tc_all_of tac). tactic_condition_value k row = Some False)
    \<or> (\<exists>k \<in> set (tc_none_of tac). tactic_condition_value k row = Some True)
    \<or> at_least (tc_at_least tac) row = Some False
    \<or> (\<exists>k \<in> set (tc_day_conditions tac). day_condition_value k row day = Some False)"
    by (auto simp: evaluate_tactic_def combine_iff eq_commute [of "Some False"] none_of_value_iff
        eq_commute [of "Some True"])
  show ?thesis
  proof (cases "tc_at_least tac")
    case None
    then show ?thesis unfolding ev using all none
      by (auto simp: classical_pick_def at_least_def fill_iff)
  next
    case (Some nk)
    obtain n keys where nk: "nk = (n, keys)" by fastforce
    show ?thesis unfolding ev
      using all none wanted_count [OF assms, of n keys True "\<lambda>k. tactic_condition_value k row"] Some
      by (auto simp: classical_pick_def nk at_least_iff fill_fun not_le)
  qed
qed

lemma classical_mono:
  assumes "\<And>k. k \<in> set (wanted_keys tac) \<Longrightarrow> t1 k \<Longrightarrow> t2 k" "\<And>k. k \<in> set (tc_none_of tac) \<Longrightarrow> t2 k \<Longrightarrow> t1 k"
    and "\<And>k. d1 k \<Longrightarrow> d2 k" and "classical_pick tac t1 d1"
  shows "classical_pick tac t2 d2"
proof (cases "tc_at_least tac")
  case None
  then show ?thesis using assms by (auto simp: classical_pick_def wanted_keys_def)
next
  case (Some nk)
  obtain n keys where nk: "nk = (n, keys)" by fastforce
  have "count_if t1 keys \<le> count_if t2 keys"
    using assms(1) by (intro count_if_mono) (simp add: wanted_keys_def Some nk)
  then show ?thesis using assms Some by (auto simp: classical_pick_def wanted_keys_def nk)
qed

lemma completes_fill: "completes known truth \<Longrightarrow> fill False known k \<Longrightarrow> truth k"
  "completes known truth \<Longrightarrow> truth k \<Longrightarrow> fill True known k"
  by (auto simp: completes_def fill_iff)

text \<open>
  C18. Unknown means undecided, and only that: a tactic that does not both ask for and exclude a
  key is decided on a row exactly when every way of resolving the unknown conditions of the row
  and of the day decides it that way under two-valued logic. So resolving an unknown never turns
  a decided pick.
\<close>

theorem evaluate_tactic_completions:
  assumes "separate_keys tac"
  shows "evaluate_tactic tac row day = Some b \<longleftrightarrow>
    (\<forall>truth day_truth. completes (\<lambda>k. tactic_condition_value k row) truth
       \<and> completes (\<lambda>k. day_condition_value k row day) day_truth \<longrightarrow> classical_pick tac truth day_truth = b)"
    (is "_ \<longleftrightarrow> ?all b")
proof -
  let ?known = "\<lambda>k. tactic_condition_value k row" and ?day = "\<lambda>k. day_condition_value k row day"
  have low: "classical_pick tac truth day_truth"
    if c: "completes ?known truth" "completes ?day day_truth"
      and p: "classical_pick tac (extreme tac False ?known) (fill False ?day)" for truth day_truth
    by (rule classical_mono [OF _ _ _ p])
      (use completes_fill(1) [OF c(1)] completes_fill(2) [OF c(1)] completes_fill(1) [OF c(2)]
         extreme_wanted [OF assms] extreme_excluded in \<open>simp_all\<close>)
  have high: "classical_pick tac (extreme tac True ?known) (fill True ?day)"
    if c: "completes ?known truth" "completes ?day day_truth" and p: "classical_pick tac truth day_truth"
    for truth day_truth
    by (rule classical_mono [OF _ _ _ p])
      (use completes_fill(1) [OF c(1)] completes_fill(2) [OF c(1)] completes_fill(2) [OF c(2)]
         extreme_wanted [OF assms] extreme_excluded in \<open>simp_all\<close>)
  show ?thesis
  proof (cases b)
    case True
    have "classical_pick tac (extreme tac False ?known) (fill False ?day) \<longleftrightarrow> ?all True"
    proof
      assume "classical_pick tac (extreme tac False ?known) (fill False ?day)"
      with low show "?all True" by simp
    next
      assume all: "?all True"
      show "classical_pick tac (extreme tac False ?known) (fill False ?day)"
        using all [rule_format, of "extreme tac False ?known" "fill False ?day"] extreme_completes fill_completes
        by simp
    qed
    with evaluate_true_iff [OF assms, of row day] True show ?thesis by (simp only: simp_thms)
  next
    case False
    have "\<not> classical_pick tac (extreme tac True ?known) (fill True ?day) \<longleftrightarrow> ?all False"
    proof
      assume no: "\<not> classical_pick tac (extreme tac True ?known) (fill True ?day)"
      show "?all False"
      proof (intro allI impI)
        fix truth day_truth assume "completes ?known truth \<and> completes ?day day_truth"
        with high no show "classical_pick tac truth day_truth = False" by metis
      qed
    next
      assume all: "?all False"
      show "\<not> classical_pick tac (extreme tac True ?known) (fill True ?day)"
        using all [rule_format, of "extreme tac True ?known" "fill True ?day"] extreme_completes fill_completes
        by simp
    qed
    with evaluate_false_iff [OF assms, of row day] False show ?thesis by (simp only: simp_thms)
  qed
qed

lemma evaluate_tactic_completions_witness:
  "evaluate_tactic (hd COMBINATIONS) (example_row ''A'' ''T'' 1 ''09:40:00'') \<lparr>df_flags = [], df_unknown = []\<rparr> = Some False
    \<and> \<not> classical_pick (hd COMBINATIONS) (\<lambda>_. False) (\<lambda>_. False)"
proof
  let ?row = "example_row ''A'' ''T'' 1 ''09:40:00''" and ?day = "\<lparr>df_flags = [], df_unknown = []\<rparr> :: day_flags"
  show ev: "evaluate_tactic (hd COMBINATIONS) ?row ?day = Some False" by code_simp
  have "separate_keys (hd COMBINATIONS)" by code_simp
  from evaluate_tactic_completions [OF this, THEN iffD1, OF ev, rule_format, of "\<lambda>_. False" "\<lambda>_. False"]
  show "\<not> classical_pick (hd COMBINATIONS) (\<lambda>_. False) (\<lambda>_. False)"
    by (auto simp: completes_def tactic_condition_value_def day_condition_value_def flag_value_def example_row_def
        split: if_splits)
qed

lemma combinations_separate: "list_all separate_keys COMBINATIONS"
  by code_simp

lemma single_separate: "tac \<in> set single_condition_tactics \<Longrightarrow> separate_keys tac"
  by (auto simp: single_condition_tactics_def single_tactic_def separate_keys_def)

lemma tactics_separate: "tac \<in> set TACTICS \<Longrightarrow> separate_keys tac"
  using combinations_separate single_separate by (auto simp: TACTICS_def list_all_iff)


section \<open>What a row of the auction reading can carry\<close>

lemma evaluate_row_auction:
  assumes "evaluate_row ''auction'' rows previous row = Inr row'"
  shows "set (t_flags row') \<union> set (t_unknown row')
      \<subseteq> set (map cd_key (conditions_of ''stock'' ''auction'') @ map (\<lambda>c. prev_key (cd_key c)) close_conditions)"
    and "t_prev row' = t_prev row"
proof -
  obtain own where own: "mapR (\<lambda>c. bindR (condition_value c row rows None) (\<lambda>v. Inr (cd_key c, v)))
        (conditions_of ''stock'' ''auction'') = Inr own"
    and row': "row' = row\<lparr>t_flags := keys_with (Some True) (own @ prev_values row),
                          t_unknown := keys_with None (own @ prev_values row)\<rparr>"
    using assms by (auto simp: evaluate_row_def Let_def)
  have "fst ` set (own @ prev_values row)
      = set (map cd_key (conditions_of ''stock'' ''auction'') @ map (\<lambda>c. prev_key (cd_key c)) close_conditions)"
    using mapR_keyed(1) [OF own] by (auto simp: prev_values_def image_Un comp_def simp flip: set_map)
  then show "set (t_flags row') \<union> set (t_unknown row')
      \<subseteq> set (map cd_key (conditions_of ''stock'' ''auction'') @ map (\<lambda>c. prev_key (cd_key c)) close_conditions)"
    using keys_with_subset [of _ "own @ prev_values row"] by (simp add: row')
  show "t_prev row' = t_prev row" by (simp add: row')
qed

text \<open>The keys two registered auction tactics look for among the conditions of the session before.\<close>

definition LOOKBACK_ROLES :: "string list" where
  "LOOKBACK_ROLES = [''prev.tier_first'', ''prev.front_row'', ''prev.kawei_leader'']"

lemma lookback_roles_missing: "list_all (\<lambda>k. k \<notin> set (map cd_key (conditions_of ''stock'' ''auction'')
    @ map (\<lambda>c. prev_key (cd_key c)) close_conditions)) LOOKBACK_ROLES"
  by code_simp

lemma lookback_value:
  assumes "evaluate_row ''auction'' rows previous row = Inr row'" "k \<in> set LOOKBACK_ROLES"
  shows "tactic_condition_value k row' = (if t_prev row' = None then None else Some False)"
proof -
  have "k \<notin> set (t_flags row')" "k \<notin> set (t_unknown row')"
    using evaluate_row_auction(1) [OF assms(1)] lookback_roles_missing assms(2)
    by (auto simp: list_all_iff)
  moreover have "startswith k ''prev.''" using assms(2) by (auto simp: LOOKBACK_ROLES_def)
  ultimately show ?thesis by (simp add: tactic_condition_value_def flag_value_def)
qed

lemma kawei_gap_up_terms: "tac \<in> set COMBINATIONS \<Longrightarrow> tc_key tac = ''kawei_gap_up'' \<Longrightarrow>
    tc_at_least tac = Some (1, [''prev.front_row'', ''prev.kawei_leader''])"
  and tier_winner_terms: "tac \<in> set COMBINATIONS \<Longrightarrow> tc_key tac = ''tier_winner_moderate_gap'' \<Longrightarrow>
    ''prev.tier_first'' \<in> set (tc_all_of tac)"
  by (auto simp: COMBINATIONS_def combo_def no_terms_def)

text \<open>
  Two of the registered auction tactics can never pick: the auction reading carries over
  only the conditions of \<open>_close_conditions\<close>, not the ladder roles, so prev.tier_first, prev.front_row and
  prev.kawei_leader are never among a row's flags. Whatever the rows, kawei_gap_up and
  tier_winner_moderate_gap evaluate to false or unknown on every row of an evaluated auction reading.
\<close>

theorem lookback_tactics_never_pick:
  assumes "evaluate_conditions rows day ''auction'' previous = Inr ev" and "r \<in> set (e_rows ev)"
    and "tac \<in> set COMBINATIONS" and "tc_key tac \<in> {''kawei_gap_up'', ''tier_winner_moderate_gap''}"
  shows "evaluate_tactic tac r flags \<noteq> Some True"
proof -
  obtain found where found: "mapR (evaluate_row ''auction'' rows previous) rows = Inr found" "e_rows ev = found"
    using assms(1) by (auto simp: evaluate_conditions_def Let_def)
  obtain i where i: "i < length found" "r = found ! i" using assms(2) found(2) by (auto simp: in_set_conv_nth)
  then have row: "evaluate_row ''auction'' rows previous (rows ! i) = Inr r"
    using mapR_nth [OF found(1)] mapR_length [OF found(1)] by simp
  have no: "tactic_condition_value k r \<noteq> Some True" if "k \<in> set LOOKBACK_ROLES" for k
    using lookback_value [OF row that] by simp
  consider "tc_key tac = ''kawei_gap_up''" | "tc_key tac = ''tier_winner_moderate_gap''" using assms(4) by blast
  then show ?thesis
  proof cases
    case 1
    have "at_least (tc_at_least tac) r \<noteq> Some True"
      using no by (simp add: kawei_gap_up_terms [OF assms(3) 1] at_least_iff count_if_def LOOKBACK_ROLES_def)
    then show ?thesis by (simp add: evaluate_tactic_def combine_iff)
  next
    case 2
    then show ?thesis using no [of "''prev.tier_first''"] tier_winner_terms [OF assms(3) 2]
      by (auto simp: evaluate_tactic_def combine_iff LOOKBACK_ROLES_def)
  qed
qed


text \<open>A stock that was first of its tier yesterday and opens two per cent up.\<close>

definition example_auction :: trial_row where
  "example_auction =
     build_auction_row \<lparr>ds_symbol = ''A'', ds_gap = Some (2 / 100), ds_opens_at_limit = Some False, ds_bucket = None,
         ds_risk_rank = None, ds_boards = None, ds_sealed_from_open = None, ds_amount = None\<rparr> []
       (Some \<lparr>pv_turnover = None, pv_complete = None, pv_flags = [''tier_first''], pv_unknown = []\<rparr>)"

lemma example_auction_evaluates:
  "\<exists>ev r. evaluate_conditions [example_auction] no_day ''auction'' [] = Inr ev \<and> e_rows ev = [r]"
proof -
  have "case evaluate_conditions [example_auction] no_day ''auction'' [] of Inl _ \<Rightarrow> False | Inr ev \<Rightarrow> length (e_rows ev) = 1"
    by code_simp
  then show ?thesis by (auto split: sum.splits simp: length_Suc_conv)
qed

lemma lookback_tactics_never_pick_witness:
  "\<exists>ev r. evaluate_conditions [example_auction] no_day ''auction'' [] = Inr ev \<and> r \<in> set (e_rows ev)
    \<and> ''tier_first'' \<in> set (pv_flags (the (t_prev example_auction)))
    \<and> evaluate_tactic (COMBINATIONS ! 14) r \<lparr>df_flags = [], df_unknown = []\<rparr> \<noteq> Some True"
proof -
  obtain ev r where ev: "evaluate_conditions [example_auction] no_day ''auction'' [] = Inr ev" "e_rows ev = [r]"
    using example_auction_evaluates by blast
  have tac: "COMBINATIONS ! 14 \<in> set COMBINATIONS" "tc_key (COMBINATIONS ! 14) = ''tier_winner_moderate_gap''"
    by code_simp+
  have "''tier_first'' \<in> set (pv_flags (the (t_prev example_auction)))"
    by (simp add: example_auction_def build_auction_row_def)
  then show ?thesis using lookback_tactics_never_pick [OF ev(1) _ tac(1)] tac(2) ev by fastforce
qed

end
