(* ===== verification/TrialHistory.thy ===== *)
theory TrialHistory
  imports TacticTrials
begin

text \<open>
  The records of \<open>quant-service/app/tactic_trials.py\<close>: one digest a day, folded into a history of
  series per tactic, outcome and period, the labels of the records with the Benjamini-Hochberg
  correction (\<open>research_trials.py: bh_q_values\<close>), the day switches, the sealing rates, the pairs of
  conditions and the board of a day. A stored digest holds floats, so \<open>json_safe\<close> is \<open>flt\<close> on the
  decimals of a day's result. The sell-point sums, which pass floats through their shortest text
  and back, the fingerprint and the display texts are left out. \<open>erfc\<close> of the C library is an argument.
\<close>

section \<open>Folding with errors, dicts in insertion order\<close>

primrec foldR :: "('a \<Rightarrow> 's \<Rightarrow> 'e + 's) \<Rightarrow> 'a list \<Rightarrow> 's \<Rightarrow> 'e + 's" where
  "foldR f [] s = Inr s"
| "foldR f (x # xs) s = bindR (f x s) (foldR f xs)"

text \<open>\<open>d.setdefault(key, fresh)\<close> followed by a change of the entry.\<close>

fun update_entry :: "'k \<Rightarrow> 'v \<Rightarrow> ('v \<Rightarrow> 'v) \<Rightarrow> ('k \<times> 'v) list \<Rightarrow> ('k \<times> 'v) list" where
  "update_entry key fresh f [] = [(key, f fresh)]"
| "update_entry key fresh f ((k, v) # rest) =
     (if k = key then (k, f v) # rest else (k, v) # update_entry key fresh f rest)"

section \<open>Series\<close>

record series =
  se_days :: nat
  se_picks :: nat
  se_pick_means :: "rat list"
  se_differences :: "rat list"

type_synonym day_entry = "nat \<times> rat option \<times> rat option"

definition new_series :: series where
  "new_series = \<lparr>se_days = 0, se_picks = 0, se_pick_means = [], se_differences = []\<rparr>"

definition opt_list :: "rat option \<Rightarrow> rat list" where
  "opt_list x = (case x of None \<Rightarrow> [] | Some v \<Rightarrow> [flt v])"

definition series_add :: "day_entry \<Rightarrow> series \<Rightarrow> series" where
  "series_add entry s =
     (case entry of (picks, pick_mean, difference) \<Rightarrow>
       \<lparr>se_days = se_days s + (if 0 < picks then 1 else 0), se_picks = se_picks s + picks,
        se_pick_means = se_pick_means s @ (if 0 < picks then opt_list pick_mean else []),
        se_differences = se_differences s @ opt_list difference\<rparr>)"

record series_record =
  sr_days :: nat
  sr_picks :: nat
  sr_mean_picks :: "rat option"
  sr_mean_difference :: "rat option"
  sr_t :: "rat option"
  sr_positive_share :: "rat option"
  sr_in_sample :: bool

text \<open>The t value of the daily differences: none below three days or without spread.\<close>

definition difference_t :: "rat list \<Rightarrow> rat option" where
  "difference_t differences =
     (if length differences < 3 then None
      else case (mean_float differences, stdev_float differences) of
        (Inr m, Inr deviation) \<Rightarrow>
          if deviation = 0 then None
          else Some (flt (m / flt (deviation / float_sqrt (of_nat (length differences)))))
      | _ \<Rightarrow> None)"

definition positive_share :: "rat list \<Rightarrow> rat option" where
  "positive_share differences =
     (if differences = [] then None
      else Some (flt (of_nat (count_if (\<lambda>v. 0 < v) differences) / of_nat (length differences))))"

definition series_record_of :: "bool \<Rightarrow> series \<Rightarrow> series_record" where
  "series_record_of in_sample s =
     \<lparr>sr_days = se_days s, sr_picks = se_picks s, sr_mean_picks = mean_or_none (se_pick_means s),
      sr_mean_difference = mean_or_none (se_differences s), sr_t = difference_t (se_differences s),
      sr_positive_share = positive_share (se_differences s), sr_in_sample = in_sample\<rparr>"

section \<open>Labels\<close>

definition LABEL_MAX_Q :: rat where "LABEL_MAX_Q = flt (10 / 100)"

definition label_of :: "series_record \<Rightarrow> int \<Rightarrow> string" where
  "label_of r expects =
     (if sr_days r < 20 \<or> sr_picks r < 60 then ''collecting''
      else case sr_t r of
        None \<Rightarrow> ''undecided''
      | Some t \<Rightarrow>
          let directed = fmul t (of_int expects) in
          if 2 \<le> directed then ''supports'' else if directed \<le> - 2 then ''against'' else ''undecided'')"

definition gate_label :: "string \<Rightarrow> rat option \<Rightarrow> string" where
  "gate_label label q =
     (if (label = ''supports'' \<or> label = ''against'')
         \<and> (case q of None \<Rightarrow> True | Some v \<Rightarrow> LABEL_MAX_Q < v)
      then ''undecided'' else label)"

text \<open>\<open>bh_q_values\<close>: from the largest p value down, with the running minimum.\<close>

primrec bh_run :: "nat \<Rightarrow> rat \<Rightarrow> (string \<times> rat) list \<Rightarrow> (string \<times> rat) list" where
  "bh_run size_all running [] = []"
| "bh_run size_all running (kv # rest) =
     (let q = min running (flt (fmul (snd kv) (of_nat size_all) / of_nat (Suc (length rest))))
      in (fst kv, q) # bh_run size_all q rest)"

definition bh_tested :: "(string \<times> rat option) list \<Rightarrow> (string \<times> rat) list" where
  "bh_tested p_values = sort_key snd (List.map_filter (\<lambda>(k, v). map_option (Pair k) v) p_values)"

definition bh_q_values :: "(string \<times> rat option) list \<Rightarrow> (string \<times> rat option) list" where
  "bh_q_values p_values =
     (let tested = bh_tested p_values;
          found = bh_run (length tested) 1 (rev tested)
      in map (\<lambda>(k, _). (k, map_of found k)) p_values)"

section \<open>The digest of a day\<close>

definition record_outcomes :: "trial_tactic \<Rightarrow> string list" where
  "record_outcomes tac =
     (if combination tac then outcome_keys
      else fromkeys [tc_primary tac, tc_entry tac @ '':'' @ tc_exit tac, tc_entry tac @ '':close''])"

record tactic_digest =
  td_picks :: nat
  td_outcomes :: "string \<Rightarrow> (rat option \<times> rat option) option"

record switch_digest =
  sd_daily :: "rat option"
  sd_flags :: "string list"
  sd_unknown :: "string list"

record digest =
  dg_date :: date
  dg_slot :: string
  dg_rows :: nat
  dg_resolved :: nat
  dg_tactics :: "string \<Rightarrow> tactic_digest option"
  dg_seal :: "(string \<times> nat \<times> nat) list"
  dg_switch :: "switch_digest option"

record settled_day =
  sy_date :: date
  sy_slot :: string
  sy_rows :: "trial_row list"
  sy_day :: day_flags
  sy_outcomes :: "string \<Rightarrow> outcome option"

text \<open>The entries and exits a stored outcome can hold are finitely many: those of the sell rules.\<close>

definition resolved :: "outcome \<Rightarrow> bool" where
  "resolved result =
     list_ex (\<lambda>entry. list_ex (\<lambda>e. case o_entries result entry (fst e) of None \<Rightarrow> False
         | Some item \<Rightarrow> x_status item = ''settled'') EXITS) [''held'', ''buy_open'']"

definition truth_of :: "measured \<Rightarrow> bool" where
  "truth_of v = (case v of MBool b \<Rightarrow> b | MNum x \<Rightarrow> x \<noteq> 0)"

definition bucket_text :: "string option \<Rightarrow> string" where
  "bucket_text b = (case b of None \<Rightarrow> ''None'' | Some s \<Rightarrow> s)"

definition seal_counts :: "settled_day \<Rightarrow> (string \<times> nat \<times> nat) list" where
  "seal_counts day =
     fold (\<lambda>row counts.
       case o_states (outcome_for (sy_outcomes day) (t_symbol row)) ''seal'' of
         None \<Rightarrow> counts
       | Some v \<Rightarrow> update_entry (bucket_text (t_board_bucket row)) (0, 0)
                    (\<lambda>(sealed, n). (sealed + (if truth_of v then 1 else 0), n + 1)) counts)
       (sy_rows day) []"

definition tactic_digest_of :: "settled_day \<Rightarrow> trial_tactic \<Rightarrow> tactic_digest res" where
  "tactic_digest_of day tac =
     bindR (day_result tac (sy_rows day) (sy_day day) (sy_outcomes day) (record_outcomes tac)) (\<lambda>result.
       Inr \<lparr>td_picks = ct_picks (dr_counts result),
            td_outcomes = (\<lambda>key. map_option (\<lambda>s. (map_option flt (sm_pick_mean s), map_option flt (sm_difference s)))
              (map_of (dr_outcomes result) key))\<rparr>)"

definition switch_digest_of :: "settled_day \<Rightarrow> switch_digest" where
  "switch_digest_of day =
     \<lparr>sd_daily = map_option flt (mean_of (map (\<lambda>row.
         fst (outcome_value (outcome_for (sy_outcomes day) (t_symbol row)) ''held:close'')) (sy_rows day))),
      sd_flags = df_flags (sy_day day), sd_unknown = df_unknown (sy_day day)\<rparr>"

definition day_digest :: "trial_tactic list \<Rightarrow> settled_day \<Rightarrow> digest res" where
  "day_digest tactics day =
     (let own = filter (\<lambda>tac. tc_slot tac = sy_slot day) tactics in
      bindR (mapR (tactic_digest_of day) own) (\<lambda>results.
        Inr \<lparr>dg_date = sy_date day, dg_slot = sy_slot day, dg_rows = length (sy_rows day),
             dg_resolved = count_if (\<lambda>row. resolved (outcome_for (sy_outcomes day) (t_symbol row))) (sy_rows day),
             dg_tactics = map_of (rev (zip (map tc_key own) results)), dg_seal = seal_counts day,
             dg_switch = (if sy_slot day = ''close'' then Some (switch_digest_of day) else None)\<rparr>))"

section \<open>The history\<close>

datatype period = Replay | Forward

record history =
  hs_series :: "string \<Rightarrow> string \<Rightarrow> period \<Rightarrow> series"
  hs_recent :: "string \<Rightarrow> tactic_digest list"
  hs_switch :: "string \<Rightarrow> (bool \<times> rat) list"
  hs_seal :: "string \<Rightarrow> (string \<times> nat \<times> nat) list"
  hs_rows :: "string \<Rightarrow> nat"

definition new_history :: history where
  "new_history =
     \<lparr>hs_series = (\<lambda>_ _ _. new_series), hs_recent = (\<lambda>_. []), hs_switch = (\<lambda>_. []), hs_seal = (\<lambda>_. []),
      hs_rows = (\<lambda>_. 0)\<rparr>"

definition RECENT_DAYS :: nat where "RECENT_DAYS = 60"

definition SLOTS :: "string list" where "SLOTS = [''close'', ''auction'']"

definition switch_keys :: "string list" where
  "switch_keys = map cd_key (conditions_of ''day'' ''close'')"

definition period_of :: "trial_tactic \<Rightarrow> date \<Rightarrow> period" where
  "period_of tac day = (if tc_registered_on tac \<le> day then Forward else Replay)"

definition set_series :: "string \<Rightarrow> string \<Rightarrow> period \<Rightarrow> (series \<Rightarrow> series) \<Rightarrow> history \<Rightarrow> history" where
  "set_series key outcome p f h =
     h\<lparr>hs_series := (hs_series h)(key := (hs_series h key)(outcome :=
         (hs_series h key outcome)(p := f (hs_series h key outcome p))))\<rparr>"

definition add_outcome :: "trial_tactic \<Rightarrow> date \<Rightarrow> tactic_digest \<Rightarrow> string \<Rightarrow> history \<Rightarrow> history res" where
  "add_outcome tac day result outcome h =
     bindR (need KeyError (td_outcomes result outcome)) (\<lambda>md.
       Inr (set_series (tc_key tac) outcome (period_of tac day) (series_add (td_picks result, md)) h))"

text \<open>\<open>deque(maxlen=60)\<close>\<close>

definition push_recent :: "tactic_digest \<Rightarrow> tactic_digest list \<Rightarrow> tactic_digest list" where
  "push_recent x xs = last_n RECENT_DAYS (xs @ [x])"

definition add_tactic :: "digest \<Rightarrow> trial_tactic \<Rightarrow> history \<Rightarrow> history res" where
  "add_tactic d tac h =
     (if tc_slot tac \<noteq> dg_slot d then Inr h
      else bindR (need KeyError (dg_tactics d (tc_key tac))) (\<lambda>result.
           bindR (foldR (add_outcome tac (dg_date d) result) (record_outcomes tac) h) (\<lambda>h1.
             Inr (if period_of tac (dg_date d) = Forward
                  then h1\<lparr>hs_recent := (hs_recent h1)(tc_key tac := push_recent result (hs_recent h1 (tc_key tac)))\<rparr>
                  else h1))))"

definition add_seal :: "digest \<Rightarrow> history \<Rightarrow> history" where
  "add_seal d h =
     h\<lparr>hs_seal := (hs_seal h)(dg_slot d := fold (\<lambda>(bucket, sealed, n).
          update_entry bucket (0, 0) (\<lambda>(s, m). (s + sealed, m + n))) (dg_seal d) (hs_seal h (dg_slot d)))\<rparr>"

definition add_switch :: "digest \<Rightarrow> history \<Rightarrow> history" where
  "add_switch d h =
     (case dg_switch d of
        None \<Rightarrow> h
      | Some sw \<Rightarrow>
          (case sd_daily sw of
             None \<Rightarrow> h
           | Some daily \<Rightarrow>
               h\<lparr>hs_switch := (\<lambda>key.
                  if key \<notin> set switch_keys then hs_switch h key
                  else if key \<in> set (sd_flags sw) then hs_switch h key @ [(True, flt daily)]
                  else if key \<notin> set (sd_unknown sw) then hs_switch h key @ [(False, flt daily)]
                  else hs_switch h key)\<rparr>))"

definition history_add :: "trial_tactic list \<Rightarrow> digest \<Rightarrow> history \<Rightarrow> history res" where
  "history_add tactics d h =
     (if dg_slot d \<notin> set SLOTS then Inl KeyError
      else bindR (foldR (add_tactic d) tactics
                   (h\<lparr>hs_rows := (hs_rows h)(dg_slot d := hs_rows h (dg_slot d) + dg_rows d)\<rparr>)) (\<lambda>h1.
             Inr (add_switch d (add_seal d h1))))"

record outcome_records =
  or_replay :: series_record
  or_forward :: series_record
  or_recent :: series_record

definition recent_series :: "tactic_digest list \<Rightarrow> string \<Rightarrow> series res" where
  "recent_series results outcome =
     foldR (\<lambda>r s. bindR (need KeyError (td_outcomes r outcome)) (\<lambda>md. Inr (series_add (td_picks r, md) s)))
       results new_series"

definition outcome_records_of :: "history \<Rightarrow> trial_tactic \<Rightarrow> string \<Rightarrow> outcome_records res" where
  "outcome_records_of h tac outcome =
     bindR (recent_series (hs_recent h (tc_key tac)) outcome) (\<lambda>recent.
       Inr \<lparr>or_replay = series_record_of True (hs_series h (tc_key tac) outcome Replay),
            or_forward = series_record_of False (hs_series h (tc_key tac) outcome Forward),
            or_recent = series_record_of False recent\<rparr>)"

record tactic_record =
  tr_key :: string
  tr_outcomes :: "(string \<times> outcome_records) list"
  tr_label :: string
  tr_q :: "rat option"

definition primary_forward :: "history \<Rightarrow> trial_tactic \<Rightarrow> series_record" where
  "primary_forward h tac = series_record_of False (hs_series h (tc_key tac) (tc_primary tac) Forward)"

definition p_value :: "(rat \<Rightarrow> rat) \<Rightarrow> series_record \<Rightarrow> int \<Rightarrow> rat option" where
  "p_value erfc r expects =
     (if label_of r expects = ''collecting'' then None
      else map_option (\<lambda>t. erfc (flt (\<bar>t\<bar> / float_sqrt 2))) (sr_t r))"

definition history_records :: "(rat \<Rightarrow> rat) \<Rightarrow> trial_tactic list \<Rightarrow> history \<Rightarrow> tactic_record list res" where
  "history_records erfc tactics h =
     (let q_values = bh_q_values (map (\<lambda>tac. (tc_key tac, p_value erfc (primary_forward h tac) (tc_expects tac))) tactics)
      in mapR (\<lambda>tac.
           bindR (mapR (\<lambda>o_key. bindR (outcome_records_of h tac o_key) (\<lambda>r. Inr (o_key, r)))
                    (sort_key id (record_outcomes tac))) (\<lambda>found.
             let q = Option.bind (map_of q_values (tc_key tac)) id in
             Inr \<lparr>tr_key = tc_key tac, tr_outcomes = found,
                  tr_label = gate_label (label_of (primary_forward h tac) (tc_expects tac)) q, tr_q = q\<rparr>)) tactics)"


section \<open>Day switches and sealing rates\<close>

record switch_record =
  wr_true_days :: nat
  wr_false_days :: nat
  wr_difference :: "rat option"
  wr_t :: "rat option"

definition sample_variance :: "rat list \<Rightarrow> rat \<Rightarrow> rat" where
  "sample_variance vals m =
     flt (float_sum (map (\<lambda>v. fmul (fsub v m) (fsub v m)) vals) / of_nat (length vals - 1))"

definition switch_difference :: "rat list \<Rightarrow> rat list \<Rightarrow> rat option \<times> rat option" where
  "switch_difference trues falses =
     (if length trues < 3 \<or> length falses < 3 then (None, None)
      else case (mean_float trues, mean_float falses) of
        (Inr mt, Inr mf) \<Rightarrow>
          let difference = fsub mt mf;
              denominator = float_sqrt (fadd (flt (sample_variance trues mt / of_nat (length trues)))
                                             (flt (sample_variance falses mf / of_nat (length falses))))
          in (Some difference, if denominator = 0 then None else Some (flt (difference / denominator)))
      | _ \<Rightarrow> (None, None))"

definition switch_records :: "history \<Rightarrow> (string \<times> switch_record) list" where
  "switch_records h =
     map (\<lambda>key.
       let trues = map snd (filter fst (hs_switch h key));
           falses = map snd (filter (\<lambda>s. \<not> fst s) (hs_switch h key))
       in (key, \<lparr>wr_true_days = length trues, wr_false_days = length falses,
                 wr_difference = fst (switch_difference trues falses),
                 wr_t = snd (switch_difference trues falses)\<rparr>)) switch_keys"

definition seal_rates :: "history \<Rightarrow> string \<Rightarrow> (string \<times> rat option \<times> nat) list" where
  "seal_rates h slot =
     map (\<lambda>(bucket, sealed, n). (bucket, if n = 0 then None else Some (flt (of_nat sealed / of_nat n)), n))
       (sort_key id (hs_seal h slot))"

section \<open>Pairs of conditions\<close>

definition pair_condition_keys :: "string \<Rightarrow> string list" where
  "pair_condition_keys slot =
     (let own = map cd_key (conditions_of ''stock'' slot) in
      if slot = ''close'' then own else own @ map (\<lambda>c. prev_key (cd_key c)) (conditions_of ''stock'' ''close''))"

fun pairs_of :: "'a list \<Rightarrow> ('a \<times> 'a) list" where
  "pairs_of [] = []"
| "pairs_of (x # xs) = map (Pair x) xs @ pairs_of xs"

type_synonym condition_pair = "string \<times> string"

definition row_pairs :: "string list \<Rightarrow> trial_row \<Rightarrow> condition_pair list" where
  "row_pairs keys row = pairs_of (filter (\<lambda>k. tactic_condition_value k row \<noteq> None) keys)"

text \<open>A cell of a pair: the values of the rows that met both conditions, and of those that did not.\<close>

type_synonym pair_cell = "measured option list \<times> measured option list"

definition pair_cells :: "settled_day \<Rightarrow> ((condition_pair \<times> string) \<times> pair_cell) list" where
  "pair_cells day =
     fold (\<lambda>row cells.
       let worth = fst (outcome_value (outcome_for (sy_outcomes day) (t_symbol row))
                     (if sy_slot day = ''close'' then ''held:close'' else ''buy_open:close''))
       in fold (\<lambda>(a, b). update_entry ((a, b), bucket_text (t_board_bucket row)) ([], [])
            (\<lambda>(pick, rest). if a \<in> set (t_flags row) \<and> b \<in> set (t_flags row)
                             then (pick @ [worth], rest) else (pick, rest @ [worth])))
          (row_pairs (pair_condition_keys (sy_slot day)) row) cells)
       (sy_rows day) []"

record pair_state =
  ps_picks :: nat
  ps_values :: "measured option list"
  ps_differences :: "rat list"

definition pair_states :: "((condition_pair \<times> string) \<times> pair_cell) list \<Rightarrow> (condition_pair \<times> pair_state) list" where
  "pair_states cells =
     fold (\<lambda>((pair, _), pick, rest) states.
       if pick = [] then states
       else update_entry pair \<lparr>ps_picks = 0, ps_values = [], ps_differences = []\<rparr>
         (\<lambda>st. \<lparr>ps_picks = ps_picks st + length pick, ps_values = ps_values st @ pick,
                ps_differences = ps_differences st @
                  (case mean_of rest of None \<Rightarrow> []
                   | Some comparison \<Rightarrow> List.map_filter (map_option (\<lambda>v. dsub (number v) comparison)) pick)\<rparr>) states)
       cells []"

type_synonym pair_digest = "(condition_pair \<times> day_entry) list"

definition day_pairs :: "settled_day \<Rightarrow> pair_digest" where
  "day_pairs day =
     map (\<lambda>(pair, st). (pair, ps_picks st, map_option flt (mean_of (ps_values st)),
            map_option flt (mean_of (map (\<lambda>d. Some (MNum d)) (ps_differences st)))))
       (pair_states (pair_cells day))"

record pair_history_state =
  ph_days :: nat
  ph_picks :: nat
  ph_pick_means :: "rat list"
  ph_differences :: "rat list"

type_synonym pair_history = "(condition_pair \<times> pair_history_state) list"

definition pair_history_add :: "pair_digest \<Rightarrow> pair_history \<Rightarrow> pair_history" where
  "pair_history_add d h =
     fold (\<lambda>(pair, picks, pick_mean, difference).
       update_entry pair \<lparr>ph_days = 0, ph_picks = 0, ph_pick_means = [], ph_differences = []\<rparr>
         (\<lambda>st. \<lparr>ph_days = ph_days st + 1, ph_picks = ph_picks st + picks,
                ph_pick_means = ph_pick_means st @ opt_list pick_mean,
                ph_differences = ph_differences st @ opt_list difference\<rparr>)) d h"

record pair_record =
  pr_conditions :: condition_pair
  pr_days :: nat
  pr_picks :: nat
  pr_t :: "rat option"
  pr_positive_share :: "rat option"

record pair_result =
  pt_examined :: nat
  pt_reaching_minimum :: nat
  pt_highest :: "pair_record list"
  pt_lowest :: "pair_record list"

definition pair_history_result :: "string \<Rightarrow> pair_history \<Rightarrow> pair_result" where
  "pair_history_result slot h =
     (let pairs = map (\<lambda>(pair, st). \<lparr>pr_conditions = pair, pr_days = ph_days st, pr_picks = ph_picks st,
                    pr_t = difference_t (ph_differences st), pr_positive_share = positive_share (ph_differences st)\<rparr>) h;
          keys = length (pair_condition_keys slot);
          eligible = filter (\<lambda>p. 20 \<le> pr_days p) pairs;
          ranked = sort_key (\<lambda>p. (the (pr_t p), pr_conditions p)) (filter (\<lambda>p. pr_t p \<noteq> None) eligible)
      in \<lparr>pt_examined = keys * (keys - 1) div 2, pt_reaching_minimum = length eligible,
          pt_highest = rev (last_n 15 ranked), pt_lowest = take 15 ranked\<rparr>)"

section \<open>The board of a day\<close>

definition SIDES :: "string list" where "SIDES = [''focus'', ''hold'', ''avoid'']"

definition picked_by :: "string \<Rightarrow> day_flags \<Rightarrow> trial_row \<Rightarrow> trial_tactic list" where
  "picked_by slot day row =
     filter (\<lambda>tac. combination tac \<and> tc_slot tac = slot \<and> evaluate_tactic tac row day = Some True) TACTICS"

definition day_board :: "string \<Rightarrow> trial_row list \<Rightarrow> day_flags \<Rightarrow> (string \<times> (trial_row \<times> string list) list) list" where
  "day_board slot rows day =
     map (\<lambda>side. (side, filter (\<lambda>item. snd item \<noteq> [])
        (map (\<lambda>row. (row, map tc_key (filter (\<lambda>tac. tc_side tac = side) (picked_by slot day row)))) rows))) SIDES"

definition tactic_picks :: "settled_day \<Rightarrow> trial_tactic \<Rightarrow> (string \<times> rat option \<times> measured option) list" where
  "tactic_picks day tac =
     (if sy_slot day \<noteq> tc_slot tac then []
      else map (\<lambda>row. (t_symbol row, t_boards row,
             fst (outcome_value (outcome_for (sy_outcomes day) (t_symbol row)) (tc_primary tac))))
        (picks_of tac (sy_rows day) (sy_day day)))"

definition tactic_day :: "settled_day \<Rightarrow> trial_tactic
    \<Rightarrow> ((string \<times> rat option \<times> measured option) list \<times> day_counts \<times> rat option \<times> rat option \<times> rat option) res" where
  "tactic_day day tac =
     bindR (day_result tac (sy_rows day) (sy_day day) (sy_outcomes day) [tc_primary tac]) (\<lambda>result.
       let primary = dr_primary result in
       Inr (tactic_picks day tac, dr_counts result, map_option flt (sm_pick_mean primary),
            map_option flt (sm_comparison_mean primary), map_option flt (sm_difference primary)))"

text \<open>Up to ten stocks that sealed again, and up to ten big losers.\<close>

definition CASE_LIMIT :: nat where "CASE_LIMIT = 10"

definition cases_of :: "string \<Rightarrow> settled_day list \<Rightarrow> (string \<times> string) list" where
  "cases_of key latest =
     take CASE_LIMIT (concat (map (\<lambda>day.
       map (\<lambda>row. (t_symbol row, sy_slot day))
         (filter (\<lambda>row. o_states (outcome_for (sy_outcomes day) (t_symbol row)) key = Some (MBool True)) (sy_rows day))) latest))"

definition label_changes :: "(string \<Rightarrow> string option) \<Rightarrow> tactic_record list \<Rightarrow> (string \<times> string option \<times> string) list" where
  "label_changes previous records =
     map (\<lambda>r. (tr_key r, previous (tr_key r), tr_label r))
       (filter (\<lambda>r. previous (tr_key r) \<noteq> Some (tr_label r)) records)"

section \<open>The fold against a specification\<close>

text \<open>The record of a tactic as a function of its day entries, all at once.\<close>

definition series_of :: "day_entry list \<Rightarrow> series" where
  "series_of entries =
     \<lparr>se_days = count_if (\<lambda>e. 0 < fst e) entries, se_picks = sum_list (map fst entries),
      se_pick_means = concat (map (\<lambda>(n, m, d). if 0 < n then opt_list m else []) entries),
      se_differences = concat (map (\<lambda>(n, m, d). opt_list d) entries)\<rparr>"

lemma series_of_snoc: "series_of (entries @ [e]) = series_add e (series_of entries)"
  by (cases e) (simp add: series_of_def series_add_def count_if_def)

lemma series_of_Nil: "series_of [] = new_series"
  by (simp add: series_of_def new_series_def count_if_def)

text \<open>The entries a list of digests holds for a tactic, an outcome and a period.\<close>

definition own_digests :: "trial_tactic \<Rightarrow> digest list \<Rightarrow> digest list" where
  "own_digests tac ds = filter (\<lambda>d. dg_slot d = tc_slot tac) ds"

definition entry_of :: "trial_tactic \<Rightarrow> string \<Rightarrow> digest \<Rightarrow> day_entry" where
  "entry_of tac outcome d =
     (let result = the (dg_tactics d (tc_key tac)) in (td_picks result, the (td_outcomes result outcome)))"

definition entries :: "trial_tactic \<Rightarrow> string \<Rightarrow> period \<Rightarrow> digest list \<Rightarrow> day_entry list" where
  "entries tac outcome p ds =
     map (entry_of tac outcome) (filter (\<lambda>d. period_of tac (dg_date d) = p) (own_digests tac ds))"

lemma record_outcomes_distinct: "distinct (record_outcomes tac)"
proof -
  have "distinct outcome_keys" by code_simp
  then show ?thesis by (simp add: record_outcomes_def)
qed

lemma add_outcome_Some: "td_outcomes result x = Some md \<Longrightarrow> add_outcome tac day result x h
    = Inr (set_series (tc_key tac) x (period_of tac day) (series_add (td_picks result, md)) h)"
  by (simp add: add_outcome_def need_def)

lemma add_outcomes_series:
  assumes "foldR (add_outcome tac day result) outs h = Inr h1" "distinct outs"
  shows "hs_series h1 k o_key p =
      (if k = tc_key tac \<and> o_key \<in> set outs \<and> p = period_of tac day
       then series_add (td_picks result, the (td_outcomes result o_key)) (hs_series h k o_key p)
       else hs_series h k o_key p)
    \<and> hs_recent h1 = hs_recent h \<and> hs_rows h1 = hs_rows h"
  using assms
proof (induction outs arbitrary: h)
  case (Cons x outs)
  obtain md where md: "td_outcomes result x = Some md"
    using Cons.prems(1) by (cases "td_outcomes result x") (auto simp: add_outcome_def need_def)
  define h0 where "h0 = set_series (tc_key tac) x (period_of tac day) (series_add (td_picks result, md)) h"
  have f: "foldR (add_outcome tac day result) outs h0 = Inr h1"
    using Cons.prems(1) by (simp add: add_outcome_Some [OF md] h0_def)
  have h0: "hs_series h0 k o_key p = (if k = tc_key tac \<and> o_key = x \<and> p = period_of tac day
      then series_add (td_picks result, md) (hs_series h k o_key p) else hs_series h k o_key p)"
    "hs_recent h0 = hs_recent h" "hs_rows h0 = hs_rows h" for k o_key p
    by (auto simp: h0_def set_series_def)
  show ?case using Cons.IH [OF f] Cons.prems(2) by (auto simp: h0 md)
qed simp

lemma add_tactic_series:
  assumes "add_tactic d tac h = Inr h1"
  shows "hs_series h1 k o_key p =
      (if dg_slot d = tc_slot tac \<and> k = tc_key tac \<and> o_key \<in> set (record_outcomes tac) \<and> p = period_of tac (dg_date d)
       then series_add (entry_of tac o_key d) (hs_series h k o_key p) else hs_series h k o_key p)"
    and "hs_recent h1 k =
      (if dg_slot d = tc_slot tac \<and> k = tc_key tac \<and> period_of tac (dg_date d) = Forward
       then push_recent (the (dg_tactics d (tc_key tac))) (hs_recent h k) else hs_recent h k)"
proof -
  have "hs_series h1 k o_key p =
      (if dg_slot d = tc_slot tac \<and> k = tc_key tac \<and> o_key \<in> set (record_outcomes tac) \<and> p = period_of tac (dg_date d)
       then series_add (entry_of tac o_key d) (hs_series h k o_key p) else hs_series h k o_key p)
    \<and> hs_recent h1 k =
      (if dg_slot d = tc_slot tac \<and> k = tc_key tac \<and> period_of tac (dg_date d) = Forward
       then push_recent (the (dg_tactics d (tc_key tac))) (hs_recent h k) else hs_recent h k)"
  proof (cases "tc_slot tac \<noteq> dg_slot d")
    case False
    obtain result where r: "dg_tactics d (tc_key tac) = Some result"
      using assms False by (cases "dg_tactics d (tc_key tac)") (auto simp: add_tactic_def need_def)
    obtain h2 where h2: "foldR (add_outcome tac (dg_date d) result) (record_outcomes tac) h = Inr h2"
      "h1 = (if period_of tac (dg_date d) = Forward
         then h2\<lparr>hs_recent := (hs_recent h2)(tc_key tac := push_recent result (hs_recent h2 (tc_key tac)))\<rparr> else h2)"
      using assms False by (auto simp: add_tactic_def need_def r)
    show ?thesis using add_outcomes_series [OF h2(1) record_outcomes_distinct, of k o_key p] False
      by (auto simp: h2(2) entry_of_def r)
  qed (use assms in \<open>auto simp: add_tactic_def\<close>)
  then show "hs_series h1 k o_key p =
      (if dg_slot d = tc_slot tac \<and> k = tc_key tac \<and> o_key \<in> set (record_outcomes tac) \<and> p = period_of tac (dg_date d)
       then series_add (entry_of tac o_key d) (hs_series h k o_key p) else hs_series h k o_key p)"
    and "hs_recent h1 k =
      (if dg_slot d = tc_slot tac \<and> k = tc_key tac \<and> period_of tac (dg_date d) = Forward
       then push_recent (the (dg_tactics d (tc_key tac))) (hs_recent h k) else hs_recent h k)"
    by blast+
qed

lemma add_tactics_series:
  "foldR (add_tactic d) tactics h = Inr h1 \<Longrightarrow> distinct (map tc_key tactics) \<Longrightarrow>
   (\<forall>tac \<in> set tactics.
      (\<forall>p. \<forall>o_key \<in> set (record_outcomes tac). hs_series h1 (tc_key tac) o_key p =
        (if dg_slot d = tc_slot tac \<and> p = period_of tac (dg_date d)
         then series_add (entry_of tac o_key d) (hs_series h (tc_key tac) o_key p)
         else hs_series h (tc_key tac) o_key p))
    \<and> hs_recent h1 (tc_key tac) =
        (if dg_slot d = tc_slot tac \<and> period_of tac (dg_date d) = Forward
         then push_recent (the (dg_tactics d (tc_key tac))) (hs_recent h (tc_key tac))
         else hs_recent h (tc_key tac)))
   \<and> (\<forall>k. k \<notin> set (map tc_key tactics) \<longrightarrow> hs_series h1 k = hs_series h k \<and> hs_recent h1 k = hs_recent h k)"
proof (induction tactics arbitrary: h)
  case (Cons t tactics)
  obtain h0 where h0: "add_tactic d t h = Inr h0" "foldR (add_tactic d) tactics h0 = Inr h1"
    using Cons.prems(1) by auto
  note step = add_tactic_series [OF h0(1)]
  have key: "tc_key t \<notin> set (map tc_key tactics)" and dist: "distinct (map tc_key tactics)"
    using Cons.prems(2) by simp_all
  note IH = Cons.IH [OF h0(2) dist]
  have own: "hs_series h1 (tc_key t) = hs_series h0 (tc_key t)" "hs_recent h1 (tc_key t) = hs_recent h0 (tc_key t)"
    using IH key by blast+
  have other: "hs_series h0 k = hs_series h k" "hs_recent h0 k = hs_recent h k" if "k \<noteq> tc_key t" for k
    using that by (auto simp: step fun_eq_iff)
  have keys: "tc_key tac \<noteq> tc_key t" if "tac \<in> set tactics" for tac
    using key that by (metis imageI list.set_map)
  show ?case
  proof (intro conjI ballI allI impI)
    fix tac p o_key assume "tac \<in> set (t # tactics)" "o_key \<in> set (record_outcomes tac)"
    then show "hs_series h1 (tc_key tac) o_key p =
        (if dg_slot d = tc_slot tac \<and> p = period_of tac (dg_date d)
         then series_add (entry_of tac o_key d) (hs_series h (tc_key tac) o_key p)
         else hs_series h (tc_key tac) o_key p)"
      using IH own step(1) other keys by (cases "tac = t") auto
  next
    fix tac assume "tac \<in> set (t # tactics)"
    then show "hs_recent h1 (tc_key tac) =
        (if dg_slot d = tc_slot tac \<and> period_of tac (dg_date d) = Forward
         then push_recent (the (dg_tactics d (tc_key tac))) (hs_recent h (tc_key tac))
         else hs_recent h (tc_key tac))"
      using IH own step(2) other keys by (cases "tac = t") auto
  next
    fix k assume "k \<notin> set (map tc_key (t # tactics))"
    then show "hs_series h1 k = hs_series h k" "hs_recent h1 k = hs_recent h k"
      using IH other by auto
  qed
qed simp

lemma history_add_series:
  assumes "history_add tactics d h = Inr h1" "distinct (map tc_key tactics)" "tac \<in> set tactics"
  shows "o_key \<in> set (record_outcomes tac) \<Longrightarrow> hs_series h1 (tc_key tac) o_key p =
        (if dg_slot d = tc_slot tac \<and> p = period_of tac (dg_date d)
         then series_add (entry_of tac o_key d) (hs_series h (tc_key tac) o_key p)
         else hs_series h (tc_key tac) o_key p)"
    and "hs_recent h1 (tc_key tac) =
        (if dg_slot d = tc_slot tac \<and> period_of tac (dg_date d) = Forward
         then push_recent (the (dg_tactics d (tc_key tac))) (hs_recent h (tc_key tac))
         else hs_recent h (tc_key tac))"
proof -
  obtain h2 where h2: "foldR (add_tactic d) tactics
      (h\<lparr>hs_rows := (hs_rows h)(dg_slot d := hs_rows h (dg_slot d) + dg_rows d)\<rparr>) = Inr h2"
    "h1 = add_switch d (add_seal d h2)"
    using assms(1) by (auto simp: history_add_def split: if_splits)
  have same: "hs_series h1 = hs_series h2" "hs_recent h1 = hs_recent h2"
    by (auto simp: h2(2) add_switch_def add_seal_def split: option.splits)
  show "o_key \<in> set (record_outcomes tac) \<Longrightarrow> hs_series h1 (tc_key tac) o_key p =
        (if dg_slot d = tc_slot tac \<and> p = period_of tac (dg_date d)
         then series_add (entry_of tac o_key d) (hs_series h (tc_key tac) o_key p)
         else hs_series h (tc_key tac) o_key p)"
    using add_tactics_series [OF h2(1) assms(2)] assms(3) by (simp add: same)
  show "hs_recent h1 (tc_key tac) =
        (if dg_slot d = tc_slot tac \<and> period_of tac (dg_date d) = Forward
         then push_recent (the (dg_tactics d (tc_key tac))) (hs_recent h (tc_key tac))
         else hs_recent h (tc_key tac))"
    using add_tactics_series [OF h2(1) assms(2)] assms(3) by (simp add: same)
qed

lemma last_n_push: "push_recent x (last_n RECENT_DAYS xs) = last_n RECENT_DAYS (xs @ [x])"
proof -
  have "length xs - (length xs - 60 + 59) + (length xs - 60) = length xs - 59" by arith
  then show ?thesis by (simp add: push_recent_def last_n_def RECENT_DAYS_def)
qed

definition forward_results :: "trial_tactic \<Rightarrow> digest list \<Rightarrow> tactic_digest list" where
  "forward_results tac ds =
     map (\<lambda>d. the (dg_tactics d (tc_key tac))) (filter (\<lambda>d. period_of tac (dg_date d) = Forward) (own_digests tac ds))"

text \<open>
  C24. The history folded one digest at a time is the record of all the days at once: after any
  list of digests, each series of a tactic and a recorded outcome is the series of exactly the
  entries of the days of its slot in its period (before or since its registration), every day once
  and in order, and the recent window holds the last 60 of the days since registration.
\<close>

theorem history_refines_days:
  assumes "foldR (history_add tactics) ds new_history = Inr h" and "distinct (map tc_key tactics)"
    and "tac \<in> set tactics"
  shows "hs_recent h (tc_key tac) = last_n RECENT_DAYS (forward_results tac ds)
    \<and> (\<forall>p. \<forall>o_key \<in> set (record_outcomes tac). hs_series h (tc_key tac) o_key p = series_of (entries tac o_key p ds))"
proof -
  have "foldR (history_add tactics) rest h0 = Inr h \<Longrightarrow>
      hs_recent h0 (tc_key tac) = last_n RECENT_DAYS (forward_results tac done) \<Longrightarrow>
      \<forall>p. \<forall>o_key \<in> set (record_outcomes tac). hs_series h0 (tc_key tac) o_key p = series_of (entries tac o_key p done) \<Longrightarrow>
      hs_recent h (tc_key tac) = last_n RECENT_DAYS (forward_results tac (done @ rest))
    \<and> (\<forall>p. \<forall>o_key \<in> set (record_outcomes tac). hs_series h (tc_key tac) o_key p = series_of (entries tac o_key p (done @ rest)))"
    for rest h0 "done"
  proof (induction rest arbitrary: h0 "done")
    case (Cons d rest)
    obtain h1 where h1: "history_add tactics d h0 = Inr h1" "foldR (history_add tactics) rest h1 = Inr h"
      using Cons.prems(1) by auto
    note step = history_add_series [OF h1(1) assms(2,3)]
    have "hs_recent h1 (tc_key tac) = last_n RECENT_DAYS (forward_results tac (done @ [d]))"
      using Cons.prems(2) by (simp add: step(2) forward_results_def own_digests_def last_n_push)
    moreover have "\<forall>p. \<forall>o_key \<in> set (record_outcomes tac).
        hs_series h1 (tc_key tac) o_key p = series_of (entries tac o_key p (done @ [d]))"
      using Cons.prems(3) by (simp add: step(1) entries_def own_digests_def series_of_snoc)
    ultimately show ?case using Cons.IH [OF h1(2)] by simp
  qed simp
  from this [OF assms(1), of "[]"] show ?thesis
    by (simp add: new_history_def forward_results_def entries_def own_digests_def series_of_Nil last_n_def)
qed


text \<open>One day of one single-condition tactic.\<close>

definition example_tactic :: trial_tactic where
  "example_tactic = single_tactic (finalize_condition (hd close_conditions))"

definition example_digest :: digest where
  "example_digest =
     \<lparr>dg_date = date_ordinal 2026 10 14, dg_slot = ''close'', dg_rows = 3, dg_resolved = 3,
      dg_tactics = (\<lambda>_. Some \<lparr>td_picks = 2, td_outcomes = (\<lambda>_. Some (Some (1 / 2), None))\<rparr>),
      dg_seal = [], dg_switch = None\<rparr>"

lemma history_refines_days_witness:
  "\<exists>h. foldR (history_add [example_tactic]) [example_digest] new_history = Inr h
     \<and> hs_recent h (tc_key example_tactic) = last_n RECENT_DAYS (forward_results example_tactic [example_digest])"
proof -
  have "case foldR (history_add [example_tactic]) [example_digest] new_history of Inl _ \<Rightarrow> False | Inr _ \<Rightarrow> True"
    by code_simp
  then obtain h where h: "foldR (history_add [example_tactic]) [example_digest] new_history = Inr h"
    by (auto split: sum.splits)
  have "distinct (map tc_key [example_tactic])" "example_tactic \<in> set [example_tactic]" by simp_all
  from history_refines_days [OF h this] h show ?thesis by blast
qed

section \<open>The step-up correction\<close>

lemma bh_run_length [simp]: "length (bh_run n r xs) = length xs"
  by (induction xs arbitrary: r) (simp_all add: Let_def)

lemma bh_run_nth:
  "t < length xs \<Longrightarrow> bh_run n r xs ! t = (fst (xs ! t),
     Min (insert r ((\<lambda>s. flt (fmul (snd (xs ! s)) (of_nat n) / of_nat (length xs - s))) ` {..t})))"
proof (induction xs arbitrary: r t)
  case (Cons kv rest)
  define q where "q = min r (flt (fmul (snd kv) (of_nat n) / of_nat (Suc (length rest))))"
  let ?g = "\<lambda>s. flt (fmul (snd ((kv # rest) ! s)) (of_nat n) / of_nat (length (kv # rest) - s))"
  show ?case
  proof (cases t)
    case 0
    then show ?thesis by (simp add: Let_def)
  next
    case (Suc u)
    then have u: "u < length rest" using Cons.prems by simp
    have img: "?g ` {..Suc u} = insert (?g 0) ((\<lambda>s. flt (fmul (snd (rest ! s)) (of_nat n) / of_nat (length rest - s))) ` {..u})"
      by (simp add: atMost_Suc_eq_insert_0 image_image)
    define S where "S = (\<lambda>s. flt (fmul (snd (rest ! s)) (of_nat n) / of_nat (length rest - s))) ` {..u}"
    define g0 where "g0 = ?g 0"
    have S: "finite S" "S \<noteq> {}" by (auto simp: S_def)
    have min: "Min (insert (min r g0) S) = Min (insert r (insert g0 S))"
      by (simp only: Min_insert [OF S(1)] Min_insert S finite_insert insert_not_empty not_False_eq_True min.assoc)
    have q: "q = min r g0" by (simp add: q_def g0_def)
    have run: "bh_run n r (kv # rest) ! Suc u = bh_run n q rest ! u" by (simp add: Let_def q_def)
    have "bh_run n q rest ! u = (fst (rest ! u), Min (insert r (insert g0 S)))"
      using Cons.IH [OF u, of q] by (simp only: S_def [symmetric] q min)
    then show ?thesis unfolding Suc img run S_def g0_def by simp
  qed
qed simp

lemma map_filter_set: "y \<in> set (List.map_filter f xs) \<longleftrightarrow> (\<exists>x \<in> set xs. f x = Some y)"
  by (induction xs) (auto simp: map_filter_simps split: option.splits)

lemma bh_tested_keys:
  assumes "distinct (map fst p_values)"
  shows "distinct (map fst (bh_tested p_values))" "set (bh_tested p_values) = {(k, v). (k, Some v) \<in> set p_values}"
proof -
  let ?f = "\<lambda>(k, v). map_option (Pair k) v"
  show "set (bh_tested p_values) = {(k, v). (k, Some v) \<in> set p_values}"
  proof (intro set_eqI iffI)
    fix x assume "x \<in> set (bh_tested p_values)"
    then obtain y where y: "y \<in> set p_values" "?f y = Some x" by (auto simp: bh_tested_def map_filter_set)
    have "map_option (Pair (fst y)) (snd y) = Some x" using y(2) by (simp add: case_prod_beta)
    then have "snd y = Some (snd x) \<and> fst x = fst y" by auto
    then have "(fst x, Some (snd x)) = y" by (simp add: prod_eq_iff)
    then show "x \<in> {(k, v). (k, Some v) \<in> set p_values}" using y(1) by (simp add: case_prod_beta)
  next
    fix x assume "x \<in> {(k, v). (k, Some v) \<in> set p_values}"
    then obtain k v where x: "x = (k, v)" "(k, Some v) \<in> set p_values" by auto
    have "?f (k, Some v) = Some x" by (simp add: x)
    then show "x \<in> set (bh_tested p_values)" unfolding bh_tested_def set_sort map_filter_set using x(2) by blast
  qed
  have "distinct (map fst (List.map_filter ?f ps))" if "distinct (map fst ps)" for ps :: "(string \<times> rat option) list"
    using that
  proof (induction ps)
    case (Cons a ps)
    have sub: "fst ` set (List.map_filter ?f ps) \<subseteq> fst ` set ps"
      by (force simp: map_filter_set)
    obtain k v where a: "a = (k, v)" by fastforce
    have "k \<notin> fst ` set (List.map_filter ?f ps)" using Cons.prems sub a by auto
    then show ?case using Cons by (cases v) (simp_all add: map_filter_simps a)
  qed (simp add: map_filter_simps)
  from this [OF assms] have "distinct (map fst (List.map_filter ?f p_values))" .
  moreover have "mset (map fst (bh_tested p_values)) = mset (map fst (List.map_filter ?f p_values))"
    by (simp only: bh_tested_def mset_map mset_sort)
  ultimately show "distinct (map fst (bh_tested p_values))" by (metis mset_eq_imp_distinct_iff)
qed

text \<open>
  bh_q_values is the Benjamini-Hochberg step-up rule in the code's floats: with the tested
  p values sorted, the q value of the i-th is the minimum of 1 and of the adjusted values
  p * m / rank from its own rank up, so q values never exceed 1 and never decrease along the
  order; a key without a p value keeps none and does not count.
\<close>

theorem bh_q_values_step_up:
  assumes "distinct (map fst p_values)" and "tested = bh_tested p_values" and "i < length tested"
  shows "(fst (tested ! i), Some (Min (insert 1 ((\<lambda>j. flt (fmul (snd (tested ! j)) (of_nat (length tested)) / of_nat (j + 1)))
             ` {i..<length tested})))) \<in> set (bh_q_values p_values)
    \<and> (\<forall>k. (k, None) \<in> set p_values \<longrightarrow> (k, None) \<in> set (bh_q_values p_values))"
proof -
  define m where "m = length tested"
  define found where "found = bh_run m 1 (rev tested)"
  have q: "bh_q_values p_values = map (\<lambda>(k, _). (k, map_of found k)) p_values"
    by (simp add: bh_q_values_def Let_def found_def m_def assms(2))
  have keys: "map fst found = rev (map fst tested)"
  proof (rule nth_equalityI)
    fix t assume "t < length (map fst found)"
    then show "map fst found ! t = rev (map fst tested) ! t"
      by (simp add: found_def bh_run_nth rev_map)
  qed (simp add: found_def)
  have dist: "distinct (map fst found)" using bh_tested_keys(1) [OF assms(1)] by (simp add: keys assms(2))
  let ?t = "m - 1 - i"
  have i: "i < m" using assms(3) by (simp add: m_def)
  have img: "(\<lambda>s. flt (fmul (snd (rev tested ! s)) (of_nat m) / of_nat (length (rev tested) - s))) ` {..?t}
      = (\<lambda>j. flt (fmul (snd (tested ! j)) (of_nat m) / of_nat (j + 1))) ` {i..<m}" (is "?f ` _ = ?g ` _")
  proof -
    have fg: "?f (m - 1 - j) = ?g j" if "i \<le> j" "j < m" for j
      using that by (simp add: rev_nth m_def [symmetric])
    have "{..?t} = (\<lambda>j. m - 1 - j) ` {i..<m}"
    proof (intro set_eqI iffI)
      fix s assume "s \<in> {..?t}"
      then have "s = m - 1 - (m - 1 - s)" "m - 1 - s \<in> {i..<m}" using i by auto
      then show "s \<in> (\<lambda>j. m - 1 - j) ` {i..<m}" by blast
    qed (use i in auto)
    then have "?f ` {..?t} = (\<lambda>j. ?f (m - 1 - j)) ` {i..<m}" by (simp only: image_image)
    also have "\<dots> = ?g ` {i..<m}" by (rule image_cong) (use fg in auto)
    finally show ?thesis .
  qed
  have "found ! ?t = (fst (tested ! i), Min (insert 1 (?g ` {i..<m})))"
  proof -
    have t: "?t < length (rev tested)" using i by (simp add: m_def)
    have "fst (rev tested ! ?t) = fst (tested ! i)" using i by (simp add: rev_nth m_def [symmetric])
    then show ?thesis unfolding found_def bh_run_nth [OF t] img by (simp only:)
  qed
  then have "map_of found (fst (tested ! i)) = Some (Min (insert 1 (?g ` {i..<m})))"
  proof -
    assume f: "found ! ?t = (fst (tested ! i), Min (insert 1 (?g ` {i..<m})))"
    have "?t < length found" using i by (simp add: found_def m_def)
    from nth_mem [OF this] show ?thesis unfolding f map_of_eq_Some_iff [OF dist] .
  qed
  moreover have "\<exists>v. (fst (tested ! i), Some v) \<in> set p_values"
    using bh_tested_keys(2) [OF assms(1)] nth_mem [OF assms(3)] by (force simp: assms(2))
  moreover have "map_of found k = None" if "(k, None) \<in> set p_values" for k
  proof -
    have "k \<notin> fst ` set tested"
      using bh_tested_keys(2) [OF assms(1)] that eq_key_imp_eq_value [OF assms(1)] by (force simp: assms(2))
    then show ?thesis using keys by (metis map_of_eq_None_iff set_map set_rev)
  qed
  ultimately show ?thesis unfolding q m_def by force
qed

lemma bh_q_values_step_up_witness:
  "(''b'', Some (Min (insert 1 ((\<lambda>j. flt (fmul (snd ([(''b'', 1 / 8), (''a'', 1 / 2)] ! j)) (of_nat 2) / of_nat (j + 1)))
             ` {0..<2})))) \<in> set (bh_q_values [(''a'', Some (1 / 2)), (''b'', Some (1 / 8)), (''c'', None)])"
proof -
  have t: "[(''b'', 1 / 8), (''a'', 1 / 2)] = bh_tested [(''a'', Some (1 / 2)), (''b'', Some (1 / 8)), (''c'', None)]"
    by (simp add: bh_tested_def map_filter_simps)
  have "distinct (map fst [(''a'', Some (1 / 2 :: rat)), (''b'', Some (1 / 8)), (''c'', None)])" by simp
  from bh_q_values_step_up [OF this t, of 0] show ?thesis by (simp add: numeral_2_eq_2)
qed


section \<open>Pairs and the board\<close>

lemma length_pairs_of: "length (pairs_of xs) = length xs * (length xs - 1) div 2"
proof -
  have "2 * length (pairs_of xs) + length xs = length xs * length xs"
    by (induction xs) (simp_all add: algebra_simps)
  then have "2 * length (pairs_of xs) = length xs * (length xs - 1)"
    by (simp add: diff_mult_distrib2)
  then show ?thesis by linarith
qed

lemma day_board_side:
  assumes "(side, items) \<in> set (day_board slot rows day)" "(row, keys) \<in> set items" "key \<in> set keys"
  shows "\<exists>tac \<in> set TACTICS. tc_key tac = key \<and> tc_side tac = side \<and> tc_slot tac = slot \<and> combination tac
    \<and> evaluate_tactic tac row day = Some True"
  using assms by (auto simp: day_board_def picked_by_def)

end
