(* ===== verification/IntradayClock.thy ===== *)
theory IntradayClock
  imports LimitUpRisk MarketRules
begin

text \<open>
  \<open>quant-service/app/intraday_clock.py\<close> and \<open>intraday_schedule.py\<close>: the continuous-auction segments,
  the quote window of an intraday outcome, the clock texts of providers, and the cadence and
  freshness rules of the scans. An aware datetime is an \<^typ>\<open>instant\<close>, the current time and the
  environment variables are arguments. A \<open>time\<close> is its microseconds after midnight.
\<close>

section \<open>Segments of the continuous auction\<close>

definition CONTINUOUS_AUCTION_SESSIONS :: "(int \<times> int) list" where
  "CONTINUOUS_AUCTION_SESSIONS =
     [(clock_time 9 30, clock_time 11 30), (clock_time 13 0, clock_time 15 0)]"

definition continuous_auction_bounds :: "instant \<Rightarrow> (instant \<times> instant) option" where
  "continuous_auction_bounds t =
     (case py_next (\<lambda>(s, e). s \<le> local_clock t \<and> local_clock t \<le> e) CONTINUOUS_AUCTION_SESSIONS of
        None \<Rightarrow> None
      | Some (s, e) \<Rightarrow> Some (combine_local (local_date t) s, combine_local (local_date t) e))"

definition afternoon_target :: "instant \<Rightarrow> instant \<Rightarrow> int \<Rightarrow> (instant \<times> instant \<times> instant) option" where
  "afternoon_target entry session_end minutes =
     (if local_clock session_end \<noteq> snd (CONTINUOUS_AUCTION_SESSIONS ! 0) then None
      else let remainder = entry + minutes * us_minute - session_end;
               start = combine_local (local_date session_end) (fst (CONTINUOUS_AUCTION_SESSIONS ! 1));
               close_at = combine_local (local_date session_end) (snd (CONTINUOUS_AUCTION_SESSIONS ! 1));
               target = start + remainder
           in if target \<le> close_at then Some (start, close_at, target) else None)"

datatype window_status = Pending | Unavailable

datatype window_reason =
    EntryOutside | TargetCrossesBoundary | TargetNotYetObservable | ExitQuoteMissing | AwaitingExitQuote

record outcome_window =
  ow_horizon :: int
  ow_tolerance :: int
  ow_session :: "(instant \<times> instant) option"
  ow_target :: "instant option"
  ow_after_lunch :: bool
  ow_status :: window_status
  ow_reason :: window_reason
  ow_query :: "(instant \<times> instant) option"
  ow_tolerance_end :: "instant option"

definition window_in :: "instant \<times> instant \<Rightarrow> instant \<Rightarrow> bool \<Rightarrow> int \<Rightarrow> int \<Rightarrow> instant \<Rightarrow> outcome_window" where
  "window_in session target after_lunch horizon tolerance as_of =
     (let base = \<lparr>ow_horizon = horizon, ow_tolerance = tolerance, ow_session = Some session,
                  ow_target = Some target, ow_after_lunch = after_lunch, ow_status = Pending,
                  ow_reason = TargetNotYetObservable, ow_query = None, ow_tolerance_end = None\<rparr>;
          tolerance_end = min (snd session) (target + tolerance * us_second)
      in if snd session < target then base\<lparr>ow_status := Unavailable, ow_reason := TargetCrossesBoundary\<rparr>
         else if as_of < target then base\<lparr>ow_query := Some (target, as_of)\<rparr>
         else base\<lparr>ow_status := (if tolerance_end < as_of then Unavailable else Pending),
                   ow_reason := (if tolerance_end < as_of then ExitQuoteMissing else AwaitingExitQuote),
                   ow_query := Some (target, min as_of tolerance_end), ow_tolerance_end := Some tolerance_end\<rparr>)"

definition intraday_outcome_window :: "instant \<Rightarrow> int \<Rightarrow> instant \<Rightarrow> int \<Rightarrow> bool \<Rightarrow> outcome_window" where
  "intraday_outcome_window entry horizon_minutes as_of tolerance_seconds trading_time =
     (let horizon = max 0 horizon_minutes; tolerance = max 0 tolerance_seconds in
      case continuous_auction_bounds entry of
        None \<Rightarrow> \<lparr>ow_horizon = horizon, ow_tolerance = tolerance, ow_session = None, ow_target = None,
                 ow_after_lunch = False, ow_status = Unavailable, ow_reason = EntryOutside,
                 ow_query = None, ow_tolerance_end = None\<rparr>
      | Some session \<Rightarrow>
          let target = entry + horizon * us_minute in
          if snd session < target \<and> trading_time then
            (case afternoon_target entry (snd session) horizon of
               None \<Rightarrow> window_in session target False horizon tolerance as_of
             | Some (s, e, moved) \<Rightarrow> window_in (s, e) moved True horizon tolerance as_of)
          else window_in session target False horizon tolerance as_of)"

section \<open>Clock texts\<close>

text \<open>The two patterns of \<open>feature_clock\<close>, read from left to right: two digits, an optional colon,
  two digits, optional seconds. In a longer text the clock follows a \<open>T\<close> or a blank and ends
  before a character that is no digit, which the match takes with it.\<close>

definition two_digits :: "string \<Rightarrow> (int \<times> string) option" where
  "two_digits s =
     (case s of a # b # rest \<Rightarrow> if is_digit a \<and> is_digit b then Some (digits_value 0 [a, b], rest) else None
      | _ \<Rightarrow> None)"

definition skip_colon :: "string \<Rightarrow> string" where
  "skip_colon s = (case s of c # cs \<Rightarrow> if c = CHR '':'' then cs else s | [] \<Rightarrow> [])"

definition hour_minute :: "string \<Rightarrow> ((int \<times> int) \<times> string) option" where
  "hour_minute s =
     Option.bind (two_digits s) (\<lambda>(h, rest).
     Option.bind (two_digits (skip_colon rest)) (\<lambda>(m, rest1). Some ((h, m), rest1)))"

definition skip_seconds :: "string \<Rightarrow> string option" where
  "skip_seconds s =
     (case s of c # cs \<Rightarrow> if c = CHR '':'' then map_option snd (two_digits cs) else None | [] \<Rightarrow> None)"

definition clock_end :: "string \<Rightarrow> string option" where
  "clock_end s = (case s of [] \<Rightarrow> Some [] | c # cs \<Rightarrow> if is_digit c then None else Some cs)"

definition match_after :: "string \<Rightarrow> ((int \<times> int) \<times> string) option" where
  "match_after cs =
     Option.bind (hour_minute cs) (\<lambda>(hm, rest).
       case Option.bind (skip_seconds rest) clock_end of
         Some after_match \<Rightarrow> Some (hm, after_match)
       | None \<Rightarrow> map_option (Pair hm) (clock_end rest))"

definition match_clock :: "string \<Rightarrow> ((int \<times> int) \<times> string) option" where
  "match_clock s =
     (case s of [] \<Rightarrow> None
      | c # cs \<Rightarrow> if c = CHR ''T'' \<or> is_space c then match_after cs else None)"

lemma two_digits_shorter: "two_digits s = Some (n, rest) \<Longrightarrow> length rest < length s"
  by (auto simp: two_digits_def split: list.splits if_splits)

lemma skip_colon_shorter: "length (skip_colon s) \<le> length s"
  by (simp add: skip_colon_def split: list.splits)

lemma hour_minute_shorter: "hour_minute s = Some (hm, rest) \<Longrightarrow> length rest < length s"
proof -
  assume "hour_minute s = Some (hm, rest)"
  then obtain h r m where "two_digits s = Some (h, r)" "two_digits (skip_colon r) = Some (m, rest)"
    by (auto simp: hour_minute_def bind_eq_Some_conv)
  then show ?thesis using two_digits_shorter skip_colon_shorter [of r] by (meson less_trans order_less_le_trans)
qed

lemma clock_end_shorter: "clock_end s = Some rest \<Longrightarrow> length rest \<le> length s"
  by (auto simp: clock_end_def split: list.splits if_splits)

lemma skip_seconds_shorter: "skip_seconds s = Some rest \<Longrightarrow> length rest \<le> length s"
  by (auto simp: skip_seconds_def split: list.splits if_splits dest!: two_digits_shorter)

lemma match_after_shorter: "match_after cs = Some (hm, rest) \<Longrightarrow> length rest < length cs"
proof -
  assume m: "match_after cs = Some (hm, rest)"
  then obtain r where r: "hour_minute cs = Some (hm, r)"
    "Option.bind (skip_seconds r) clock_end = Some rest \<or> clock_end r = Some rest"
    by (auto simp: match_after_def bind_eq_Some_conv split: option.splits)
  then have "length rest \<le> length r"
    by (auto simp: bind_eq_Some_conv dest!: clock_end_shorter skip_seconds_shorter)
  then show ?thesis using hour_minute_shorter [OF r(1)] by simp
qed

lemma match_clock_shorter: "match_clock s = Some (hm, rest) \<Longrightarrow> length rest < length s"
proof (cases s)
  case (Cons c cs)
  assume "match_clock s = Some (hm, rest)"
  then have "match_after cs = Some (hm, rest)" unfolding Cons match_clock_def list.case by (metis option.distinct(1))
  then show ?thesis using match_after_shorter by (fastforce simp: Cons)
qed (simp add: match_clock_def)

function find_clocks :: "string \<Rightarrow> (int \<times> int) list" where
  "find_clocks s =
     (case s of [] \<Rightarrow> []
      | c # cs \<Rightarrow> (case match_clock s of Some (hm, rest) \<Rightarrow> hm # find_clocks rest | None \<Rightarrow> find_clocks cs))"
  by pat_completeness auto
termination by (relation "measure length") (auto dest: match_clock_shorter)

declare find_clocks.simps [simp del]

definition full_clock :: "string \<Rightarrow> (int \<times> int) option" where
  "full_clock s =
     Option.bind (hour_minute s) (\<lambda>(hm, rest).
       if rest = [] \<or> skip_seconds rest = Some [] then Some hm else None)"

definition feature_clock :: "string \<Rightarrow> (int \<times> int) option" where
  "feature_clock text0 =
     (let text = py_strip text0; found = find_clocks text in
      Option.bind (if found \<noteq> [] then Some (last found) else full_clock text) (\<lambda>(h, m).
        if h \<le> 23 \<and> m \<le> 59 then Some (h, m) else None))"

definition eac_window :: "string \<Rightarrow> string" where
  "eac_window text =
     (case feature_clock text of
        None \<Rightarrow> ''unknown''
      | Some (h, m) \<Rightarrow>
          let clock = h * 60 + m in
          if 9 * 60 + 40 \<le> clock \<and> clock \<le> 10 * 60 + 45 then ''morning''
          else if 13 * 60 \<le> clock \<and> clock \<le> 14 * 60 + 20 then ''afternoon'' else ''late_or_opening'')"

definition minute_bucket :: "string \<Rightarrow> string option" where
  "minute_bucket text = map_option (\<lambda>(h, m). zero_pad 2 h @ '':'' @ zero_pad 2 m) (feature_clock text)"

section \<open>Cadence of the scans\<close>

definition INTRADAY_WATCHLIST_MAX_SYMBOLS :: int where "INTRADAY_WATCHLIST_MAX_SYMBOLS = 160"

text \<open>\<open>x % y\<close> of a float and a positive integer: the remainder of the truncated division is exact,
  a negative one gets the divisor added.\<close>

definition float_mod :: "rat \<Rightarrow> int \<Rightarrow> rat" where
  "float_mod x y =
     (let q = rfloor (\<bar>x\<bar> / of_int y); r = \<bar>x\<bar> - of_int (q * y)
      in if 0 \<le> x then r else if r = 0 then 0 else flt (of_int y - r))"

definition seconds_until_slot :: "rat \<Rightarrow> int \<Rightarrow> int \<Rightarrow> rat" where
  "seconds_until_slot now_epoch interval_seconds offset_seconds =
     (let interval = max 10 (min 300 interval_seconds);
          elapsed = float_mod (fsub now_epoch (of_int offset_seconds)) interval
      in if elapsed \<noteq> 0 then fsub (of_int interval) elapsed else of_int interval)"

text \<open>\<open>int(os.getenv(name, default))\<close>; a text that is no integer falls back to the default.\<close>

definition env_int :: "string option \<Rightarrow> int \<Rightarrow> int" where
  "env_int env fallback =
     (case env of None \<Rightarrow> fallback | Some s \<Rightarrow> (case py_int s of None \<Rightarrow> fallback | Some n \<Rightarrow> n))"

definition intraday_watchlist_max_symbols :: "string option \<Rightarrow> int" where
  "intraday_watchlist_max_symbols env = max 40 (min 200 (env_int env INTRADAY_WATCHLIST_MAX_SYMBOLS))"

definition intraday_scan_interval_seconds :: "string option \<Rightarrow> int" where
  "intraday_scan_interval_seconds env = max 0 (min 300 (env_int env 0))"

definition HIGH_FREQUENCY_WINDOWS :: "(int \<times> int) list" where
  "HIGH_FREQUENCY_WINDOWS =
     [(clock_time 9 30, clock_time 10 0), (clock_time 11 10, clock_time 11 30),
      (clock_time 13 0, clock_time 13 30), (clock_time 14 30, clock_time 15 0)]"

definition intraday_high_frequency_window :: "instant \<Rightarrow> bool" where
  "intraday_high_frequency_window t =
     list_ex (\<lambda>(s, e). s \<le> local_clock t \<and> local_clock t < e) HIGH_FREQUENCY_WINDOWS"

definition MORNING_FAST_WINDOW :: "int \<times> int" where
  "MORNING_FAST_WINDOW = (clock_time 9 15, clock_time 11 30)"

definition MORNING_FAST_SCAN_SECONDS :: int where "MORNING_FAST_SCAN_SECONDS = 5"

definition intraday_morning_fast_window :: "instant \<Rightarrow> bool" where
  "intraday_morning_fast_window t =
     (fst MORNING_FAST_WINDOW \<le> local_clock t \<and> local_clock t < snd MORNING_FAST_WINDOW)"

definition intraday_effective_scan_interval_seconds :: "int \<Rightarrow> instant \<Rightarrow> int" where
  "intraday_effective_scan_interval_seconds normal t =
     (if normal \<le> 0 then 0 else if intraday_morning_fast_window t then MORNING_FAST_SCAN_SECONDS
      else if intraday_high_frequency_window t then 10 else normal)"

record capacity =
  cp_requested :: int
  cp_max :: int
  cp_blocked :: bool

definition intraday_watchlist_capacity :: "int \<Rightarrow> int option \<Rightarrow> string option \<Rightarrow> capacity" where
  "intraday_watchlist_capacity symbol_count max_symbols env =
     (let requested = max 0 symbol_count;
          room = (case max_symbols of None \<Rightarrow> intraday_watchlist_max_symbols env | Some m \<Rightarrow> max 1 m)
      in \<lparr>cp_requested = requested, cp_max = room, cp_blocked = (room < requested)\<rparr>)"

definition intraday_next_realtime_validation_offset :: "int \<Rightarrow> int \<Rightarrow> int \<Rightarrow> int" where
  "intraday_next_realtime_validation_offset current_offset step slots =
     (max 0 current_offset + max 0 step) mod max 1 (min 200 slots)"

definition intraday_realtime_validation_slice :: "'a list \<Rightarrow> int \<Rightarrow> int \<Rightarrow> 'a list \<times> int" where
  "intraday_realtime_validation_slice symbols current_offset most =
     (if symbols = [] then ([], 0)
      else let size_all = int (length symbols);
               start = max 0 current_offset mod size_all;
               bounded = max 0 (min most size_all)
           in if bounded = 0 then ([], start)
              else (take (nat bounded) (drop (nat start) symbols @ take (nat start) symbols),
                    (start + bounded) mod size_all))"

definition intraday_rule_input_retention_days :: "string option \<Rightarrow> int" where
  "intraday_rule_input_retention_days env = min 400 (max 60 (env_int env 90))"

definition intraday_session_elapsed_seconds :: "instant \<Rightarrow> rat option" where
  "intraday_session_elapsed_seconds t =
     (let clock = local_clock t;
          segment = (if clock_time 9 30 \<le> clock \<and> clock < clock_time 11 30 then Some (clock_time 9 30)
            else if clock_time 13 0 \<le> clock \<and> clock < clock_time 15 0 then Some (clock_time 13 0) else None)
      in map_option (\<lambda>s. max 0 (flt (of_int (clock - s) / 1000000))) segment)"

text \<open>\<open>(b - a).total_seconds()\<close>\<close>

definition seconds_between :: "instant \<Rightarrow> instant \<Rightarrow> rat" where
  "seconds_between a b = flt (of_int (b - a) / 1000000)"

definition service_age :: "instant option \<Rightarrow> instant \<Rightarrow> rat option" where
  "service_age last_observed observed = map_option (\<lambda>l. max 0 (seconds_between l observed)) last_observed"

definition within_grace :: "instant \<Rightarrow> rat \<Rightarrow> bool" where
  "within_grace observed grace =
     (case intraday_session_elapsed_seconds observed of None \<Rightarrow> False | Some e \<Rightarrow> e \<le> grace)"

definition intraday_runtime_service_state :: "bool \<Rightarrow> bool \<Rightarrow> instant option \<Rightarrow> instant \<Rightarrow> rat \<Rightarrow> rat
    \<Rightarrow> string \<times> rat option" where
  "intraday_runtime_service_state configured expected_active last_observed observed max_age grace =
     (if \<not> configured then (''disabled'', None)
      else if \<not> expected_active then (''standby'', service_age last_observed observed)
      else case service_age last_observed observed of
        None \<Rightarrow> (if within_grace observed grace then ''starting'' else ''degraded'', None)
      | Some age \<Rightarrow>
          if age \<le> max_age then (''healthy'', Some age)
          else (if within_grace observed grace then ''starting'' else ''degraded'', Some age))"

definition intraday_next_monitor_delay_seconds :: "int \<Rightarrow> instant \<Rightarrow> rat" where
  "intraday_next_monitor_delay_seconds normal t =
     (if normal \<le> 0 then 0
      else let normal_delay = of_int (intraday_effective_scan_interval_seconds normal t) in
        if intraday_morning_fast_window t \<or> intraday_high_frequency_window t then normal_delay
        else (case py_next (\<lambda>s. 0 < s \<and> s < normal_delay)
                (map (\<lambda>start. flt (of_int (start - local_clock t) / 1000000))
                  [fst MORNING_FAST_WINDOW, clock_time 13 0, clock_time 14 30]) of
                None \<Rightarrow> normal_delay | Some s \<Rightarrow> s))"

definition intraday_board_refresh_interval_seconds :: "instant \<Rightarrow> int" where
  "intraday_board_refresh_interval_seconds t = (if intraday_high_frequency_window t then 60 else 300)"

definition to_lower :: "string \<Rightarrow> string" where
  "to_lower s = map (\<lambda>c. let n = of_char c :: nat in if 65 \<le> n \<and> n \<le> 90 then char_of (n + 32) else c) s"

definition intraday_board_curve_enabled :: "string option \<Rightarrow> bool" where
  "intraday_board_curve_enabled env =
     (to_lower (py_strip (case env of None \<Rightarrow> ''true'' | Some s \<Rightarrow> s)) \<in> set [''1'', ''true'', ''yes'', ''on''])"

definition intraday_board_curve_retention_days :: "string option \<Rightarrow> int" where
  "intraday_board_curve_retention_days env = min 366 (max 7 (env_int env 60))"

definition intraday_board_rotation_retention_days :: "string option \<Rightarrow> int" where
  "intraday_board_rotation_retention_days env = min 366 (max 7 (env_int env 60))"

definition intraday_board_curve_clock_session :: "instant \<Rightarrow> bool" where
  "intraday_board_curve_clock_session t =
     (local_weekday t < 5 \<and>
      (clock_time 9 20 \<le> local_clock t \<and> local_clock t \<le> clock_time 11 30
       \<or> clock_time 13 0 \<le> local_clock t \<and> local_clock t \<le> clock_time 15 0))"


section \<open>Windows stay inside one segment\<close>

text \<open>The trading time of a day that has passed at an instant: the morning segment, then the
  afternoon segment.\<close>

definition trading_us :: "instant \<Rightarrow> int" where
  "trading_us t =
     (let c = local_clock t in
      min (2 * us_hour) (max 0 (c - clock_time 9 30)) + min (2 * us_hour) (max 0 (c - clock_time 13 0)))"

lemma bounds_cases:
  assumes "continuous_auction_bounds t = Some (s, e)"
  obtains "local_clock s = clock_time 9 30" "local_clock e = clock_time 11 30" "local_date s = local_date t"
      "local_date e = local_date t" "s \<le> t" "t \<le> e" "e - s = 2 * us_hour"
    | "local_clock s = clock_time 13 0" "local_clock e = clock_time 15 0" "local_date s = local_date t"
      "local_date e = local_date t" "s \<le> t" "t \<le> e" "e - s = 2 * us_hour"
proof -
  have c: "0 \<le> clock_time 9 30" "clock_time 9 30 < us_day" "0 \<le> clock_time 11 30" "clock_time 11 30 < us_day"
    "0 \<le> clock_time 13 0" "clock_time 13 0 < us_day" "0 \<le> clock_time 15 0" "clock_time 15 0 < us_day"
    by (simp_all add: clock_time_def us_defs)
  have t: "t = combine_local (local_date t) (local_clock t)" by (simp add: combine_local_clock)
  have le: "combine_local d a \<le> combine_local d b \<longleftrightarrow> a \<le> b" for d a b by (simp add: combine_local_def)
  consider "clock_time 9 30 \<le> local_clock t" "local_clock t \<le> clock_time 11 30"
      "s = combine_local (local_date t) (clock_time 9 30)" "e = combine_local (local_date t) (clock_time 11 30)"
    | "clock_time 13 0 \<le> local_clock t" "local_clock t \<le> clock_time 15 0"
      "s = combine_local (local_date t) (clock_time 13 0)" "e = combine_local (local_date t) (clock_time 15 0)"
    using assms
    by (auto simp: continuous_auction_bounds_def py_next_def CONTINUOUS_AUCTION_SESSIONS_def split: if_splits)
  then show thesis
  proof cases
    case 1
    have "s \<le> t" "t \<le> e" unfolding 1(3,4) using 1(1,2) t le by metis+
    moreover have "e - s = 2 * us_hour" by (simp add: 1 combine_local_def clock_time_def us_defs)
    ultimately show thesis using that(1) 1 c by (simp add: local_clock_combine local_date_combine)
  next
    case 2
    have "s \<le> t" "t \<le> e" unfolding 2(3,4) using 2(1,2) t le by metis+
    moreover have "e - s = 2 * us_hour" by (simp add: 2 combine_local_def clock_time_def us_defs)
    ultimately show thesis using that(2) 2 c by (simp add: local_clock_combine local_date_combine)
  qed
qed


lemma segment_clock:
  assumes "0 \<le> x" "local_clock s + x < us_day"
  shows "local_clock (s + x) = local_clock s + x" "local_date (s + x) = local_date s"
proof -
  have "s + x = combine_local (local_date s) (local_clock s + x)"
    using combine_local_clock [of s] by (simp add: combine_local_def)
  then show "local_clock (s + x) = local_clock s + x" "local_date (s + x) = local_date s"
    using assms local_clock_bounds(1) [of s]
    by (metis local_clock_combine add_nonneg_nonneg, metis local_date_combine add_nonneg_nonneg)
qed

lemma trading_in_segment:
  assumes "s \<le> t" "t - s \<le> 2 * us_hour"
  shows "local_clock s = clock_time 9 30 \<Longrightarrow> trading_us t = t - s"
    and "local_clock s = clock_time 13 0 \<Longrightarrow> trading_us t = 2 * us_hour + (t - s)"
proof -
  have t: "s + (t - s) = t" by simp
  show "trading_us t = t - s" if "local_clock s = clock_time 9 30"
    using segment_clock(1) [of "t - s" s] assms that unfolding t
    by (simp add: trading_us_def Let_def clock_time_def us_defs)
  show "trading_us t = 2 * us_hour + (t - s)" if "local_clock s = clock_time 13 0"
    using segment_clock(1) [of "t - s" s] assms that unfolding t
    by (simp add: trading_us_def Let_def clock_time_def us_defs)
qed

text \<open>A segment of the entry's day with a target inside it that lies the horizon after the entry in
  trading time.\<close>

definition good_target :: "instant \<Rightarrow> int \<Rightarrow> instant \<times> instant \<Rightarrow> instant \<Rightarrow> bool" where
  "good_target entry horizon session target =
     (case session of (s, e) \<Rightarrow>
        (local_clock s, local_clock e) \<in> set CONTINUOUS_AUCTION_SESSIONS
        \<and> local_date s = local_date entry \<and> local_date e = local_date entry \<and> s \<le> target
        \<and> (target \<le> e \<longrightarrow> trading_us target = trading_us entry + horizon * us_minute))"

lemma direct_target:
  assumes "continuous_auction_bounds entry = Some (s, e)" "0 \<le> horizon"
  shows "good_target entry horizon (s, e) (entry + horizon * us_minute)"
  using assms(1)
proof (cases rule: bounds_cases)
  case 1
  have "0 \<le> horizon * us_minute" using assms(2) by (simp add: us_defs)
  with 1 show ?thesis
    using trading_in_segment(1) [OF 1(5)] trading_in_segment(1) [of s "entry + horizon * us_minute"]
    by (auto simp: good_target_def CONTINUOUS_AUCTION_SESSIONS_def)
next
  case 2
  have "0 \<le> horizon * us_minute" using assms(2) by (simp add: us_defs)
  with 2 show ?thesis
    using trading_in_segment(2) [OF 2(5)] trading_in_segment(2) [of s "entry + horizon * us_minute"]
    by (auto simp: good_target_def CONTINUOUS_AUCTION_SESSIONS_def)
qed

lemma moved_target:
  assumes "continuous_auction_bounds entry = Some (s, e)" "e < entry + horizon * us_minute"
    and "afternoon_target entry e horizon = Some (s1, e1, target)"
  shows "good_target entry horizon (s1, e1) target" "target \<le> e1"
proof -
  have morning: "local_clock e = clock_time 11 30" and
    t: "s1 = combine_local (local_date e) (clock_time 13 0)" "e1 = combine_local (local_date e) (clock_time 15 0)"
      "target = s1 + (entry + horizon * us_minute - e)" "target \<le> e1"
    using assms(3) by (auto simp: afternoon_target_def CONTINUOUS_AUCTION_SESSIONS_def Let_def split: if_splits)
  show "target \<le> e1" by (rule t)
  have ne: "clock_time 15 0 \<noteq> clock_time 11 30" by (simp add: clock_time_def us_defs)
  have bounds: "0 \<le> clock_time 13 0" "clock_time 13 0 < us_day" "0 \<le> clock_time 15 0" "clock_time 15 0 < us_day"
    by (simp_all add: clock_time_def us_defs)
  have len: "e1 - s1 = 2 * us_hour" by (simp add: t combine_local_def clock_time_def us_defs)
  have c: "local_clock s1 = clock_time 13 0" "local_date s1 = local_date e"
    "local_clock e1 = clock_time 15 0" "local_date e1 = local_date e" "e1 - s1 = 2 * us_hour"
    by (rule len | simp add: t(1,2) local_clock_combine local_date_combine bounds)+
  from assms(1) show "good_target entry horizon (s1, e1) target"
  proof (cases rule: bounds_cases)
    case 1
    have "trading_us entry = entry - s" using trading_in_segment(1) [OF 1(5)] 1 by simp
    moreover have "trading_us target = 2 * us_hour + (target - s1)"
      using trading_in_segment(2) [of s1 target] c t(3,4) assms(2) by simp
    ultimately show ?thesis using 1 c t(3) assms(2)
      by (auto simp: good_target_def CONTINUOUS_AUCTION_SESSIONS_def)
  next
    case 2
    then show ?thesis using morning ne by simp
  qed
qed

lemma window_in_query:
  assumes "good_target entry horizon session target"
    and "ow_query (window_in session target after_lunch horizon tolerance as_of) = Some (qs, qe)"
    and "w = window_in session target after_lunch horizon tolerance as_of"
  shows "ow_session w = Some session \<and> qs = target \<and> target \<le> snd session \<and> qe \<le> as_of
    \<and> (\<forall>t. ow_tolerance_end w = Some t \<longrightarrow> qe \<le> t \<and> t \<le> snd session \<and> t \<le> target + tolerance * us_second)
    \<and> qe \<le> snd session"
  using assms by (auto simp: window_in_def Let_def split: if_splits)

lemma window_in_tolerance:
  "ow_query (window_in session target after_lunch horizon tolerance as_of) = Some (qs, qe)
    \<Longrightarrow> as_of < qs \<or> qe \<le> qs + tolerance * us_second"
  by (auto simp: window_in_def Let_def split: if_splits)

text \<open>Where quotes may be read, the window is one of a segment that holds the target.\<close>

lemma outcome_window_form:
  assumes "ow_query (intraday_outcome_window entry horizon as_of tolerance tt) = Some (qs, qe)"
  obtains session target after_lunch where
    "\<And>as_of'. intraday_outcome_window entry horizon as_of' tolerance tt
        = window_in session target after_lunch (max 0 horizon) (max 0 tolerance) as_of'"
    "good_target entry (max 0 horizon) session target"
proof -
  define h where "h = max 0 horizon"
  define tol where "tol = max 0 tolerance"
  have "\<exists>session target after_lunch.
      (\<forall>as_of'. intraday_outcome_window entry horizon as_of' tolerance tt = window_in session target after_lunch h tol as_of')
      \<and> good_target entry h session target"
  proof -
    obtain s0 e0 where b: "continuous_auction_bounds entry = Some (s0, e0)"
      using assms by (cases "continuous_auction_bounds entry") (auto simp: intraday_outcome_window_def Let_def)
    show ?thesis
    proof (cases "e0 < entry + h * us_minute \<and> tt")
      case True
      show ?thesis
      proof (cases "afternoon_target entry e0 h")
        case None
        show ?thesis
          by (rule exI [of _ "(s0, e0)"], rule exI [of _ "entry + h * us_minute"], rule exI [of _ False])
            (use True None b in \<open>simp add: intraday_outcome_window_def Let_def h_def tol_def direct_target\<close>)
      next
        case (Some moved)
        obtain s1 e1 t1 where m: "moved = (s1, e1, t1)" by (cases moved)
        show ?thesis
          by (rule exI [of _ "(s1, e1)"], rule exI [of _ t1], rule exI [of _ True])
            (use True Some m b moved_target [OF b, of h s1 e1 t1]
              in \<open>simp add: intraday_outcome_window_def Let_def h_def tol_def\<close>)
      qed
    next
      case False
      show ?thesis
        by (rule exI [of _ "(s0, e0)"], rule exI [of _ "entry + h * us_minute"], rule exI [of _ False])
          (use False b direct_target [OF b, of h] in \<open>auto simp: intraday_outcome_window_def Let_def h_def tol_def\<close>)
    qed
  qed
  then show thesis using that unfolding h_def tol_def by blast
qed

lemma outcome_window_query:
  assumes "ow_query (intraday_outcome_window entry horizon as_of tolerance tt) = Some (qs, qe)"
  shows "\<exists>s e. ow_session (intraday_outcome_window entry horizon as_of tolerance tt) = Some (s, e)
    \<and> (local_clock s, local_clock e) \<in> set CONTINUOUS_AUCTION_SESSIONS
    \<and> local_date s = local_date entry \<and> local_date e = local_date entry
    \<and> s \<le> qs \<and> qs \<le> e \<and> qe \<le> e \<and> qe \<le> as_of
    \<and> trading_us qs = trading_us entry + max 0 horizon * us_minute
    \<and> (as_of < qs \<or> qe \<le> qs + max 0 tolerance * us_second)"
proof -
  define h where "h = max 0 horizon"
  define tol where "tol = max 0 tolerance"
  obtain session target after_lunch where
    w: "intraday_outcome_window entry horizon as_of tolerance tt = window_in session target after_lunch h tol as_of"
    and good: "good_target entry h session target"
    using outcome_window_form [OF assms] unfolding h_def tol_def by metis
  obtain s e where se: "session = (s, e)" by fastforce
  have q: "ow_query (window_in session target after_lunch h tol as_of) = Some (qs, qe)" using assms by (simp add: w)
  note facts = window_in_query [OF good q refl]
  have tolerance: "as_of < qs \<or> qe \<le> qs + tol * us_second"
    using window_in_tolerance [OF q] .
  have place: "(local_clock s, local_clock e) \<in> set CONTINUOUS_AUCTION_SESSIONS"
      "local_date s = local_date entry" "local_date e = local_date entry" "s \<le> target"
      "target \<le> e \<Longrightarrow> trading_us target = trading_us entry + h * us_minute"
    using good by (simp_all add: se good_target_def)
  have window: "ow_session (window_in session target after_lunch h tol as_of) = Some (s, e)"
      "qs = target" "target \<le> e" "qe \<le> e" "qe \<le> as_of"
    using facts by (simp_all add: se)
  show ?thesis
    unfolding w h_def [symmetric] tol_def [symmetric]
    by (rule exI [of _ s], rule exI [of _ e]) (use place window tolerance in simp)
qed

text \<open>A later reading starts at the same target and ends no earlier.\<close>

lemma outcome_window_later:
  assumes "ow_query (intraday_outcome_window entry horizon as_of tolerance tt) = Some (qs, qe)" "as_of \<le> as_of'"
  shows "\<exists>qe'. ow_query (intraday_outcome_window entry horizon as_of' tolerance tt) = Some (qs, qe') \<and> qe \<le> qe'"
proof -
  obtain session target after_lunch where
    w: "\<And>as_of'. intraday_outcome_window entry horizon as_of' tolerance tt
        = window_in session target after_lunch (max 0 horizon) (max 0 tolerance) as_of'"
    and good: "good_target entry (max 0 horizon) session target"
    using outcome_window_form [OF assms(1)] by metis
  have "0 \<le> max 0 tolerance * us_second" by (simp add: us_defs)
  then show ?thesis
    using assms unfolding w by (auto simp: window_in_def Let_def min_def split: if_splits)
qed

text \<open>
  C34. No outcome borrows a price from outside its session: whenever an outcome window lets quotes
  be read, they lie in one continuous-auction segment of the entry's own day, from a target that
  is exactly the horizon after the entry in trading time, up to an end that is no later than the
  cutoff, the segment's end and, once the target is observable, the tolerance.
\<close>

theorem outcome_window_inside_session:
  assumes "ow_query (intraday_outcome_window entry horizon as_of tolerance tt) = Some (qs, qe)"
  shows "\<exists>s e. ow_session (intraday_outcome_window entry horizon as_of tolerance tt) = Some (s, e)
    \<and> (local_clock s, local_clock e) \<in> set CONTINUOUS_AUCTION_SESSIONS
    \<and> local_date s = local_date entry \<and> local_date e = local_date entry
    \<and> s \<le> qs \<and> qs \<le> e \<and> qe \<le> e \<and> qe \<le> as_of
    \<and> trading_us qs = trading_us entry + max 0 horizon * us_minute
    \<and> (as_of < qs \<or> qe \<le> qs + max 0 tolerance * us_second)"
  by (rule outcome_window_query [OF assms])

text \<open>11:28 plus five minutes of trading time on 2026-10-13, read at 14:00: the target is 13:03.\<close>

lemma outcome_window_inside_session_witness:
  "\<exists>s e. (local_clock s, local_clock e) \<in> set CONTINUOUS_AUCTION_SESSIONS
    \<and> trading_us (combine_local 739902 (clock_time 13 3)) = trading_us (combine_local 739902 (clock_time 11 28)) + 5 * us_minute
    \<and> s \<le> combine_local 739902 (clock_time 13 3) \<and> combine_local 739902 (clock_time 13 3) \<le> e"
proof -
  let ?entry = "combine_local 739902 (clock_time 11 28)" and ?now = "combine_local 739902 (clock_time 14 0)"
  let ?target = "combine_local 739902 (clock_time 13 3)"
  have "ow_query (intraday_outcome_window ?entry 5 ?now 90 True) = Some (?target, ?target + 90 * us_second)"
    by code_simp
  from outcome_window_inside_session [OF this] obtain s e where
    "(local_clock s, local_clock e) \<in> set CONTINUOUS_AUCTION_SESSIONS" "s \<le> ?target" "?target \<le> e"
    "trading_us ?target = trading_us ?entry + max 0 5 * us_minute" by blast
  then show ?thesis by (intro exI [of _ s] exI [of _ e]) simp
qed

section \<open>Validation slices reach every symbol\<close>

text \<open>The slices of successive rounds, each starting where the one before ended.\<close>

primrec validation_rounds :: "'a list \<Rightarrow> int \<Rightarrow> nat \<Rightarrow> int \<Rightarrow> 'a list list" where
  "validation_rounds symbols most 0 offset = []"
| "validation_rounds symbols most (Suc k) offset =
     (case intraday_realtime_validation_slice symbols offset most of
        (found, next_offset) \<Rightarrow> found # validation_rounds symbols most k next_offset)"

lemma rotated_nth:
  assumes "start < length xs" "j < length xs"
  shows "(drop start xs @ take start xs) ! j = xs ! ((start + j) mod length xs)"
proof (cases "start + j < length xs")
  case True
  then have "j < length (drop start xs)" by simp
  then show ?thesis using True by (simp add: nth_append)
next
  case False
  then have "(start + j) mod length xs = start + j - length xs"
    using assms by (simp add: mod_if)
  moreover have "(drop start xs @ take start xs) ! j = take start xs ! (j - length (drop start xs))"
    using False by (simp only: nth_append length_drop) (simp add: less_diff_conv add.commute)
  moreover have "j - length (drop start xs) = start + j - length xs" "start + j - length xs < start"
    using assms False by simp_all
  ultimately show ?thesis by (simp add: add.commute)
qed

lemma slice_spec:
  assumes "symbols \<noteq> []" "1 \<le> most" "0 \<le> offset"
  defines "n \<equiv> length symbols" and "b \<equiv> min (nat most) (length symbols)"
  shows "intraday_realtime_validation_slice symbols offset most =
    (map (\<lambda>j. symbols ! ((nat offset + j) mod n)) [0..<b], int ((nat offset + b) mod n))"
proof -
  have n: "0 < n" using assms(1) by (simp add: n_def)
  obtain o1 where o1: "offset = int o1" using assms(3) nonneg_int_cases by blast
  obtain m1 where m1: "most = int m1" "1 \<le> m1" using assms(2) by (metis nonneg_int_cases of_nat_1 of_nat_le_iff order_trans zero_le_one)
  have b: "max 0 (min most (int (length symbols))) = int b" by (simp add: m1 b_def)
  have b0: "0 < b" "b \<le> n" using n m1 by (auto simp: b_def n_def)
  have start: "max 0 offset mod int (length symbols) = int (o1 mod n)" by (simp add: o1 n_def zmod_int)
  have sl: "take b (drop (o1 mod n) symbols @ take (o1 mod n) symbols)
      = map (\<lambda>j. symbols ! ((nat offset + j) mod n)) [0..<b]"
  proof (rule nth_equalityI)
    fix j assume "j < length (take b (drop (o1 mod n) symbols @ take (o1 mod n) symbols))"
    then have j: "j < b" by simp
    then have "(drop (o1 mod n) symbols @ take (o1 mod n) symbols) ! j = symbols ! ((o1 mod n + j) mod n)"
      using rotated_nth [of "o1 mod n" symbols j] n b0 by (simp add: n_def)
    then show "take b (drop (o1 mod n) symbols @ take (o1 mod n) symbols) ! j
        = map (\<lambda>j. symbols ! ((nat offset + j) mod n)) [0..<b] ! j"
      using j by (simp add: o1 mod_simps del: take_append)
  qed (use b0 n in \<open>simp add: n_def del: take_append\<close>)
  have "int (o1 mod n) + int b = int (o1 mod n + b)" by simp
  then have next_offset: "(int (o1 mod n) + int b) mod int (length symbols) = int ((nat offset + b) mod n)"
    by (simp only: n_def [symmetric] o1 nat_int flip: zmod_int) (simp add: mod_simps)
  show ?thesis
    unfolding intraday_realtime_validation_slice_def Let_def b start nat_int next_offset sl
    using assms(1) b0 by simp
qed

lemma rounds_cover:
  assumes "symbols \<noteq> []" "1 \<le> most"
  defines "n \<equiv> length symbols" and "b \<equiv> min (nat most) (length symbols)"
  shows "0 \<le> offset \<Longrightarrow> concat (validation_rounds symbols most k offset)
      = map (\<lambda>j. symbols ! ((nat offset + j) mod n)) [0..<k * b]"
proof (induction k arbitrary: offset)
  case (Suc k)
  have shift: "map (\<lambda>j. symbols ! (((nat offset + b) mod n + j) mod n)) [0..<k * b]
      = map (\<lambda>j. symbols ! ((nat offset + j) mod n)) [b..<b + k * b]"
    by (rule nth_equalityI) (simp_all add: mod_simps add.assoc)
  have "concat (validation_rounds symbols most (Suc k) offset)
      = map (\<lambda>j. symbols ! ((nat offset + j) mod n)) [0..<b]
        @ concat (validation_rounds symbols most k (int ((nat offset + b) mod n)))"
    using slice_spec [OF assms(1,2) Suc.prems] by (simp add: n_def b_def)
  also have "\<dots> = map (\<lambda>j. symbols ! ((nat offset + j) mod n)) [0..<b + k * b]"
    using Suc.IH [of "int ((nat offset + b) mod n)"] shift
    by (simp only: nat_int of_nat_0_le_iff simp_thms map_append [symmetric] upt_add_eq_append [of 0 b, simplified])
  finally show ?case by simp
qed simp

text \<open>
  The rotating minute validation is fair: with a limit of at least one, after as many rounds
  as it takes for the slices to add up to the watchlist, every symbol has been in a slice, from
  whatever offset the rotation starts and with no symbol outside the list.
\<close>

theorem validation_rounds_cover:
  assumes "symbols \<noteq> []" and "1 \<le> most" and "0 \<le> offset"
    and "length symbols \<le> k * min (nat most) (length symbols)"
  shows "set (concat (validation_rounds symbols most k offset)) = set symbols"
proof -
  define n where "n = length symbols"
  have n: "0 < n" using assms(1) by (simp add: n_def)
  have img: "(\<lambda>j. (nat offset + j) mod n) ` {0..<k * min (nat most) n} = {0..<n}"
  proof (intro set_eqI iffI)
    fix i assume "i \<in> {0..<n}"
    then have i: "i < n" by simp
    define r where "r = nat offset mod n"
    define j where "j = (i + (n - r)) mod n"
    have "r < n" using n by (simp add: r_def)
    then have "(r + (i + (n - r))) mod n = i" using i by simp
    then have "(nat offset + j) mod n = i" by (simp add: j_def r_def mod_simps)
    moreover have "j < n" using n by (simp add: j_def)
    then have "j < k * min (nat most) n" using assms(4) by (simp add: n_def)
    ultimately show "i \<in> (\<lambda>j. (nat offset + j) mod n) ` {0..<k * min (nat most) n}" by force
  qed (use n in auto)
  have "set (concat (validation_rounds symbols most k offset))
      = (!) symbols ` ((\<lambda>j. (nat offset + j) mod n) ` {0..<k * min (nat most) n})"
    by (simp only: rounds_cover [OF assms(1,2,3)] n_def [symmetric] set_map set_upt image_image)
  also have "\<dots> = set symbols" unfolding img by (auto simp: n_def set_conv_nth)
  finally show ?thesis .
qed

lemma validation_rounds_cover_witness:
  "set (concat (validation_rounds [''A'', ''B'', ''C''] 2 2 7)) = {''A'', ''B'', ''C''}"
  using validation_rounds_cover [of "[''A'', ''B'', ''C'']" 2 7 2] by simp

end
