(* ===== verification/PyCells.thy ===== *)
theory PyCells
  imports LimitUpRisk
begin

text \<open>
  The guarded readers several modules define for the values of a JSON document: a number that is
  \<^const>\<open>None\<close> when \<open>float\<close> raises, and a text with a fallback.
\<close>

text \<open>\<open>float(value)\<close>, \<^const>\<open>None\<close> on a \<open>TypeError\<close> or \<open>ValueError\<close>.\<close>

definition number_of :: "cell \<Rightarrow> rat option" where
  "number_of c = (case cell_float c of Inl e \<Rightarrow> None | Inr x \<Rightarrow> Some x)"

text \<open>\<open>x or fallback\<close> for a text.\<close>

definition str_or :: "string option \<Rightarrow> string \<Rightarrow> string" where
  "str_or s fallback = (case s of Some t \<Rightarrow> if t = [] then fallback else t | None \<Rightarrow> fallback)"

lemma number_of_float: "number_of c = Some x \<Longrightarrow> flt x = x"
proof (cases c)
  case (CText t)
  then show "number_of c = Some x \<Longrightarrow> flt x = x"
    by (auto simp: number_of_def cell_float_def float_text_def flt.rnd_idem split: sum.splits prod.splits option.splits if_splits)
qed (auto simp: number_of_def cell_float_def flt.rnd_idem)

end
