(* ===== verification/PaperPlan.thy ===== *)
theory PaperPlan
  imports PyCells "HOL-Library.Char_ord" "HOL-Library.List_Lexorder"
begin

text \<open>
  \<open>quant-service/app/paper_auto_execution.py\<close>: the orders of one pass of the paper ledger. A JSON
  number is a \<^typ>\<open>cell\<close>, finite as everywhere in this development; a text that may be absent is an
  option, and a mapping the code tests with \<open>isinstance\<close> is an optional record. The positions are a
  dict: an association list in insertion order. Quotes are a function from the symbol to the cell
  under \<open>price\<close>.
\<close>

section \<open>Intents\<close>

definition FALLBACK_WEIGHT :: rat where "FALLBACK_WEIGHT = flt (1 / 10)"
definition MAX_OPEN_POSITIONS :: int where "MAX_OPEN_POSITIONS = 8"
definition MAX_NEW_PER_PASS :: int where "MAX_NEW_PER_PASS = 2"
definition LOT :: int where "LOT = 100"
definition FALLBACK_STOP_LOSS_PCT :: rat where "FALLBACK_STOP_LOSS_PCT = 8"
definition FALLBACK_MAX_HOLDING_DAYS :: int where "FALLBACK_MAX_HOLDING_DAYS = 5"

definition EXIT_FRACTIONS :: "(string \<times> rat) list" where
  "EXIT_FRACTIONS = [(''exit'', 1), (''reduce_or_exit'', 1), (''reduce_half'', 1 / 2)]"

record plan_candidate =
  pc_symbol :: "string option"
  pc_strategy_key :: "string option"
  pc_source :: "string option"
  pc_mode :: "string option"
  pc_decision :: "string option"
  pc_fractions :: "(cell \<times> cell) option"
  pc_stop_min :: "cell option"
  pc_exit :: "(string option \<times> string list) option"
  pc_risk_flags :: "string list"
  pc_confirmed :: "bool option"
  pc_direction :: "string option"
  pc_delivery_key :: "string option"

record intent =
  it_symbol :: string
  it_strategy_key :: string
  it_mode :: "string option"
  it_decision :: string
  it_entry_fraction :: rat
  it_sizing_source :: string
  it_target_fraction :: "rat option"
  it_stop_loss :: "rat option"
  it_exit_action :: string
  it_exit_codes :: "string list"
  it_risk_flags :: "string list"
  it_confirmed :: bool
  it_direction :: string
  it_delivery_key :: "string option"

record holding =
  hd_quantity :: cell
  hd_sellable :: cell
  hd_cost :: cell
  hd_entry_stop :: cell
  hd_buy_date :: "date option"

text \<open>\<open>int(number or 0)\<close>.\<close>

definition whole :: "cell \<Rightarrow> int" where
  "whole c = (case number_of c of None \<Rightarrow> 0 | Some x \<Rightarrow> round_int RoundDown x)"

definition strategy_intent :: "plan_candidate \<Rightarrow> intent" where
  "strategy_intent c =
     (let target = (case pc_fractions c of None \<Rightarrow> None | Some (t, i) \<Rightarrow> number_of t);
          first = (case pc_fractions c of None \<Rightarrow> None | Some (t, i) \<Rightarrow> number_of i);
          fraction = (case first of None \<Rightarrow> target | Some x \<Rightarrow> if 0 < x then Some x else target)
      in \<lparr>it_symbol = str_or (pc_symbol c) [],
          it_strategy_key = str_or (pc_strategy_key c) (str_or (pc_source c) ''unknown''),
          it_mode = pc_mode c,
          it_decision = str_or (pc_decision c) [],
          it_entry_fraction = (case fraction of None \<Rightarrow> FALLBACK_WEIGHT | Some x \<Rightarrow> x),
          it_sizing_source = (if fraction = None then ''fallback_weight'' else ''strategy''),
          it_target_fraction = target,
          it_stop_loss = Option.bind (pc_stop_min c) number_of,
          it_exit_action = (case pc_exit c of None \<Rightarrow> [] | Some (action, codes) \<Rightarrow> str_or action []),
          it_exit_codes = (case pc_exit c of None \<Rightarrow> [] | Some (action, codes) \<Rightarrow> codes),
          it_risk_flags = pc_risk_flags c,
          it_confirmed = (pc_confirmed c \<noteq> Some False),
          it_direction = str_or (pc_direction c) ''inflow'',
          it_delivery_key = pc_delivery_key c\<rparr>)"

section \<open>Sizes and exits\<close>

text \<open>\<open>x // y\<close> of two floats, as CPython computes it from the exact remainder; \<open>y\<close> is positive.\<close>

definition float_floordiv :: "rat \<Rightarrow> rat \<Rightarrow> int" where
  "float_floordiv x y =
     (let m = x - of_int (round_int RoundDown (x / y)) * y;
          d = flt (fsub x m / y);
          d1 = (if m < 0 then fsub d 1 else d);
          q = rfloor d1
      in if 1 / 2 < fsub d1 (of_int q) then q + 1 else q)"

definition position_size :: "rat \<Rightarrow> rat \<Rightarrow> rat \<Rightarrow> int" where
  "position_size equity price weight =
     (let unit_price = fmul price (of_int LOT) in
      if unit_price \<le> 0 \<or> weight \<le> 0 then 0
      else float_floordiv (fmul equity weight) unit_price * LOT)"

definition exit_fraction :: "string \<Rightarrow> rat" where
  "exit_fraction action = (case map_of EXIT_FRACTIONS action of None \<Rightarrow> 0 | Some f \<Rightarrow> f)"

definition exit_quantity :: "holding \<Rightarrow> string \<Rightarrow> int" where
  "exit_quantity position action =
     (let sellable = whole (hd_sellable position); fraction = exit_fraction action in
      if sellable \<le> 0 \<or> fraction \<le> 0 then 0
      else if LOT \<le> sellable
        then max LOT (round_int RoundDown (fmul (flt (of_int sellable)) fraction) div LOT * LOT)
      else 0)"

definition stop_loss_hit :: "holding \<Rightarrow> rat \<Rightarrow> rat option \<Rightarrow> bool" where
  "stop_loss_hit position price stop_loss_pct =
     (case (number_of (hd_cost position), stop_loss_pct) of
        (Some cost, Some pct) \<Rightarrow>
          0 < cost \<and> fmul (flt (fsub price cost / cost)) 100 \<le> - \<bar>pct\<bar>
      | _ \<Rightarrow> False)"

definition holding_days_exceeded :: "holding \<Rightarrow> date option \<Rightarrow> int \<Rightarrow> bool" where
  "holding_days_exceeded position session_date max_days =
     (case (session_date, hd_buy_date position) of
        (Some today, Some bought) \<Rightarrow> 0 < max_days \<and> max_days \<le> today - bought
      | _ \<Rightarrow> False)"

definition non_fill_reason_counts :: "string list \<Rightarrow> (string \<times> nat) list" where
  "non_fill_reason_counts reasons =
     map (\<lambda>r. (r, length (filter ((=) r) reasons))) (sort (remdups reasons))"

section \<open>The plan of a pass\<close>

record sell_order =
  so_symbol :: string
  so_quantity :: int
  so_price :: rat
  so_reason :: string
  so_strategy_key :: "string option"
  so_exit_codes :: "string list"
  so_cost :: "rat option"

record buy_order =
  bo_symbol :: string
  bo_quantity :: int
  bo_price :: rat
  bo_notional :: rat
  bo_intent :: intent

record plan =
  pl_sells :: "sell_order list"
  pl_buys :: "buy_order list"
  pl_skipped :: "(string \<times> string) list"
  pl_non_fill :: "(string \<times> nat) list"
  pl_open_positions :: int
  pl_open_slots :: int
  pl_cash_after :: rat

record plan_limits =
  lm_max_open :: int
  lm_max_new :: int
  lm_session_date :: "date option"
  lm_stop_pct :: rat
  lm_max_days :: int

text \<open>\<open>by_symbol.get(symbol)\<close>: the last intent of the symbol.\<close>

definition intent_for :: "intent list \<Rightarrow> string \<Rightarrow> intent option" where
  "intent_for intents symbol =
     (if symbol = [] then None else py_next (\<lambda>i. it_symbol i = symbol) (rev intents))"

definition strategy_stop :: "intent option \<Rightarrow> holding \<Rightarrow> rat option" where
  "strategy_stop own position =
     (case Option.bind own it_stop_loss of None \<Rightarrow> number_of (hd_entry_stop position) | Some pct \<Rightarrow> Some pct)"

definition sell_reason :: "plan_limits \<Rightarrow> intent option \<Rightarrow> holding \<Rightarrow> rat \<Rightarrow> (string \<times> string) option" where
  "sell_reason limits own position price =
     (let action = (case own of None \<Rightarrow> [] | Some i \<Rightarrow> it_exit_action i);
          stop = strategy_stop own position
      in if map_of EXIT_FRACTIONS action \<noteq> None then Some (''strategy_exit:'' @ action, action)
         else if stop_loss_hit position price stop then Some (''strategy_stop_loss'', ''exit'')
         else if stop = None \<and> stop_loss_hit position price (Some (lm_stop_pct limits))
           then Some (''fallback_stop_loss'', ''exit'')
         else if holding_days_exceeded position (lm_session_date limits) (lm_max_days limits)
           then Some (''fallback_max_holding_period'', ''exit'')
         else None)"

definition plan_sell :: "plan_limits \<Rightarrow> intent list \<Rightarrow> (string \<Rightarrow> cell) \<Rightarrow> string \<times> holding \<Rightarrow> sell_order option" where
  "plan_sell limits intents quotes item =
     (case item of (symbol, position) \<Rightarrow>
      Option.bind (number_of (quotes symbol)) (\<lambda>price.
      let own = intent_for intents symbol in
      Option.bind (sell_reason limits own position price) (\<lambda>(reason, action).
      let quantity = exit_quantity position action in
      if quantity \<le> 0 then None
      else Some \<lparr>so_symbol = symbol, so_quantity = quantity, so_price = price, so_reason = reason,
        so_strategy_key = map_option it_strategy_key own,
        so_exit_codes = (case own of None \<Rightarrow> [] | Some i \<Rightarrow> it_exit_codes i),
        so_cost = number_of (hd_cost position)\<rparr>)))"

definition closes :: "sell_order \<Rightarrow> holding \<Rightarrow> bool" where
  "closes sell position = (whole (hd_quantity position) \<le> so_quantity sell)"

definition sell_step :: "plan_limits \<Rightarrow> intent list \<Rightarrow> (string \<Rightarrow> cell) \<Rightarrow> string \<times> holding
    \<Rightarrow> sell_order list \<times> string list \<Rightarrow> sell_order list \<times> string list" where
  "sell_step limits intents quotes item st =
     (case plan_sell limits intents quotes item of
        None \<Rightarrow> st
      | Some sell \<Rightarrow> (fst st @ [sell],
          if closes sell (snd item) then filter (\<lambda>s. s \<noteq> fst item) (snd st) else snd st))"

definition plan_sells :: "plan_limits \<Rightarrow> intent list \<Rightarrow> (string \<Rightarrow> cell) \<Rightarrow> (string \<times> holding) list
    \<Rightarrow> sell_order list \<times> string list" where
  "plan_sells limits intents quotes positions =
     fold (sell_step limits intents quotes) (sort_key fst positions) ([], map fst positions)"

record buy_state =
  bs_buys :: "buy_order list"
  bs_cash :: rat
  bs_skipped :: "(string \<times> string) list"

definition entry_block :: "string list \<Rightarrow> int \<Rightarrow> intent \<Rightarrow> nat \<Rightarrow> string option" where
  "entry_block held budget i bought =
     (if map_of EXIT_FRACTIONS (it_exit_action i) \<noteq> None
        then Some (''strategy_is_exiting:'' @ it_exit_action i)
      else if it_decision i \<noteq> [] \<and> it_decision i \<noteq> ''research_candidate''
        then Some (''strategy_decision:'' @ it_decision i)
      else if it_direction i \<noteq> ''inflow'' then Some ''not_an_inflow_candidate''
      else if \<not> it_confirmed i then Some ''large_order_unconfirmed''
      else if it_symbol i \<in> set held then Some ''already_held''
      else if budget \<le> int bought then Some ''position_budget_exhausted''
      else None)"

definition skip_buy :: "string \<Rightarrow> string \<Rightarrow> buy_state \<Rightarrow> buy_state" where
  "skip_buy symbol reason st = st\<lparr>bs_skipped := bs_skipped st @ [(symbol, reason)]\<rparr>"

definition buy_step :: "string list \<Rightarrow> int \<Rightarrow> rat \<Rightarrow> (string \<Rightarrow> cell) \<Rightarrow> intent \<Rightarrow> buy_state \<Rightarrow> buy_state" where
  "buy_step held budget equity quotes i st =
     (if it_symbol i = [] then st
      else case entry_block held budget i (length (bs_buys st)) of
        Some reason \<Rightarrow> skip_buy (it_symbol i) reason st
      | None \<Rightarrow>
      (case number_of (quotes (it_symbol i)) of
        None \<Rightarrow> skip_buy (it_symbol i) ''no_usable_price'' st
      | Some price \<Rightarrow>
        if price \<le> 0 then skip_buy (it_symbol i) ''no_usable_price'' st
        else let quantity = position_size equity price (it_entry_fraction i);
                 notional = fmul price (flt (of_int quantity))
          in if quantity \<le> 0 then skip_buy (it_symbol i) ''one_lot_exceeds_the_entry_fraction'' st
             else if bs_cash st < notional then skip_buy (it_symbol i) ''insufficient_paper_cash'' st
             else st\<lparr>bs_cash := fsub (bs_cash st) notional,
                     bs_buys := bs_buys st @ [\<lparr>bo_symbol = it_symbol i, bo_quantity = quantity,
                       bo_price = price, bo_notional = round_digits 2 notional, bo_intent = i\<rparr>]\<rparr>))"

definition plan_buys :: "string list \<Rightarrow> int \<Rightarrow> rat \<Rightarrow> rat \<Rightarrow> (string \<Rightarrow> cell) \<Rightarrow> intent list \<Rightarrow> buy_state" where
  "plan_buys held budget equity cash quotes intents =
     fold (buy_step held budget equity quotes) intents \<lparr>bs_buys = [], bs_cash = cash, bs_skipped = []\<rparr>"

definition plan_paper_orders :: "plan_limits \<Rightarrow> plan_candidate list \<Rightarrow> (string \<times> holding) list
    \<Rightarrow> (string \<Rightarrow> cell) \<Rightarrow> rat \<Rightarrow> rat \<Rightarrow> plan" where
  "plan_paper_orders limits candidates positions quotes equity cash =
     (let intents = map strategy_intent candidates in
      case plan_sells limits intents quotes positions of (sells, held) \<Rightarrow>
      let open_slots = max 0 (lm_max_open limits - int (length held));
          st = plan_buys held (min (lm_max_new limits) open_slots) equity cash quotes intents
      in \<lparr>pl_sells = sells, pl_buys = bs_buys st, pl_skipped = bs_skipped st,
          pl_non_fill = non_fill_reason_counts (map snd (bs_skipped st)),
          pl_open_positions = int (length held), pl_open_slots = open_slots,
          pl_cash_after = round_digits 2 (bs_cash st)\<rparr>)"

definition house_limits :: "date option \<Rightarrow> plan_limits" where
  "house_limits today = \<lparr>lm_max_open = MAX_OPEN_POSITIONS, lm_max_new = MAX_NEW_PER_PASS,
     lm_session_date = today, lm_stop_pct = FALLBACK_STOP_LOSS_PCT, lm_max_days = FALLBACK_MAX_HOLDING_DAYS\<rparr>"

section \<open>Sells\<close>

lemma round_down_nonneg: "0 \<le> x \<Longrightarrow> 0 \<le> round_int RoundDown x" "0 \<le> x \<Longrightarrow> of_int (round_int RoundDown x) \<le> x"
  by (simp_all add: round_int_def rfloor_floor)

lemma round_down_neg: "x < 0 \<Longrightarrow> round_int RoundDown x \<le> 0"
  by (simp add: round_int_def rfloor_floor)

lemma exit_fraction_bounds: "0 \<le> exit_fraction action" "exit_fraction action \<le> 1"
  by (simp_all add: exit_fraction_def EXIT_FRACTIONS_def)

lemma exit_fraction_pos: "map_of EXIT_FRACTIONS action \<noteq> None \<Longrightarrow> 0 < exit_fraction action"
  by (auto simp: exit_fraction_def EXIT_FRACTIONS_def split: if_splits)

lemma lots_dvd: "LOT dvd exit_quantity pos action"
  by (simp add: exit_quantity_def Let_def LOT_def max_def)

text \<open>A positive exit is at least a lot and never more than what can be sold.\<close>

lemma exit_quantity_bound:
  assumes "0 < exit_quantity pos action"
  obtains x where "number_of (hd_sellable pos) = Some x" "of_int (exit_quantity pos action) \<le> x"
    "LOT \<le> whole (hd_sellable pos)"
proof -
  let ?n = "whole (hd_sellable pos)" and ?f = "exit_fraction action"
  have n: "LOT \<le> ?n" "0 < ?n"
    using assms by (auto simp: exit_quantity_def Let_def LOT_def split: if_splits)
  then obtain x where x: "number_of (hd_sellable pos) = Some x" by (cases "number_of (hd_sellable pos)") (auto simp: whole_def)
  have xpos: "0 \<le> x" using n x round_down_neg [of x] by (auto simp: whole_def not_le [symmetric])
  have le: "of_int ?n \<le> x" using x round_down_nonneg(2) [OF xpos] by (simp add: whole_def)
  have float: "flt (of_int ?n) \<le> x" by (rule flt.rnd_le [OF le number_of_float [OF x]])
  have part: "0 \<le> fmul (flt (of_int ?n)) ?f" "fmul (flt (of_int ?n)) ?f \<le> x"
  proof -
    have pos: "0 \<le> flt (of_int ?n)" using n by (intro flt.rnd_nonneg) simp
    then show "0 \<le> fmul (flt (of_int ?n)) ?f"
      unfolding fmul_def by (rule flt.rnd_nonneg [OF mult_nonneg_nonneg [OF _ exit_fraction_bounds(1)]])
    have "flt (of_int ?n) * ?f \<le> x"
      using mult_left_mono [OF exit_fraction_bounds(2) [of action] pos] float by simp
    then show "fmul (flt (of_int ?n)) ?f \<le> x" unfolding fmul_def by (rule flt.rnd_le [OF _ number_of_float [OF x]])
  qed
  let ?w = "round_int RoundDown (fmul (flt (of_int ?n)) ?f)"
  have w: "of_int ?w \<le> x" using round_down_nonneg(2) [OF part(1)] part(2) by simp
  have "?w div LOT * LOT \<le> ?w"
    using round_down_nonneg(1) [OF part(1)] by (simp add: LOT_def minus_mod_eq_div_mult [symmetric])
  then have "of_int (?w div LOT * LOT) \<le> x" using w by (meson of_int_le_iff order_trans)
  moreover have "of_int LOT \<le> x" using n(1) le by (meson of_int_le_iff order_trans)
  ultimately have "of_int (exit_quantity pos action) \<le> x"
    using assms n by (auto simp: exit_quantity_def Let_def max_def split: if_splits)
  then show thesis using that x n(1) by blast
qed

lemma exit_quantity_pos_iff:
  "map_of EXIT_FRACTIONS action \<noteq> None \<Longrightarrow> 0 < exit_quantity pos action \<longleftrightarrow> LOT \<le> whole (hd_sellable pos)"
  using exit_fraction_pos [of action] by (auto simp: exit_quantity_def Let_def LOT_def max_def)

lemma sell_reason_action:
  "sell_reason limits own pos price = Some (reason, action) \<Longrightarrow> map_of EXIT_FRACTIONS action \<noteq> None"
  by (auto simp: sell_reason_def Let_def EXIT_FRACTIONS_def split: if_splits)

definition sells_out :: "plan_limits \<Rightarrow> intent list \<Rightarrow> (string \<Rightarrow> cell) \<Rightarrow> string \<times> holding \<Rightarrow> bool" where
  "sells_out limits intents quotes item =
     (case plan_sell limits intents quotes item of None \<Rightarrow> False | Some sell \<Rightarrow> closes sell (snd item))"

lemma sell_fold:
  "fold (sell_step limits intents quotes) items (sells, held) =
     (sells @ List.map_filter (plan_sell limits intents quotes) items,
      filter (\<lambda>s. \<forall>item \<in> set items. fst item = s \<longrightarrow> \<not> sells_out limits intents quotes item) held)"
proof (induction items arbitrary: sells held)
  case (Cons item items)
  show ?case
  proof (cases "plan_sell limits intents quotes item")
    case None
    then have "sell_step limits intents quotes item (sells, held) = (sells, held)"
      and "\<not> sells_out limits intents quotes item" by (simp_all add: sell_step_def sells_out_def)
    with None show ?thesis by (simp add: Cons.IH map_filter_simps)
  next
    case (Some sell)
    then have "sell_step limits intents quotes item (sells, held) =
        (sells @ [sell], filter (\<lambda>s. fst item = s \<longrightarrow> \<not> sells_out limits intents quotes item) held)"
      by (auto simp: sell_step_def sells_out_def intro: filter_cong)
    with Some show ?thesis by (simp add: Cons.IH map_filter_simps conj_commute)
  qed
qed (simp add: map_filter_simps)

lemma plan_sells_eq:
  "plan_sells limits intents quotes positions =
     (List.map_filter (plan_sell limits intents quotes) (sort_key fst positions),
      filter (\<lambda>s. \<forall>item \<in> set positions. fst item = s \<longrightarrow> \<not> sells_out limits intents quotes item) (map fst positions))"
  by (simp add: plan_sells_def sell_fold)

lemma plan_sell_symbol: "plan_sell limits intents quotes item = Some sell \<Longrightarrow> so_symbol sell = fst item"
  by (auto simp: plan_sell_def Let_def bind_eq_Some_conv split: prod.splits if_splits)

lemma map_filter_symbols:
  "map so_symbol (List.map_filter (plan_sell limits intents quotes) items)
     = map fst (filter (\<lambda>item. plan_sell limits intents quotes item \<noteq> None) items)"
  by (induction items) (auto simp: map_filter_simps plan_sell_symbol split: option.splits)

lemma plan_sell_iff:
  "plan_sell limits intents quotes (symbol, pos) \<noteq> None \<longleftrightarrow>
     LOT \<le> whole (hd_sellable pos) \<and>
     (\<exists>price. number_of (quotes symbol) = Some price
        \<and> sell_reason limits (intent_for intents symbol) pos price \<noteq> None)"
proof (cases "number_of (quotes symbol)")
  case (Some price)
  show ?thesis
  proof (cases "sell_reason limits (intent_for intents symbol) pos price")
    case why: (Some why)
    obtain reason action where ra: "why = (reason, action)" by fastforce
    show ?thesis
      using exit_quantity_pos_iff [OF sell_reason_action [OF why [unfolded ra]], of pos]
      by (auto simp: plan_sell_def Some why ra Let_def)
  qed (simp add: plan_sell_def Some)
qed (simp add: plan_sell_def)

lemma plan_sells_field:
  "pl_sells (plan_paper_orders limits candidates positions quotes equity cash)
     = List.map_filter (plan_sell limits (map strategy_intent candidates) quotes) (sort_key fst positions)"
  by (simp add: plan_paper_orders_def plan_sells_eq Let_def)

text \<open>
  C31. What a pass sells: a holding is in the sells exactly when its quote has a price, a reason
  to leave holds at that price and at least a board lot is sellable; every sale is a positive
  number of whole lots and never more than is sellable, no name is sold twice, and the sales come
  in the order of the symbols.
\<close>

theorem plan_sells_sound:
  fixes limits candidates positions quotes equity cash
  defines "sells \<equiv> pl_sells (plan_paper_orders limits candidates positions quotes equity cash)"
  assumes "distinct (map fst positions)"
  shows "(\<forall>symbol pos. (symbol, pos) \<in> set positions \<longrightarrow>
      (symbol \<in> so_symbol ` set sells \<longleftrightarrow>
        LOT \<le> whole (hd_sellable pos) \<and>
        (\<exists>price. number_of (quotes symbol) = Some price
          \<and> sell_reason limits (intent_for (map strategy_intent candidates) symbol) pos price \<noteq> None)))
    \<and> (\<forall>sell \<in> set sells. \<exists>pos sellable. (so_symbol sell, pos) \<in> set positions
        \<and> number_of (hd_sellable pos) = Some sellable
        \<and> 0 < so_quantity sell \<and> 100 dvd so_quantity sell \<and> of_int (so_quantity sell) \<le> sellable)
    \<and> distinct (map so_symbol sells) \<and> sorted (map so_symbol sells)"
proof (intro conjI allI impI ballI)
  let ?sell = "plan_sell limits (map strategy_intent candidates) quotes"
  have sells: "sells = List.map_filter ?sell (sort_key fst positions)" by (simp add: sells_def plan_sells_field)
  have symbols: "map so_symbol sells = map fst (filter (\<lambda>item. ?sell item \<noteq> None) (sort_key fst positions))"
    by (simp add: sells map_filter_symbols)
  have dist: "distinct (map fst (sort_key fst positions))"
    using assms(2) by (metis distinct_map distinct_sort mset_sort set_sort)
  show "distinct (map so_symbol sells)" unfolding symbols using dist by (rule distinct_map_filter)
  show "sorted (map so_symbol sells)" unfolding symbols by (simp add: sorted_filter)
  fix symbol pos assume item: "(symbol, pos) \<in> set positions"
  have "symbol \<in> so_symbol ` set sells \<longleftrightarrow> symbol \<in> set (map so_symbol sells)" by simp
  also have "\<dots> \<longleftrightarrow> ?sell (symbol, pos) \<noteq> None"
    using item by (auto simp: symbols dest: eq_key_imp_eq_value [OF assms(2)] intro!: image_eqI [of _ _ "(symbol, pos)"])
  finally show "symbol \<in> so_symbol ` set sells \<longleftrightarrow> LOT \<le> whole (hd_sellable pos) \<and>
      (\<exists>price. number_of (quotes symbol) = Some price
        \<and> sell_reason limits (intent_for (map strategy_intent candidates) symbol) pos price \<noteq> None)"
    by (simp only: plan_sell_iff)
next
  fix sell assume "sell \<in> set sells"
  then obtain symbol pos where item: "(symbol, pos) \<in> set positions"
      and sell: "plan_sell limits (map strategy_intent candidates) quotes (symbol, pos) = Some sell"
    by (auto simp: sells_def plan_sells_field map_filter_def)
  from sell obtain action where q: "so_quantity sell = exit_quantity pos action" "0 < so_quantity sell"
    by (auto simp: plan_sell_def Let_def bind_eq_Some_conv split: if_splits)
  from exit_quantity_bound [of pos action] q obtain x where
    x: "number_of (hd_sellable pos) = Some x" "of_int (so_quantity sell) \<le> x" by auto
  show "\<exists>pos sellable. (so_symbol sell, pos) \<in> set positions \<and> number_of (hd_sellable pos) = Some sellable
      \<and> 0 < so_quantity sell \<and> 100 dvd so_quantity sell \<and> of_int (so_quantity sell) \<le> sellable"
    using item x q lots_dvd [of pos action] plan_sell_symbol [OF sell] by (auto simp: LOT_def)
qed

text \<open>A holding of 150 shares, 100 of them sellable, at ten per cent below its cost: the house stop
  sells the lot and the odd half lot stays.\<close>

definition example_holding :: "int \<Rightarrow> int \<Rightarrow> rat \<Rightarrow> holding" where
  "example_holding quantity sellable cost =
     \<lparr>hd_quantity = CInt quantity, hd_sellable = CInt sellable, hd_cost = CFloat cost,
      hd_entry_stop = CNull, hd_buy_date = None\<rparr>"

lemma example_plan:
  "plan_paper_orders (house_limits None) [] [(''600000.SH'', example_holding 150 100 10)] (\<lambda>s. CFloat 9) 1000000 0
    = \<lparr>pl_sells = [\<lparr>so_symbol = ''600000.SH'', so_quantity = 100, so_price = 9, so_reason = ''fallback_stop_loss'',
         so_strategy_key = None, so_exit_codes = [], so_cost = Some 10\<rparr>], pl_buys = [], pl_skipped = [],
       pl_non_fill = [], pl_open_positions = 1, pl_open_slots = 7, pl_cash_after = 0\<rparr>"
  by code_simp

lemma plan_sells_sound_witness:
  "so_quantity (hd (pl_sells (plan_paper_orders (house_limits None) [] [(''600000.SH'', example_holding 150 100 10)]
      (\<lambda>s. CFloat 9) 1000000 0))) = 100
    \<and> LOT \<le> whole (hd_sellable (example_holding 150 100 10))"
  using plan_sells_sound [of "[(''600000.SH'', example_holding 150 100 10)]" "house_limits None" "[]"
      "\<lambda>s. CFloat 9" 1000000 0]
  by (simp add: example_plan)

section \<open>Buys\<close>

text \<open>Orders that are paid one after the other, each from the cash the ones before left.\<close>

fun affordable :: "rat \<Rightarrow> buy_order list \<Rightarrow> bool" where
  "affordable cash [] = (0 \<le> cash)"
| "affordable cash (b # bs) =
     (let notional = fmul (bo_price b) (flt (of_int (bo_quantity b))) in
      0 < notional \<and> notional \<le> cash \<and> affordable (fsub cash notional) bs)"

fun cash_left :: "rat \<Rightarrow> buy_order list \<Rightarrow> rat" where
  "cash_left cash [] = cash"
| "cash_left cash (b # bs) = cash_left (fsub cash (fmul (bo_price b) (flt (of_int (bo_quantity b))))) bs"

lemma affordable_snoc:
  "affordable cash (bs @ [b]) \<longleftrightarrow>
     affordable cash bs \<and> 0 < fmul (bo_price b) (flt (of_int (bo_quantity b)))
       \<and> fmul (bo_price b) (flt (of_int (bo_quantity b))) \<le> cash_left cash bs"
proof (induction bs arbitrary: cash)
  case Nil
  show ?case by (auto simp: Let_def fsub_def flt.rnd_nonneg_iff)
qed (auto simp: Let_def)

lemma cash_left_snoc:
  "cash_left cash (bs @ [b]) = fsub (cash_left cash bs) (fmul (bo_price b) (flt (of_int (bo_quantity b))))"
  by (induction bs arbitrary: cash) auto

lemma affordable_left: "affordable cash bs \<Longrightarrow> 0 \<le> cash_left cash bs"
  by (induction bs arbitrary: cash) (auto simp: Let_def)

text \<open>What an order owes to its intent.\<close>

definition entry_order :: "string list \<Rightarrow> (string \<Rightarrow> cell) \<Rightarrow> rat \<Rightarrow> intent \<Rightarrow> buy_order \<Rightarrow> bool" where
  "entry_order held quotes equity i b =
     (bo_intent b = i \<and> bo_symbol b = it_symbol i \<and> it_symbol i \<noteq> [] \<and> it_symbol i \<notin> set held
      \<and> map_of EXIT_FRACTIONS (it_exit_action i) = None
      \<and> it_decision i \<in> set [[], ''research_candidate''] \<and> it_direction i = ''inflow'' \<and> it_confirmed i
      \<and> number_of (quotes (it_symbol i)) = Some (bo_price b) \<and> 0 < bo_price b
      \<and> bo_quantity b = position_size equity (bo_price b) (it_entry_fraction i) \<and> 0 < bo_quantity b)"

definition buys_ok :: "string list \<Rightarrow> int \<Rightarrow> rat \<Rightarrow> rat \<Rightarrow> (string \<Rightarrow> cell) \<Rightarrow> intent set \<Rightarrow> buy_state \<Rightarrow> bool" where
  "buys_ok held budget equity cash quotes intents st =
     (int (length (bs_buys st)) \<le> max 0 budget
      \<and> affordable cash (bs_buys st) \<and> bs_cash st = cash_left cash (bs_buys st)
      \<and> (\<forall>b \<in> set (bs_buys st). \<exists>i \<in> intents. entry_order held quotes equity i b))"

lemma buys_ok_skip [simp]:
  "buys_ok held budget equity cash quotes intents (skip_buy symbol reason st)
    = buys_ok held budget equity cash quotes intents st"
  by (simp add: buys_ok_def skip_buy_def)

lemma entry_block_None:
  "entry_block held budget i n = None \<longleftrightarrow>
     map_of EXIT_FRACTIONS (it_exit_action i) = None \<and> it_decision i \<in> set [[], ''research_candidate'']
     \<and> it_direction i = ''inflow'' \<and> it_confirmed i \<and> it_symbol i \<notin> set held \<and> int n < budget"
  by (auto simp: entry_block_def)

lemma buy_step_ok:
  assumes "buys_ok held budget equity cash quotes intents st" "i \<in> intents"
  shows "buys_ok held budget equity cash quotes intents (buy_step held budget equity quotes i st)"
proof -
  let ?price = "number_of (quotes (it_symbol i))" and ?q = "\<lambda>price. position_size equity price (it_entry_fraction i)"
  let ?notional = "\<lambda>price. fmul price (flt (of_int (?q price)))"
  show ?thesis
  proof (cases "it_symbol i \<noteq> [] \<and> entry_block held budget i (length (bs_buys st)) = None
      \<and> (\<exists>price. ?price = Some price \<and> 0 < price \<and> 0 < ?q price \<and> ?notional price \<le> bs_cash st)")
    case True
    then obtain price where t: "it_symbol i \<noteq> []" "entry_block held budget i (length (bs_buys st)) = None"
      "?price = Some price" "0 < price" "0 < ?q price" "?notional price \<le> bs_cash st" by blast
    define b where "b = \<lparr>bo_symbol = it_symbol i, bo_quantity = ?q price, bo_price = price,
      bo_notional = round_digits 2 (?notional price), bo_intent = i\<rparr>"
    have step: "buy_step held budget equity quotes i st
        = st\<lparr>bs_cash := fsub (bs_cash st) (?notional price), bs_buys := bs_buys st @ [b]\<rparr>"
      using t by (simp add: buy_step_def b_def Let_def)
    have "0 < ?notional price" using t(4,5) by (simp add: fmul_def flt_pos_iff)
    moreover have "entry_order held quotes equity i b"
      using t by (simp add: entry_order_def b_def entry_block_None)
    moreover have "int (length (bs_buys st)) < budget" using t(2) by (simp add: entry_block_None)
    ultimately show ?thesis
      using assms t(6) unfolding step buys_ok_def
      by (auto simp: affordable_snoc cash_left_snoc b_def)
  next
    case False
    then have "buy_step held budget equity quotes i st = st
        \<or> (\<exists>reason. buy_step held budget equity quotes i st = skip_buy (it_symbol i) reason st)"
      by (fastforce simp: buy_step_def Let_def split: option.splits if_splits)
    then show ?thesis using assms(1) by auto
  qed
qed

lemma plan_buys_ok:
  assumes "0 \<le> cash"
  shows "buys_ok held budget equity cash quotes (set intents) (plan_buys held budget equity cash quotes intents)"
proof -
  have "buys_ok held budget equity cash quotes (set intents) (fold (buy_step held budget equity quotes) is st)"
    if "set is \<subseteq> set intents" "buys_ok held budget equity cash quotes (set intents) st" for "is" st
    using that by (induction "is" arbitrary: st) (auto simp: buy_step_ok)
  moreover have "buys_ok held budget equity cash quotes (set intents) \<lparr>bs_buys = [], bs_cash = cash, bs_skipped = []\<rparr>"
    using assms by (simp add: buys_ok_def)
  ultimately show ?thesis unfolding plan_buys_def by blast
qed

text \<open>
  C7. What a pass buys: never more orders than the pass and the free slots allow, so the book ends
  within its bound of positions; every order is a positive number of shares at the quoted price of
  an intent that asks to enter, for a name the account does not hold once the sales are made; and
  the orders are paid one after the other from the cash, which never becomes negative.
\<close>

theorem plan_buys_bounded:
  fixes limits candidates positions quotes equity cash
  assumes "0 \<le> cash"
  defines "pass \<equiv> plan_paper_orders limits candidates positions quotes equity cash"
    and "held \<equiv> snd (plan_sells limits (map strategy_intent candidates) quotes positions)"
  shows "int (length (pl_buys pass)) \<le> max 0 (min (lm_max_new limits) (pl_open_slots pass))
    \<and> pl_open_positions pass + int (length (pl_buys pass)) \<le> max (lm_max_open limits) (pl_open_positions pass)
    \<and> affordable cash (pl_buys pass) \<and> 0 \<le> pl_cash_after pass
    \<and> pl_cash_after pass = round_digits 2 (cash_left cash (pl_buys pass))
    \<and> (\<forall>b \<in> set (pl_buys pass). \<exists>c \<in> set candidates. entry_order held quotes equity (strategy_intent c) b)"
proof -
  define slots where "slots = max 0 (lm_max_open limits - int (length held))"
  define st where "st = plan_buys held (min (lm_max_new limits) slots) equity cash quotes (map strategy_intent candidates)"
  obtain sells where s: "plan_sells limits (map strategy_intent candidates) quotes positions = (sells, held)"
    by (cases "plan_sells limits (map strategy_intent candidates) quotes positions") (simp add: held_def)
  have pass: "pl_buys pass = bs_buys st" "pl_open_slots pass = slots" "pl_open_positions pass = int (length held)"
    "pl_cash_after pass = round_digits 2 (bs_cash st)"
    by (simp_all add: pass_def plan_paper_orders_def s Let_def slots_def st_def)
  have ok: "buys_ok held (min (lm_max_new limits) slots) equity cash quotes (strategy_intent ` set candidates) st"
    unfolding st_def using plan_buys_ok [OF assms(1)] by (metis set_map)
  have left: "0 \<le> cash_left cash (bs_buys st)" using ok by (simp add: buys_ok_def affordable_left)
  have "0 \<le> round_digits 2 (cash_left cash (bs_buys st))"
    unfolding round_digits_def using half_even_mono [of "of_int 0" "cash_left cash (bs_buys st) * 10 ^ 2"] left
    by (intro flt.rnd_nonneg) (simp del: of_int_0)
  moreover have "int (length held) + int (length (bs_buys st)) \<le> max (lm_max_open limits) (int (length held))"
    using ok by (auto simp: buys_ok_def slots_def)
  ultimately show ?thesis using ok unfolding pass buys_ok_def by auto
qed

text \<open>A strategy's candidate with its own sizing and an eight per cent stop.\<close>

definition example_candidate :: "string \<Rightarrow> plan_candidate" where
  "example_candidate symbol =
     \<lparr>pc_symbol = Some symbol, pc_strategy_key = Some ''xiaojie_leader_flow'', pc_source = None, pc_mode = None,
      pc_decision = Some ''research_candidate'', pc_fractions = Some (CFloat (15 / 100), CFloat (9 / 100)),
      pc_stop_min = Some (CInt 8), pc_exit = Some (Some ''hold_or_wait'', []), pc_risk_flags = [],
      pc_confirmed = None, pc_direction = None, pc_delivery_key = None\<rparr>"

lemma plan_buys_bounded_witness:
  "affordable 90000 (pl_buys (plan_paper_orders (house_limits None)
      [example_candidate ''301583.SZ'', example_candidate ''002156.SZ''] [] (\<lambda>s. CInt 142) 1000000 90000))
    \<and> length (pl_buys (plan_paper_orders (house_limits None)
      [example_candidate ''301583.SZ'', example_candidate ''002156.SZ''] [] (\<lambda>s. CInt 142) 1000000 90000)) \<le> 2"
proof -
  have "(0 :: rat) \<le> 90000" by simp
  from plan_buys_bounded [OF this, of "house_limits None"
      "[example_candidate ''301583.SZ'', example_candidate ''002156.SZ'']" "[]" "\<lambda>s. CInt 142" 1000000]
  show ?thesis by (auto simp: house_limits_def MAX_NEW_PER_PASS_def)
qed

section \<open>What the bounds do not exclude\<close>

text \<open>
  A stop does not keep its name out: when the only candidate of a pass asks to enter the name
  whose holding the pass sells at the strategy's stop, in full, the same pass buys the name again.
\<close>

theorem plan_rebuys_stopped_out:
  fixes limits c symbol pos quotes equity cash
  defines "i \<equiv> strategy_intent c"
  assumes "it_symbol i = symbol" "symbol \<noteq> []"
    and "entry_block [] (min (lm_max_new limits) (lm_max_open limits)) i 0 = None"
    and "number_of (quotes symbol) = Some price" "0 < price"
    and "stop_loss_hit pos price (strategy_stop (Some i) pos)"
    and "LOT \<le> whole (hd_sellable pos)" "whole (hd_quantity pos) \<le> exit_quantity pos ''exit''"
    and "0 < position_size equity price (it_entry_fraction i)"
    and "fmul price (flt (of_int (position_size equity price (it_entry_fraction i)))) \<le> cash"
  shows "map (\<lambda>sell. (so_symbol sell, so_reason sell))
      (pl_sells (plan_paper_orders limits [c] [(symbol, pos)] quotes equity cash)) = [(symbol, ''strategy_stop_loss'')]
    \<and> map bo_symbol (pl_buys (plan_paper_orders limits [c] [(symbol, pos)] quotes equity cash)) = [symbol]"
proof -
  have entry: "map_of EXIT_FRACTIONS (it_exit_action i) = None" "0 < lm_max_new limits" "0 < lm_max_open limits"
    using assms(4) by (auto simp: entry_block_None)
  have own: "intent_for [i] symbol = Some i" using assms(2,3) by (simp add: intent_for_def py_next_def)
  have reason: "sell_reason limits (Some i) pos price = Some (''strategy_stop_loss'', ''exit'')"
    using assms(7) entry(1) by (simp add: sell_reason_def)
  have "map_of EXIT_FRACTIONS ''exit'' \<noteq> None" by (simp add: EXIT_FRACTIONS_def)
  then have q: "0 < exit_quantity pos ''exit''" using assms(8) exit_quantity_pos_iff by blast
  obtain sell where sell: "plan_sell limits [i] quotes (symbol, pos) = Some sell"
      "so_symbol sell = symbol" "so_reason sell = ''strategy_stop_loss''" "so_quantity sell = exit_quantity pos ''exit''"
    using q by (simp add: plan_sell_def assms(5) own reason Let_def)
  have sells: "plan_sells limits [i] quotes [(symbol, pos)] = ([sell], [])"
    using sell assms(9) by (simp add: plan_sells_eq map_filter_simps sells_out_def closes_def)
  have "entry_block [] (min (lm_max_new limits) (max 0 (lm_max_open limits))) i 0 = None"
    using assms(4) entry by (simp add: entry_block_None)
  then have "map bo_symbol (bs_buys (plan_buys [] (min (lm_max_new limits) (max 0 (lm_max_open limits)))
      equity cash quotes [i])) = [symbol]"
    using assms by (simp add: plan_buys_def buy_step_def Let_def not_le not_less)
  then show ?thesis using sell sells by (simp add: plan_paper_orders_def i_def [symmetric] Let_def)
qed

lemma plan_rebuys_stopped_out_witness:
  "map so_symbol (pl_sells (plan_paper_orders (house_limits None) [example_candidate ''301583.SZ'']
      [(''301583.SZ'', example_holding 600 600 160)] (\<lambda>s. CInt 142) 1000000 1000000)) = [''301583.SZ'']
    \<and> map bo_symbol (pl_buys (plan_paper_orders (house_limits None) [example_candidate ''301583.SZ'']
      [(''301583.SZ'', example_holding 600 600 160)] (\<lambda>s. CInt 142) 1000000 1000000)) = [''301583.SZ'']"
proof -
  let ?c = "example_candidate ''301583.SZ''" and ?pos = "example_holding 600 600 160"
  let ?i = "strategy_intent ?c"
  have symbol: "it_symbol ?i = ''301583.SZ''" by code_simp
  have block: "entry_block [] (min (lm_max_new (house_limits None)) (lm_max_open (house_limits None))) ?i 0 = None"
    by code_simp
  have price: "number_of (CInt 142) = Some 142" by code_simp
  have stop: "stop_loss_hit ?pos 142 (strategy_stop (Some ?i) ?pos)" by code_simp
  have lots: "LOT \<le> whole (hd_sellable ?pos)" "whole (hd_quantity ?pos) \<le> exit_quantity ?pos ''exit''" by code_simp+
  have size_pos: "0 < position_size 1000000 142 (it_entry_fraction ?i)" by code_simp
  have paid: "fmul 142 (flt (of_int (position_size 1000000 142 (it_entry_fraction ?i)))) \<le> 1000000" by code_simp
  from plan_rebuys_stopped_out [where quotes = "\<lambda>s. CInt 142", OF symbol _ block price _ stop lots size_pos paid]
  show ?thesis by (auto simp: map_eq_Cons_conv)
qed

text \<open>
  One entry per name is not kept within a pass: two candidates of the same name that both ask
  to enter are both bought when the pass has room and cash for two.
\<close>

theorem plan_buys_same_name_twice:
  fixes limits c symbol quotes equity cash
  defines "i \<equiv> strategy_intent c"
  assumes "it_symbol i = symbol" "symbol \<noteq> []"
    and "entry_block [] (min (lm_max_new limits) (lm_max_open limits)) i 1 = None"
    and "number_of (quotes symbol) = Some price" "0 < price"
    and "0 < position_size equity price (it_entry_fraction i)"
    and "fmul price (flt (of_int (position_size equity price (it_entry_fraction i)))) \<le> cash"
    and "fmul price (flt (of_int (position_size equity price (it_entry_fraction i))))
      \<le> fsub cash (fmul price (flt (of_int (position_size equity price (it_entry_fraction i)))))"
  shows "map bo_symbol (pl_buys (plan_paper_orders limits [c, c] [] quotes equity cash)) = [symbol, symbol]"
proof -
  let ?budget = "min (lm_max_new limits) (max 0 (lm_max_open limits))"
  have "entry_block [] ?budget i 0 = None" "entry_block [] ?budget i (Suc 0) = None"
    using assms(4) by (auto simp: entry_block_None)
  then have "map bo_symbol (bs_buys (plan_buys [] ?budget equity cash quotes [i, i])) = [symbol, symbol]"
    using assms by (simp add: plan_buys_def buy_step_def Let_def not_le not_less)
  then show ?thesis by (simp add: plan_paper_orders_def plan_sells_def i_def [symmetric] Let_def)
qed

lemma plan_buys_same_name_twice_witness:
  "map bo_symbol (pl_buys (plan_paper_orders (house_limits None)
      [example_candidate ''301583.SZ'', example_candidate ''301583.SZ''] [] (\<lambda>s. CInt 142) 1000000 1000000))
    = [''301583.SZ'', ''301583.SZ'']"
proof -
  let ?i = "strategy_intent (example_candidate ''301583.SZ'')"
  have symbol: "it_symbol ?i = ''301583.SZ''" by code_simp
  have block: "entry_block [] (min (lm_max_new (house_limits None)) (lm_max_open (house_limits None))) ?i 1 = None"
    by code_simp
  have price: "number_of (CInt 142) = Some 142" by code_simp
  have size_pos: "0 < position_size 1000000 142 (it_entry_fraction ?i)" by code_simp
  have paid: "fmul 142 (flt (of_int (position_size 1000000 142 (it_entry_fraction ?i)))) \<le> 1000000" by code_simp
  have paid2: "fmul 142 (flt (of_int (position_size 1000000 142 (it_entry_fraction ?i))))
      \<le> fsub 1000000 (fmul 142 (flt (of_int (position_size 1000000 142 (it_entry_fraction ?i)))))" by code_simp
  show ?thesis
    by (rule plan_buys_same_name_twice [where quotes = "\<lambda>s. CInt 142", OF symbol _ block price _ size_pos paid paid2])
      simp_all
qed

end
