(* ===== verification/Episodes.thy ===== *)
theory Episodes
  imports PyCells
begin

text \<open>
  \<open>quant-service/app/episode_lifecycle.py\<close>: the episodes of the intraday signals. The table
  \<open>quant.intraday_signal_episodes\<close> is a list of rows, each SQL statement a function on it; the id
  of a new row, which the database draws, and \<open>sha256\<close> on the JSON text of a payload (\<open>digest\<close>) are
  arguments. \<open>created_at\<close> and \<open>updated_at\<close>, the time of the statement, are left out.
\<close>

section \<open>Signals\<close>

record signal_conditions =
  cn_setup :: "string option"
  cn_price :: cell
  cn_pct_change :: cell
  cn_volume_ratio :: cell
  cn_turnover_rate :: cell
  cn_main_net_inflow :: cell
  cn_market_state :: "string option"

record signal =
  sg_symbol :: "string option"
  sg_key :: "string option"
  sg_type :: "string option"
  sg_version :: "string option"
  sg_stage_upgrade :: bool
  sg_conditions :: "signal_conditions option"

text \<open>A mapping that is missing, or no mapping at all, reads as an empty one.\<close>

definition empty_conditions :: signal_conditions where
  "empty_conditions = \<lparr>cn_setup = None, cn_price = CNull, cn_pct_change = CNull, cn_volume_ratio = CNull,
     cn_turnover_rate = CNull, cn_main_net_inflow = CNull, cn_market_state = None\<rparr>"

definition conditions_part :: "signal \<Rightarrow> signal_conditions" where
  "conditions_part s = (case sg_conditions s of None \<Rightarrow> empty_conditions | Some c \<Rightarrow> c)"

definition EPISODE_CONTINUITY :: int where "EPISODE_CONTINUITY = 5 * us_minute"

definition FAMILY_MARKERS :: "(string \<times> string) list" where
  "FAMILY_MARKERS =
     [(''upside_acceptance_eac'', ''upside_breakout_eac''), (''upside_breakout_eac'', ''upside_breakout_eac''),
      (''deep_reversal'', ''deep_reversal''), (''green_reclaim'', ''green_reclaim''),
      (''sector_surge'', ''sector_surge''), (''extreme_flow'', ''extreme_flow''),
      (''price_extension'', ''price_extension''), (''leader_burst'', ''leader_burst''),
      (''volume_anomaly'', ''volume_anomaly'')]"

definition strategy_family :: "string \<Rightarrow> string" where
  "strategy_family value_text =
     (case py_next (\<lambda>(marker, family). occurs marker value_text) FAMILY_MARKERS of
        Some (marker, family) \<Rightarrow> family
      | None \<Rightarrow>
          let parts = py_split (CHR '':'') value_text in
          if 3 \<le> length parts \<and> parts ! 2 \<noteq> [] then parts ! 2
          else if value_text \<noteq> [] then value_text else ''unknown'')"

definition signal_direction :: "signal \<Rightarrow> int" where
  "signal_direction s = (if str_or (sg_type s) ''watch'' \<in> set [''reduce'', ''exit''] then - 1 else 1)"

definition signal_stage :: "signal \<Rightarrow> string" where
  "signal_stage s =
     (let setup = str_or (cn_setup (conditions_part s)) [] in
      if occurs ''acceptance'' setup \<or> sg_stage_upgrade s then ''acceptance''
      else if occurs ''reclaim'' setup \<or> occurs ''reversal'' setup then ''reclaim''
      else if sg_type s \<in> set [Some ''reduce'', Some ''exit''] then ''failure''
      else if occurs ''breakout'' setup \<or> occurs ''surge'' setup \<or> occurs ''burst'' setup then ''expansion''
      else ''detected'')"

record material_payload =
  mp_family :: string
  mp_direction :: int
  mp_stage :: string
  mp_setup :: "string option"
  mp_numeric :: "(string \<times> rat) list"
  mp_market_state :: "string option"

definition numeric_cells :: "signal_conditions \<Rightarrow> (string \<times> cell) list" where
  "numeric_cells c =
     [(''price'', cn_price c), (''pct_change'', cn_pct_change c), (''volume_ratio'', cn_volume_ratio c),
      (''turnover_rate'', cn_turnover_rate c), (''main_net_inflow'', cn_main_net_inflow c)]"

definition bin_step :: "string \<Rightarrow> rat" where
  "bin_step key =
     (if key = ''price'' then flt (5 / 1000)
      else if key \<in> set [''volume_ratio'', ''turnover_rate''] then 1 / 2 else 1)"

definition binned :: "string \<Rightarrow> rat \<Rightarrow> rat" where
  "binned key x = fmul (flt (of_int (half_even (flt (x / bin_step key))))) (bin_step key)"

definition material_state_payload :: "signal \<Rightarrow> material_payload" where
  "material_state_payload s =
     (let conditions = conditions_part s in
      \<lparr>mp_family = strategy_family (str_or (sg_key s) []),
       mp_direction = signal_direction s,
       mp_stage = signal_stage s,
       mp_setup = cn_setup conditions,
       mp_numeric = List.map_filter (\<lambda>(key, c). map_option (\<lambda>x. (key, binned key x)) (number_of c))
                      (numeric_cells conditions),
       mp_market_state = cn_market_state conditions\<rparr>)"

definition material_state_hash :: "(material_payload \<Rightarrow> string) \<Rightarrow> signal \<Rightarrow> string" where
  "material_state_hash digest s = digest (material_state_payload s)"

definition session_date :: "instant \<Rightarrow> date" where
  "session_date observed_at = local_date observed_at"

section \<open>The table of episodes\<close>

datatype episode_state = Active | Cleared

type_synonym episode_key = "string \<times> string \<times> string \<times> int \<times> date"

record episode =
  ep_id :: nat
  ep_key :: episode_key
  ep_state :: episode_state
  ep_stage :: string
  ep_hash :: string
  ep_first :: instant
  ep_last :: instant
  ep_clear :: "(instant \<times> string) option"
  ep_rearm :: int
  ep_first_event :: string
  ep_last_event :: "string option"

text \<open>\<open>ORDER BY last_observed_at DESC LIMIT 1\<close>; of equal times the database may take any, here the
  first row.\<close>

definition latest :: "episode list \<Rightarrow> episode option" where
  "latest rows =
     (case rows of [] \<Rightarrow> None
      | e # es \<Rightarrow> Some (fold (\<lambda>x found. if ep_last found < ep_last x then x else found) es e))"

definition active_episode :: "episode_key \<Rightarrow> episode list \<Rightarrow> episode option" where
  "active_episode key table = latest (filter (\<lambda>e. ep_key e = key \<and> ep_state e = Active) table)"

definition update_where :: "(episode \<Rightarrow> bool) \<Rightarrow> (episode \<Rightarrow> episode) \<Rightarrow> episode list \<Rightarrow> episode list" where
  "update_where p f table = map (\<lambda>e. if p e then f e else e) table"

definition clear_row :: "instant \<Rightarrow> string \<Rightarrow> episode \<Rightarrow> episode" where
  "clear_row at_time reason e = e\<lparr>ep_state := Cleared, ep_clear := Some (at_time, reason)\<rparr>"

record episode_answer =
  ea_episode :: nat
  ea_hash :: string
  ea_stage :: string
  ea_rearm :: bool

definition episode_key_of :: "string \<Rightarrow> signal \<Rightarrow> instant \<Rightarrow> episode_key" where
  "episode_key_of symbol s observed_at =
     (symbol, strategy_family (str_or (sg_key s) []), str_or (sg_version s) ''live-research-contract-v1'',
      signal_direction s, session_date observed_at)"

definition touch_row :: "instant \<Rightarrow> string \<Rightarrow> string \<Rightarrow> string \<Rightarrow> episode \<Rightarrow> episode" where
  "touch_row observed_at stage state_hash event_state e =
     e\<lparr>ep_last := observed_at, ep_stage := stage, ep_hash := state_hash, ep_last_event := Some event_state\<rparr>"

definition ensure_signal_episode :: "(material_payload \<Rightarrow> string) \<Rightarrow> nat \<Rightarrow> signal \<Rightarrow> instant \<Rightarrow> string
    \<Rightarrow> string option \<Rightarrow> episode list \<Rightarrow> (episode_answer \<times> episode list) res" where
  "ensure_signal_episode digest new_id s observed_at event_state symbol_arg table =
     (let symbol = str_or symbol_arg (str_or (sg_symbol s) []) in
      if symbol = [] then Inl ValueError
      else
        let key = episode_key_of symbol s observed_at; stage = signal_stage s;
            state_hash = material_state_hash digest s; active = active_episode key table;
            fresh = \<lparr>ep_id = new_id, ep_key = key, ep_state = Active, ep_stage = stage, ep_hash = state_hash,
              ep_first = observed_at, ep_last = observed_at, ep_clear = None,
              ep_rearm = (if active = None then 0 else 1), ep_first_event = event_state, ep_last_event = None\<rparr>
        in case active of
          None \<Rightarrow> Inr (\<lparr>ea_episode = new_id, ea_hash = state_hash, ea_stage = stage, ea_rearm = False\<rparr>,
                       table @ [fresh])
        | Some e \<Rightarrow>
            if observed_at - ep_last e \<le> EPISODE_CONTINUITY
            then Inr (\<lparr>ea_episode = ep_id e, ea_hash = state_hash, ea_stage = stage, ea_rearm = False\<rparr>,
                      update_where (\<lambda>row. ep_id row = ep_id e) (touch_row observed_at stage state_hash event_state) table)
            else Inr (\<lparr>ea_episode = new_id, ea_hash = state_hash, ea_stage = stage, ea_rearm = True\<rparr>,
                      update_where (\<lambda>row. ep_id row = ep_id e)
                        (clear_row observed_at ''continuity_window_elapsed'') table @ [fresh]))"

definition stale :: "string list \<Rightarrow> instant \<Rightarrow> episode \<Rightarrow> bool" where
  "stale symbols observed_at e =
     (fst (ep_key e) \<in> set symbols \<and> ep_state e = Active \<and> ep_last e < observed_at - EPISODE_CONTINUITY)"

definition clear_stale_signal_episodes :: "string list \<Rightarrow> instant \<Rightarrow> episode list \<Rightarrow> nat \<times> episode list" where
  "clear_stale_signal_episodes symbols observed_at table =
     (if symbols = [] then (0, table)
      else (length (filter (stale symbols observed_at) table),
            update_where (stale symbols observed_at) (clear_row observed_at ''signal_condition_cleared'') table))"

section \<open>The backfill of unlinked events\<close>

record signal_event =
  ev_id :: nat
  ev_symbol :: string
  ev_key :: string
  ev_type :: string
  ev_state :: string
  ev_observed :: instant
  ev_created :: instant
  ev_conditions :: "signal_conditions option"
  ev_link :: "(nat \<times> string \<times> string) option"

definition unlinked_events :: "nat \<Rightarrow> string list \<Rightarrow> signal_event list \<Rightarrow> signal_event list" where
  "unlinked_events maximum symbols events =
     take maximum (sort_key ev_observed (sort_key ev_created
       (filter (\<lambda>e. ev_link e = None \<and> ev_type e \<noteq> ''data_issue'' \<and> (symbols = [] \<or> ev_symbol e \<in> set symbols)) events)))"

definition event_signal :: "signal_event \<Rightarrow> signal" where
  "event_signal e =
     \<lparr>sg_symbol = None, sg_key = Some (ev_key e), sg_type = Some (ev_type e), sg_version = None,
      sg_stage_upgrade = False, sg_conditions = ev_conditions e\<rparr>"

record backfill_state =
  bf_episodes :: "episode list"
  bf_events :: "signal_event list"
  bf_linked :: nat
  bf_touched :: "nat list"

text \<open>\<open>new_ids\<close>: the id the database would give to a row written for the event.\<close>

definition backfill_event :: "(material_payload \<Rightarrow> string) \<Rightarrow> (signal_event \<Rightarrow> nat) \<Rightarrow> signal_event
    \<Rightarrow> backfill_state \<Rightarrow> backfill_state res" where
  "backfill_event digest new_ids row st =
     bindR (ensure_signal_episode digest (new_ids row) (event_signal row) (ev_observed row) (ev_state row)
              (Some (ev_symbol row)) (bf_episodes st)) (\<lambda>(answer, table).
       Inr \<lparr>bf_episodes = table,
            bf_events = map (\<lambda>e. if ev_id e = ev_id row \<and> ev_link e = None
                then e\<lparr>ev_link := Some (ea_episode answer, ea_hash answer, ea_stage answer)\<rparr> else e) (bf_events st),
            bf_linked = bf_linked st + 1,
            bf_touched = List.insert (ea_episode answer) (bf_touched st)\<rparr>)"

primrec backfill_rows :: "(material_payload \<Rightarrow> string) \<Rightarrow> (signal_event \<Rightarrow> nat) \<Rightarrow> signal_event list
    \<Rightarrow> backfill_state \<Rightarrow> backfill_state res" where
  "backfill_rows digest new_ids [] st = Inr st"
| "backfill_rows digest new_ids (row # rows) st =
     bindR (backfill_event digest new_ids row st) (backfill_rows digest new_ids rows)"

record backfill_report =
  br_examined :: nat
  br_linked :: nat
  br_touched :: nat
  br_remaining :: int

definition backfill_signal_event_episode_links :: "(material_payload \<Rightarrow> string) \<Rightarrow> (signal_event \<Rightarrow> nat)
    \<Rightarrow> int \<Rightarrow> string list \<Rightarrow> episode list \<Rightarrow> signal_event list
    \<Rightarrow> (backfill_report \<times> episode list \<times> signal_event list) res" where
  "backfill_signal_event_episode_links digest new_ids most symbols table events =
     (let maximum = nat (max 1 (min most 10000)); rows = unlinked_events maximum symbols events in
      bindR (backfill_rows digest new_ids rows
              \<lparr>bf_episodes = table, bf_events = events, bf_linked = 0, bf_touched = []\<rparr>) (\<lambda>st.
        Inr (\<lparr>br_examined = length rows, br_linked = bf_linked st, br_touched = length (bf_touched st),
               br_remaining = (if length rows < maximum then max 0 (int (length rows) - int (bf_linked st)) else - 1)\<rparr>,
             bf_episodes st, bf_events st)))"

section \<open>One active episode per key\<close>

text \<open>What the episode table promises: ids identify rows, a key has at most one active episode, and
  exactly the rows that are not active carry a clearing.\<close>

definition episodes_ok :: "episode list \<Rightarrow> bool" where
  "episodes_ok table =
     (distinct (map ep_id table)
      \<and> (\<forall>e \<in> set table. \<forall>e' \<in> set table.
           ep_state e = Active \<and> ep_state e' = Active \<and> ep_key e = ep_key e' \<longrightarrow> ep_id e = ep_id e')
      \<and> (\<forall>e \<in> set table. ep_clear e = None \<longleftrightarrow> ep_state e = Active))"

text \<open>The transactions of the module, one after the other. An id the database draws is in no row.\<close>

inductive episode_step :: "(material_payload \<Rightarrow> string) \<Rightarrow> episode list \<Rightarrow> episode list \<Rightarrow> bool"
  for digest where
  ensure: "ensure_signal_episode digest new_id s observed_at event_state symbol_arg table = Inr (answer, table')
    \<Longrightarrow> new_id \<notin> ep_id ` set table \<Longrightarrow> episode_step digest table table'"
| clear: "clear_stale_signal_episodes symbols observed_at table = (n, table') \<Longrightarrow> episode_step digest table table'"
| backfill: "backfill_signal_event_episode_links digest new_ids most symbols table events = Inr (report, table', events')
    \<Longrightarrow> inj_on new_ids (set events) \<Longrightarrow> distinct events \<Longrightarrow> new_ids ` set events \<inter> ep_id ` set table = {}
    \<Longrightarrow> episode_step digest table table'"

inductive episode_reachable :: "(material_payload \<Rightarrow> string) \<Rightarrow> episode list \<Rightarrow> bool" for digest where
  start: "episode_reachable digest []"
| step: "episode_reachable digest table \<Longrightarrow> episode_step digest table table' \<Longrightarrow> episode_reachable digest table'"

inductive_cases episode_step_cases: "episode_step digest table table'"

lemma latest_None: "latest rows = None \<longleftrightarrow> rows = []"
  by (simp add: latest_def split: list.splits)

lemma latest_in: "latest rows = Some e \<Longrightarrow> e \<in> set rows"
proof -
  have "fold (\<lambda>x found. if ep_last found < ep_last x then x else found) es e0 \<in> insert e0 (set es)" for es and e0 :: episode
    by (induction es arbitrary: e0) (auto split: if_splits)
  then show "latest rows = Some e \<Longrightarrow> e \<in> set rows" by (auto simp: latest_def split: list.splits)
qed

lemma active_episode_None:
  "active_episode key table = None \<longleftrightarrow> (\<forall>e \<in> set table. ep_key e = key \<longrightarrow> ep_state e \<noteq> Active)"
  by (auto simp: active_episode_def latest_None filter_empty_conv)

lemma active_episode_Some:
  "active_episode key table = Some e \<Longrightarrow> e \<in> set table \<and> ep_key e = key \<and> ep_state e = Active"
  using latest_in by (force simp: active_episode_def)

lemma episodes_ok_unique:
  "episodes_ok table \<Longrightarrow> e \<in> set table \<Longrightarrow> e' \<in> set table \<Longrightarrow> ep_state e = Active \<Longrightarrow> ep_state e' = Active
    \<Longrightarrow> ep_key e = ep_key e' \<Longrightarrow> ep_id e = ep_id e'"
  unfolding episodes_ok_def by blast

lemma episodes_ok_row:
  "episodes_ok table \<Longrightarrow> e \<in> set table \<Longrightarrow> ep_clear e = None \<longleftrightarrow> ep_state e = Active"
  unfolding episodes_ok_def by blast

lemma episodes_ok_same:
  "episodes_ok table \<Longrightarrow> e \<in> set table \<Longrightarrow> e' \<in> set table \<Longrightarrow> ep_id e = ep_id e' \<Longrightarrow> e = e'"
  unfolding episodes_ok_def distinct_map by (blast dest: inj_onD)

lemma active_episode_unique:
  assumes "episodes_ok table" "e \<in> set table" "ep_key e = key" "ep_state e = Active"
  shows "active_episode key table = Some e"
proof (cases "active_episode key table")
  case None
  then show ?thesis using assms by (auto simp: active_episode_None)
next
  case (Some e')
  note found = active_episode_Some [OF Some]
  have "ep_id e' = ep_id e"
    by (rule episodes_ok_unique [OF assms(1) _ assms(2) _ assms(4)]) (use found assms(3) in simp_all)
  then have "e' = e" using episodes_ok_same [OF assms(1) _ assms(2)] found by blast
  then show ?thesis by (simp add: Some)
qed

lemma episodes_ok_map:
  assumes "episodes_ok table"
    and "\<And>e. e \<in> set table \<Longrightarrow> ep_id (f e) = ep_id e \<and> ep_key (f e) = ep_key e
      \<and> (ep_state (f e) = Active \<longrightarrow> ep_state e = Active) \<and> (ep_clear (f e) = None \<longleftrightarrow> ep_state (f e) = Active)"
  shows "episodes_ok (map f table)"
proof -
  have "map ep_id (map f table) = map ep_id table" using assms(2) by simp
  moreover have "distinct (map ep_id table)" using assms(1) by (simp add: episodes_ok_def)
  moreover have "ep_id (f e) = ep_id (f e')" if "e \<in> set table" "e' \<in> set table"
      "ep_state (f e) = Active" "ep_state (f e') = Active" "ep_key (f e) = ep_key (f e')" for e e'
    using episodes_ok_unique [OF assms(1) that(1,2)] assms(2) [OF that(1)] assms(2) [OF that(2)] that by simp
  ultimately show ?thesis
    unfolding episodes_ok_def set_map ball_simps using assms(2) by (intro conjI ballI impI) metis+
qed

lemma episodes_ok_add:
  assumes "episodes_ok table" "ep_id e \<notin> ep_id ` set table" "ep_state e = Active" "ep_clear e = None"
    and "\<And>e'. e' \<in> set table \<Longrightarrow> ep_key e' = ep_key e \<Longrightarrow> ep_state e' \<noteq> Active"
  shows "episodes_ok (table @ [e])"
  unfolding episodes_ok_def
proof (intro conjI ballI impI)
  show "distinct (map ep_id (table @ [e]))" using assms(1,2) by (simp add: episodes_ok_def)
next
  fix x y assume "x \<in> set (table @ [e])" "y \<in> set (table @ [e])"
    and "ep_state x = Active \<and> ep_state y = Active \<and> ep_key x = ep_key y"
  then show "ep_id x = ep_id y"
    using episodes_ok_unique [OF assms(1), of x y] assms(5) [of x] assms(5) [of y] by (cases "x = e"; cases "y = e") auto
next
  fix x assume "x \<in> set (table @ [e])"
  then show "ep_clear x = None \<longleftrightarrow> ep_state x = Active" using assms(3,4) episodes_ok_row [OF assms(1), of x] by auto
qed

lemma update_where_ids [simp]:
  assumes "\<And>e. ep_id (f e) = ep_id e"
  shows "ep_id ` set (update_where p f table) = ep_id ` set table"
proof -
  have "map ep_id (update_where p f table) = map ep_id table" using assms by (simp add: update_where_def)
  then show ?thesis by (metis list.set_map)
qed

lemma clear_row_simps [simp]:
  "ep_id (clear_row t r e) = ep_id e" "ep_key (clear_row t r e) = ep_key e"
  "ep_state (clear_row t r e) = Cleared" "ep_clear (clear_row t r e) = Some (t, r)"
  by (simp_all add: clear_row_def)

lemma touch_row_simps [simp]:
  "ep_id (touch_row t g h v e) = ep_id e" "ep_key (touch_row t g h v e) = ep_key e"
  "ep_state (touch_row t g h v e) = ep_state e" "ep_clear (touch_row t g h v e) = ep_clear e"
  "ep_last (touch_row t g h v e) = t"
  by (simp_all add: touch_row_def)

lemma update_where_ok:
  assumes "episodes_ok table"
    and "\<And>e. ep_id (f e) = ep_id e \<and> ep_key (f e) = ep_key e"
    and "\<And>e. ep_state (f e) = Active \<Longrightarrow> ep_state e = Active"
    and "\<And>e. (ep_clear e = None \<longleftrightarrow> ep_state e = Active) \<Longrightarrow> (ep_clear (f e) = None \<longleftrightarrow> ep_state (f e) = Active)"
  shows "episodes_ok (update_where p f table)"
  unfolding update_where_def
proof (rule episodes_ok_map [OF assms(1)])
  fix e assume "e \<in> set table"
  note row = episodes_ok_row [OF assms(1) this]
  show "ep_id (if p e then f e else e) = ep_id e \<and> ep_key (if p e then f e else e) = ep_key e
      \<and> (ep_state (if p e then f e else e) = Active \<longrightarrow> ep_state e = Active)
      \<and> (ep_clear (if p e then f e else e) = None \<longleftrightarrow> ep_state (if p e then f e else e) = Active)"
    using row assms(2) [of e] assms(3) [of e] assms(4) [OF row] by simp
qed

text \<open>What one observation does: the answer names the one active episode of its key, last observed
  at this observation.\<close>

lemma ensure_ok:
  assumes "ensure_signal_episode digest new_id s observed_at event_state symbol_arg table = Inr (answer, table')"
    and "episodes_ok table" "new_id \<notin> ep_id ` set table"
  shows "episodes_ok table'"
    and "\<exists>e \<in> set table'. ep_id e = ea_episode answer \<and> ep_state e = Active \<and> ep_last e = observed_at
      \<and> ep_key e = episode_key_of (str_or symbol_arg (str_or (sg_symbol s) [])) s observed_at"
    and "ep_id ` set table' \<subseteq> insert new_id (ep_id ` set table)"
proof -
  define symbol where "symbol = str_or symbol_arg (str_or (sg_symbol s) [])"
  define key where "key = episode_key_of symbol s observed_at"
  define fresh where "fresh rearm = \<lparr>ep_id = new_id, ep_key = key, ep_state = Active, ep_stage = signal_stage s,
      ep_hash = material_state_hash digest s, ep_first = observed_at, ep_last = observed_at, ep_clear = None,
      ep_rearm = rearm, ep_first_event = event_state, ep_last_event = None\<rparr>" for rearm :: int
  have fresh: "ep_id (fresh r) = new_id" "ep_key (fresh r) = key" "ep_state (fresh r) = Active"
    "ep_clear (fresh r) = None" "ep_last (fresh r) = observed_at" for r by (simp_all add: fresh_def)
  let ?goal = "episodes_ok table' \<and> (\<exists>e \<in> set table'. ep_id e = ea_episode answer \<and> ep_state e = Active
      \<and> ep_last e = observed_at \<and> ep_key e = key) \<and> ep_id ` set table' \<subseteq> insert new_id (ep_id ` set table)"
  have ?goal
  proof (cases "active_episode key table")
    case None
    then have t: "table' = table @ [fresh 0]" "ea_episode answer = new_id"
      using assms(1) by (auto simp: ensure_signal_episode_def Let_def symbol_def key_def fresh_def split: if_splits)
    have "episodes_ok table'" unfolding t
      by (rule episodes_ok_add) (use assms None in \<open>auto simp: fresh active_episode_None\<close>)
    then show ?thesis by (auto simp: t fresh)
  next
    case (Some e)
    note act = active_episode_Some [OF Some]
    show ?thesis
    proof (cases "observed_at - ep_last e \<le> EPISODE_CONTINUITY")
      case True
      define touch where "touch = touch_row observed_at (signal_stage s) (material_state_hash digest s) event_state"
      have t: "table' = update_where (\<lambda>row. ep_id row = ep_id e) touch table" "ea_episode answer = ep_id e"
        using assms(1) Some True
        by (auto simp: ensure_signal_episode_def Let_def symbol_def key_def touch_def split: if_splits)
      have "episodes_ok table'" unfolding t by (rule update_where_ok [OF assms(2)]) (simp_all add: touch_def)
      moreover have "touch e \<in> set table'" using act by (auto simp: t update_where_def image_iff intro!: bexI [of _ e])
      moreover have "ep_id ` set table' = ep_id ` set table" unfolding t by (rule update_where_ids) (simp add: touch_def)
      ultimately show ?thesis using act by (auto simp: t touch_def intro!: bexI [of _ "touch e"])
    next
      case False
      define cleared where "cleared = update_where (\<lambda>row. ep_id row = ep_id e)
        (clear_row observed_at ''continuity_window_elapsed'') table"
      have t: "table' = cleared @ [fresh 1]" "ea_episode answer = new_id"
        using assms(1) Some False
        by (auto simp: ensure_signal_episode_def Let_def symbol_def key_def fresh_def cleared_def split: if_splits)
      have ids: "ep_id ` set cleared = ep_id ` set table" unfolding cleared_def by (rule update_where_ids) simp
      have ok: "episodes_ok cleared" unfolding cleared_def by (rule update_where_ok [OF assms(2)]) simp_all
      have none: "ep_state x \<noteq> Active" if x: "x \<in> set cleared" "ep_key x = key" for x
      proof -
        obtain y where y: "x = (if ep_id y = ep_id e then clear_row observed_at ''continuity_window_elapsed'' y else y)"
            "y \<in> set table"
          using x(1) unfolding cleared_def update_where_def set_map by (rule imageE)
        show ?thesis
        proof (cases "ep_id y = ep_id e")
          case False
          with y x(2) act show ?thesis using episodes_ok_unique [OF assms(2) y(2), of e] by auto
        qed (simp add: y)
      qed
      have "episodes_ok table'" unfolding t
        by (rule episodes_ok_add [OF ok]) (use assms(3) ids none in \<open>auto simp: fresh\<close>)
      then show ?thesis using ids by (auto simp: t fresh)
    qed
  qed
  then show "episodes_ok table'"
    "\<exists>e \<in> set table'. ep_id e = ea_episode answer \<and> ep_state e = Active \<and> ep_last e = observed_at
      \<and> ep_key e = episode_key_of (str_or symbol_arg (str_or (sg_symbol s) [])) s observed_at"
    "ep_id ` set table' \<subseteq> insert new_id (ep_id ` set table)"
    by (auto simp: key_def symbol_def)
qed

lemma apart_insert: "a \<notin> A \<Longrightarrow> A \<inter> B = {} \<Longrightarrow> C \<subseteq> insert a B \<Longrightarrow> A \<inter> C = {}"
  by blast

lemma backfill_rows_ok:
  assumes "backfill_rows digest new_ids rows st = Inr st'" "episodes_ok (bf_episodes st)"
    and "distinct rows" "inj_on new_ids (set rows)" "new_ids ` set rows \<inter> ep_id ` set (bf_episodes st) = {}"
  shows "episodes_ok (bf_episodes st')"
  using assms
proof (induction rows arbitrary: st)
  case (Cons row rows)
  from Cons.prems(1) obtain st1 where one: "backfill_event digest new_ids row st = Inr st1"
    and rest: "backfill_rows digest new_ids rows st1 = Inr st'" by auto
  from one obtain answer table where
    e: "ensure_signal_episode digest (new_ids row) (event_signal row) (ev_observed row) (ev_state row)
          (Some (ev_symbol row)) (bf_episodes st) = Inr (answer, table)"
    and st1: "bf_episodes st1 = table"
    by (auto simp: backfill_event_def)
  have new: "new_ids row \<notin> ep_id ` set (bf_episodes st)" using Cons.prems(5) by auto
  note ok = ensure_ok [OF e Cons.prems(2) new]
  have sub: "distinct rows" "row \<notin> set rows" "set rows \<subseteq> set (row # rows)" using Cons.prems(3) by auto
  have "new_ids row \<notin> new_ids ` set rows"
  proof
    assume "new_ids row \<in> new_ids ` set rows"
    then obtain other where "other \<in> set rows" "new_ids row = new_ids other" by blast
    then show False using inj_onD [OF Cons.prems(4), of row other] sub(2) by simp
  qed
  moreover have "new_ids ` set rows \<inter> ep_id ` set (bf_episodes st) = {}" using Cons.prems(5) by auto
  ultimately have apart: "new_ids ` set rows \<inter> ep_id ` set (bf_episodes st1) = {}"
    unfolding st1 by (rule apart_insert [OF _ _ ok(3)])
  have "episodes_ok (bf_episodes st1)" unfolding st1 by (rule ok(1))
  from Cons.IH [OF rest this sub(1) inj_on_subset [OF Cons.prems(4) sub(3)] apart] show ?case .
qed simp

lemma unlinked_events_distinct: "distinct events \<Longrightarrow> distinct (unlinked_events n symbols events)"
  by (simp add: unlinked_events_def)

lemma unlinked_events_subset: "set (unlinked_events n symbols events) \<subseteq> set events"
  unfolding unlinked_events_def by (rule subset_trans [OF set_take_subset]) auto

lemma episode_step_ok: "episode_step digest table table' \<Longrightarrow> episodes_ok table \<Longrightarrow> episodes_ok table'"
proof (induction rule: episode_step.induct)
  case (clear symbols observed_at table n table')
  have "episodes_ok (update_where (stale symbols observed_at)
      (clear_row observed_at ''signal_condition_cleared'') table)"
    by (rule update_where_ok [OF clear.prems]) simp_all
  moreover have "table' = table \<or> table' = update_where (stale symbols observed_at)
      (clear_row observed_at ''signal_condition_cleared'') table"
    using clear.hyps by (auto simp: clear_stale_signal_episodes_def split: if_splits)
  ultimately show ?case using clear.prems by auto
next
  case (backfill new_ids most symbols table events report table' events')
  define rows where "rows = unlinked_events (nat (max 1 (min most 10000))) symbols events"
  obtain st where st: "backfill_rows digest new_ids rows
      \<lparr>bf_episodes = table, bf_events = events, bf_linked = 0, bf_touched = []\<rparr> = Inr st" "table' = bf_episodes st"
    using backfill.hyps(1) by (auto simp: backfill_signal_event_episode_links_def Let_def rows_def)
  have "set rows \<subseteq> set events" "distinct rows"
    using backfill.hyps(3) by (simp_all add: rows_def unlinked_events_subset unlinked_events_distinct)
  moreover have "new_ids ` set rows \<inter> ep_id ` set table = {}"
    using backfill.hyps(4) image_mono [OF \<open>set rows \<subseteq> set events\<close>, of new_ids] by (metis disjoint_iff subsetD)
  ultimately show ?case
    using backfill_rows_ok [OF st(1)] inj_on_subset [OF backfill.hyps(2)] backfill.prems st(2) by simp
qed (use ensure_ok in blast)

text \<open>
  C25. Every table the module's transactions build, in any order and on any signals, has at most
  one active episode per symbol, strategy family, version, direction and session date; its ids are
  distinct, and exactly the episodes that are not active say when and why they were cleared.
\<close>

theorem episodes_one_active:
  "episode_reachable digest table \<Longrightarrow> episodes_ok table"
proof (induction rule: episode_reachable.induct)
  case start
  show ?case by (simp add: episodes_ok_def)
qed (rule episode_step_ok)

text \<open>A signal of a family of its own, first seen at 09:31 on 2026-10-13.\<close>

definition example_signal :: signal where
  "example_signal = \<lparr>sg_symbol = Some ''600000.SH'', sg_key = Some ''vwap'',
     sg_type = Some ''watch'', sg_version = None, sg_stage_upgrade = False,
     sg_conditions = None\<rparr>"

definition example_digest_of :: "material_payload \<Rightarrow> string" where
  "example_digest_of p = mp_stage p"

definition example_episode :: episode where
  "example_episode = \<lparr>ep_id = 0, ep_key = (''600000.SH'', ''vwap'', ''live-research-contract-v1'', 1, 739902),
     ep_state = Active, ep_stage = ''detected'', ep_hash = ''detected'', ep_first = combine_local 739902 (clock_time 9 31),
     ep_last = combine_local 739902 (clock_time 9 31), ep_clear = None, ep_rearm = 0,
     ep_first_event = ''confirmed'', ep_last_event = None\<rparr>"

lemma example_ensure:
  "ensure_signal_episode example_digest_of 0 example_signal (combine_local 739902 (clock_time 9 31)) ''confirmed'' None []
    = Inr (\<lparr>ea_episode = 0, ea_hash = ''detected'', ea_stage = ''detected'', ea_rearm = False\<rparr>, [example_episode])"
  by code_simp

lemma example_reachable: "episode_reachable example_digest_of [example_episode]"
  by (rule episode_reachable.step [OF episode_reachable.start episode_step.ensure [OF example_ensure]]) simp

lemma episodes_one_active_witness: "episodes_ok [example_episode] \<and> ep_state example_episode = Active"
  using episodes_one_active [OF example_reachable] by (simp add: example_episode_def)

section \<open>Observations out of order\<close>

text \<open>
  An observation older than the last one rewinds the episode: it is taken as a continuation
  and becomes the last observation, so that an observation within five minutes of the real last
  one, which would have continued the episode, clears it and opens a rearmed episode instead. The
  backfill, which feeds old events to the same function, does this to an episode that is live.
\<close>

theorem stale_observation_rewinds:
  assumes "episodes_ok table" "symbol \<noteq> []"
    and "active_episode (episode_key_of symbol s early) table = Some e"
    and "session_date later = session_date early"
    and "early < ep_last e" "later - ep_last e \<le> EPISODE_CONTINUITY" "EPISODE_CONTINUITY < later - early"
  shows "(\<exists>answer direct. ensure_signal_episode digest n s later v (Some symbol) table = Inr (answer, direct)
      \<and> ea_episode answer = ep_id e \<and> \<not> ea_rearm answer)
    \<and> (\<exists>answer rewound. ensure_signal_episode digest m s early u (Some symbol) table = Inr (answer, rewound)
      \<and> ea_episode answer = ep_id e
      \<and> (\<exists>next_answer final. ensure_signal_episode digest n s later v (Some symbol) rewound = Inr (next_answer, final)
          \<and> ea_episode next_answer = n \<and> ea_rearm next_answer))"
proof -
  define key where "key = episode_key_of symbol s early"
  have key': "episode_key_of symbol s later = key" using assms(4) by (simp add: key_def episode_key_of_def)
  have sym: "str_or (Some symbol) rest = symbol" for rest using assms(2) by (simp add: str_or_def)
  note e = active_episode_Some [OF assms(3)]
  define touch where "touch = touch_row early (signal_stage s) (material_state_hash digest s) u"
  define rewound where "rewound = update_where (\<lambda>row. ep_id row = ep_id e) touch table"
  have early: "early - ep_last e \<le> EPISODE_CONTINUITY" using assms(5) by (simp add: EPISODE_CONTINUITY_def us_defs)
  have first: "ensure_signal_episode digest m s early u (Some symbol) table
      = Inr (\<lparr>ea_episode = ep_id e, ea_hash = material_state_hash digest s, ea_stage = signal_stage s, ea_rearm = False\<rparr>,
             rewound)"
    using early assms(2,3) by (simp add: ensure_signal_episode_def sym Let_def rewound_def touch_def)
  have direct: "\<exists>answer direct. ensure_signal_episode digest n s later v (Some symbol) table = Inr (answer, direct)
      \<and> ea_episode answer = ep_id e \<and> \<not> ea_rearm answer"
    using assms(2,3,6) by (simp add: ensure_signal_episode_def sym key' Let_def key_def [symmetric])
  have "episodes_ok rewound" unfolding rewound_def by (rule update_where_ok [OF assms(1)]) (simp_all add: touch_def)
  moreover have "touch e \<in> set rewound" using e unfolding rewound_def update_where_def set_map by (force intro: image_eqI)
  ultimately have "active_episode key rewound = Some (touch e)"
    by (rule active_episode_unique) (use e in \<open>simp_all add: touch_def key_def\<close>)
  then have "\<exists>next_answer final. ensure_signal_episode digest n s later v (Some symbol) rewound = Inr (next_answer, final)
      \<and> ea_episode next_answer = n \<and> ea_rearm next_answer"
    using assms(2,7) by (simp add: ensure_signal_episode_def sym key' Let_def touch_def)
  then show ?thesis using first direct by auto
qed

lemma stale_observation_rewinds_witness:
  "\<exists>answer table. ensure_signal_episode example_digest_of 1 example_signal (combine_local 739902 (clock_time 9 25))
      ''confirmed'' (Some ''600000.SH'') [example_episode] = Inr (answer, table)
    \<and> (\<exists>next_answer final. ensure_signal_episode example_digest_of 2 example_signal (combine_local 739902 (clock_time 9 34))
      ''confirmed'' (Some ''600000.SH'') table = Inr (next_answer, final) \<and> ea_rearm next_answer)"
proof -
  have ok: "episodes_ok [example_episode]" by (simp add: episodes_ok_def example_episode_def)
  have active: "active_episode (episode_key_of ''600000.SH'' example_signal (combine_local 739902 (clock_time 9 25)))
      [example_episode] = Some example_episode" by code_simp
  have times: "session_date (combine_local 739902 (clock_time 9 34)) = session_date (combine_local 739902 (clock_time 9 25))"
    "combine_local 739902 (clock_time 9 25) < ep_last example_episode"
    "combine_local 739902 (clock_time 9 34) - ep_last example_episode \<le> EPISODE_CONTINUITY"
    "EPISODE_CONTINUITY < combine_local 739902 (clock_time 9 34) - combine_local 739902 (clock_time 9 25)"
    by code_simp+
  have "''600000.SH'' \<noteq> []" by simp
  from stale_observation_rewinds [OF ok this active times, of example_digest_of 2 "''confirmed''" 1 "''confirmed''"]
  show ?thesis by blast
qed

end
