(* ===== verification/RuntimeLeases.thy ===== *)
theory RuntimeLeases
  imports IntradayClock
begin

text \<open>
  \<open>quant-service/app/runtime_leases.py\<close>: leases that keep one process at a time in a background
  task. The table \<open>quant.runtime_leases\<close> maps a key to its row, each function is one SQL statement
  on it, and \<open>now()\<close> of the statement's transaction is an argument. The name based UUID of a holder
  is the holder itself here, a text.
\<close>

section \<open>The statements\<close>

definition POST_CLOSE_REFRESH_LEASE_KEY :: string where
  "POST_CLOSE_REFRESH_LEASE_KEY = ''post_close_refresh_v1''"

definition post_close_refresh_lease_seconds :: "string option \<Rightarrow> int" where
  "post_close_refresh_lease_seconds env = min 7200 (max 300 (env_int env 1800))"

definition background_loop_lease_seconds :: "string option \<Rightarrow> int" where
  "background_loop_lease_seconds env = min 600 (max 60 (env_int env 120))"

type_synonym holder = string

record lease =
  ls_holder :: holder
  ls_acquired :: instant
  ls_expires :: instant

type_synonym leases = "string \<rightharpoonup> lease"

definition new_lease :: "holder \<Rightarrow> int \<Rightarrow> instant \<Rightarrow> lease" where
  "new_lease holder_id lease_seconds now =
     \<lparr>ls_holder = holder_id, ls_acquired = now, ls_expires = now + lease_seconds * us_second\<rparr>"

definition acquire_runtime_lease :: "string \<Rightarrow> holder \<Rightarrow> int \<Rightarrow> instant \<Rightarrow> leases \<Rightarrow> bool \<times> leases" where
  "acquire_runtime_lease lease_key holder_id lease_seconds now table =
     (case table lease_key of
        None \<Rightarrow> (True, table(lease_key \<mapsto> new_lease holder_id lease_seconds now))
      | Some row \<Rightarrow>
          if ls_expires row \<le> now \<or> ls_holder row = holder_id
          then (True, table(lease_key \<mapsto> new_lease holder_id lease_seconds now))
          else (False, table))"

definition renew_runtime_lease :: "string \<Rightarrow> holder \<Rightarrow> int \<Rightarrow> instant \<Rightarrow> leases \<Rightarrow> bool \<times> leases" where
  "renew_runtime_lease lease_key holder_id lease_seconds now table =
     (case table lease_key of
        None \<Rightarrow> (False, table)
      | Some row \<Rightarrow>
          if ls_holder row = holder_id \<and> now < ls_expires row
          then (True, table(lease_key \<mapsto> row\<lparr>ls_expires := now + lease_seconds * us_second\<rparr>))
          else (False, table))"

definition release_runtime_lease :: "string \<Rightarrow> holder \<Rightarrow> leases \<Rightarrow> leases" where
  "release_runtime_lease lease_key holder_id table =
     (case table lease_key of
        None \<Rightarrow> table
      | Some row \<Rightarrow> if ls_holder row = holder_id then table(lease_key := None) else table)"

section \<open>Processes that rely on their leases\<close>

text \<open>
  What a process knows is the answer of its last call: after a granted call at \<open>now\<close> it may work
  until \<open>now\<close> and the lease's length, after a refused one or a release it may not. The statements
  of all processes are ordered by their \<open>now()\<close>; between two statements any process may be delayed
  or lost, which is no step.
\<close>

record lease_system =
  sy_table :: leases
  sy_until :: "string \<Rightarrow> holder \<Rightarrow> instant option"
  sy_now :: instant

definition answer_until :: "bool \<Rightarrow> instant \<Rightarrow> int \<Rightarrow> instant option" where
  "answer_until granted now lease_seconds = (if granted then Some (now + lease_seconds * us_second) else None)"

definition note_answer :: "string \<Rightarrow> holder \<Rightarrow> instant option \<Rightarrow> instant \<Rightarrow> leases \<Rightarrow> lease_system \<Rightarrow> lease_system" where
  "note_answer key holder_id known now table s =
     \<lparr>sy_table = table, sy_until = (sy_until s)(key := (sy_until s key)(holder_id := known)), sy_now = now\<rparr>"

inductive lease_step :: "lease_system \<Rightarrow> lease_system \<Rightarrow> bool" where
  acquire: "sy_now s \<le> now \<Longrightarrow> acquire_runtime_lease key h seconds now (sy_table s) = (granted, table)
    \<Longrightarrow> lease_step s (note_answer key h (answer_until granted now seconds) now table s)"
| renew: "sy_now s \<le> now \<Longrightarrow> renew_runtime_lease key h seconds now (sy_table s) = (granted, table)
    \<Longrightarrow> lease_step s (note_answer key h (answer_until granted now seconds) now table s)"
| release: "sy_now s \<le> now \<Longrightarrow> release_runtime_lease key h (sy_table s) = table
    \<Longrightarrow> lease_step s (note_answer key h None now table s)"

inductive lease_reachable :: "lease_system \<Rightarrow> bool" where
  start: "lease_reachable \<lparr>sy_table = Map.empty, sy_until = \<lambda>key h. None, sy_now = t\<rparr>"
| step: "lease_reachable s \<Longrightarrow> lease_step s s' \<Longrightarrow> lease_reachable s'"

inductive_cases lease_step_cases: "lease_step s s'"

text \<open>A process that may still work is the holder in the table, until the time it knows.\<close>

definition lease_backed :: "lease_system \<Rightarrow> bool" where
  "lease_backed s =
     (\<forall>key h t. sy_until s key h = Some t \<and> sy_now s < t \<longrightarrow>
        (\<exists>row. sy_table s key = Some row \<and> ls_holder row = h \<and> ls_expires row = t))"

lemma lease_backedD:
  "lease_backed s \<Longrightarrow> sy_until s key h = Some t \<Longrightarrow> sy_now s < t
    \<Longrightarrow> \<exists>row. sy_table s key = Some row \<and> ls_holder row = h \<and> ls_expires row = t"
  unfolding lease_backed_def by blast

lemma new_lease_simps [simp]:
  "ls_holder (new_lease h seconds now) = h" "ls_expires (new_lease h seconds now) = now + seconds * us_second"
  "ls_acquired (new_lease h seconds now) = now"
  by (simp_all add: new_lease_def)

text \<open>A statement keeps the backing when it leaves other keys alone, gives its caller exactly what it
  answers, and takes the key from another process only after that one's time.\<close>

lemma note_answer_backed:
  assumes "lease_backed s" "sy_now s \<le> now"
    and "\<And>k. k \<noteq> key \<Longrightarrow> table k = sy_table s k"
    and "\<And>t. known = Some t \<Longrightarrow> now < t \<Longrightarrow> \<exists>row. table key = Some row \<and> ls_holder row = h \<and> ls_expires row = t"
    and "\<And>row. sy_table s key = Some row \<Longrightarrow> ls_holder row \<noteq> h \<Longrightarrow> now < ls_expires row \<Longrightarrow> table key = Some row"
  shows "lease_backed (note_answer key h known now table s)"
  unfolding lease_backed_def
proof (intro allI impI)
  fix k g t
  assume a: "sy_until (note_answer key h known now table s) k g = Some t \<and> sy_now (note_answer key h known now table s) < t"
  show "\<exists>row. sy_table (note_answer key h known now table s) k = Some row \<and> ls_holder row = g \<and> ls_expires row = t"
  proof (cases "k = key \<and> g = h")
    case True
    then show ?thesis using a assms(4) by (simp add: note_answer_def)
  next
    case False
    then have old: "sy_until s k g = Some t" "sy_now s < t" "now < t"
      using a assms(2) by (auto simp: note_answer_def split: if_splits)
    obtain row where row: "sy_table s k = Some row" "ls_holder row = g" "ls_expires row = t"
      using lease_backedD [OF assms(1) old(1,2)] by blast
    then have "table k = Some row" using False old(3) assms(3) assms(5) by (cases "k = key") auto
    with row show ?thesis by (simp add: note_answer_def)
  qed
qed

lemma lease_step_backed: "lease_step s s' \<Longrightarrow> lease_backed s \<Longrightarrow> lease_backed s'"
proof (induction rule: lease_step.induct)
  case (acquire s now key h seconds granted table)
  show ?case
    by (rule note_answer_backed [OF acquire.prems acquire.hyps(1)])
      (use acquire.hyps(2) in \<open>auto simp: acquire_runtime_lease_def answer_until_def split: option.splits if_splits\<close>)
next
  case (renew s now key h seconds granted table)
  show ?case
    by (rule note_answer_backed [OF renew.prems renew.hyps(1)])
      (use renew.hyps(2) in \<open>auto simp: renew_runtime_lease_def answer_until_def split: option.splits if_splits\<close>)
next
  case (release s now key h table)
  show ?case
    by (rule note_answer_backed [OF release.prems release.hyps(1)])
      (use release.hyps(2) in \<open>auto simp: release_runtime_lease_def split: option.splits if_splits\<close>)
qed

lemma lease_reachable_backed: "lease_reachable s \<Longrightarrow> lease_backed s"
  by (induction rule: lease_reachable.induct) (auto simp: lease_backed_def [of "lease_system.make _ _ _"]
      lease_backed_def [of "\<lparr>sy_table = Map.empty, sy_until = \<lambda>key h. None, sy_now = _\<rparr>"] intro: lease_step_backed)

text \<open>
  C4. Mutual exclusion: however the acquisitions, renewals and releases of any number of processes
  interleave, with leases of any lengths, two different processes never may work under the same
  key at the same time, going by the answers each of them got.
\<close>

theorem lease_mutual_exclusion:
  assumes "lease_reachable s"
    and "sy_until s key h = Some t" "sy_now s < t"
    and "sy_until s key g = Some u" "sy_now s < u"
  shows "h = g"
  using lease_backedD [OF lease_reachable_backed [OF assms(1)] assms(2,3)]
    lease_backedD [OF lease_reachable_backed [OF assms(1)] assms(4,5)] by auto

text \<open>Process A takes the key at 0, B is refused at 1 second, and takes it over at 61.\<close>

definition take_lease :: "holder \<Rightarrow> instant \<Rightarrow> lease_system \<Rightarrow> lease_system" where
  "take_lease h now s =
     (case acquire_runtime_lease ''loop'' h 60 now (sy_table s) of
        (granted, table) \<Rightarrow> note_answer ''loop'' h (answer_until granted now 60) now table s)"

definition taken_over :: lease_system where
  "taken_over = take_lease ''B'' (61 * us_second) (take_lease ''B'' us_second (take_lease ''A'' 0
     \<lparr>sy_table = Map.empty, sy_until = \<lambda>key h. None, sy_now = 0\<rparr>))"

lemma take_lease_now [simp]: "sy_now (take_lease h now s) = now"
  by (simp add: take_lease_def note_answer_def split: prod.split)

lemma take_lease_reachable:
  "lease_reachable s \<Longrightarrow> sy_now s \<le> now \<Longrightarrow> lease_reachable (take_lease h now s)"
  unfolding take_lease_def by (auto split: prod.split intro: lease_reachable.step lease_step.acquire)

lemma taken_over_reachable: "lease_reachable taken_over"
  unfolding taken_over_def by (intro take_lease_reachable lease_reachable.start) (simp_all add: us_second_def)

lemma lease_mutual_exclusion_witness:
  "sy_until taken_over ''loop'' ''B'' = Some (121 * us_second)
    \<and> (\<nexists>g u. sy_until taken_over ''loop'' g = Some u \<and> sy_now taken_over < u \<and> g \<noteq> ''B'')"
proof -
  have b: "sy_until taken_over ''loop'' ''B'' = Some (121 * us_second)"
    "sy_now taken_over < 121 * us_second" by code_simp+
  then show ?thesis using lease_mutual_exclusion [OF taken_over_reachable _ _ b] by blast
qed

text \<open>
  No key stays locked: whatever happened before, a process that asks for the key at a time no
  other process may work under it, at or after the expiry in the table, is granted it, and a
  release by another process never takes a lease away.
\<close>

theorem lease_takeover:
  assumes "\<And>row. table key = Some row \<Longrightarrow> ls_expires row \<le> now"
  shows "fst (acquire_runtime_lease key h seconds now table)
    \<and> (0 < seconds \<longrightarrow> fst (renew_runtime_lease key h seconds now (snd (acquire_runtime_lease key h seconds now table))))
    \<and> (\<forall>g. g \<noteq> h \<longrightarrow> release_runtime_lease key g (snd (acquire_runtime_lease key h seconds now table)) key
        = snd (acquire_runtime_lease key h seconds now table) key)"
  using assms
  by (auto simp: acquire_runtime_lease_def renew_runtime_lease_def release_runtime_lease_def us_second_def
      split: option.splits)

lemma lease_takeover_witness:
  "fst (acquire_runtime_lease ''loop'' ''B'' 60 61 [''loop'' \<mapsto> new_lease ''A'' 0 61])
    \<and> fst (renew_runtime_lease ''loop'' ''B'' 60 61
        (snd (acquire_runtime_lease ''loop'' ''B'' 60 61 [''loop'' \<mapsto> new_lease ''A'' 0 61])))"
  using lease_takeover [of "[''loop'' \<mapsto> new_lease ''A'' 0 61]" "''loop''" 61 "''B''" 60] by simp

end
