(* ===== verification/SendGate.thy ===== *)
theory SendGate
  imports PyCells
begin

text \<open>
  \<open>feishu-relay/bridge/send_gate.py\<close>: admission, idempotency and audit trail of the outbound messages,
  and \<open>urgent_alerts.py\<close>, which sends through it. The SQLite table \<open>send_audit\<close> is the list of its
  rows in the order of their ids; \<open>time.time()\<close> is an argument of each call, and so is \<open>sha256\<close>
  (\<open>digest\<close>). The lock makes every method one step.
\<close>

section \<open>The gate\<close>

datatype send_result = SendPending | SendAccepted | SendFailed | SendUnknown

record audit_row =
  au_id :: nat
  au_key :: "string option"
  au_chat :: string
  au_hash :: string
  au_length :: nat
  au_root :: "string option"
  au_result :: send_result
  au_error :: "string option"
  au_created :: rat
  au_finished :: "rat option"

record send_gate =
  sg_rows :: "audit_row list"
  sg_next :: nat
  sg_per_chat :: int
  sg_per_hour :: int
  sg_ttl :: int

text \<open>The restart of the bridge: what was pending has an unknown outcome.\<close>

definition abandon :: "rat \<Rightarrow> audit_row \<Rightarrow> audit_row" where
  "abandon now r =
     (if au_result r = SendPending
      then r\<lparr>au_result := SendUnknown, au_error := Some ''bridge restarted mid-send'', au_finished := Some now\<rparr> else r)"

definition open_gate :: "int \<Rightarrow> int \<Rightarrow> int \<Rightarrow> audit_row list \<Rightarrow> nat \<Rightarrow> rat \<Rightarrow> send_gate" where
  "open_gate per_chat_per_min global_per_hour idempotency_ttl_seconds rows next_id now =
     \<lparr>sg_rows = map (abandon now) rows, sg_next = next_id, sg_per_chat = max 1 per_chat_per_min,
      sg_per_hour = max 1 global_per_hour, sg_ttl = max 60 idempotency_ttl_seconds\<rparr>"

definition counted :: "audit_row \<Rightarrow> bool" where
  "counted r = (au_result r \<in> {SendPending, SendAccepted, SendUnknown})"

text \<open>\<open>_count_locked\<close>: how many attempts count since a time, and the oldest of them.\<close>

definition in_scope :: "rat \<Rightarrow> string option \<Rightarrow> audit_row \<Rightarrow> bool" where
  "in_scope since chat r =
     (since \<le> au_created r \<and> counted r \<and> (case chat of None \<Rightarrow> True | Some c \<Rightarrow> au_chat r = c))"

definition count_since :: "rat \<Rightarrow> string option \<Rightarrow> audit_row list \<Rightarrow> nat" where
  "count_since since chat rows = length (filter (in_scope since chat) rows)"

definition oldest_since :: "rat \<Rightarrow> string option \<Rightarrow> audit_row list \<Rightarrow> rat option" where
  "oldest_since since chat rows =
     (case map au_created (filter (in_scope since chat) rows) of [] \<Rightarrow> None | t # ts \<Rightarrow> Some (fold min ts t))"

datatype gate_error = SendConflict | SendRateLimited string int

datatype gate_answer = Replay audit_row | Admitted nat

definition retry_after :: "rat option \<Rightarrow> rat \<Rightarrow> rat \<Rightarrow> int" where
  "retry_after oldest window now =
     (let start = (case oldest of None \<Rightarrow> now | Some t \<Rightarrow> if t = 0 then now else t)
      in max 1 (round_int RoundDown (fsub (fadd start window) now) + 1))"

definition none_if_empty :: "string option \<Rightarrow> string option" where
  "none_if_empty s = (if s = Some [] then None else s)"

definition prior_row :: "send_gate \<Rightarrow> string option \<Rightarrow> rat \<Rightarrow> audit_row option" where
  "prior_row g key now =
     (if none_if_empty key = None then None
      else py_next (\<lambda>r. au_key r = key \<and> fsub now (of_int (sg_ttl g)) \<le> au_created r) (rev (sg_rows g)))"

text \<open>What an earlier attempt under the same key decides; \<^const>\<open>None\<close> lets the send go on.\<close>

definition prior_verdict :: "audit_row \<Rightarrow> string \<Rightarrow> string \<Rightarrow> string option \<Rightarrow> (gate_error + gate_answer) option" where
  "prior_verdict prior chat text_hash root_id =
     (if au_chat prior \<noteq> chat \<or> au_hash prior \<noteq> text_hash \<or> none_if_empty (au_root prior) \<noteq> root_id
      then Some (Inl SendConflict)
      else case au_result prior of
        SendAccepted \<Rightarrow> Some (Inr (Replay prior))
      | SendUnknown \<Rightarrow> Some (Inr (Replay prior))
      | SendPending \<Rightarrow> Some (Inl SendConflict)
      | SendFailed \<Rightarrow> None)"

definition admit :: "(string \<Rightarrow> string) \<Rightarrow> send_gate \<Rightarrow> string \<Rightarrow> string \<Rightarrow> string option \<Rightarrow> string option \<Rightarrow> rat
    \<Rightarrow> (gate_error + gate_answer) \<times> send_gate" where
  "admit digest g chat text root_id key now =
     (let minute = fsub now 60; hour = fsub now 3600 in
      if sg_per_chat g \<le> int (count_since minute (Some chat) (sg_rows g))
      then (Inl (SendRateLimited ''chat'' (retry_after (oldest_since minute (Some chat) (sg_rows g)) 60 now)), g)
      else if sg_per_hour g \<le> int (count_since hour None (sg_rows g))
      then (Inl (SendRateLimited ''global'' (retry_after (oldest_since hour None (sg_rows g)) 3600 now)), g)
      else (Inr (Admitted (sg_next g)),
            g\<lparr>sg_rows := sg_rows g @ [\<lparr>au_id = sg_next g, au_key = none_if_empty key, au_chat = chat,
                au_hash = digest text, au_length = length text, au_root = root_id, au_result = SendPending,
                au_error = None, au_created = now, au_finished = None\<rparr>],
              sg_next := Suc (sg_next g)\<rparr>))"

definition gate_begin :: "(string \<Rightarrow> string) \<Rightarrow> send_gate \<Rightarrow> string \<Rightarrow> string \<Rightarrow> string option \<Rightarrow> string option \<Rightarrow> rat
    \<Rightarrow> (gate_error + gate_answer) \<times> send_gate" where
  "gate_begin digest g chat text root_id key now =
     (case Option.bind (prior_row g key now) (\<lambda>prior. prior_verdict prior chat (digest text) root_id) of
        Some verdict \<Rightarrow> (verdict, g)
      | None \<Rightarrow> admit digest g chat text root_id key now)"

definition settle_row :: "bool \<Rightarrow> string option \<Rightarrow> rat \<Rightarrow> audit_row \<Rightarrow> audit_row" where
  "settle_row ok error_text now r =
     r\<lparr>au_result := (if ok then SendAccepted else SendFailed),
       au_error := (if ok then None else Some (take 240 (str_or error_text []))), au_finished := Some now\<rparr>"

definition gate_finish :: "send_gate \<Rightarrow> nat \<Rightarrow> bool \<Rightarrow> string option \<Rightarrow> rat \<Rightarrow> send_gate" where
  "gate_finish g audit_id ok error_text now =
     g\<lparr>sg_rows := map (\<lambda>r. if au_id r = audit_id then settle_row ok error_text now r else r) (sg_rows g)\<rparr>"

definition gate_audit :: "send_gate \<Rightarrow> int \<Rightarrow> string option \<Rightarrow> audit_row list" where
  "gate_audit g limit chat =
     take (nat (max 1 (min limit 500)))
       (filter (\<lambda>r. case none_if_empty chat of None \<Rightarrow> True | Some c \<Rightarrow> au_chat r = c) (rev (sg_rows g)))"

record gate_stats =
  st_per_chat :: int
  st_per_hour :: int
  st_global_remaining :: int
  st_chat_remaining :: "(string \<times> int) list"
  st_failed_last_hour :: nat
  st_last_failure :: "audit_row option"

definition gate_stats_of :: "send_gate \<Rightarrow> string list \<Rightarrow> rat \<Rightarrow> gate_stats" where
  "gate_stats_of g chats now =
     \<lparr>st_per_chat = sg_per_chat g, st_per_hour = sg_per_hour g,
      st_global_remaining = max 0 (sg_per_hour g - int (count_since (fsub now 3600) None (sg_rows g))),
      st_chat_remaining = map (\<lambda>c. (c, max 0 (sg_per_chat g - int (count_since (fsub now 60) (Some c) (sg_rows g)))))
        (fromkeys chats),
      st_failed_last_hour = length (filter (\<lambda>r. au_result r = SendFailed \<and> fsub now 3600 \<le> au_created r) (sg_rows g)),
      st_last_failure = py_next (\<lambda>r. au_result r = SendFailed) (rev (sg_rows g))\<rparr>"

section \<open>Sending through the gate\<close>

text \<open>The steps of the bridge: every call asks first, an admitted send is finished once, when its
  outcome is known, and a restart may come at any time. The clock does not go back.\<close>

inductive gate_step :: "(string \<Rightarrow> string) \<Rightarrow> send_gate \<times> rat \<Rightarrow> send_gate \<times> rat \<Rightarrow> bool" for digest where
  ask: "t \<le> now \<Longrightarrow> gate_begin digest g chat text root_id key now = (answer, g') \<Longrightarrow> gate_step digest (g, t) (g', now)"
| finish: "t \<le> now \<Longrightarrow> r \<in> set (sg_rows g) \<Longrightarrow> au_id r = audit_id \<Longrightarrow> au_result r = SendPending
    \<Longrightarrow> gate_step digest (g, t) (gate_finish g audit_id ok error_text now, now)"
| restart: "t \<le> now
    \<Longrightarrow> gate_step digest (g, t) (open_gate (sg_per_chat g) (sg_per_hour g) (sg_ttl g) (sg_rows g) (sg_next g) now, now)"

inductive gate_reachable :: "(string \<Rightarrow> string) \<Rightarrow> send_gate \<times> rat \<Rightarrow> bool" for digest where
  start: "gate_reachable digest (open_gate per_chat per_hour ttl [] 1 t, t)"
| step: "gate_reachable digest s \<Longrightarrow> gate_step digest s s' \<Longrightarrow> gate_reachable digest s'"

text \<open>The attempts in the window that ends with an attempt, of its chat or of all chats.\<close>

definition window_count :: "rat \<Rightarrow> (audit_row \<Rightarrow> audit_row \<Rightarrow> bool) \<Rightarrow> audit_row \<Rightarrow> audit_row list \<Rightarrow> nat" where
  "window_count width same r rows =
     length (filter (\<lambda>x. counted x \<and> same r x \<and> fsub (au_created r) width \<le> au_created x \<and> au_created x \<le> au_created r) rows)"

definition same_chat :: "audit_row \<Rightarrow> audit_row \<Rightarrow> bool" where
  "same_chat r x = (au_chat x = au_chat r)"

definition any_chat :: "audit_row \<Rightarrow> audit_row \<Rightarrow> bool" where
  "any_chat r x = True"

definition windows_ok :: "rat \<Rightarrow> int \<Rightarrow> (audit_row \<Rightarrow> audit_row \<Rightarrow> bool) \<Rightarrow> audit_row list \<Rightarrow> bool" where
  "windows_ok width limit same rows = (\<forall>r \<in> set rows. int (window_count width same r rows) \<le> limit)"

text \<open>Of the attempts under one key within its lifetime, all but the newest failed.\<close>

definition keys_ok :: "rat \<Rightarrow> audit_row list \<Rightarrow> bool" where
  "keys_ok ttl rows =
     (\<forall>j < length rows. \<forall>i < j. au_key (rows ! i) = au_key (rows ! j) \<and> au_key (rows ! i) \<noteq> None
        \<and> fsub (au_created (rows ! j)) ttl \<le> au_created (rows ! i) \<longrightarrow> au_result (rows ! i) = SendFailed)"

definition gate_ok :: "send_gate \<times> rat \<Rightarrow> bool" where
  "gate_ok s =
     (case s of (g, t) \<Rightarrow>
        1 \<le> sg_per_chat g \<and> 1 \<le> sg_per_hour g \<and> 60 \<le> sg_ttl g
        \<and> distinct (map au_id (sg_rows g)) \<and> (\<forall>r \<in> set (sg_rows g). au_id r < sg_next g \<and> au_created r \<le> t)
        \<and> sorted (map au_created (sg_rows g))
        \<and> windows_ok 60 (sg_per_chat g) same_chat (sg_rows g)
        \<and> windows_ok 3600 (sg_per_hour g) any_chat (sg_rows g)
        \<and> keys_ok (of_int (sg_ttl g)) (sg_rows g))"

section \<open>The invariant of the gate\<close>

text \<open>What \<open>finish\<close> and a restart may do to a row: nothing that adds an attempt to a window or
  revives a failed one.\<close>

definition row_update :: "(audit_row \<Rightarrow> audit_row) \<Rightarrow> bool" where
  "row_update f =
     (\<forall>r. au_id (f r) = au_id r \<and> au_key (f r) = au_key r \<and> au_chat (f r) = au_chat r \<and> au_created (f r) = au_created r)"

definition row_decline :: "(audit_row \<Rightarrow> audit_row) \<Rightarrow> audit_row list \<Rightarrow> bool" where
  "row_decline f rows =
     (\<forall>r \<in> set rows. (counted (f r) \<longrightarrow> counted r) \<and> (au_result r = SendFailed \<longrightarrow> au_result (f r) = SendFailed))"

lemma window_count_map:
  assumes "row_update f" "row_decline f rows" "\<And>x. same (f r) (f x) = same r x"
  shows "window_count width same (f r) (map f rows) \<le> window_count width same r rows"
proof -
  have created: "au_created (f x) = au_created x" for x using assms(1) by (simp add: row_update_def)
  have "window_count width same (f r) (map f rows)
      = length (filter (\<lambda>x. counted (f x) \<and> same r x \<and> fsub (au_created r) width \<le> au_created x
          \<and> au_created x \<le> au_created r) rows)"
    by (simp add: window_count_def filter_map comp_def created assms(3))
  also have "\<dots> \<le> window_count width same r rows"
    using assms(2) unfolding window_count_def
    by (induction rows) (auto simp: row_decline_def)
  finally show ?thesis .
qed

lemma windows_ok_map:
  assumes "windows_ok width limit same rows" "row_update f" "row_decline f rows"
    and "\<And>r x. same (f r) (f x) = same r x"
  shows "windows_ok width limit same (map f rows)"
  unfolding windows_ok_def set_map
proof
  fix y assume "y \<in> f ` set rows"
  then obtain r where r: "r \<in> set rows" "y = f r" by blast
  show "int (window_count width same y (map f rows)) \<le> limit"
    using window_count_map [OF assms(2,3), of same r width] assms(1,4) r by (force simp: windows_ok_def)
qed

lemma keys_okD:
  assumes "keys_ok ttl rows" "i < j" "j < length rows" "au_key (rows ! i) = Some key" "au_key (rows ! j) = Some key"
    and "fsub (au_created (rows ! j)) ttl \<le> au_created (rows ! i)"
  shows "au_result (rows ! i) = SendFailed"
proof -
  have "au_key (rows ! i) = au_key (rows ! j)" "au_key (rows ! i) \<noteq> None" using assms(4,5) by simp_all
  then show ?thesis using assms(1,2,3,6) unfolding keys_ok_def by blast
qed

lemma keys_ok_map:
  assumes "keys_ok ttl rows" "row_update f" "row_decline f rows"
  shows "keys_ok ttl (map f rows)"
  unfolding keys_ok_def
proof (intro allI impI)
  fix j i assume ji: "j < length (map f rows)" "i < j"
    and a: "au_key (map f rows ! i) = au_key (map f rows ! j) \<and> au_key (map f rows ! i) \<noteq> None
      \<and> fsub (au_created (map f rows ! j)) ttl \<le> au_created (map f rows ! i)"
  then obtain key where "au_key (map f rows ! i) = Some key" by blast
  then have "au_result (rows ! i) = SendFailed"
    using a ji assms(2) keys_okD [OF assms(1) ji(2), of key] by (simp add: row_update_def)
  then show "au_result (map f rows ! i) = SendFailed" using assms(3) ji by (simp add: row_decline_def)
qed

lemma gate_ok_map:
  assumes "gate_ok (g, t)" "t \<le> now" "row_update f" "row_decline f (sg_rows g)"
  shows "gate_ok (g\<lparr>sg_rows := map f (sg_rows g)\<rparr>, now)"
proof -
  have f: "au_id (f r) = au_id r" "au_chat (f r) = au_chat r" "au_created (f r) = au_created r" for r
    using assms(3) by (simp_all add: row_update_def)
  have comp: "au_id \<circ> f = au_id" "au_created \<circ> f = au_created" by (auto simp: f)
  have "windows_ok 60 (sg_per_chat g) same_chat (map f (sg_rows g))"
    "windows_ok 3600 (sg_per_hour g) any_chat (map f (sg_rows g))"
    using assms by (auto intro!: windows_ok_map simp: gate_ok_def same_chat_def any_chat_def f)
  then show ?thesis
    using assms(1,2) keys_ok_map [OF _ assms(3,4), of "of_int (sg_ttl g)"] by (auto simp: gate_ok_def f comp)
qed

lemma fsub_mono: "x \<le> y \<Longrightarrow> fsub x w \<le> fsub y w"
  by (simp add: fsub_def flt.rnd_mono)

text \<open>An admitted attempt: the count of its window is what \<open>begin\<close> has counted, and one.\<close>

lemma windows_ok_add:
  assumes "windows_ok width limit same rows" "\<forall>x \<in> set rows. au_created x \<le> au_created n"
    and "int (length (filter (\<lambda>x. counted x \<and> same n x \<and> fsub (au_created n) width \<le> au_created x) rows)) < limit"
    and "\<And>r. r \<in> set rows \<Longrightarrow> same r n \<Longrightarrow> same r = same n" and "same n n"
  shows "windows_ok width limit same (rows @ [n])"
  unfolding windows_ok_def
proof
  have "filter (\<lambda>x. counted x \<and> same n x \<and> fsub (au_created n) width \<le> au_created x \<and> au_created x \<le> au_created n) rows
      = filter (\<lambda>x. counted x \<and> same n x \<and> fsub (au_created n) width \<le> au_created x) rows"
    using assms(2) by (auto intro: filter_cong)
  then have n: "int (window_count width same n (rows @ [n])) \<le> limit"
    using assms(3) by (simp add: window_count_def)
  fix r assume "r \<in> set (rows @ [n])"
  then consider "r = n" | "r \<in> set rows" by auto
  then show "int (window_count width same r (rows @ [n])) \<le> limit"
  proof cases
    case 2
    show ?thesis
    proof (cases "same r n \<and> au_created n \<le> au_created r")
      case True
      then have "same r = same n" "au_created r = au_created n" using assms(2,4) 2 by (auto intro: order_antisym)
      then have "window_count width same r (rows @ [n]) = window_count width same n (rows @ [n])"
        by (simp add: window_count_def)
      then show ?thesis using n by simp
    next
      case False
      then have "window_count width same r (rows @ [n]) = window_count width same r rows"
        by (auto simp: window_count_def)
      then show ?thesis using assms(1) 2 by (simp add: windows_ok_def)
    qed
  qed (use n in simp)
qed

lemma keys_ok_add:
  assumes "keys_ok ttl rows" "\<forall>x \<in> set rows. au_created x \<le> au_created n"
    and "\<And>prior. py_next (\<lambda>r. au_key r = au_key n \<and> fsub (au_created n) ttl \<le> au_created r) (rev rows) = Some prior
      \<Longrightarrow> au_key n \<noteq> None \<Longrightarrow> au_result prior = SendFailed"
  shows "keys_ok ttl (rows @ [n])"
  unfolding keys_ok_def
proof (intro allI impI)
  fix j i assume j: "j < length (rows @ [n])" "i < j"
    and a: "au_key ((rows @ [n]) ! i) = au_key ((rows @ [n]) ! j) \<and> au_key ((rows @ [n]) ! i) \<noteq> None
      \<and> fsub (au_created ((rows @ [n]) ! j)) ttl \<le> au_created ((rows @ [n]) ! i)"
  show "au_result ((rows @ [n]) ! i) = SendFailed"
  proof (cases "j < length rows")
    case True
    obtain key where "au_key ((rows @ [n]) ! i) = Some key" using a by blast
    then have "au_result (rows ! i) = SendFailed"
      by (intro keys_okD [OF assms(1) j(2) True, of key]) (insert a j True, simp_all add: nth_append)
    then show ?thesis using j True by (simp add: nth_append)
  next
    case False
    then have jn: "j = length rows" "i < length rows" using j by auto
    let ?p = "\<lambda>r. au_key r = au_key n \<and> fsub (au_created n) ttl \<le> au_created r"
    have eq: "(rows @ [n]) ! i = rows ! i" "(rows @ [n]) ! j = n" using jn by (simp_all add: nth_append)
    have i: "?p (rows ! i)" "au_key n \<noteq> None" using a unfolding eq by metis+
    then have "\<exists>r \<in> set (rev rows). ?p r" using jn by auto
    then obtain prior where prior: "py_next ?p (rev rows) = Some prior"
      by (cases "py_next ?p (rev rows)") (auto simp: py_next_def find_None_iff)
    then obtain k where k: "k < length rows" "prior = rev rows ! k" "?p prior" "\<forall>m < k. \<not> ?p (rev rows ! m)"
      by (auto simp: py_next_def find_Some_iff)
    define q where "q = length rows - Suc k"
    have q: "prior = rows ! q" "q < length rows" using k by (simp_all add: q_def rev_nth)
    have le: "i \<le> q"
    proof (rule ccontr)
      assume "\<not> i \<le> q"
      then have "length rows - Suc i < k" using jn k by (simp add: q_def)
      moreover have "rev rows ! (length rows - Suc i) = rows ! i" using jn by (simp add: rev_nth)
      ultimately show False using k(4) i(1) by metis
    qed
    show ?thesis
    proof (cases "i = q")
      case True
      then show ?thesis using assms(3) [OF prior i(2)] q(1) jn by (simp add: nth_append)
    next
      case False
      have "au_created (rows ! q) \<le> au_created n" using assms(2) q(2) by simp
      then have "fsub (au_created (rows ! q)) ttl \<le> au_created (rows ! i)"
        using i(1) fsub_mono [of "au_created (rows ! q)" "au_created n" ttl] by auto
      moreover obtain key where "au_key n = Some key" using i(2) by blast
      moreover have "au_key (rows ! i) = au_key n" "au_key (rows ! q) = au_key n" using i(1) k(3) q(1) by simp_all
      ultimately have "au_result (rows ! i) = SendFailed"
        using keys_okD [OF assms(1) _ q(2), of i key] False le by simp
      then show ?thesis using jn by (simp add: nth_append)
    qed
  qed
qed

lemma gate_begin_ok:
  assumes ok: "gate_ok (g, t)" and "t \<le> now" and b: "gate_begin digest g chat text root_id key now = (answer, g')"
  shows "gate_ok (g', now)"
proof (cases "g' = g")
  case True
  then show ?thesis using ok assms(2) by (auto simp: gate_ok_def)
next
  case False
  then have adm: "admit digest g chat text root_id key now = (answer, g')"
    and verdict: "Option.bind (prior_row g key now) (\<lambda>prior. prior_verdict prior chat (digest text) root_id) = None"
    using b by (auto simp: gate_begin_def split: option.splits)
  define n where "n = \<lparr>au_id = sg_next g, au_key = none_if_empty key, au_chat = chat, au_hash = digest text,
      au_length = length text, au_root = root_id, au_result = SendPending, au_error = None, au_created = now, au_finished = None\<rparr>"
  have n: "au_id n = sg_next g" "au_key n = none_if_empty key" "au_chat n = chat" "au_created n = now"
    by (simp_all add: n_def)
  have g': "g' = g\<lparr>sg_rows := sg_rows g @ [n], sg_next := Suc (sg_next g)\<rparr>"
    and room: "int (count_since (fsub now 60) (Some chat) (sg_rows g)) < sg_per_chat g"
      "int (count_since (fsub now 3600) None (sg_rows g)) < sg_per_hour g"
    using adm False by (auto simp: admit_def Let_def n_def split: if_splits)
  have le: "\<forall>x \<in> set (sg_rows g). au_created x \<le> au_created n" using ok assms(2) by (auto simp: gate_ok_def n)
  have "windows_ok 60 (sg_per_chat g) same_chat (sg_rows g @ [n])"
  proof (rule windows_ok_add [OF _ le])
    have "filter (\<lambda>x. counted x \<and> same_chat n x \<and> fsub (au_created n) 60 \<le> au_created x) (sg_rows g)
        = filter (in_scope (fsub now 60) (Some chat)) (sg_rows g)"
      by (rule filter_cong) (auto simp: in_scope_def same_chat_def n)
    then show "int (length (filter (\<lambda>x. counted x \<and> same_chat n x \<and> fsub (au_created n) 60 \<le> au_created x) (sg_rows g)))
        < sg_per_chat g" using room(1) by (simp add: count_since_def)
  qed (use ok in \<open>auto simp: gate_ok_def same_chat_def\<close>)
  moreover have "windows_ok 3600 (sg_per_hour g) any_chat (sg_rows g @ [n])"
  proof (rule windows_ok_add [OF _ le])
    have "filter (\<lambda>x. counted x \<and> any_chat n x \<and> fsub (au_created n) 3600 \<le> au_created x) (sg_rows g)
        = filter (in_scope (fsub now 3600) None) (sg_rows g)"
      by (rule filter_cong) (auto simp: in_scope_def any_chat_def n)
    then show "int (length (filter (\<lambda>x. counted x \<and> any_chat n x \<and> fsub (au_created n) 3600 \<le> au_created x) (sg_rows g)))
        < sg_per_hour g" using room(2) by (simp add: count_since_def)
  qed (use ok in \<open>auto simp: gate_ok_def any_chat_def\<close>)
  moreover have "keys_ok (of_int (sg_ttl g)) (sg_rows g @ [n])"
  proof (rule keys_ok_add [OF _ le])
    fix prior
    assume p: "py_next (\<lambda>r. au_key r = au_key n \<and> fsub (au_created n) (of_int (sg_ttl g)) \<le> au_created r) (rev (sg_rows g))
        = Some prior" and "au_key n \<noteq> None"
    then have "none_if_empty key = key" "none_if_empty key \<noteq> None" by (auto simp: n none_if_empty_def split: if_splits)
    then have "prior_row g key now = Some prior" using p by (simp add: prior_row_def n)
    then show "au_result prior = SendFailed"
      using verdict by (auto simp: prior_verdict_def split: if_splits send_result.splits)
  qed (use ok in \<open>simp add: gate_ok_def\<close>)
  moreover have "sorted (map au_created (sg_rows g @ [n]))"
    using ok le by (auto simp: gate_ok_def sorted_append)
  moreover have "distinct (map au_id (sg_rows g @ [n]))" using ok by (auto simp: gate_ok_def n)
  moreover have "\<forall>r \<in> set (sg_rows g @ [n]). au_id r < Suc (sg_next g) \<and> au_created r \<le> now"
    using ok assms(2) by (auto simp: gate_ok_def n less_Suc_eq)
  ultimately show ?thesis using ok by (simp add: gate_ok_def g')
qed

lemma gate_step_ok: "gate_step digest s s' \<Longrightarrow> gate_ok s \<Longrightarrow> gate_ok s'"
proof (induction rule: gate_step.induct)
  case (ask t now g chat message root_id key answer g')
  then show ?case using gate_begin_ok by blast
next
  case (finish t now r g audit_id ok error_text)
  let ?f = "\<lambda>r. if au_id r = audit_id then settle_row ok error_text now r else r"
  have "row_update ?f" by (simp add: row_update_def settle_row_def)
  moreover have "row_decline ?f (sg_rows g)"
    unfolding row_decline_def
  proof
    fix x assume x: "x \<in> set (sg_rows g)"
    show "(counted (?f x) \<longrightarrow> counted x) \<and> (au_result x = SendFailed \<longrightarrow> au_result (?f x) = SendFailed)"
    proof (cases "au_id x = audit_id")
      case True
      have "inj_on au_id (set (sg_rows g))" using finish.prems by (simp add: gate_ok_def distinct_map)
      then have "x = r" using x finish.hyps(2,3) True by (auto dest: inj_onD)
      then show ?thesis using finish.hyps(4) by (simp add: counted_def)
    qed simp
  qed
  ultimately show ?case
    unfolding gate_finish_def by (rule gate_ok_map [OF finish.prems finish.hyps(1)])
next
  case (restart t now g)
  have "row_update (abandon now)" "row_decline (abandon now) (sg_rows g)"
    by (auto simp: row_update_def row_decline_def abandon_def counted_def)
  moreover have "open_gate (sg_per_chat g) (sg_per_hour g) (sg_ttl g) (sg_rows g) (sg_next g) now
      = g\<lparr>sg_rows := map (abandon now) (sg_rows g)\<rparr>"
    using restart.prems by (simp add: open_gate_def gate_ok_def)
  ultimately show ?case using gate_ok_map [OF restart.prems restart.hyps] by simp
qed

lemma gate_reachable_ok: "gate_reachable digest s \<Longrightarrow> gate_ok s"
proof (induction rule: gate_reachable.induct)
  case (start per_chat per_hour ttl t)
  show ?case by (simp add: gate_ok_def open_gate_def windows_ok_def keys_ok_def)
qed (rule gate_step_ok)

text \<open>
  C32. The account is not flooded: in every table the bridge can build, whatever is asked, however
  sends end and whenever it restarts, the minute before any attempt, that attempt included, holds
  at most the limit of attempts of its chat that did not fail, and the hour before it at most the
  global limit.
\<close>

theorem send_windows:
  assumes "gate_reachable digest (g, t)" and "r \<in> set (sg_rows g)"
  shows "int (length (filter (\<lambda>x. au_result x \<noteq> SendFailed \<and> au_chat x = au_chat r
        \<and> fsub (au_created r) 60 \<le> au_created x \<and> au_created x \<le> au_created r) (sg_rows g))) \<le> sg_per_chat g
    \<and> int (length (filter (\<lambda>x. au_result x \<noteq> SendFailed
        \<and> fsub (au_created r) 3600 \<le> au_created x \<and> au_created x \<le> au_created r) (sg_rows g))) \<le> sg_per_hour g"
proof -
  have counted: "counted x \<longleftrightarrow> au_result x \<noteq> SendFailed" for x by (cases "au_result x") (simp_all add: counted_def)
  show ?thesis
    using gate_reachable_ok [OF assms(1)] assms(2)
    by (simp add: gate_ok_def windows_ok_def window_count_def counted same_chat_def any_chat_def)
qed

text \<open>
  C10. A request under an idempotency key goes out at most once: of two attempts under one key
  within the key's lifetime, the earlier one has failed, so at most one of all of them is pending,
  accepted or of unknown outcome.
\<close>

theorem send_once_per_key:
  assumes "gate_reachable digest (g, t)" and "i < j" "j < length (sg_rows g)"
    and "au_key (sg_rows g ! i) = Some key" "au_key (sg_rows g ! j) = Some key"
    and "fsub (au_created (sg_rows g ! j)) (of_int (sg_ttl g)) \<le> au_created (sg_rows g ! i)"
  shows "au_result (sg_rows g ! i) = SendFailed"
proof -
  have "keys_ok (of_int (sg_ttl g)) (sg_rows g)" using gate_reachable_ok [OF assms(1)] by (simp add: gate_ok_def)
  from keys_okD [OF this assms(2-6)] show ?thesis .
qed

text \<open>A table for the examples: two texts of one chat, the first has failed.\<close>

definition example_gate :: send_gate where
  "example_gate = snd (gate_begin (\<lambda>s. s) (gate_finish (snd (gate_begin (\<lambda>s. s) (open_gate 2 5 60 [] 1 0)
     ''c'' ''x'' None (Some ''k'') 0)) 1 False None 1) ''c'' ''x'' None (Some ''k'') 2)"

lemma example_gate_rows:
  "map (\<lambda>r. (au_id r, au_key r, au_result r, au_created r)) (sg_rows example_gate)
     = [(1, Some ''k'', SendFailed, 0), (2, Some ''k'', SendPending, 2)]"
  "sg_per_chat example_gate = 2" "sg_per_hour example_gate = 5" "sg_ttl example_gate = 60"
  by code_simp+

lemma example_gate_reachable: "gate_reachable (\<lambda>s. s) (example_gate, 2)"
proof -
  let ?d = "\<lambda>s. s :: string"
  let ?g = "snd (gate_begin ?d (open_gate 2 5 60 [] 1 0) ''c'' ''x'' None (Some ''k'') 0)"
  have "gate_reachable ?d (open_gate 2 5 60 [] 1 0, 0)" by (rule gate_reachable.start)
  then have "gate_reachable ?d (?g, 0)"
    by (rule gate_reachable.step) (rule gate_step.ask [where t = 0], simp, rule prod.collapse [symmetric])
  moreover have "map au_id (sg_rows ?g) = [1]" "map au_result (sg_rows ?g) = [SendPending]" by code_simp+
  then obtain r where "r \<in> set (sg_rows ?g)" "au_id r = 1" "au_result r = SendPending" by (cases "sg_rows ?g") auto
  then have "gate_step ?d (?g, 0) (gate_finish ?g 1 False None 1, 1)" by (intro gate_step.finish) simp_all
  ultimately have "gate_reachable ?d (gate_finish ?g 1 False None 1, 1)" by (rule gate_reachable.step)
  then show ?thesis
    unfolding example_gate_def
    by (rule gate_reachable.step) (rule gate_step.ask [where t = 1], simp, rule prod.collapse [symmetric])
qed

lemma send_windows_witness:
  "list_all (\<lambda>r. int (length (filter (\<lambda>x. au_result x \<noteq> SendFailed \<and> au_chat x = au_chat r
      \<and> fsub (au_created r) 60 \<le> au_created x \<and> au_created x \<le> au_created r) (sg_rows example_gate)))
    \<le> sg_per_chat example_gate) (sg_rows example_gate)"
  unfolding list_all_iff using send_windows [OF example_gate_reachable] by blast

lemma send_once_per_key_witness: "au_result (sg_rows example_gate ! 0) = SendFailed"
proof (rule send_once_per_key [OF example_gate_reachable, of 0 1])
qed (code_simp+)

end
