(* ===== verification/UrgentAlerts.thy ===== *)
theory UrgentAlerts
  imports SendGate
begin

text \<open>
  \<open>feishu-relay/bridge/urgent_alerts.py\<close>: a short text to the other member of a chat of two, marked
  urgent, at most six an hour, sent through the gate. What the gateway's client answers to one call
  is a record of its answers; \<open>str(error)\<close> of an error is an argument (\<open>shown\<close>).
\<close>

section \<open>Recipients\<close>

definition URGENT_WINDOW_SECONDS :: rat where "URGENT_WINDOW_SECONDS = 3600"
definition URGENT_LIMIT :: nat where "URGENT_LIMIT = 6"

definition other_member :: "string list \<Rightarrow> string \<Rightarrow> string \<Rightarrow> bool" where
  "other_member member_ids account_id user_id =
     (length (fromkeys member_ids) = 2 \<and> account_id \<in> set member_ids \<and> user_id \<in> set member_ids \<and> user_id \<noteq> account_id)"

record chat_info =
  ci_user_count :: "int option"
  ci_name :: "string option"

record chat_group =
  cg_chat_id :: string
  cg_name :: "string option"

record recipient =
  rc_chat_id :: string
  rc_name :: string
  rc_user_id :: string

definition recipient_of ::
    "(string \<rightharpoonup> chat_info) \<Rightarrow> (string \<Rightarrow> string list) \<Rightarrow> string \<Rightarrow> chat_group \<Rightarrow> recipient option" where
  "recipient_of chat_infos member_ids account_id grp =
     (let chat_id = cg_chat_id grp;
          info = (case chat_infos chat_id of None \<Rightarrow> \<lparr>ci_user_count = None, ci_name = None\<rparr> | Some i \<Rightarrow> i);
          members = fromkeys (member_ids chat_id)
      in if (case ci_user_count info of None \<Rightarrow> 0 | Some n \<Rightarrow> n) \<noteq> 2 then None
         else if length members \<noteq> 2 \<or> account_id \<notin> set members then None
         else map_option (\<lambda>user_id. \<lparr>rc_chat_id = chat_id,
             rc_name = str_or (ci_name info) (str_or (cg_name grp) []), rc_user_id = user_id\<rparr>)
           (py_next (\<lambda>m. m \<noteq> account_id) members))"

definition recipient_groups ::
    "(string \<rightharpoonup> chat_info) \<Rightarrow> (string \<Rightarrow> string list) \<Rightarrow> string \<Rightarrow> chat_group list \<Rightarrow> recipient list" where
  "recipient_groups chat_infos member_ids account_id groups =
     List.map_filter (recipient_of chat_infos member_ids account_id) groups"

section \<open>The hourly limit\<close>

definition check_hourly_limit :: "rat list \<Rightarrow> rat \<Rightarrow> gate_error + rat list" where
  "check_hourly_limit timestamps now =
     (let active = filter (\<lambda>t. fsub now URGENT_WINDOW_SECONDS < t) timestamps in
      if URGENT_LIMIT \<le> length active
      then Inl (SendRateLimited ''urgent''
        (max 1 (round_int RoundDown (fsub (fadd (fold min (tl active) (hd active)) URGENT_WINDOW_SECONDS) now) + 1)))
      else Inr (active @ [now]))"

definition release_urgent_slot :: "rat list \<Rightarrow> rat \<Rightarrow> rat list res" where
  "release_urgent_slot timestamps t = (if t \<in> set timestamps then Inr (remove1 t timestamps) else Inl ValueError)"

section \<open>The gateway's answers\<close>

datatype urgent_error =
    MissingArgument | BadLength | NotAPrivateChat | UrgentGate gate_error | GatewayRefused
  | NoUniqueMessage | NoMessageId | ClientError string | BridgeError py_error

record sent_message =
  sm_from_id :: "string option"
  sm_fromId :: "string option"
  sm_content :: "string option"
  sm_msg_id :: "string option"
  sm_message_id :: "string option"
  sm_id :: "string option"

definition pick_sent_message :: "sent_message list \<Rightarrow> string \<Rightarrow> string \<Rightarrow> urgent_error + string" where
  "pick_sent_message messages account_id text =
     (case filter (\<lambda>m. str_or (if sm_from_id m = None then sm_fromId m else sm_from_id m) [] = account_id
         \<and> str_or (sm_content m) [] = text) messages of
        [m] \<Rightarrow> Inr (str_or (sm_msg_id m) (str_or (sm_message_id m) (str_or (sm_id m) [])))
      | _ \<Rightarrow> Inl NoUniqueMessage)"

text \<open>The pages of a chat's members: the next cursor 0 or unchanged ends the loop. Cursors that go
  round never do, which is \<^const>\<open>None\<close>.\<close>

partial_function (option) pull_member_ids ::
    "(int \<Rightarrow> urgent_error + (string list \<times> int)) \<Rightarrow> int \<Rightarrow> string list \<Rightarrow> (urgent_error + string list) option" where
  [code]: "pull_member_ids pages cursor result =
     (case pages cursor of
        Inl e \<Rightarrow> Some (Inl e)
      | Inr (ids, next_cursor) \<Rightarrow>
          if next_cursor = 0 \<or> next_cursor = cursor then Some (Inr (result @ ids))
          else pull_member_ids pages next_cursor (result @ ids))"

record urgent_client =
  uc_pages :: "int \<Rightarrow> urgent_error + (string list \<times> int)"
  uc_before :: "urgent_error + int"
  uc_post :: "urgent_error + int"
  uc_after :: "urgent_error + int"
  uc_history :: "int list \<Rightarrow> urgent_error + sent_message list"
  uc_urgent :: "string \<Rightarrow> urgent_error + unit"

definition checked_send_response :: "int \<Rightarrow> urgent_error + int" where
  "checked_send_response payload_type = (if payload_type \<noteq> 1 then Inl GatewayRefused else Inr payload_type)"

definition send_message_id :: "urgent_client \<Rightarrow> string \<Rightarrow> string \<Rightarrow> int \<Rightarrow> urgent_error + string" where
  "send_message_id client account_id text before_position =
     bindR (uc_after client) (\<lambda>after_position.
       bindR (uc_history client [before_position + 1..after_position]) (\<lambda>messages.
         pick_sent_message messages account_id text))"

text \<open>The body of the \<open>try\<close> after the admission.\<close>

definition deliver :: "urgent_client \<Rightarrow> string \<Rightarrow> string \<Rightarrow> urgent_error + string" where
  "deliver client account_id text =
     bindR (uc_before client) (\<lambda>before_position.
     bindR (bindR (uc_post client) checked_send_response) (\<lambda>_.
     bindR (send_message_id client account_id text before_position) (\<lambda>message_id.
       if message_id = [] then Inl NoMessageId
       else bindR (uc_urgent client message_id) (\<lambda>_. Inr message_id))))"

section \<open>The send\<close>

record bridge =
  br_gate :: send_gate
  br_urgent :: "rat list"

record urgent_call =
  ug_chat :: string
  ug_user :: string
  ug_text :: string
  ug_client :: urgent_client
  ug_reserved :: rat
  ug_begun :: rat
  ug_finished :: rat

text \<open>The \<open>except\<close> branch: the slot is given back, and an admitted attempt is recorded as failed.\<close>

definition urgent_failed ::
    "(urgent_error \<Rightarrow> string) \<Rightarrow> urgent_error \<Rightarrow> nat option \<Rightarrow> rat \<Rightarrow> rat \<Rightarrow> bridge \<Rightarrow> (urgent_error + string) \<times> bridge" where
  "urgent_failed shown e audit_id reserved finished b =
     (case release_urgent_slot (br_urgent b) reserved of
        Inl r \<Rightarrow> (Inl (BridgeError r), b)
      | Inr remaining \<Rightarrow>
          (Inl e, b\<lparr>br_urgent := remaining,
             br_gate := (case audit_id of None \<Rightarrow> br_gate b
               | Some i \<Rightarrow> gate_finish (br_gate b) i False (Some (shown e)) finished)\<rparr>))"

definition urgent_admitted ::
    "(urgent_error \<Rightarrow> string) \<Rightarrow> string \<Rightarrow> urgent_call \<Rightarrow> nat \<Rightarrow> bridge \<Rightarrow> (urgent_error + string) \<times> bridge" where
  "urgent_admitted shown account_id call audit_id b =
     (case deliver (ug_client call) account_id (ug_text call) of
        Inl e \<Rightarrow> urgent_failed shown e (Some audit_id) (ug_reserved call) (ug_finished call) b
      | Inr message_id \<Rightarrow> (Inr message_id, b\<lparr>br_gate := gate_finish (br_gate b) audit_id True None (ug_finished call)\<rparr>))"

definition send_urgent ::
    "(string \<Rightarrow> string) \<Rightarrow> (urgent_error \<Rightarrow> string) \<Rightarrow> string \<Rightarrow> urgent_call \<Rightarrow> bridge \<Rightarrow> ((urgent_error + string) \<times> bridge) option" where
  "send_urgent digest shown account_id call b =
     (let chat_id = py_strip (ug_chat call); user_id = py_strip (ug_user call); text = ug_text call in
      if chat_id = [] \<or> user_id = [] then Some (Inl MissingArgument, b)
      else if text = [] \<or> 500 < length text then Some (Inl BadLength, b)
      else case pull_member_ids (uc_pages (ug_client call)) 0 [] of
        None \<Rightarrow> None
      | Some (Inl e) \<Rightarrow> Some (Inl e, b)
      | Some (Inr members) \<Rightarrow>
          if \<not> other_member members account_id user_id then Some (Inl NotAPrivateChat, b)
          else case check_hourly_limit (br_urgent b) (ug_reserved call) of
            Inl e \<Rightarrow> Some (Inl (UrgentGate e), b)
          | Inr active \<Rightarrow>
              (case gate_begin digest (br_gate b) chat_id text None None (ug_begun call) of
                 (Inl e, g) \<Rightarrow> Some (urgent_failed shown (UrgentGate e) None (ug_reserved call) (ug_finished call)
                   (b\<lparr>br_gate := g, br_urgent := active\<rparr>))
               | (Inr (Replay row), g) \<Rightarrow> Some (urgent_failed shown (BridgeError KeyError) None (ug_reserved call)
                   (ug_finished call) (b\<lparr>br_gate := g, br_urgent := active\<rparr>))
               | (Inr (Admitted audit_id), g) \<Rightarrow>
                   Some (urgent_admitted shown account_id call audit_id (b\<lparr>br_gate := g, br_urgent := active\<rparr>))))"

text \<open>Calls one after the other, with their answers.\<close>

fun urgent_run ::
    "(string \<Rightarrow> string) \<Rightarrow> (urgent_error \<Rightarrow> string) \<Rightarrow> string \<Rightarrow> urgent_call list \<Rightarrow> bridge
      \<Rightarrow> ((rat \<times> (urgent_error + string)) list \<times> bridge) option" where
  "urgent_run digest shown account_id [] b = Some ([], b)"
| "urgent_run digest shown account_id (call # calls) b =
     (case send_urgent digest shown account_id call b of
        None \<Rightarrow> None
      | Some (answer, b') \<Rightarrow>
          (case urgent_run digest shown account_id calls b' of
             None \<Rightarrow> None
           | Some (answers, b'') \<Rightarrow> Some ((ug_reserved call, answer) # answers, b'')))"

text \<open>The times of the calls that succeeded.\<close>

definition urgent_sent :: "(rat \<times> (urgent_error + string)) list \<Rightarrow> rat list" where
  "urgent_sent answers = map fst (filter (\<lambda>(t, answer). case answer of Inr m \<Rightarrow> True | Inl e \<Rightarrow> False) answers)"

section \<open>At most six an hour\<close>

lemma release_after_reserve:
  "\<exists>left. release_urgent_slot (active @ [t]) t = Inr left \<and> mset left = mset active"
  by (simp add: release_urgent_slot_def)

text \<open>What one call leaves of the admissions: it may prune old ones, and adds its own when it succeeds.\<close>

lemma send_urgent_slots:
  assumes "send_urgent digest shown account_id call b = Some (answer, b')"
  defines "active \<equiv> filter (\<lambda>t. fsub (ug_reserved call) URGENT_WINDOW_SECONDS < t) (br_urgent b)"
  shows "case answer of
      Inr m \<Rightarrow> length active < URGENT_LIMIT \<and> br_urgent b' = active @ [ug_reserved call]
    | Inl e \<Rightarrow> br_urgent b' = br_urgent b \<or> mset (br_urgent b') = mset active"
proof -
  have check: "check_hourly_limit (br_urgent b) (ug_reserved call)
      = (if URGENT_LIMIT \<le> length active then Inl (SendRateLimited ''urgent''
          (max 1 (round_int RoundDown (fsub (fadd (fold min (tl active) (hd active)) URGENT_WINDOW_SECONDS) (ug_reserved call)) + 1)))
         else Inr (active @ [ug_reserved call]))"
    by (simp add: check_hourly_limit_def active_def Let_def)
  obtain left where left: "release_urgent_slot (active @ [ug_reserved call]) (ug_reserved call) = Inr left" "mset left = mset active"
    using release_after_reserve by blast
  show ?thesis
    using assms(1) left
    by (auto simp: send_urgent_def Let_def check urgent_failed_def urgent_admitted_def
        split: if_splits option.splits sum.splits prod.splits gate_answer.splits)
qed

definition within_hour :: "rat list \<Rightarrow> bool" where
  "within_hour sent =
     (\<forall>i < length sent. length (filter (\<lambda>x. fsub (sent ! i) URGENT_WINDOW_SECONDS < x) (take (Suc i) sent)) \<le> URGENT_LIMIT)"

lemma within_hourD:
  "within_hour sent \<Longrightarrow> i < length sent
    \<Longrightarrow> length (filter (\<lambda>x. fsub (sent ! i) URGENT_WINDOW_SECONDS < x) (take (Suc i) sent)) \<le> URGENT_LIMIT"
  unfolding within_hour_def by blast

lemma within_hour_snoc:
  assumes "within_hour sent" "length (filter (\<lambda>x. fsub t URGENT_WINDOW_SECONDS < x) sent) < URGENT_LIMIT"
  shows "within_hour (sent @ [t])"
  unfolding within_hour_def
proof (intro allI impI)
  fix i assume "i < length (sent @ [t])"
  then consider "i < length sent" | "i = length sent" by fastforce
  then show "length (filter (\<lambda>x. fsub ((sent @ [t]) ! i) URGENT_WINDOW_SECONDS < x) (take (Suc i) (sent @ [t]))) \<le> URGENT_LIMIT"
  proof cases
    case 1
    then show ?thesis using within_hourD [OF assms(1) 1] by (simp add: nth_append)
  next
    case 2
    then show ?thesis using assms(2) by simp
  qed
qed

lemma urgent_run_within:
  assumes "urgent_run digest shown account_id calls b = Some (answers, b')"
    and "sorted (t # map ug_reserved calls)" "within_hour sent" "c \<le> fsub t URGENT_WINDOW_SECONDS"
    and "mset (filter (\<lambda>x. c < x) sent) \<subseteq># mset (br_urgent b)"
  shows "within_hour (sent @ urgent_sent answers)"
  using assms
proof (induction calls arbitrary: b answers t c sent)
  case Nil
  then show ?case by (simp add: urgent_sent_def)
next
  case (Cons call calls)
  obtain answer b1 rest where send: "send_urgent digest shown account_id call b = Some (answer, b1)"
    and run: "urgent_run digest shown account_id calls b1 = Some (rest, b')" and ans: "answers = (ug_reserved call, answer) # rest"
    using Cons.prems(1) by (auto split: option.splits)
  define now where "now = ug_reserved call"
  define cut where "cut = fsub now URGENT_WINDOW_SECONDS"
  have "t \<le> now" and sorted: "sorted (now # map ug_reserved calls)" using Cons.prems(2) by (auto simp: now_def)
  then have c: "c \<le> cut" using Cons.prems(4) fsub_mono [of t now URGENT_WINDOW_SECONDS] by (simp add: cut_def)
  define active where "active = filter (\<lambda>x. cut < x) (br_urgent b)"
  have active: "mset (filter (\<lambda>x. cut < x) sent) \<subseteq># mset active"
  proof -
    have "mset (filter (\<lambda>x. cut < x) sent) = filter_mset (\<lambda>x. cut < x) (mset (filter (\<lambda>x. c < x) sent))"
      using c by (auto simp: mset_filter filter_filter_mset intro!: filter_mset_cong)
    also have "\<dots> \<subseteq># filter_mset (\<lambda>x. cut < x) (mset (br_urgent b))"
      by (rule multiset_filter_mono [OF Cons.prems(5)])
    finally show ?thesis by (simp add: active_def mset_filter)
  qed
  note slots = send_urgent_slots [OF send, folded now_def, folded cut_def, folded active_def]
  show ?case
  proof (cases answer)
    case (Inl e)
    have "\<exists>c'. c' \<le> cut \<and> mset (filter (\<lambda>x. c' < x) sent) \<subseteq># mset (br_urgent b1)"
      using slots Inl active c Cons.prems(5) by auto
    then have "within_hour (sent @ urgent_sent rest)"
      using Cons.IH [OF run sorted Cons.prems(3)] by (auto simp: cut_def)
    then show ?thesis by (simp add: ans Inl urgent_sent_def)
  next
    case (Inr m)
    have room: "length (filter (\<lambda>x. cut < x) sent) < URGENT_LIMIT"
      using slots Inr size_mset_mono [OF active] by (simp del: mset_filter)
    have "mset (filter (\<lambda>x. cut < x) (sent @ [now])) \<subseteq># mset (br_urgent b1)"
      using slots Inr active mset_subset_eq_add_left [of "mset active" "{#now#}"]
      by (auto intro: subset_mset.order_trans)
    then have "within_hour ((sent @ [now]) @ urgent_sent rest)"
      using Cons.IH [OF run sorted within_hour_snoc [OF Cons.prems(3)]] room by (auto simp: cut_def)
    then show ?thesis by (simp add: ans Inr urgent_sent_def now_def)
  qed
qed


text \<open>
  Urgent sends are limited over any hour: whatever the calls ask, with whatever answers of the
  gateway, among the calls that succeeded at most six fall in the hour that ends with one of them.
\<close>

theorem urgent_hour_limit:
  assumes "urgent_run digest shown account_id calls b = Some (answers, b')"
    and "sorted (map ug_reserved calls)" "i < length (urgent_sent answers)"
  shows "length (filter (\<lambda>x. fsub (urgent_sent answers ! i) 3600 < x) (take (Suc i) (urgent_sent answers))) \<le> 6"
proof (cases calls)
  case Nil
  then show ?thesis using assms(1,3) by (simp add: urgent_sent_def)
next
  case (Cons call rest)
  have "within_hour ([] @ urgent_sent answers)"
    by (rule urgent_run_within [OF assms(1), of "ug_reserved call" "[]" "fsub (ug_reserved call) URGENT_WINDOW_SECONDS"])
      (use assms(2) Cons in \<open>simp_all add: within_hour_def\<close>)
  from within_hourD [OF this, of i] show ?thesis
    using assms(3) by (simp add: URGENT_WINDOW_SECONDS_def URGENT_LIMIT_def)
qed

section \<open>Refused after the message went out\<close>

text \<open>A call whose text the gateway has accepted and delivered, and whose urgent mark it refuses.\<close>

definition refused_after_post :: "string \<Rightarrow> string \<Rightarrow> urgent_call \<Rightarrow> bool" where
  "refused_after_post account_id reason call =
     (py_strip (ug_chat call) \<noteq> [] \<and> py_strip (ug_user call) \<noteq> [] \<and> ug_text call \<noteq> [] \<and> length (ug_text call) \<le> 500
      \<and> (\<exists>members. pull_member_ids (uc_pages (ug_client call)) 0 [] = Some (Inr members)
          \<and> other_member members account_id (py_strip (ug_user call)))
      \<and> uc_post (ug_client call) = Inr 1 \<and> deliver (ug_client call) account_id (ug_text call) = Inl (ClientError reason))"

definition idle_bridge :: "bridge \<Rightarrow> bool" where
  "idle_bridge b =
     (br_urgent b = [] \<and> 1 \<le> sg_per_chat (br_gate b) \<and> 1 \<le> sg_per_hour (br_gate b)
      \<and> (\<forall>r \<in> set (sg_rows (br_gate b)). au_result r = SendFailed \<and> au_id r < sg_next (br_gate b)))"

lemma count_since_failed: "\<forall>r \<in> set rows. au_result r = SendFailed \<Longrightarrow> count_since since chat rows = 0"
  by (auto simp: count_since_def in_scope_def counted_def filter_empty_conv)

lemma refused_call_idle:
  assumes "refused_after_post account_id reason call" "idle_bridge b"
  shows "\<exists>b'. send_urgent digest shown account_id call b = Some (Inl (ClientError reason), b') \<and> idle_bridge b'"
proof -
  obtain members where call: "py_strip (ug_chat call) \<noteq> []" "py_strip (ug_user call) \<noteq> []" "ug_text call \<noteq> []"
      "\<not> 500 < length (ug_text call)" "pull_member_ids (uc_pages (ug_client call)) 0 [] = Some (Inr members)"
      "other_member members account_id (py_strip (ug_user call))"
      "deliver (ug_client call) account_id (ug_text call) = Inl (ClientError reason)"
    using assms(1) by (auto simp: refused_after_post_def)
  have none: "count_since since chat (sg_rows (br_gate b)) = 0" for since chat
    using assms(2) by (auto simp: idle_bridge_def intro: count_since_failed)
  define row where "row = \<lparr>au_id = sg_next (br_gate b), au_key = None, au_chat = py_strip (ug_chat call),
      au_hash = digest (ug_text call), au_length = length (ug_text call), au_root = None, au_result = SendPending,
      au_error = None, au_created = ug_begun call, au_finished = None\<rparr>"
  have row: "au_id row = sg_next (br_gate b)"
      "gate_begin digest (br_gate b) (py_strip (ug_chat call)) (ug_text call) None None (ug_begun call)
        = (Inr (Admitted (sg_next (br_gate b))), (br_gate b)\<lparr>sg_rows := sg_rows (br_gate b) @ [row],
            sg_next := Suc (sg_next (br_gate b))\<rparr>)"
    using assms(2) by (simp_all add: gate_begin_def prior_row_def none_if_empty_def admit_def none idle_bridge_def row_def)
  have "check_hourly_limit (br_urgent b) (ug_reserved call) = Inr [ug_reserved call]"
    using assms(2) by (simp add: check_hourly_limit_def idle_bridge_def URGENT_LIMIT_def)
  then have "send_urgent digest shown account_id call b = Some (Inl (ClientError reason),
      b\<lparr>br_urgent := [], br_gate := gate_finish ((br_gate b)\<lparr>sg_rows := sg_rows (br_gate b) @ [row],
         sg_next := Suc (sg_next (br_gate b))\<rparr>) (sg_next (br_gate b)) False (Some (shown (ClientError reason))) (ug_finished call)\<rparr>)"
    by (simp add: send_urgent_def Let_def call row(2) urgent_admitted_def urgent_failed_def release_urgent_slot_def)
  then show ?thesis
    using assms(2) row(1) by (auto simp: idle_bridge_def gate_finish_def settle_row_def less_Suc_eq)
qed

text \<open>
  Texts that went out are not counted when their urgent mark fails. When the gateway delivers
  each text and refuses each mark, the slots and the attempts are given back, so any number of
  calls, at any times, all put their text in the chat: no call is ever limited, and afterwards no
  window holds an attempt.
\<close>

theorem urgent_refusals_uncounted:
  assumes "\<forall>call \<in> set calls. refused_after_post account_id reason call" and "idle_bridge b"
  shows "\<exists>b'. urgent_run digest shown account_id calls b
        = Some (map (\<lambda>call. (ug_reserved call, Inl (ClientError reason))) calls, b')
      \<and> (\<forall>since chat. count_since since chat (sg_rows (br_gate b')) = 0)"
proof -
  have "\<exists>b'. urgent_run digest shown account_id calls b
        = Some (map (\<lambda>call. (ug_reserved call, Inl (ClientError reason))) calls, b') \<and> idle_bridge b'"
    using assms
  proof (induction calls arbitrary: b)
    case (Cons call calls)
    obtain b1 where "send_urgent digest shown account_id call b = Some (Inl (ClientError reason), b1)" "idle_bridge b1"
      using refused_call_idle Cons.prems by (metis list.set_intros(1))
    then show ?case using Cons.IH [of b1] Cons.prems(1) by auto
  qed simp
  then show ?thesis by (auto simp: idle_bridge_def intro: count_since_failed)
qed

text \<open>Examples: a chat of two, whose gateway sends and then marks or refuses.\<close>

definition example_client :: "bool \<Rightarrow> urgent_client" where
  "example_client marks =
     \<lparr>uc_pages = \<lambda>cursor. Inr ([''me'', ''you''], 0), uc_before = Inr 4, uc_post = Inr 1, uc_after = Inr 5,
      uc_history = \<lambda>positions. Inr [\<lparr>sm_from_id = Some ''me'', sm_fromId = None, sm_content = Some ''hi'',
        sm_msg_id = Some ''m1'', sm_message_id = None, sm_id = None\<rparr>],
      uc_urgent = \<lambda>m. if marks then Inr () else Inl (ClientError ''no'')\<rparr>"

definition example_call :: "bool \<Rightarrow> rat \<Rightarrow> urgent_call" where
  "example_call marks t =
     \<lparr>ug_chat = ''c'', ug_user = ''you'', ug_text = ''hi'', ug_client = example_client marks,
      ug_reserved = t, ug_begun = t, ug_finished = t\<rparr>"

definition example_bridge :: bridge where
  "example_bridge = \<lparr>br_gate = open_gate 6 120 86400 [] 1 0, br_urgent = []\<rparr>"

lemma example_members: "pull_member_ids (uc_pages (ug_client (example_call marks t))) 0 [] = Some (Inr [''me'', ''you''])"
  by (subst pull_member_ids.simps) (simp add: example_call_def example_client_def)

lemma example_delivery:
  "deliver (ug_client (example_call marks t)) ''me'' (ug_text (example_call marks t))
     = (if marks then Inr ''m1'' else Inl (ClientError ''no''))"
  by (simp add: deliver_def example_call_def example_client_def checked_send_response_def send_message_id_def
      pick_sent_message_def str_or_def)

lemma urgent_hour_limit_witness:
  "\<exists>answers b'. urgent_run (\<lambda>s. s) (\<lambda>e. []) ''me'' [example_call True 10, example_call True 20] example_bridge
      = Some (answers, b') \<and> urgent_sent answers = [10, 20]
     \<and> length (filter (\<lambda>x. fsub (urgent_sent answers ! 1) 3600 < x) (take (Suc 1) (urgent_sent answers))) \<le> 6"
proof -
  let ?run = "urgent_run (\<lambda>s. s) (\<lambda>e. []) ''me'' [example_call True 10, example_call True 20] example_bridge"
  have "map_option (urgent_sent \<circ> fst) ?run = Some [10, 20]" by code_simp
  then obtain answers b' where run: "?run = Some (answers, b')" "urgent_sent answers = [10, 20]" by auto
  have "length (filter (\<lambda>x. fsub (urgent_sent answers ! 1) 3600 < x) (take (Suc 1) (urgent_sent answers))) \<le> 6"
    by (rule urgent_hour_limit [OF run(1)]) (simp_all add: example_call_def run(2))
  with run show ?thesis by blast
qed

lemma urgent_refusals_uncounted_witness:
  "\<exists>b'. urgent_run (\<lambda>s. s) (\<lambda>e. []) ''me'' (replicate 1000 (example_call False 10)) example_bridge
      = Some (map (\<lambda>call. (ug_reserved call, Inl (ClientError ''no''))) (replicate 1000 (example_call False 10)), b')
    \<and> (\<forall>since chat. count_since since chat (sg_rows (br_gate b')) = 0)"
proof (rule urgent_refusals_uncounted)
  have "refused_after_post ''me'' ''no'' (example_call False 10)"
    using example_members [of False 10] example_delivery [of False 10]
    by (simp add: refused_after_post_def example_call_def example_client_def other_member_def py_strip_def is_space_def)
  then show "\<forall>call \<in> set (replicate 1000 (example_call False 10)). refused_after_post ''me'' ''no'' call" by auto
  show "idle_bridge example_bridge" by (simp add: idle_bridge_def example_bridge_def open_gate_def)
qed

end
