(* ===== verification/PaperLedger.thy ===== *)
theory PaperLedger
  imports PaperPlan AshareReality
begin

text \<open>
  \<open>quant-service/app/paper_execution_service.py\<close> and \<open>paper_order_bridge.py\<close>, with the wrappers and
  the insertion of a decision from \<open>paper_execution.py\<close>: the paper ledger and the placing of a plan's
  orders on it. The tables are a record; a table whose order matters is a list. The ids that the
  database or \<open>uuid4\<close> draws are the numbers of a counter. The wall clock \<open>cn_today\<close> reads is an
  argument (\<open>clock\<close>). Evidence, flags and metadata, which nothing here reads back, are left out.
  The constraints are those of the tables' migrations.
\<close>

section \<open>The tables\<close>

datatype side = Buy | Sell

definition side_text :: "side \<Rightarrow> string" where
  "side_text s = (case s of Buy \<Rightarrow> ''buy'' | Sell \<Rightarrow> ''sell'')"

record captured_quote =
  cq_symbol :: string
  cq_source :: string
  cq_observed :: instant
  cq_price :: "rat option"
  cq_pct_change :: "rat option"
  cq_raw :: "quote_data option"

record account =
  ac_initial :: rat
  ac_cash :: rat

record position =
  ps_quantity :: int
  ps_sellable :: int
  ps_cost :: rat
  ps_buy_date :: "date option"
  ps_realized :: rat

record signal_event =
  ev_id :: nat
  ev_symbol :: string
  ev_key :: string
  ev_type :: string
  ev_observed :: instant

record paper_decision =
  dc_id :: nat
  dc_event :: nat
  dc_strategy :: string
  dc_version :: string
  dc_symbol :: string
  dc_direction :: int
  dc_status :: string
  dc_at :: instant
  dc_target_quantity :: int
  dc_target_weight :: rat

record paper_order =
  od_id :: nat
  od_decision :: nat
  od_symbol :: string
  od_side :: side
  od_requested :: int
  od_filled :: int
  od_limit_price :: "rat option"
  od_fill_price :: "rat option"
  od_status :: string
  od_fees :: rat
  od_slippage :: rat
  od_submitted :: instant
  od_filled_at :: "instant option"
  od_reasons :: "string list"

record paper_fill =
  fl_order :: nat
  fl_decision :: nat
  fl_symbol :: string
  fl_side :: side
  fl_quantity :: int
  fl_price :: rat
  fl_fees :: rat
  fl_slippage :: rat
  fl_at :: instant
  fl_source :: string
  fl_quote_at :: instant

record ledger =
  ld_instruments :: "string list"
  ld_quotes :: "captured_quote list"
  ld_accounts :: "string \<rightharpoonup> account"
  ld_positions :: "string \<rightharpoonup> position"
  ld_events :: "signal_event list"
  ld_decisions :: "paper_decision list"
  ld_orders :: "paper_order list"
  ld_fills :: "paper_fill list"
  ld_next :: nat

text \<open>What a call raises: an exception of the Python code, or one of the database, which aborts the
  transaction.\<close>

datatype ledger_error = LedgerValue | LedgerType | LedgerRuntime | ForeignKeyViolation | CheckViolation | InFailedTransaction

definition db_error :: "ledger_error \<Rightarrow> bool" where
  "db_error e = (e \<in> {ForeignKeyViolation, CheckViolation, InFailedTransaction})"

section \<open>Accounts and the T+1 roll\<close>

definition configure_paper_account :: "string \<Rightarrow> rat \<Rightarrow> ledger \<Rightarrow> (ledger_error + account) \<times> ledger" where
  "configure_paper_account account_key initial_cash l =
     (if initial_cash < 0 then (Inl LedgerValue, l)
      else if ld_accounts l account_key \<noteq> None \<and> ld_fills l \<noteq> [] then (Inl LedgerValue, l)
      else let row = \<lparr>ac_initial = initial_cash, ac_cash = initial_cash\<rparr> in
        (Inr row, l\<lparr>ld_accounts := (ld_accounts l)(account_key \<mapsto> row)\<rparr>))"

definition roll_position :: "date \<Rightarrow> position \<Rightarrow> position" where
  "roll_position trading_date p =
     (if ps_sellable p < ps_quantity p \<and> (case ps_buy_date p of None \<Rightarrow> False | Some d \<Rightarrow> d < trading_date)
      then p\<lparr>ps_sellable := ps_quantity p\<rparr> else p)"

definition roll_paper_positions_sellable :: "date \<Rightarrow> ledger \<Rightarrow> ledger" where
  "roll_paper_positions_sellable trading_date l =
     l\<lparr>ld_positions := map_option (roll_position trading_date) \<circ> ld_positions l\<rparr>"

section \<open>Acceptance\<close>

definition MAX_FILL_QUOTE_AGE_SECONDS :: int where "MAX_FILL_QUOTE_AGE_SECONDS = 300"

definition FILL_SOURCES :: "string list" where
  "FILL_SOURCES = [''tencent_free'', ''tushare_super_get_rt_k'']"

definition later_quote :: "captured_quote \<Rightarrow> captured_quote option \<Rightarrow> captured_quote option" where
  "later_quote q best = (case best of None \<Rightarrow> Some q | Some b \<Rightarrow> if cq_observed b < cq_observed q then Some q else best)"

definition latest_local_quote :: "captured_quote list \<Rightarrow> string \<Rightarrow> instant \<Rightarrow> captured_quote option" where
  "latest_local_quote quotes symbol at_or_before =
     fold later_quote
       (filter (\<lambda>q. cq_symbol q = symbol \<and> cq_observed q \<le> at_or_before \<and> cq_source q \<in> set FILL_SOURCES) quotes) None"

definition field_of :: "'v option \<Rightarrow> 'v field" where
  "field_of v = (case v of None \<Rightarrow> Null | Some x \<Rightarrow> Val x)"

text \<open>\<open>{**raw, **quote}\<close>: the raw payload, and the dict that the gate reads, in which the captured
  price and change hide the raw ones.\<close>

definition raw_part :: "captured_quote \<Rightarrow> quote_data" where
  "raw_part q = (case cq_raw q of None \<Rightarrow> empty_quote | Some r \<Rightarrow> r)"

definition gate_quote :: "captured_quote \<Rightarrow> quote_data" where
  "gate_quote q = (raw_part q)\<lparr>q_price := field_of (map_option flt (cq_price q)),
     q_pct_change := field_of (map_option flt (cq_pct_change q))\<rparr>"

definition round_lot :: "int \<Rightarrow> int res" where
  "round_lot quantity = round_board_lot (of_int quantity) LOT_SIZE"

definition paper_tradability ::
    "side \<Rightarrow> int \<Rightarrow> captured_quote option \<Rightarrow> int \<Rightarrow> string \<Rightarrow> instant \<Rightarrow> bool \<times> string list" where
  "paper_tradability side requested quote sellable symbol clock =
     (case quote of
        None \<Rightarrow> assess_tradability (Some (side_text side)) requested empty_quote empty_quote sellable (Some symbol) clock
      | Some q \<Rightarrow> assess_tradability (Some (side_text side)) requested (raw_part q) (gate_quote q) sellable (Some symbol) clock)"

definition estimate_cost :: "side \<Rightarrow> int \<Rightarrow> rat \<Rightarrow> trade_cost" where
  "estimate_cost side quantity price =
     estimate_trade_cost (side_text side) quantity price DEFAULT_COMMISSION_RATE DEFAULT_STAMP_TAX_RATE
       DEFAULT_SLIPPAGE_BPS DEFAULT_TRANSFER_FEE_RATE"

definition quote_number :: "captured_quote option \<Rightarrow> rat" where
  "quote_number quote = (case Option.bind quote cq_price of None \<Rightarrow> 0 | Some p \<Rightarrow> p)"

definition fill_fees :: "side \<Rightarrow> int \<Rightarrow> captured_quote option \<Rightarrow> rat" where
  "fill_fees side requested quote =
     (if 0 < quote_number quote then total_cost (estimate_cost side requested (quote_number quote)) else 0)"

definition fill_slippage :: "side \<Rightarrow> int \<Rightarrow> captured_quote option \<Rightarrow> rat" where
  "fill_slippage side requested quote =
     (if 0 < quote_number quote then slippage (estimate_cost side requested (quote_number quote)) else 0)"

definition fill_gross :: "int \<Rightarrow> captured_quote option \<Rightarrow> rat" where
  "fill_gross requested quote = dmul (quote_number quote) (of_int requested)"

text \<open>The reasons against a fill. A purchase without an account gets as far as reading its cash.\<close>

definition quote_reasons ::
    "side \<Rightarrow> int \<Rightarrow> captured_quote option \<Rightarrow> instant \<Rightarrow> account option \<Rightarrow> ledger_error + string list" where
  "quote_reasons side requested quote accepted_at acct =
     (case quote of
        None \<Rightarrow> Inr [''no_usable_local_quote'']
      | Some q \<Rightarrow>
          if quote_number quote \<le> 0 then Inr [''no_usable_local_quote'']
          else if MAX_FILL_QUOTE_AGE_SECONDS * us_second < accepted_at - cq_observed q then Inr [''local_quote_stale'']
          else if side = Buy
            then (case acct of
                None \<Rightarrow> Inl LedgerType
              | Some a \<Rightarrow> Inr (if ac_cash a < dadd (fill_gross requested quote) (fill_fees side requested quote)
                  then [''insufficient_paper_cash''] else []))
          else Inr [])"

definition fill_reasons ::
    "side \<Rightarrow> int \<Rightarrow> captured_quote option \<Rightarrow> int \<Rightarrow> string \<Rightarrow> instant \<Rightarrow> account option \<Rightarrow> instant \<Rightarrow> ledger_error + string list" where
  "fill_reasons side requested quote sellable symbol accepted_at acct clock =
     bindR (quote_reasons side requested quote accepted_at acct) (\<lambda>rs.
       Inr (snd (paper_tradability side requested quote sellable symbol clock)
         @ (if acct = None then [''paper_account_not_configured''] else []) @ rs))"

definition no_position :: position where
  "no_position = \<lparr>ps_quantity = 0, ps_sellable = 0, ps_cost = 0, ps_buy_date = None, ps_realized = 0\<rparr>"

definition held_position :: "ledger \<Rightarrow> string \<Rightarrow> position" where
  "held_position l symbol = (case ld_positions l symbol of None \<Rightarrow> no_position | Some p \<Rightarrow> p)"

definition set_status :: "nat \<Rightarrow> string \<Rightarrow> paper_decision list \<Rightarrow> paper_decision list" where
  "set_status decision_id status ds = map (\<lambda>d. if dc_id d = decision_id then d\<lparr>dc_status := status\<rparr> else d) ds"

datatype accept_result = NonFill nat "string list" | Filled nat int rat rat string

definition new_order ::
    "ledger \<Rightarrow> paper_decision \<Rightarrow> side \<Rightarrow> int \<Rightarrow> captured_quote option \<Rightarrow> string list \<Rightarrow> instant \<Rightarrow> paper_order" where
  "new_order l d side requested quote reasons accepted_at =
     (let allowed = (reasons = []); price = quote_number quote in
      \<lparr>od_id = ld_next l, od_decision = dc_id d, od_symbol = dc_symbol d, od_side = side, od_requested = requested,
       od_filled = (if allowed then requested else 0), od_limit_price = (if 0 < price then Some price else None),
       od_fill_price = (if allowed then Some price else None),
       od_status = (if allowed then ''filled'' else ''non_fill''),
       od_fees = (if allowed then fill_fees side requested quote else 0),
       od_slippage = fill_slippage side requested quote, od_submitted = accepted_at,
       od_filled_at = (if allowed then Some accepted_at else None), od_reasons = reasons\<rparr>)"

definition add_order :: "paper_order \<Rightarrow> ledger \<Rightarrow> ledger" where
  "add_order od l = l\<lparr>ld_orders := ld_orders l @ [od], ld_next := Suc (ld_next l)\<rparr>"

definition new_fill :: "paper_order \<Rightarrow> captured_quote \<Rightarrow> instant \<Rightarrow> paper_fill" where
  "new_fill od q accepted_at =
     \<lparr>fl_order = od_id od, fl_decision = od_decision od, fl_symbol = od_symbol od, fl_side = od_side od,
      fl_quantity = od_requested od, fl_price = quote_number (Some q), fl_fees = od_fees od,
      fl_slippage = od_slippage od, fl_at = accepted_at, fl_source = cq_source q, fl_quote_at = cq_observed q\<rparr>"

text \<open>The upsert of a purchase: \<open>sellable_quantity\<close> is 0 in a new row and is left alone in an old one.\<close>

definition bought_position :: "position option \<Rightarrow> int \<Rightarrow> rat \<Rightarrow> rat \<Rightarrow> instant \<Rightarrow> position" where
  "bought_position old requested gross fees accepted_at =
     (let p = (case old of None \<Rightarrow> no_position | Some p \<Rightarrow> p);
          total_qty = ps_quantity p + requested;
          average = dec (dadd (dadd (dmul (of_int (ps_quantity p)) (ps_cost p)) gross) fees / of_int total_qty)
      in p\<lparr>ps_quantity := total_qty, ps_cost := average, ps_buy_date := Some (local_date accepted_at)\<rparr>)"

definition sold_position :: "position \<Rightarrow> int \<Rightarrow> rat \<Rightarrow> rat \<Rightarrow> position" where
  "sold_position p requested price fees =
     p\<lparr>ps_quantity := ps_quantity p - requested, ps_sellable := ps_sellable p - requested,
       ps_realized := ps_realized p + dsub (dmul (dsub price (ps_cost p)) (of_int requested)) fees\<rparr>"

definition fill_order ::
    "paper_decision \<Rightarrow> side \<Rightarrow> int \<Rightarrow> captured_quote \<Rightarrow> instant \<Rightarrow> string \<Rightarrow> account \<Rightarrow> ledger
      \<Rightarrow> (ledger_error + accept_result) \<times> ledger" where
  "fill_order d side requested q accepted_at account_key acct l =
     (let od = new_order l d side requested (Some q) [] accepted_at;
          l1 = (add_order od l)\<lparr>ld_fills := ld_fills l @ [new_fill od q accepted_at]\<rparr>;
          symbol = dc_symbol d; p = held_position l symbol;
          price = quote_number (Some q); gross = fill_gross requested (Some q); fees = od_fees od;
          cash = (case side of Buy \<Rightarrow> ac_cash acct - dadd gross fees | Sell \<Rightarrow> ac_cash acct + dsub gross fees);
          p' = (case side of Buy \<Rightarrow> bought_position (ld_positions l symbol) requested gross fees accepted_at
                 | Sell \<Rightarrow> sold_position p requested price fees)
      in if side = Sell \<and> ps_sellable p < requested then (Inl LedgerRuntime, l1)
         else if cash < 0 then (Inl CheckViolation, l1)
         else (Inr (Filled (od_id od) requested price fees (cq_source q)),
               l1\<lparr>ld_positions := (ld_positions l)(symbol \<mapsto> p'),
                  ld_accounts := (ld_accounts l)(account_key \<mapsto> acct\<lparr>ac_cash := cash\<rparr>),
                  ld_decisions := set_status (dc_id d) ''accepted'' (ld_decisions l)\<rparr>))"

definition decision_side :: "int \<Rightarrow> side option" where
  "decision_side direction = (if 0 < direction then Some Buy else if direction < 0 then Some Sell else None)"

definition accept_proposed ::
    "paper_decision \<Rightarrow> side \<Rightarrow> int \<Rightarrow> instant \<Rightarrow> string \<Rightarrow> instant \<Rightarrow> ledger \<Rightarrow> (ledger_error + accept_result) \<times> ledger" where
  "accept_proposed d side requested accepted_at account_key clock l =
     (let quote = latest_local_quote (ld_quotes l) (dc_symbol d) accepted_at;
          acct = ld_accounts l account_key
      in case fill_reasons side requested quote (ps_sellable (held_position l (dc_symbol d))) (dc_symbol d)
                accepted_at acct clock of
           Inl e \<Rightarrow> (Inl e, l)
         | Inr reasons \<Rightarrow>
             (case (reasons, quote, acct) of
                ([], Some q, Some a) \<Rightarrow> fill_order d side requested q accepted_at account_key a l
              | _ \<Rightarrow> (Inr (NonFill (ld_next l) reasons),
                  (add_order (new_order l d side requested quote reasons accepted_at) l)
                    \<lparr>ld_decisions := set_status (dc_id d) ''blocked'' (ld_decisions l)\<rparr>)))"

definition accept_paper_decision ::
    "instant \<Rightarrow> nat \<Rightarrow> int \<Rightarrow> instant \<Rightarrow> string \<Rightarrow> ledger \<Rightarrow> (ledger_error + accept_result) \<times> ledger" where
  "accept_paper_decision clock decision_id quantity accepted_at account_key l =
     (case py_next (\<lambda>d. dc_id d = decision_id) (ld_decisions l) of
        None \<Rightarrow> (Inl LedgerValue, l)
      | Some d \<Rightarrow>
          if dc_status d \<noteq> ''proposed'' then (Inl LedgerValue, l)
          else (case (decision_side (dc_direction d), round_lot quantity) of
              (Some side, Inr requested) \<Rightarrow>
                if requested \<le> 0 then (Inl LedgerValue, l)
                else accept_proposed d side requested accepted_at account_key clock l
            | _ \<Rightarrow> (Inl LedgerValue, l)))"

section \<open>Placing the orders of a plan\<close>

record ledger_request =
  rq_symbol :: string
  rq_side :: side
  rq_strategy :: "string option"
  rq_quantity :: int
  rq_fraction :: rat

definition of_sell :: "sell_order \<Rightarrow> ledger_request" where
  "of_sell s = \<lparr>rq_symbol = so_symbol s, rq_side = Sell, rq_strategy = so_strategy_key s, rq_quantity = so_quantity s, rq_fraction = 0\<rparr>"

definition of_buy :: "buy_order \<Rightarrow> ledger_request" where
  "of_buy b = \<lparr>rq_symbol = bo_symbol b, rq_side = Buy, rq_strategy = Some (it_strategy_key (bo_intent b)),
     rq_quantity = bo_quantity b, rq_fraction = it_entry_fraction (bo_intent b)\<rparr>"

definition signal_key :: "ledger_request \<Rightarrow> string" where
  "signal_key r = rq_symbol r @ '':'' @ str_or (rq_strategy r) ''unknown'' @ '':'' @ side_text (rq_side r)"

definition persist_signal_event :: "ledger_request \<Rightarrow> instant \<Rightarrow> ledger \<Rightarrow> (ledger_error + nat) \<times> ledger" where
  "persist_signal_event r observed_at l =
     (if rq_symbol r \<notin> set (ld_instruments l) then (Inl ForeignKeyViolation, l)
      else (Inr (ld_next l),
            l\<lparr>ld_events := ld_events l @ [\<lparr>ev_id = ld_next l, ev_symbol = rq_symbol r, ev_key = signal_key r,
                ev_type = (if rq_side r = Buy then ''entry'' else ''exit''), ev_observed = observed_at\<rparr>],
              ld_next := Suc (ld_next l)\<rparr>))"

record payload =
  py_strategy :: string
  py_version :: string
  py_symbol :: string
  py_direction :: int
  py_status :: string
  py_at :: instant
  py_target_quantity :: int
  py_target_weight :: rat

definition decision_payload :: "ledger_request \<Rightarrow> instant \<Rightarrow> payload" where
  "decision_payload r observed_at =
     \<lparr>py_strategy = str_or (rq_strategy r) ''unknown'', py_version = ''paper-auto-execution-v1'',
      py_symbol = rq_symbol r, py_direction = (if rq_side r = Buy then 1 else - 1), py_status = ''proposed'',
      py_at = observed_at, py_target_quantity = rq_quantity r, py_target_weight = rq_fraction r\<rparr>"

definition same_decision :: "nat \<Rightarrow> string \<Rightarrow> string \<Rightarrow> paper_decision \<Rightarrow> bool" where
  "same_decision event_id strategy version d = (dc_event d = event_id \<and> dc_strategy d = strategy \<and> dc_version d = version)"

definition persist_paper_decision :: "nat \<Rightarrow> payload \<Rightarrow> ledger \<Rightarrow> (ledger_error + bool) \<times> ledger" where
  "persist_paper_decision event_id p l =
     (if py_symbol p \<notin> set (ld_instruments l) \<or> event_id \<notin> set (map ev_id (ld_events l)) then (Inl ForeignKeyViolation, l)
      else if py_target_quantity p < 0 \<or> py_target_weight p < 0 \<or> 1 < py_target_weight p then (Inl CheckViolation, l)
      else if list_ex (same_decision event_id (py_strategy p) (py_version p)) (ld_decisions l) then (Inr False, l)
      else (Inr True,
            l\<lparr>ld_decisions := ld_decisions l @ [\<lparr>dc_id = ld_next l, dc_event = event_id, dc_strategy = py_strategy p,
                dc_version = py_version p, dc_symbol = py_symbol p, dc_direction = py_direction p, dc_status = py_status p,
                dc_at = py_at p, dc_target_quantity = py_target_quantity p, dc_target_weight = py_target_weight p\<rparr>],
              ld_next := Suc (ld_next l)\<rparr>))"

text \<open>A connection inside a transaction: an error of the database aborts it, then every statement is
  refused, and the commit at its end is a rollback.\<close>

record conn =
  cn_ledger :: ledger
  cn_aborted :: bool

definition on_connection :: "(ledger \<Rightarrow> (ledger_error + 'a) \<times> ledger) \<Rightarrow> conn \<Rightarrow> (ledger_error + 'a) \<times> conn" where
  "on_connection f c =
     (if cn_aborted c then (Inl InFailedTransaction, c)
      else case f (cn_ledger c) of
        (Inl e, l) \<Rightarrow> (Inl e, \<lparr>cn_ledger = l, cn_aborted = db_error e\<rparr>)
      | (Inr x, l) \<Rightarrow> (Inr x, \<lparr>cn_ledger = l, cn_aborted = False\<rparr>))"

definition in_transaction :: "(conn \<Rightarrow> 'a \<times> conn) \<Rightarrow> ledger \<Rightarrow> 'a \<times> ledger" where
  "in_transaction f l =
     (case f \<lparr>cn_ledger = l, cn_aborted = False\<rparr> of (x, c) \<Rightarrow> (x, if cn_aborted c then l else cn_ledger c))"

datatype placed = Duplicate | NotStored | Submitted accept_result | PlaceFailed ledger_error

type_synonym persist_fn = "nat \<Rightarrow> payload \<Rightarrow> ledger \<Rightarrow> (ledger_error + bool) \<times> ledger"
type_synonym accept_fn = "nat \<Rightarrow> int \<Rightarrow> instant \<Rightarrow> string \<Rightarrow> ledger \<Rightarrow> (ledger_error + accept_result) \<times> ledger"

text \<open>The query for the stored decision.\<close>

definition stored_decision :: "nat \<Rightarrow> payload \<Rightarrow> ledger \<Rightarrow> (ledger_error + nat option) \<times> ledger" where
  "stored_decision event_id p l =
     (Inr (map_option dc_id (py_next (same_decision event_id (py_strategy p) (py_version p)) (ld_decisions l))), l)"

text \<open>A step that raises ends the placing of its order: \<open>execute_plan\<close> notes the failure and goes on.\<close>

definition or_failed :: "(ledger_error + 'a) \<times> conn \<Rightarrow> ('a \<Rightarrow> conn \<Rightarrow> placed \<times> conn) \<Rightarrow> placed \<times> conn" where
  "or_failed m k = (case m of (Inl e, c) \<Rightarrow> (PlaceFailed e, c) | (Inr x, c) \<Rightarrow> k x c)"

definition place_order ::
    "persist_fn \<Rightarrow> accept_fn \<Rightarrow> instant \<Rightarrow> string \<Rightarrow> ledger_request \<Rightarrow> conn \<Rightarrow> placed \<times> conn" where
  "place_order persist accept observed_at account_key r c =
     (let p = decision_payload r observed_at in
      or_failed (on_connection (persist_signal_event r observed_at) c) (\<lambda>event_id c1.
      or_failed (on_connection (persist event_id p) c1) (\<lambda>stored c2.
      if \<not> stored then (Duplicate, c2)
      else or_failed (on_connection (stored_decision event_id p) c2) (\<lambda>row c3.
      case row of
        None \<Rightarrow> (NotStored, c3)
      | Some decision_id \<Rightarrow>
          or_failed (on_connection (accept decision_id (rq_quantity r) observed_at account_key) c3)
            (\<lambda>result c4. (Submitted result, c4))))))"

fun place_orders ::
    "persist_fn \<Rightarrow> accept_fn \<Rightarrow> instant \<Rightarrow> string \<Rightarrow> ledger_request list \<Rightarrow> conn \<Rightarrow> placed list \<times> conn" where
  "place_orders persist accept observed_at account_key [] c = ([], c)"
| "place_orders persist accept observed_at account_key (r # rs) c =
     (case place_order persist accept observed_at account_key r c of (answer, c1) \<Rightarrow>
      case place_orders persist accept observed_at account_key rs c1 of (answers, c2) \<Rightarrow> (answer # answers, c2))"

definition plan_requests :: "plan \<Rightarrow> ledger_request list" where
  "plan_requests pl = map of_sell (pl_sells pl) @ map of_buy (pl_buys pl)"

definition execute_plan ::
    "persist_fn \<Rightarrow> accept_fn \<Rightarrow> instant \<Rightarrow> string \<Rightarrow> plan \<Rightarrow> conn \<Rightarrow> placed list \<times> conn" where
  "execute_plan persist accept observed_at account_key pl c =
     place_orders persist accept observed_at account_key (plan_requests pl) c"

definition submitted_count :: "placed list \<Rightarrow> nat" where
  "submitted_count answers = length (filter (\<lambda>a. case a of Submitted r \<Rightarrow> True | _ \<Rightarrow> False) answers)"

definition failed_count :: "placed list \<Rightarrow> nat" where
  "failed_count answers = length (filter (\<lambda>a. case a of PlaceFailed e \<Rightarrow> True | NotStored \<Rightarrow> True | _ \<Rightarrow> False) answers)"

text \<open>\<open>place\<close> of \<open>paper_auto_execution_runtime.py\<close>: the plan of a pass in one transaction.\<close>

definition place_plan :: "instant \<Rightarrow> instant \<Rightarrow> plan \<Rightarrow> ledger \<Rightarrow> placed list \<times> ledger" where
  "place_plan clock observed_at pl l =
     in_transaction (execute_plan persist_paper_decision (accept_paper_decision clock) observed_at ''default'' pl) l"

section \<open>Trades of a symbol\<close>

definition traded :: "side \<Rightarrow> string \<Rightarrow> (date \<Rightarrow> bool) \<Rightarrow> paper_fill list \<Rightarrow> int" where
  "traded side symbol when_ok fills =
     sum_list (map fl_quantity (filter (\<lambda>f. fl_side f = side \<and> fl_symbol f = symbol \<and> when_ok (local_date (fl_at f))) fills))"

lemma traded_Nil [simp]: "traded side symbol P [] = 0"
  by (simp add: traded_def)

lemma traded_add:
  "traded side symbol P (fills @ [f]) = traded side symbol P fills
     + (if fl_side f = side \<and> fl_symbol f = symbol \<and> P (local_date (fl_at f)) then fl_quantity f else 0)"
  by (simp add: traded_def)

lemma traded_cong:
  "(\<And>f. f \<in> set fills \<Longrightarrow> fl_side f = side \<Longrightarrow> fl_symbol f = symbol \<Longrightarrow> P (local_date (fl_at f)) = Q (local_date (fl_at f)))
     \<Longrightarrow> traded side symbol P fills = traded side symbol Q fills"
  unfolding traded_def by (rule arg_cong [where f = "\<lambda>xs. sum_list (map fl_quantity xs)"]) (auto intro: filter_cong)

lemma traded_mono:
  assumes "\<And>f. f \<in> set fills \<Longrightarrow> 0 < fl_quantity f" "\<And>d. P d \<Longrightarrow> Q d"
  shows "traded side symbol P fills \<le> traded side symbol Q fills"
  using assms
proof (induction fills rule: rev_induct)
  case (snoc f fills)
  have "traded side symbol P fills \<le> traded side symbol Q fills" "0 < fl_quantity f" using snoc by simp_all
  then show ?case using snoc.prems(2) by (auto simp: traded_add)
qed simp

section \<open>The invariant of the ledger\<close>

definition fill_ok :: "instant \<Rightarrow> paper_fill \<Rightarrow> bool" where
  "fill_ok now f =
     (0 < fl_quantity f \<and> 0 < fl_price f \<and> fl_at f \<le> now \<and> fl_source f \<in> set FILL_SOURCES
      \<and> fl_quote_at f \<le> fl_at f \<and> fl_at f - fl_quote_at f \<le> MAX_FILL_QUOTE_AGE_SECONDS * us_second)"

definition position_ok :: "date \<Rightarrow> paper_fill list \<Rightarrow> string \<Rightarrow> position \<Rightarrow> bool" where
  "position_ok today fills symbol p =
     (0 \<le> ps_sellable p \<and> ps_sellable p \<le> ps_quantity p
      \<and> ps_quantity p = traded Buy symbol (\<lambda>d. True) fills - traded Sell symbol (\<lambda>d. True) fills
      \<and> ps_sellable p + traded Sell symbol (\<lambda>d. True) fills \<le> traded Buy symbol (\<lambda>d. d < today) fills
      \<and> (\<forall>f \<in> set fills. fl_side f = Buy \<and> fl_symbol f = symbol
           \<longrightarrow> (\<exists>d. ps_buy_date p = Some d \<and> local_date (fl_at f) \<le> d)))"

definition t1_ok :: "paper_fill list \<Rightarrow> bool" where
  "t1_ok fills = (\<forall>symbol d. traded Sell symbol (\<lambda>x. x \<le> d) fills \<le> traded Buy symbol (\<lambda>x. x < d) fills)"

definition decisions_ok :: "ledger \<Rightarrow> bool" where
  "decisions_ok l =
     (distinct (map dc_id (ld_decisions l)) \<and> (\<forall>e \<in> set (ld_events l). ev_id e < ld_next l)
      \<and> (\<forall>d \<in> set (ld_decisions l). dc_id d < ld_next l \<and> dc_event d < ld_next l)
      \<and> distinct (map fl_decision (ld_fills l))
      \<and> (\<forall>f \<in> set (ld_fills l). \<exists>d \<in> set (ld_decisions l). dc_id d = fl_decision f \<and> dc_status d = ''accepted''))"

definition ledger_ok :: "instant \<Rightarrow> ledger \<Rightarrow> bool" where
  "ledger_ok now l =
     ((\<forall>key a. ld_accounts l key = Some a \<longrightarrow> 0 \<le> ac_cash a)
      \<and> (\<forall>f \<in> set (ld_fills l). fill_ok now f)
      \<and> (\<forall>symbol. position_ok (local_date now) (ld_fills l) symbol (held_position l symbol))
      \<and> t1_ok (ld_fills l) \<and> decisions_ok l)"

lemma ledger_okD:
  assumes "ledger_ok now l"
  shows "ld_accounts l key = Some a \<Longrightarrow> 0 \<le> ac_cash a" "f \<in> set (ld_fills l) \<Longrightarrow> fill_ok now f"
    "position_ok (local_date now) (ld_fills l) symbol (held_position l symbol)" "t1_ok (ld_fills l)" "decisions_ok l"
  using assms unfolding ledger_ok_def by blast+

lemma local_date_mono: "s \<le> t \<Longrightarrow> local_date s \<le> local_date t"
  by (simp add: local_date_def shanghai_us_def zdiv_mono1 us_defs)

lemma fill_ok_later: "fill_ok t f \<Longrightarrow> t \<le> now \<Longrightarrow> fill_ok now f"
  by (auto simp: fill_ok_def)

lemma position_ok_later:
  assumes "position_ok today fills symbol p" "today \<le> today'" "\<forall>f \<in> set fills. 0 < fl_quantity f"
  shows "position_ok today' fills symbol p"
  using assms traded_mono [of fills "\<lambda>d. d < today" "\<lambda>d. d < today'" Buy symbol] by (auto simp: position_ok_def)

lemma ledger_ok_later: "ledger_ok t l \<Longrightarrow> t \<le> now \<Longrightarrow> ledger_ok now l"
  unfolding ledger_ok_def
  by (auto intro: fill_ok_later position_ok_later [OF _ local_date_mono] simp: fill_ok_def)

text \<open>A state that differs only in what the invariant does not read.\<close>

lemma ledger_ok_cong:
  "ledger_ok now l \<Longrightarrow> ld_accounts l' = ld_accounts l \<Longrightarrow> ld_positions l' = ld_positions l \<Longrightarrow> ld_fills l' = ld_fills l
     \<Longrightarrow> decisions_ok l' \<Longrightarrow> ledger_ok now l'"
  by (simp add: ledger_ok_def held_position_def)

text \<open>What a new fill does to the positions and to the T+1 bound.\<close>

lemma position_ok_other:
  "position_ok today fills symbol p \<Longrightarrow> fl_symbol f \<noteq> symbol \<Longrightarrow> position_ok today (fills @ [f]) symbol p"
  by (simp add: position_ok_def traded_add)

lemma position_ok_bought:
  assumes "position_ok (local_date at_time) fills symbol (case old of None \<Rightarrow> no_position | Some p \<Rightarrow> p)"
    and "\<forall>f \<in> set fills. local_date (fl_at f) \<le> local_date at_time"
    and "fl_side f = Buy" "fl_symbol f = symbol" "fl_quantity f = n" "fl_at f = at_time" "0 < n"
  shows "position_ok (local_date at_time) (fills @ [f]) symbol (bought_position old n gross fees at_time)"
  using assms by (auto simp: position_ok_def traded_add bought_position_def Let_def)

lemma position_ok_sold:
  assumes "position_ok today fills symbol p"
    and "fl_side f = Sell" "fl_symbol f = symbol" "fl_quantity f = n" "n \<le> ps_sellable p"
  shows "position_ok today (fills @ [f]) symbol (sold_position p n price fees)"
  using assms by (auto simp: position_ok_def traded_add sold_position_def)

lemma position_ok_rolled:
  assumes "position_ok today fills symbol p" "trading_date \<le> today"
  shows "position_ok today fills symbol (roll_position trading_date p)"
proof (cases "ps_sellable p < ps_quantity p \<and> (case ps_buy_date p of None \<Rightarrow> False | Some d \<Rightarrow> d < trading_date)")
  case True
  then obtain d where d: "ps_buy_date p = Some d" "d < trading_date" by (auto split: option.splits)
  have "traded Buy symbol (\<lambda>x. x < today) fills = traded Buy symbol (\<lambda>x. True) fills"
    by (rule traded_cong) (use assms d in \<open>auto simp: position_ok_def\<close>)
  then show ?thesis using assms True by (auto simp: position_ok_def roll_position_def)
qed (use assms in \<open>auto simp: roll_position_def\<close>)

lemma t1_ok_bought:
  assumes "t1_ok fills" "fl_side f = Buy" "0 < fl_quantity f"
  shows "t1_ok (fills @ [f])"
  unfolding t1_ok_def
proof (intro allI)
  fix symbol d
  have "traded Sell symbol (\<lambda>x. x \<le> d) fills \<le> traded Buy symbol (\<lambda>x. x < d) fills"
    using assms(1) unfolding t1_ok_def by blast
  then show "traded Sell symbol (\<lambda>x. x \<le> d) (fills @ [f]) \<le> traded Buy symbol (\<lambda>x. x < d) (fills @ [f])"
    using assms(2,3) by (auto simp: traded_add)
qed

lemma t1_ok_sold:
  assumes "t1_ok fills" "position_ok (local_date (fl_at f)) fills (fl_symbol f) p"
    and "\<forall>g \<in> set fills. local_date (fl_at g) \<le> local_date (fl_at f) \<and> 0 < fl_quantity g"
    and "fl_side f = Sell" "fl_quantity f \<le> ps_sellable p"
  shows "t1_ok (fills @ [f])"
  unfolding t1_ok_def
proof (intro allI)
  fix symbol d
  let ?sold = "\<lambda>P. traded Sell symbol P fills" and ?bought = "\<lambda>P. traded Buy symbol P fills"
  have old: "?sold (\<lambda>x. x \<le> d) \<le> ?bought (\<lambda>x. x < d)" using assms(1) unfolding t1_ok_def by blast
  show "traded Sell symbol (\<lambda>x. x \<le> d) (fills @ [f]) \<le> traded Buy symbol (\<lambda>x. x < d) (fills @ [f])"
  proof (cases "fl_symbol f = symbol \<and> local_date (fl_at f) \<le> d")
    case True
    have "?sold (\<lambda>x. x \<le> d) = ?sold (\<lambda>x. True)" by (rule traded_cong) (use assms(3) True in force)
    moreover have "?bought (\<lambda>x. x < local_date (fl_at f)) \<le> ?bought (\<lambda>x. x < d)"
      by (rule traded_mono) (use assms(3) True in auto)
    ultimately show ?thesis using assms(2,4,5) True by (auto simp: position_ok_def traded_add)
  next
    case False
    then show ?thesis using old assms(4) by (auto simp: traded_add)
  qed
qed

text \<open>What the acceptance has checked when it fills.\<close>

definition fill_ready :: "paper_decision \<Rightarrow> side \<Rightarrow> int \<Rightarrow> captured_quote \<Rightarrow> instant \<Rightarrow> account \<Rightarrow> ledger \<Rightarrow> bool" where
  "fill_ready d side requested q accepted_at acct l =
     (d \<in> set (ld_decisions l) \<and> dc_status d = ''proposed'' \<and> 0 < requested \<and> 0 < quote_number (Some q)
      \<and> cq_source q \<in> set FILL_SOURCES \<and> cq_observed q \<le> accepted_at
      \<and> accepted_at - cq_observed q \<le> MAX_FILL_QUOTE_AGE_SECONDS * us_second
      \<and> (case side of Sell \<Rightarrow> requested \<le> ps_sellable (held_position l (dc_symbol d))
         | Buy \<Rightarrow> dadd (fill_gross requested (Some q)) (fill_fees side requested (Some q)) \<le> ac_cash acct))"

lemma latest_local_quote_sound:
  assumes "latest_local_quote quotes symbol t = Some q"
  shows "q \<in> set quotes \<and> cq_symbol q = symbol \<and> cq_observed q \<le> t \<and> cq_source q \<in> set FILL_SOURCES"
proof -
  let ?p = "\<lambda>q. cq_symbol q = symbol \<and> cq_observed q \<le> t \<and> cq_source q \<in> set FILL_SOURCES"
  have "fold later_quote qs best = Some q \<Longrightarrow> q \<in> set qs \<or> best = Some q" for qs best
    by (induction qs arbitrary: best) (auto simp: later_quote_def split: option.splits if_splits)
  from this [of "filter ?p quotes" None] show ?thesis using assms by (auto simp: latest_local_quote_def)
qed

lemma tradable_sell:
  "snd (paper_tradability Sell requested quote sellable symbol clock) = [] \<Longrightarrow> requested \<le> sellable"
  by (auto simp: paper_tradability_def assess_tradability_def Let_def side_text_def py_lower_def lower_char_def
      split: option.splits if_splits)

lemma fill_reasons_ready:
  assumes "fill_reasons side requested quote (ps_sellable (held_position l (dc_symbol d))) (dc_symbol d) accepted_at
      (ld_accounts l account_key) clock = Inr []"
    and "quote = latest_local_quote (ld_quotes l) (dc_symbol d) accepted_at" "d \<in> set (ld_decisions l)"
    and "dc_status d = ''proposed''" "0 < requested"
  shows "\<exists>q a. quote = Some q \<and> ld_accounts l account_key = Some a \<and> fill_ready d side requested q accepted_at a l"
proof -
  have rs: "quote_reasons side requested quote accepted_at (ld_accounts l account_key) = Inr []"
    and trade: "snd (paper_tradability side requested quote (ps_sellable (held_position l (dc_symbol d))) (dc_symbol d) clock) = []"
    and "ld_accounts l account_key \<noteq> None"
    using assms(1) by (auto simp: fill_reasons_def split: if_splits)
  then obtain a where a: "ld_accounts l account_key = Some a" by blast
  obtain q where q: "quote = Some q" using rs by (cases quote) (auto simp: quote_reasons_def)
  show ?thesis
    using rs trade a q latest_local_quote_sound [of "ld_quotes l" "dc_symbol d" accepted_at q] assms(2-5)
    by (cases side) (auto simp: fill_ready_def quote_reasons_def split: if_splits dest: tradable_sell)
qed

lemma set_status_ids [simp]:
  "map dc_id (set_status i st ds) = map dc_id ds" "set_status i st [] = []"
  by (induction ds) (auto simp: set_status_def)

lemma set_status_kept:
  "d \<in> set ds \<Longrightarrow> dc_id d \<noteq> i \<Longrightarrow> d \<in> set (set_status i st ds)"
  "d \<in> set ds \<Longrightarrow> dc_id d = i \<Longrightarrow> d\<lparr>dc_status := st\<rparr> \<in> set (set_status i st ds)"
  by (force simp: set_status_def)+

lemma set_status_bounds:
  "\<forall>d \<in> set ds. dc_id d < n \<and> dc_event d < n \<Longrightarrow> n \<le> m \<Longrightarrow> d \<in> set (set_status i st ds) \<Longrightarrow> dc_id d < m \<and> dc_event d < m"
  by (fastforce simp: set_status_def)

text \<open>Deciding a proposed decision keeps the accepted ones.\<close>

lemma decisions_ok_status:
  assumes "decisions_ok l" "d \<in> set (ld_decisions l)" "dc_status d = ''proposed''"
    and "ld_decisions l' = set_status (dc_id d) st (ld_decisions l)" "ld_events l' = ld_events l" "ld_next l \<le> ld_next l'"
    and "ld_fills l' = ld_fills l \<or> (\<exists>f. ld_fills l' = ld_fills l @ [f] \<and> fl_decision f = dc_id d \<and> st = ''accepted'')"
  shows "decisions_ok l'"
proof -
  have other: "fl_decision f \<noteq> dc_id d" if "f \<in> set (ld_fills l)" for f
  proof
    assume eq: "fl_decision f = dc_id d"
    have "\<exists>x \<in> set (ld_decisions l). dc_id x = fl_decision f \<and> dc_status x = ''accepted''"
      using assms(1) that by (simp add: decisions_ok_def)
    then obtain x where "x \<in> set (ld_decisions l)" "dc_id x = fl_decision f" "dc_status x = ''accepted''" by blast
    moreover have "inj_on dc_id (set (ld_decisions l))" using assms(1) by (simp add: decisions_ok_def distinct_map)
    ultimately have "x = d" using assms(2) eq by (auto dest: inj_onD)
    then show False using \<open>dc_status x = ''accepted''\<close> assms(3) by simp
  qed
  have stored: "\<exists>x \<in> set (ld_decisions l'). dc_id x = fl_decision f \<and> dc_status x = ''accepted''" if "f \<in> set (ld_fills l)" for f
  proof -
    have "\<exists>x \<in> set (ld_decisions l). dc_id x = fl_decision f \<and> dc_status x = ''accepted''"
      using assms(1) that by (simp add: decisions_ok_def)
    then show ?thesis using set_status_kept(1) other [OF that] unfolding assms(4) by metis
  qed
  have new: "\<exists>x \<in> set (ld_decisions l'). dc_id x = dc_id d \<and> dc_status x = st"
    using set_status_kept(2) [OF assms(2) refl, of st] unfolding assms(4) by (rule bexI [rotated]) simp
  have "\<forall>x \<in> set (ld_decisions l). dc_id x < ld_next l \<and> dc_event x < ld_next l" using assms(1) by (simp add: decisions_ok_def)
  from set_status_bounds [OF this assms(6)]
  have bounds: "\<forall>x \<in> set (ld_decisions l'). dc_id x < ld_next l' \<and> dc_event x < ld_next l'" unfolding assms(4) by blast
  have dist: "distinct (map dc_id (ld_decisions l'))" using assms(1,4) by (simp add: decisions_ok_def)
  have events: "\<forall>e \<in> set (ld_events l'). ev_id e < ld_next l'" using assms(1,5,6) by (auto simp: decisions_ok_def)
  have old: "distinct (map fl_decision (ld_fills l))" using assms(1) by (simp add: decisions_ok_def)
  have fills: "distinct (map fl_decision (ld_fills l'))
      \<and> (\<forall>f \<in> set (ld_fills l'). \<exists>x \<in> set (ld_decisions l'). dc_id x = fl_decision f \<and> dc_status x = ''accepted'')"
    using assms(7)
  proof
    assume "ld_fills l' = ld_fills l"
    then show ?thesis using old stored by simp
  next
    assume "\<exists>f. ld_fills l' = ld_fills l @ [f] \<and> fl_decision f = dc_id d \<and> st = ''accepted''"
    then obtain f where f: "ld_fills l' = ld_fills l @ [f]" "fl_decision f = dc_id d" "st = ''accepted''" by blast
    have "fl_decision f \<notin> fl_decision ` set (ld_fills l)" using other f(2) by (metis imageE)
    then have "distinct (map fl_decision (ld_fills l'))" using old f(1) by simp
    moreover have "\<exists>x \<in> set (ld_decisions l'). dc_id x = fl_decision g \<and> dc_status x = ''accepted''"
      if "g \<in> set (ld_fills l')" for g
      using that stored new f by auto
    ultimately show ?thesis by blast
  qed
  show ?thesis unfolding decisions_ok_def using dist events bounds fills by blast
qed

lemma fees_nonneg: "0 < quote_number quote \<Longrightarrow> 0 \<le> fill_fees side n quote"
  by (auto simp: fill_fees_def estimate_cost_def estimate_trade_cost_def Let_def DEFAULT_COMMISSION_RATE_def
      DEFAULT_STAMP_TAX_RATE_def DEFAULT_SLIPPAGE_BPS_def DEFAULT_TRANSFER_FEE_RATE_def
      intro!: dadd_nonneg dmul_nonneg dec.rnd_nonneg)

lemma ledger_ok_filled:
  assumes ok: "ledger_ok now l" and ready: "fill_ready d side n q now acct l" and acct: "ld_accounts l key = Some acct"
    and fill: "fill_order d side n q now key acct l = (r, l')"
  shows "(\<exists>x. r = Inr x \<and> ledger_ok now l') \<or> r = Inl CheckViolation"
proof (cases "r = Inl CheckViolation")
  case False
  define symbol where "symbol = dc_symbol d"
  define p where "p = held_position l symbol"
  define od where "od = new_order l d side n (Some q) [] now"
  define f where "f = new_fill od q now"
  define cash where "cash = (case side of Buy \<Rightarrow> ac_cash acct - dadd (fill_gross n (Some q)) (od_fees od)
      | Sell \<Rightarrow> ac_cash acct + dsub (fill_gross n (Some q)) (od_fees od))"
  define p' where "p' = (case side of Buy \<Rightarrow> bought_position (ld_positions l symbol) n (fill_gross n (Some q)) (od_fees od) now
      | Sell \<Rightarrow> sold_position p n (quote_number (Some q)) (od_fees od))"
  have f: "fl_side f = side" "fl_symbol f = symbol" "fl_quantity f = n" "fl_at f = now" "fl_decision f = dc_id d"
    by (simp_all add: f_def new_fill_def od_def new_order_def Let_def symbol_def)
  have sellable: "side = Sell \<Longrightarrow> n \<le> ps_sellable p" and n: "0 < n"
    using ready by (auto simp: fill_ready_def p_def symbol_def)
  have res: "r = Inr (Filled (od_id od) n (quote_number (Some q)) (od_fees od) (cq_source q))" "0 \<le> cash"
    "l' = (add_order od l)\<lparr>ld_fills := ld_fills l @ [f], ld_positions := (ld_positions l)(symbol \<mapsto> p'),
        ld_accounts := (ld_accounts l)(key \<mapsto> acct\<lparr>ac_cash := cash\<rparr>),
        ld_decisions := set_status (dc_id d) ''accepted'' (ld_decisions l)\<rparr>"
    using fill [unfolded fill_order_def Let_def, folded od_def symbol_def, folded f_def p_def cash_def, folded p'_def]
      False sellable by (auto split: if_splits)
  have dates: "\<forall>g \<in> set (ld_fills l). local_date (fl_at g) \<le> local_date now \<and> 0 < fl_quantity g"
    using ledger_okD(2) [OF ok] by (auto simp: fill_ok_def intro: local_date_mono)
  note pos = ledger_okD(3) [OF ok]
  have "fill_ok now f"
    using ready by (auto simp: fill_ok_def f fill_ready_def f_def new_fill_def od_def new_order_def Let_def)
  moreover have "position_ok (local_date now) (ld_fills l @ [f]) s (held_position l' s)" for s
  proof (cases "s = symbol")
    case True
    show ?thesis
    proof (cases side)
      case Buy
      have "position_ok (local_date now) (ld_fills l) symbol
          (case ld_positions l symbol of None \<Rightarrow> no_position | Some p \<Rightarrow> p)"
        using pos [of symbol] by (simp add: held_position_def)
      from position_ok_bought [OF this _ _ f(2,3,4) n] show ?thesis
        using dates f(1) Buy True by (simp add: res(3) add_order_def held_position_def p'_def)
    next
      case Sell
      from position_ok_sold [OF pos _ f(2,3)] show ?thesis
        using f(1) sellable Sell True by (simp add: res(3) add_order_def held_position_def p'_def p_def)
    qed
  next
    case False
    then show ?thesis
      using position_ok_other [OF pos [of s], of f] f(2) by (simp add: res(3) add_order_def held_position_def)
  qed
  moreover have "t1_ok (ld_fills l @ [f])"
  proof (cases side)
    case Buy
    then show ?thesis using t1_ok_bought [OF ledger_okD(4) [OF ok]] f n by simp
  next
    case Sell
    then show ?thesis
      using t1_ok_sold [OF ledger_okD(4) [OF ok], of f p] pos [of symbol] f dates sellable by (simp add: p_def)
  qed
  moreover have "decisions_ok l'"
    by (rule decisions_ok_status [OF ledger_okD(5) [OF ok], of d]) (use ready f in \<open>auto simp: fill_ready_def res(3) add_order_def\<close>)
  moreover have "0 \<le> ac_cash a" if "ld_accounts l' k = Some a" for k a
    using that ledger_okD(1) [OF ok] res(2) by (auto simp: res(3) split: if_splits)
  ultimately have "ledger_ok now l'"
    using ledger_okD(2) [OF ok] by (auto simp: ledger_ok_def res(3) add_order_def)
  then show ?thesis using res(1) by blast
qed simp


text \<open>An acceptance keeps the invariant, unless it ends with an error of the database.\<close>

definition ok_after :: "(ledger \<Rightarrow> bool) \<Rightarrow> (ledger_error + 'a) \<times> ledger \<Rightarrow> bool" where
  "ok_after good out = (case out of (Inl e, l) \<Rightarrow> db_error e \<or> good l | (Inr x, l) \<Rightarrow> good l)"

lemma accept_ok:
  assumes "ledger_ok now l"
  shows "ok_after (ledger_ok now) (accept_paper_decision clock i quantity now key l)"
proof -
  have same: "ok_after (ledger_ok now) (Inl e, l)" for e :: ledger_error using assms by (simp add: ok_after_def)
  show ?thesis
  proof (cases "py_next (\<lambda>d. dc_id d = i) (ld_decisions l)")
    case (Some d)
    then have d: "d \<in> set (ld_decisions l)" by (auto simp: py_next_def find_Some_iff)
    show ?thesis
    proof (cases "dc_status d = ''proposed'' \<and> (\<exists>side n. decision_side (dc_direction d) = Some side \<and> round_lot quantity = Inr n \<and> 0 < n)")
      case True
      then obtain side n where sd: "decision_side (dc_direction d) = Some side" "round_lot quantity = Inr n" "0 < n" by blast
      let ?quote = "latest_local_quote (ld_quotes l) (dc_symbol d) now"
      let ?reasons = "fill_reasons side n ?quote (ps_sellable (held_position l (dc_symbol d))) (dc_symbol d) now
          (ld_accounts l key) clock"
      have acc: "accept_paper_decision clock i quantity now key l = accept_proposed d side n now key clock l"
        using Some True sd by (simp add: accept_paper_decision_def)
      have blocked: "ledger_ok now ((add_order od l)\<lparr>ld_decisions := set_status (dc_id d) ''blocked'' (ld_decisions l)\<rparr>)" for od
        by (rule ledger_ok_cong [OF assms], simp_all add: add_order_def)
          (rule decisions_ok_status [OF ledger_okD(5) [OF assms] d], use True in auto)
      show ?thesis
      proof (cases "?reasons = Inr []")
        case True
        then obtain q a where q: "?quote = Some q" "ld_accounts l key = Some a" "fill_ready d side n q now a l"
          using fill_reasons_ready d \<open>dc_status d = ''proposed'' \<and> _\<close> sd(3) by blast
        obtain r l' where out: "fill_order d side n q now key a l = (r, l')" by fastforce
        show ?thesis
          using ledger_ok_filled [OF assms q(3,2) out] True q out
          by (auto simp: acc accept_proposed_def Let_def ok_after_def db_error_def)
      next
        case False
        then show ?thesis
          using blocked same
          by (auto simp: acc accept_proposed_def Let_def ok_after_def split: sum.splits list.splits option.splits)
      qed
    next
      case False
      then have "\<exists>e. accept_paper_decision clock i quantity now key l = (Inl e, l)"
        using Some by (auto simp: accept_paper_decision_def split: option.splits sum.splits)
      then show ?thesis using same by metis
    qed
  qed (use same in \<open>simp add: accept_paper_decision_def\<close>)
qed

lemma persist_event_ok:
  assumes "ledger_ok now l"
  shows "ok_after (ledger_ok now) (persist_signal_event r at_time l)"
proof -
  have "decisions_ok l" by (rule ledger_okD(5) [OF assms])
  then have "decisions_ok (snd (persist_signal_event r at_time l))"
    by (auto simp: persist_signal_event_def decisions_ok_def less_Suc_eq)
  from ledger_ok_cong [OF assms _ _ _ this] show ?thesis
    by (auto simp: ok_after_def persist_signal_event_def split: if_splits)
qed

lemma persist_decision_ok:
  assumes "ledger_ok now l"
  shows "ok_after (ledger_ok now) (persist_paper_decision e p l)"
proof -
  have "decisions_ok l" by (rule ledger_okD(5) [OF assms])
  then have "decisions_ok (snd (persist_paper_decision e p l))"
    by (auto simp: persist_paper_decision_def decisions_ok_def less_Suc_eq)
  from ledger_ok_cong [OF assms _ _ _ this] show ?thesis
    by (auto simp: ok_after_def persist_paper_decision_def split: if_splits)
qed


section \<open>The client of the ledger\<close>

text \<open>
  What \<open>paper_order_bridge.py\<close> relies on: the two operations it is given keep the ledger's invariant
  unless the database refuses, leave the list of instruments alone, and the first stores a decision
  for an event that has none.
\<close>

locale decision_ledger =
  fixes persist :: persist_fn
    and accept :: accept_fn
    and good :: "instant \<Rightarrow> ledger \<Rightarrow> bool"
  assumes event_good: "good now l \<Longrightarrow> ok_after (good now) (persist_signal_event r at_time l)"
    and persist_good: "good now l \<Longrightarrow> ok_after (good now) (persist event_id p l)"
    and accept_good: "good now l \<Longrightarrow> ok_after (good now) (accept decision_id quantity now key l)"
    and persist_instruments: "ld_instruments (snd (persist event_id p l)) = ld_instruments l"
    and accept_instruments: "ld_instruments (snd (accept decision_id quantity at_time key l)) = ld_instruments l"
    and known_events: "good now l \<Longrightarrow> d \<in> set (ld_decisions l) \<Longrightarrow> dc_event d < ld_next l"
    and persist_fresh: "\<forall>d \<in> set (ld_decisions l). dc_event d \<noteq> event_id \<Longrightarrow> fst (persist event_id p l) \<noteq> Inr False"
begin

definition conn_good :: "instant \<Rightarrow> conn \<Rightarrow> bool" where
  "conn_good now c = (cn_aborted c \<or> good now (cn_ledger c))"

lemma on_connection_good:
  assumes "conn_good now c" "\<And>l. good now l \<Longrightarrow> ok_after (good now) (f l)"
  shows "conn_good now (snd (on_connection f c))"
proof (cases "cn_aborted c")
  case False
  then have "ok_after (good now) (f (cn_ledger c))" using assms by (simp add: conn_good_def)
  then show ?thesis
    using False by (auto simp: conn_good_def on_connection_def ok_after_def split: prod.splits sum.splits)
qed (simp add: on_connection_def conn_good_def)

lemma stored_good: "good now l \<Longrightarrow> ok_after (good now) (stored_decision event_id p l)"
  by (simp add: stored_decision_def ok_after_def)

lemma or_failed_good:
  "conn_good now (snd m) \<Longrightarrow> (\<And>x c. conn_good now c \<Longrightarrow> conn_good now (snd (k x c))) \<Longrightarrow> conn_good now (snd (or_failed m k))"
  by (cases m; cases "fst m") (auto simp: or_failed_def)

lemma place_order_good: "conn_good now c \<Longrightarrow> conn_good now (snd (place_order persist accept now key r c))"
  unfolding place_order_def Let_def
  by (auto intro!: or_failed_good on_connection_good event_good persist_good stored_good accept_good split: option.splits)

lemma place_orders_good: "conn_good now c \<Longrightarrow> conn_good now (snd (place_orders persist accept now key rs c))"
proof (induction rs arbitrary: c)
  case (Cons r rs)
  from Cons.IH [OF place_order_good [OF Cons.prems, of key r]] show ?case by (auto split: prod.splits)
qed simp

lemma execute_good: "good now l \<Longrightarrow> good now (snd (in_transaction (execute_plan persist accept now key pl) l))"
  using place_orders_good [of now "\<lparr>cn_ledger = l, cn_aborted = False\<rparr>" key "plan_requests pl"]
  by (auto simp: in_transaction_def execute_plan_def conn_good_def split: prod.splits)

lemma length_answers: "length (fst (place_orders persist accept now key rs c)) = length rs"
proof (induction rs arbitrary: c)
  case (Cons r rs)
  from Cons [of "snd (place_order persist accept now key r c)"] show ?case by (auto split: prod.splits)
qed simp

text \<open>An event is always new, so the bridge never finds a decision for it.\<close>

lemma place_order_new:
  assumes "conn_good now c"
  shows "fst (place_order persist accept at_time key r c) \<noteq> Duplicate"
proof (cases "on_connection (persist_signal_event r at_time) c")
  case (Pair out c1)
  show ?thesis
  proof (cases out)
    case (Inl e)
    then show ?thesis using Pair by (simp add: place_order_def Let_def or_failed_def)
  next
    case (Inr event_id)
    then have c1: "\<not> cn_aborted c" "\<not> cn_aborted c1" "event_id = ld_next (cn_ledger c)"
        "ld_decisions (cn_ledger c1) = ld_decisions (cn_ledger c)"
      using Pair by (auto simp: on_connection_def persist_signal_event_def split: if_splits prod.splits sum.splits)
    have "good now (cn_ledger c)" using assms c1(1) by (simp add: conn_good_def)
    from known_events [OF this] have "\<forall>d \<in> set (ld_decisions (cn_ledger c1)). dc_event d \<noteq> event_id"
      unfolding c1(3,4) by force
    note new = persist_fresh [OF this]
    have "fst (on_connection (persist event_id p) c1) \<noteq> Inr False" for p
      using new [of p] c1(2) by (cases "persist event_id p (cn_ledger c1)"; cases "fst (persist event_id p (cn_ledger c1))")
        (auto simp: on_connection_def)
    then show ?thesis
      unfolding place_order_def Let_def Pair Inr or_failed_def
      by (auto split: prod.splits sum.splits option.splits) (metis fst_conv)+
  qed
qed

lemma place_orders_new: "conn_good now c \<Longrightarrow> Duplicate \<notin> set (fst (place_orders persist accept now key rs c))"
proof (induction rs arbitrary: c)
  case (Cons r rs)
  from Cons.IH [OF place_order_good [OF Cons.prems, of key r]] place_order_new [OF Cons.prems, of now key r]
  show ?case by (auto split: prod.splits)
qed simp

lemma execute_new: "good now l \<Longrightarrow> Duplicate \<notin> set (fst (in_transaction (execute_plan persist accept now key pl) l))"
  using place_orders_new [of now "\<lparr>cn_ledger = l, cn_aborted = False\<rparr>" key "plan_requests pl"]
  by (auto simp: in_transaction_def execute_plan_def conn_good_def split: prod.splits)

text \<open>An order of an instrument the database does not know aborts the transaction of the plan.\<close>

definition doomed :: "string \<Rightarrow> conn \<Rightarrow> bool" where
  "doomed symbol c = (cn_aborted c \<or> symbol \<notin> set (ld_instruments (cn_ledger c)))"

lemma on_connection_doomed:
  assumes "doomed symbol c" "\<And>l. ld_instruments (snd (f l)) = ld_instruments l"
  shows "doomed symbol (snd (on_connection f c))"
proof (cases "cn_aborted c")
  case False
  then show ?thesis
    using assms(1) assms(2) [of "cn_ledger c"]
    by (cases "f (cn_ledger c)"; cases "fst (f (cn_ledger c))") (auto simp: doomed_def on_connection_def)
qed (simp add: on_connection_def doomed_def)

lemma or_failed_doomed:
  "doomed symbol (snd m) \<Longrightarrow> (\<And>x c. doomed symbol c \<Longrightarrow> doomed symbol (snd (k x c))) \<Longrightarrow> doomed symbol (snd (or_failed m k))"
  by (cases m; cases "fst m") (auto simp: or_failed_def)

lemma event_instruments: "ld_instruments (snd (persist_signal_event r at_time l)) = ld_instruments l"
  by (simp add: persist_signal_event_def)

lemma stored_instruments: "ld_instruments (snd (stored_decision event_id p l)) = ld_instruments l"
  by (simp add: stored_decision_def)

lemma place_order_doomed: "doomed symbol c \<Longrightarrow> doomed symbol (snd (place_order persist accept at_time key r c))"
  unfolding place_order_def Let_def
  by (auto intro!: or_failed_doomed on_connection_doomed event_instruments persist_instruments stored_instruments
      accept_instruments split: option.splits)

lemma place_order_aborts:
  assumes "doomed (rq_symbol r) c \<or> cn_aborted c"
  shows "cn_aborted (snd (place_order persist accept at_time key r c))"
  using assms by (auto simp: place_order_def Let_def or_failed_def on_connection_def persist_signal_event_def db_error_def doomed_def)

lemma place_orders_aborted:
  "cn_aborted c \<Longrightarrow> cn_aborted (snd (place_orders persist accept at_time key rs c))
     \<and> fst (place_orders persist accept at_time key rs c) = map (\<lambda>r. PlaceFailed InFailedTransaction) rs"
proof (induction rs arbitrary: c)
  case (Cons r rs)
  have "place_order persist accept at_time key r c = (PlaceFailed InFailedTransaction, c)"
    using Cons.prems by (simp add: place_order_def Let_def or_failed_def on_connection_def)
  then show ?case using Cons.IH [OF Cons.prems] by (auto split: prod.splits)
qed simp

lemma place_orders_doomed:
  "doomed (rq_symbol r) c \<Longrightarrow> r \<in> set rs \<Longrightarrow> cn_aborted (snd (place_orders persist accept at_time key rs c))"
proof (induction rs arbitrary: c)
  case (Cons r' rs)
  let ?c1 = "snd (place_order persist accept at_time key r' c)"
  have "cn_aborted (snd (place_orders persist accept at_time key rs ?c1))"
  proof (cases "r = r'")
    case True
    then show ?thesis using place_orders_aborted place_order_aborts Cons.prems(1) by blast
  next
    case False
    then show ?thesis using Cons.IH place_order_doomed Cons.prems by simp
  qed
  then show ?case by (auto split: prod.splits)
qed simp

lemma execute_doomed:
  assumes "r \<in> set (plan_requests pl)" "rq_symbol r \<notin> set (ld_instruments l)"
  shows "snd (in_transaction (execute_plan persist accept at_time key pl) l) = l"
  using place_orders_doomed [OF _ assms(1), of "\<lparr>cn_ledger = l, cn_aborted = False\<rparr>" at_time key] assms(2)
  by (auto simp: in_transaction_def execute_plan_def doomed_def split: prod.splits)

end


lemma accept_keeps_instruments: "ld_instruments (snd (accept_paper_decision clock i quantity at_time key l)) = ld_instruments l"
  by (auto simp: accept_paper_decision_def accept_proposed_def Let_def fill_order_def add_order_def
      split: option.splits sum.splits list.splits)

interpretation pl: decision_ledger persist_paper_decision "accept_paper_decision clock" ledger_ok for clock
proof
  fix now l d assume "ledger_ok now l" "d \<in> set (ld_decisions l)"
  then show "dc_event d < ld_next l" using ledger_okD(5) [of now l] by (simp add: decisions_ok_def)
next
  fix l :: ledger and event_id and p :: payload
  assume "\<forall>d \<in> set (ld_decisions l). dc_event d \<noteq> event_id"
  then show "fst (persist_paper_decision event_id p l) \<noteq> Inr False"
    by (auto simp: persist_paper_decision_def list_ex_iff same_decision_def)
qed (auto intro: persist_event_ok persist_decision_ok accept_ok simp: accept_keeps_instruments,
  simp add: persist_paper_decision_def)

section \<open>The ledger over time\<close>

text \<open>The calls of the service in the order of their times: an account is configured, the positions
  are rolled at a date that has begun, a quote is captured, a decision on a stored event is proposed,
  a proposed one is accepted by hand, and the plan of a pass is placed.\<close>

inductive ledger_step :: "ledger \<times> instant \<Rightarrow> ledger \<times> instant \<Rightarrow> bool" where
  configure: "t \<le> now \<Longrightarrow> ledger_step (l, t) (snd (configure_paper_account key cash l), now)"
| roll: "t \<le> now \<Longrightarrow> d \<le> local_date now \<Longrightarrow> ledger_step (l, t) (roll_paper_positions_sellable d l, now)"
| capture: "t \<le> now \<Longrightarrow> ledger_step (l, t) (l\<lparr>ld_quotes := ld_quotes l @ [q]\<rparr>, now)"
| propose: "t \<le> now \<Longrightarrow> ledger_step (l, t) (snd (in_transaction (on_connection (persist_paper_decision event_id p)) l), now)"
| accept: "t \<le> now \<Longrightarrow> ledger_step (l, t)
    (snd (in_transaction (on_connection (accept_paper_decision clock decision_id quantity now key)) l), now)"
| place: "t \<le> now \<Longrightarrow> ledger_step (l, t) (snd (place_plan clock now pl l), now)"

definition empty_ledger :: "string list \<Rightarrow> ledger" where
  "empty_ledger instruments =
     \<lparr>ld_instruments = instruments, ld_quotes = [], ld_accounts = Map.empty, ld_positions = Map.empty, ld_events = [],
      ld_decisions = [], ld_orders = [], ld_fills = [], ld_next = 0\<rparr>"

inductive ledger_reachable :: "ledger \<times> instant \<Rightarrow> bool" where
  start: "ledger_reachable (empty_ledger instruments, t)"
| step: "ledger_reachable s \<Longrightarrow> ledger_step s s' \<Longrightarrow> ledger_reachable s'"

lemma empty_ledger_ok: "ledger_ok t (empty_ledger instruments)"
  by (simp add: ledger_ok_def empty_ledger_def position_ok_def held_position_def no_position_def t1_ok_def decisions_ok_def)

lemma transaction_ok:
  "ledger_ok now l \<Longrightarrow> (\<And>l. ledger_ok now l \<Longrightarrow> ok_after (ledger_ok now) (f l))
     \<Longrightarrow> ledger_ok now (snd (in_transaction (on_connection f) l))"
  using pl.on_connection_good [of now "\<lparr>cn_ledger = l, cn_aborted = False\<rparr>" f]
  by (auto simp: in_transaction_def pl.conn_good_def split: prod.splits)

lemma ledger_step_ok:
  "ledger_step s s' \<Longrightarrow> ledger_ok (snd s) (fst s) \<Longrightarrow> ledger_ok (snd s') (fst s')"
proof (induction rule: ledger_step.induct)
  case (configure t now l key cash)
  then have "ledger_ok now l" using ledger_ok_later by simp
  then show ?case by (auto simp: configure_paper_account_def Let_def ledger_ok_def held_position_def decisions_ok_def)
next
  case (roll t now d l)
  then have ok: "ledger_ok now l" using ledger_ok_later by simp
  let ?l = "roll_paper_positions_sellable d l"
  have "position_ok (local_date now) (ld_fills ?l) symbol (held_position ?l symbol)" for symbol
  proof (cases "ld_positions l symbol")
    case None
    then show ?thesis using ledger_okD(3) [OF ok, of symbol] by (simp add: roll_paper_positions_sellable_def held_position_def)
  next
    case (Some p)
    then show ?thesis
      using position_ok_rolled [OF ledger_okD(3) [OF ok] roll(2), of symbol]
      by (simp add: roll_paper_positions_sellable_def held_position_def)
  qed
  then show ?case using ok by (simp add: ledger_ok_def roll_paper_positions_sellable_def decisions_ok_def)
next
  case (capture t now l q)
  then have "ledger_ok now l" using ledger_ok_later by simp
  then show ?case by (simp add: ledger_ok_def held_position_def decisions_ok_def)
next
  case (propose t now l event_id p)
  then have "ledger_ok now l" using ledger_ok_later by simp
  from transaction_ok [OF this persist_decision_ok] show ?case by simp
next
  case (accept t now l clock decision_id quantity key)
  then have "ledger_ok now l" using ledger_ok_later by simp
  from transaction_ok [OF this accept_ok] show ?case by simp
next
  case (place t now l clock pl)
  then have "ledger_ok now l" using ledger_ok_later by simp
  from pl.execute_good [OF this] show ?case by (simp add: place_plan_def)
qed

lemma ledger_reachable_ok: "ledger_reachable s \<Longrightarrow> ledger_ok (snd s) (fst s)"
  by (induction rule: ledger_reachable.induct) (simp add: empty_ledger_ok, rule ledger_step_ok)

section \<open>Properties\<close>

text \<open>A ledger with one account and one quote, and a plan that buys a lot.\<close>

definition example_intent :: intent where
  "example_intent = \<lparr>it_symbol = ''600000.SH'', it_strategy_key = ''s'', it_mode = None, it_decision = [],
     it_entry_fraction = 1 / 10, it_sizing_source = ''strategy'', it_target_fraction = None, it_stop_loss = None,
     it_exit_action = [], it_exit_codes = [], it_risk_flags = [], it_confirmed = True, it_direction = ''inflow'',
     it_delivery_key = None\<rparr>"

definition example_plan :: "string list \<Rightarrow> plan" where
  "example_plan symbols =
     \<lparr>pl_sells = [], pl_buys = map (\<lambda>s. \<lparr>bo_symbol = s, bo_quantity = 100, bo_price = 10, bo_notional = 1000,
        bo_intent = example_intent\<rparr>) symbols, pl_skipped = [], pl_non_fill = [], pl_open_positions = 0,
      pl_open_slots = 8, pl_cash_after = 0\<rparr>"

definition example_quote :: captured_quote where
  "example_quote = \<lparr>cq_symbol = ''600000.SH'', cq_source = ''tencent_free'', cq_observed = 0, cq_price = Some 10,
     cq_pct_change = Some 0, cq_raw = None\<rparr>"

definition funded_ledger :: ledger where
  "funded_ledger = (snd (configure_paper_account ''default'' 100000 (empty_ledger [''600000.SH''])))
     \<lparr>ld_quotes := [example_quote]\<rparr>"

definition bought_ledger :: ledger where
  "bought_ledger = snd (place_plan 0 0 (example_plan [''600000.SH'']) funded_ledger)"

lemma funded_reachable: "ledger_reachable (funded_ledger, 0)"
proof -
  let ?l = "snd (configure_paper_account ''default'' 100000 (empty_ledger [''600000.SH'']))"
  have "ledger_reachable (?l, 0)"
    by (rule ledger_reachable.step [OF ledger_reachable.start ledger_step.configure]) (rule order_refl)
  then have "ledger_reachable (?l\<lparr>ld_quotes := ld_quotes ?l @ [example_quote]\<rparr>, 0)"
    by (rule ledger_reachable.step [OF _ ledger_step.capture]) (rule order_refl)
  moreover have "ld_quotes ?l = []" by (simp add: configure_paper_account_def Let_def empty_ledger_def)
  ultimately show ?thesis by (simp add: funded_ledger_def)
qed

lemma bought_reachable: "ledger_reachable (bought_ledger, 0)"
  unfolding bought_ledger_def by (rule ledger_reachable.step [OF funded_reachable ledger_step.place]) (rule order_refl)

lemma bought_fills: "map (\<lambda>f. (fl_side f, fl_quantity f, fl_price f)) (ld_fills bought_ledger) = [(Buy, 100, 10)]"
  by code_simp

text \<open>
  C2. T+1 holds on the ledger, whatever is configured, captured, proposed, accepted and placed, and
  whenever the positions are rolled: of every name and up to every day, no more shares have been
  sold than had been bought on the days before. No share is sold on the day it was bought.
\<close>

theorem ledger_t_plus_one:
  assumes "ledger_reachable (l, t)"
  shows "traded Sell symbol (\<lambda>day. day \<le> d) (ld_fills l) \<le> traded Buy symbol (\<lambda>day. day < d) (ld_fills l)"
  using ledger_okD(4) [OF ledger_reachable_ok [OF assms]] by (simp add: t1_ok_def)

lemma ledger_t_plus_one_witness:
  "map (\<lambda>f. (fl_side f, fl_quantity f, fl_price f)) (ld_fills bought_ledger) = [(Buy, 100, 10)]
    \<and> traded Sell ''600000.SH'' (\<lambda>day. day \<le> 0) (ld_fills bought_ledger)
        \<le> traded Buy ''600000.SH'' (\<lambda>day. day < 0) (ld_fills bought_ledger)"
  using bought_fills ledger_t_plus_one [OF bought_reachable] by blast

text \<open>
  C26. The balances of the ledger: no account is overdrawn, the sellable part of a position is
  between nothing and its quantity, the quantity is what was bought less what was sold, and a
  decision is filled at most once.
\<close>

theorem ledger_balances:
  assumes "ledger_reachable (l, t)"
  shows "(\<forall>key a. ld_accounts l key = Some a \<longrightarrow> 0 \<le> ac_cash a)
    \<and> (\<forall>symbol. 0 \<le> ps_sellable (held_position l symbol) \<and> ps_sellable (held_position l symbol) \<le> ps_quantity (held_position l symbol)
        \<and> ps_quantity (held_position l symbol)
            = traded Buy symbol (\<lambda>day. True) (ld_fills l) - traded Sell symbol (\<lambda>day. True) (ld_fills l))
    \<and> distinct (map fl_decision (ld_fills l))"
proof -
  have ok: "ledger_ok t l" using ledger_reachable_ok [OF assms] by simp
  have "distinct (map fl_decision (ld_fills l))" using ledger_okD(5) [OF ok] by (simp add: decisions_ok_def)
  then show ?thesis
    using ledger_okD(1) [OF ok] ledger_okD(3) [OF ok] unfolding position_ok_def by blast
qed

lemma ledger_balances_witness:
  "map_option ps_quantity (ld_positions bought_ledger ''600000.SH'') = Some 100
    \<and> ps_sellable (held_position bought_ledger ''600000.SH'') \<le> ps_quantity (held_position bought_ledger ''600000.SH'')
    \<and> distinct (map fl_decision (ld_fills bought_ledger))"
proof -
  have "map_option ps_quantity (ld_positions bought_ledger ''600000.SH'') = Some 100" by code_simp
  then show ?thesis using ledger_balances [OF bought_reachable] by blast
qed

text \<open>
  A fill only knows what was captured when it was accepted: its price is positive and from one
  of the two trusted sources, and its quote was observed at the acceptance or at most 300 seconds
  before it.
\<close>

theorem fills_point_in_time:
  assumes "ledger_reachable (l, t)" and "f \<in> set (ld_fills l)"
  shows "0 < fl_quantity f \<and> 0 < fl_price f \<and> fl_source f \<in> {''tencent_free'', ''tushare_super_get_rt_k''}
    \<and> fl_quote_at f \<le> fl_at f \<and> fl_at f - fl_quote_at f \<le> 300 * us_second \<and> fl_at f \<le> t"
  using ledger_okD(2) [OF ledger_reachable_ok [OF assms(1)]] assms(2)
  by (simp add: fill_ok_def FILL_SOURCES_def MAX_FILL_QUOTE_AGE_SECONDS_def)

lemma fills_point_in_time_witness:
  "ld_fills bought_ledger \<noteq> [] \<and> list_all (\<lambda>f. 0 < fl_price f \<and> fl_quote_at f \<le> fl_at f) (ld_fills bought_ledger)"
  unfolding list_all_iff using bought_fills fills_point_in_time [OF bought_reachable] by auto

text \<open>
  A purchase that is accepted before an account is configured raises instead of being recorded
  as not filled for \<open>paper_account_not_configured\<close>: with a usable and fresh quote the cash of the
  missing account is read.
\<close>

theorem buy_without_account_raises:
  assumes "py_next (\<lambda>d. dc_id d = i) (ld_decisions l) = Some d" "dc_status d = ''proposed''" "0 < dc_direction d"
    and "round_lot quantity = Inr n" "0 < n" "ld_accounts l key = None"
    and "latest_local_quote (ld_quotes l) (dc_symbol d) now = Some q" "0 < quote_number (Some q)"
    and "now - cq_observed q \<le> 300 * us_second"
  shows "accept_paper_decision clock i quantity now key l = (Inl LedgerType, l)"
  using assms
  by (simp add: accept_paper_decision_def decision_side_def accept_proposed_def Let_def fill_reasons_def
      quote_reasons_def MAX_FILL_QUOTE_AGE_SECONDS_def)

definition proposed_decision :: paper_decision where
  "proposed_decision = \<lparr>dc_id = 7, dc_event = 1, dc_strategy = ''s'', dc_version = ''v'', dc_symbol = ''600000.SH'',
     dc_direction = 1, dc_status = ''proposed'', dc_at = 0, dc_target_quantity = 100, dc_target_weight = 0\<rparr>"

definition proposed_ledger :: ledger where
  "proposed_ledger = (empty_ledger [''600000.SH''])\<lparr>ld_quotes := [example_quote], ld_decisions := [proposed_decision]\<rparr>"

lemma buy_without_account_raises_witness:
  "accept_paper_decision 0 7 100 0 ''default'' proposed_ledger = (Inl LedgerType, proposed_ledger)"
proof (rule buy_without_account_raises [where d = proposed_decision and q = example_quote and n = 100])
  show "round_lot 100 = Inr 100" by code_simp
qed (simp_all add: proposed_ledger_def proposed_decision_def empty_ledger_def example_quote_def py_next_def
    latest_local_quote_def later_quote_def FILL_SOURCES_def quote_number_def us_defs)

text \<open>
  One order the database refuses loses the pass. When a plan holds an order of a name that is
  not among the instruments, nothing of the plan is kept, the sales that were due before it
  included: the refusal aborts the transaction all orders share, although the answers of the orders
  before it say they were submitted.
\<close>

theorem unknown_instrument_drops_pass:
  assumes "r \<in> set (plan_requests pl)" and "rq_symbol r \<notin> set (ld_instruments l)"
  shows "snd (place_plan clock now pl l) = l"
  unfolding place_plan_def by (rule pl.execute_doomed [OF assms])

lemma unknown_instrument_drops_pass_witness:
  "submitted_count (fst (place_plan 0 0 (example_plan [''600000.SH'', ''x'']) funded_ledger)) = 1
    \<and> snd (place_plan 0 0 (example_plan [''600000.SH'', ''x'']) funded_ledger) = funded_ledger"
proof
  show "submitted_count (fst (place_plan 0 0 (example_plan [''600000.SH'', ''x'']) funded_ledger)) = 1" by code_simp
  show "snd (place_plan 0 0 (example_plan [''600000.SH'', ''x'']) funded_ledger) = funded_ledger"
    by (rule unknown_instrument_drops_pass [of "of_buy \<lparr>bo_symbol = ''x'', bo_quantity = 100, bo_price = 10,
        bo_notional = 1000, bo_intent = example_intent\<rparr>"])
      (simp_all add: plan_requests_def example_plan_def of_buy_def funded_ledger_def configure_paper_account_def Let_def empty_ledger_def)
qed

text \<open>
  A repeated order is placed again: the bridge never answers that an identical decision exists,
  because every placing draws a new event and decisions are unique per event. The signal key, the
  same for the repeat, is stored and read by nobody.
\<close>

theorem repeated_order_placed_again:
  assumes "ledger_reachable (l, t)" and "t \<le> now"
  shows "Duplicate \<notin> set (fst (place_plan clock now pl l))"
proof -
  have "ledger_ok now l" using ledger_ok_later [OF _ assms(2)] ledger_reachable_ok [OF assms(1)] by simp
  from pl.execute_new [OF this] show ?thesis by (simp add: place_plan_def)
qed

lemma repeated_order_placed_again_witness:
  "Duplicate \<notin> set (fst (place_plan 0 0 (example_plan [''600000.SH'']) bought_ledger))
    \<and> submitted_count (fst (place_plan 0 0 (example_plan [''600000.SH'']) bought_ledger)) = 1"
proof
  show "Duplicate \<notin> set (fst (place_plan 0 0 (example_plan [''600000.SH'']) bought_ledger))"
    by (rule repeated_order_placed_again [OF bought_reachable order_refl])
  show "submitted_count (fst (place_plan 0 0 (example_plan [''600000.SH'']) bought_ledger)) = 1" by code_simp
qed

end
