(* ===== verification/OutcomeSettlement.thy ===== *)
theory OutcomeSettlement
  imports IntradayClock PyCells "HOL-Library.Product_Lexorder"
begin

text \<open>
  \<open>quant-service/app/intraday_outcome_settlement.py\<close> with the primitives of \<open>intraday_outcomes.py\<close> and
  the barrier label of \<open>paper_execution.py\<close>: what became of a confirmed signal, read from the prices
  the scans stored. Decimals are rationals rounded by the Decimal context where the code computes
  with them. The tables are lists of their rows; evidence and source notes, which nothing here reads
  back, are left out.
\<close>

section \<open>Primitives\<close>

definition INTRADAY_OUTCOME_HORIZONS :: "(string \<times> int) list" where
  "INTRADAY_OUTCOME_HORIZONS = [(''5m'', 5), (''15m'', 15), (''30m'', 30)]"

definition intraday_signal_direction :: "string \<Rightarrow> int option" where
  "intraday_signal_direction signal_type =
     (if signal_type \<in> {''entry'', ''watch''} then Some 1
      else if signal_type \<in> {''reduce'', ''exit''} then Some (- 1) else None)"

record path_metrics =
  pm_raw :: rat
  pm_favorable :: rat
  pm_adverse :: rat

definition path_return :: "rat \<Rightarrow> int \<Rightarrow> rat \<Rightarrow> rat" where
  "path_return entry_price direction price = dmul (of_int direction) (dsub (dec (price / entry_price)) 1)"

definition intraday_signal_outcome_metrics :: "rat \<Rightarrow> int \<Rightarrow> rat list \<Rightarrow> path_metrics option" where
  "intraday_signal_outcome_metrics entry_price direction prices =
     (if entry_price \<le> 0 \<or> direction \<notin> {- 1, 1} \<or> prices = [] then None
      else case map (path_return entry_price direction) (filter (\<lambda>p. 0 < p) prices) of
        [] \<Rightarrow> None
      | r # rs \<Rightarrow> Some \<lparr>pm_raw = last (r # rs), pm_favorable = fold max rs r, pm_adverse = fold min rs r\<rparr>)"

record return_legs =
  rl_to_close :: "rat option"
  rl_overnight :: "rat option"
  rl_next_day :: "rat option"
  rl_to_next_close :: "rat option"

text \<open>\<open>x and x > 0\<close> of an optional Decimal.\<close>

definition positive :: "rat option \<Rightarrow> rat option" where
  "positive x = (case x of None \<Rightarrow> None | Some v \<Rightarrow> if 0 < v then Some v else None)"

definition signed_leg :: "int \<Rightarrow> rat option \<Rightarrow> rat option \<Rightarrow> rat option" where
  "signed_leg direction base price =
     (case (positive base, positive price) of
        (Some b, Some p) \<Rightarrow> Some (path_return b direction p)
      | _ \<Rightarrow> None)"

definition a_share_return_decomposition ::
    "rat \<Rightarrow> int \<Rightarrow> rat option \<Rightarrow> rat option \<Rightarrow> rat option \<Rightarrow> return_legs" where
  "a_share_return_decomposition entry_price direction same_day_close next_day_open next_day_close =
     (if entry_price \<le> 0 \<or> direction \<notin> {- 1, 1}
      then \<lparr>rl_to_close = None, rl_overnight = None, rl_next_day = None, rl_to_next_close = None\<rparr>
      else \<lparr>rl_to_close = signed_leg direction (Some entry_price) same_day_close,
            rl_overnight = signed_leg direction same_day_close next_day_open,
            rl_next_day = signed_leg direction next_day_open next_day_close,
            rl_to_next_close = signed_leg direction (Some entry_price) next_day_close\<rparr>)"

definition intraday_outcome_cutoff :: "date option \<Rightarrow> instant \<Rightarrow> instant" where
  "intraday_outcome_cutoff as_of_date now =
     (case as_of_date of None \<Rightarrow> now | Some d \<Rightarrow> combine_local d (us_day - 1))"

section \<open>The barrier label\<close>

text \<open>The returns of a spec are the decimals of their texts. \<open>timestamp()\<close> is a float.\<close>

record label_spec =
  ls_upper :: rat
  ls_lower :: rat
  ls_minutes :: int
  ls_cost_bps :: rat

definition LabelSpec :: label_spec where
  "LabelSpec = \<lparr>ls_upper = 3 / 100, ls_lower = - 2 / 100, ls_minutes = 60, ls_cost_bps = 18\<rparr>"

definition timestamp :: "instant \<Rightarrow> rat" where
  "timestamp t = flt (of_int t / 1000000)"

datatype barrier_label = UpperTouched | LowerTouched | TimeUp

datatype barrier_status =
    BarrierUnavailable "(instant \<times> rat) option"
  | BarrierPending instant rat
  | BarrierMatured barrier_label instant rat

record barrier_result =
  ba_status :: barrier_status
  ba_net :: "rat option"
  ba_gross :: "rat option"

text \<open>A row of the path: its time, \<^const>\<open>None\<close> when it has none, and its price, 0 when it has none.\<close>

type_synonym path_row = "instant option \<times> rat"

definition barrier_deadline :: "instant \<Rightarrow> int \<Rightarrow> rat" where
  "barrier_deadline entry_at minutes = fadd (timestamp entry_at) (of_int (minutes * 60))"

definition in_horizon :: "instant \<Rightarrow> rat \<Rightarrow> path_row \<Rightarrow> bool" where
  "in_horizon entry_at deadline row =
     (case fst row of None \<Rightarrow> False
      | Some t \<Rightarrow> timestamp entry_at \<le> timestamp t \<and> timestamp t \<le> deadline \<and> snd row \<noteq> 0)"

fun barrier_walk ::
    "instant \<Rightarrow> rat \<Rightarrow> rat \<Rightarrow> rat \<Rightarrow> path_row list \<Rightarrow> (instant \<times> rat) option \<Rightarrow> barrier_status" where
  "barrier_walk entry_at deadline upper lower [] previous =
     (case previous of
        None \<Rightarrow> BarrierUnavailable None
      | Some (t, close) \<Rightarrow> if timestamp t < deadline then BarrierPending t close else BarrierMatured TimeUp t close)"
| "barrier_walk entry_at deadline upper lower (row # rows) previous =
     (if \<not> in_horizon entry_at deadline row then barrier_walk entry_at deadline upper lower rows previous
      else if upper \<le> snd row then BarrierMatured UpperTouched (the (fst row)) (snd row)
      else if snd row \<le> lower then BarrierMatured LowerTouched (the (fst row)) (snd row)
      else barrier_walk entry_at deadline upper lower rows (Some (the (fst row), snd row)))"

definition barrier_price :: "rat \<Rightarrow> rat \<Rightarrow> rat" where
  "barrier_price entry_price change = dmul entry_price (dadd 1 change)"

definition triple_barrier_label :: "path_row list \<Rightarrow> rat \<Rightarrow> instant \<Rightarrow> label_spec \<Rightarrow> barrier_result res" where
  "triple_barrier_label path entry_price entry_at spec =
     (let cost_rate = dec (max 0 (ls_cost_bps spec) / 10000);
          status = barrier_walk entry_at (barrier_deadline entry_at (ls_minutes spec))
            (barrier_price entry_price (ls_upper spec)) (barrier_price entry_price (ls_lower spec)) path None
      in case status of
           BarrierMatured label t close \<Rightarrow>
             bindR (ddiv close entry_price) (\<lambda>ratio.
               let gross = dsub ratio 1 in
               Inr \<lparr>ba_status = status, ba_net = Some (flt (dsub gross cost_rate)), ba_gross = Some (flt gross)\<rparr>)
         | _ \<Rightarrow> Inr \<lparr>ba_status = status, ba_net = None, ba_gross = None\<rparr>)"

section \<open>Stored prices\<close>

definition PRICED_QUOTE_SOURCES :: "string list" where
  "PRICED_QUOTE_SOURCES = [''longhuvip'', ''tencent_free'', ''fuyao_ths'']"

record price_row =
  pr_symbol :: string
  pr_source :: string
  pr_at :: instant
  pr_price :: rat

record daily_bar =
  db_symbol :: string
  db_day :: date
  db_available :: instant
  db_open :: "rat option"
  db_close :: rat

record price_store =
  st_tape :: "price_row list"
  st_quotes :: "price_row list"
  st_daily :: "daily_bar list"

definition day_rows :: "price_row list \<Rightarrow> instant \<Rightarrow> string \<Rightarrow> date \<Rightarrow> (instant \<times> rat) list" where
  "day_rows rows cutoff symbol day =
     map (\<lambda>r. (pr_at r, pr_price r))
       (filter (\<lambda>r. pr_symbol r = symbol \<and> local_date (pr_at r) = day \<and> pr_at r \<le> cutoff \<and> 0 < pr_price r) rows)"

text \<open>\<open>series\<close>: the quotes of the day under the tape, one price for each time, by time. Of rows of one
  time the last one wins.\<close>

definition price_series :: "price_store \<Rightarrow> instant \<Rightarrow> string \<Rightarrow> date \<Rightarrow> (instant \<times> rat) list" where
  "price_series store cutoff symbol day =
     (let rows = day_rows (filter (\<lambda>r. pr_source r \<in> set PRICED_QUOTE_SOURCES) (st_quotes store)) cutoff symbol day
            @ day_rows (st_tape store) cutoff symbol day
      in map (\<lambda>t. (t, the (map_of (rev rows) t))) (sort (remdups (map fst rows))))"

definition bisect_right :: "'a :: linorder list \<Rightarrow> 'a \<Rightarrow> nat" where
  "bisect_right xs x = length (takeWhile (\<lambda>y. y \<le> x) xs)"

definition bisect_left :: "'a :: linorder list \<Rightarrow> 'a \<Rightarrow> nat" where
  "bisect_left xs x = length (takeWhile (\<lambda>y. y < x) xs)"

definition last_at_or_before :: "price_store \<Rightarrow> instant \<Rightarrow> string \<Rightarrow> instant \<Rightarrow> instant \<Rightarrow> (instant \<times> rat) option" where
  "last_at_or_before store cutoff symbol t not_before =
     (let rows = price_series store cutoff symbol (local_date t); n = bisect_right (map fst rows) t in
      if 0 < n \<and> not_before \<le> fst (rows ! (n - 1)) then Some (rows ! (n - 1)) else None)"

definition first_in :: "price_store \<Rightarrow> instant \<Rightarrow> string \<Rightarrow> instant \<Rightarrow> instant \<Rightarrow> (instant \<times> rat) option" where
  "first_in store cutoff symbol start stop =
     (let rows = price_series store cutoff symbol (local_date start); n = bisect_left (map fst rows) start in
      if n < length rows \<and> fst (rows ! n) \<le> stop then Some (rows ! n) else None)"

definition between :: "price_store \<Rightarrow> instant \<Rightarrow> string \<Rightarrow> instant \<Rightarrow> instant \<Rightarrow> bool \<Rightarrow> (instant \<times> rat) list" where
  "between store cutoff symbol start stop include_start =
     (let rows = price_series store cutoff symbol (local_date start);
          low = (if include_start then bisect_left (map fst rows) start else bisect_right (map fst rows) start);
          high = bisect_right (map fst rows) stop
      in slice low high rows)"

section \<open>The settlement of a signal\<close>

definition INTRADAY_EXIT_QUOTE_TOLERANCE_SECONDS :: int where "INTRADAY_EXIT_QUOTE_TOLERANCE_SECONDS = 90"

text \<open>The three prices of a signal's evidence, after \<open>decimal_or_none\<close>.\<close>

record settled_signal =
  ss_symbol :: string
  ss_type :: string
  ss_observed :: instant
  ss_prices :: "rat option list"

definition signal_entry_price :: "rat option list \<Rightarrow> rat option" where
  "signal_entry_price prices = Option.bind (py_next (\<lambda>p. positive p \<noteq> None) prices) positive"

definition signal_entry :: "price_store \<Rightarrow> instant \<Rightarrow> settled_signal \<Rightarrow> (instant \<times> rat) option" where
  "signal_entry store cutoff s =
     (case signal_entry_price (ss_prices s) of
        Some p \<Rightarrow> Some (ss_observed s, p)
      | None \<Rightarrow>
          (case continuous_auction_bounds (ss_observed s) of
             None \<Rightarrow> None
           | Some (session_start, session_end) \<Rightarrow>
               last_at_or_before store cutoff (ss_symbol s) (ss_observed s)
                 (max session_start (ss_observed s - 90 * us_second))))"

definition barrier_rows :: "price_store \<Rightarrow> instant \<Rightarrow> string \<Rightarrow> instant \<Rightarrow> instant \<Rightarrow> int \<Rightarrow> path_row list" where
  "barrier_rows store cutoff symbol entry_at session_end minutes =
     map (\<lambda>(t, p). (Some t, p))
       (between store cutoff symbol entry_at (min (min cutoff session_end) (entry_at + minutes * us_minute)) False)"

definition settle_barrier :: "price_store \<Rightarrow> instant \<Rightarrow> label_spec \<Rightarrow> string \<Rightarrow> instant \<Rightarrow> rat \<Rightarrow> barrier_result res" where
  "settle_barrier store cutoff spec symbol entry_at entry_price =
     (case continuous_auction_bounds entry_at of
        None \<Rightarrow> Inr \<lparr>ba_status = BarrierUnavailable None, ba_net = None, ba_gross = None\<rparr>
      | Some (session_start, session_end) \<Rightarrow>
          bindR (triple_barrier_label (barrier_rows store cutoff symbol entry_at session_end (ls_minutes spec))
              entry_price entry_at spec) (\<lambda>result.
            case ba_status result of
              BarrierPending t p \<Rightarrow>
                if session_end < entry_at + ls_minutes spec * us_minute \<and> session_end \<le> cutoff
                then Inr \<lparr>ba_status = BarrierUnavailable (Some (t, p)), ba_net = None, ba_gross = None\<rparr>
                else Inr result
            | _ \<Rightarrow> Inr result))"

datatype outcome_status = OutcomeMatured | OutcomePending | OutcomeUnavailable

record horizon_outcome =
  ho_status :: outcome_status
  ho_exit :: "(instant \<times> rat) option"
  ho_metrics :: "path_metrics option"

definition horizon_exit :: "price_store \<Rightarrow> instant \<Rightarrow> string \<Rightarrow> instant \<Rightarrow> int \<Rightarrow> (instant \<times> rat) option" where
  "horizon_exit store cutoff symbol entry_at minutes =
     (case ow_query (intraday_outcome_window entry_at minutes cutoff INTRADAY_EXIT_QUOTE_TOLERANCE_SECONDS True) of
        None \<Rightarrow> None
      | Some (query_start, query_end) \<Rightarrow>
          if query_start \<le> query_end then first_in store cutoff symbol query_start query_end else None)"

definition settle_horizon ::
    "price_store \<Rightarrow> instant \<Rightarrow> string \<Rightarrow> instant \<Rightarrow> instant \<Rightarrow> rat \<Rightarrow> int \<Rightarrow> int \<Rightarrow> horizon_outcome" where
  "settle_horizon store cutoff symbol observed_at entry_at entry_price direction minutes =
     (let window = intraday_outcome_window entry_at minutes cutoff INTRADAY_EXIT_QUOTE_TOLERANCE_SECONDS True in
      case horizon_exit store cutoff symbol entry_at minutes of
        None \<Rightarrow> \<lparr>ho_status = (if ow_status window = Pending then OutcomePending else OutcomeUnavailable),
                 ho_exit = None, ho_metrics = None\<rparr>
      | Some (t, price) \<Rightarrow>
          let path = map snd (filter (\<lambda>(u, p). continuous_auction_bounds u \<noteq> None)
                (between store cutoff symbol observed_at t True))
          in \<lparr>ho_status = OutcomeMatured, ho_exit = Some (t, price),
              ho_metrics = intraday_signal_outcome_metrics entry_price direction (if path = [] then [price] else path)\<rparr>)"

definition daily_candidates :: "price_store \<Rightarrow> instant \<Rightarrow> settled_signal \<Rightarrow> daily_bar list" where
  "daily_candidates store cutoff s =
     sort_key (\<lambda>b. (db_day b, db_available b))
       (filter (\<lambda>b. db_symbol b = ss_symbol s \<and> db_day b \<le> local_date cutoff
          \<and> ss_observed s < db_available b \<and> db_available b \<le> cutoff) (st_daily store))"

definition same_day_bar :: "price_store \<Rightarrow> instant \<Rightarrow> settled_signal \<Rightarrow> daily_bar option" where
  "same_day_bar store cutoff s =
     py_next (\<lambda>b. db_day b = local_date (ss_observed s)) (daily_candidates store cutoff s)"

definition next_day_bar :: "price_store \<Rightarrow> instant \<Rightarrow> settled_signal \<Rightarrow> daily_bar option" where
  "next_day_bar store cutoff s =
     py_next (\<lambda>b. local_date (ss_observed s) < db_day b) (daily_candidates store cutoff s)"

record daily_outcome =
  do_status :: outcome_status
  do_exit :: "(instant \<times> rat) option"
  do_metrics :: "path_metrics option"
  do_legs :: "return_legs option"

definition settle_daily :: "daily_bar option \<Rightarrow> rat \<Rightarrow> int \<Rightarrow> return_legs option \<Rightarrow> daily_outcome" where
  "settle_daily bar entry_price direction legs =
     (case bar of
        None \<Rightarrow> \<lparr>do_status = OutcomePending, do_exit = None, do_metrics = None, do_legs = legs\<rparr>
      | Some b \<Rightarrow> \<lparr>do_status = OutcomeMatured, do_exit = Some (db_available b, db_close b),
          do_metrics = intraday_signal_outcome_metrics entry_price direction [db_close b], do_legs = legs\<rparr>)"

record signal_settlement =
  sm_entry :: "instant \<times> rat"
  sm_direction :: int
  sm_barrier :: barrier_result
  sm_horizons :: "(string \<times> horizon_outcome) list"
  sm_close :: daily_outcome
  sm_next_close :: daily_outcome

text \<open>One turn of the loop of \<open>settle\<close>; \<^const>\<open>None\<close> is a skipped signal.\<close>

definition settle_signal ::
    "price_store \<Rightarrow> instant \<Rightarrow> (string \<times> int) list \<Rightarrow> label_spec \<Rightarrow> settled_signal \<Rightarrow> signal_settlement option res" where
  "settle_signal store cutoff horizons spec s =
     (case (signal_entry store cutoff s, intraday_signal_direction (ss_type s)) of
        (Some (entry_at, entry_price), Some direction) \<Rightarrow>
          bindR (settle_barrier store cutoff spec (ss_symbol s) entry_at entry_price) (\<lambda>barrier.
            let same_day = same_day_bar store cutoff s; next_day = next_day_bar store cutoff s;
                legs = a_share_return_decomposition entry_price direction (map_option db_close same_day)
                  (Option.bind next_day db_open) (map_option db_close next_day)
            in Inr (Some \<lparr>sm_entry = (entry_at, entry_price), sm_direction = direction, sm_barrier = barrier,
                 sm_horizons = map (\<lambda>(key, minutes). (key, settle_horizon store cutoff (ss_symbol s) (ss_observed s)
                   entry_at entry_price direction minutes)) horizons,
                 sm_close = settle_daily same_day entry_price direction None,
                 sm_next_close = settle_daily next_day entry_price direction (Some legs)\<rparr>))
      | _ \<Rightarrow> Inr None)"

record settle_counts =
  sc_signals :: nat
  sc_skipped :: nat
  sc_matured :: nat
  sc_pending :: nat

definition settled_statuses :: "signal_settlement \<Rightarrow> outcome_status list" where
  "settled_statuses m = map (ho_status \<circ> snd) (sm_horizons m) @ [do_status (sm_close m), do_status (sm_next_close m)]"

definition settle_signals ::
    "price_store \<Rightarrow> instant \<Rightarrow> (string \<times> int) list \<Rightarrow> label_spec \<Rightarrow> settled_signal list
      \<Rightarrow> (signal_settlement option list \<times> settle_counts) res" where
  "settle_signals store cutoff horizons spec signals =
     bindR (mapR (settle_signal store cutoff horizons spec) signals) (\<lambda>rows.
       let statuses = concat (map (\<lambda>m. case m of None \<Rightarrow> [] | Some m \<Rightarrow> settled_statuses m) rows) in
       Inr (rows, \<lparr>sc_signals = length signals, sc_skipped = length (filter (\<lambda>m. m = None) rows),
         sc_matured = length (filter ((=) OutcomeMatured) statuses),
         sc_pending = length (filter ((=) OutcomePending) statuses)\<rparr>))"

section \<open>Price series\<close>

text \<open>On rows sorted by time, a prefix of earlier times is a filter.\<close>

lemma while_sorted:
  fixes rows :: "('a :: linorder \<times> 'b) list"
  assumes "sorted (map fst rows)" "\<And>y z. y \<le> z \<Longrightarrow> P z \<Longrightarrow> P y"
  shows "takeWhile (\<lambda>r. P (fst r)) rows = filter (\<lambda>r. P (fst r)) rows
    \<and> dropWhile (\<lambda>r. P (fst r)) rows = filter (\<lambda>r. \<not> P (fst r)) rows"
  using assms(1)
proof (induction rows)
  case (Cons a rows)
  have "\<not> P (fst a) \<Longrightarrow> \<forall>r \<in> set rows. \<not> P (fst r)" using Cons.prems assms(2) by auto
  then show ?case
    using Cons by (auto simp: filter_empty_conv intro!: filter_True [symmetric])
qed simp

lemma slice_sorted:
  fixes rows :: "('a :: linorder \<times> 'b) list"
  assumes "sorted (map fst rows)" "\<And>y z. y \<le> z \<Longrightarrow> A z \<Longrightarrow> A y" "\<And>y z. y \<le> z \<Longrightarrow> B z \<Longrightarrow> B y"
  shows "slice (length (takeWhile (\<lambda>r. A (fst r)) rows)) (length (takeWhile (\<lambda>r. B (fst r)) rows)) rows
    = filter (\<lambda>r. \<not> A (fst r) \<and> B (fst r)) rows"
  using assms(1)
proof (induction rows)
  case (Cons a rows)
  have later: "fst a \<le> fst r" if "r \<in> set rows" for r using Cons.prems that by simp
  show ?case
  proof (cases "A (fst a)")
    case True
    show ?thesis
    proof (cases "B (fst a)")
      case True
      then show ?thesis using \<open>A (fst a)\<close> Cons by (simp add: slice_def)
    next
      case False
      then have "\<forall>r \<in> set rows. \<not> B (fst r)" using later assms(3) by blast
      then show ?thesis using False by (simp add: slice_def filter_empty_conv)
    qed
  next
    case False
    then have "\<forall>r \<in> set (a # rows). \<not> A (fst r)" using later assms(2) by auto
    then have "filter (\<lambda>r. \<not> A (fst r) \<and> B (fst r)) (a # rows) = filter (\<lambda>r. B (fst r)) (a # rows)"
      by (intro filter_cong [OF refl]) blast
    also have "\<dots> = takeWhile (\<lambda>r. B (fst r)) (a # rows)"
      by (rule while_sorted [where P = B, OF Cons.prems assms(3), THEN conjunct1, symmetric])
    finally have "filter (\<lambda>r. \<not> A (fst r) \<and> B (fst r)) (a # rows) = takeWhile (\<lambda>r. B (fst r)) (a # rows)" .
    moreover have "takeWhile (\<lambda>r. A (fst r)) (a # rows) = []" using False by simp
    moreover have "slice 0 (length (takeWhile (\<lambda>r. B (fst r)) (a # rows))) (a # rows) = takeWhile (\<lambda>r. B (fst r)) (a # rows)"
      unfolding slice_def diff_zero drop_0 by (rule takeWhile_eq_take [symmetric])
    ultimately show ?thesis by (simp only: list.size)
  qed
qed (simp add: slice_def)

lemma length_bisect:
  "bisect_right (map fst rows) x = length (takeWhile (\<lambda>r. fst r \<le> x) rows)"
  "bisect_left (map fst rows) x = length (takeWhile (\<lambda>r. fst r < x) rows)"
  by (simp_all add: bisect_right_def bisect_left_def takeWhile_map comp_def)

lemma series_times:
  "map fst (price_series store cutoff symbol day) = sort (remdups (map fst
     (day_rows (filter (\<lambda>r. pr_source r \<in> set PRICED_QUOTE_SOURCES) (st_quotes store)) cutoff symbol day
      @ day_rows (st_tape store) cutoff symbol day)))"
  by (simp add: price_series_def Let_def comp_def)

lemma series_sorted: "sorted (map fst (price_series store cutoff symbol day))"
  unfolding series_times by simp

lemma series_distinct: "distinct (map fst (price_series store cutoff symbol day))"
  unfolding series_times by simp

lemma day_rows_mem:
  "(t, p) \<in> set (day_rows rows cutoff symbol day)
     \<longleftrightarrow> (\<exists>r \<in> set rows. pr_at r = t \<and> pr_price r = p \<and> pr_symbol r = symbol \<and> local_date t = day \<and> t \<le> cutoff \<and> 0 < p)"
  by (auto simp: day_rows_def)

lemma series_mem:
  assumes "(t, p) \<in> set (price_series store cutoff symbol day)"
  shows "\<exists>r \<in> set (st_quotes store) \<union> set (st_tape store). pr_at r = t \<and> pr_price r = p \<and> pr_symbol r = symbol
    \<and> local_date t = day \<and> t \<le> cutoff \<and> 0 < p"
proof -
  let ?rows = "day_rows (filter (\<lambda>r. pr_source r \<in> set PRICED_QUOTE_SOURCES) (st_quotes store)) cutoff symbol day
      @ day_rows (st_tape store) cutoff symbol day"
  have "t \<in> set (map fst ?rows)" "p = the (map_of (rev ?rows) t)"
    using assms by (auto simp: price_series_def Let_def)
  moreover have "map_of (rev ?rows) t \<noteq> None"
    using calculation(1) unfolding map_of_eq_None_iff set_rev set_map by blast
  ultimately have "map_of (rev ?rows) t = Some p" by auto
  then have "(t, p) \<in> set ?rows" by (auto dest: map_of_SomeD)
  then show ?thesis by (auto simp: day_rows_mem)
qed

text \<open>What an earlier cutoff sees is the beginning of what a later one sees.\<close>

lemma day_rows_cutoff:
  "cutoff \<le> later \<Longrightarrow> day_rows rows cutoff symbol day = filter (\<lambda>r. fst r \<le> cutoff) (day_rows rows later symbol day)"
  by (auto simp: day_rows_def filter_map comp_def intro!: arg_cong [where f = "map _"] filter_cong)

lemma map_of_filter_fst: "P t \<Longrightarrow> map_of (filter (\<lambda>r. P (fst r)) rows) t = map_of rows t"
  by (induction rows) auto

lemma sort_filter: "sort (filter P xs) = filter P (sort xs)" for xs :: "'a :: linorder list"
  by (rule properties_for_sort) (simp_all add: sorted_filter [of "\<lambda>x. x", simplified])

lemma remdups_filter_comm: "remdups (filter P xs) = filter P (remdups xs)"
  by (induction xs) auto

lemma series_cutoff:
  assumes "cutoff \<le> later"
  shows "price_series store cutoff symbol day = filter (\<lambda>r. fst r \<le> cutoff) (price_series store later symbol day)"
proof -
  define rows where "rows c = day_rows (filter (\<lambda>r. pr_source r \<in> set PRICED_QUOTE_SOURCES) (st_quotes store)) c symbol day
      @ day_rows (st_tape store) c symbol day" for c
  have series: "price_series store c symbol day = map (\<lambda>t. (t, the (map_of (rev (rows c)) t))) (sort (remdups (map fst (rows c))))" for c
    by (simp add: price_series_def rows_def Let_def)
  have cut: "rows cutoff = filter (\<lambda>r. fst r \<le> cutoff) (rows later)"
    unfolding rows_def by (simp add: day_rows_cutoff [OF assms])
  have times: "sort (remdups (map fst (rows cutoff))) = filter (\<lambda>t. t \<le> cutoff) (sort (remdups (map fst (rows later))))"
    by (simp add: cut sort_filter [symmetric] remdups_filter_comm [symmetric] filter_map comp_def)
  have "map_of (rev (rows cutoff)) t = map_of (rev (rows later)) t" if "t \<le> cutoff" for t
    using map_of_filter_fst [of "\<lambda>t. t \<le> cutoff" t "rev (rows later)"] that by (simp add: cut rev_filter)
  then show ?thesis
    unfolding series times by (auto simp: filter_map comp_def)
qed

lemma between_rows:
  "between store cutoff symbol start stop inc =
     filter (\<lambda>r. (if inc then start \<le> fst r else start < fst r) \<and> fst r \<le> stop) (price_series store cutoff symbol (local_date start))"
  using slice_sorted [OF series_sorted [of store cutoff symbol "local_date start"], of "\<lambda>y. y < start" "\<lambda>y. y \<le> stop"]
    slice_sorted [OF series_sorted [of store cutoff symbol "local_date start"], of "\<lambda>y. y \<le> start" "\<lambda>y. y \<le> stop"]
  by (cases inc) (simp_all add: between_def Let_def length_bisect not_le not_less)

lemma between_cutoff:
  assumes "cutoff \<le> later" "stop \<le> cutoff"
  shows "between store later symbol start stop inc = between store cutoff symbol start stop inc"
  unfolding between_rows series_cutoff [OF assms(1)] filter_filter
  by (rule filter_cong [OF refl]) (use assms in auto)

lemma first_in_find:
  "first_in store cutoff symbol start stop =
     py_next (\<lambda>r. start \<le> fst r \<and> fst r \<le> stop) (price_series store cutoff symbol (local_date start))"
proof -
  let ?rows = "price_series store cutoff symbol (local_date start)"
  let ?n = "length (takeWhile (\<lambda>r. fst r < start) ?rows)"
  have dw: "drop ?n ?rows = filter (\<lambda>r. start \<le> fst r) ?rows"
    using while_sorted [OF series_sorted [of store cutoff symbol "local_date start"], of "\<lambda>y. y < start", THEN conjunct2]
    by (simp only: dropWhile_eq_drop not_less)
  have find: "py_next (\<lambda>r. start \<le> fst r \<and> fst r \<le> stop) xs = py_next (\<lambda>r. fst r \<le> stop) (filter (\<lambda>r. start \<le> fst r) xs)" for xs :: "(int \<times> rat) list"
    by (induction xs) (auto simp: py_next_def)
  show ?thesis
  proof (cases "?n < length ?rows")
    case True
    then have cons: "filter (\<lambda>r. start \<le> fst r) ?rows = ?rows ! ?n # drop (Suc ?n) ?rows"
      using dw by (simp add: Cons_nth_drop_Suc)
    have "sorted (map fst (filter (\<lambda>r. start \<le> fst r) ?rows))" using series_sorted by (simp add: sorted_filter)
    then have "\<forall>r \<in> set (drop (Suc ?n) ?rows). fst (?rows ! ?n) \<le> fst r" unfolding cons by auto
    then have "fst (?rows ! ?n) \<le> stop \<or> py_next (\<lambda>r. fst r \<le> stop) (drop (Suc ?n) ?rows) = None"
      by (auto simp: py_next_def find_None_iff)
    then show ?thesis
      unfolding find cons using True by (auto simp: first_in_def Let_def length_bisect py_next_def)
  next
    case False
    then have "filter (\<lambda>r. start \<le> fst r) ?rows = []" using dw by simp
    then show ?thesis unfolding find using False by (simp add: first_in_def Let_def length_bisect py_next_def)
  qed
qed

text \<open>The first price in an interval stays the first when the cutoff and the interval's end move on.\<close>

lemma first_in_later:
  assumes "first_in store cutoff symbol start stop = Some r" "cutoff \<le> later" "stop \<le> stop'"
  shows "first_in store later symbol start stop' = Some r"
proof -
  let ?rows = "price_series store later symbol (local_date start)"
  have 1: "py_next (\<lambda>r. start \<le> fst r \<and> fst r \<le> stop) (filter (\<lambda>r. fst r \<le> cutoff) ?rows) = Some r"
    using assms(1) by (simp add: first_in_find series_cutoff [OF assms(2)])
  have srt: "sorted (map fst ?rows)" by (rule series_sorted)
  have "py_next (\<lambda>r. start \<le> fst r \<and> fst r \<le> stop') rows = Some r"
    if "py_next (\<lambda>r. start \<le> fst r \<and> fst r \<le> stop) (filter (\<lambda>r. fst r \<le> cutoff) rows) = Some r" "sorted (map fst rows)"
    for rows :: "(int \<times> rat) list"
    using that
  proof (induction rows)
    case (Cons x rows)
    show ?case
    proof (cases "fst x \<le> cutoff \<and> fst x \<le> stop")
      case True
      then show ?thesis using Cons assms(3) by (auto simp: py_next_def split: if_splits)
    next
      case False
      moreover have "\<forall>y \<in> set (x # rows). fst x \<le> fst y" using Cons.prems(2) by auto
      ultimately have "\<not> (\<exists>y \<in> set (filter (\<lambda>r. fst r \<le> cutoff) (x # rows)). start \<le> fst y \<and> fst y \<le> stop)"
        by (metis (no_types, lifting) mem_Collect_eq order_trans set_filter)
      then show ?thesis using Cons.prems(1) unfolding py_next_def by (metis (no_types, lifting) find_None_iff option.distinct(1))
    qed
  qed (simp add: py_next_def)
  from this [OF 1 srt] show ?thesis by (simp add: first_in_find)
qed

section \<open>Outcomes of a horizon\<close>

lemma first_in_mem:
  assumes "first_in store cutoff symbol start stop = Some (t, p)"
  shows "start \<le> t \<and> t \<le> stop \<and> t \<le> cutoff \<and> 0 < p
    \<and> (\<exists>r \<in> set (st_quotes store) \<union> set (st_tape store). pr_at r = t \<and> pr_price r = p \<and> pr_symbol r = symbol)"
proof -
  have "py_next P xs = Some x \<Longrightarrow> x \<in> set xs \<and> P x" for P and xs :: "(instant \<times> rat) list" and x
    by (induction xs) (auto simp: py_next_def split: if_splits)
  from this [OF assms [unfolded first_in_find]]
  have "(t, p) \<in> set (price_series store cutoff symbol (local_date start))" "start \<le> t" "t \<le> stop" by simp_all
  then show ?thesis using series_mem by blast
qed

lemma horizon_exit_later:
  assumes "horizon_exit store cutoff symbol entry_at minutes = Some r" "cutoff \<le> later"
  shows "horizon_exit store later symbol entry_at minutes = Some r"
proof -
  obtain qs qe where q: "ow_query (intraday_outcome_window entry_at minutes cutoff INTRADAY_EXIT_QUOTE_TOLERANCE_SECONDS True) = Some (qs, qe)"
    "qs \<le> qe" "first_in store cutoff symbol qs qe = Some r"
    using assms(1) by (auto simp: horizon_exit_def split: option.splits if_splits)
  from outcome_window_later [OF q(1) assms(2)] obtain qe' where
    "ow_query (intraday_outcome_window entry_at minutes later INTRADAY_EXIT_QUOTE_TOLERANCE_SECONDS True) = Some (qs, qe')" "qe \<le> qe'"
    by blast
  then show ?thesis using q(2) first_in_later [OF q(3) assms(2)] by (simp add: horizon_exit_def)
qed

lemma horizon_exit_cutoff: "horizon_exit store cutoff symbol entry_at minutes = Some (t, p) \<Longrightarrow> t \<le> cutoff"
  by (auto simp: horizon_exit_def split: option.splits if_splits dest: first_in_mem)


text \<open>
  The exit of an intraday outcome is a stored, positive price of the name, no later than the
  cutoff, from the entry's own day and inside one segment of the continuous auction, at least the
  horizon of trading time after the entry and at most 90 seconds later than that.
\<close>

theorem outcome_exit_bounds:
  assumes "ho_exit (settle_horizon store cutoff symbol observed_at entry_at entry_price direction minutes) = Some (t, p)"
    and "0 \<le> minutes"
  shows "\<exists>target. trading_us target = trading_us entry_at + minutes * us_minute
      \<and> target \<le> t \<and> t \<le> target + 90 * us_second \<and> t \<le> cutoff \<and> 0 < p
      \<and> (\<exists>s e. (local_clock s, local_clock e) \<in> set CONTINUOUS_AUCTION_SESSIONS
          \<and> local_date s = local_date entry_at \<and> local_date e = local_date entry_at \<and> s \<le> t \<and> t \<le> e)
      \<and> (\<exists>r \<in> set (st_quotes store) \<union> set (st_tape store). pr_at r = t \<and> pr_price r = p \<and> pr_symbol r = symbol)"
proof -
  have x: "horizon_exit store cutoff symbol entry_at minutes = Some (t, p)"
    using assms(1) by (auto simp: settle_horizon_def Let_def split: option.splits)
  then obtain qs qe where q: "ow_query (intraday_outcome_window entry_at minutes cutoff INTRADAY_EXIT_QUOTE_TOLERANCE_SECONDS True) = Some (qs, qe)"
    "first_in store cutoff symbol qs qe = Some (t, p)"
    by (auto simp: horizon_exit_def split: option.splits if_splits)
  note mem = first_in_mem [OF q(2)]
  from outcome_window_query [OF q(1)] obtain s e where
    w: "(local_clock s, local_clock e) \<in> set CONTINUOUS_AUCTION_SESSIONS" "local_date s = local_date entry_at"
      "local_date e = local_date entry_at" "s \<le> qs" "qe \<le> e" "trading_us qs = trading_us entry_at + minutes * us_minute"
      "cutoff < qs \<or> qe \<le> qs + 90 * us_second"
    using assms(2) by (auto simp: INTRADAY_EXIT_QUOTE_TOLERANCE_SECONDS_def)
  have session: "\<exists>s e. (local_clock s, local_clock e) \<in> set CONTINUOUS_AUCTION_SESSIONS
      \<and> local_date s = local_date entry_at \<and> local_date e = local_date entry_at \<and> s \<le> t \<and> t \<le> e"
    using w(1-5) mem by (intro exI [of _ s] exI [of _ e]) auto
  show ?thesis by (rule exI [of _ qs]) (use w(6,7) mem session in auto)
qed

section \<open>Barriers\<close>

definition touches :: "rat \<Rightarrow> rat \<Rightarrow> path_row \<Rightarrow> bool" where
  "touches upper lower row = (upper \<le> snd row \<or> snd row \<le> lower)"

text \<open>What the label means: the first price that touches a barrier, or the last price when none does.\<close>

definition barrier_meaning :: "rat \<Rightarrow> rat \<Rightarrow> rat \<Rightarrow> path_row list \<Rightarrow> (instant \<times> rat) option \<Rightarrow> barrier_status" where
  "barrier_meaning deadline upper lower rows previous =
     (case py_next (touches upper lower) rows of
        Some row \<Rightarrow> BarrierMatured (if upper \<le> snd row then UpperTouched else LowerTouched) (the (fst row)) (snd row)
      | None \<Rightarrow>
          (case (if rows = [] then previous else Some (the (fst (last rows)), snd (last rows))) of
             None \<Rightarrow> BarrierUnavailable None
           | Some (t, close) \<Rightarrow> if timestamp t < deadline then BarrierPending t close else BarrierMatured TimeUp t close))"

lemma barrier_walk_meaning:
  "barrier_walk entry_at deadline upper lower path previous
     = barrier_meaning deadline upper lower (filter (in_horizon entry_at deadline) path) previous"
  by (induction path arbitrary: previous) (auto simp: barrier_meaning_def touches_def py_next_def split: option.splits)

text \<open>
  The loop of \<open>triple_barrier_label\<close> computes what the label means. Of the rows inside the horizon
  with a price, the first that touches a barrier decides, the upper one when both are touched;
  without a touch the last of them is the time label when it is not before the deadline, and a
  pending one otherwise. Rows outside the horizon play no part.
\<close>

theorem barrier_label_meaning:
  "barrier_walk entry_at deadline upper lower path None
     = (let rows = filter (in_horizon entry_at deadline) path in
        case py_next (touches upper lower) rows of
          Some row \<Rightarrow> BarrierMatured (if upper \<le> snd row then UpperTouched else LowerTouched) (the (fst row)) (snd row)
        | None \<Rightarrow> if rows = [] then BarrierUnavailable None
            else if timestamp (the (fst (last rows))) < deadline
              then BarrierPending (the (fst (last rows))) (snd (last rows))
            else BarrierMatured TimeUp (the (fst (last rows))) (snd (last rows)))"
  unfolding barrier_walk_meaning by (simp add: barrier_meaning_def Let_def split: option.splits)

text \<open>
  The time barrier is only seen by a price stored at the very instant of the deadline. When no
  stored price of the name touches a barrier and none carries that instant, the barrier outcome of
  an entry whose whole horizon lies in its session never matures: at every cutoff, however late, it
  is pending, or unavailable for want of any price.
\<close>

theorem barrier_stays_pending:
  assumes "continuous_auction_bounds entry_at = Some (s, e)" and "entry_at + ls_minutes spec * us_minute \<le> e"
    and "\<And>r. r \<in> set (st_quotes store) \<union> set (st_tape store) \<Longrightarrow> pr_symbol r = symbol
      \<Longrightarrow> barrier_price entry_price (ls_lower spec) < pr_price r \<and> pr_price r < barrier_price entry_price (ls_upper spec)
        \<and> timestamp (pr_at r) \<noteq> barrier_deadline entry_at (ls_minutes spec)"
  shows "\<exists>r. settle_barrier store cutoff spec symbol entry_at entry_price = Inr r
    \<and> (ba_status r = BarrierUnavailable None \<or> (\<exists>t p. ba_status r = BarrierPending t p))"
proof -
  let ?path = "barrier_rows store cutoff symbol entry_at e (ls_minutes spec)"
  let ?d = "barrier_deadline entry_at (ls_minutes spec)"
  let ?walk = "barrier_walk entry_at ?d (barrier_price entry_price (ls_upper spec)) (barrier_price entry_price (ls_lower spec)) ?path None"
  let ?rows = "filter (in_horizon entry_at ?d) ?path"
  have row: "\<not> touches (barrier_price entry_price (ls_upper spec)) (barrier_price entry_price (ls_lower spec)) row
      \<and> timestamp (the (fst row)) < ?d" if mem: "row \<in> set ?rows" for row
  proof -
    obtain t p where tp: "row = (Some t, p)" "(t, p) \<in> set (price_series store cutoff symbol (local_date entry_at))"
      "in_horizon entry_at ?d row"
      using mem by (auto simp: barrier_rows_def between_rows)
    from series_mem [OF tp(2)] obtain r where "r \<in> set (st_quotes store) \<union> set (st_tape store)" "pr_at r = t" "pr_price r = p"
      "pr_symbol r = symbol" by blast
    then show ?thesis using assms(3) [of r] tp(1,3) by (auto simp: touches_def in_horizon_def)
  qed
  then have none: "py_next (touches (barrier_price entry_price (ls_upper spec)) (barrier_price entry_price (ls_lower spec))) ?rows = None"
    unfolding py_next_def find_None_iff by blast
  have walk: "?walk = BarrierUnavailable None \<or> (\<exists>t p. ?walk = BarrierPending t p)"
  proof (cases "?rows = []")
    case True
    then show ?thesis unfolding barrier_walk_meaning by (simp add: barrier_meaning_def py_next_def)
  next
    case False
    then have "timestamp (the (fst (last ?rows))) < ?d" using row [of "last ?rows"] last_in_set [OF False] by blast
    then show ?thesis unfolding barrier_walk_meaning barrier_meaning_def none using False by simp
  qed
  then have label: "triple_barrier_label ?path entry_price entry_at spec = Inr \<lparr>ba_status = ?walk, ba_net = None, ba_gross = None\<rparr>"
    by (auto simp: triple_barrier_label_def Let_def)
  show ?thesis
    using walk assms(1,2) label by (auto simp: settle_barrier_def)
qed

text \<open>An entry at 09:31 with prices at 10:00 and 10:40 of the same day.\<close>

definition example_rows :: "price_row list" where
  "example_rows = map (\<lambda>(h, m, p). \<lparr>pr_symbol = ''x'', pr_source = ''longhuvip'',
     pr_at = combine_local 719163 (clock_time h m), pr_price = p\<rparr>) [(9, 36, 101 / 10), (10, 0, 10), (10, 40, 51 / 5)]"

definition example_store :: price_store where
  "example_store = \<lparr>st_tape = [], st_quotes = example_rows, st_daily = []\<rparr>"

lemma barrier_stays_pending_witness:
  "\<forall>cutoff. \<exists>r. settle_barrier example_store cutoff LabelSpec ''x'' (combine_local 719163 (clock_time 9 31)) 10 = Inr r
    \<and> (ba_status r = BarrierUnavailable None \<or> (\<exists>t p. ba_status r = BarrierPending t p))"
proof (rule allI, rule barrier_stays_pending)
  let ?entry = "combine_local 719163 (clock_time 9 31)"
  show "continuous_auction_bounds ?entry
      = Some (combine_local 719163 (clock_time 9 30), combine_local 719163 (clock_time 11 30))" by code_simp
  show "?entry + ls_minutes LabelSpec * us_minute \<le> combine_local 719163 (clock_time 11 30)" by code_simp
  have "list_all (\<lambda>r. barrier_price 10 (ls_lower LabelSpec) < pr_price r \<and> pr_price r < barrier_price 10 (ls_upper LabelSpec)
      \<and> timestamp (pr_at r) \<noteq> barrier_deadline ?entry (ls_minutes LabelSpec)) (st_quotes example_store @ st_tape example_store)"
    by code_simp
  then show "barrier_price 10 (ls_lower LabelSpec) < pr_price r \<and> pr_price r < barrier_price 10 (ls_upper LabelSpec)
      \<and> timestamp (pr_at r) \<noteq> barrier_deadline ?entry (ls_minutes LabelSpec)"
    if "r \<in> set (st_quotes example_store) \<union> set (st_tape example_store)" for r
    using that by (auto simp: list_all_iff)
qed

lemma example_exit:
  "horizon_exit example_store (combine_local 719163 (clock_time 11 0)) ''x'' (combine_local 719163 (clock_time 9 31)) 5
     = Some (combine_local 719163 (clock_time 9 36), 101 / 10)"
  by code_simp


lemma outcome_exit_bounds_witness:
  "\<exists>target. trading_us target = trading_us (combine_local 719163 (clock_time 9 31)) + 5 * us_minute
    \<and> target \<le> combine_local 719163 (clock_time 9 36) \<and> combine_local 719163 (clock_time 9 36) \<le> target + 90 * us_second"
proof -
  have "ho_exit (settle_horizon example_store (combine_local 719163 (clock_time 11 0)) ''x'' (combine_local 719163 (clock_time 9 31))
      (combine_local 719163 (clock_time 9 31)) 10 1 5) = Some (combine_local 719163 (clock_time 9 36), 101 / 10)"
    by (simp add: settle_horizon_def Let_def example_exit)
  from outcome_exit_bounds [OF this] show ?thesis by auto
qed

end
