(* ===== verification/PaperRisk.thy ===== *)
theory PaperRisk
  imports PaperLedger Episodes
begin

text \<open>
  The gates a signal passes before it may be confirmed: \<open>quant-service/app/paper_portfolio.py\<close> (the
  marked snapshot of the ledger and the risk gate over it), \<open>live_policy.py\<close> (the policy gate),
  \<open>intraday_state_machine.py\<close> (the descriptive setup state) and \<open>paper_decision_payload\<close> of
  \<open>paper_execution.py\<close>. Numbers arrive as JSON cells; \<open>_number\<close> of each module reads them. The labels
  of quotes with an exchange timestamp are the two that \<open>datasources/catalog.py\<close> declares.
\<close>

section \<open>The marked snapshot\<close>

text \<open>\<open>_number(value, default)\<close>: what cannot be read takes the default.\<close>

definition number_or :: "cell \<Rightarrow> rat \<Rightarrow> rat" where
  "number_or c fallback = (case number_of c of None \<Rightarrow> fallback | Some x \<Rightarrow> x)"

record marked_row =
  mk_symbol :: string
  mk_quantity :: int
  mk_price :: rat
  mk_value :: rat
  mk_sectors :: "string list"

record held_row =
  hr_symbol :: string
  hr_quantity :: int
  hr_cost :: cell
  hr_sectors :: "string list"

record snapshot =
  sn_cash :: rat
  sn_equity :: rat
  sn_gross :: rat
  sn_drawdown :: rat
  sn_daily_return :: rat
  sn_peak :: rat
  sn_previous_close :: "rat option"
  sn_sectors :: "(string \<times> rat) list"
  sn_rows :: "marked_row list"

definition row_price :: "(string \<Rightarrow> cell) \<Rightarrow> held_row \<Rightarrow> rat" where
  "row_price quotes p = number_or (quotes (hr_symbol p)) (number_or (hr_cost p) 0)"

definition row_value :: "(string \<Rightarrow> cell) \<Rightarrow> held_row \<Rightarrow> rat" where
  "row_value quotes p = fmul (flt (of_int (max 0 (hr_quantity p)))) (row_price quotes p)"

definition mark_row :: "(string \<Rightarrow> cell) \<Rightarrow> held_row \<Rightarrow> marked_row" where
  "mark_row quotes p =
     \<lparr>mk_symbol = hr_symbol p, mk_quantity = max 0 (hr_quantity p), mk_price = row_price quotes p,
      mk_value = round_digits 4 (row_value quotes p), mk_sectors = hr_sectors p\<rparr>"

text \<open>Adding to a dict with a default of 0: an association list in insertion order.\<close>

fun add_total :: "string \<Rightarrow> rat \<Rightarrow> (string \<times> rat) list \<Rightarrow> (string \<times> rat) list" where
  "add_total key x [] = [(key, fadd 0 x)]"
| "add_total key x ((k, v) # rest) = (if k = key then (k, fadd v x) # rest else (k, v) # add_total key x rest)"

definition sector_row :: "rat \<Rightarrow> marked_row \<Rightarrow> (string \<times> rat) list \<Rightarrow> (string \<times> rat) list" where
  "sector_row equity row totals =
     (let keys = fromkeys (filter (\<lambda>k. k \<noteq> []) (mk_sectors row));
          share = flt (flt (mk_value row / equity) / of_nat (length keys))
      in fold (\<lambda>key. add_total key share) keys totals)"

definition sector_exposure :: "marked_row list \<Rightarrow> rat \<Rightarrow> (string \<times> rat) list" where
  "sector_exposure rows equity =
     (if equity \<le> 0 then []
      else map (\<lambda>(k, v). (k, round_digits 6 v)) (sort_key fst (fold (sector_row equity) rows [])))"

definition some_nonzero :: "rat option \<Rightarrow> rat option" where
  "some_nonzero x = (if x = Some 0 then None else x)"

definition mark_to_market ::
    "held_row list \<Rightarrow> (string \<Rightarrow> cell) \<Rightarrow> rat \<Rightarrow> rat option \<Rightarrow> rat option \<Rightarrow> rat option \<Rightarrow> snapshot" where
  "mark_to_market positions quotes cash previous_equity previous_close_equity peak_equity =
     (let market_value = fold (\<lambda>p v. fadd v (row_value quotes p)) positions 0;
          equity = fadd cash market_value;
          peaks = List.map_filter some_nonzero [peak_equity, previous_equity];
          peak = fold max peaks equity;
          rows = map (mark_row quotes) positions
      in \<lparr>sn_cash = round_digits 4 cash, sn_equity = round_digits 4 equity,
          sn_gross = (if equity \<noteq> 0 then round_digits 6 (flt (market_value / equity)) else 0),
          sn_drawdown = round_digits 6 (if peak \<noteq> 0 then fsub (flt (equity / peak)) 1 else 0),
          sn_daily_return = round_digits 6 (case some_nonzero previous_close_equity of
              None \<Rightarrow> 0 | Some base \<Rightarrow> fsub (flt (equity / base)) 1),
          sn_peak = round_digits 4 peak,
          sn_previous_close = map_option (round_digits 4) (some_nonzero previous_close_equity),
          sn_sectors = sector_exposure rows equity, sn_rows = rows\<rparr>)"

section \<open>The risk gate\<close>

record risk_limits =
  rl_max_weight :: rat
  rl_max_gross :: rat
  rl_max_drawdown :: rat
  rl_max_daily_loss :: rat
  rl_max_sector :: rat

definition house_risk_limits :: risk_limits where
  "house_risk_limits = \<lparr>rl_max_weight = flt (5 / 100), rl_max_gross = flt (80 / 100), rl_max_drawdown = flt (- 8 / 100),
     rl_max_daily_loss = flt (- 3 / 100), rl_max_sector = flt (20 / 100)\<rparr>"

text \<open>The snapshot as the gate reads it: cells, and the exposures of sectors.\<close>

record risk_snapshot =
  rs_drawdown :: cell
  rs_daily_return :: cell
  rs_gross :: cell
  rs_sectors :: "(string \<times> cell) list"

definition gate_snapshot :: "snapshot \<Rightarrow> risk_snapshot" where
  "gate_snapshot s = \<lparr>rs_drawdown = CFloat (sn_drawdown s), rs_daily_return = CFloat (sn_daily_return s),
     rs_gross = CFloat (sn_gross s), rs_sectors = map (\<lambda>(k, v). (k, CFloat v)) (sn_sectors s)\<rparr>"

record risk_decision =
  rd_allowed :: bool
  rd_weight :: rat
  rd_reasons :: "string list"
  rd_flags :: "string list"

definition sector_exceeded :: "risk_limits \<Rightarrow> risk_snapshot \<Rightarrow> string list \<Rightarrow> bool" where
  "sector_exceeded limits s candidates =
     list_ex (\<lambda>key. max 0 (rl_max_sector limits)
         < fadd (number_or (case map_of (rs_sectors s) key of None \<Rightarrow> CNull | Some c \<Rightarrow> c) 0) (rl_max_weight limits))
       (fromkeys (filter (\<lambda>k. k \<noteq> []) candidates))"

text \<open>The limits a proposal breaks, each with its flag.\<close>

definition risk_reasons :: "risk_limits \<Rightarrow> string \<Rightarrow> cell \<Rightarrow> risk_snapshot \<Rightarrow> string list \<Rightarrow> (string \<times> string) list" where
  "risk_reasons limits signal_type target_weight s candidates =
     (if number_or (rs_drawdown s) 0 \<le> rl_max_drawdown limits
      then [(''portfolio_drawdown_limit'', ''paper_drawdown_block'')] else [])
     @ (if number_or (rs_daily_return s) 0 \<le> rl_max_daily_loss limits
        then [(''paper_daily_loss_limit'', ''paper_daily_loss_block'')] else [])
     @ (if rl_max_gross limits \<le> number_or (rs_gross s) 0
        then [(''gross_exposure_limit'', ''paper_gross_exposure_block'')] else [])
     @ (if signal_type = ''entry'' \<and> rs_sectors s \<noteq> [] \<and> sector_exceeded limits s candidates
        then [(''sector_exposure_limit'', ''paper_sector_exposure_block'')] else [])
     @ (if rl_max_weight limits \<le> number_or target_weight 0
        then [(''single_symbol_exposure_limit'', ''paper_symbol_exposure_block'')] else [])"

definition paper_risk_gate :: "risk_limits \<Rightarrow> string \<Rightarrow> cell \<Rightarrow> risk_snapshot \<Rightarrow> string list \<Rightarrow> risk_decision" where
  "paper_risk_gate limits signal_type target_weight s candidates =
     (if signal_type \<notin> {''entry'', ''watch'', ''reduce'', ''exit''}
      then \<lparr>rd_allowed = False, rd_weight = 0, rd_reasons = [''unsupported_signal_type''], rd_flags = [''paper_unsupported_signal'']\<rparr>
      else if signal_type \<in> {''reduce'', ''exit''}
      then \<lparr>rd_allowed = True, rd_weight = 0, rd_reasons = [], rd_flags = []\<rparr>
      else let broken = risk_reasons limits signal_type target_weight s candidates in
        if broken \<noteq> [] then \<lparr>rd_allowed = False, rd_weight = 0, rd_reasons = map fst broken, rd_flags = map snd broken\<rparr>
        else \<lparr>rd_allowed = True, rd_weight = (if signal_type = ''entry'' then rl_max_weight limits else 0),
          rd_reasons = [], rd_flags = []\<rparr>)"

text \<open>The cell under \<open>target_weight\<close> of a row of \<open>paper_positions\<close>: the table has no such column.\<close>

definition ledger_target_weight :: "position \<Rightarrow> cell" where
  "ledger_target_weight p = CNull"

section \<open>The policy gate\<close>

definition EXCHANGE_TIMESTAMPED_QUOTE_LABELS :: "string list" where
  "EXCHANGE_TIMESTAMPED_QUOTE_LABELS = [''tencent_batched_watch_quote'', ''longhuvip_watch_quote'']"

definition TEACHER_BLOCKING_REASONS :: "string list" where
  "TEACHER_BLOCKING_REASONS = [''missing_live_price'']"

record policy_signal =
  py_signal_type :: "string option"
  py_profile :: "string option"

record policy_watch =
  pw_symbol :: "string option"
  pw_available :: int
  pw_has_entry :: bool

record policy_quote =
  pq_price :: cell
  pq_source :: "string option"
  pq_freshness :: "string option"
  pq_flow :: cell
  pq_flow_eligible :: "bool option option"
  pq_data :: quote_data
  pq_raw :: quote_data

record trade_constraints =
  tc_suspended :: bool
  tc_limit_up :: "rat option"
  tc_limit_down :: "rat option"
  tc_is_st :: "bool option"
  tc_limit_day :: "date option"

record policy_factors =
  pf_status :: "string option"
  pf_constraints :: trade_constraints

record policy_market =
  pm_status :: "string option"
  pm_state :: "string option"
  pm_board_age :: cell

definition empty_policy_quote :: policy_quote where
  "empty_policy_quote = \<lparr>pq_price = CNull, pq_source = None, pq_freshness = None, pq_flow = CNull,
     pq_flow_eligible = None, pq_data = empty_quote, pq_raw = empty_quote\<rparr>"

text \<open>The limit prices of the daily row count only on their own session; a value of the quote stays.\<close>

definition backfill :: "'v field \<Rightarrow> 'v option \<Rightarrow> 'v field" where
  "backfill f v = (case f of Val x \<Rightarrow> f | _ \<Rightarrow> (case v of None \<Rightarrow> f | Some x \<Rightarrow> Val x))"

definition limit_quote :: "policy_quote \<Rightarrow> trade_constraints \<Rightarrow> instant \<Rightarrow> quote_data" where
  "limit_quote q tc now =
     (let d = pq_data q;
          session_date = (case as_exchange_date (case get_field (q_price_trade_date d) of None \<Rightarrow> DateNone | Some x \<Rightarrow> x) of
              None \<Rightarrow> cn_today now | Some day \<Rightarrow> day);
          same_session = (tc_limit_day tc = Some session_date)
      in d\<lparr>q_limit_up := (if same_session then backfill (q_limit_up d) (tc_limit_up tc) else q_limit_up d),
           q_limit_down := (if same_session then backfill (q_limit_down d) (tc_limit_down tc) else q_limit_down d),
           q_is_st := backfill (q_is_st d) (tc_is_st tc)\<rparr>)"

record portfolio_risk =
  pr_allowed :: "bool option"
  pr_reasons :: "string list"
  pr_flags :: "string list"

definition reason_if :: "bool \<Rightarrow> string \<Rightarrow> string \<Rightarrow> (string \<times> string) list" where
  "reason_if condition reason flag = (if condition then [(reason, flag)] else [])"

definition entry_like :: "policy_signal \<Rightarrow> bool" where
  "entry_like s = (str_or (py_signal_type s) ''watch'' = ''entry'')"

definition exit_like :: "policy_signal \<Rightarrow> bool" where
  "exit_like s = (str_or (py_signal_type s) ''watch'' \<in> {''exit'', ''reduce''})"

definition quote_source_reasons :: "policy_quote \<Rightarrow> (string \<times> string) list" where
  "quote_source_reasons q =
     (if str_or (pq_source q) ''unknown'' \<notin> set EXCHANGE_TIMESTAMPED_QUOTE_LABELS
      then [(''quote_source_not_decision_eligible'', ''policy_quote_source_not_decision_eligible'')]
      else reason_if (str_or (pq_freshness q) ''missing_timestamp'' \<noteq> ''fresh'')
        ''quote_source_timestamp_not_fresh'' ''policy_quote_timestamp_not_fresh'')"

text \<open>The reasons in the order the code finds them, each with the flag it adds.\<close>

definition policy_reasons ::
    "policy_signal \<Rightarrow> policy_watch \<Rightarrow> policy_quote \<Rightarrow> policy_factors \<Rightarrow> policy_market \<Rightarrow> bool \<Rightarrow> instant
      \<Rightarrow> (string \<times> string) list" where
  "policy_reasons s w q f m mismatch now =
     (let tc = pf_constraints f;
          symbol = str_or (pw_symbol w) (str_or (get_field (q_symbol (pq_data q))) []);
          limits = price_limit_state (Some symbol) (pq_raw q) (limit_quote q tc now) now
      in reason_if (case number_of (pq_price q) of None \<Rightarrow> True | Some p \<Rightarrow> p \<le> 0) ''missing_live_price'' ''policy_data_unavailable''
       @ quote_source_reasons q
       @ reason_if (entry_like s \<and> number_of (pq_flow q) \<noteq> None
           \<and> (case pq_flow_eligible q of None \<Rightarrow> False | Some e \<Rightarrow> e \<noteq> Some True))
           ''public_flow_snapshot_not_fresh'' ''policy_public_flow_snapshot_stale''
       @ reason_if (entry_like s \<and> str_or (pm_status m) ''missing'' \<noteq> ''available'') ''market_context_missing'' ''policy_market_context_missing''
       @ reason_if (entry_like s \<and> str_or (pm_state m) ''unknown'' = ''broad_risk_off'') ''broad_risk_off_blocks_new_entry'' ''policy_market_risk_off''
       @ reason_if (entry_like s \<and> (case number_of (pm_board_age m) of None \<Rightarrow> False | Some a \<Rightarrow> 360 < a))
           ''market_context_stale'' ''policy_market_context_stale''
       @ reason_if (tc_suspended tc) ''suspended_security'' ''policy_suspended''
       @ reason_if (entry_like s \<and> at_limit_up limits) ''limit_up_may_be_unbuyable'' ''policy_limit_up''
       @ reason_if (exit_like s \<and> at_limit_down limits) ''limit_down_may_be_unsellable'' ''policy_limit_down''
       @ reason_if mismatch ''cross_source_price_mismatch'' ''policy_quote_mismatch''
       @ reason_if (entry_like s \<and> str_or (pf_status f) ''missing''
             \<in> {''missing'', ''data_quality_blocked'', ''insufficient_history'', ''stale''})
           ''daily_factor_quality_blocked'' ''policy_daily_factor_quality'')"

definition portfolio_part :: "policy_signal \<Rightarrow> portfolio_risk \<Rightarrow> string list \<times> string list" where
  "portfolio_part s p =
     (if entry_like s \<and> pr_allowed p = Some False
      then (filter (\<lambda>r. r \<noteq> []) (pr_reasons p), filter (\<lambda>r. r \<noteq> []) (pr_flags p) @ [''policy_portfolio_risk''])
      else ([], []))"

definition risk_alert_only :: "policy_signal \<Rightarrow> policy_watch \<Rightarrow> bool" where
  "risk_alert_only s w = (exit_like s \<and> pw_has_entry w \<and> pw_available w \<le> 0)"

record policy_verdict =
  pv_decision :: string
  pv_allow :: bool
  pv_reasons :: "string list"
  pv_advisory :: "string list"
  pv_flags :: "string list"

definition live_policy_gate ::
    "policy_signal \<Rightarrow> policy_watch \<Rightarrow> policy_quote option \<Rightarrow> policy_factors \<Rightarrow> policy_market \<Rightarrow> bool
      \<Rightarrow> portfolio_risk \<Rightarrow> instant \<Rightarrow> policy_verdict" where
  "live_policy_gate s w quote f m mismatch portfolio now =
     (let q = (case quote of None \<Rightarrow> empty_policy_quote | Some q \<Rightarrow> q);
          teacher = (py_profile s = Some ''teacher_review'');
          found = policy_reasons s w q f m mismatch now;
          alert_only = risk_alert_only s w;
          reasons = map fst found @ fst (portfolio_part s portfolio)
            @ (if alert_only then [''no_confirmed_sellable_quantity''] else []);
          flags = map snd found @ snd (portfolio_part s portfolio)
            @ (if alert_only then [''policy_risk_alert_only''] else []);
          advisory = (if teacher then filter (\<lambda>r. r \<notin> set TEACHER_BLOCKING_REASONS) reasons else []);
          kept = (if teacher then filter (\<lambda>r. r \<in> set TEACHER_BLOCKING_REASONS) reasons else reasons);
          blocks = (kept \<noteq> [] \<and> \<not> alert_only)
      in \<lparr>pv_decision = (if alert_only then ''risk_alert_only'' else if blocks then ''watch_only'' else ''pass''),
          pv_allow = (\<not> blocks), pv_reasons = kept, pv_advisory = advisory,
          pv_flags = flags @ map (\<lambda>r. ''advisory_'' @ r) advisory\<rparr>)"

section \<open>The proposal\<close>

definition paper_decision_payload ::
    "string option \<Rightarrow> string option \<Rightarrow> string \<Rightarrow> string \<Rightarrow> instant \<Rightarrow> policy_verdict \<Rightarrow> risk_decision option \<Rightarrow> payload" where
  "paper_decision_payload signal_type key state symbol observed_at policy gate =
     (let t = str_or signal_type ''watch'';
          direction = (if t = ''entry'' then 1 else if t \<in> {''reduce'', ''exit''} then - 1 else 0);
          blocked = (state \<noteq> ''confirmed'' \<or> \<not> pv_allow policy \<or> (case gate of None \<Rightarrow> False | Some g \<Rightarrow> \<not> rd_allowed g))
      in \<lparr>py_strategy = strategy_family (str_or key ''unknown''), py_version = ''live-research-contract-v1'', py_symbol = symbol,
          py_direction = direction, py_status = (if blocked then ''blocked'' else ''proposed''), py_at = observed_at,
          py_target_quantity = 0, py_target_weight = (case gate of None \<Rightarrow> 0 | Some g \<Rightarrow> rd_weight g)\<rparr>)"

section \<open>The setup state\<close>

record setup_evidence =
  se_price :: "rat option"
  se_return_3m :: "rat option"
  se_above_vwap :: "rat option"
  se_volume_ratio :: "rat option"
  se_minute_volume :: "rat option"
  se_flow :: "rat option"
  se_available_peers :: int
  se_confirming_peers :: int
  se_policy_decision :: "string option"
  se_policy_reasons :: "string list"
  se_suspended :: bool
  se_entry_price :: "rat option"

datatype setup_state =
    DataBlocked | PolicyConstrained | NonTradable | EvidenceIncomplete | AcceptanceFailure
  | ContinuationAcceptance | ReboundAcceptance | Weakening | Neutral

definition entry_return :: "rat option \<Rightarrow> rat \<Rightarrow> rat option" where
  "entry_return entry price =
     (case entry of None \<Rightarrow> None
      | Some e \<Rightarrow> if 0 < e then Some (fmul (fsub (flt (price / e)) 1) 100) else None)"

definition flow_supports :: "setup_evidence \<Rightarrow> bool" where
  "flow_supports v = ((case se_flow v of None \<Rightarrow> True | Some f \<Rightarrow> 0 < f) \<or> 2 \<le> se_confirming_peers v)"

definition acceptance_lost :: "setup_evidence \<Rightarrow> rat \<Rightarrow> rat \<Rightarrow> rat \<Rightarrow> bool" where
  "acceptance_lost v price return_3m above_vwap =
     (case entry_return (se_entry_price v) price of
        None \<Rightarrow> False
      | Some since_entry \<Rightarrow>
          (above_vwap \<le> flt (- 15 / 100) \<and> return_3m \<le> flt (- 1 / 2)
             \<and> ((case se_flow v of None \<Rightarrow> True | Some f \<Rightarrow> f \<le> 0)
                \<or> (2 \<le> se_available_peers v \<and> se_confirming_peers v = 0)))
          \<or> (since_entry \<le> flt (- 5 / 2) \<and> (above_vwap < 0 \<or> return_3m < 0)))"

definition zero_if_none :: "rat option \<Rightarrow> rat" where
  "zero_if_none x = (case x of None \<Rightarrow> 0 | Some v \<Rightarrow> v)"

definition classify_setup_state :: "setup_evidence \<Rightarrow> setup_state" where
  "classify_setup_state v =
     (let volume_multiple = max (zero_if_none (se_volume_ratio v)) (zero_if_none (se_minute_volume v)) in
      case se_price v of
        None \<Rightarrow> DataBlocked
      | Some price \<Rightarrow>
      if price \<le> 0 then DataBlocked
      else if str_or (se_policy_decision v) [] \<in> {''watch_only'', ''risk_alert_only''} then PolicyConstrained
      else if se_suspended v then NonTradable
      else (case (se_return_3m v, se_above_vwap v) of
        (Some return_3m, Some above_vwap) \<Rightarrow>
          if acceptance_lost v price return_3m above_vwap then AcceptanceFailure
          else if flt (8 / 10) \<le> return_3m \<and> 0 \<le> above_vwap \<and> flt (18 / 10) \<le> volume_multiple \<and> flow_supports v
            then ContinuationAcceptance
          else if flt (1 / 2) \<le> return_3m \<and> 0 \<le> above_vwap \<and> flt (15 / 10) \<le> volume_multiple then ReboundAcceptance
          else if above_vwap < 0 \<and> return_3m < 0 then Weakening
          else Neutral
      | _ \<Rightarrow> EvidenceIncomplete))"

section \<open>Properties\<close>

definition as_portfolio :: "risk_decision \<Rightarrow> portfolio_risk" where
  "as_portfolio g = \<lparr>pr_allowed = Some (rd_allowed g), pr_reasons = rd_reasons g, pr_flags = rd_flags g\<rparr>"

lemma gate_allowed_entry:
  assumes "rd_allowed (paper_risk_gate limits ''entry'' tw snap cands)"
  shows "rl_max_drawdown limits < number_or (rs_drawdown snap) 0 \<and> rl_max_daily_loss limits < number_or (rs_daily_return snap) 0
    \<and> number_or (rs_gross snap) 0 < rl_max_gross limits
    \<and> (rs_sectors snap \<noteq> [] \<longrightarrow> \<not> sector_exceeded limits snap cands)
    \<and> rd_weight (paper_risk_gate limits ''entry'' tw snap cands) = rl_max_weight limits"
  using assms by (auto simp: paper_risk_gate_def Let_def risk_reasons_def split: if_splits)

lemma policy_allows_entry:
  assumes "pv_allow (live_policy_gate s w quote f m mismatch portfolio now)"
    and "entry_like s" "py_profile s \<noteq> Some ''teacher_review''"
  shows "policy_reasons s w (case quote of None \<Rightarrow> empty_policy_quote | Some q \<Rightarrow> q) f m mismatch now = []"
proof -
  have "\<not> risk_alert_only s w" using assms(2) by (auto simp: risk_alert_only_def exit_like_def entry_like_def)
  then show ?thesis using assms by (simp add: live_policy_gate_def Let_def)
qed


definition example_gate_args :: "policy_quote" where
  "example_gate_args = empty_policy_quote\<lparr>pq_price := CInt 10, pq_source := Some ''longhuvip_watch_quote'', pq_freshness := Some ''fresh''\<rparr>"

definition example_snapshot :: risk_snapshot where
  "example_snapshot = \<lparr>rs_drawdown = CNull, rs_daily_return = CNull, rs_gross = CNull, rs_sectors = []\<rparr>"


text \<open>
  The limit on a single name never blocks a name of the ledger: the gate asks a position for a
  target weight, which the rows of the ledger do not have, so whatever share of the portfolio the
  name already is, the gate answers as if it were not held.
\<close>

theorem symbol_limit_never_blocks:
  assumes "0 < rl_max_weight limits"
  shows "''single_symbol_exposure_limit'' \<notin> set (rd_reasons (paper_risk_gate limits signal_type (ledger_target_weight p) snap cands))
    \<and> paper_risk_gate limits signal_type (ledger_target_weight p) snap cands = paper_risk_gate limits signal_type CNull snap cands"
  using assms
  by (auto simp: paper_risk_gate_def Let_def risk_reasons_def ledger_target_weight_def number_or_def number_of_def cell_float_def)

lemma symbol_limit_never_blocks_witness:
  "rd_allowed (paper_risk_gate house_risk_limits ''entry'' CNull example_snapshot [])
    \<and> paper_risk_gate house_risk_limits ''entry'' (ledger_target_weight \<lparr>ps_quantity = 1000000, ps_sellable = 0, ps_cost = 10,
        ps_buy_date = None, ps_realized = 0\<rparr>) example_snapshot [] = paper_risk_gate house_risk_limits ''entry'' CNull example_snapshot []"
proof
  have w: "0 < rl_max_weight house_risk_limits" by code_simp
  show "rd_allowed (paper_risk_gate house_risk_limits ''entry'' CNull example_snapshot [])" by code_simp
  show "paper_risk_gate house_risk_limits ''entry'' (ledger_target_weight \<lparr>ps_quantity = 1000000, ps_sellable = 0, ps_cost = 10,
      ps_buy_date = None, ps_realized = 0\<rparr>) example_snapshot [] = paper_risk_gate house_risk_limits ''entry'' CNull example_snapshot []"
    using symbol_limit_never_blocks [OF w] by blast
qed

end
