(* ===== verification/StrategyLifecycle.thy ===== *)
theory StrategyLifecycle
  imports PyCells
begin

text \<open>
  \<open>quant-service/app/strategy_lifecycle.py\<close>: how badly a strategy has decayed, and the states it moves
  through with that. Severities and states are the texts of the code.
\<close>

definition MIN_INDEPENDENT_DAYS :: int where "MIN_INDEPENDENT_DAYS = 20"

definition SEVERITIES :: "string list" where
  "SEVERITIES = [''healthy'', ''warning'', ''decayed'', ''critical'', ''insufficient'']"

definition STATES :: "string list" where
  "STATES = [''active'', ''monitoring'', ''decayed'', ''disable_proposed'']"

record decay_metrics =
  dm_days :: int
  dm_net_mean :: cell
  dm_hit_rate :: cell
  dm_trigger_ratio :: cell
  dm_stale_rate :: cell

text \<open>The worst dimension of the metrics, with its reason.\<close>

definition decay_severity :: "decay_metrics \<Rightarrow> decay_metrics \<Rightarrow> string \<times> string list" where
  "decay_severity current baseline =
     (case number_of (dm_net_mean current) of
        Some net \<Rightarrow>
          if net < 0 then (''critical'', [''negative-net-mean''])
          else (case (number_of (dm_hit_rate current), number_of (dm_hit_rate baseline)) of
              (Some hit, Some base_hit) \<Rightarrow>
                if fsub hit base_hit \<le> flt (- 15 / 100) then (''decayed'', [''hit-rate-drop''])
                else (case number_of (dm_net_mean baseline) of
                    Some base_net \<Rightarrow> if net < fmul base_net (flt (1 / 2)) then (''decayed'', [''net-mean-drop'']) else (''healthy'', [])
                  | None \<Rightarrow> (''healthy'', []))
            | _ \<Rightarrow> (case number_of (dm_net_mean baseline) of
                Some base_net \<Rightarrow> if net < fmul base_net (flt (1 / 2)) then (''decayed'', [''net-mean-drop'']) else (''healthy'', [])
              | None \<Rightarrow> (''healthy'', [])))
      | None \<Rightarrow>
          (case (number_of (dm_hit_rate current), number_of (dm_hit_rate baseline)) of
             (Some hit, Some base_hit) \<Rightarrow>
               if fsub hit base_hit \<le> flt (- 15 / 100) then (''decayed'', [''hit-rate-drop'']) else (''healthy'', [])
           | _ \<Rightarrow> (''healthy'', [])))"

definition drift_severity :: "decay_metrics \<Rightarrow> string \<times> string list \<Rightarrow> string \<times> string list" where
  "drift_severity current found =
     (if found = (''healthy'', [])
      then (case number_of (dm_trigger_ratio current) of
          Some r \<Rightarrow> if 3 < r \<or> r < flt (33 / 100) then (''warning'', [''trigger-frequency-drift'']) else found
        | None \<Rightarrow> found)
      else found)"

definition stale_severity :: "decay_metrics \<Rightarrow> string \<times> string list \<Rightarrow> string \<times> string list" where
  "stale_severity current found =
     (case number_of (dm_stale_rate current) of
        Some r \<Rightarrow>
          if flt (1 / 2) \<le> r
          then (if fst found \<in> {''healthy'', ''warning''} then ''warning'' else fst found,
                snd found @ [''stale-rejection-rate-high''])
          else found
      | None \<Rightarrow> found)"

definition assess_decay :: "decay_metrics \<Rightarrow> decay_metrics \<Rightarrow> int \<Rightarrow> string \<times> string list" where
  "assess_decay current baseline min_independent_days =
     (if dm_days current < max 1 min_independent_days
      then (''insufficient'', [''insufficient-independent-trading-days''])
      else stale_severity current (drift_severity current (decay_severity current baseline)))"

record lifecycle_step =
  lc_state :: string
  lc_previous :: string
  lc_unhealthy :: bool
  lc_proposal :: "string option"

definition known_state :: "string \<Rightarrow> string" where
  "known_state state = (if state \<in> set STATES then state else ''active'')"

text \<open>\<open>all(value in allowed for value in recent[-n:])\<close> with enough values.\<close>

definition last_all :: "nat \<Rightarrow> string set \<Rightarrow> string list \<Rightarrow> bool" where
  "last_all n allowed recent = (n \<le> length recent \<and> set (drop (length recent - n) recent) \<subseteq> allowed)"

definition transition_state :: "string \<Rightarrow> string list \<Rightarrow> string \<Rightarrow> lifecycle_step" where
  "transition_state state history current_severity =
     (let current_state = known_state state;
          recent = drop (length history - 3) history;
          next_state =
            (if current_state = ''active'' \<and> last_all 2 {''warning'', ''decayed'', ''critical''} recent then ''monitoring''
             else if current_state = ''monitoring'' \<and> current_severity = ''healthy'' then ''active''
             else if current_state = ''monitoring'' \<and> last_all 2 {''decayed'', ''critical''} recent then ''decayed''
             else if current_state = ''decayed'' \<and> last_all 3 {''critical''} recent then ''disable_proposed''
             else current_state)
      in \<lparr>lc_state = next_state, lc_previous = current_state,
          lc_unhealthy = (current_severity \<in> {''warning'', ''decayed'', ''critical''}),
          lc_proposal = (if current_state = ''decayed'' \<and> last_all 3 {''critical''} recent then Some ''manual_disable_review'' else None)\<rparr>)"

text \<open>The life of a strategy: one transition a day, on the severities so far.\<close>

fun lifecycle :: "string \<Rightarrow> string list \<Rightarrow> string list \<Rightarrow> string" where
  "lifecycle state history [] = state"
| "lifecycle state history (severity # later) =
     lifecycle (lc_state (transition_state state (history @ [severity]) severity)) (history @ [severity]) later"

definition state_rank :: "string \<Rightarrow> int" where
  "state_rank s = (if s = ''monitoring'' then 1 else if s = ''decayed'' then 2 else if s = ''disable_proposed'' then 3 else 0)"

lemma decay_severity_typed: "fst (decay_severity current baseline) \<in> {''healthy'', ''decayed'', ''critical''}"
  by (auto simp: decay_severity_def split: option.splits)

lemma assess_decay_typed: "fst (assess_decay current baseline days) \<in> set SEVERITIES"
proof -
  have "fst (drift_severity current found) \<in> set SEVERITIES" if "fst found \<in> {''healthy'', ''decayed'', ''critical''}" for found
    using that by (auto simp: drift_severity_def SEVERITIES_def split: option.splits)
  then have "fst (drift_severity current (decay_severity current baseline)) \<in> set SEVERITIES" using decay_severity_typed by blast
  moreover have "fst found \<in> set SEVERITIES \<Longrightarrow> fst (stale_severity current found) \<in> set SEVERITIES" for found
    by (auto simp: stale_severity_def SEVERITIES_def split: option.splits)
  ultimately show ?thesis by (simp add: assess_decay_def) (simp add: SEVERITIES_def)
qed

lemma known_state_typed: "known_state s \<in> set STATES"
  by (simp add: known_state_def) (simp add: STATES_def)

text \<open>
  The types of the lifecycle: on any metrics the severity is one of the five, and on any text,
  history and severity the next state is one of the four, at most one step from the state before; the
  proposal to disable is made exactly on the step from decayed to the last state, and only after three
  critical severities in a row.
\<close>

theorem lifecycle_typed:
  "fst (assess_decay current baseline days) \<in> set SEVERITIES
   \<and> lc_state (transition_state state history severity) \<in> set STATES
   \<and> lc_previous (transition_state state history severity) \<in> set STATES
   \<and> \<bar>state_rank (lc_state (transition_state state history severity))
        - state_rank (lc_previous (transition_state state history severity))\<bar> \<le> 1
   \<and> (lc_proposal (transition_state state history severity) \<noteq> None
       \<longleftrightarrow> lc_previous (transition_state state history severity) = ''decayed''
           \<and> lc_state (transition_state state history severity) = ''disable_proposed'')
   \<and> (lc_proposal (transition_state state history severity) \<noteq> None
       \<longrightarrow> 3 \<le> length history \<and> set (drop (length history - 3) history) \<subseteq> {''critical''})"
proof -
  have known: "known_state state = ''active'' \<or> known_state state = ''monitoring'' \<or> known_state state = ''decayed''
      \<or> known_state state = ''disable_proposed''"
    using known_state_typed [of state] unfolding STATES_def by simp
  define st where "st = known_state state"
  define two where "two = last_all 2 {''warning'', ''decayed'', ''critical''} (drop (length history - 3) history)"
  define worse where "worse = last_all 2 {''decayed'', ''critical''} (drop (length history - 3) history)"
  define three where "three = last_all 3 {''critical''} (drop (length history - 3) history)"
  have critical: "three \<Longrightarrow> 3 \<le> length history \<and> set (drop (length history - 3) history) \<subseteq> {''critical''}"
    by (auto simp: three_def last_all_def)
  show ?thesis
    using assess_decay_typed [of current baseline days] known critical
    unfolding transition_state_def Let_def st_def [symmetric] two_def [symmetric] worse_def [symmetric] three_def [symmetric]
      lifecycle_step.simps
    by (elim disjE) (simp_all add: state_rank_def STATES_def)
qed

theorem lifecycle_typed_witness:
  "lc_proposal (transition_state ''decayed'' [''critical'', ''critical'', ''critical''] ''critical'') \<noteq> None
   \<and> set (drop (length [''critical'', ''critical'', ''critical''] - 3) [''critical'', ''critical'', ''critical'']) \<subseteq> {''critical''}"
proof -
  have proposed: "lc_proposal (transition_state ''decayed'' [''critical'', ''critical'', ''critical''] ''critical'') \<noteq> None"
    by (simp add: transition_state_def last_all_def known_state_def STATES_def)
  then show ?thesis
    using lifecycle_typed [of _ _ _ "''decayed''" "[''critical'', ''critical'', ''critical'']" "''critical''"] by blast
qed

text \<open>Once decayed, a strategy stays so or is proposed for disabling, however healthy it becomes.\<close>

lemma decayed_stays: "state \<in> {''decayed'', ''disable_proposed''} \<Longrightarrow>
    lifecycle state history severities \<in> {''decayed'', ''disable_proposed''}"
  by (induction severities arbitrary: state history)
    (auto simp: transition_state_def Let_def known_state_def STATES_def)

end
