(* ===== verification/RequestPacing.thy ===== *)
theory RequestPacing
  imports PyCells AshareReality "HOL-Library.Option_ord"
begin

text \<open>
  \<open>quant-service/app/public_provider_rate_limits.py\<close>, the pacing of one process in seconds of the
  monotonic clock (floats), and \<open>provider_rate_limits.py\<close>, the pacing of all processes in a table of
  the database (microseconds). Both hand out start slots of a provider one after the other. The
  environment and the clocks are arguments; the lock and the single statement make a call one step.
\<close>

section \<open>The slots of one process\<close>

definition DEFAULT_RATE_LIMITS_PER_MINUTE :: "(string \<times> int) list" where
  "DEFAULT_RATE_LIMITS_PER_MINUTE =
     [(''eastmoney_free'', 60), (''tencent_free'', 60), (''sina_free'', 60), (''fuyao_ths'', 60),
      (''tdx_public'', 60), (''cninfo_free'', 30)]"

definition provider_key_for_host :: "string option \<Rightarrow> string" where
  "provider_key_for_host host =
     (let normalized = py_lower (str_or host []) in
      if occurs ''eastmoney'' normalized then ''eastmoney_free''
      else if occurs ''gtimg'' normalized \<or> occurs ''qq.com'' normalized then ''tencent_free''
      else if occurs ''sinajs'' normalized \<or> occurs ''sina.com'' normalized then ''sina_free''
      else if occurs ''cninfo'' normalized then ''cninfo_free''
      else if normalized = [] then ''public_unknown'' else normalized)"

definition default_rate :: "string \<Rightarrow> int" where
  "default_rate provider_key =
     max 1 (case map_of DEFAULT_RATE_LIMITS_PER_MINUTE provider_key of None \<Rightarrow> 120 | Some n \<Rightarrow> n)"

text \<open>The value of the provider's environment variable is the argument.\<close>

definition configured_rate_limit :: "string option \<Rightarrow> string \<Rightarrow> int" where
  "configured_rate_limit env provider_key =
     (case env of None \<Rightarrow> default_rate provider_key
      | Some raw \<Rightarrow> (case py_int raw of None \<Rightarrow> default_rate provider_key | Some n \<Rightarrow> max 1 (min 600 n)))"

record limiter =
  lm_slots :: "string \<rightharpoonup> rat"
  lm_loop :: "nat option"

definition spacing :: "int \<Rightarrow> rat" where
  "spacing rate_limit_per_minute = flt (60 / of_int (max 1 rate_limit_per_minute))"

text \<open>A new event loop starts with no slots.\<close>

definition in_loop :: "nat \<Rightarrow> limiter \<Rightarrow> limiter" where
  "in_loop running l = (if lm_loop l = Some running then l else \<lparr>lm_slots = Map.empty, lm_loop = Some running\<rparr>)"

definition next_allowed :: "limiter \<Rightarrow> string \<Rightarrow> rat" where
  "next_allowed l key = (case lm_slots l key of None \<Rightarrow> 0 | Some t \<Rightarrow> t)"

definition set_slot :: "string \<Rightarrow> rat \<Rightarrow> limiter \<Rightarrow> limiter" where
  "set_slot key t l = l\<lparr>lm_slots := (lm_slots l)(key \<mapsto> t)\<rparr>"

definition try_acquire :: "nat \<Rightarrow> string \<Rightarrow> int \<Rightarrow> rat \<Rightarrow> limiter \<Rightarrow> bool \<times> limiter" where
  "try_acquire running key rate now l0 =
     (let l = in_loop running l0; t = next_allowed l key in
      if now < t then (False, set_slot key t l) else (True, set_slot key (fadd now (spacing rate)) l))"

definition reserve :: "nat \<Rightarrow> string \<Rightarrow> int \<Rightarrow> rat \<Rightarrow> rat \<Rightarrow> limiter \<Rightarrow> rat option \<times> limiter" where
  "reserve running key rate max_wait now l0 =
     (let l = in_loop running l0; t = next_allowed l key; start = max now t in
      if max 0 max_wait < fsub start now then (None, set_slot key t l)
      else (Some (fsub start now), set_slot key (fadd start (spacing rate)) l))"

datatype acquired = RateLimited | StartNow | SleepFor rat

definition acquire :: "nat \<Rightarrow> string \<Rightarrow> int \<Rightarrow> rat \<Rightarrow> rat \<Rightarrow> limiter \<Rightarrow> acquired \<times> limiter" where
  "acquire running key rate max_wait now l =
     (case reserve running key rate max_wait now l of
        (None, l') \<Rightarrow> (RateLimited, l')
      | (Some wait, l') \<Rightarrow> (if 0 < wait then SleepFor wait else StartNow, l'))"

section \<open>The slots of all processes\<close>

definition provider_request_spacing_seconds :: "int \<Rightarrow> rat \<Rightarrow> rat" where
  "provider_request_spacing_seconds rate_limit_per_minute min_interval_seconds =
     max (flt (60 / of_int (max 1 rate_limit_per_minute))) (max 0 min_interval_seconds)"

text \<open>\<open>make_interval(secs => x)\<close>, in microseconds.\<close>

definition interval_us :: "rat \<Rightarrow> int" where
  "interval_us seconds = half_even (seconds * 1000000)"

definition slot_spacing :: "rat \<Rightarrow> rat" where
  "slot_spacing seconds = max (1 / 100) (min 60 seconds)"

definition slot_wait :: "rat \<Rightarrow> rat" where
  "slot_wait seconds = max 0 (min 30 seconds)"

text \<open>The statement reads the clock anew for its condition, its new value and its result: three times,
  one after the other. A granted request starts at its slot, which is the new value less the spacing.\<close>

definition reserve_provider_rate_limit_slot ::
    "string \<Rightarrow> rat \<Rightarrow> rat \<Rightarrow> instant \<Rightarrow> instant \<Rightarrow> instant \<Rightarrow> (string \<rightharpoonup> instant) \<Rightarrow> int option \<times> (string \<rightharpoonup> instant)" where
  "reserve_provider_rate_limit_slot key spacing_seconds max_wait_seconds c1 c2 c3 slots =
     (let gap = interval_us (slot_spacing spacing_seconds) in
      case slots key of
        None \<Rightarrow> (Some (max 0 (c2 - c3)), slots(key \<mapsto> c2 + gap))
      | Some t \<Rightarrow>
          if c1 + interval_us (slot_wait max_wait_seconds) < t then (None, slots)
          else (Some (max 0 (max t c2 - c3)), slots(key \<mapsto> max t c2 + gap)))"

section \<open>What a pacer promises\<close>

text \<open>The starts that a sequence of calls is granted.\<close>

fun granted_starts :: "('c \<Rightarrow> 's \<Rightarrow> 't option) \<Rightarrow> ('c \<Rightarrow> 's \<Rightarrow> 's) \<Rightarrow> 'c list \<Rightarrow> 's \<Rightarrow> 't list" where
  "granted_starts start settle [] s = []"
| "granted_starts start settle (c # cs) s =
     (case start c s of None \<Rightarrow> [] | Some t \<Rightarrow> [t]) @ granted_starts start settle cs (settle c s)"

text \<open>
  A pacer of one key: \<open>due\<close> is its next slot. A granted call starts at its slot or later and moves the
  next slot past its own start; a refused one leaves it where it was.
\<close>

locale pacer =
  fixes due :: "'s \<Rightarrow> 't :: linorder"
    and start :: "'c \<Rightarrow> 's \<Rightarrow> 't option"
    and settle :: "'c \<Rightarrow> 's \<Rightarrow> 's"
    and past :: "'t \<Rightarrow> 't"
  assumes granted: "start c s = Some t \<Longrightarrow> due s \<le> t \<and> due (settle c s) = past t"
    and refused: "start c s = None \<Longrightarrow> due (settle c s) = due s"
begin

abbreviation starts :: "'c list \<Rightarrow> 's \<Rightarrow> 't list" where
  "starts \<equiv> granted_starts start settle"

lemma starts_due: "\<forall>t \<in> set (take 1 (starts cs s)). due s \<le> t"
proof (induction cs arbitrary: s)
  case (Cons c cs)
  show ?case
  proof (cases "start c s")
    case None
    then show ?thesis using Cons [of "settle c s"] refused by simp
  next
    case (Some t)
    then show ?thesis using granted by simp
  qed
qed simp

lemma starts_spaced: "Suc i < length (starts cs s) \<Longrightarrow> past (starts cs s ! i) \<le> starts cs s ! Suc i"
proof (induction cs arbitrary: s i)
  case (Cons c cs)
  show ?case
  proof (cases "start c s")
    case None
    then show ?thesis using Cons by simp
  next
    case (Some t)
    show ?thesis
    proof (cases i)
      case 0
      then have "starts cs (settle c s) \<noteq> []" using Cons.prems Some by auto
      then have "starts cs (settle c s) ! 0 \<in> set (take 1 (starts cs (settle c s)))"
        by (cases "starts cs (settle c s)") auto
      then show ?thesis using starts_due [of cs "settle c s"] granted [OF Some] Some 0 by auto
    next
      case (Suc j)
      then show ?thesis using Cons.IH [of j "settle c s"] Cons.prems Some by simp
    qed
  qed
qed simp

end

text \<open>The calls of one process on a key, in its loop: each has a rate, a bound and a time.\<close>

definition slot_start :: "nat \<Rightarrow> string \<Rightarrow> int \<Rightarrow> rat \<times> rat \<Rightarrow> limiter \<Rightarrow> rat option" where
  "slot_start running key rate c l =
     (case fst (reserve running key rate (fst c) (snd c) l) of
        None \<Rightarrow> None
      | Some wait \<Rightarrow> Some (max (snd c) (next_allowed (in_loop running l) key)))"

definition slot_settle :: "nat \<Rightarrow> string \<Rightarrow> int \<Rightarrow> rat \<times> rat \<Rightarrow> limiter \<Rightarrow> limiter" where
  "slot_settle running key rate c l = snd (reserve running key rate (fst c) (snd c) l)"

lemma in_loop_set_slot [simp]: "in_loop running (set_slot key t (in_loop running l)) = set_slot key t (in_loop running l)"
  by (simp add: in_loop_def set_slot_def)

lemma next_allowed_set_slot [simp]: "next_allowed (set_slot key t l) key = t"
  by (simp add: next_allowed_def set_slot_def)

interpretation process: pacer "\<lambda>l. next_allowed (in_loop running l) key" "slot_start running key rate"
    "slot_settle running key rate" "\<lambda>t. fadd t (spacing rate)" for running key rate
  by unfold_locales (auto simp: slot_start_def slot_settle_def reserve_def Let_def split: if_splits)

text \<open>The calls of all processes on a key: the waiting bound and the three readings of the clock.\<close>

text \<open>A key without a row has no bound: options are ordered with \<^const>\<open>None\<close> least.\<close>

definition shared_start ::
    "string \<Rightarrow> rat \<Rightarrow> rat \<times> instant \<times> instant \<times> instant \<Rightarrow> (string \<rightharpoonup> instant) \<Rightarrow> instant option option" where
  "shared_start key gap c slots =
     (case c of (max_wait, c1, c2, c3) \<Rightarrow>
        case fst (reserve_provider_rate_limit_slot key gap max_wait c1 c2 c3 slots) of
          None \<Rightarrow> None
        | Some wait \<Rightarrow> Some (Some (case slots key of None \<Rightarrow> c2 | Some t \<Rightarrow> max t c2)))"

definition shared_settle :: "string \<Rightarrow> rat \<Rightarrow> rat \<times> instant \<times> instant \<times> instant \<Rightarrow> (string \<rightharpoonup> instant) \<Rightarrow> (string \<rightharpoonup> instant)" where
  "shared_settle key gap c slots =
     (case c of (max_wait, c1, c2, c3) \<Rightarrow> snd (reserve_provider_rate_limit_slot key gap max_wait c1 c2 c3 slots))"

interpretation shared: pacer "\<lambda>slots. slots key" "shared_start key gap" "shared_settle key gap"
    "map_option (\<lambda>t. t + interval_us (slot_spacing gap))" for key gap
  by unfold_locales
    (auto simp: shared_start_def shared_settle_def reserve_provider_rate_limit_slot_def Let_def split: option.splits if_splits)

section \<open>Properties\<close>

text \<open>
  Requests of a provider are spaced: whatever calls a process makes on a key, at whatever times
  and with whatever bounds on the wait, each granted request starts no earlier than the spacing after
  the one granted before it. Refused calls take no slot.
\<close>

theorem process_starts_spaced:
  assumes "Suc i < length (granted_starts (slot_start running key rate) (slot_settle running key rate) calls l)"
  shows "fadd (granted_starts (slot_start running key rate) (slot_settle running key rate) calls l ! i) (spacing rate) \<le> granted_starts (slot_start running key rate) (slot_settle running key rate) calls l ! Suc i"
  by (rule process.starts_spaced [OF assms])

lemma process_starts_spaced_witness:
  "granted_starts (slot_start 0 ''k'' 60) (slot_settle 0 ''k'' 60) [(0, 10), (0, 10), (3, 10), (0, 12)] \<lparr>lm_slots = Map.empty, lm_loop = None\<rparr> = [10, 11, 12]
   \<and> fadd 11 (spacing 60) \<le> 12"
proof -
  let ?starts = "granted_starts (slot_start 0 ''k'' 60) (slot_settle 0 ''k'' 60) [(0, 10), (0, 10), (3, 10), (0, 12)] \<lparr>lm_slots = Map.empty, lm_loop = None\<rparr>"
  have s: "?starts = [10, 11, 12]" by code_simp
  have "Suc 1 < length ?starts" unfolding s by simp
  from process_starts_spaced [OF this] show ?thesis unfolding s by simp
qed

text \<open>
  C33. The shared slots are spaced across processes: of the requests granted on a key, however the
  processes interleave and whatever their clocks read, each starts at least the spacing after the one
  before it.
\<close>

theorem shared_starts_spaced:
  assumes "Suc i < length (granted_starts (shared_start key gap) (shared_settle key gap) calls slots)"
    and "granted_starts (shared_start key gap) (shared_settle key gap) calls slots ! i = Some t" "granted_starts (shared_start key gap) (shared_settle key gap) calls slots ! Suc i = Some u"
  shows "t + interval_us (slot_spacing gap) \<le> u"
  using shared.starts_spaced [OF assms(1)] assms(2,3) by simp

lemma shared_starts_spaced_witness:
  "(5000000 :: int) + interval_us (slot_spacing 2) \<le> 7000000"
proof -
  let ?starts = "granted_starts (shared_start ''k'' 2) (shared_settle ''k'' 2)
      [(10, 5000000, 5000000, 5000000), (10, 5100000, 5100000, 5100000)] Map.empty"
  have s: "?starts = [Some 5000000, Some 7000000]" by code_simp
  have "Suc 0 < length ?starts" "?starts ! 0 = Some 5000000" "?starts ! Suc 0 = Some 7000000" unfolding s by simp_all
  from shared_starts_spaced [OF this] show ?thesis .
qed

text \<open>
  A wait is bounded and a refusal costs nothing: a granted call waits at most the bound it gave,
  and after a refused one the next slot is where it was, so that the first call at or after that slot
  starts at once.
\<close>

lemma reserve_bounded:
  "case reserve running key rate max_wait now l of
     (Some wait, l') \<Rightarrow> 0 \<le> wait \<and> wait \<le> max 0 max_wait
   | (None, l') \<Rightarrow> \<forall>later \<ge> next_allowed (in_loop running l) key.
       fst (reserve running key rate 0 later l') = Some 0"
proof -
  have nonneg: "0 \<le> fsub (max now t) now" for t by (auto simp: fsub_def max_def intro: flt.rnd_nonneg)
  have zero: "fsub x x = 0" for x by (simp add: fsub_def flt.rnd_0)
  show ?thesis
    using nonneg by (auto simp: reserve_def Let_def zero max_def split: if_splits prod.splits option.splits)
qed

end
