(* ===== verification/EventSpool.thy ===== *)
theory EventSpool
  imports PyCells MarketRules "HOL-Library.Char_ord" "HOL-Library.List_Lexorder"
begin

text \<open>
  \<open>feishu-relay/bridge/event_spool.py\<close>: the durable queue between the private WebSocket and the
  adapter, with its leases, its delivery cursor, the counts per chat and the coverage of message
  positions. A table is the list of its rows in the order of their insertion; a table with a key is
  an association list. Instants are the floats of \<open>time.time()\<close>, arguments here. A stored JSON text
  is what it reads back as; the length of a text is an argument of the call that stores it.
\<close>

section \<open>Tables with a key\<close>

text \<open>\<open>INSERT ... ON CONFLICT DO UPDATE\<close>, \<open>UPDATE ... WHERE key\<close>, \<open>INSERT OR IGNORE\<close>.\<close>

fun upsert :: "'k \<Rightarrow> 'v \<Rightarrow> ('v \<Rightarrow> 'v) \<Rightarrow> ('k \<times> 'v) list \<Rightarrow> ('k \<times> 'v) list" where
  "upsert k v f [] = [(k, v)]"
| "upsert k v f ((k', w) # rows) = (if k' = k then (k', f w) # rows else (k', w) # upsert k v f rows)"

definition update_at :: "'k \<Rightarrow> ('v \<Rightarrow> 'v) \<Rightarrow> ('k \<times> 'v) list \<Rightarrow> ('k \<times> 'v) list" where
  "update_at k f rows = map (\<lambda>(k', w). (k', if k' = k then f w else w)) rows"

definition insert_new :: "'k \<Rightarrow> 'v \<Rightarrow> ('k \<times> 'v) list \<Rightarrow> ('k \<times> 'v) list" where
  "insert_new k v rows = (if k \<in> fst ` set rows then rows else rows @ [(k, v)])"

section \<open>Rows\<close>

record event_payload =
  ep_chat :: "string option"
  ep_type_name :: "string option"
  ep_type :: "string option"
  ep_message :: "string option"
  ep_position :: cell

datatype stored_json = Unreadable | NotAnObject | Stored event_payload

datatype event_status = Queued | Processing | Delivered | Failed

record event_row =
  er_sequence :: nat
  er_id :: string
  er_payload :: stored_json
  er_status :: event_status
  er_attempts :: nat
  er_available :: rat
  er_lease :: "rat option"
  er_error :: "string option"
  er_created :: rat
  er_updated :: rat
  er_delivered :: "rat option"

record drain_cursor =
  cu_sequence :: nat
  cu_event :: "string option"
  cu_updated :: rat

record chat_row =
  ch_observed :: int
  ch_forwarded :: int
  ch_failed :: int
  ch_failures :: int
  ch_filtered :: int
  ch_last_observed :: "rat option"
  ch_last_forwarded :: "rat option"
  ch_last_type :: "string option"

record ignored_row =
  ig_count :: int
  ig_position :: "int option"
  ig_message :: string
  ig_type :: string
  ig_reason :: string
  ig_first :: rat
  ig_last :: rat

record position_row =
  po_last :: "int option"
  po_missing :: int
  po_gaps :: int
  po_gap_start :: "int option"
  po_gap_stop :: "int option"
  po_gap_at :: "rat option"
  po_disorder :: int
  po_recovered :: int
  po_recovered_last :: "int option"
  po_recovered_at :: "rat option"
  po_updated :: rat

record filtered_row =
  fi_chat :: string
  fi_message :: string
  fi_position :: "int option"
  fi_source :: string
  fi_keyword :: string
  fi_reason :: string
  fi_created :: rat

datatype coverage_type = Observed | Recovered | Filtered

type_synonym chats = "(string \<times> chat_row) list"
type_synonym coverage = "((string \<times> int \<times> coverage_type) \<times> rat) list"

record spool =
  sp_max_bytes :: int
  sp_events :: "event_row list"
  sp_cursor :: drain_cursor
  sp_chats :: chats
  sp_counters :: "(string \<times> int \<times> rat) list"
  sp_ignored :: "(string \<times> ignored_row) list"
  sp_positions :: "(string \<times> position_row) list"
  sp_recoveries :: "((string \<times> int) \<times> rat) list"
  sp_filtered :: "(string \<times> filtered_row) list"
  sp_coverage :: coverage

datatype spool_error = EmptyCounterName | BadEventId | PayloadTooLarge | UnknownEvent | PayloadNotADict

section \<open>Reading a payload\<close>

definition chat_of :: "event_payload \<Rightarrow> string" where
  "chat_of p = py_strip (str_or (ep_chat p) [])"

definition normal_type :: "string \<Rightarrow> string" where
  "normal_type text = (let t = py_upper (py_strip text) in if t = [] then ''UNKNOWN'' else t)"

definition raw_type :: "event_payload \<Rightarrow> string" where
  "raw_type p = str_or (ep_type_name p) (str_or (ep_type p) ''UNKNOWN'')"

definition payload_meta :: "stored_json \<Rightarrow> string \<times> string" where
  "payload_meta json =
     (case json of Stored p \<Rightarrow> (chat_of p, normal_type (raw_type p)) | _ \<Rightarrow> ([], ''UNKNOWN''))"

text \<open>\<open>int(value)\<close>: floats are truncated, texts parsed, \<open>None\<close> raises.\<close>

definition cell_int :: "cell \<Rightarrow> int option" where
  "cell_int c =
     (case c of CNull \<Rightarrow> None | CInt n \<Rightarrow> Some n
      | CFloat x \<Rightarrow> Some (if x < 0 then - rfloor (- x) else rfloor x) | CText t \<Rightarrow> py_int t)"

definition positive_position :: "cell \<Rightarrow> int option" where
  "positive_position value = (case cell_int value of None \<Rightarrow> None | Some n \<Rightarrow> if 0 < n then Some n else None)"

definition payload_position :: "event_payload \<Rightarrow> int option" where
  "payload_position p = positive_position (ep_position p)"

definition row_chat :: "event_row \<Rightarrow> string" where
  "row_chat r = fst (payload_meta (er_payload r))"

section \<open>Counts and positions\<close>

definition new_chat :: chat_row where
  "new_chat = \<lparr>ch_observed = 0, ch_forwarded = 0, ch_failed = 0, ch_failures = 0, ch_filtered = 0,
     ch_last_observed = None, ch_last_forwarded = None, ch_last_type = None\<rparr>"

definition observe_chat :: "rat \<Rightarrow> string \<Rightarrow> chat_row \<Rightarrow> chat_row" where
  "observe_chat now message_type c =
     c\<lparr>ch_observed := ch_observed c + 1, ch_last_observed := Some now, ch_last_type := Some message_type\<rparr>"

definition record_observed :: "event_payload \<Rightarrow> rat \<Rightarrow> chats \<Rightarrow> chats" where
  "record_observed p created_at chats =
     (if chat_of p = [] then chats
      else let f = observe_chat created_at (normal_type (raw_type p)) in upsert (chat_of p) (f new_chat) f chats)"

definition add_counter :: "string \<Rightarrow> int \<Rightarrow> rat \<Rightarrow> spool \<Rightarrow> spool" where
  "add_counter name amount now s =
     s\<lparr>sp_counters := upsert name (amount, now) (\<lambda>(value, t). (value + amount, now)) (sp_counters s)\<rparr>"

definition increment_counter :: "string \<Rightarrow> int \<Rightarrow> rat \<Rightarrow> spool \<Rightarrow> (spool_error + int) \<times> spool" where
  "increment_counter raw_name amount now s =
     (let name = py_strip raw_name in
      if name = [] then (Inl EmptyCounterName, s)
      else let s' = add_counter name amount now s in
        (Inr (case map_of (sp_counters s') name of None \<Rightarrow> 0 | Some (value, t) \<Rightarrow> value), s'))"

definition record_coverage :: "string \<Rightarrow> int option \<Rightarrow> coverage_type \<Rightarrow> rat \<Rightarrow> coverage \<Rightarrow> coverage" where
  "record_coverage chat position kind now rows =
     (case position of
        None \<Rightarrow> rows
      | Some p \<Rightarrow> if chat = [] \<or> p \<le> 0 then rows else insert_new (chat, p, kind) now rows)"

record position_gap =
  gp_previous :: int
  gp_current :: int
  gp_start :: int
  gp_stop :: int
  gp_missing :: int

definition new_position :: "int option \<Rightarrow> rat \<Rightarrow> position_row" where
  "new_position position now =
     \<lparr>po_last = position, po_missing = 0, po_gaps = 0, po_gap_start = None, po_gap_stop = None, po_gap_at = None,
      po_disorder = 0, po_recovered = 0, po_recovered_last = None, po_recovered_at = None, po_updated = now\<rparr>"

definition count_gap :: "int \<Rightarrow> int \<Rightarrow> rat \<Rightarrow> position_row \<Rightarrow> position_row" where
  "count_gap previous position now r =
     r\<lparr>po_last := Some position, po_missing := po_missing r + (position - previous - 1), po_gaps := po_gaps r + 1,
       po_gap_start := Some (previous + 1), po_gap_stop := Some (position - 1), po_gap_at := Some now, po_updated := now\<rparr>"

definition next_position :: "int \<Rightarrow> rat \<Rightarrow> position_row option \<Rightarrow> position_gap option \<times> position_row" where
  "next_position position now row =
     (case row of
        None \<Rightarrow> (None, new_position (Some position) now)
      | Some r \<Rightarrow>
          (case po_last r of
             None \<Rightarrow> (None, r\<lparr>po_last := Some position, po_updated := now\<rparr>)
           | Some previous \<Rightarrow>
               if position \<le> previous
               then (None, if position < previous then r\<lparr>po_disorder := po_disorder r + 1, po_updated := now\<rparr> else r)
               else if position - previous - 1 \<le> 0 then (None, r\<lparr>po_last := Some position, po_updated := now\<rparr>)
               else (Some \<lparr>gp_previous = previous, gp_current = position, gp_start = previous + 1,
                       gp_stop = position - 1, gp_missing = position - previous - 1\<rparr>,
                     count_gap previous position now r)))"

definition add_position :: "string \<Rightarrow> int option \<Rightarrow> rat \<Rightarrow> spool \<Rightarrow> position_gap option \<times> spool" where
  "add_position chat position now s =
     (case position of
        None \<Rightarrow> (None, s)
      | Some p \<Rightarrow>
          if chat = [] then (None, s)
          else (case next_position p now (map_of (sp_positions s) chat) of
             (gap, row) \<Rightarrow> (gap, s\<lparr>sp_positions := upsert chat row (\<lambda>old. row) (sp_positions s)\<rparr>)))"

definition record_position :: "event_payload \<Rightarrow> rat \<Rightarrow> spool \<Rightarrow> position_gap option \<times> spool" where
  "record_position p now s =
     (case add_position (chat_of p) (payload_position p) now s of
        (gap, s') \<Rightarrow> (gap, s'\<lparr>sp_coverage := record_coverage (chat_of p) (payload_position p) Observed now (sp_coverage s')\<rparr>))"

definition recover_position :: "int \<Rightarrow> rat \<Rightarrow> position_row \<Rightarrow> position_row" where
  "recover_position position now r =
     r\<lparr>po_recovered := po_recovered r + 1, po_recovered_last := Some position, po_recovered_at := Some now, po_updated := now\<rparr>"

definition record_recovered_position :: "string \<Rightarrow> cell \<Rightarrow> rat \<Rightarrow> spool \<Rightarrow> bool \<times> spool" where
  "record_recovered_position raw_chat position now s =
     (let chat = py_strip raw_chat in
      case positive_position position of
        None \<Rightarrow> (False, s)
      | Some p \<Rightarrow>
          if chat = [] then (False, s)
          else if (chat, p) \<in> fst ` set (sp_recoveries s) then (False, s)
          else (True, s\<lparr>sp_recoveries := sp_recoveries s @ [((chat, p), now)],
                  sp_coverage := record_coverage chat (Some p) Recovered now (sp_coverage s),
                  sp_positions := upsert chat (recover_position p now (new_position None now)) (recover_position p now) (sp_positions s)\<rparr>))"

definition filter_chat :: "rat \<Rightarrow> string \<Rightarrow> chat_row \<Rightarrow> chat_row" where
  "filter_chat now message_type c = (observe_chat now message_type c)\<lparr>ch_filtered := ch_filtered c + 1\<rparr>"

definition record_filtered ::
    "string \<Rightarrow> string \<Rightarrow> string \<Rightarrow> cell \<Rightarrow> string \<Rightarrow> string \<Rightarrow> string \<Rightarrow> string \<Rightarrow> rat \<Rightarrow> spool \<Rightarrow> bool \<times> spool" where
  "record_filtered raw_event raw_chat message_id position message_type source_key keyword reason now s =
     (let event_id = py_strip raw_event; chat = py_strip raw_chat; p = positive_position position;
          f = filter_chat now (normal_type (str_or (Some message_type) ''UNKNOWN'')) in
      if event_id = [] \<or> chat = [] then (False, s)
      else if event_id \<in> fst ` set (sp_filtered s) then (False, s)
      else (True, s\<lparr>sp_filtered := sp_filtered s @ [(event_id, \<lparr>fi_chat = chat, fi_message = take 128 message_id,
                fi_position = p, fi_source = take 128 source_key, fi_keyword = take 128 keyword,
                fi_reason = take 160 (str_or (Some reason) ''source_keyword''), fi_created = now\<rparr>)],
              sp_coverage := record_coverage chat p Filtered now (sp_coverage s),
              sp_chats := upsert chat (f new_chat) f (sp_chats s)\<rparr>))"

section \<open>Gaps\<close>

record gap_range =
  ga_start :: int
  ga_stop :: int
  ga_missing :: int

fun gap_ranges :: "nat \<Rightarrow> int list \<Rightarrow> gap_range list" where
  "gap_ranges room (previous # current # rest) =
     (if current - previous \<le> 1 then gap_ranges room (current # rest)
      else \<lparr>ga_start = previous + 1, ga_stop = current - 1, ga_missing = current - previous - 1\<rparr>
        # (if room \<le> 1 then [] else gap_ranges (room - 1) (current # rest)))"
| "gap_ranges room rows = []"

definition covered_positions :: "string \<Rightarrow> coverage \<Rightarrow> int list" where
  "covered_positions chat rows = sort (remdups (map (\<lambda>((c, p, k), t). p) (filter (\<lambda>((c, p, k), t). c = chat) rows)))"

definition position_gap_ranges :: "string \<Rightarrow> int \<Rightarrow> spool \<Rightarrow> gap_range list" where
  "position_gap_ranges raw_chat limit s =
     (let chat = py_strip raw_chat in
      if chat = [] then []
      else gap_ranges (nat (max 1 (min 128 limit))) (covered_positions chat (sp_coverage s)))"

section \<open>Ignored messages\<close>

definition ignore_row :: "int option \<Rightarrow> string \<Rightarrow> string \<Rightarrow> string \<Rightarrow> rat \<Rightarrow> int \<Rightarrow> rat \<Rightarrow> ignored_row" where
  "ignore_row position message_id message_type reason now n first =
     \<lparr>ig_count = n, ig_position = position, ig_message = take 128 message_id,
      ig_type = take 32 (str_or (Some message_type) ''UNKNOWN''),
      ig_reason = take 120 (str_or (Some reason) ''not_allowlisted''), ig_first = first, ig_last = now\<rparr>"

definition add_ignored :: "string \<Rightarrow> int option \<Rightarrow> string \<Rightarrow> string \<Rightarrow> string \<Rightarrow> rat \<Rightarrow> spool \<Rightarrow> position_gap option \<times> spool" where
  "add_ignored chat position message_id message_type reason now s =
     (let row = ignore_row position message_id message_type reason now in
      add_position chat position now (add_counter ''ignored_count'' 1 now
        (s\<lparr>sp_ignored := upsert chat (row 1 now) (\<lambda>old. row (ig_count old + 1) (ig_first old)) (sp_ignored s)\<rparr>)))"

definition record_ignored ::
    "string \<Rightarrow> cell \<Rightarrow> string \<Rightarrow> string \<Rightarrow> string \<Rightarrow> rat \<Rightarrow> spool \<Rightarrow> position_gap option \<times> spool" where
  "record_ignored raw_chat position message_id message_type reason now s =
     (let chat = py_strip raw_chat in
      if chat = [] then (None, s)
      else add_ignored chat (positive_position position) message_id message_type reason now s)"

section \<open>The delivery cursor\<close>

text \<open>The loop of \<open>_advance_cursor_locked\<close> over the rows after the cursor, in their order.\<close>

fun drain :: "rat \<Rightarrow> event_row list \<Rightarrow> drain_cursor \<Rightarrow> drain_cursor" where
  "drain now [] c = c"
| "drain now (r # rows) c =
     (if er_status r \<noteq> Delivered then c
      else drain now rows \<lparr>cu_sequence = er_sequence r, cu_event = Some (er_id r), cu_updated = now\<rparr>)"

definition advance_cursor :: "rat \<Rightarrow> spool \<Rightarrow> spool" where
  "advance_cursor now s =
     s\<lparr>sp_cursor := drain now (sort_key er_sequence (filter (\<lambda>r. cu_sequence (sp_cursor s) < er_sequence r) (sp_events s)))
       (sp_cursor s)\<rparr>"

section \<open>Queueing, claiming and reporting\<close>

definition event_of :: "string \<Rightarrow> spool \<Rightarrow> event_row option" where
  "event_of event_id s = py_next (\<lambda>r. er_id r = event_id) (sp_events s)"

definition update_event :: "string \<Rightarrow> (event_row \<Rightarrow> event_row) \<Rightarrow> spool \<Rightarrow> spool" where
  "update_event event_id f s = s\<lparr>sp_events := map (\<lambda>r. if er_id r = event_id then f r else r) (sp_events s)\<rparr>"

definition update_chat :: "string \<Rightarrow> (chat_row \<Rightarrow> chat_row) \<Rightarrow> spool \<Rightarrow> spool" where
  "update_chat chat f s = (if chat = [] then s else s\<lparr>sp_chats := update_at chat f (sp_chats s)\<rparr>)"

definition less_failed :: "chat_row \<Rightarrow> chat_row" where
  "less_failed c = c\<lparr>ch_failed := max 0 (ch_failed c - 1)\<rparr>"

definition next_sequence :: "spool \<Rightarrow> nat" where
  "next_sequence s = fold max (map er_sequence (sp_events s)) 0 + 1"

definition new_event :: "nat \<Rightarrow> string \<Rightarrow> event_payload \<Rightarrow> rat \<Rightarrow> event_row" where
  "new_event sequence event_id p now =
     \<lparr>er_sequence = sequence, er_id = event_id, er_payload = Stored p, er_status = Queued, er_attempts = 0,
      er_available = now, er_lease = None, er_error = None, er_created = now, er_updated = now, er_delivered = None\<rparr>"

definition refresh_event :: "bool \<Rightarrow> event_payload \<Rightarrow> rat \<Rightarrow> event_row \<Rightarrow> event_row" where
  "refresh_event reopen p now r =
     (if er_status r \<in> {Queued, Failed} then r\<lparr>er_payload := Stored p, er_available := now, er_updated := now\<rparr>
      else if reopen \<and> er_status r = Delivered
      then r\<lparr>er_payload := Stored p, er_status := Queued, er_delivered := None, er_lease := None, er_available := now,
             er_updated := now, er_error := None\<rparr>
      else r)"

definition enqueue ::
    "nat \<Rightarrow> string \<Rightarrow> event_payload \<Rightarrow> bool \<Rightarrow> bool \<Rightarrow> rat \<Rightarrow> spool \<Rightarrow> (spool_error + event_status) \<times> spool" where
  "enqueue encoded_bytes raw_event p refresh reopen now s =
     (let event_id = py_strip raw_event in
      if event_id = [] \<or> 256 < length event_id then (Inl BadEventId, s)
      else if sp_max_bytes s < int encoded_bytes then (Inl PayloadTooLarge, s)
      else let s' = (case event_of event_id s of
              None \<Rightarrow> s\<lparr>sp_events := sp_events s @ [new_event (next_sequence s) event_id p now],
                 sp_chats := record_observed p now (sp_chats s),
                 sp_coverage := record_coverage (chat_of p) (payload_position p) Observed now (sp_coverage s)\<rparr>
            | Some r \<Rightarrow> if refresh then update_event event_id (refresh_event reopen p now) s else s)
        in (Inr (case event_of event_id s' of None \<Rightarrow> Queued | Some r \<Rightarrow> er_status r), s'))"

datatype claim_answer = AlreadyDelivered | InFlight | Claimed

definition lease_held :: "rat \<Rightarrow> event_row \<Rightarrow> bool" where
  "lease_held now r =
     (er_status r = Processing \<and> (case er_lease r of None \<Rightarrow> False | Some t \<Rightarrow> now < t))"

definition claim_event :: "rat \<Rightarrow> int \<Rightarrow> event_row \<Rightarrow> event_row" where
  "claim_event now lease_seconds r =
     r\<lparr>er_status := Processing, er_attempts := er_attempts r + 1,
       er_lease := Some (fadd now (of_int (max 30 (min 1800 lease_seconds)))), er_updated := now, er_error := None\<rparr>"

definition claim :: "string \<Rightarrow> int \<Rightarrow> rat \<Rightarrow> spool \<Rightarrow> (spool_error + claim_answer) \<times> spool" where
  "claim event_id lease_seconds now s =
     (case event_of event_id s of
        None \<Rightarrow> (Inl UnknownEvent, s)
      | Some r \<Rightarrow>
          if er_status r = Delivered then (Inr AlreadyDelivered, s)
          else if lease_held now r then (Inr InFlight, s)
          else (Inr Claimed, update_event event_id (claim_event now lease_seconds)
            (if er_status r = Failed then update_chat (row_chat r) less_failed s else s)))"

definition deliver_event :: "rat \<Rightarrow> event_row \<Rightarrow> event_row" where
  "deliver_event now r = r\<lparr>er_status := Delivered, er_lease := None, er_delivered := Some now, er_updated := now\<rparr>"

definition forward_chat :: "event_status \<Rightarrow> rat \<Rightarrow> chat_row \<Rightarrow> chat_row" where
  "forward_chat status now c =
     c\<lparr>ch_forwarded := ch_forwarded c + 1, ch_failed := max 0 (ch_failed c - (if status = Failed then 1 else 0)),
       ch_last_forwarded := Some now\<rparr>"

definition mark_delivered :: "string \<Rightarrow> rat \<Rightarrow> spool \<Rightarrow> spool" where
  "mark_delivered event_id now s =
     advance_cursor now
       (let s' = update_event event_id (deliver_event now) s in
        case event_of event_id s of
          None \<Rightarrow> s'
        | Some r \<Rightarrow> if er_status r \<noteq> Delivered then update_chat (row_chat r) (forward_chat (er_status r) now) s' else s')"

definition fail_event :: "rat \<Rightarrow> string \<Rightarrow> int \<Rightarrow> event_row \<Rightarrow> event_row" where
  "fail_event now error_text retry_after r =
     r\<lparr>er_status := Failed, er_lease := None, er_available := fadd now (of_int (max 1 (min 3600 retry_after))),
       er_error := Some (take 1000 error_text), er_updated := now\<rparr>"

definition more_failed :: "chat_row \<Rightarrow> chat_row" where
  "more_failed c = c\<lparr>ch_failed := ch_failed c + 1, ch_failures := ch_failures c + 1\<rparr>"

definition mark_failed :: "string \<Rightarrow> string \<Rightarrow> int \<Rightarrow> rat \<Rightarrow> spool \<Rightarrow> spool" where
  "mark_failed event_id error_text retry_after now s =
     (let s' = update_event event_id (fail_event now error_text retry_after) s in
      case event_of event_id s of
        None \<Rightarrow> s'
      | Some r \<Rightarrow> if er_status r \<noteq> Failed then update_chat (row_chat r) more_failed s' else s')"

definition ignore_event :: "rat \<Rightarrow> string \<Rightarrow> event_row \<Rightarrow> event_row" where
  "ignore_event now reason r =
     (deliver_event now r)\<lparr>er_error := Some (''ignored:'' @ take 120 (str_or (Some reason) ''ignored''))\<rparr>"

definition mark_ignored :: "string \<Rightarrow> string \<Rightarrow> rat \<Rightarrow> spool \<Rightarrow> (spool_error + bool) \<times> spool" where
  "mark_ignored raw_event reason now s =
     (let event_id = py_strip raw_event in
      if event_id = [] then (Inr False, s)
      else case event_of event_id s of
        None \<Rightarrow> (Inr False, s)
      | Some r \<Rightarrow>
          if er_status r = Delivered then (Inr False, s)
          else (case er_payload r of
              Unreadable \<Rightarrow> (Inr False, s)
            | NotAnObject \<Rightarrow> (Inl PayloadNotADict, s)
            | Stored p \<Rightarrow>
                if chat_of p = [] then (Inr False, s)
                else let s1 = snd (add_ignored (chat_of p) (payload_position p) (str_or (ep_message p) [])
                         (raw_type p) reason now s);
                       s2 = update_event event_id (ignore_event now reason) s1;
                       s3 = (if er_status r = Failed then update_chat (chat_of p) less_failed s2 else s2)
                  in (Inr True, advance_cursor now s3)))"

text \<open>The events a replay takes up, oldest first.\<close>

definition due_event :: "rat \<Rightarrow> event_row \<Rightarrow> bool" where
  "due_event now r =
     ((er_status r \<in> {Queued, Failed} \<and> er_available r \<le> now)
      \<or> (er_status r = Processing \<and> (case er_lease r of None \<Rightarrow> False | Some t \<Rightarrow> t \<le> now)))"

definition due :: "int \<Rightarrow> rat \<Rightarrow> spool \<Rightarrow> event_row list" where
  "due limit now s =
     filter (\<lambda>r. er_payload r \<noteq> Unreadable)
       (take (nat (max 1 (min 100 limit))) (sort_key er_created (filter (due_event now) (sp_events s))))"

section \<open>Reading\<close>

definition payload :: "string \<Rightarrow> spool \<Rightarrow> event_payload option" where
  "payload event_id s =
     (case event_of event_id s of
        None \<Rightarrow> None
      | Some r \<Rightarrow> (case er_payload r of Stored p \<Rightarrow> Some p | _ \<Rightarrow> None))"

definition all_payloads :: "spool \<Rightarrow> (string \<times> event_payload) list" where
  "all_payloads s =
     List.map_filter (\<lambda>r. case er_payload r of Stored p \<Rightarrow> Some (er_id r, p) | _ \<Rightarrow> None) (sort_key er_sequence (sp_events s))"

record spool_stats =
  ss_queued :: nat
  ss_processing :: nat
  ss_delivered :: nat
  ss_failed :: nat
  ss_pending :: nat
  ss_cursor :: nat

definition status_count :: "event_status \<Rightarrow> spool \<Rightarrow> nat" where
  "status_count status s = length (filter (\<lambda>r. er_status r = status) (sp_events s))"

definition spool_stats_of :: "spool \<Rightarrow> spool_stats" where
  "spool_stats_of s =
     \<lparr>ss_queued = status_count Queued s, ss_processing = status_count Processing s,
      ss_delivered = status_count Delivered s, ss_failed = status_count Failed s,
      ss_pending = status_count Queued s + status_count Processing s + status_count Failed s,
      ss_cursor = cu_sequence (sp_cursor s)\<rparr>"

definition chat_stats :: "spool \<Rightarrow> chats" where
  "chat_stats s = sort_key fst (sp_chats s)"

record chat_totals =
  ct_observed :: int
  ct_forwarded :: int
  ct_failed :: int
  ct_failures :: int
  ct_filtered :: int

definition chat_summary :: "spool \<Rightarrow> chat_totals" where
  "chat_summary s =
     (let rows = map snd (sp_chats s) in
      \<lparr>ct_observed = sum_list (map ch_observed rows), ct_forwarded = sum_list (map ch_forwarded rows),
       ct_failed = sum_list (map ch_failed rows), ct_failures = sum_list (map ch_failures rows),
       ct_filtered = sum_list (map ch_filtered rows)\<rparr>)"

definition counters :: "spool \<Rightarrow> (string \<times> int) list" where
  "counters s = map (\<lambda>(name, value, t). (name, value)) (sp_counters s)"

definition ignored_stats :: "spool \<Rightarrow> (string \<times> ignored_row) list" where
  "ignored_stats s = sort_key fst (sp_ignored s)"

definition ignored_summary :: "spool \<Rightarrow> int" where
  "ignored_summary s = sum_list (map (ig_count \<circ> snd) (sp_ignored s))"

definition unresolved_positions :: "string \<Rightarrow> spool \<Rightarrow> int" where
  "unresolved_positions chat s = sum_list (map ga_missing (position_gap_ranges chat 32 s))"

definition position_stats :: "spool \<Rightarrow> (string \<times> position_row \<times> int) list" where
  "position_stats s = map (\<lambda>(chat, row). (chat, row, unresolved_positions chat s)) (sort_key fst (sp_positions s))"

record position_totals =
  pt_missing :: int
  pt_gaps :: int
  pt_disorder :: int
  pt_recovered :: int
  pt_unresolved :: int

definition position_summary :: "spool \<Rightarrow> position_totals" where
  "position_summary s =
     (let rows = map snd (sp_positions s) in
      \<lparr>pt_missing = sum_list (map po_missing rows), pt_gaps = sum_list (map po_gaps rows),
       pt_disorder = sum_list (map po_disorder rows), pt_recovered = sum_list (map po_recovered rows),
       pt_unresolved = sum_list (map (\<lambda>(chat, row, n). unresolved_positions chat s) (position_stats s))\<rparr>)"

section \<open>Opening a spool\<close>

definition backfill_chat :: "event_row \<Rightarrow> chat_row \<Rightarrow> chat_row" where
  "backfill_chat r c =
     (let seen = observe_chat (er_created r) (snd (payload_meta (er_payload r))) c in
      if er_status r = Delivered
      then seen\<lparr>ch_forwarded := ch_forwarded seen + 1,
             ch_last_forwarded := Some (case er_delivered r of None \<Rightarrow> er_created r | Some t \<Rightarrow> if t = 0 then er_created r else t)\<rparr>
      else if er_status r = Failed
      then seen\<lparr>ch_failed := ch_failed seen + 1, ch_failures := ch_failures seen + 1\<rparr>
      else seen)"

definition backfill_chat_stats :: "spool \<Rightarrow> spool" where
  "backfill_chat_stats s =
     (if sp_chats s \<noteq> [] then s
      else s\<lparr>sp_chats := fold (\<lambda>r chats. if row_chat r = [] then chats
               else upsert (row_chat r) (backfill_chat r new_chat) (backfill_chat r) chats)
             (sort_key er_sequence (sp_events s)) []\<rparr>)"

definition failed_counts :: "event_row list \<Rightarrow> (string \<times> int) list" where
  "failed_counts rows =
     fold (\<lambda>r counts. if row_chat r = [] then counts else upsert (row_chat r) 1 (\<lambda>n. n + 1) counts)
       (filter (\<lambda>r. er_status r = Failed) rows) []"

definition set_failed :: "int \<Rightarrow> chat_row \<Rightarrow> chat_row" where
  "set_failed n c = c\<lparr>ch_failed := n\<rparr>"

definition reconcile_failures :: "spool \<Rightarrow> spool" where
  "reconcile_failures s =
     s\<lparr>sp_chats := fold (\<lambda>(chat, n). update_at chat (set_failed n)) (failed_counts (sp_events s))
       (map (\<lambda>(chat, c). (chat, set_failed 0 c)) (sp_chats s))\<rparr>"

definition rebuild_row :: "int \<Rightarrow> rat \<Rightarrow> position_row \<Rightarrow> position_row" where
  "rebuild_row position created r0 =
     (let r = r0\<lparr>po_updated := created\<rparr> in
      case po_last r of
        None \<Rightarrow> r\<lparr>po_last := Some position\<rparr>
      | Some previous \<Rightarrow>
          if position \<le> previous then (if position < previous then r\<lparr>po_disorder := po_disorder r + 1\<rparr> else r)
          else if 0 < position - previous - 1 then count_gap previous position created r
          else r\<lparr>po_last := Some position\<rparr>)"

definition rebuild_position :: "event_row \<Rightarrow> (string \<times> position_row) list \<Rightarrow> (string \<times> position_row) list" where
  "rebuild_position r rows =
     (case er_payload r of
        Stored p \<Rightarrow>
          (case payload_position p of
             None \<Rightarrow> rows
           | Some position \<Rightarrow>
               if chat_of p = [] then rows
               else upsert (chat_of p) (rebuild_row position (er_created r) (new_position None (er_created r)))
                 (rebuild_row position (er_created r)) rows)
      | _ \<Rightarrow> rows)"

definition rebuild_position_stats :: "spool \<Rightarrow> spool" where
  "rebuild_position_stats s =
     (if sp_positions s \<noteq> [] then s
      else s\<lparr>sp_positions := fold rebuild_position (sort_key er_sequence (sp_events s)) []\<rparr>)"

definition backfill_position_coverage :: "spool \<Rightarrow> spool" where
  "backfill_position_coverage s =
     (if sp_coverage s \<noteq> [] then s
      else
        let observed = fold (\<lambda>r rows. case er_payload r of
                Stored p \<Rightarrow> record_coverage (chat_of p) (payload_position p) Observed (er_created r) rows
              | _ \<Rightarrow> rows) (sp_events s) [];
            recovered = fold (\<lambda>((chat, p), t). insert_new (chat, p, Recovered) t) (sp_recoveries s) observed;
            filtered = fold (\<lambda>(event_id, f) rows. case fi_position f of
                None \<Rightarrow> rows
              | Some p \<Rightarrow> insert_new (fi_chat f, p, Filtered) (fi_created f) rows) (sp_filtered s) recovered
        in s\<lparr>sp_coverage := filtered\<rparr>)"

definition open_spool :: "int \<Rightarrow> spool \<Rightarrow> spool" where
  "open_spool max_event_bytes s =
     backfill_position_coverage (rebuild_position_stats (reconcile_failures (backfill_chat_stats
       (s\<lparr>sp_max_bytes := max (16 * 1024) max_event_bytes\<rparr>))))"

definition new_spool :: "rat \<Rightarrow> spool" where
  "new_spool now =
     \<lparr>sp_max_bytes = 0, sp_events = [], sp_cursor = \<lparr>cu_sequence = 0, cu_event = None, cu_updated = now\<rparr>, sp_chats = [],
      sp_counters = [], sp_ignored = [], sp_positions = [], sp_recoveries = [], sp_filtered = [], sp_coverage = []\<rparr>"

end
