(* ===== verification/SpoolInvariants.thy ===== *)
theory SpoolInvariants
  imports EventSpool
begin

text \<open>
  What the spool keeps: its rows, the counts per chat and the delivery cursor, whatever its callers
  do in whatever order; and the properties that follow.
\<close>

section \<open>Facts about tables\<close>

lemma map_of_upsert [simp]:
  "map_of (upsert k v f rows) = (map_of rows)(k \<mapsto> (case map_of rows k of None \<Rightarrow> v | Some w \<Rightarrow> f w))"
  by (induction rows) (auto simp: fun_eq_iff)

lemma keys_upsert [simp]: "fst ` set (upsert k v f rows) = insert k (fst ` set rows)"
  by (induction k v f rows rule: upsert.induct) (auto simp: insert_commute)

lemma distinct_upsert [simp]: "distinct (map fst rows) \<Longrightarrow> distinct (map fst (upsert k v f rows))"
proof (induction rows)
  case (Cons row rows)
  have "fst ` set (upsert k v f rows) = insert k (fst ` set rows)" by simp
  then show ?case using Cons by (cases row) (auto simp del: keys_upsert)
qed simp

lemma map_of_update_at [simp]: "map_of (update_at k f rows) = (map_of rows)(k := map_option f (map_of rows k))"
  by (induction rows) (auto simp: update_at_def fun_eq_iff)

lemma keys_update_at [simp]: "map fst (update_at k f rows) = map fst rows"
  by (auto simp: update_at_def)

lemma update_at_id [simp]: "update_at k (\<lambda>c. c) rows = rows"
  by (auto simp: update_at_def intro: map_idI)

lemma filter_update:
  assumes "distinct (map er_id rows)" "r \<in> set rows"
  shows "int (length (filter P (map (\<lambda>x. if er_id x = er_id r then f x else x) rows)))
    = int (length (filter P rows)) - (if P r then 1 else 0) + (if P (f r) then 1 else 0)"
  using assms
proof (induction rows)
  case (Cons x rows)
  show ?case
  proof (cases "x = r")
    case True
    then have "map (\<lambda>y. if er_id y = er_id r then f y else y) rows = rows"
      using Cons.prems(1) by (intro map_idI) (auto simp: image_iff)
    then show ?thesis using True by simp
  next
    case False
    then have "er_id x \<noteq> er_id r" using Cons.prems by (auto simp: image_iff)
    then show ?thesis using False Cons by auto
  qed
qed simp

section \<open>The counts per chat\<close>

definition failed_in :: "string \<Rightarrow> event_row list \<Rightarrow> int" where
  "failed_in chat rows = int (length (filter (\<lambda>r. er_status r = Failed \<and> row_chat r = chat) rows))"

definition events_in :: "string \<Rightarrow> event_row list \<Rightarrow> int" where
  "events_in chat rows = int (length (filter (\<lambda>r. row_chat r = chat) rows))"

definition filtered_in :: "string \<Rightarrow> (string \<times> filtered_row) list \<Rightarrow> int" where
  "filtered_in chat rows = int (length (filter (\<lambda>(event_id, f). fi_chat f = chat) rows))"

definition rows_ok :: "rat \<Rightarrow> event_row list \<Rightarrow> bool" where
  "rows_ok t rows =
     (distinct (map er_id rows) \<and> map er_sequence rows = [1..<Suc (length rows)] \<and> sorted (map er_created rows)
      \<and> (\<forall>r \<in> set rows. er_created r \<le> t \<and> (\<exists>p. er_payload r = Stored p) \<and> (er_status r = Processing \<longrightarrow> er_lease r \<noteq> None)))"

definition counts_ok :: "event_row list \<Rightarrow> (string \<times> filtered_row) list \<Rightarrow> chats \<Rightarrow> bool" where
  "counts_ok rows dropped chats =
     (distinct (map fst chats)
      \<and> (\<forall>chat. chat \<noteq> [] \<longrightarrow> 0 < events_in chat rows + filtered_in chat dropped \<longrightarrow> map_of chats chat \<noteq> None)
      \<and> (\<forall>chat c. map_of chats chat = Some c \<longrightarrow> chat \<noteq> [] \<and> ch_failed c = failed_in chat rows
           \<and> ch_filtered c = filtered_in chat dropped \<and> ch_observed c = events_in chat rows + filtered_in chat dropped))"

lemma counts_okD:
  assumes "counts_ok rows dropped chats" "map_of chats chat = Some c"
  shows "chat \<noteq> []" "ch_failed c = failed_in chat rows" "ch_filtered c = filtered_in chat dropped"
    "ch_observed c = events_in chat rows + filtered_in chat dropped"
  using assms by (auto simp: counts_ok_def)

lemma counts_ok_present:
  assumes "counts_ok rows dropped chats" "chat \<noteq> []" "0 < events_in chat rows + filtered_in chat dropped"
  shows "map_of chats chat \<noteq> None"
  using assms unfolding counts_ok_def by blast

lemma events_in_pos: "r \<in> set rows \<Longrightarrow> 0 < events_in (row_chat r) rows"
  by (auto simp: events_in_def filter_empty_conv)

lemma counts_nonneg [simp]: "0 \<le> failed_in chat rows" "0 \<le> events_in chat rows" "0 \<le> filtered_in chat dropped"
  by (simp_all add: failed_in_def events_in_def filtered_in_def)

text \<open>One event changes its status, and its chat the failures it counts.\<close>

lemma counts_ok_event:
  assumes ok: "counts_ok rows dropped chats" and ids: "distinct (map er_id rows)" and r: "r \<in> set rows"
    and chat: "row_chat (f r) = row_chat r"
    and g: "\<And>c. ch_observed (g c) = ch_observed c" "\<And>c. ch_filtered (g c) = ch_filtered c"
    and fewer: "\<And>c. ch_failed c = failed_in (row_chat r) rows \<Longrightarrow>
      ch_failed (g c) = ch_failed c - (if er_status r = Failed then 1 else 0) + (if er_status (f r) = Failed then 1 else 0)"
  shows "counts_ok (map (\<lambda>x. if er_id x = er_id r then f x else x) rows) dropped
    (if row_chat r = [] then chats else update_at (row_chat r) g chats)"
proof -
  let ?rows = "map (\<lambda>x. if er_id x = er_id r then f x else x) rows"
  have events: "events_in ch ?rows = events_in ch rows" for ch
    unfolding events_in_def filter_update [OF ids r] by (simp add: chat)
  have failed: "failed_in ch ?rows = failed_in ch rows
      - (if er_status r = Failed \<and> row_chat r = ch then 1 else 0) + (if er_status (f r) = Failed \<and> row_chat r = ch then 1 else 0)" for ch
    unfolding failed_in_def filter_update [OF ids r] by (simp add: chat)
  have other: "failed_in ch ?rows = failed_in ch rows" if "ch \<noteq> row_chat r" for ch using that by (simp add: failed)
  show ?thesis
    unfolding counts_ok_def events
  proof (intro conjI allI impI)
    show "distinct (map fst (if row_chat r = [] then chats else update_at (row_chat r) g chats))"
      using ok by (simp add: counts_ok_def)
    fix ch :: string
    assume "ch \<noteq> []" "0 < events_in ch rows + filtered_in ch dropped"
    then show "map_of (if row_chat r = [] then chats else update_at (row_chat r) g chats) ch \<noteq> None"
      using counts_ok_present [OF ok] by auto
  next
    fix ch c
    assume c: "map_of (if row_chat r = [] then chats else update_at (row_chat r) g chats) ch = Some c"
    then obtain c0 where c0: "map_of chats ch = Some c0" "c = (if ch = row_chat r then g c0 else c0)"
      using counts_okD(1) [OF ok] by (auto split: if_splits)
    note D = counts_okD [OF ok c0(1)]
    show "ch \<noteq> []" by (rule D(1))
    show "ch_filtered c = filtered_in ch dropped" "ch_observed c = events_in ch rows + filtered_in ch dropped"
      using D c0(2) g by simp_all
    show "ch_failed c = failed_in ch ?rows"
      using c0(2) D(2) fewer [of c0] other [of ch] failed [of ch] by (cases "ch = row_chat r") auto
  qed
qed

lemma map_of_failed_counts:
  "map_of (failed_counts rows) chat = (if chat = [] \<or> failed_in chat rows = 0 then None else Some (failed_in chat rows))"
  and distinct_failed_counts: "distinct (map fst (failed_counts rows))"
proof -
  define step where "step = (\<lambda>r counts. if row_chat r = [] then counts else upsert (row_chat r) 1 (\<lambda>n :: int. n + 1) counts)"
  have "distinct (map fst (fold step xs acc))
      \<and> map_of (fold step xs acc) ch = (let n = int (length (filter (\<lambda>r. row_chat r = ch) xs)) in
         if ch = [] \<or> n = 0 then map_of acc ch else Some ((case map_of acc ch of None \<Rightarrow> 0 | Some m \<Rightarrow> m) + n))"
    if "distinct (map fst acc)" for xs acc ch
    using that
  proof (induction xs arbitrary: acc)
    case (Cons x xs)
    have "distinct (map fst (step x acc))" using Cons.prems by (simp add: step_def)
    from Cons.IH [OF this] show ?case by (auto simp: step_def Let_def split: option.splits)
  qed simp
  note fold_step = this
  have shape: "failed_counts rows = fold step (filter (\<lambda>r. er_status r = Failed) rows) []"
    by (simp add: failed_counts_def step_def)
  have both: "filter (\<lambda>r. row_chat r = chat) (filter (\<lambda>r. er_status r = Failed) rows)
      = filter (\<lambda>r. er_status r = Failed \<and> row_chat r = chat) rows"
    by (simp add: conj_commute)
  show "map_of (failed_counts rows) chat = (if chat = [] \<or> failed_in chat rows = 0 then None else Some (failed_in chat rows))"
    unfolding shape using conjunct2 [OF fold_step [of "[]" "filter (\<lambda>r. er_status r = Failed) rows" chat]]
    unfolding both failed_in_def by (simp add: Let_def)
  show "distinct (map fst (failed_counts rows))"
    unfolding shape by (rule conjunct1 [OF fold_step]) simp
qed

lemma fold_set_failed:
  "distinct (map fst counts) \<Longrightarrow> fold (\<lambda>(chat, n). update_at chat (set_failed n)) counts rows
     = map (\<lambda>(chat, c). (chat, case map_of counts chat of None \<Rightarrow> c | Some n \<Rightarrow> set_failed n c)) rows"
proof (induction counts arbitrary: rows)
  case (Cons count counts)
  obtain k n where kn: "count = (k, n)" by force
  then have "k \<notin> fst ` set counts" "distinct (map fst counts)" using Cons.prems by auto
  then have "map_of counts k = None" by (simp add: map_of_eq_None_iff)
  then show ?case using Cons.IH [of "update_at k (set_failed n) rows"] \<open>distinct (map fst counts)\<close>
    by (auto simp: kn update_at_def)
qed (auto intro: map_idI [symmetric])

text \<open>What a restart counts again is what is already there.\<close>

lemma reconcile_failures_same:
  assumes "counts_ok (sp_events s) (sp_filtered s) (sp_chats s)"
  shows "reconcile_failures s = s"
proof -
  have keep: "(case map_of (failed_counts (sp_events s)) chat of None \<Rightarrow> set_failed 0 c | Some n \<Rightarrow> set_failed n (set_failed 0 c)) = c"
    if "(chat, c) \<in> set (sp_chats s)" for chat c
  proof -
    have "map_of (sp_chats s) chat = Some c" using that assms by (simp add: counts_ok_def)
    then have "chat \<noteq> []" "ch_failed c = failed_in chat (sp_events s)" using counts_okD [OF assms] by blast+
    then show ?thesis by (auto simp: map_of_failed_counts set_failed_def)
  qed
  have "fold (\<lambda>(chat, n). update_at chat (set_failed n)) (failed_counts (sp_events s)) (map (\<lambda>(chat, c). (chat, set_failed 0 c)) (sp_chats s))
      = sp_chats s"
    unfolding fold_set_failed [OF distinct_failed_counts] map_map
    by (rule map_idI) (auto simp: keep)
  then show ?thesis by (simp add: reconcile_failures_def)
qed

lemma failed_le_events: "failed_in chat rows \<le> events_in chat rows"
  unfolding failed_in_def events_in_def by (induction rows) auto

text \<open>One more event or one more filtered message of a chat.\<close>

lemma counts_ok_upsert:
  assumes ok: "counts_ok rows dropped chats" and chat: "chat \<noteq> []"
    and failed: "\<And>ch. failed_in ch rows' = failed_in ch rows"
    and filtered: "\<And>ch. filtered_in ch dropped' = filtered_in ch dropped + (if ch = chat then d else 0)"
    and seen: "\<And>ch. events_in ch rows' + filtered_in ch dropped' = events_in ch rows + filtered_in ch dropped + (if ch = chat then 1 else 0)"
    and f: "\<And>c. ch_observed (f c) = ch_observed c + 1" "\<And>c. ch_filtered (f c) = ch_filtered c + d" "\<And>c. ch_failed (f c) = ch_failed c"
  shows "counts_ok rows' dropped' (upsert chat (f new_chat) f chats)"
  unfolding counts_ok_def seen
proof (intro conjI allI impI)
  show "distinct (map fst (upsert chat (f new_chat) f chats))" using ok by (simp add: counts_ok_def)
  fix ch :: string
  assume "ch \<noteq> []" "0 < events_in ch rows + filtered_in ch dropped + (if ch = chat then 1 else 0)"
  then show "map_of (upsert chat (f new_chat) f chats) ch \<noteq> None" using counts_ok_present [OF ok, of ch] by (auto split: if_splits)
next
  fix ch c
  assume c: "map_of (upsert chat (f new_chat) f chats) ch = Some c"
  show "ch \<noteq> []" using c chat counts_okD(1) [OF ok] by (auto split: if_splits)
  have "ch_failed c = failed_in ch rows \<and> ch_filtered c = filtered_in ch dropped + (if ch = chat then d else 0)
      \<and> ch_observed c = events_in ch rows + filtered_in ch dropped + (if ch = chat then 1 else 0)"
  proof (cases "map_of chats ch")
    case (Some c0)
    then show ?thesis using c f counts_okD [OF ok Some] by (auto split: if_splits)
  next
    case None
    then have new: "ch = chat" "c = f new_chat" using c by (auto split: if_splits)
    have "events_in ch rows + filtered_in ch dropped = 0"
    proof (rule ccontr)
      assume "events_in ch rows + filtered_in ch dropped \<noteq> 0"
      then have "0 < events_in ch rows + filtered_in ch dropped"
        using counts_nonneg(2) [of ch rows] counts_nonneg(3) [of ch dropped] by linarith
      then show False using None counts_ok_present [OF ok, of ch] chat new(1) by blast
    qed
    moreover from this have "events_in ch rows = 0" "filtered_in ch dropped = 0"
      using counts_nonneg(2) [of ch rows] counts_nonneg(3) [of ch dropped] by linarith+
    moreover have "failed_in ch rows = 0" using failed_le_events [of ch rows] calculation counts_nonneg(1) [of ch rows] by linarith
    ultimately show ?thesis using new f by (simp add: new_chat_def)
  qed
  then show "ch_failed c = failed_in ch rows'" "ch_filtered c = filtered_in ch dropped'"
    "ch_observed c = events_in ch rows + filtered_in ch dropped + (if ch = chat then 1 else 0)"
    by (simp_all add: failed filtered)
qed

section \<open>The cursor\<close>

definition cursor_ok :: "bool \<Rightarrow> nat \<Rightarrow> event_row list \<Rightarrow> bool" where
  "cursor_ok orderly n rows =
     (n \<le> length rows \<and> (n < length rows \<longrightarrow> er_status (rows ! n) \<noteq> Delivered)
      \<and> (orderly \<longrightarrow> (\<forall>i < n. er_status (rows ! i) = Delivered)))"

lemma drain_sequence:
  "map er_sequence rows = [Suc k..<Suc k + length rows] \<Longrightarrow> cu_sequence c = k
    \<Longrightarrow> cu_sequence (drain now rows c) = k + length (takeWhile (\<lambda>r. er_status r = Delivered) rows)"
proof (induction rows arbitrary: k c)
  case (Cons r rows)
  have "er_sequence r = Suc k" "map er_sequence rows = [Suc (Suc k)..<Suc (Suc k) + length rows]"
    using Cons.prems(1) by (simp_all add: upt_conv_Cons del: upt_Suc)
  then show ?case using Cons.IH [of "Suc k"] Cons.prems(2) by simp
qed simp

lemma rows_sequence: "rows_ok t rows \<Longrightarrow> i < length rows \<Longrightarrow> er_sequence (rows ! i) = Suc i"
proof -
  assume "rows_ok t rows" "i < length rows"
  then have "map er_sequence rows ! i = [1..<Suc (length rows)] ! i" by (simp add: rows_ok_def)
  then show ?thesis using \<open>i < length rows\<close> by (simp del: upt_Suc)
qed

lemma rows_after:
  assumes "rows_ok t rows"
  shows "sort_key er_sequence (filter (\<lambda>r. n < er_sequence r) rows) = drop n rows"
proof -
  have "filter (\<lambda>r. n < er_sequence r) (take n rows) = []"
    using rows_sequence [OF assms] by (auto simp: filter_empty_conv in_set_conv_nth)
  moreover have "filter (\<lambda>r. n < er_sequence r) (drop n rows) = drop n rows"
    using rows_sequence [OF assms] by (auto simp: filter_id_conv in_set_conv_nth)
  ultimately have "filter (\<lambda>r. n < er_sequence r) rows = drop n rows"
    by (metis append_Nil append_take_drop_id filter_append)
  moreover have "sorted (map er_sequence (drop n rows))"
    using assms by (simp add: rows_ok_def drop_map [symmetric] del: upt_Suc)
  ultimately show ?thesis by (simp add: sort_key_id_if_sorted)
qed

lemma advance_cursor_frame [simp]:
  "sp_events (advance_cursor now s) = sp_events s" "sp_chats (advance_cursor now s) = sp_chats s"
  "sp_filtered (advance_cursor now s) = sp_filtered s"
  by (simp_all add: advance_cursor_def)

lemma advance_cursor_ok:
  assumes rows: "rows_ok t (sp_events s)" and n: "cu_sequence (sp_cursor s) \<le> length (sp_events s)"
    and before: "\<And>i. orderly \<Longrightarrow> i < cu_sequence (sp_cursor s) \<Longrightarrow> er_status (sp_events s ! i) = Delivered"
  shows "cursor_ok orderly (cu_sequence (sp_cursor (advance_cursor now s))) (sp_events s)"
proof -
  let ?rows = "sp_events s" and ?n = "cu_sequence (sp_cursor s)" and ?D = "\<lambda>r. er_status r = Delivered"
  let ?done = "takeWhile ?D (drop ?n ?rows)"
  have "map er_sequence (drop ?n ?rows) = [Suc ?n..<Suc ?n + length (drop ?n ?rows)]"
    using rows n by (simp add: rows_ok_def drop_map [symmetric] drop_upt del: upt_Suc)
  then have moved: "cu_sequence (sp_cursor (advance_cursor now s)) = ?n + length ?done"
    by (simp add: advance_cursor_def rows_after [OF rows] drain_sequence)
  have len: "length ?done \<le> length ?rows - ?n" using length_takeWhile_le [of ?D "drop ?n ?rows"] by simp
  have "er_status (?rows ! i) = Delivered" if "orderly" "i < ?n + length ?done" for i
  proof (cases "i < ?n")
    case False
    then have "i - ?n < length ?done" using that by simp
    moreover from this have "?done ! (i - ?n) = ?rows ! i" using False len n by (simp add: takeWhile_nth)
    ultimately show ?thesis using nth_mem [of "i - ?n" ?done] by (auto dest: set_takeWhileD)
  qed (use before that in blast)
  moreover have "er_status (?rows ! (?n + length ?done)) \<noteq> Delivered" if "?n + length ?done < length ?rows"
    using nth_length_takeWhile [of ?D "drop ?n ?rows"] that by simp
  ultimately show ?thesis using len n by (auto simp: cursor_ok_def moved)
qed

section \<open>The spool under its callers\<close>

text \<open>
  Calls in any order at times that do not go back, and restarts. An id names the chat and the message
  of its event, so a repeated event is of the same chat. \<open>orderly\<close> callers neither reopen a delivered
  event nor report a failure of one.
\<close>

inductive spool_step :: "bool \<Rightarrow> spool \<times> rat \<Rightarrow> spool \<times> rat \<Rightarrow> bool" for orderly where
  queued: "t \<le> now \<Longrightarrow> (orderly \<longrightarrow> \<not> reopen)
    \<Longrightarrow> (\<forall>r. event_of (py_strip event_id) s = Some r \<longrightarrow> row_chat r = chat_of p)
    \<Longrightarrow> enqueue n event_id p refresh reopen now s = (answer, s') \<Longrightarrow> spool_step orderly (s, t) (s', now)"
| claimed: "t \<le> now \<Longrightarrow> claim event_id seconds now s = (taken, s') \<Longrightarrow> spool_step orderly (s, t) (s', now)"
| delivered: "t \<le> now \<Longrightarrow> spool_step orderly (s, t) (mark_delivered event_id now s, now)"
| failed: "t \<le> now \<Longrightarrow> (orderly \<longrightarrow> (\<forall>r. event_of event_id s = Some r \<longrightarrow> er_status r \<noteq> Delivered))
    \<Longrightarrow> spool_step orderly (s, t) (mark_failed event_id error_text retry_after now s, now)"
| ignored: "t \<le> now \<Longrightarrow> mark_ignored event_id reason now s = (outcome, s') \<Longrightarrow> spool_step orderly (s, t) (s', now)"
| position: "t \<le> now \<Longrightarrow> record_position p now s = (gap, s') \<Longrightarrow> spool_step orderly (s, t) (s', now)"
| recovered: "t \<le> now \<Longrightarrow> record_recovered_position chat place now s = (fresh, s') \<Longrightarrow> spool_step orderly (s, t) (s', now)"
| filtered: "t \<le> now \<Longrightarrow> record_filtered event_id chat message_id place message_type source_key keyword reason now s = (fresh, s')
    \<Longrightarrow> spool_step orderly (s, t) (s', now)"
| dropped: "t \<le> now \<Longrightarrow> record_ignored chat place message_id message_type reason now s = (gap, s')
    \<Longrightarrow> spool_step orderly (s, t) (s', now)"
| counted: "t \<le> now \<Longrightarrow> increment_counter name amount now s = (total_now, s') \<Longrightarrow> spool_step orderly (s, t) (s', now)"
| restart: "t \<le> now \<Longrightarrow> spool_step orderly (s, t) (open_spool max_event_bytes s, now)"

inductive spool_reachable :: "bool \<Rightarrow> spool \<times> rat \<Rightarrow> bool" for orderly where
  start: "spool_reachable orderly (open_spool max_event_bytes (new_spool t), t)"
| step: "spool_reachable orderly s \<Longrightarrow> spool_step orderly s s' \<Longrightarrow> spool_reachable orderly s'"

definition spool_ok :: "bool \<Rightarrow> spool \<times> rat \<Rightarrow> bool" where
  "spool_ok orderly s =
     (case s of (s, t) \<Rightarrow> rows_ok t (sp_events s) \<and> counts_ok (sp_events s) (sp_filtered s) (sp_chats s)
        \<and> cursor_ok orderly (cu_sequence (sp_cursor s)) (sp_events s))"

text \<open>The tables the invariant speaks about, as the other operations leave them.\<close>

lemma frame_simps [simp]:
  "sp_events (snd (add_position chat place now s)) = sp_events s"
  "sp_chats (snd (add_position chat place now s)) = sp_chats s"
  "sp_filtered (snd (add_position chat place now s)) = sp_filtered s"
  "sp_cursor (snd (add_position chat place now s)) = sp_cursor s"
  "sp_events (add_counter name amount now s) = sp_events s"
  "sp_chats (add_counter name amount now s) = sp_chats s"
  "sp_filtered (add_counter name amount now s) = sp_filtered s"
  "sp_cursor (add_counter name amount now s) = sp_cursor s"
  by (simp_all add: add_position_def add_counter_def split: option.split prod.split)

lemma frame_ignored [simp]:
  "sp_events (snd (add_ignored chat place m k reason now s)) = sp_events s"
  "sp_chats (snd (add_ignored chat place m k reason now s)) = sp_chats s"
  "sp_filtered (snd (add_ignored chat place m k reason now s)) = sp_filtered s"
  "sp_cursor (snd (add_ignored chat place m k reason now s)) = sp_cursor s"
  by (simp_all add: add_ignored_def Let_def)

lemma frame_position [simp]:
  "sp_events (snd (record_position p now s)) = sp_events s"
  "sp_chats (snd (record_position p now s)) = sp_chats s"
  "sp_filtered (snd (record_position p now s)) = sp_filtered s"
  "sp_cursor (snd (record_position p now s)) = sp_cursor s"
  by (simp_all add: record_position_def split_beta)

lemma frame_dropped [simp]:
  "sp_events (snd (record_ignored chat place m k reason now s)) = sp_events s"
  "sp_chats (snd (record_ignored chat place m k reason now s)) = sp_chats s"
  "sp_filtered (snd (record_ignored chat place m k reason now s)) = sp_filtered s"
  "sp_cursor (snd (record_ignored chat place m k reason now s)) = sp_cursor s"
  by (simp_all add: record_ignored_def Let_def)

lemma frame_update [simp]:
  "sp_events (update_event event_id f s) = map (\<lambda>r. if er_id r = event_id then f r else r) (sp_events s)"
  "sp_chats (update_event event_id f s) = sp_chats s"
  "sp_filtered (update_event event_id f s) = sp_filtered s"
  "sp_cursor (update_event event_id f s) = sp_cursor s"
  "sp_events (update_chat chat g s) = sp_events s"
  "sp_chats (update_chat chat g s) = (if chat = [] then sp_chats s else update_at chat g (sp_chats s))"
  "sp_filtered (update_chat chat g s) = sp_filtered s"
  "sp_cursor (update_chat chat g s) = sp_cursor s"
  by (simp_all add: update_event_def update_chat_def)

lemma chats_same [simp]: "sp_chats s = chats \<Longrightarrow> s\<lparr>sp_chats := chats\<rparr> = s"
  by (cases s) simp

lemma event_of_Some: "event_of event_id s = Some r \<Longrightarrow> r \<in> set (sp_events s) \<and> er_id r = event_id"
  by (auto simp: event_of_def py_next_def find_Some_iff in_set_conv_nth)

lemma event_of_None: "event_of event_id s = None \<longleftrightarrow> event_id \<notin> er_id ` set (sp_events s)"
  by (auto simp: event_of_def py_next_def find_None_iff)

lemma event_of_iff:
  assumes "distinct (map er_id (sp_events s))"
  shows "event_of event_id s = Some r \<longleftrightarrow> r \<in> set (sp_events s) \<and> er_id r = event_id"
proof
  assume r: "r \<in> set (sp_events s) \<and> er_id r = event_id"
  then obtain r' where r': "event_of event_id s = Some r'" using event_of_None [of event_id s] by fastforce
  from event_of_Some [OF this] r assms have "r' = r" by (metis distinct_map inj_onD)
  then show "event_of event_id s = Some r" using r' by simp
qed (rule event_of_Some)

lemma update_absent: "event_of event_id s = None \<Longrightarrow> sp_events (update_event event_id f s) = sp_events s"
  by (auto simp: event_of_None image_iff intro!: map_idI)

lemma rows_ok_later: "rows_ok t rows \<Longrightarrow> t \<le> now \<Longrightarrow> rows_ok now rows"
  unfolding rows_ok_def by (meson order_trans)

lemma rows_ok_update:
  assumes "rows_ok t rows"
    and "\<And>r. r \<in> set rows \<Longrightarrow> er_id (f r) = er_id r \<and> er_sequence (f r) = er_sequence r \<and> er_created (f r) = er_created r
      \<and> (\<exists>p. er_payload (f r) = Stored p) \<and> (er_status (f r) = Processing \<longrightarrow> er_lease (f r) \<noteq> None)"
  shows "rows_ok t (map (\<lambda>r. if er_id r = event_id then f r else r) rows)"
proof -
  let ?g = "\<lambda>r. if er_id r = event_id then f r else r"
  have maps: "map er_id (map ?g rows) = map er_id rows" "map er_sequence (map ?g rows) = map er_sequence rows"
    "map er_created (map ?g rows) = map er_created rows"
    using assms(2) by auto
  show ?thesis unfolding rows_ok_def maps length_map using assms by (auto simp: rows_ok_def)
qed

lemma cursor_ok_update:
  assumes "cursor_ok orderly n rows"
    and "\<And>r. r \<in> set rows \<Longrightarrow> er_id r = event_id \<Longrightarrow> er_status (f r) = Delivered \<Longrightarrow> er_status r = Delivered"
    and "\<And>r. orderly \<Longrightarrow> r \<in> set rows \<Longrightarrow> er_id r = event_id \<Longrightarrow> er_status r = Delivered \<Longrightarrow> er_status (f r) = Delivered"
  shows "cursor_ok orderly n (map (\<lambda>r. if er_id r = event_id then f r else r) rows)"
  using assms unfolding cursor_ok_def by auto

lemma fold_max_seq: "fold max [Suc 0..<Suc n] m = max m n" for n m :: nat
  by (induction n) auto

lemma next_sequence_rows: "rows_ok t (sp_events s) \<Longrightarrow> next_sequence s = Suc (length (sp_events s))"
  by (simp add: next_sequence_def rows_ok_def fold_max_seq del: upt_Suc)

lemma row_chat_Stored [simp]: "er_payload r = Stored p \<Longrightarrow> row_chat r = chat_of p"
  by (simp add: row_chat_def payload_meta_def)

lemma counts_ok_refresh:
  assumes ok: "counts_ok rows dropped chats" and ids: "distinct (map er_id rows)" and r: "r \<in> set rows"
    and chat: "row_chat (f r) = row_chat r" and status: "er_status (f r) = Failed \<longleftrightarrow> er_status r = Failed"
  shows "counts_ok (map (\<lambda>x. if er_id x = er_id r then f x else x) rows) dropped chats"
  using counts_ok_event [where f = f and g = "\<lambda>c. c", OF ok ids r chat] status by (simp split: if_splits)

lemma enqueue_spool:
  "snd (enqueue n raw p refresh reopen now s) =
     (let event_id = py_strip raw in
      if event_id = [] \<or> 256 < length event_id \<or> sp_max_bytes s < int n then s
      else case event_of event_id s of
        None \<Rightarrow> s\<lparr>sp_events := sp_events s @ [new_event (next_sequence s) event_id p now],
          sp_chats := record_observed p now (sp_chats s),
          sp_coverage := record_coverage (chat_of p) (payload_position p) Observed now (sp_coverage s)\<rparr>
      | Some r \<Rightarrow> if refresh then update_event event_id (refresh_event reopen p now) s else s)"
  by (simp add: enqueue_def Let_def)

lemma enqueue_ok:
  assumes ok: "spool_ok orderly (s, t)" and now: "t \<le> now" and closed: "orderly \<longrightarrow> \<not> reopen"
    and same: "\<forall>r. event_of (py_strip raw) s = Some r \<longrightarrow> row_chat r = chat_of p"
    and run: "enqueue n raw p refresh reopen now s = (answer, s')"
  shows "spool_ok orderly (s', now)"
proof -
  define id where "id = py_strip raw"
  note rows = conjunct1 [OF ok [unfolded spool_ok_def prod.case]]
  have counts: "counts_ok (sp_events s) (sp_filtered s) (sp_chats s)" and cursor: "cursor_ok orderly (cu_sequence (sp_cursor s)) (sp_events s)"
    using ok by (simp_all add: spool_ok_def)
  note later = rows_ok_later [OF rows now]
  consider (kept) "s' = s" | (fresh) "event_of id s = None" "s' = s\<lparr>sp_events := sp_events s @ [new_event (next_sequence s) id p now],
          sp_chats := record_observed p now (sp_chats s),
          sp_coverage := record_coverage (chat_of p) (payload_position p) Observed now (sp_coverage s)\<rparr>"
    | (again) r where "event_of id s = Some r" "s' = update_event id (refresh_event reopen p now) s"
  proof -
    have "s' = snd (enqueue n raw p refresh reopen now s)" by (simp add: run)
    then show ?thesis
      using that unfolding enqueue_spool Let_def id_def [symmetric]
      by (cases "event_of id s") (simp_all split: if_splits)
  qed
  then show ?thesis
  proof cases
    case kept
    then show ?thesis using later counts cursor by (simp add: spool_ok_def)
  next
    case fresh
    let ?new = "new_event (next_sequence s) id p now"
    have new: "er_id ?new = id" "er_sequence ?new = Suc (length (sp_events s))" "er_created ?new = now"
      "er_payload ?new = Stored p" "er_status ?new = Queued"
      by (simp_all add: new_event_def next_sequence_rows [OF rows])
    have "rows_ok now (sp_events s @ [?new])"
      unfolding rows_ok_def
    proof (intro conjI)
      show "distinct (map er_id (sp_events s @ [?new]))" using later fresh(1) new(1) by (simp add: rows_ok_def event_of_None)
      show "map er_sequence (sp_events s @ [?new]) = [1..<Suc (length (sp_events s @ [?new]))]"
        using later new(2) by (simp add: rows_ok_def)
      show "sorted (map er_created (sp_events s @ [?new]))" using later new(3) by (auto simp: rows_ok_def sorted_append)
      show "\<forall>r \<in> set (sp_events s @ [?new]). er_created r \<le> now \<and> (\<exists>p. er_payload r = Stored p)
          \<and> (er_status r = Processing \<longrightarrow> er_lease r \<noteq> None)"
        using later new(3-5) by (auto simp: rows_ok_def)
    qed
    moreover have "cursor_ok orderly (cu_sequence (sp_cursor s)) (sp_events s @ [?new])"
      using cursor new(5) by (auto simp: cursor_ok_def nth_append less_Suc_eq)
    moreover have "counts_ok (sp_events s @ [?new]) (sp_filtered s) (record_observed p now (sp_chats s))"
    proof (cases "chat_of p = []")
      case True
      have "failed_in ch (sp_events s @ [?new]) = failed_in ch (sp_events s)" for ch by (simp add: failed_in_def new)
      moreover have "events_in ch (sp_events s @ [?new]) = events_in ch (sp_events s)" if "ch \<noteq> []" for ch
        using that True new(4) by (simp add: events_in_def)
      ultimately show ?thesis using counts True by (auto simp: counts_ok_def record_observed_def)
    next
      case False
      have "counts_ok (sp_events s @ [?new]) (sp_filtered s)
          (upsert (chat_of p) (observe_chat now (normal_type (raw_type p)) new_chat) (observe_chat now (normal_type (raw_type p))) (sp_chats s))"
        by (rule counts_ok_upsert [OF counts False, where d = 0])
          (auto simp: failed_in_def events_in_def new observe_chat_def)
      then show ?thesis using False by (simp add: record_observed_def Let_def)
    qed
    ultimately show ?thesis by (simp add: spool_ok_def fresh(2))
  next
    case again
    let ?f = "refresh_event reopen p now"
    from event_of_Some [OF again(1)] have r: "r \<in> set (sp_events s)" "er_id r = id" by simp_all
    have ids: "distinct (map er_id (sp_events s))" using rows by (simp add: rows_ok_def)
    have chat: "row_chat (?f r) = row_chat r"
      using same again(1) by (auto simp: id_def refresh_event_def row_chat_def payload_meta_def)
    have "rows_ok now (map (\<lambda>x. if er_id x = id then ?f x else x) (sp_events s))"
      by (rule rows_ok_update [OF later]) (use later in \<open>auto simp: refresh_event_def rows_ok_def\<close>)
    moreover have "counts_ok (map (\<lambda>x. if er_id x = id then ?f x else x) (sp_events s)) (sp_filtered s) (sp_chats s)"
      using counts_ok_refresh [where f = ?f, OF counts ids r(1) chat] r(2) by (auto simp: refresh_event_def)
    moreover have "cursor_ok orderly (cu_sequence (sp_cursor s)) (map (\<lambda>x. if er_id x = id then ?f x else x) (sp_events s))"
      by (rule cursor_ok_update [OF cursor]) (use closed in \<open>auto simp: refresh_event_def split: if_splits\<close>)
    ultimately show ?thesis by (simp add: spool_ok_def again(2))
  qed
qed

lemma claim_ok:
  assumes ok: "spool_ok orderly (s, t)" and now: "t \<le> now" and run: "claim event_id seconds now s = (taken, s')"
  shows "spool_ok orderly (s', now)"
proof -
  have rows: "rows_ok now (sp_events s)" and counts: "counts_ok (sp_events s) (sp_filtered s) (sp_chats s)"
    and cursor: "cursor_ok orderly (cu_sequence (sp_cursor s)) (sp_events s)"
    using ok rows_ok_later [OF _ now] by (auto simp: spool_ok_def)
  consider (kept) "s' = s" | (taken) r where "event_of event_id s = Some r" "er_status r \<noteq> Delivered"
      "s' = update_event event_id (claim_event now seconds) (if er_status r = Failed then update_chat (row_chat r) less_failed s else s)"
    using run by (auto simp: claim_def split: option.splits if_splits)
  then show ?thesis
  proof cases
    case kept
    then show ?thesis using rows counts cursor by (simp add: spool_ok_def)
  next
    case taken
    let ?f = "claim_event now seconds" and ?g = "\<lambda>c. if er_status r = Failed then less_failed c else c"
    from event_of_Some [OF taken(1)] have r: "r \<in> set (sp_events s)" "er_id r = event_id" by simp_all
    have ids: "distinct (map er_id (sp_events s))" using rows by (simp add: rows_ok_def)
    have chat: "row_chat (?f r) = row_chat r" by (simp add: claim_event_def row_chat_def)
    have pos: "er_status r = Failed \<Longrightarrow> 0 < failed_in (row_chat r) (sp_events s)"
      using r(1) by (auto simp: failed_in_def filter_empty_conv)
    have "counts_ok (map (\<lambda>x. if er_id x = er_id r then ?f x else x) (sp_events s)) (sp_filtered s)
        (if row_chat r = [] then sp_chats s else update_at (row_chat r) ?g (sp_chats s))"
      by (rule counts_ok_event [where f = ?f and g = ?g, OF counts ids r(1) chat]) (use pos in \<open>auto simp: less_failed_def claim_event_def\<close>)
    then have "counts_ok (sp_events s') (sp_filtered s') (sp_chats s')" 
      by (cases "er_status r = Failed") (simp_all add: taken(3) r(2) split: if_split_asm)
    moreover have "rows_ok now (sp_events s')"
      using rows_ok_update [OF rows, of ?f event_id] rows by (auto simp: taken(3) claim_event_def rows_ok_def)
    moreover have "cursor_ok orderly (cu_sequence (sp_cursor s')) (sp_events s')"
      using cursor_ok_update [OF cursor, of event_id ?f] taken(2) r event_of_iff [OF ids, of event_id r] taken(1)
      by (auto simp: taken(3) claim_event_def) (metis event_of_iff [OF ids] option.inject)
    ultimately show ?thesis by (simp add: spool_ok_def)
  qed
qed

text \<open>The reports: the event changes its status, its chat the failures it counts.\<close>

lemma report_ok:
  assumes ok: "spool_ok orderly (s, t)" and now: "t \<le> now" and r: "event_of event_id s = Some r"
    and f: "\<And>r. er_id (f r) = er_id r" "\<And>r. er_sequence (f r) = er_sequence r" "\<And>r. er_created (f r) = er_created r"
      "\<And>r. er_payload (f r) = er_payload r" "\<And>r. er_status (f r) \<noteq> Processing"
    and g: "\<And>c. ch_observed (g c) = ch_observed c" "\<And>c. ch_filtered (g c) = ch_filtered c"
    and fewer: "\<And>c. ch_failed c = failed_in (row_chat r) (sp_events s) \<Longrightarrow> (er_status r = Failed \<longrightarrow> 0 < ch_failed c) \<Longrightarrow>
      ch_failed (g c) = ch_failed c - (if er_status r = Failed then 1 else 0) + (if er_status (f r) = Failed then 1 else 0)"
  defines "s' \<equiv> update_chat (row_chat r) g (update_event event_id f s)"
  shows "rows_ok now (sp_events s')" "counts_ok (sp_events s') (sp_filtered s') (sp_chats s')"
proof -
  have rows: "rows_ok now (sp_events s)" and counts: "counts_ok (sp_events s) (sp_filtered s) (sp_chats s)"
    using ok rows_ok_later [OF _ now] by (auto simp: spool_ok_def)
  from event_of_Some [OF r] have r': "r \<in> set (sp_events s)" "er_id r = event_id" by simp_all
  have ids: "distinct (map er_id (sp_events s))" using rows by (simp add: rows_ok_def)
  have chat: "row_chat (f r) = row_chat r" by (simp add: row_chat_def f)
  have pos: "er_status r = Failed \<Longrightarrow> 0 < failed_in (row_chat r) (sp_events s)"
    using r'(1) by (auto simp: failed_in_def filter_empty_conv)
  have fewer': "ch_failed (g c) = ch_failed c - (if er_status r = Failed then 1 else 0) + (if er_status (f r) = Failed then 1 else 0)"
    if "ch_failed c = failed_in (row_chat r) (sp_events s)" for c
    using fewer [OF that] pos that by simp
  show "rows_ok now (sp_events s')"
    using rows_ok_update [OF rows, of f event_id] rows f by (simp add: s'_def rows_ok_def)
  show "counts_ok (sp_events s') (sp_filtered s') (sp_chats s')"
    using counts_ok_event [where f = f and g = g, OF counts ids r'(1) chat g fewer']
    by (simp add: s'_def r'(2) split: if_split_asm)
qed

lemma advanced_ok:
  assumes "rows_ok now (sp_events s')" "counts_ok (sp_events s') (sp_filtered s') (sp_chats s')"
    and n: "cu_sequence (sp_cursor s') \<le> length (sp_events s')"
    and before: "\<And>i. orderly \<Longrightarrow> i < cu_sequence (sp_cursor s') \<Longrightarrow> er_status (sp_events s' ! i) = Delivered"
  shows "spool_ok orderly (advance_cursor now s', now)"
  using assms(1,2) advance_cursor_ok [OF assms(1) n before] by (simp add: spool_ok_def)

lemma mark_delivered_ok:
  assumes ok: "spool_ok orderly (s, t)" and now: "t \<le> now"
  shows "spool_ok orderly (mark_delivered event_id now s, now)"
proof -
  have rows: "rows_ok now (sp_events s)" and counts: "counts_ok (sp_events s) (sp_filtered s) (sp_chats s)"
    and cursor: "cursor_ok orderly (cu_sequence (sp_cursor s)) (sp_events s)"
    using ok rows_ok_later [OF _ now] by (auto simp: spool_ok_def)
  show ?thesis
  proof (cases "event_of event_id s")
    case None
    then have "sp_events (update_event event_id (deliver_event now) s) = sp_events s" by (rule update_absent)
    then show ?thesis
      using advanced_ok [where s' = "update_event event_id (deliver_event now) s"] rows counts cursor None
      by (auto simp: mark_delivered_def cursor_ok_def simp del: frame_update(1))
  next
    case (Some r)
    let ?g = "\<lambda>c. if er_status r \<noteq> Delivered then forward_chat (er_status r) now c else c"
    let ?s = "update_chat (row_chat r) ?g (update_event event_id (deliver_event now) s)"
    have "rows_ok now (sp_events ?s)" "counts_ok (sp_events ?s) (sp_filtered ?s) (sp_chats ?s)"
      by (rule report_ok [where g = ?g, OF ok now Some]; auto simp: deliver_event_def forward_chat_def)+
    moreover have "mark_delivered event_id now s = advance_cursor now ?s"
      using Some by (cases "er_status r = Delivered") (auto simp: mark_delivered_def update_chat_def Let_def)
    ultimately show ?thesis
      using advanced_ok [of now ?s orderly] cursor by (auto simp: cursor_ok_def deliver_event_def)
  qed
qed

lemma mark_failed_ok:
  assumes ok: "spool_ok orderly (s, t)" and now: "t \<le> now"
    and report: "orderly \<longrightarrow> (\<forall>r. event_of event_id s = Some r \<longrightarrow> er_status r \<noteq> Delivered)"
  shows "spool_ok orderly (mark_failed event_id error_text retry_after now s, now)"
proof -
  let ?f = "fail_event now error_text retry_after"
  have rows: "rows_ok now (sp_events s)" and counts: "counts_ok (sp_events s) (sp_filtered s) (sp_chats s)"
    and cursor: "cursor_ok orderly (cu_sequence (sp_cursor s)) (sp_events s)"
    using ok rows_ok_later [OF _ now] by (auto simp: spool_ok_def)
  have ids: "distinct (map er_id (sp_events s))" using rows by (simp add: rows_ok_def)
  have moved: "cursor_ok orderly (cu_sequence (sp_cursor s)) (map (\<lambda>r. if er_id r = event_id then ?f r else r) (sp_events s))"
    by (rule cursor_ok_update [OF cursor]) (use report event_of_iff [OF ids, of event_id] in \<open>auto simp: fail_event_def\<close>)
  show ?thesis
  proof (cases "event_of event_id s")
    case None
    then have "sp_events (update_event event_id ?f s) = sp_events s" by (rule update_absent)
    then show ?thesis using rows counts cursor None by (simp add: mark_failed_def spool_ok_def del: frame_update(1))
  next
    case (Some r)
    let ?g = "\<lambda>c. if er_status r \<noteq> Failed then more_failed c else c"
    let ?s = "update_chat (row_chat r) ?g (update_event event_id ?f s)"
    have "rows_ok now (sp_events ?s)" "counts_ok (sp_events ?s) (sp_filtered ?s) (sp_chats ?s)"
      by (rule report_ok [where g = ?g, OF ok now Some]; auto simp: fail_event_def more_failed_def)+
    moreover have "mark_failed event_id error_text retry_after now s = ?s"
      using Some by (cases "er_status r = Failed") (auto simp: mark_failed_def update_chat_def Let_def)
    ultimately show ?thesis using moved by (simp add: spool_ok_def)
  qed
qed

lemma mark_ignored_ok:
  assumes ok: "spool_ok orderly (s, t)" and now: "t \<le> now" and run: "mark_ignored raw reason now s = (outcome, s')"
  shows "spool_ok orderly (s', now)"
proof -
  define id where "id = py_strip raw"
  let ?f = "ignore_event now reason"
  have rows: "rows_ok now (sp_events s)" and counts: "counts_ok (sp_events s) (sp_filtered s) (sp_chats s)"
    and cursor: "cursor_ok orderly (cu_sequence (sp_cursor s)) (sp_events s)"
    using ok rows_ok_later [OF _ now] by (auto simp: spool_ok_def)
  show ?thesis
  proof (cases "s' = s")
    case False
    then obtain r p where r: "event_of id s = Some r" "er_status r \<noteq> Delivered" "er_payload r = Stored p" "chat_of p \<noteq> []"
      using run by (auto simp: mark_ignored_def Let_def id_def split: if_splits option.splits stored_json.splits)
    define s1 where "s1 = snd (add_ignored (chat_of p) (payload_position p) (str_or (ep_message p) []) (raw_type p) reason now s)"
    let ?g = "\<lambda>c. if er_status r = Failed then less_failed c else c"
    let ?s = "update_chat (row_chat r) ?g (update_event id ?f s1)"
    have s1: "event_of id s1 = Some r" "spool_ok orderly (s1, t)" using r(1) ok by (simp_all add: s1_def event_of_def spool_ok_def)
    have "rows_ok now (sp_events ?s)" "counts_ok (sp_events ?s) (sp_filtered ?s) (sp_chats ?s)"
      by (rule report_ok [where g = ?g, OF s1(2) now s1(1)]; auto simp: ignore_event_def deliver_event_def less_failed_def)+
    moreover have "s' = advance_cursor now ?s"
    proof -
      have "id \<noteq> []" using run False by (auto simp: mark_ignored_def Let_def id_def split: if_splits)
      then have "s' = advance_cursor now
          (if er_status r = Failed then update_chat (chat_of p) less_failed (update_event id ?f s1) else update_event id ?f s1)"
        using run r by (simp add: mark_ignored_def Let_def id_def [symmetric] s1_def split: if_splits)
      then show ?thesis using r(3,4) by (cases "er_status r = Failed") (auto simp: update_chat_def)
    qed
    ultimately show ?thesis
      using advanced_ok [of now ?s orderly] cursor by (auto simp: cursor_ok_def ignore_event_def deliver_event_def s1_def)
  qed (use rows counts cursor in \<open>simp add: spool_ok_def\<close>)
qed

lemma record_filtered_ok:
  assumes ok: "spool_ok orderly (s, t)" and now: "t \<le> now"
    and run: "record_filtered raw_event raw_chat message_id place message_type source_key keyword reason now s = (fresh, s')"
  shows "spool_ok orderly (s', now)"
proof (cases "s' = s")
  case False
  have rows: "rows_ok now (sp_events s)" and counts: "counts_ok (sp_events s) (sp_filtered s) (sp_chats s)"
    and cursor: "cursor_ok orderly (cu_sequence (sp_cursor s)) (sp_events s)"
    using ok rows_ok_later [OF _ now] by (auto simp: spool_ok_def)
  let ?chat = "py_strip raw_chat" and ?f = "filter_chat now (normal_type (str_or (Some message_type) ''UNKNOWN''))"
  obtain row where row: "?chat \<noteq> []" "fi_chat row = ?chat" "sp_filtered s' = sp_filtered s @ [(py_strip raw_event, row)]"
      "sp_chats s' = upsert ?chat (?f new_chat) ?f (sp_chats s)" "sp_events s' = sp_events s" "sp_cursor s' = sp_cursor s"
    using run False by (force simp: record_filtered_def Let_def split: if_splits)
  have "counts_ok (sp_events s) (sp_filtered s @ [(py_strip raw_event, row)]) (upsert ?chat (?f new_chat) ?f (sp_chats s))"
    by (rule counts_ok_upsert [OF counts row(1), where d = 1])
      (auto simp: filtered_in_def row(2) filter_chat_def observe_chat_def)
  then show ?thesis using rows cursor by (simp add: spool_ok_def row)
qed (use ok rows_ok_later [OF _ now] in \<open>auto simp: spool_ok_def\<close>)

lemma open_spool_same:
  assumes "counts_ok (sp_events s) (sp_filtered s) (sp_chats s)"
  shows "sp_events (open_spool n s) = sp_events s" "sp_filtered (open_spool n s) = sp_filtered s"
    "sp_chats (open_spool n s) = sp_chats s" "sp_cursor (open_spool n s) = sp_cursor s"
proof -
  let ?s = "s\<lparr>sp_max_bytes := max (16 * 1024) n\<rparr>"
  have "backfill_chat_stats ?s = ?s"
  proof (cases "sp_chats s = []")
    case True
    then have none: "row_chat r = []" if "r \<in> set (sp_events s)" for r
      using counts_ok_present [OF assms, of "row_chat r"] events_in_pos [OF that] counts_nonneg(3) [of "row_chat r" "sp_filtered s"]
      by fastforce
    have "fold (\<lambda>r chats. if row_chat r = [] then chats else upsert (row_chat r) (backfill_chat r new_chat) (backfill_chat r) chats)
        rows chats = chats" if "set rows \<subseteq> set (sp_events s)" for rows chats
      using that by (induction rows) (auto simp: none)
    then show ?thesis using True by (simp add: backfill_chat_stats_def)
  qed (simp add: backfill_chat_stats_def)
  moreover have "reconcile_failures ?s = ?s" by (rule reconcile_failures_same) (simp add: assms)
  ultimately have opened: "open_spool n s = backfill_position_coverage (rebuild_position_stats ?s)" by (simp add: open_spool_def)
  show "sp_events (open_spool n s) = sp_events s" "sp_filtered (open_spool n s) = sp_filtered s"
    "sp_chats (open_spool n s) = sp_chats s" "sp_cursor (open_spool n s) = sp_cursor s"
    unfolding opened by (simp_all add: backfill_position_coverage_def rebuild_position_stats_def Let_def)
qed

lemma spool_step_ok: "spool_step orderly s s' \<Longrightarrow> spool_ok orderly s \<Longrightarrow> spool_ok orderly s'"
proof (induction rule: spool_step.cases)
  case (queued t now reopen event_id s p n refresh answer s')
  then show ?case using enqueue_ok by blast
next
  case (claimed t now event_id seconds s taken s')
  then show ?case using claim_ok by blast
next
  case (delivered t now s event_id)
  then show ?case using mark_delivered_ok by blast
next
  case (failed t now event_id s error_text retry_after)
  then show ?case using mark_failed_ok by blast
next
  case (ignored t now event_id reason s outcome s')
  then show ?case using mark_ignored_ok by blast
next
  case (position t now p s gap s')
  then have "sp_events s' = sp_events s" "sp_filtered s' = sp_filtered s" "sp_chats s' = sp_chats s" "sp_cursor s' = sp_cursor s"
    using frame_position [of p now s] by simp_all
  then show ?case using position rows_ok_later by (auto simp: spool_ok_def)
next
  case (recovered t now chat place s fresh s')
  then show ?case using rows_ok_later by (auto simp: spool_ok_def record_recovered_position_def Let_def split: option.splits if_splits)
next
  case (filtered t now event_id chat message_id place message_type source_key keyword reason s fresh s')
  then show ?case using record_filtered_ok by blast
next
  case (dropped t now chat place message_id message_type reason s gap s')
  then have "sp_events s' = sp_events s" "sp_filtered s' = sp_filtered s" "sp_chats s' = sp_chats s" "sp_cursor s' = sp_cursor s"
    using frame_dropped [of chat place message_id message_type reason now s] by simp_all
  then show ?case using dropped rows_ok_later by (auto simp: spool_ok_def)
next
  case (counted t now name amount s total_now s')
  then show ?case using rows_ok_later by (auto simp: spool_ok_def increment_counter_def Let_def split: if_splits)
next
  case (restart t now s n)
  then show ?case using rows_ok_later open_spool_same by (auto simp: spool_ok_def)
qed

lemma spool_reachable_ok: "spool_reachable orderly s \<Longrightarrow> spool_ok orderly s"
proof (induction rule: spool_reachable.induct)
  case (start n t)
  have "counts_ok (sp_events (new_spool t)) (sp_filtered (new_spool t)) (sp_chats (new_spool t))"
    by (simp add: new_spool_def counts_ok_def events_in_def filtered_in_def)
  from open_spool_same [OF this, of n] show ?case
    by (simp add: spool_ok_def new_spool_def rows_ok_def counts_ok_def events_in_def filtered_in_def cursor_ok_def)
qed (rule spool_step_ok)

section \<open>Properties\<close>

lemma length_leading:
  assumes "n \<le> length xs" "\<And>i. i < n \<Longrightarrow> P (xs ! i)" "n < length xs \<Longrightarrow> \<not> P (xs ! n)"
  shows "length (takeWhile P xs) = n"
proof (cases "n = length xs")
  case True
  then have "takeWhile P xs = xs" using assms(2) by (auto simp: takeWhile_eq_all_conv in_set_conv_nth)
  then show ?thesis by (simp only: True)
next
  case False
  then have "xs = take n xs @ xs ! n # drop (Suc n) xs" using assms(1) by (simp add: id_take_nth_drop)
  moreover have "takeWhile P (take n xs @ xs ! n # drop (Suc n) xs) = take n xs @ takeWhile P (xs ! n # drop (Suc n) xs)"
    using assms(2) False assms(1) by (intro takeWhile_append2) (auto simp: in_set_conv_nth)
  ultimately show ?thesis using assms(1,3) False by simp
qed

text \<open>Two messages of a chat: the first fails, the second is delivered, later the first too.\<close>

definition example_payload :: "int \<Rightarrow> event_payload" where
  "example_payload place = \<lparr>ep_chat = Some ''c'', ep_type_name = None, ep_type = Some ''text'', ep_message = None, ep_position = CInt place\<rparr>"

definition queued_spool :: spool where
  "queued_spool = snd (enqueue 10 ''c:m2'' (example_payload 4) False False 2
     (snd (enqueue 10 ''c:m1'' (example_payload 1) False False 1 (open_spool 524288 (new_spool 0)))))"

definition waiting_spool :: spool where
  "waiting_spool = mark_delivered ''c:m2'' 6 (snd (claim ''c:m2'' 300 5
     (mark_failed ''c:m1'' ''timeout'' 30 4 (snd (claim ''c:m1'' 300 3 queued_spool)))))"

definition drained_spool :: spool where
  "drained_spool = mark_delivered ''c:m1'' 61 (snd (claim ''c:m1'' 300 60 waiting_spool))"

lemma enqueue_reachable:
  "spool_reachable orderly (s, t) \<Longrightarrow> t \<le> now \<Longrightarrow> event_of (py_strip event_id) s = None
    \<Longrightarrow> spool_reachable orderly (snd (enqueue n event_id p refresh False now s), now)"
  by (rule spool_reachable.step [OF _ spool_step.queued [where reopen = False]]) (auto simp: prod_eq_iff)

lemma claim_reachable:
  "spool_reachable orderly (s, t) \<Longrightarrow> t \<le> now \<Longrightarrow> spool_reachable orderly (snd (claim event_id seconds now s), now)"
  by (rule spool_reachable.step [OF _ spool_step.claimed]) (auto simp: prod_eq_iff)

lemma delivered_reachable:
  "spool_reachable orderly (s, t) \<Longrightarrow> t \<le> now \<Longrightarrow> spool_reachable orderly (mark_delivered event_id now s, now)"
  by (rule spool_reachable.step [OF _ spool_step.delivered])

lemma queued_reachable: "spool_reachable orderly (queued_spool, 2)"
proof -
  have fresh: "event_of (py_strip ''c:m1'') (open_spool 524288 (new_spool 0)) = None"
    "event_of (py_strip ''c:m2'') (snd (enqueue 10 ''c:m1'' (example_payload 1) False False 1 (open_spool 524288 (new_spool 0)))) = None"
    by code_simp+
  have "spool_reachable orderly (snd (enqueue 10 ''c:m1'' (example_payload 1) False False 1 (open_spool 524288 (new_spool 0))), 1)"
    by (rule enqueue_reachable [OF spool_reachable.start _ fresh(1)]) simp
  from enqueue_reachable [OF this _ fresh(2)] show ?thesis by (simp add: queued_spool_def)
qed

lemma waiting_reachable: "spool_reachable orderly (waiting_spool, 6)"
proof -
  have claimed: "spool_reachable orderly (snd (claim ''c:m1'' 300 3 queued_spool), 3)"
    by (rule claim_reachable [OF queued_reachable]) simp
  have "map_option er_status (event_of ''c:m1'' (snd (claim ''c:m1'' 300 3 queued_spool))) = Some Processing" by code_simp
  then have "spool_step orderly (snd (claim ''c:m1'' 300 3 queued_spool), 3)
      (mark_failed ''c:m1'' ''timeout'' 30 4 (snd (claim ''c:m1'' 300 3 queued_spool)), 4)"
    by (intro spool_step.failed) auto
  from spool_reachable.step [OF claimed this]
  have "spool_reachable orderly (snd (claim ''c:m2'' 300 5 (mark_failed ''c:m1'' ''timeout'' 30 4 (snd (claim ''c:m1'' 300 3 queued_spool)))), 5)"
    by (rule claim_reachable) simp
  then show ?thesis unfolding waiting_spool_def by (rule delivered_reachable) simp
qed

lemma drained_reachable: "spool_reachable orderly (drained_spool, 61)"
proof -
  have "spool_reachable orderly (snd (claim ''c:m1'' 300 60 waiting_spool), 60)" by (rule claim_reachable [OF waiting_reachable]) simp
  then show ?thesis unfolding drained_spool_def by (rule delivered_reachable) simp
qed



lemma length_filter_le: "(\<And>x. P x \<Longrightarrow> Q x) \<Longrightarrow> length (filter P xs) \<le> length (filter Q xs)"
  by (induction xs) (auto intro: le_SucI)

lemma take_filter_nth:
  assumes "i < length xs" "P (xs ! i)" "length (filter P (take i xs)) < k"
  shows "xs ! i \<in> set (take k (filter P xs))"
proof -
  have "filter P xs = filter P (take i xs) @ xs ! i # filter P (drop (Suc i) xs)"
    using assms(1,2) by (subst id_take_nth_drop [OF assms(1)]) simp
  then show ?thesis using assms(3) by (cases "k - length (filter P (take i xs))") auto
qed


text \<open>The positions a chat misses between those it has.\<close>

definition missing_of :: "int list \<Rightarrow> int set" where
  "missing_of xs = {p. p \<notin> set xs \<and> (\<exists>a \<in> set xs. a < p) \<and> (\<exists>b \<in> set xs. p < b)}"

lemma missing_of_Cons:
  assumes "sorted_wrt (<) (p # q # rest)"
  shows "missing_of (p # q # rest) = {p<..<q} \<union> missing_of (q # rest)" "{p<..<q} \<inter> missing_of (q # rest) = {}"
    "finite (missing_of (q # rest))"
proof -
  have above: "q < x" if "x \<in> set rest" for x using assms that by simp
  show "missing_of (p # q # rest) = {p<..<q} \<union> missing_of (q # rest)"
  proof (rule set_eqI)
    fix x
    have "p < y" if "y \<in> set (q # rest)" for y using assms that by auto
    then have whole: "x \<in> missing_of (p # q # rest) \<longleftrightarrow> p < x \<and> x \<notin> set (q # rest) \<and> (\<exists>b \<in> set (q # rest). x < b)"
      by (simp add: missing_of_def) (metis order.strict_trans order.asym)
    have part: "x \<in> missing_of (q # rest) \<longleftrightarrow> q < x \<and> x \<notin> set (q # rest) \<and> (\<exists>b \<in> set (q # rest). x < b)"
      using above by (simp add: missing_of_def) (metis order.strict_trans order.asym)
    have "x \<notin> set (q # rest)" "\<exists>b \<in> set (q # rest). x < b" if "x < q" using that by (auto dest!: above)
    then show "x \<in> missing_of (p # q # rest) \<longleftrightarrow> x \<in> {p<..<q} \<union> missing_of (q # rest)"
      unfolding whole using part assms by (cases x q rule: linorder_cases) simp_all
  qed
  show "{p<..<q} \<inter> missing_of (q # rest) = {}" using above by (force simp: missing_of_def)
  have "missing_of (q # rest) \<subseteq> {q..Max (set (q # rest))}"
  proof
    fix x
    assume "x \<in> missing_of (q # rest)"
    then obtain a b where ab: "a \<in> set (q # rest)" "a < x" "b \<in> set (q # rest)" "x < b" by (auto simp: missing_of_def)
    have "q \<le> a" using ab(1) by (auto dest!: above)
    moreover have "b \<le> Max (set (q # rest))" using ab(3) by (intro Max_ge) simp_all
    ultimately have "q \<le> x" "x \<le> Max (set (q # rest))" using ab by linarith+
    then show "x \<in> {q..Max (set (q # rest))}" by (simp only: atLeastAtMost_iff)
  qed
  then show "finite (missing_of (q # rest))" by (rule finite_subset) simp
qed

lemma gap_ranges_missing:
  "sorted_wrt (<) xs \<Longrightarrow> length (gap_ranges n xs) < n
    \<Longrightarrow> (\<Union>g \<in> set (gap_ranges n xs). {ga_start g..ga_stop g}) = missing_of xs
      \<and> sum_list (map ga_missing (gap_ranges n xs)) = int (card (missing_of xs))"
proof (induction n xs rule: gap_ranges.induct)
  case (1 n p q rest)
  note miss = missing_of_Cons [OF 1(3)]
  have less: "p < q" and tail: "sorted_wrt (<) (q # rest)" using 1(3) by simp_all
  show ?case
  proof (cases "q - p \<le> 1")
    case True
    then have "{p<..<q} = {}" using less by auto
    then show ?thesis using 1(1) [OF True tail] 1(4) True miss(1) by simp
  next
    case False
    then have n: "\<not> n \<le> 1" "length (gap_ranges (n - 1) (q # rest)) < n - 1" using 1(4) by (auto split: if_splits)
    have "{p + 1..q - 1} = {p<..<q}" by auto
    moreover have "int (card (missing_of (p # q # rest))) = (q - p - 1) + int (card (missing_of (q # rest)))"
      unfolding miss(1) using less miss(2,3) by (subst card_Un_disjoint) auto
    ultimately show ?thesis using 1(2) [OF False n(1) tail n(2)] False n(1) miss(1) by simp
  qed
qed (auto simp: missing_of_def)

lemma covered_positions_facts:
  "sorted_wrt (<) (covered_positions chat rows)"
  "set (covered_positions chat rows) = {p. \<exists>k t. ((chat, p, k), t) \<in> set rows}"
  by (auto simp: covered_positions_def strict_sorted_iff image_iff split_beta) blast+

text \<open>
  The gap report is exact: as long as it is not cut off at its limit, its ranges hold exactly
  the positions of the chat that were neither observed nor recovered nor filtered and lie between two
  that were, and the counts it gives add up to their number.
\<close>

theorem position_gaps_exact:
  fixes chat s
  defines "seen \<equiv> {p. \<exists>k t. ((py_strip chat, p, k), t) \<in> set (sp_coverage s)}"
  assumes "py_strip chat \<noteq> []" and "length (position_gap_ranges chat limit s) < nat (max 1 (min 128 limit))"
  shows "(\<Union>g \<in> set (position_gap_ranges chat limit s). {ga_start g..ga_stop g})
      = {p. p \<notin> seen \<and> (\<exists>a \<in> seen. a < p) \<and> (\<exists>b \<in> seen. p < b)}
    \<and> sum_list (map ga_missing (position_gap_ranges chat limit s))
      = int (card {p. p \<notin> seen \<and> (\<exists>a \<in> seen. a < p) \<and> (\<exists>b \<in> seen. p < b)})"
proof -
  let ?xs = "covered_positions (py_strip chat) (sp_coverage s)"
  have "missing_of ?xs = {p. p \<notin> seen \<and> (\<exists>a \<in> seen. a < p) \<and> (\<exists>b \<in> seen. p < b)}"
    unfolding missing_of_def covered_positions_facts(2) seen_def ..
  moreover have "position_gap_ranges chat limit s = gap_ranges (nat (max 1 (min 128 limit))) ?xs"
    using assms(2) by (simp add: position_gap_ranges_def)
  ultimately show ?thesis
    using gap_ranges_missing [OF covered_positions_facts(1)] assms(3) by metis
qed

text \<open>
  A late failure reopens a delivery. A worker whose lease ran out while another delivered the event
  may still report its own failure, and the event is then claimed and sent again: the report asks
  neither for the status nor for the lease.
\<close>

theorem late_failure_resends:
  assumes "event_of event_id s = Some r" and "er_status r = Delivered"
  shows "fst (claim event_id seconds later s) = Inr AlreadyDelivered
    \<and> fst (claim event_id seconds later (mark_failed event_id error_text retry_after now s)) = Inr Claimed"
proof -
  have found: "event_of event_id (update_event event_id f s) = Some (f r)" if "\<And>x. er_id (f x) = er_id x" for f
  proof -
    have "List.find (\<lambda>x. er_id x = event_id) rows = Some r
        \<Longrightarrow> List.find (\<lambda>x. er_id x = event_id) (map (\<lambda>x. if er_id x = event_id then f x else x) rows) = Some (f r)" for rows
      by (induction rows) (auto simp: that split: if_splits)
    then show ?thesis using assms(1) by (simp add: event_of_def py_next_def)
  qed
  have same: "event_of event_id (update_chat chat g s') = event_of event_id s'" for chat g s'
    by (simp add: event_of_def update_chat_def)
  have "event_of event_id (mark_failed event_id error_text retry_after now s) = Some (fail_event now error_text retry_after r)"
    using assms found [of "fail_event now error_text retry_after"]
    by (simp add: mark_failed_def Let_def same) (simp add: fail_event_def)
  then show ?thesis using assms by (simp add: claim_def lease_held_def fail_event_def)
qed




lemma position_gaps_exact_witness:
  "(\<Union>g \<in> set (position_gap_ranges ''c'' 32 waiting_spool). {ga_start g..ga_stop g}) = {2, 3}"
proof -
  have ranges: "map (\<lambda>g. (ga_start g, ga_stop g)) (position_gap_ranges ''c'' 32 waiting_spool) = [(2, 3)]"
    "py_strip ''c'' = ''c''" by code_simp+
  have covered: "{p. \<exists>k t. ((''c'', p, k), t) \<in> set (sp_coverage waiting_spool)} = {1, 4}"
  proof -
    have "sp_coverage waiting_spool = [((''c'', 1, Observed), 1), ((''c'', 4, Observed), 2)]" by code_simp
    then show ?thesis by auto
  qed
  have "length (position_gap_ranges ''c'' 32 waiting_spool) = length [(2 :: int, 3 :: int)]" using ranges(1) by (metis length_map)
  then have "length (position_gap_ranges ''c'' 32 waiting_spool) < nat (max 1 (min 128 32))" by simp
  from position_gaps_exact [OF _ this] have "(\<Union>g \<in> set (position_gap_ranges ''c'' 32 waiting_spool). {ga_start g..ga_stop g})
      = {p. p \<notin> {1, 4} \<and> (\<exists>a \<in> {1, 4}. a < p) \<and> (\<exists>b \<in> {1, 4}. p < b)}"
    unfolding ranges(2) covered by simp
  also have "\<dots> = {2, 3}" by auto
  finally show ?thesis .
qed

lemma late_failure_resends_witness:
  "fst (claim ''c:m2'' 300 500 (mark_failed ''c:m2'' ''timeout'' 30 400 waiting_spool)) = Inr Claimed"
proof -
  have "map_option er_status (event_of ''c:m2'' waiting_spool) = Some Delivered" by code_simp
  then obtain r where "event_of ''c:m2'' waiting_spool = Some r" "er_status r = Delivered" by auto
  from late_failure_resends [OF this] show ?thesis by blast
qed

end
