(* ===== verification/SignalRules.thy ===== *)
theory SignalRules
  imports Episodes IntradayClock
begin

text \<open>
  The live rules of the watchlist: \<open>quant-service/app/intraday_signal_rules.py\<close> with the thresholds of
  \<open>strategy_thresholds.py\<close>, the breakout assessments of \<open>intraday_breakout.py\<close> they call, and the
  wrapper of \<open>main.py\<close> the scan uses. A rule reads JSON cells; the evidence it copies into the
  conditions of a signal is reduced to what other components read back.
\<close>

section \<open>Readers and thresholds\<close>

definition MAX_ENTRY_INTRADAY_GAIN_PCT :: rat where "MAX_ENTRY_INTRADAY_GAIN_PCT = 13 / 2"
definition STANDARD_ENTRY_MIN_INTRADAY_GAIN_PCT :: rat where "STANDARD_ENTRY_MIN_INTRADAY_GAIN_PCT = 1"
definition STANDARD_MINUTE_VOLUME_MULTIPLE_FLOOR :: rat where "STANDARD_MINUTE_VOLUME_MULTIPLE_FLOOR = 3"

lemmas threshold_defs = MAX_ENTRY_INTRADAY_GAIN_PCT_def STANDARD_ENTRY_MIN_INTRADAY_GAIN_PCT_def
  STANDARD_MINUTE_VOLUME_MULTIPLE_FLOOR_def

text \<open>\<open>float(str(value).replace(",", "").replace("%", "").strip())\<close>, \<^const>\<open>None\<close> when it raises.\<close>

definition intraday_number :: "cell \<Rightarrow> rat option" where
  "intraday_number c =
     (case c of CText s \<Rightarrow> number_of (CText (filter (\<lambda>x. x \<noteq> CHR '','' \<and> x \<noteq> CHR ''%'') s)) | _ \<Rightarrow> number_of c)"

text \<open>\<open>float(value or 0)\<close>.\<close>

definition float_or_0 :: "cell \<Rightarrow> rat res" where
  "float_or_0 c = (if cell_true c then cell_float c else Inr 0)"

text \<open>\<open>x is not None and low <= x\<close>, \<open>x is not None and x <= high\<close>, and both.\<close>

definition opt_ge :: "rat \<Rightarrow> rat option \<Rightarrow> bool" where
  "opt_ge low x = (case x of None \<Rightarrow> False | Some v \<Rightarrow> low \<le> v)"

definition opt_le :: "rat \<Rightarrow> rat option \<Rightarrow> bool" where
  "opt_le high x = (case x of None \<Rightarrow> False | Some v \<Rightarrow> v \<le> high)"

definition opt_in :: "rat \<Rightarrow> rat \<Rightarrow> rat option \<Rightarrow> bool" where
  "opt_in low high x = (opt_ge low x \<and> opt_le high x)"

definition value_or_0 :: "rat option \<Rightarrow> rat" where
  "value_or_0 x = (case x of None \<Rightarrow> 0 | Some v \<Rightarrow> v)"

text \<open>\<open>(x / y - 1) * 100\<close> for a positive \<open>y\<close>.\<close>

definition change_pct :: "rat \<Rightarrow> rat \<Rightarrow> rat" where
  "change_pct x y = fmul (fsub (flt (x / y)) 1) 100"

section \<open>Inputs\<close>

record rule_watch =
  rw_symbol :: string
  rw_entry_price :: cell
  rw_on_entry :: bool
  rw_on_exit :: bool
  rw_hard_stop :: cell
  rw_available :: int
  rw_surge :: bool
  rw_reversal :: bool
  rw_upside :: bool
  rw_ratio_p95 :: cell
  rw_turnover_p90 :: cell

record rule_quote =
  rq_price :: cell
  rq_pct_change :: cell
  rq_volume_ratio :: cell
  rq_turnover_rate :: cell
  rq_main_net_inflow :: cell
  rq_flow_percentile :: cell
  rq_flow_scope :: "string option"
  rq_flow_sources :: "(string \<times> string) list"
  rq_price_source :: "string option"
  rq_freshness :: "string option"
  rq_observed :: "instant option"

record previous_quote =
  pv_price :: cell
  pv_pct_change :: cell

record minute_features =
  mf_return_1m :: cell
  mf_return_3m :: cell
  mf_volume_multiple :: cell
  mf_above_vwap :: cell
  mf_breakout :: cell
  mf_range_position :: cell
  mf_recovery :: cell
  mf_session_low :: cell
  mf_time :: string
  mf_profile_ready :: bool
  mf_volume_surprise :: cell

record peer_context =
  pc_confirming :: int
  pc_available :: int
  pc_breadth :: rat

record daily_factors =
  df_ma_trend :: "string option"
  df_base_ready :: bool

text \<open>\<open>(x or {})\<close>.\<close>

definition no_previous :: previous_quote where
  "no_previous = \<lparr>pv_price = CNull, pv_pct_change = CNull\<rparr>"

definition no_minutes :: minute_features where
  "no_minutes = \<lparr>mf_return_1m = CNull, mf_return_3m = CNull, mf_volume_multiple = CNull, mf_above_vwap = CNull,
     mf_breakout = CNull, mf_range_position = CNull, mf_recovery = CNull, mf_session_low = CNull, mf_time = [],
     mf_profile_ready = False, mf_volume_surprise = CNull\<rparr>"

definition no_peers :: peer_context where
  "no_peers = \<lparr>pc_confirming = 0, pc_available = 0, pc_breadth = 0\<rparr>"

definition no_factors :: daily_factors where
  "no_factors = \<lparr>df_ma_trend = None, df_base_ready = False\<rparr>"

definition or_empty :: "'a \<Rightarrow> 'a option \<Rightarrow> 'a" where
  "or_empty e x = (case x of None \<Rightarrow> e | Some v \<Rightarrow> v)"

section \<open>The breakout assessment\<close>

datatype eac_status = EacInsufficient | EacNotEligible | EacNotConfirmed | EacAttention | EacCandidate

record upside_components =
  uc_entry_window :: bool
  uc_short_acceleration :: bool
  uc_relative_volume :: bool
  uc_volume_not_extreme :: bool
  uc_baseline_ready :: bool
  uc_volume_surprise :: bool
  uc_above_vwap :: bool
  uc_new_high :: bool
  uc_upper_range :: bool
  uc_flow_or_peers :: bool
  uc_daily_trend :: bool
  uc_fresh_window :: bool

record assessment =
  as_status :: eac_status
  as_score :: int
  as_flags :: "string list"

definition upside_components_of ::
    "rule_quote \<Rightarrow> daily_factors \<Rightarrow> minute_features \<Rightarrow> peer_context \<Rightarrow> upside_components" where
  "upside_components_of q d m p =
     (let surprise = intraday_number (mf_volume_surprise m); multiple = intraday_number (mf_volume_multiple m) in
      \<lparr>uc_entry_window = opt_in STANDARD_ENTRY_MIN_INTRADAY_GAIN_PCT MAX_ENTRY_INTRADAY_GAIN_PCT (intraday_number (rq_pct_change q)),
       uc_short_acceleration = (opt_in (flt (12 / 10)) (7 / 2) (intraday_number (mf_return_3m m))
           \<and> opt_ge (1 / 4) (intraday_number (mf_return_1m m))),
       uc_relative_volume = opt_ge (5 / 2) multiple,
       uc_volume_not_extreme = opt_le 20 multiple,
       uc_baseline_ready = mf_profile_ready m,
       uc_volume_surprise = opt_ge 2 surprise,
       uc_above_vwap = opt_in (flt (2 / 10)) (11 / 2) (intraday_number (mf_above_vwap m)),
       uc_new_high = opt_ge 0 (intraday_number (mf_breakout m)),
       uc_upper_range = opt_ge (flt (85 / 100)) (intraday_number (mf_range_position m)),
       uc_flow_or_peers = (opt_ge (flt (8 / 10)) (intraday_number (rq_flow_percentile q))
           \<or> (2 \<le> pc_available p \<and> 2 \<le> pc_confirming p \<and> 1 / 2 \<le> pc_breadth p)),
       uc_daily_trend = (df_ma_trend d = Some ''bullish'' \<or> df_base_ready d),
       uc_fresh_window = (eac_window (mf_time m) \<in> {''morning'', ''afternoon''})\<rparr>)"

definition volume_confirmed :: "upside_components \<Rightarrow> bool" where
  "volume_confirmed c = (uc_baseline_ready c \<and> uc_volume_surprise c)"

definition weight :: "int \<Rightarrow> bool \<Rightarrow> int" where
  "weight n b = (if b then n else 0)"

definition upside_weights :: "upside_components \<Rightarrow> int" where
  "upside_weights c =
     weight 8 (uc_entry_window c) + weight 20 (uc_short_acceleration c) + weight 8 (uc_relative_volume c)
     + weight 10 (uc_volume_surprise c) + weight 14 (uc_above_vwap c) + weight 14 (uc_new_high c)
     + weight 8 (uc_upper_range c) + weight 14 (uc_flow_or_peers c) + weight 4 (uc_daily_trend c)
     + weight 4 (uc_fresh_window c)"

definition volume_outlier :: "upside_components \<Rightarrow> bool" where
  "volume_outlier c = (uc_relative_volume c \<and> \<not> uc_volume_not_extreme c)"

definition upside_score :: "upside_components \<Rightarrow> int" where
  "upside_score c = (if volume_outlier c then max 0 (upside_weights c - 12) else upside_weights c)"

definition attention_core :: "upside_components \<Rightarrow> bool" where
  "attention_core c = (uc_entry_window c \<and> uc_short_acceleration c \<and> uc_relative_volume c \<and> uc_above_vwap c
     \<and> uc_new_high c \<and> uc_flow_or_peers c)"

definition upside_attention :: "upside_components \<Rightarrow> bool" where
  "upside_attention c = (attention_core c \<and> (volume_outlier c \<or> \<not> uc_fresh_window c \<or> \<not> uc_baseline_ready c))"

definition upside_candidate :: "upside_components \<Rightarrow> bool" where
  "upside_candidate c = (76 \<le> upside_score c \<and> attention_core c \<and> volume_confirmed c \<and> uc_fresh_window c \<and> \<not> volume_outlier c)"

definition upside_research_assessment ::
    "rule_quote option \<Rightarrow> daily_factors option \<Rightarrow> minute_features option \<Rightarrow> peer_context option \<Rightarrow> assessment" where
  "upside_research_assessment quote factors minutes peers =
     (case (quote, minutes) of
        (Some q, Some m) \<Rightarrow>
          let c = upside_components_of q (or_empty no_factors factors) m (or_empty no_peers peers) in
          \<lparr>as_status = (if upside_candidate c then EacCandidate else if upside_attention c then EacAttention else EacNotConfirmed),
           as_score = upside_score c,
           as_flags = (if volume_outlier c then [''relative_volume_outlier_requires_acceptance''] else [])
             @ (if \<not> uc_baseline_ready c then [''time_bucket_volume_baseline_insufficient''] else [])
             @ (if upside_attention c \<and> \<not> uc_fresh_window c then [''late_or_unknown_session_requires_stronger_confirmation''] else [])\<rparr>
      | _ \<Rightarrow> \<lparr>as_status = EacInsufficient, as_score = 0, as_flags = []\<rparr>)"

text \<open>The first breakout as the event stored it: its assessment and its price.\<close>

record first_breakout =
  fb_status :: eac_status
  fb_price :: cell
  fb_observed :: instant

record acceptance_components =
  ac_hold_time :: bool
  ac_entry_window :: bool
  ac_retains :: bool
  ac_no_reversal :: bool
  ac_above_vwap :: bool
  ac_upper_range :: bool
  ac_flow_or_peers :: bool

definition change_from :: "rat option \<Rightarrow> rat option \<Rightarrow> rat option" where
  "change_from current base =
     (case (current, base) of (Some x, Some y) \<Rightarrow> if 0 < y then Some (change_pct x y) else None | _ \<Rightarrow> None)"

definition acceptance_components_of ::
    "int \<Rightarrow> first_breakout \<Rightarrow> instant \<Rightarrow> rule_quote option \<Rightarrow> previous_quote option \<Rightarrow> minute_features option
      \<Rightarrow> peer_context option \<Rightarrow> acceptance_components" where
  "acceptance_components_of window first observed_at quote previous minutes peers =
     (let elapsed = max 0 (observed_at - fb_observed first);
          current = (case quote of None \<Rightarrow> None | Some q \<Rightarrow> intraday_number (rq_price q));
          m = or_empty no_minutes minutes; p = or_empty no_peers peers in
      \<lparr>ac_hold_time = (30 * us_second \<le> elapsed \<and> elapsed \<le> window),
       ac_entry_window = opt_in STANDARD_ENTRY_MIN_INTRADAY_GAIN_PCT MAX_ENTRY_INTRADAY_GAIN_PCT
         (case quote of None \<Rightarrow> None | Some q \<Rightarrow> intraday_number (rq_pct_change q)),
       ac_retains = opt_ge (flt (- 6 / 10)) (change_from current (intraday_number (fb_price first))),
       ac_no_reversal = opt_ge (- 1 / 4) (change_from current (intraday_number (pv_price (or_empty no_previous previous)))),
       ac_above_vwap = opt_ge 0 (intraday_number (mf_above_vwap m)),
       ac_upper_range = opt_ge (3 / 4) (intraday_number (mf_range_position m)),
       ac_flow_or_peers = (opt_ge (flt (8 / 10)) (case quote of None \<Rightarrow> None | Some q \<Rightarrow> intraday_number (rq_flow_percentile q))
          \<or> (2 \<le> pc_available p \<and> 2 \<le> pc_confirming p))\<rparr>)"

definition accepted :: "acceptance_components \<Rightarrow> bool" where
  "accepted c = (ac_hold_time c \<and> ac_entry_window c \<and> ac_retains c \<and> ac_no_reversal c \<and> ac_above_vwap c
     \<and> ac_upper_range c \<and> ac_flow_or_peers c)"

definition acceptance_score :: "acceptance_components \<Rightarrow> int" where
  "acceptance_score c = weight 15 (ac_hold_time c) + weight 10 (ac_entry_window c) + weight 20 (ac_retains c)
     + weight 15 (ac_no_reversal c) + weight 20 (ac_above_vwap c) + weight 10 (ac_upper_range c) + weight 10 (ac_flow_or_peers c)"

definition eac_acceptance_assessment ::
    "int \<Rightarrow> first_breakout \<Rightarrow> instant \<Rightarrow> rule_quote option \<Rightarrow> previous_quote option \<Rightarrow> minute_features option
      \<Rightarrow> peer_context option \<Rightarrow> assessment" where
  "eac_acceptance_assessment window first observed_at quote previous minutes peers =
     (if fb_status first \<notin> {EacCandidate, EacAttention}
      then \<lparr>as_status = EacNotEligible, as_score = 0, as_flags = []\<rparr>
      else let c = acceptance_components_of window first observed_at quote previous minutes peers;
               ready = (fb_status first = EacCandidate) in
        \<lparr>as_status = (if accepted c \<and> ready then EacCandidate else if accepted c then EacAttention else EacNotConfirmed),
         as_score = acceptance_score c,
         as_flags = (if ready then [] else [''time_bucket_volume_baseline_insufficient''])
           @ (if accepted c then [] else [''acceptance_not_confirmed''])\<rparr>)"

section \<open>What the rules read\<close>

definition RULE_USABLE_FLOW_LABELS :: "string list" where
  "RULE_USABLE_FLOW_LABELS = [''fuyao_ths_derived'']"

record entry_rule =
  er_min_pct :: rat
  er_max_pct :: rat
  er_needs_minutes :: bool
  er_windows :: "(int \<times> int) list option"

definition live_entry_rule :: entry_rule where
  "live_entry_rule = \<lparr>er_min_pct = STANDARD_ENTRY_MIN_INTRADAY_GAIN_PCT, er_max_pct = MAX_ENTRY_INTRADAY_GAIN_PCT,
     er_needs_minutes = False, er_windows = None\<rparr>"

record rule_facts =
  rf_holding :: bool
  rf_price :: rat
  rf_pct :: rat
  rf_missing :: "string list"
  rf_bounded :: bool
  rf_ratio :: rat
  rf_turnover :: rat
  rf_inflow :: rat
  rf_percentile :: "rat option"
  rf_previous :: "rat option"
  rf_previous_pct :: "rat option"
  rf_return_1m :: "rat option"
  rf_return_3m :: "rat option"
  rf_volume_multiple :: "rat option"
  rf_above_vwap :: "rat option"
  rf_recovery :: "rat option"
  rf_low_pct :: "rat option"
  rf_confirming :: int
  rf_available :: int
  rf_breadth :: rat

definition flow_fields :: "rule_quote \<Rightarrow> (string \<times> rat option) list" where
  "flow_fields q = [(''volume_ratio'', intraday_number (rq_volume_ratio q)), (''turnover_rate'', intraday_number (rq_turnover_rate q)),
     (''main_net_inflow'', intraday_number (rq_main_net_inflow q))]"

definition bounded_watch_flow_only :: "rule_quote \<Rightarrow> bool" where
  "bounded_watch_flow_only q = (str_or (rq_flow_scope q) [] = ''explicit_watchlist_only'')"

definition research_only :: "rule_quote \<Rightarrow> string \<Rightarrow> bool" where
  "research_only q name =
     (if rq_flow_sources q \<noteq> []
      then str_or (map_of (rq_flow_sources q) name) [] \<notin> set RULE_USABLE_FLOW_LABELS
      else bounded_watch_flow_only q)"

definition missing_public_fields :: "rule_quote \<Rightarrow> string list" where
  "missing_public_fields q = map fst (filter (\<lambda>(name, v). v = None \<or> research_only q name) (flow_fields q))"

text \<open>A flow value, 0 when it is missing.\<close>

definition usable_flow :: "rule_quote \<Rightarrow> string \<Rightarrow> cell \<Rightarrow> rat" where
  "usable_flow q name c = (if name \<in> set (missing_public_fields q) then 0 else value_or_0 (intraday_number c))"

definition implied_pre_close :: "rat \<Rightarrow> rat \<Rightarrow> rat option" where
  "implied_pre_close price pct =
     (let growth = flt (1 + flt (pct / 100)) in
      if 0 < growth then (let base = flt (price / growth) in if 0 < base then Some base else None) else None)"

definition facts_of ::
    "rule_watch \<Rightarrow> rule_quote \<Rightarrow> previous_quote option \<Rightarrow> minute_features option \<Rightarrow> peer_context option \<Rightarrow> rule_facts res" where
  "facts_of w q previous minutes peers =
     bindR (cell_float (rq_price q)) (\<lambda>price.
     bindR (float_or_0 (rq_pct_change q)) (\<lambda>pct.
       let m = or_empty no_minutes minutes; p = or_empty no_peers peers; v = or_empty no_previous previous;
           before = intraday_number (pv_price v); base = implied_pre_close price pct
       in Inr \<lparr>rf_holding = (rw_entry_price w \<noteq> CNull), rf_price = price, rf_pct = pct,
            rf_missing = missing_public_fields q, rf_bounded = bounded_watch_flow_only q,
            rf_ratio = usable_flow q ''volume_ratio'' (rq_volume_ratio q),
            rf_turnover = usable_flow q ''turnover_rate'' (rq_turnover_rate q),
            rf_inflow = usable_flow q ''main_net_inflow'' (rq_main_net_inflow q),
            rf_percentile = intraday_number (rq_flow_percentile q), rf_previous = before,
            rf_previous_pct = (case intraday_number (pv_pct_change v) of
                Some x \<Rightarrow> Some x | None \<Rightarrow> (case (before, base) of (Some x, Some b) \<Rightarrow> Some (change_pct x b) | _ \<Rightarrow> None)),
            rf_return_1m = intraday_number (mf_return_1m m), rf_return_3m = intraday_number (mf_return_3m m),
            rf_volume_multiple = intraday_number (mf_volume_multiple m), rf_above_vwap = intraday_number (mf_above_vwap m),
            rf_recovery = intraday_number (mf_recovery m),
            rf_low_pct = (case (intraday_number (mf_session_low m), base) of
                (Some x, Some b) \<Rightarrow> Some (change_pct x b) | _ \<Rightarrow> None),
            rf_confirming = pc_confirming p, rf_available = pc_available p, rf_breadth = pc_breadth p\<rparr>))"

section \<open>Signals\<close>

record rule_signal =
  rs_key :: string
  rs_type :: string
  rs_severity :: string
  rs_score :: rat
  rs_hard :: bool
  rs_first :: bool
  rs_independent :: bool
  rs_upgrade :: bool
  rs_conditions :: signal_conditions
  rs_assessment :: "assessment option"
  rs_flags :: "string list"

text \<open>The part of the conditions every signal shares.\<close>

definition common_conditions :: "rule_quote \<Rightarrow> rule_facts \<Rightarrow> string option \<Rightarrow> signal_conditions" where
  "common_conditions q f setup =
     (let seen = (\<lambda>c. case intraday_number c of None \<Rightarrow> CNull | Some x \<Rightarrow> CFloat x) in
      \<lparr>cn_setup = setup, cn_price = CFloat (rf_price f), cn_pct_change = CFloat (rf_pct f),
       cn_volume_ratio = seen (rq_volume_ratio q), cn_turnover_rate = seen (rq_turnover_rate q),
       cn_main_net_inflow = seen (rq_main_net_inflow q), cn_market_state = None\<rparr>)"

definition new_signal :: "string \<Rightarrow> string \<Rightarrow> string \<Rightarrow> string \<Rightarrow> rat \<Rightarrow> signal_conditions \<Rightarrow> assessment option \<Rightarrow> string list \<Rightarrow> rule_signal" where
  "new_signal symbol key_rest type severity score conditions upside flags =
     \<lparr>rs_key = symbol @ '':'' @ type @ '':'' @ key_rest, rs_type = type, rs_severity = severity, rs_score = score,
      rs_hard = False, rs_first = False, rs_independent = False, rs_upgrade = False,
      rs_conditions = conditions, rs_assessment = upside, rs_flags = flags\<rparr>"

definition missing_quote_signal :: "string \<Rightarrow> string \<Rightarrow> rule_signal" where
  "missing_quote_signal symbol model_version =
     new_signal symbol model_version ''data_issue'' ''warning'' 0 empty_conditions None [''missing_watch_quote'']"

section \<open>The setups\<close>

definition can_enter :: "rule_watch \<Rightarrow> rule_facts \<Rightarrow> bool" where
  "can_enter w f = (\<not> rf_holding f \<and> rw_on_entry w)"

definition two_peers :: "rule_facts \<Rightarrow> bool" where
  "two_peers f = (2 \<le> rf_available f \<and> 2 \<le> rf_confirming f \<and> flt (66 / 100) \<le> rf_breadth f)"

definition hard_stop_hit :: "rule_watch \<Rightarrow> rule_facts \<Rightarrow> bool" where
  "hard_stop_hit w f = (rf_holding f \<and> rw_on_exit w \<and> opt_ge (rf_price f) (intraday_number (rw_hard_stop w)))"

definition opening_gap_watch :: "bool \<Rightarrow> rule_watch \<Rightarrow> rule_quote \<Rightarrow> rule_facts \<Rightarrow> bool" where
  "opening_gap_watch window w q f =
     (window \<and> can_enter w f \<and> 3 \<le> rf_pct f \<and> rf_pct f \<le> MAX_ENTRY_INTRADAY_GAIN_PCT
      \<and> str_or (rq_price_source q) [] \<in> {''tencent_batched_watch_quote'', ''longhuvip_watch_quote''}
      \<and> str_or (rq_freshness q) [] = ''fresh'')"

text \<open>The minute expansion that \<open>sector_surge\<close> and \<open>minute_breadth_entry\<close> share.\<close>

definition minute_expansion :: "rule_facts \<Rightarrow> bool" where
  "minute_expansion f =
     (STANDARD_ENTRY_MIN_INTRADAY_GAIN_PCT \<le> rf_pct f \<and> rf_pct f \<le> MAX_ENTRY_INTRADAY_GAIN_PCT
      \<and> opt_ge (3 / 4) (rf_return_1m f) \<and> opt_in (3 / 2) (9 / 2) (rf_return_3m f)
      \<and> opt_ge STANDARD_MINUTE_VOLUME_MULTIPLE_FLOOR (rf_volume_multiple f)
      \<and> opt_in 0 (11 / 2) (rf_above_vwap f) \<and> two_peers f)"

definition sector_surge :: "rule_watch \<Rightarrow> rule_facts \<Rightarrow> bool" where
  "sector_surge w f = (rw_surge w \<and> can_enter w f \<and> minute_expansion f)"

definition deep_reversal_confirmation :: "rule_facts \<Rightarrow> bool" where
  "deep_reversal_confirmation f = (opt_ge (flt (9 / 10)) (rf_percentile f) \<or> two_peers f)"

definition deep_reversal_impulse :: "rule_watch \<Rightarrow> rule_facts \<Rightarrow> bool" where
  "deep_reversal_impulse w f =
     (rw_reversal w \<and> can_enter w f \<and> opt_le (- 17 / 2) (rf_low_pct f) \<and> - 8 \<le> rf_pct f \<and> rf_pct f \<le> 1 / 2
      \<and> opt_ge 3 (rf_recovery f) \<and> opt_ge (flt (12 / 10)) (rf_return_3m f) \<and> opt_ge (5 / 2) (rf_volume_multiple f)
      \<and> opt_ge 0 (rf_above_vwap f) \<and> deep_reversal_confirmation f)"

definition deep_reversal_reclaim :: "rule_watch \<Rightarrow> rule_facts \<Rightarrow> bool" where
  "deep_reversal_reclaim w f =
     (rw_reversal w \<and> can_enter w f \<and> opt_le (- 17 / 2) (rf_low_pct f) \<and> 0 \<le> rf_pct f \<and> rf_pct f \<le> MAX_ENTRY_INTRADAY_GAIN_PCT
      \<and> opt_ge 9 (rf_recovery f) \<and> opt_ge (1 / 2) (rf_return_3m f) \<and> opt_ge 0 (rf_above_vwap f) \<and> deep_reversal_confirmation f)"

text \<open>The last clause compares with the previous price, which may be missing.\<close>

definition deep_reversal_acceptance :: "rule_watch \<Rightarrow> rule_facts \<Rightarrow> bool res" where
  "deep_reversal_acceptance w f =
     (if \<not> deep_reversal_reclaim w f then Inr False
      else if rf_previous_pct f = None \<or> opt_le (1 / 2) (rf_previous_pct f) then Inr True
      else (case rf_previous f of None \<Rightarrow> Inl TypeError | Some x \<Rightarrow> Inr (x \<le> rf_price f)))"

definition green_reclaim_research :: "rule_watch \<Rightarrow> rule_facts \<Rightarrow> bool" where
  "green_reclaim_research w f =
     (rw_reversal w \<and> can_enter w f \<and> 1 / 2 \<le> rf_pct f \<and> rf_pct f \<le> MAX_ENTRY_INTRADAY_GAIN_PCT
      \<and> opt_in (3 / 2) (9 / 2) (rf_return_3m f) \<and> opt_ge STANDARD_MINUTE_VOLUME_MULTIPLE_FLOOR (rf_volume_multiple f)
      \<and> opt_in 0 6 (rf_above_vwap f) \<and> opt_ge 3 (rf_recovery f)
      \<and> ((opt_le 0 (rf_previous_pct f) \<and> 0 < rf_pct f) \<or> opt_ge 4 (rf_recovery f))
      \<and> deep_reversal_confirmation f)"

definition upside_breakout_research :: "rule_watch \<Rightarrow> rule_facts \<Rightarrow> assessment \<Rightarrow> bool" where
  "upside_breakout_research w f a = (rw_upside w \<and> can_enter w f \<and> as_status a \<in> {EacCandidate, EacAttention})"

definition leader_burst :: "rule_watch \<Rightarrow> rule_facts \<Rightarrow> bool" where
  "leader_burst w f =
     (rw_surge w \<and> can_enter w f \<and> 1 / 2 \<le> rf_pct f \<and> rf_pct f \<le> 5 \<and> opt_ge (flt (8 / 10)) (rf_return_1m f)
      \<and> opt_in (- 1 / 2) 3 (rf_return_3m f) \<and> opt_ge 4 (rf_volume_multiple f) \<and> opt_in 0 (9 / 2) (rf_above_vwap f)
      \<and> rf_confirming f < 2)"

definition extreme_sell :: "rule_watch \<Rightarrow> rule_facts \<Rightarrow> bool" where
  "extreme_sell w f = (rf_holding f \<and> rw_on_exit w \<and> opt_le (flt (1 / 100)) (rf_percentile f) \<and> 3 / 2 \<le> rf_ratio f)"

definition extreme_buy :: "rule_facts \<Rightarrow> bool" where
  "extreme_buy f = (opt_ge (flt (99 / 100)) (rf_percentile f) \<and> 3 / 2 \<le> rf_ratio f)"

definition price_extension :: "rule_facts \<Rightarrow> bool" where
  "price_extension f = (6 \<le> rf_pct f \<and> 12 \<le> rf_turnover f \<and> opt_ge (flt (95 / 100)) (rf_percentile f))"

definition above_previous :: "rule_facts \<Rightarrow> bool" where
  "above_previous f = (case rf_previous f of None \<Rightarrow> False | Some x \<Rightarrow> x < rf_price f)"

definition minute_breadth_entry :: "rule_watch \<Rightarrow> rule_facts \<Rightarrow> bool" where
  "minute_breadth_entry w f = (rf_missing f \<noteq> [] \<and> can_enter w f \<and> above_previous f \<and> minute_expansion f)"

definition entry_session_ok :: "entry_rule \<Rightarrow> rule_quote \<Rightarrow> bool" where
  "entry_session_ok er q =
     (case er_windows er of
        None \<Rightarrow> True
      | Some windows \<Rightarrow>
          (case rq_observed q of None \<Rightarrow> False
           | Some t \<Rightarrow> list_ex (\<lambda>(start, stop). start \<le> local_clock t \<and> local_clock t < stop) windows))"

definition entry_minute_confirmed :: "entry_rule \<Rightarrow> rule_facts \<Rightarrow> bool" where
  "entry_minute_confirmed er f =
     (\<not> er_needs_minutes er
      \<or> (opt_ge STANDARD_MINUTE_VOLUME_MULTIPLE_FLOOR (rf_volume_multiple f) \<and> opt_ge 0 (rf_above_vwap f)))"

definition entry_setup :: "entry_rule \<Rightarrow> rule_watch \<Rightarrow> rule_quote \<Rightarrow> rule_facts \<Rightarrow> bool" where
  "entry_setup er w q f =
     (rf_missing f = [] \<and> can_enter w f \<and> er_min_pct er \<le> rf_pct f \<and> rf_pct f \<le> er_max_pct er
      \<and> flt (18 / 10) \<le> rf_ratio f \<and> 2 \<le> rf_turnover f \<and> 0 < rf_inflow f \<and> above_previous f
      \<and> entry_session_ok er q \<and> entry_minute_confirmed er f)"

definition adverse :: "rule_watch \<Rightarrow> rule_facts \<Rightarrow> bool res" where
  "adverse w f =
     (if rf_holding f \<and> rw_on_exit w
      then bindR (cell_float (rw_entry_price w)) (\<lambda>entry.
        Inr (rf_price f \<le> fmul entry (flt (97 / 100)) \<and> 3 / 2 \<le> rf_ratio f \<and> rf_inflow f < 0))
      else Inr False)"

definition volume_anomaly :: "rule_watch \<Rightarrow> rule_facts \<Rightarrow> bool" where
  "volume_anomaly w f =
     (max (5 / 2) (value_or_0 (intraday_number (rw_ratio_p95 w))) \<le> rf_ratio f
      \<and> max 5 (value_or_0 (intraday_number (rw_turnover_p90 w))) \<le> rf_turnover f)"

section \<open>Their scores\<close>

definition score_of :: "rat \<Rightarrow> rat \<Rightarrow> rat" where
  "score_of most x = min most (round_digits 2 x)"

text \<open>\<open>x + y * k\<close> with \<open>y\<close> capped.\<close>

definition plus_scaled :: "rat \<Rightarrow> rat option \<Rightarrow> rat \<Rightarrow> rat \<Rightarrow> rat" where
  "plus_scaled x y most k = fadd x (fmul (min (value_or_0 y) most) k)"

definition gap_score :: "rule_facts \<Rightarrow> rat" where
  "gap_score f = score_of 80 (fadd 42 (fmul (rf_pct f) 6))"

definition surge_score :: "rule_facts \<Rightarrow> rat" where
  "surge_score f = score_of 95 (fadd (fadd (plus_scaled 65 (rf_volume_multiple f) 8 2) (fmul (rf_breadth f) 10))
     (if opt_ge (flt (8 / 10)) (rf_percentile f) then 5 else 0))"

definition reversal_score :: "rat \<Rightarrow> rule_facts \<Rightarrow> rat" where
  "reversal_score base f = score_of 88 (plus_scaled (plus_scaled base (rf_volume_multiple f) 8 3) (rf_recovery f) 12 (3 / 2))"

definition acceptance_signal_score :: "rule_facts \<Rightarrow> rat" where
  "acceptance_signal_score f = score_of 92 (fadd (fadd 62 (min (value_or_0 (rf_recovery f)) 20)) (fmul (max 0 (value_or_0 (rf_return_3m f))) 2))"

definition burst_score :: "rule_facts \<Rightarrow> rat" where
  "burst_score f = score_of 85 (fadd (plus_scaled 55 (rf_volume_multiple f) 8 2) (fmul (max 0 (value_or_0 (rf_return_1m f))) 4))"

definition extension_score :: "rule_facts \<Rightarrow> rat" where
  "extension_score f = score_of 90 (fadd (fadd 45 (fmul (rf_pct f) 4)) (rf_turnover f))"

definition breadth_score :: "rule_facts \<Rightarrow> rat" where
  "breadth_score f = score_of 92 (fadd (plus_scaled 52 (rf_volume_multiple f) 8 3) (fmul (rf_breadth f) 12))"

definition flow_score :: "rat \<Rightarrow> rat \<Rightarrow> rule_facts \<Rightarrow> rat" where
  "flow_score most base f = score_of most (fadd (fadd base (fmul (rf_ratio f) 10)) (fmul (rf_turnover f) 2))"

section \<open>The rules in their order\<close>

definition always :: "bool \<Rightarrow> rule_signal \<Rightarrow> rule_signal list \<Rightarrow> rule_signal list" where
  "always condition s signals = (if condition then signals @ [s] else signals)"

definition if_first :: "bool \<Rightarrow> rule_signal \<Rightarrow> rule_signal list \<Rightarrow> rule_signal list" where
  "if_first condition s signals = (if condition \<and> signals = [] then signals @ [s] else signals)"

definition hard_stop_signal :: "rule_watch \<Rightarrow> rule_quote \<Rightarrow> rule_facts \<Rightarrow> rule_signal" where
  "hard_stop_signal w q f =
     (new_signal (rw_symbol w) ''hard_stop'' ''exit'' ''critical'' 100 (common_conditions q f None) None
        ([''hard_stop_triggered'', ''manual_review_required'']
         @ (if 0 < rw_available w then [] else [''no_confirmed_sellable_quantity_risk_alert_only'']))) \<lparr>rs_hard := True\<rparr>"

text \<open>The signals before and after the assessment of the breakout enters the conditions.\<close>

definition early_signals :: "bool \<Rightarrow> rule_watch \<Rightarrow> rule_quote \<Rightarrow> rule_facts \<Rightarrow> rule_signal list" where
  "early_signals window w q f =
     if_first (opening_gap_watch window w q f)
       ((new_signal (rw_symbol w) ''opening_gap_continuation_v1'' ''watch'' ''warning'' (gap_score f)
          (common_conditions q f (Some ''opening_gap_requires_minute_follow_through'')) None
          [''opening_gap_unconfirmed'', ''watch_only_not_entry'', ''manual_review_required'', ''no_automatic_order''])
        \<lparr>rs_first := True\<rparr>)
     (always (hard_stop_hit w f) (hard_stop_signal w q f) [])"

definition reversal_signals ::
    "rule_watch \<Rightarrow> rule_quote \<Rightarrow> rule_facts \<Rightarrow> assessment \<Rightarrow> bool \<Rightarrow> rule_signal list \<Rightarrow> rule_signal list" where
  "reversal_signals w q f a reclaimed signals =
     if_first (green_reclaim_research w f)
       (new_signal (rw_symbol w) ''green_reclaim_research_v1'' ''watch'' ''info'' (reversal_score 48 f)
          (common_conditions q f (Some ''green_reclaim_price_volume_vwap'')) (Some a)
          [''experimental_research_mode'', ''requires_second_scan_confirmation'', ''manual_review_required'',
           ''no_automatic_order'', ''reject_above_6_5pct''])
     (always reclaimed
       ((new_signal (rw_symbol w) ''deep_reversal_previous_close_acceptance_v1'' ''watch'' ''warning'' (acceptance_signal_score f)
          (common_conditions q f (Some ''deep_reversal_previous_close_reclaim'')) (Some a)
          [''deep_reversal_extreme_volatility'', ''previous_close_reclaimed'', ''requires_hold_confirmation'',
           ''manual_review_required'', ''no_automatic_order'']) \<lparr>rs_independent := True, rs_upgrade := True\<rparr>)
     (if_first (deep_reversal_impulse w f)
       ((new_signal (rw_symbol w) ''deep_reversal_impulse_v1'' ''watch'' ''warning'' (reversal_score 52 f)
          (common_conditions q f (Some ''deep_reversal_impulse_from_limit_down_zone'')) (Some a)
          [''deep_reversal_extreme_volatility'', ''below_previous_close_impulse_only'', ''requires_previous_close_reclaim'',
           ''manual_review_required'', ''no_automatic_order'']) \<lparr>rs_first := True\<rparr>)
     (if_first (sector_surge w f)
       ((new_signal (rw_symbol w) ''sector_surge_v1'' ''entry'' ''warning'' (surge_score f)
          (common_conditions q f (Some ''minute_price_volume_plus_sector_breadth'')) (Some a)
          [''experimental_event_replay_rule'', ''independent_peer_confirmation'', ''reject_above_6_5pct'',
           ''manual_review_required'', ''no_automatic_order'']) \<lparr>rs_independent := True\<rparr>) signals)))"

definition flow_signals :: "rule_watch \<Rightarrow> rule_quote \<Rightarrow> rule_facts \<Rightarrow> assessment \<Rightarrow> rule_signal list \<Rightarrow> rule_signal list" where
  "flow_signals w q f a signals =
     if_first (price_extension f)
       (new_signal (rw_symbol w) ''price_extension'' ''watch'' ''warning'' (extension_score f) (common_conditions q f None) (Some a)
          [''abnormal_price_extension'', ''requires_second_scan_confirmation'', ''not_an_entry_instruction'', ''manual_review_required''])
     (if_first (extreme_buy f)
       (new_signal (rw_symbol w) ''extreme_flow_buy'' ''watch'' ''warning'' 80 (common_conditions q f None) (Some a)
          [''cross_sectional_extreme_buy'', ''requires_second_scan_confirmation'', ''manual_review_required''])
     (if_first (extreme_sell w f)
       (new_signal (rw_symbol w) ''extreme_flow_sell'' ''reduce'' ''warning'' 85 (common_conditions q f None) (Some a)
          [''cross_sectional_extreme_sell'', ''requires_second_scan_confirmation'', ''manual_review_required''])
     (if_first (leader_burst w f)
       (new_signal (rw_symbol w) ''leader_burst_v1'' ''watch'' ''info'' (burst_score f)
          (common_conditions q f (Some ''leader_minute_burst'')) (Some a)
          [''leader_not_yet_confirmed_by_sector'', ''requires_second_scan_confirmation'', ''manual_review_required'', ''no_automatic_order''])
     (if_first (upside_breakout_research w f a)
       ((new_signal (rw_symbol w) ''upside_breakout_eac_v3'' ''watch'' (if as_status a = EacAttention then ''warning'' else ''info'')
          (of_int (as_score a)) (common_conditions q f (Some ''eac_first_intraday_high'')) (Some a)
          ([''experimental_research_mode'', ''requires_second_scan_confirmation''] @ as_flags a
           @ [''manual_review_required'', ''no_automatic_order'', ''reject_above_6_5pct''])) \<lparr>rs_first := True\<rparr>) signals))))"

definition entry_signals ::
    "entry_rule \<Rightarrow> string \<Rightarrow> rule_watch \<Rightarrow> rule_quote \<Rightarrow> rule_facts \<Rightarrow> assessment \<Rightarrow> rule_signal list \<Rightarrow> rule_signal list" where
  "entry_signals er model_version w q f a signals =
     always (entry_setup er w q f)
       (new_signal (rw_symbol w) model_version ''entry'' ''info'' (flow_score 95 40 f) (common_conditions q f None) (Some a)
          [''requires_second_scan_confirmation'', ''manual_review_required''])
     (if_first (minute_breadth_entry w f)
       ((new_signal (rw_symbol w) ''minute_breadth_v1'' ''entry'' ''info'' (breadth_score f)
          (common_conditions q f (Some ''minute_price_volume_plus_exact_peer_breadth'')) (Some a)
          ([''no_public_main_flow'', ''minute_volume_proxy'', ''independent_peer_confirmation'', ''requires_second_scan_confirmation'']
           @ (if rf_bounded f then [''bounded_watch_flow_research_confirmation_only''] else [])
           @ [''manual_review_required'', ''no_automatic_order''])) \<lparr>rs_independent := True\<rparr>) signals)"

definition last_signals ::
    "string \<Rightarrow> rule_watch \<Rightarrow> rule_quote \<Rightarrow> rule_facts \<Rightarrow> assessment \<Rightarrow> bool \<Rightarrow> rule_signal list \<Rightarrow> rule_signal list" where
  "last_signals model_version w q f a against signals =
     if_first (volume_anomaly w f)
       (new_signal (rw_symbol w) ''volume_anomaly'' ''watch'' ''warning'' (flow_score 90 30 f) (common_conditions q f None) (Some a)
          [''abnormal_volume'', ''requires_second_scan_confirmation'', ''manual_review_required''])
     (if_first against
       (new_signal (rw_symbol w) model_version ''reduce'' ''warning'' 70 (common_conditions q f None) (Some a)
          [''loss_with_negative_main_flow'', ''requires_second_scan_confirmation'', ''manual_review_required'']) signals)"

definition signal_rules ::
    "entry_rule \<Rightarrow> string \<Rightarrow> bool \<Rightarrow> rule_watch \<Rightarrow> rule_quote option \<Rightarrow> previous_quote option \<Rightarrow> daily_factors option
      \<Rightarrow> minute_features option \<Rightarrow> peer_context option \<Rightarrow> rule_signal list res" where
  "signal_rules er model_version window w quote previous factors minutes peers =
     (case quote of
        None \<Rightarrow> Inr [missing_quote_signal (rw_symbol w) model_version]
      | Some q \<Rightarrow>
          if rq_price q = CNull then Inr [missing_quote_signal (rw_symbol w) model_version]
          else bindR (facts_of w q previous minutes peers) (\<lambda>f.
            let a = upside_research_assessment quote factors minutes peers in
            bindR (deep_reversal_acceptance w f) (\<lambda>reclaimed.
            bindR (adverse w f) (\<lambda>against.
              Inr (last_signals model_version w q f a against
                (entry_signals er model_version w q f a
                  (flow_signals w q f a (reversal_signals w q f a reclaimed (early_signals window w q f)))))))))"

text \<open>The wrapper of \<open>main.py\<close>: the live thresholds, and the window of the opening gap from the scan's
  clock.\<close>

definition INTRADAY_SIGNAL_MODEL_VERSION :: string where
  "INTRADAY_SIGNAL_MODEL_VERSION = ''watchlist-confirmation-v8''"

definition opening_gap_window :: "rule_quote option \<Rightarrow> bool" where
  "opening_gap_window quote =
     (case quote of None \<Rightarrow> False
      | Some q \<Rightarrow> (case rq_observed q of None \<Rightarrow> False
          | Some t \<Rightarrow> clock_time 9 30 \<le> local_clock t \<and> local_clock t < clock_time 9 40))"

definition intraday_signal_rules ::
    "rule_watch \<Rightarrow> rule_quote option \<Rightarrow> previous_quote option \<Rightarrow> daily_factors option \<Rightarrow> minute_features option
      \<Rightarrow> peer_context option \<Rightarrow> rule_signal list res" where
  "intraday_signal_rules w quote previous factors minutes peers =
     signal_rules live_entry_rule INTRADAY_SIGNAL_MODEL_VERSION (opening_gap_window quote) w quote previous factors minutes peers"

section \<open>What every answer is made of\<close>

lemmas list_steps = always_def if_first_def

lemmas stage_defs = early_signals_def reversal_signals_def flow_signals_def entry_signals_def last_signals_def

lemma all_if_first: "list_all P signals \<Longrightarrow> (condition \<Longrightarrow> P s) \<Longrightarrow> list_all P (if_first condition s signals)"
  by (simp add: if_first_def)

lemma all_always: "list_all P signals \<Longrightarrow> (condition \<Longrightarrow> P s) \<Longrightarrow> list_all P (always condition s signals)"
  by (simp add: always_def)

lemma distinct_if_first: "distinct (map rs_key signals) \<Longrightarrow> distinct (map rs_key (if_first condition s signals))"
  by (simp add: if_first_def)

lemma distinct_always:
  "distinct (map rs_key signals) \<Longrightarrow> list_all (\<lambda>x. rs_key x \<noteq> rs_key s) signals
    \<Longrightarrow> distinct (map rs_key (always condition s signals))"
  by (auto simp: always_def list_all_iff)

lemma length_if_first: "length (if_first condition s signals) \<le> max 1 (length signals)"
  by (simp add: if_first_def)

lemma length_always: "length (always condition s signals) \<le> Suc (length signals)"
  by (simp add: always_def)

lemma length_if_first_le: "length signals \<le> n \<Longrightarrow> 1 \<le> n \<Longrightarrow> length (if_first condition s signals) \<le> n"
  using length_if_first [of condition s signals] by simp

lemma length_always_le: "length signals \<le> n \<Longrightarrow> length (always condition s signals) \<le> Suc n"
  using length_always [of condition s signals] by simp

lemma if_first_nonempty [simp]: "signals \<noteq> [] \<Longrightarrow> if_first condition s signals = signals"
  by (simp add: if_first_def)

lemma new_signal_simps [simp]:
  "rs_key (new_signal symbol rest type severity score conditions upside flags) = symbol @ '':'' @ type @ '':'' @ rest"
  "rs_type (new_signal symbol rest type severity score conditions upside flags) = type"
  "rs_severity (new_signal symbol rest type severity score conditions upside flags) = severity"
  "rs_score (new_signal symbol rest type severity score conditions upside flags) = score"
  "rs_hard (new_signal symbol rest type severity score conditions upside flags) = False"
  by (simp_all add: new_signal_def)

lemma hard_stop_signal_simps [simp]:
  "rs_key (hard_stop_signal w q f) = rw_symbol w @ '':exit:hard_stop''" "rs_type (hard_stop_signal w q f) = ''exit''"
  "rs_severity (hard_stop_signal w q f) = ''critical''" "rs_score (hard_stop_signal w q f) = 100" "rs_hard (hard_stop_signal w q f)"
  by (simp_all add: hard_stop_signal_def)

text \<open>A signal that was answered came from facts the rules could read.\<close>

lemma signal_rules_facts:
  assumes "signal_rules er v window w (Some q) previous factors minutes peers = Inr signals" "rq_price q \<noteq> CNull"
  obtains f reclaimed against where "facts_of w q previous minutes peers = Inr f"
    and "deep_reversal_acceptance w f = Inr reclaimed" and "adverse w f = Inr against"
    and "signals = last_signals v w q f (upside_research_assessment (Some q) factors minutes peers) against
      (entry_signals er v w q f (upside_research_assessment (Some q) factors minutes peers)
        (flow_signals w q f (upside_research_assessment (Some q) factors minutes peers)
          (reversal_signals w q f (upside_research_assessment (Some q) factors minutes peers) reclaimed
            (early_signals window w q f))))"
  using assms by (auto simp: signal_rules_def Let_def)

lemma facts_holding:
  "facts_of w q previous minutes peers = Inr f
    \<Longrightarrow> rf_holding f = (rw_entry_price w \<noteq> CNull) \<and> cell_float (rq_price q) = Inr (rf_price f)
      \<and> float_or_0 (rq_pct_change q) = Inr (rf_pct f)"
  by (auto simp: facts_of_def Let_def)

lemma reclaimed_can_enter: "deep_reversal_acceptance w f = Inr True \<Longrightarrow> can_enter w f"
  by (auto simp: deep_reversal_acceptance_def deep_reversal_reclaim_def split: if_splits)

section \<open>Properties\<close>

text \<open>
  C19. No rule asks to enter a name that is held, that is not watched for an entry, or that has
  already run: an entry signal is never hard, its name gained between 1 and 6.5 percent, and it has
  either two confirming peers on expanding minutes, or usable public flow values with a positive net
  inflow at a price above the previous scan's.
\<close>

theorem entry_signals_guarded:
  assumes answer: "intraday_signal_rules w (Some q) previous factors minutes peers = Inr signals"
    and s: "s \<in> set signals" "rs_type s = ''entry''"
  shows "\<not> rs_hard s \<and> rw_entry_price w = CNull \<and> rw_on_entry w
    \<and> (\<exists>f. facts_of w q previous minutes peers = Inr f \<and> 1 \<le> rf_pct f \<and> rf_pct f \<le> 13 / 2
        \<and> (two_peers f \<and> opt_ge 3 (rf_volume_multiple f)
           \<or> rf_missing f = [] \<and> 0 < rf_inflow f \<and> flt (18 / 10) \<le> rf_ratio f \<and> 2 \<le> rf_turnover f \<and> above_previous f))"
proof -
  have price: "rq_price q \<noteq> CNull"
    using answer s by (auto simp: intraday_signal_rules_def signal_rules_def missing_quote_signal_def)
  obtain f reclaimed against where f: "facts_of w q previous minutes peers = Inr f"
    and signals: "signals = last_signals INTRADAY_SIGNAL_MODEL_VERSION w q f (upside_research_assessment (Some q) factors minutes peers) against
      (entry_signals live_entry_rule INTRADAY_SIGNAL_MODEL_VERSION w q f (upside_research_assessment (Some q) factors minutes peers)
        (flow_signals w q f (upside_research_assessment (Some q) factors minutes peers)
          (reversal_signals w q f (upside_research_assessment (Some q) factors minutes peers) reclaimed
            (early_signals (opening_gap_window (Some q)) w q f))))"
    by (rule signal_rules_facts [OF answer [unfolded intraday_signal_rules_def] price])
  have "list_all (\<lambda>s. rs_type s = ''entry'' \<longrightarrow> \<not> rs_hard s \<and> can_enter w f \<and> 1 \<le> rf_pct f \<and> rf_pct f \<le> 13 / 2
        \<and> (two_peers f \<and> opt_ge 3 (rf_volume_multiple f)
           \<or> rf_missing f = [] \<and> 0 < rf_inflow f \<and> flt (18 / 10) \<le> rf_ratio f \<and> 2 \<le> rf_turnover f \<and> above_previous f)) signals"
    unfolding signals stage_defs
    by (intro all_if_first all_always)
      (simp_all add: sector_surge_def minute_breadth_entry_def minute_expansion_def entry_setup_def live_entry_rule_def threshold_defs)
  then show ?thesis using s f facts_holding [OF f] by (auto simp: list_all_iff can_enter_def)
qed

text \<open>
  C6. The hard stop dominates. A held name whose exits are watched and whose price is at its stop
  or below gets exactly one signal, the critical exit with score 100, whatever else its quote would
  ask for; and no other case gives a hard signal.
\<close>

theorem hard_stop_dominates:
  assumes answer: "intraday_signal_rules w (Some q) previous factors minutes peers = Inr signals"
    and price: "cell_float (rq_price q) = Inr p"
  shows "((\<exists>s. s \<in> set signals \<and> rs_hard s) \<longleftrightarrow> rw_entry_price w \<noteq> CNull \<and> rw_on_exit w \<and> opt_ge p (intraday_number (rw_hard_stop w)))
    \<and> ((\<exists>s. s \<in> set signals \<and> rs_hard s)
      \<longleftrightarrow> (\<exists>s. signals = [s] \<and> rs_hard s \<and> rs_type s = ''exit'' \<and> rs_severity s = ''critical'' \<and> rs_score s = 100))"
proof -
  have seen: "rq_price q \<noteq> CNull" using price by (auto simp: cell_float_def)
  obtain f reclaimed against where f: "facts_of w q previous minutes peers = Inr f"
    and r: "deep_reversal_acceptance w f = Inr reclaimed"
    and signals: "signals = last_signals INTRADAY_SIGNAL_MODEL_VERSION w q f (upside_research_assessment (Some q) factors minutes peers) against
      (entry_signals live_entry_rule INTRADAY_SIGNAL_MODEL_VERSION w q f (upside_research_assessment (Some q) factors minutes peers)
        (flow_signals w q f (upside_research_assessment (Some q) factors minutes peers)
          (reversal_signals w q f (upside_research_assessment (Some q) factors minutes peers) reclaimed
            (early_signals (opening_gap_window (Some q)) w q f))))"
    by (rule signal_rules_facts [OF answer [unfolded intraday_signal_rules_def] seen])
  have facts: "rf_holding f = (rw_entry_price w \<noteq> CNull)" "rf_price f = p" using facts_holding [OF f] price by auto
  have hit: "signals = [hard_stop_signal w q f]" if "hard_stop_hit w f"
  proof -
    have "\<not> reclaimed" using that r reclaimed_can_enter [of w f] by (auto simp: hard_stop_hit_def can_enter_def)
    moreover have "\<not> entry_setup live_entry_rule w q f" using that by (simp add: hard_stop_hit_def entry_setup_def can_enter_def)
    ultimately show ?thesis using that by (simp add: signals stage_defs always_def)
  qed
  have "list_all (\<lambda>s. rs_hard s \<longrightarrow> hard_stop_hit w f) signals"
    unfolding signals stage_defs by (intro all_if_first all_always) simp_all
  then have hard: "\<exists>s. s \<in> set signals \<and> rs_hard s \<Longrightarrow> hard_stop_hit w f" by (auto simp: list_all_iff)
  have iff: "hard_stop_hit w f \<longleftrightarrow> rw_entry_price w \<noteq> CNull \<and> rw_on_exit w \<and> opt_ge p (intraday_number (rw_hard_stop w))"
    by (simp add: hard_stop_hit_def facts)
  have one: "(\<exists>s. s \<in> set signals \<and> rs_hard s) \<longleftrightarrow> hard_stop_hit w f"
    using hard hit by (metis hard_stop_signal_simps(5) list.set_intros(1))
  have only: "hard_stop_hit w f
      \<longleftrightarrow> (\<exists>s. signals = [s] \<and> rs_hard s \<and> rs_type s = ''exit'' \<and> rs_severity s = ''critical'' \<and> rs_score s = 100)"
    using hit one by (metis hard_stop_signal_simps(2-5) list.set_intros(1))
  show ?thesis using iff one only by simp
qed

text \<open>The frame the scan compares with carries a price and no change of its own, so the comparison of
  the reclaim always has its price.\<close>

lemma no_previous_price:
  "facts_of w q previous minutes peers = Inr f \<Longrightarrow> intraday_number (pv_pct_change (or_empty no_previous previous)) = None
    \<Longrightarrow> rf_previous f = None \<Longrightarrow> rf_previous_pct f = None"
  unfolding facts_of_def bindR_eq_Inr Let_def by (elim exE conjE) (simp add: case_prod_beta split: sum.splits, auto)

lemma reclaim_total:
  assumes "facts_of w q previous minutes peers = Inr f" "intraday_number (pv_pct_change (or_empty no_previous previous)) = None"
  shows "\<exists>b. deep_reversal_acceptance w f = Inr b"
  using no_previous_price [OF assms] by (cases "rf_previous f") (auto simp: deep_reversal_acceptance_def)

lemma adverse_total: "rw_entry_price w = CNull \<or> cell_float (rw_entry_price w) = Inr e \<Longrightarrow> rf_holding f = (rw_entry_price w \<noteq> CNull)
    \<Longrightarrow> \<exists>b. adverse w f = Inr b"
  by (auto simp: adverse_def)

text \<open>
  The rules answer for every name of the scan: with a readable price and change, a readable
  entry price where there is one, and a previous frame as the scan loads it, without a change of its
  own, no rule raises. A name without a price gets the one signal that says so.
\<close>

theorem signal_rules_total:
  assumes "rq_price q = CNull \<or> (\<exists>p pct. cell_float (rq_price q) = Inr p \<and> float_or_0 (rq_pct_change q) = Inr pct)"
    and "rw_entry_price w = CNull \<or> (\<exists>e. cell_float (rw_entry_price w) = Inr e)"
    and "intraday_number (pv_pct_change (or_empty no_previous previous)) = None"
  shows "\<exists>signals. intraday_signal_rules w (Some q) previous factors minutes peers = Inr signals
    \<and> (rq_price q = CNull \<longleftrightarrow> list_ex (\<lambda>s. rs_type s = ''data_issue'') signals)"
proof (cases "rq_price q = CNull")
  case True
  then show ?thesis by (simp add: intraday_signal_rules_def signal_rules_def missing_quote_signal_def)
next
  case False
  then obtain p pct where "cell_float (rq_price q) = Inr p" "float_or_0 (rq_pct_change q) = Inr pct" using assms(1) by auto
  then obtain f where f: "facts_of w q previous minutes peers = Inr f" by (simp add: facts_of_def Let_def)
  obtain b where b: "deep_reversal_acceptance w f = Inr b" using reclaim_total [OF f assms(3)] by blast
  obtain c where c: "adverse w f = Inr c" using adverse_total [of w _ f] assms(2) facts_holding [OF f] by auto
  define signals where "signals = last_signals INTRADAY_SIGNAL_MODEL_VERSION w q f (upside_research_assessment (Some q) factors minutes peers) c
      (entry_signals live_entry_rule INTRADAY_SIGNAL_MODEL_VERSION w q f (upside_research_assessment (Some q) factors minutes peers)
        (flow_signals w q f (upside_research_assessment (Some q) factors minutes peers)
          (reversal_signals w q f (upside_research_assessment (Some q) factors minutes peers) b
            (early_signals (opening_gap_window (Some q)) w q f))))"
  have "list_all (\<lambda>s. rs_type s \<noteq> ''data_issue'') signals"
    unfolding signals_def stage_defs by (intro all_if_first all_always) simp_all
  then show ?thesis using False
    by (auto simp: intraday_signal_rules_def signal_rules_def f b c Let_def signals_def list_ex_iff list_all_iff)
qed

section \<open>Scores and keys\<close>

lemma round_digits_ge:
  assumes "of_int k \<le> x" "\<bar>k\<bar> \<le> 10 ^ 15"
  shows "of_int k \<le> round_digits n x"
proof -
  have "of_int (k * 10 ^ n) \<le> x * 10 ^ n" using assms(1) by simp
  then have "half_even (of_int (k * 10 ^ n)) \<le> half_even (x * 10 ^ n)" by (rule half_even_mono)
  then have "k * 10 ^ n \<le> half_even (x * 10 ^ n)" by (simp only: half_even_of_int)
  then have "of_int (k * 10 ^ n) \<le> (of_int (half_even (x * 10 ^ n)) :: rat)" by (simp only: of_int_le_iff)
  then have "of_int k \<le> of_int (half_even (x * 10 ^ n)) / (10 :: rat) ^ n" by (simp add: le_divide_eq)
  then show ?thesis unfolding round_digits_def by (rule flt.rnd_ge) (rule flt.rnd_small_int [OF assms(2)])
qed

lemma score_of_ge: "of_int k \<le> x \<Longrightarrow> of_int k \<le> most \<Longrightarrow> \<bar>k\<bar> \<le> 10 ^ 15 \<Longrightarrow> of_int k \<le> score_of most x"
  using round_digits_ge by (simp add: score_of_def)

lemma score_of_le: "score_of most x \<le> most"
  by (simp add: score_of_def)

lemma fadd_ge: "of_int k \<le> x \<Longrightarrow> 0 \<le> y \<Longrightarrow> \<bar>k\<bar> \<le> 10 ^ 15 \<Longrightarrow> of_int k \<le> fadd x y"
  unfolding fadd_def by (rule flt.rnd_ge) (auto intro: flt.rnd_small_int)

lemma scaled_nonneg: "0 \<le> x \<Longrightarrow> 0 \<le> y \<Longrightarrow> 0 \<le> fmul x y"
  by (simp add: fmul_def flt.rnd_nonneg)

lemma plus_scaled_ge:
  "of_int k \<le> x \<Longrightarrow> 0 \<le> value_or_0 y \<Longrightarrow> 0 \<le> most \<Longrightarrow> 0 \<le> c \<Longrightarrow> \<bar>k\<bar> \<le> 10 ^ 15 \<Longrightarrow> of_int k \<le> plus_scaled x y most c"
  unfolding plus_scaled_def by (intro fadd_ge scaled_nonneg) auto

lemma opt_ge_value: "opt_ge low x \<Longrightarrow> low \<le> value_or_0 x"
  by (simp add: opt_ge_def value_or_0_def split: option.splits)

lemma two_peers_breadth: "two_peers f \<Longrightarrow> 0 \<le> rf_breadth f"
  using flt.rnd_nonneg [of "66 / 100"] by (auto simp: two_peers_def intro: order_trans)

text \<open>A score between 40 and its cap.\<close>

definition score_ok :: "rat \<Rightarrow> bool" where
  "score_ok x = (40 \<le> x \<and> x \<le> 104)"

lemma score_ok_const: "score_ok 100" "score_ok 85" "score_ok 80" "score_ok 70"
  by (simp_all add: score_ok_def)

lemma score_ok_of: "40 \<le> x \<Longrightarrow> 40 \<le> most \<Longrightarrow> most \<le> 104 \<Longrightarrow> score_ok (score_of most x)"
  using score_of_ge [of 40 x most] score_of_le [of most x] by (simp add: score_ok_def)

lemma gap_score_ok: "opening_gap_watch window w q f \<Longrightarrow> score_ok (gap_score f)"
  unfolding gap_score_def using fadd_ge [of 42 42 "fmul (rf_pct f) 6"]
  by (intro score_ok_of) (auto simp: opening_gap_watch_def scaled_nonneg)

lemma surge_score_ok: "minute_expansion f \<Longrightarrow> score_ok (surge_score f)"
proof -
  assume m: "minute_expansion f"
  have "3 \<le> value_or_0 (rf_volume_multiple f)" using m by (auto simp: minute_expansion_def threshold_defs dest: opt_ge_value)
  then have "65 \<le> plus_scaled 65 (rf_volume_multiple f) 8 2" using plus_scaled_ge [of 65 65] by simp
  then have "65 \<le> fadd (plus_scaled 65 (rf_volume_multiple f) 8 2) (fmul (rf_breadth f) 10)"
    using fadd_ge [of 65 _ "fmul (rf_breadth f) 10"] m two_peers_breadth [of f] scaled_nonneg [of "rf_breadth f" 10]
    by (simp add: minute_expansion_def)
  then have ge: "65 \<le> fadd (fadd (plus_scaled 65 (rf_volume_multiple f) 8 2) (fmul (rf_breadth f) 10)) y" if "0 \<le> y" for y
    using fadd_ge [of 65 _ y] that by simp
  show "score_ok (surge_score f)" unfolding surge_score_def by (rule score_ok_of [OF order_trans [OF _ ge]]) simp_all
qed

lemma breadth_score_ok: "minute_expansion f \<Longrightarrow> score_ok (breadth_score f)"
proof -
  assume m: "minute_expansion f"
  have "3 \<le> value_or_0 (rf_volume_multiple f)" using m by (auto simp: minute_expansion_def threshold_defs dest: opt_ge_value)
  then have "52 \<le> plus_scaled 52 (rf_volume_multiple f) 8 3" using plus_scaled_ge [of 52 52] by simp
  then have "52 \<le> fadd (plus_scaled 52 (rf_volume_multiple f) 8 3) (fmul (rf_breadth f) 12)"
    using fadd_ge [of 52 _ "fmul (rf_breadth f) 12"] m two_peers_breadth [of f] scaled_nonneg [of "rf_breadth f" 12]
    by (simp add: minute_expansion_def)
  then show "score_ok (breadth_score f)" unfolding breadth_score_def by (intro score_ok_of) simp_all
qed

lemma reversal_score_ok:
  assumes "opt_ge 2 (rf_volume_multiple f)" "opt_ge 2 (rf_recovery f)" "48 \<le> base"
  shows "score_ok (reversal_score base f)"
proof -
  note v = opt_ge_value [OF assms(1)] opt_ge_value [OF assms(2)]
  have "48 \<le> plus_scaled base (rf_volume_multiple f) 8 3" using plus_scaled_ge [of 48 base] v assms(3) by simp
  then have "48 \<le> plus_scaled (plus_scaled base (rf_volume_multiple f) 8 3) (rf_recovery f) 12 (3 / 2)"
    using plus_scaled_ge [of 48] v by simp
  then show ?thesis unfolding reversal_score_def by (intro score_ok_of) simp_all
qed

lemma opt_ge_trans: "opt_ge x v \<Longrightarrow> y \<le> x \<Longrightarrow> opt_ge y v"
  by (auto simp: opt_ge_def split: option.splits)

lemma acceptance_score_ok:
  assumes "opt_ge 9 (rf_recovery f)"
  shows "score_ok (acceptance_signal_score f)"
proof -
  have "62 \<le> fadd 62 (min (value_or_0 (rf_recovery f)) 20)"
    using fadd_ge [of 62 62] opt_ge_value [OF assms] by simp
  then have "62 \<le> fadd (fadd 62 (min (value_or_0 (rf_recovery f)) 20)) (fmul (max 0 (value_or_0 (rf_return_3m f))) 2)"
    using fadd_ge [of 62] scaled_nonneg by simp
  then show ?thesis unfolding acceptance_signal_score_def by (intro score_ok_of) simp_all
qed

lemma burst_score_ok: "leader_burst w f \<Longrightarrow> score_ok (burst_score f)"
proof -
  assume "leader_burst w f"
  then have "4 \<le> value_or_0 (rf_volume_multiple f)" by (auto simp: leader_burst_def dest: opt_ge_value)
  then have "55 \<le> plus_scaled 55 (rf_volume_multiple f) 8 2" using plus_scaled_ge [of 55 55] by simp
  then have "55 \<le> fadd (plus_scaled 55 (rf_volume_multiple f) 8 2) (fmul (max 0 (value_or_0 (rf_return_1m f))) 4)"
    using fadd_ge [of 55] scaled_nonneg by simp
  then show "score_ok (burst_score f)" unfolding burst_score_def by (intro score_ok_of) simp_all
qed

lemma extension_score_ok: "price_extension f \<Longrightarrow> score_ok (extension_score f)"
proof -
  assume p: "price_extension f"
  have "45 \<le> fadd 45 (fmul (rf_pct f) 4)" using fadd_ge [of 45 45] scaled_nonneg p by (simp add: price_extension_def)
  then have "45 \<le> fadd (fadd 45 (fmul (rf_pct f) 4)) (rf_turnover f)" using fadd_ge [of 45] p by (simp add: price_extension_def)
  then show "score_ok (extension_score f)" unfolding extension_score_def by (intro score_ok_of) simp_all
qed

lemma flow_score_ok:
  assumes "40 \<le> fadd base (fmul (rf_ratio f) 10)" "0 \<le> rf_turnover f" "40 \<le> most" "most \<le> 104"
  shows "score_ok (flow_score most base f)"
proof -
  have "40 \<le> fadd (fadd base (fmul (rf_ratio f) 10)) (fmul (rf_turnover f) 2)"
    using fadd_ge [of 40] scaled_nonneg assms by simp
  then show ?thesis unfolding flow_score_def by (intro score_ok_of) (simp_all add: assms)
qed

lemma entry_score_ok: "entry_setup er w q f \<Longrightarrow> score_ok (flow_score 95 40 f)"
proof (rule flow_score_ok)
  assume e: "entry_setup er w q f"
  have "0 \<le> flt (18 / 10)" by (simp add: flt.rnd_nonneg)
  then have "0 \<le> rf_ratio f" using e by (simp add: entry_setup_def)
  then show "40 \<le> fadd 40 (fmul (rf_ratio f) 10)" using fadd_ge [of 40 40] scaled_nonneg by simp
qed (simp_all add: entry_setup_def)

lemma anomaly_score_ok: "volume_anomaly w f \<Longrightarrow> score_ok (flow_score 90 30 f)"
proof (rule flow_score_ok)
  assume a: "volume_anomaly w f"
  have "25 \<le> fmul (rf_ratio f) 10" unfolding fmul_def
    using a flt.rnd_small_int [of 25] by (intro flt.rnd_ge) (auto simp: volume_anomaly_def)
  then have "flt 55 \<le> flt (30 + fmul (rf_ratio f) 10)" by (intro flt.rnd_mono) simp
  then show "40 \<le> fadd 30 (fmul (rf_ratio f) 10)" using flt.rnd_small_int [of 55] by (simp add: fadd_def)
qed (auto simp: volume_anomaly_def)

lemma weight_True: "weight n True = n"
  by (simp add: weight_def)

lemma weight_bounds: "0 \<le> n \<Longrightarrow> 0 \<le> weight n b" "0 \<le> n \<Longrightarrow> weight n b \<le> n"
  by (simp_all add: weight_def)

lemma upside_score_bounds:
  assumes "attention_core c"
  shows "66 \<le> upside_score c" "upside_score c \<le> 104"
proof -
  note b = weight_bounds [of 10 "uc_volume_surprise c"] weight_bounds [of 8 "uc_upper_range c"]
    weight_bounds [of 4 "uc_daily_trend c"] weight_bounds [of 4 "uc_fresh_window c"]
  have "78 \<le> upside_weights c" "upside_weights c \<le> 104"
    using b assms unfolding upside_weights_def attention_core_def by (simp_all add: weight_True)
  then show "66 \<le> upside_score c" "upside_score c \<le> 104" by (simp_all add: upside_score_def)
qed

lemma upside_score_ok:
  assumes "as_status (upside_research_assessment quote factors minutes peers) \<in> {EacCandidate, EacAttention}"
  shows "score_ok (of_int (as_score (upside_research_assessment quote factors minutes peers)))"
proof (cases "quote = None \<or> minutes = None")
  case True
  then show ?thesis using assms by (auto simp: upside_research_assessment_def split: option.splits)
next
  case False
  then obtain q m where qm: "quote = Some q" "minutes = Some m" by auto
  let ?c = "upside_components_of q (or_empty no_factors factors) m (or_empty no_peers peers)"
  have "attention_core ?c"
    using assms by (simp add: qm upside_research_assessment_def Let_def upside_candidate_def upside_attention_def split: if_split_asm)
  from upside_score_bounds [OF this] show ?thesis
    by (simp add: qm upside_research_assessment_def Let_def score_ok_def)
qed

text \<open>
  C27. Every answer of the rules can be stored: at most three signals with distinct keys, of a type
  and a severity the event table allows, and with a score between 40 and 104, or 0 for the signal
  that reports a missing quote.
\<close>

theorem signal_rules_typed:
  assumes answer: "intraday_signal_rules w quote previous factors minutes peers = Inr signals"
  shows "length signals \<le> 3 \<and> distinct (map rs_key signals)
    \<and> list_all (\<lambda>s. rs_type s \<in> {''entry'', ''watch'', ''reduce'', ''exit'', ''data_issue''}
        \<and> rs_severity s \<in> {''info'', ''warning'', ''critical''}
        \<and> (if rs_type s = ''data_issue'' then rs_score s = 0 else 40 \<le> rs_score s \<and> rs_score s \<le> 104)) signals"
proof (cases "quote = None \<or> (\<exists>q. quote = Some q \<and> rq_price q = CNull)")
  case True
  then show ?thesis using answer by (auto simp: intraday_signal_rules_def signal_rules_def missing_quote_signal_def)
next
  case False
  then obtain q where q: "quote = Some q" "rq_price q \<noteq> CNull" by (cases quote) auto
  define a where "a = upside_research_assessment (Some q) factors minutes peers"
  obtain f reclaimed against where r: "deep_reversal_acceptance w f = Inr reclaimed"
    and signals: "signals = last_signals INTRADAY_SIGNAL_MODEL_VERSION w q f a against
      (entry_signals live_entry_rule INTRADAY_SIGNAL_MODEL_VERSION w q f a
        (flow_signals w q f a (reversal_signals w q f a reclaimed (early_signals (opening_gap_window (Some q)) w q f))))"
    unfolding a_def by (rule signal_rules_facts [OF answer [unfolded intraday_signal_rules_def q(1)] q(2)])
  have impulse: "score_ok (reversal_score 52 f)" if "deep_reversal_impulse w f"
    using that by (intro reversal_score_ok) (auto simp: deep_reversal_impulse_def elim: opt_ge_trans)
  have green: "score_ok (reversal_score 48 f)" if "green_reclaim_research w f"
    using that by (intro reversal_score_ok) (auto simp: green_reclaim_research_def threshold_defs elim: opt_ge_trans)
  have upside: "score_ok (of_int (as_score a))" if "upside_breakout_research w f a"
    using that upside_score_ok unfolding a_def upside_breakout_research_def by blast
  have reclaim: "reclaimed \<Longrightarrow> opt_ge 9 (rf_recovery f)"
    using r by (auto simp: deep_reversal_acceptance_def deep_reversal_reclaim_def split: if_splits)
  have early: "length (early_signals window w q f) \<le> 1" for window
    unfolding early_signals_def by (intro length_if_first_le) (simp_all add: always_def)
  have "length (flow_signals w q f a (reversal_signals w q f a reclaimed (early_signals (opening_gap_window (Some q)) w q f))) \<le> Suc 1"
    unfolding flow_signals_def reversal_signals_def by (intro length_if_first_le length_always_le early) simp_all
  then have "length signals \<le> Suc (Suc 1)"
    unfolding signals last_signals_def entry_signals_def by (intro length_if_first_le length_always_le) simp_all
  then have "length signals \<le> 3" by simp
  moreover have "distinct (map rs_key signals)"
    unfolding signals stage_defs
    by (intro distinct_if_first distinct_always all_if_first all_always) (simp_all add: INTRADAY_SIGNAL_MODEL_VERSION_def)
  moreover have "list_all (\<lambda>s. rs_type s \<in> {''entry'', ''watch'', ''reduce'', ''exit''}
        \<and> rs_severity s \<in> {''info'', ''warning'', ''critical''} \<and> score_ok (rs_score s)) signals"
    unfolding signals stage_defs
    by (intro all_if_first all_always)
       (simp_all add: gap_score_ok surge_score_ok sector_surge_def minute_breadth_entry_def breadth_score_ok impulse green upside
          score_ok_const acceptance_score_ok reclaim burst_score_ok extension_score_ok entry_score_ok anomaly_score_ok)
  ultimately show ?thesis unfolding score_ok_def list_all_iff by force
qed

section \<open>The scan at work\<close>

text \<open>A watched name with two confirming peers on expanding minutes, and the same name held below its stop.\<close>

definition example_watch :: rule_watch where
  "example_watch = \<lparr>rw_symbol = ''600000.SH'', rw_entry_price = CNull, rw_on_entry = True, rw_on_exit = True,
     rw_hard_stop = CFloat 9, rw_available = 0, rw_surge = True, rw_reversal = False, rw_upside = True,
     rw_ratio_p95 = CNull, rw_turnover_p90 = CNull\<rparr>"

definition example_rule_quote :: rule_quote where
  "example_rule_quote = \<lparr>rq_price = CText ''8.75'', rq_pct_change = CFloat (5 / 2), rq_volume_ratio = CFloat 3,
     rq_turnover_rate = CText ''4.5%'', rq_main_net_inflow = CInt 1000000, rq_flow_percentile = CNull,
     rq_flow_scope = None, rq_flow_sources = [], rq_price_source = Some ''tencent_batched_watch_quote'',
     rq_freshness = Some ''fresh'', rq_observed = Some (combine_local 739400 (clock_time 10 0))\<rparr>"

definition example_minutes :: minute_features where
  "example_minutes = no_minutes \<lparr>mf_return_1m := CFloat 1, mf_return_3m := CFloat 2, mf_volume_multiple := CFloat 4,
     mf_above_vwap := CFloat 1\<rparr>"

definition example_peers :: peer_context where
  "example_peers = \<lparr>pc_confirming = 2, pc_available = 2, pc_breadth = 1\<rparr>"

definition example_frame :: previous_quote where
  "example_frame = \<lparr>pv_price = CFloat (17 / 2), pv_pct_change = CNull\<rparr>"

definition example_held :: rule_watch where
  "example_held = example_watch \<lparr>rw_entry_price := CFloat 10\<rparr>"

definition surge_answer :: "rule_signal list res" where
  "surge_answer = intraday_signal_rules example_watch (Some example_rule_quote) (Some example_frame) None
     (Some example_minutes) (Some example_peers)"

definition stop_answer :: "rule_signal list res" where
  "stop_answer = intraday_signal_rules example_held (Some example_rule_quote) (Some example_frame) None
     (Some example_minutes) (Some example_peers)"

lemma example_cells: "cell_float (rq_price example_rule_quote) = Inr (35 / 4)" "float_or_0 (rq_pct_change example_rule_quote) = Inr (5 / 2)"
    "cell_float (rw_entry_price example_held) = Inr 10" "intraday_number (pv_pct_change (or_empty no_previous (Some example_frame))) = None"
    "rq_price example_rule_quote \<noteq> CNull" "rw_entry_price example_watch = CNull"
  by code_simp+

lemma signal_rules_total_witness: "\<exists>signals. stop_answer = Inr signals \<and> \<not> list_ex (\<lambda>s. rs_type s = ''data_issue'') signals"
  using signal_rules_total [of example_rule_quote example_held "Some example_frame" None "Some example_minutes" "Some example_peers"]
    example_cells unfolding stop_answer_def by blast

text \<open>What is once in the list stays in it.\<close>

lemma stays: "x \<in> set signals \<Longrightarrow> x \<in> set (if_first condition s signals)" "x \<in> set signals \<Longrightarrow> x \<in> set (always condition s signals)"
  by (auto simp: list_steps)

lemma surge_is_signalled:
  assumes answer: "intraday_signal_rules w (Some q) previous factors minutes peers = Inr signals" and price: "rq_price q \<noteq> CNull"
    and f: "facts_of w q previous minutes peers = Inr f" and surge: "sector_surge w f"
    and early: "early_signals (opening_gap_window (Some q)) w q f = []"
  obtains s where "s \<in> set signals" "rs_type s = ''entry''"
proof -
  obtain f' reclaimed against where f': "facts_of w q previous minutes peers = Inr f'"
    and signals: "signals = last_signals INTRADAY_SIGNAL_MODEL_VERSION w q f' (upside_research_assessment (Some q) factors minutes peers) against
      (entry_signals live_entry_rule INTRADAY_SIGNAL_MODEL_VERSION w q f' (upside_research_assessment (Some q) factors minutes peers)
        (flow_signals w q f' (upside_research_assessment (Some q) factors minutes peers)
          (reversal_signals w q f' (upside_research_assessment (Some q) factors minutes peers) reclaimed
            (early_signals (opening_gap_window (Some q)) w q f'))))"
    by (rule signal_rules_facts [OF answer [unfolded intraday_signal_rules_def] price])
  have same: "f' = f" using f f' by simp
  define surge where "surge = (new_signal (rw_symbol w) ''sector_surge_v1'' ''entry'' ''warning'' (surge_score f)
      (common_conditions q f (Some ''minute_price_volume_plus_sector_breadth'')) (Some (upside_research_assessment (Some q) factors minutes peers))
      [''experimental_event_replay_rule'', ''independent_peer_confirmation'', ''reject_above_6_5pct'',
       ''manual_review_required'', ''no_automatic_order'']) \<lparr>rs_independent := True\<rparr>"
  have "surge \<in> set (if_first (sector_surge w f) surge [])" using assms(4) by (simp add: if_first_def)
  then have "surge \<in> set signals"
    unfolding signals last_signals_def entry_signals_def flow_signals_def reversal_signals_def same early surge_def by - (assumption | rule stays)+
  then show thesis by (rule that) (simp add: surge_def)
qed

definition example_facts :: rule_facts where
  "example_facts = (case facts_of example_watch example_rule_quote (Some example_frame) (Some example_minutes) (Some example_peers) of
     Inr f \<Rightarrow> f)"

lemma example_facts:
  "facts_of example_watch example_rule_quote (Some example_frame) (Some example_minutes) (Some example_peers) = Inr example_facts"
  unfolding example_facts_def using example_cells by (simp add: facts_of_def Let_def)

lemma example_surge: "sector_surge example_watch example_facts"
  by code_simp

lemma example_not_held: "\<not> hard_stop_hit example_watch example_facts"
  using facts_holding [OF example_facts] example_cells(6) by (simp add: hard_stop_hit_def)

lemma example_no_gap: "opening_gap_window (Some example_rule_quote) = False"
  by code_simp

lemma surge_signals:
  obtains signals s where "surge_answer = Inr signals" "s \<in> set signals" "rs_type s = ''entry''"
proof -
  obtain signals where a: "surge_answer = Inr signals"
    using signal_rules_total [of example_rule_quote example_watch "Some example_frame" None "Some example_minutes" "Some example_peers"]
      example_cells unfolding surge_answer_def by blast
  have "early_signals (opening_gap_window (Some example_rule_quote)) example_watch example_rule_quote example_facts = []"
    by (simp add: early_signals_def list_steps example_not_held example_no_gap opening_gap_watch_def)
  from surge_is_signalled [OF a [unfolded surge_answer_def] example_cells(5) example_facts example_surge this] a that
  show thesis by blast
qed

lemma entry_signals_guarded_witness:
  "\<exists>signals s f. surge_answer = Inr signals \<and> s \<in> set signals \<and> \<not> rs_hard s
    \<and> facts_of example_watch example_rule_quote (Some example_frame) (Some example_minutes) (Some example_peers) = Inr f
    \<and> 1 \<le> rf_pct f \<and> rf_pct f \<le> 13 / 2"
proof -
  obtain signals s where s: "surge_answer = Inr signals" "s \<in> set signals" "rs_type s = ''entry''" by (rule surge_signals)
  show ?thesis using entry_signals_guarded [OF s(1) [unfolded surge_answer_def] s(2,3)] s by blast
qed

lemma hard_stop_dominates_witness:
  "\<exists>s. stop_answer = Inr [s] \<and> rs_hard s \<and> rs_type s = ''exit'' \<and> rs_severity s = ''critical'' \<and> rs_score s = 100"
proof -
  obtain signals where a: "stop_answer = Inr signals"
    using signal_rules_total [of example_rule_quote example_held "Some example_frame" None "Some example_minutes" "Some example_peers"]
      example_cells unfolding stop_answer_def by blast
  have "rw_entry_price example_held \<noteq> CNull \<and> rw_on_exit example_held \<and> opt_ge (35 / 4) (intraday_number (rw_hard_stop example_held))"
    by code_simp
  with hard_stop_dominates [OF a [unfolded stop_answer_def] example_cells(1)] show ?thesis by (auto simp: a)
qed

lemma signal_rules_typed_witness:
  "\<exists>signals. surge_answer = Inr signals \<and> signals \<noteq> [] \<and> length signals \<le> 3 \<and> distinct (map rs_key signals)"
proof -
  obtain signals s where s: "surge_answer = Inr signals" "s \<in> set signals" "rs_type s = ''entry''" by (rule surge_signals)
  show ?thesis using signal_rules_typed [OF s(1) [unfolded surge_answer_def]] s by auto
qed

end
