(* ===== verification/SignalEvents.thy ===== *)
theory SignalEvents
  imports SignalRules PaperRisk "HOL-Library.AList"
begin

text \<open>
  From candidates to stored events: \<open>quant-service/app/intraday_signal_generation.py\<close> (which families
  of candidates a scan asks for), \<open>intraday_signal_policy.py\<close> (confirmation and de-duplication),
  \<open>load_intraday_signal_event_state\<close> of \<open>intraday_scan_repository.py\<close>, and
  \<open>intraday_signal_event_persistence.py\<close>, which asks the gates, advances the episodes and writes the
  event and its proposal. The rows of \<open>quant.intraday_signal_events\<close> are a list; what the ledger
  reads of them stays in the ledger. What the other collaborators of a scan answer (the shadow, rebound
  and teacher rules) is an argument, as it is in the code.
\<close>

section \<open>Signals of a scan\<close>

record scan_signal = rule_signal +
  ss_shadow :: bool
  ss_profile :: "string option"
  ss_version :: "string option"

definition of_rule :: "rule_signal \<Rightarrow> scan_signal" where
  "of_rule s = rule_signal.extend s \<lparr>ss_shadow = False, ss_profile = None, ss_version = None\<rparr>"

datatype session_phase = CallAuction | AuctionFinal | Continuous

definition session_phase :: "instant \<Rightarrow> session_phase" where
  "session_phase observed_at =
     (let clock = local_clock observed_at in
      if clock_time 9 15 \<le> clock \<and> clock < clock_time 9 25 then CallAuction
      else if clock_time 9 25 \<le> clock \<and> clock < clock_time 9 30 then AuctionFinal else Continuous)"

definition CONFIRMATION_WINDOW :: int where "CONFIRMATION_WINDOW = 5 * us_minute"
definition ALERT_COOLDOWN :: int where "ALERT_COOLDOWN = 10 * us_minute"

definition eac_conditions :: "rule_quote option \<Rightarrow> signal_conditions" where
  "eac_conditions quote =
     (case quote of
        None \<Rightarrow> empty_conditions\<lparr>cn_setup := Some ''eac_acceptance_confirmed''\<rparr>
      | Some q \<Rightarrow> \<lparr>cn_setup = Some ''eac_acceptance_confirmed'', cn_price = rq_price q, cn_pct_change = rq_pct_change q,
          cn_volume_ratio = rq_volume_ratio q, cn_turnover_rate = rq_turnover_rate q,
          cn_main_net_inflow = rq_main_net_inflow q, cn_market_state = None\<rparr>)"

definition eac_signal :: "string \<Rightarrow> rule_quote option \<Rightarrow> assessment \<Rightarrow> scan_signal list" where
  "eac_signal symbol quote a =
     (if as_status a \<notin> {EacCandidate, EacAttention} then []
      else let entry = (as_status a = EacCandidate) in
        [of_rule ((new_signal symbol (if entry then ''upside_acceptance_eac_v4'' else ''upside_acceptance_attention_v4'')
            (if entry then ''entry'' else ''watch'') (if entry then ''warning'' else ''info'') (of_int (as_score a))
            (eac_conditions quote) None
            ([''eac_timed_acceptance'', ''manual_review_required'', ''no_automatic_order''] @ as_flags a))
          \<lparr>rs_independent := True, rs_upgrade := True\<rparr>)])"

text \<open>What the collaborators answer for the inputs of this scan; \<open>teacher\<close> is \<^const>\<open>None\<close> where no
  review plans are configured.\<close>

record collaborators =
  co_shadow :: "scan_signal option"
  co_rebound :: "scan_signal option"
  co_rebound_failure :: "scan_signal option"
  co_teacher :: "scan_signal list option"

definition some_list :: "'a option \<Rightarrow> 'a list" where
  "some_list x = (case x of None \<Rightarrow> [] | Some v \<Rightarrow> [v])"

definition generate_intraday_signals ::
    "rule_watch \<Rightarrow> rule_quote option \<Rightarrow> previous_quote option \<Rightarrow> daily_factors option \<Rightarrow> minute_features option
      \<Rightarrow> peer_context option \<Rightarrow> first_breakout option \<Rightarrow> instant \<Rightarrow> collaborators \<Rightarrow> scan_signal list res" where
  "generate_intraday_signals w quote previous factors minutes peers first_eac observed_at co =
     (case session_phase observed_at of
        CallAuction \<Rightarrow> Inr []
      | AuctionFinal \<Rightarrow> Inr (or_empty [] (co_teacher co))
      | Continuous \<Rightarrow>
          bindR (intraday_signal_rules w (map_option (\<lambda>q. q\<lparr>rq_observed := Some observed_at\<rparr>) quote) previous factors minutes peers)
            (\<lambda>base. Inr (map of_rule base @ some_list (co_shadow co) @ some_list (co_rebound co) @ some_list (co_rebound_failure co)
              @ (case first_eac of None \<Rightarrow> []
                 | Some first \<Rightarrow> eac_signal (rw_symbol w) quote
                     (eac_acceptance_assessment CONFIRMATION_WINDOW first observed_at quote previous minutes peers))
              @ or_empty [] (co_teacher co))))"

section \<open>Confirmation and de-duplication\<close>

record prior_alert =
  pa_observed :: instant
  pa_score :: cell
  pa_conditions :: "signal_conditions option"

text \<open>\<open>x is not None and y is not None and test(x, y)\<close>.\<close>

definition both :: "(rat \<Rightarrow> rat \<Rightarrow> bool) \<Rightarrow> rat option \<Rightarrow> rat option \<Rightarrow> bool" where
  "both test x y = (case (x, y) of (Some a, Some b) \<Rightarrow> test a b | _ \<Rightarrow> False)"

definition moved :: "rat \<Rightarrow> rat \<Rightarrow> bool" where
  "moved before now = (before \<noteq> 0 \<and> now \<noteq> 0 \<and> flt (1 / 100) \<le> \<bar>fsub (flt (now / before)) 1\<bar>)"

definition signal_material_change :: "scan_signal \<Rightarrow> prior_alert option \<Rightarrow> bool" where
  "signal_material_change s prior_alert =
     (case prior_alert of
        None \<Rightarrow> rs_upgrade s
      | Some prior \<Rightarrow>
          let old = (case pa_conditions prior of None \<Rightarrow> empty_conditions | Some c \<Rightarrow> c); new = rs_conditions s in
          rs_upgrade s
          \<or> both (\<lambda>x y. 10 \<le> fsub y x) (intraday_number (pa_score prior)) (Some (rs_score s))
          \<or> both moved (intraday_number (cn_price old)) (intraday_number (cn_price new))
          \<or> both (\<lambda>x y. flt (8 / 10) \<le> fsub y x) (intraday_number (cn_volume_ratio old)) (intraday_number (cn_volume_ratio new))
          \<or> both (\<lambda>x y. fmul x y < 0) (intraday_number (cn_main_net_inflow old)) (intraday_number (cn_main_net_inflow new)))"

definition recent :: "instant \<Rightarrow> int \<Rightarrow> instant option \<Rightarrow> bool" where
  "recent observed_at window earlier = (case earlier of None \<Rightarrow> False | Some t \<Rightarrow> observed_at - t \<le> window)"

definition key_duplicate :: "scan_signal \<Rightarrow> instant \<Rightarrow> instant option \<Rightarrow> prior_alert option \<Rightarrow> bool" where
  "key_duplicate s observed_at seen alerted =
     (alerted \<noteq> None \<and> recent observed_at CONFIRMATION_WINDOW seen \<and> \<not> signal_material_change s alerted)"

definition symbol_watch_duplicate :: "scan_signal \<Rightarrow> instant \<Rightarrow> instant option \<Rightarrow> bool" where
  "symbol_watch_duplicate s observed_at last_watch =
     (rs_type s = ''watch'' \<and> \<not> rs_upgrade s \<and> ss_profile s \<noteq> Some ''teacher_review''
      \<and> recent observed_at ALERT_COOLDOWN last_watch)"

definition signal_event_state ::
    "scan_signal \<Rightarrow> instant \<Rightarrow> instant option \<Rightarrow> prior_alert option \<Rightarrow> instant option \<Rightarrow> string" where
  "signal_event_state s observed_at seen alerted last_watch =
     (if key_duplicate s observed_at seen alerted \<or> symbol_watch_duplicate s observed_at last_watch then ''suppressed''
      else if rs_first s \<and> seen = None then ''confirmed''
      else if rs_hard s \<or> rs_independent s \<or> recent observed_at CONFIRMATION_WINDOW seen then ''confirmed''
      else ''confirming'')"

section \<open>The tables of a scan\<close>

record scan_event =
  xe_id :: nat
  xe_symbol :: string
  xe_key :: string
  xe_type :: string
  xe_severity :: string
  xe_state :: string
  xe_score :: rat
  xe_observed :: instant
  xe_conditions :: signal_conditions
  xe_flags :: "string list"
  xe_link :: "(nat \<times> string \<times> string) option"

record risk_event =
  rk_decision :: nat
  rk_symbol :: string
  rk_reasons :: "string list"
  rk_flags :: "string list"
  rk_at :: instant

record scan_tables =
  sx_ledger :: ledger
  sx_episodes :: "episode list"
  sx_events :: "scan_event list"
  sx_risk :: "risk_event list"
  sx_next :: nat

text \<open>\<open>ORDER BY observed_at DESC LIMIT 1\<close>.\<close>

definition newest :: "scan_event list \<Rightarrow> scan_event option" where
  "newest events =
     (case events of [] \<Rightarrow> None
      | e # es \<Rightarrow> Some (fold (\<lambda>x found. if xe_observed found < xe_observed x then x else found) es e))"

record event_state =
  es_latest :: "string \<Rightarrow> instant option"
  es_alerted :: "string \<Rightarrow> prior_alert option"
  es_watch :: "instant option"

definition as_alert :: "scan_event \<Rightarrow> prior_alert" where
  "as_alert e = \<lparr>pa_observed = xe_observed e, pa_score = CFloat (xe_score e), pa_conditions = Some (xe_conditions e)\<rparr>"

definition load_intraday_signal_event_state :: "string list \<Rightarrow> string \<Rightarrow> instant \<Rightarrow> scan_event list \<Rightarrow> event_state" where
  "load_intraday_signal_event_state keys symbol session_start events =
     (let wanted = set (filter (\<lambda>k. k \<noteq> []) keys) in
      if wanted = {} then \<lparr>es_latest = Map.empty, es_alerted = Map.empty, es_watch = None\<rparr>
      else \<lparr>es_latest = (\<lambda>k. if k \<in> wanted then map_option xe_observed (newest (filter (\<lambda>e. xe_key e = k) events)) else None),
            es_alerted = (\<lambda>k. if k \<in> wanted
              then map_option as_alert (newest (filter (\<lambda>e. xe_key e = k \<and> xe_state e = ''alerted'' \<and> session_start \<le> xe_observed e) events))
              else None),
            es_watch = map_option xe_observed
              (newest (filter (\<lambda>e. xe_symbol e = symbol \<and> xe_type e = ''watch'' \<and> xe_state e = ''alerted'') events))\<rparr>)"

section \<open>Writing one signal\<close>

datatype scan_error = ScanRaised py_error | ScanDatabase ledger_error

record scan_context =
  sc_observed :: instant
  sc_clock :: instant
  sc_symbol :: string
  sc_watch :: policy_watch
  sc_quote :: "policy_quote option"
  sc_factors :: policy_factors
  sc_market :: policy_market
  sc_mismatch :: bool
  sc_weight :: cell
  sc_snapshot :: risk_snapshot
  sc_sectors :: "string list"
  sc_digest :: "material_payload \<Rightarrow> string"

definition as_policy_signal :: "scan_signal \<Rightarrow> policy_signal" where
  "as_policy_signal s = \<lparr>py_signal_type = Some (rs_type s), py_profile = ss_profile s\<rparr>"

definition scan_gate :: "scan_context \<Rightarrow> scan_signal \<Rightarrow> risk_decision" where
  "scan_gate c s = paper_risk_gate house_risk_limits (rs_type s) (sc_weight c) (sc_snapshot c) (sc_sectors c)"

definition scan_policy :: "scan_context \<Rightarrow> scan_signal \<Rightarrow> policy_verdict" where
  "scan_policy c s = live_policy_gate (as_policy_signal s) (sc_watch c) (sc_quote c) (sc_factors c) (sc_market c)
     (sc_mismatch c) (as_portfolio (scan_gate c s)) (sc_clock c)"

text \<open>The downgrades after the state of the event is known.\<close>

definition downgraded :: "scan_context \<Rightarrow> scan_signal \<Rightarrow> string \<Rightarrow> string" where
  "downgraded c s state0 =
     (let state1 = (if ss_shadow s then ''suppressed'' else state0);
          state2 = (if state1 = ''confirmed'' \<and> sc_mismatch c \<and> ss_profile s \<noteq> Some ''teacher_review'' then ''confirming'' else state1)
      in if state2 = ''confirmed'' \<and> \<not> pv_allow (scan_policy c s) then ''confirming'' else state2)"

definition scan_state :: "scan_context \<Rightarrow> event_state \<Rightarrow> scan_signal \<Rightarrow> string" where
  "scan_state c es s =
     downgraded c s (signal_event_state s (sc_observed c) (es_latest es (rs_key s)) (es_alerted es (rs_key s)) (es_watch es))"

definition as_episode_signal :: "scan_signal \<Rightarrow> signal" where
  "as_episode_signal s = \<lparr>sg_symbol = None, sg_key = Some (rs_key s), sg_type = Some (rs_type s), sg_version = ss_version s,
     sg_stage_upgrade = rs_upgrade s, sg_conditions = Some (rs_conditions s)\<rparr>"

text \<open>The episode of a signal; an issue of the data has none.\<close>

definition scan_episode ::
    "scan_context \<Rightarrow> scan_signal \<Rightarrow> string \<Rightarrow> scan_tables \<Rightarrow> ((nat \<times> string \<times> string) option \<times> scan_tables) res" where
  "scan_episode c s state t =
     (if rs_type s = ''data_issue'' then Inr (None, t)
      else bindR (ensure_signal_episode (sc_digest c) (sx_next t) (as_episode_signal s) (sc_observed c) state
               (Some (sc_symbol c)) (sx_episodes t)) (\<lambda>(answer, table).
        Inr (Some (ea_episode answer, ea_hash answer, ea_stage answer),
             t\<lparr>sx_episodes := table, sx_next := Suc (sx_next t)\<rparr>)))"

definition EVENT_TYPES :: "string list" where
  "EVENT_TYPES = [''entry'', ''watch'', ''reduce'', ''exit'', ''data_issue'']"

definition EVENT_SEVERITIES :: "string list" where
  "EVENT_SEVERITIES = [''info'', ''warning'', ''critical'']"

definition event_flags :: "scan_context \<Rightarrow> scan_signal \<Rightarrow> string list" where
  "event_flags c s = rs_flags s @ (if sc_mismatch c then [''realtime_cross_source_price_mismatch''] else []) @ pv_flags (scan_policy c s)"

text \<open>The insertion of the event with the constraints of the table; the id is the next of the ledger.\<close>

definition insert_event ::
    "scan_context \<Rightarrow> scan_signal \<Rightarrow> string \<Rightarrow> (nat \<times> string \<times> string) option \<Rightarrow> scan_tables \<Rightarrow> ledger_error + nat \<times> scan_tables" where
  "insert_event c s state link t =
     (let l = sx_ledger t in
      if sc_symbol c \<notin> set (ld_instruments l) then Inl ForeignKeyViolation
      else if rs_type s \<notin> set EVENT_TYPES \<or> rs_severity s \<notin> set EVENT_SEVERITIES then Inl CheckViolation
      else Inr (ld_next l,
        t\<lparr>sx_events := sx_events t @ [\<lparr>xe_id = ld_next l, xe_symbol = sc_symbol c, xe_key = rs_key s, xe_type = rs_type s,
              xe_severity = rs_severity s, xe_state = state, xe_score = rs_score s, xe_observed = sc_observed c,
              xe_conditions = rs_conditions s, xe_flags = event_flags c s, xe_link = link\<rparr>],
          sx_ledger := l\<lparr>ld_events := ld_events l @ [\<lparr>ev_id = ld_next l, ev_symbol = sc_symbol c, ev_key = rs_key s,
              ev_type = rs_type s, ev_observed = sc_observed c\<rparr>], ld_next := Suc (ld_next l)\<rparr>\<rparr>))"

definition scan_payload :: "scan_context \<Rightarrow> scan_signal \<Rightarrow> string \<Rightarrow> payload" where
  "scan_payload c s state = paper_decision_payload (Some (rs_type s)) (Some (rs_key s)) state (sc_symbol c) (sc_observed c)
     (scan_policy c s) (Some (scan_gate c s))"

text \<open>The latest decision of the event, for the risk event of a blocked one.\<close>

definition risk_rows :: "scan_context \<Rightarrow> scan_signal \<Rightarrow> nat \<Rightarrow> ledger \<Rightarrow> risk_event list" where
  "risk_rows c s event_id l =
     (if rd_allowed (scan_gate c s) then []
      else case rev (filter (\<lambda>d. dc_event d = event_id) (ld_decisions l)) of
          [] \<Rightarrow> []
        | d # _ \<Rightarrow> [\<lparr>rk_decision = dc_id d, rk_symbol = sc_symbol c, rk_reasons = rd_reasons (scan_gate c s),
            rk_flags = rd_flags (scan_gate c s), rk_at = sc_observed c\<rparr>])"

definition propose :: "scan_context \<Rightarrow> scan_signal \<Rightarrow> string \<Rightarrow> nat \<Rightarrow> scan_tables \<Rightarrow> ledger_error + scan_tables" where
  "propose c s state event_id t =
     (if state \<noteq> ''confirmed'' then Inr t
      else case persist_paper_decision event_id (scan_payload c s state) (sx_ledger t) of
          (Inl e, l) \<Rightarrow> Inl e
        | (Inr stored, l) \<Rightarrow> Inr (t\<lparr>sx_ledger := l, sx_risk := sx_risk t @ risk_rows c s event_id l\<rparr>))"

text \<open>A signal of the scan, written: its id and its state.\<close>

definition persist_signal ::
    "scan_context \<Rightarrow> event_state \<Rightarrow> scan_signal \<Rightarrow> scan_tables \<Rightarrow> scan_error + (nat \<times> string) \<times> scan_tables" where
  "persist_signal c es s t =
     (let state = scan_state c es s in
      case scan_episode c s state t of
        Inl e \<Rightarrow> Inl (ScanRaised e)
      | Inr (link, t1) \<Rightarrow>
          (case insert_event c s state link t1 of
             Inl e \<Rightarrow> Inl (ScanDatabase e)
           | Inr (event_id, t2) \<Rightarrow>
               (case propose c s state event_id t2 of
                  Inl e \<Rightarrow> Inl (ScanDatabase e)
                | Inr t3 \<Rightarrow> Inr ((event_id, state), t3))))"

definition noted :: "scan_context \<Rightarrow> scan_signal \<Rightarrow> event_state \<Rightarrow> event_state" where
  "noted c s es = es\<lparr>es_latest := (es_latest es)(rs_key s \<mapsto> sc_observed c)\<rparr>"

fun persist_generated_signals ::
    "scan_context \<Rightarrow> event_state \<Rightarrow> scan_signal list \<Rightarrow> scan_tables \<Rightarrow> scan_error + (nat \<times> string) list \<times> scan_tables" where
  "persist_generated_signals c es [] t = Inr ([], t)"
| "persist_generated_signals c es (s # signals) t =
     (case persist_signal c es s t of
        Inl e \<Rightarrow> Inl e
      | Inr (x, t1) \<Rightarrow>
          (case persist_generated_signals c (noted c s es) signals t1 of
             Inl e \<Rightarrow> Inl e
           | Inr (xs, t2) \<Rightarrow> Inr (x # xs, t2)))"

text \<open>The states of a basket are read once. \<open>wanted\<close> is the dict of the keys of each symbol.\<close>

definition nonempty_keys :: "(string \<times> string list) list \<Rightarrow> (string \<times> string list) list" where
  "nonempty_keys wanted =
     filter (\<lambda>(symbol, keys). keys \<noteq> [])
       (map (\<lambda>(symbol, keys). (symbol, filter (\<lambda>k. k \<noteq> []) keys)) (filter (\<lambda>(symbol, keys). symbol \<noteq> []) wanted))"

definition load_intraday_signal_event_states ::
    "(string \<times> string list) list \<Rightarrow> instant \<Rightarrow> scan_event list \<Rightarrow> (string \<times> event_state) list" where
  "load_intraday_signal_event_states wanted session_start events =
     (let normalized = nonempty_keys wanted;
          all_keys = concat (map snd normalized);
          symbols = map fst normalized;
          latest_by_key = (\<lambda>k. if k \<in> set all_keys then map_option xe_observed (newest (filter (\<lambda>e. xe_key e = k) events)) else None);
          alerted_by_key = (\<lambda>k. if k \<in> set all_keys
            then map_option as_alert (newest (filter (\<lambda>e. xe_key e = k \<and> xe_state e = ''alerted'' \<and> session_start \<le> xe_observed e) events))
            else None);
          last_by_symbol = (\<lambda>s. if s \<in> set symbols
            then map_option xe_observed (newest (filter (\<lambda>e. xe_symbol e = s \<and> xe_type e = ''watch'' \<and> xe_state e = ''alerted'') events))
            else None)
      in map (\<lambda>(symbol, keys). (symbol, \<lparr>es_latest = (\<lambda>k. if k \<in> set keys then latest_by_key k else None),
           es_alerted = (\<lambda>k. if k \<in> set keys then alerted_by_key k else None), es_watch = last_by_symbol symbol\<rparr>)) normalized)"

text \<open>The names of a scan with the signals generated for each; \<open>signal_keys_by_symbol\<close> is a dict.\<close>

type_synonym scan_row = "scan_context \<times> scan_signal list"

definition signal_keys_by_symbol :: "scan_row list \<Rightarrow> (string \<times> string list) list" where
  "signal_keys_by_symbol rows =
     fold (\<lambda>(c, signals) d. if signals = [] then d else AList.update (sc_symbol c) (map rs_key signals) d) rows []"

definition row_state :: "(string \<times> event_state) list \<Rightarrow> instant \<Rightarrow> scan_row \<Rightarrow> scan_event list \<Rightarrow> event_state" where
  "row_state states session_start row events =
     (case map_of states (sc_symbol (fst row)) of
        Some es \<Rightarrow> es
      | None \<Rightarrow> load_intraday_signal_event_state (map rs_key (snd row)) (sc_symbol (fst row)) session_start events)"

fun commit_rows ::
    "(string \<times> event_state) list \<Rightarrow> instant \<Rightarrow> scan_row list \<Rightarrow> scan_tables \<Rightarrow> scan_error + (nat \<times> string) list \<times> scan_tables" where
  "commit_rows states session_start [] t = Inr ([], t)"
| "commit_rows states session_start (row # rows) t =
     (case persist_generated_signals (fst row) (row_state states session_start row (sx_events t)) (snd row) t of
        Inl e \<Rightarrow> Inl e
      | Inr (xs, t1) \<Rightarrow>
          (case commit_rows states session_start rows t1 of
             Inl e \<Rightarrow> Inl e
           | Inr (ys, t2) \<Rightarrow> Inr (xs @ ys, t2)))"

text \<open>The transaction of a scan; an exception rolls it back.\<close>

definition commit_scan :: "instant \<Rightarrow> scan_row list \<Rightarrow> scan_tables \<Rightarrow> scan_error + (nat \<times> string) list \<times> scan_tables" where
  "commit_scan session_start rows t =
     commit_rows (load_intraday_signal_event_states (signal_keys_by_symbol rows) session_start (sx_events t)) session_start rows t"

definition committed :: "scan_tables \<Rightarrow> scan_error + 'a \<times> scan_tables \<Rightarrow> scan_tables" where
  "committed t answer = (case answer of Inl e \<Rightarrow> t | Inr (x, t') \<Rightarrow> t')"

definition mark_event_alerted :: "nat \<Rightarrow> scan_tables \<Rightarrow> scan_tables" where
  "mark_event_alerted event_id t =
     t\<lparr>sx_events := map (\<lambda>e. if xe_id e = event_id then e\<lparr>xe_state := ''alerted''\<rparr> else e) (sx_events t)\<rparr>"

section \<open>What the tables promise\<close>

text \<open>An event that was confirmed, whether or not its alert has been delivered.\<close>

definition proposed_event :: "scan_event \<Rightarrow> bool" where
  "proposed_event e = (xe_state e = ''confirmed'' \<or> xe_state e = ''alerted'')"

definition event_ok :: "nat set \<Rightarrow> scan_event \<Rightarrow> bool" where
  "event_ok episodes e =
     (xe_type e \<in> set EVENT_TYPES \<and> xe_severity e \<in> set EVENT_SEVERITIES
      \<and> xe_state e \<in> {''suppressed'', ''confirming'', ''confirmed'', ''alerted''}
      \<and> (case xe_link e of None \<Rightarrow> xe_type e = ''data_issue''
         | Some (episode, _, _) \<Rightarrow> xe_type e \<noteq> ''data_issue'' \<and> episode \<in> episodes))"

definition scan_ok :: "scan_tables \<Rightarrow> bool" where
  "scan_ok t =
     (distinct (map xe_id (sx_events t)) \<and> (\<forall>e \<in> set (sx_events t). xe_id e < ld_next (sx_ledger t))
      \<and> episodes_ok (sx_episodes t) \<and> (\<forall>e \<in> set (sx_episodes t). ep_id e < sx_next t)
      \<and> (\<forall>e \<in> set (sx_events t). event_ok (ep_id ` set (sx_episodes t)) e)
      \<and> distinct (map dc_event (ld_decisions (sx_ledger t)))
      \<and> dc_event ` set (ld_decisions (sx_ledger t)) = xe_id ` set (filter proposed_event (sx_events t)))"

text \<open>The transactions that write these tables: a scan of a basket, the delivery of an alert, and the
  clearing of stale episodes.\<close>

inductive scan_step :: "scan_tables \<Rightarrow> scan_tables \<Rightarrow> bool" where
  scan: "scan_step t (committed t (commit_scan session_start rows t))"
| alert: "e \<in> set (sx_events t) \<Longrightarrow> proposed_event e \<Longrightarrow> scan_step t (mark_event_alerted (xe_id e) t)"
| clear: "scan_step t (t\<lparr>sx_episodes := snd (clear_stale_signal_episodes symbols at_time (sx_episodes t))\<rparr>)"

definition empty_tables :: "string list \<Rightarrow> scan_tables" where
  "empty_tables instruments =
     \<lparr>sx_ledger = empty_ledger instruments, sx_episodes = [], sx_events = [], sx_risk = [], sx_next = 0\<rparr>"

inductive scan_reachable :: "scan_tables \<Rightarrow> bool" where
  start: "scan_reachable (empty_tables instruments)"
| step: "scan_reachable t \<Longrightarrow> scan_step t t' \<Longrightarrow> scan_reachable t'"

lemma event_ok_more: "event_ok A e \<Longrightarrow> A \<subseteq> B \<Longrightarrow> event_ok B e"
  by (auto simp: event_ok_def split: option.splits)

lemma scan_state_values: "scan_state c es s \<in> {''suppressed'', ''confirming'', ''confirmed''}"
  by (simp add: scan_state_def downgraded_def Let_def signal_event_state_def)

lemma ensure_keeps_ids:
  "ensure_signal_episode digest new_id s observed_at event_state symbol_arg table = Inr (answer, table')
    \<Longrightarrow> ep_id ` set table \<subseteq> ep_id ` set table'"
proof -
  have ids: "ep_id ` set (update_where p (touch_row a b x d) table) = ep_id ` set table"
    "ep_id ` set (update_where p (clear_row a b) table) = ep_id ` set table" for p a b x d
    by simp_all
  show "ensure_signal_episode digest new_id s observed_at event_state symbol_arg table = Inr (answer, table') \<Longrightarrow> ?thesis"
    by (auto simp: ensure_signal_episode_def Let_def image_Un ids split: if_split_asm option.splits)
qed

lemma scan_episode_ok:
  assumes "scan_episode c s state t = Inr (link, t1)" "scan_ok t"
  shows "scan_ok t1 \<and> sx_events t1 = sx_events t \<and> sx_ledger t1 = sx_ledger t \<and> sx_risk t1 = sx_risk t
    \<and> (case link of None \<Rightarrow> rs_type s = ''data_issue''
       | Some (episode, _, _) \<Rightarrow> rs_type s \<noteq> ''data_issue'' \<and> episode \<in> ep_id ` set (sx_episodes t1))"
proof (cases "rs_type s = ''data_issue''")
  case True
  then show ?thesis using assms by (simp add: scan_episode_def)
next
  case False
  then obtain answer table where e: "ensure_signal_episode (sc_digest c) (sx_next t) (as_episode_signal s) (sc_observed c) state
      (Some (sc_symbol c)) (sx_episodes t) = Inr (answer, table)"
    and t1: "t1 = t\<lparr>sx_episodes := table, sx_next := Suc (sx_next t)\<rparr>" and link: "link = Some (ea_episode answer, ea_hash answer, ea_stage answer)"
    using assms(1) by (auto simp: scan_episode_def)
  have ok: "episodes_ok (sx_episodes t)" "\<forall>e \<in> set (sx_episodes t). ep_id e < sx_next t" using assms(2) by (simp_all add: scan_ok_def)
  then have fresh: "sx_next t \<notin> ep_id ` set (sx_episodes t)" by auto
  note facts = ensure_ok [OF e ok(1) fresh] ensure_keeps_ids [OF e]
  have "\<forall>e \<in> set table. ep_id e < Suc (sx_next t)" using facts(3) ok(2) by force
  then have "scan_ok t1" using assms(2) facts(1,4) by (auto simp: scan_ok_def t1 intro: event_ok_more)
  moreover have "ea_episode answer \<in> ep_id ` set table" using facts(2) by (metis imageI)
  ultimately show ?thesis using False by (simp add: t1 link)
qed

lemma insert_event_ok:
  assumes "insert_event c s state link t = Inr (event_id, t2)" "scan_ok t" "state \<in> {''suppressed'', ''confirming'', ''confirmed''}"
    and "case link of None \<Rightarrow> rs_type s = ''data_issue''
       | Some (episode, _, _) \<Rightarrow> rs_type s \<noteq> ''data_issue'' \<and> episode \<in> ep_id ` set (sx_episodes t)"
  shows "event_id = ld_next (sx_ledger t) \<and> sc_symbol c \<in> set (ld_instruments (sx_ledger t))
    \<and> ld_decisions (sx_ledger t2) = ld_decisions (sx_ledger t) \<and> event_id \<in> set (map ev_id (ld_events (sx_ledger t2)))
    \<and> ld_instruments (sx_ledger t2) = ld_instruments (sx_ledger t)
    \<and> (\<exists>e. sx_events t2 = sx_events t @ [e] \<and> xe_id e = event_id \<and> xe_state e = state \<and> xe_key e = rs_key s
        \<and> xe_symbol e = sc_symbol c \<and> xe_observed e = sc_observed c \<and> event_ok (ep_id ` set (sx_episodes t)) e)
    \<and> sx_episodes t2 = sx_episodes t \<and> sx_next t2 = sx_next t \<and> ld_next (sx_ledger t2) = Suc event_id"
proof -
  have guards: "sc_symbol c \<in> set (ld_instruments (sx_ledger t))" "rs_type s \<in> set EVENT_TYPES" "rs_severity s \<in> set EVENT_SEVERITIES"
    and answer: "event_id = ld_next (sx_ledger t)"
      "t2 = t\<lparr>sx_events := sx_events t @ [\<lparr>xe_id = ld_next (sx_ledger t), xe_symbol = sc_symbol c, xe_key = rs_key s, xe_type = rs_type s,
              xe_severity = rs_severity s, xe_state = state, xe_score = rs_score s, xe_observed = sc_observed c,
              xe_conditions = rs_conditions s, xe_flags = event_flags c s, xe_link = link\<rparr>],
          sx_ledger := (sx_ledger t)\<lparr>ld_events := ld_events (sx_ledger t) @ [\<lparr>ev_id = ld_next (sx_ledger t), ev_symbol = sc_symbol c, ev_key = rs_key s,
              ev_type = rs_type s, ev_observed = sc_observed c\<rparr>], ld_next := Suc (ld_next (sx_ledger t))\<rparr>\<rparr>"
    using assms(1) by (auto simp: insert_event_def Let_def split: if_split_asm)
  have "state = ''suppressed'' \<or> state = ''confirming'' \<or> state = ''confirmed'' \<or> state = ''alerted''" using assms(3) by blast
  then show ?thesis using guards assms(4) by (cases link) (simp_all add: answer event_ok_def case_prod_beta)
qed

text \<open>The proposal of a fresh event is always stored.\<close>

lemma propose_ok:
  assumes "propose c s state event_id t = Inr t3" "list_all (\<lambda>d. dc_event d < event_id) (ld_decisions (sx_ledger t))"
  shows "sx_events t3 = sx_events t \<and> sx_episodes t3 = sx_episodes t \<and> sx_next t3 = sx_next t
    \<and> ld_next (sx_ledger t) \<le> ld_next (sx_ledger t3)
    \<and> map dc_event (ld_decisions (sx_ledger t3)) = map dc_event (ld_decisions (sx_ledger t)) @ (if state = ''confirmed'' then [event_id] else [])"
proof (cases "state = ''confirmed''")
  case False
  then show ?thesis using assms(1) by (simp add: propose_def)
next
  case True
  have "\<not> list_ex (same_decision event_id (py_strategy p) (py_version p)) (ld_decisions (sx_ledger t))" for p
    using assms(2) by (auto simp: list_ex_iff list_all_iff same_decision_def)
  then show ?thesis using True assms(1) by (auto simp: propose_def persist_paper_decision_def split: if_split_asm)
qed

lemma persist_signal_ok:
  assumes "persist_signal c es s t = Inr ((event_id, state), t')" "scan_ok t"
  shows "scan_ok t' \<and> state = scan_state c es s
    \<and> (\<exists>e. sx_events t' = sx_events t @ [e] \<and> xe_id e = event_id \<and> xe_state e = state \<and> xe_key e = rs_key s
        \<and> xe_symbol e = sc_symbol c \<and> xe_observed e = sc_observed c)"
proof -
  have state: "state = scan_state c es s" using assms(1) by (auto simp: persist_signal_def Let_def split: sum.splits prod.splits)
  obtain link t1 where a: "scan_episode c s state t = Inr (link, t1)"
    using assms(1) unfolding state by (auto simp: persist_signal_def Let_def split: sum.splits prod.splits)
  obtain t2 where b: "insert_event c s state link t1 = Inr (event_id, t2)" and d: "propose c s state event_id t2 = Inr t'"
    using assms(1) a unfolding state by (auto simp: persist_signal_def Let_def split: sum.splits prod.splits)
  note f1 = scan_episode_ok [OF a assms(2)]
  from insert_event_ok [OF b _ _ ] f1 scan_state_values [of c es s] state
  have f2: "event_id = ld_next (sx_ledger t1)" "ld_decisions (sx_ledger t2) = ld_decisions (sx_ledger t1)"
    "sx_episodes t2 = sx_episodes t1" "sx_next t2 = sx_next t1" "ld_next (sx_ledger t2) = Suc event_id"
    and ex: "\<exists>e. sx_events t2 = sx_events t1 @ [e] \<and> xe_id e = event_id \<and> xe_state e = state \<and> xe_key e = rs_key s
        \<and> xe_symbol e = sc_symbol c \<and> xe_observed e = sc_observed c \<and> event_ok (ep_id ` set (sx_episodes t1)) e"
    by blast+
  then obtain e where e: "sx_events t2 = sx_events t1 @ [e]" "xe_id e = event_id" "xe_state e = state" "xe_key e = rs_key s"
    "xe_symbol e = sc_symbol c" "xe_observed e = sc_observed c" "event_ok (ep_id ` set (sx_episodes t1)) e" by blast
  have ok1: "scan_ok t1" using f1 by blast
  have old: "dc_event ` set (ld_decisions (sx_ledger t1)) = xe_id ` set (filter proposed_event (sx_events t1))"
    "\<forall>e \<in> set (sx_events t1). xe_id e < ld_next (sx_ledger t1)" using ok1 by (simp_all add: scan_ok_def)
  have ids: "dc_event d < event_id" if "d \<in> set (ld_decisions (sx_ledger t1))" for d
  proof -
    have "dc_event d \<in> xe_id ` set (filter proposed_event (sx_events t1))" unfolding old(1) [symmetric] using that by (rule imageI)
    then show ?thesis using old(2) f2(1) by auto
  qed
  then have below: "list_all (\<lambda>d. dc_event d < event_id) (ld_decisions (sx_ledger t2))" by (simp add: f2(2) list_all_iff)
  note f3 = propose_ok [OF d below]
  have fresh: "event_id \<notin> dc_event ` set (ld_decisions (sx_ledger t1))" using ids by blast
  have "dc_event ` set (ld_decisions (sx_ledger t')) = set (map dc_event (ld_decisions (sx_ledger t')))" by simp
  also have "\<dots> = dc_event ` set (ld_decisions (sx_ledger t1)) \<union> (if state = ''confirmed'' then {event_id} else {})" using f3 f2(2) by simp
  also have "\<dots> = xe_id ` set (filter proposed_event (sx_events t2))"
    using e scan_state_values [of c es s] by (auto simp: old(1) state proposed_event_def)
  finally have decisions: "dc_event ` set (ld_decisions (sx_ledger t')) = xe_id ` set (filter proposed_event (sx_events t'))" using f3 by simp
  have "distinct (map dc_event (ld_decisions (sx_ledger t')))" using f3 f2(2) ok1 fresh by (simp add: scan_ok_def)
  moreover have "distinct (map xe_id (sx_events t'))" "\<forall>x \<in> set (sx_events t'). xe_id x < ld_next (sx_ledger t')"
    using f3 e f2 ok1 unfolding scan_ok_def by fastforce+
  ultimately have "scan_ok t'"
    using ok1 e(1,7) f3 f2(3,4) decisions by (auto simp: scan_ok_def)
  then show ?thesis using f3 e state f1 by auto
qed

text \<open>What allows a confirmation, in the light of the events stored before it.\<close>

definition within_window :: "string \<Rightarrow> instant \<Rightarrow> scan_event list \<Rightarrow> bool" where
  "within_window key observed_at events =
     list_ex (\<lambda>e. xe_key e = key \<and> observed_at - xe_observed e \<le> CONFIRMATION_WINDOW) events"

definition justified :: "scan_context \<Rightarrow> scan_signal \<Rightarrow> scan_event list \<Rightarrow> bool" where
  "justified c s stored =
     (\<not> ss_shadow s \<and> pv_allow (scan_policy c s) \<and> (sc_mismatch c \<longrightarrow> ss_profile s = Some ''teacher_review'')
      \<and> (rs_hard s \<or> rs_independent s \<or> rs_first s \<or> within_window (rs_key s) (sc_observed c) stored))"

definition written_event :: "scan_row list \<Rightarrow> scan_event list \<Rightarrow> scan_event \<Rightarrow> bool" where
  "written_event rows stored e =
     (xe_state e \<noteq> ''alerted'' \<and> (\<exists>(c, signals) \<in> set rows. \<exists>s \<in> set signals. xe_key e = rs_key s \<and> xe_symbol e = sc_symbol c \<and> xe_observed e = sc_observed c
        \<and> (xe_state e = ''confirmed'' \<longrightarrow> justified c s stored)))"

fun written :: "scan_row list \<Rightarrow> scan_event list \<Rightarrow> scan_event list \<Rightarrow> bool" where
  "written rows stored [] = True"
| "written rows stored (e # new) = (written_event rows stored e \<and> written rows (stored @ [e]) new)"

text \<open>Every observation the scan remembers of a key is one of a stored event.\<close>

definition remembers :: "event_state \<Rightarrow> scan_event list \<Rightarrow> bool" where
  "remembers es events =
     (\<forall>k t. es_latest es k = Some t \<longrightarrow> list_ex (\<lambda>e. xe_key e = k \<and> xe_observed e = t) events)"

lemma newest_cases:
  "newest events = None \<longleftrightarrow> events = []" "newest events = Some e \<Longrightarrow> e \<in> set events"
proof -
  show "newest events = None \<longleftrightarrow> events = []" by (simp add: newest_def split: list.splits)
  have "fold (\<lambda>x found. if xe_observed found < xe_observed x then x else found) es e0 \<in> insert e0 (set es)" for es and e0 :: scan_event
    by (induction es arbitrary: e0) (auto split: if_splits)
  then show "newest events = Some e \<Longrightarrow> e \<in> set events" by (auto simp: newest_def split: list.splits)
qed

lemma newest_remembered:
  "map_option xe_observed (newest (filter (\<lambda>e. xe_key e = k) events)) = Some t \<Longrightarrow> list_ex (\<lambda>e. xe_key e = k \<and> xe_observed e = t) events"
  using newest_cases(2) by (fastforce simp: list_ex_iff)

lemma load_remembers: "remembers (load_intraday_signal_event_state keys symbol session_start events) events"
  unfolding remembers_def load_intraday_signal_event_state_def Let_def
  using newest_remembered by (simp split: if_split_asm)

lemma batch_remembers:
  "(symbol, es) \<in> set (load_intraday_signal_event_states wanted session_start events) \<Longrightarrow> remembers es events"
  using newest_remembered by (auto simp: remembers_def load_intraday_signal_event_states_def Let_def split: if_split_asm)

lemma remembers_append: "remembers es events \<Longrightarrow> remembers es (events @ more_events)"
  by (simp add: remembers_def)

lemma row_state_remembers:
  assumes "\<And>symbol es. (symbol, es) \<in> set states \<Longrightarrow> remembers es events"
  shows "remembers (row_state states session_start row events) events"
proof (cases "map_of states (sc_symbol (fst row))")
  case None
  then show ?thesis by (simp add: row_state_def load_remembers)
next
  case (Some es)
  then show ?thesis using assms [OF map_of_SomeD [OF Some]] by (simp add: row_state_def)
qed

lemma confirmed_justified:
  assumes "scan_state c es s = ''confirmed''" "remembers es stored"
  shows "justified c s stored"
proof -
  have gates: "\<not> ss_shadow s" "pv_allow (scan_policy c s)" "sc_mismatch c \<longrightarrow> ss_profile s = Some ''teacher_review''"
    and st: "signal_event_state s (sc_observed c) (es_latest es (rs_key s)) (es_alerted es (rs_key s)) (es_watch es) = ''confirmed''"
    using assms(1) by (auto simp: scan_state_def downgraded_def Let_def split: if_split_asm)
  have "rs_hard s \<or> rs_independent s \<or> rs_first s \<or> recent (sc_observed c) CONFIRMATION_WINDOW (es_latest es (rs_key s))"
    using st by (auto simp: signal_event_state_def split: if_split_asm)
  moreover have "within_window (rs_key s) (sc_observed c) stored"
    if r: "recent (sc_observed c) CONFIRMATION_WINDOW (es_latest es (rs_key s))"
  proof -
    obtain t where t: "es_latest es (rs_key s) = Some t" "sc_observed c - t \<le> CONFIRMATION_WINDOW"
      using r by (auto simp: recent_def split: option.splits)
    then have "list_ex (\<lambda>e. xe_key e = rs_key s \<and> xe_observed e = t) stored" using assms(2) by (simp add: remembers_def)
    then show ?thesis using t(2) by (auto simp: within_window_def list_ex_iff)
  qed
  ultimately show ?thesis using gates unfolding justified_def by blast
qed

lemma written_append: "written rows stored new \<Longrightarrow> written rows (stored @ new) new' \<Longrightarrow> written rows stored (new @ new')"
  by (induction rows stored new rule: written.induct) simp_all

lemma written_more: "written rows stored new \<Longrightarrow> set rows \<subseteq> set rows' \<Longrightarrow> written rows' stored new"
  by (induction rows stored new rule: written.induct) (auto simp: written_event_def)

lemma persist_generated_ok:
  assumes "persist_generated_signals c es signals t = Inr (xs, t')" "scan_ok t" "remembers es (sx_events t)" "set signals \<subseteq> set all_signals"
  shows "scan_ok t' \<and> (\<exists>new. sx_events t' = sx_events t @ new \<and> written [(c, all_signals)] (sx_events t) new)"
  using assms
proof (induction signals arbitrary: es t xs)
  case Nil
  then show ?case by simp
next
  case (Cons s signals)
  obtain event_id state t1 ys where a: "persist_signal c es s t = Inr ((event_id, state), t1)"
    and b: "persist_generated_signals c (noted c s es) signals t1 = Inr (ys, t')"
    using Cons.prems(1) by (auto split: sum.splits prod.splits)
  from persist_signal_ok [OF a Cons.prems(2)] obtain e where ok: "scan_ok t1" and e: "sx_events t1 = sx_events t @ [e]"
    "xe_state e = scan_state c es s" "xe_key e = rs_key s" "xe_symbol e = sc_symbol c" "xe_observed e = sc_observed c" by auto
  have w: "written_event [(c, all_signals)] (sx_events t) e"
    using e confirmed_justified [OF _ Cons.prems(3)] Cons.prems(4) scan_state_values [of c es s] by (auto simp: written_event_def)
  have "remembers (noted c s es) (sx_events t1)"
    using Cons.prems(3) e by (auto simp: remembers_def noted_def list_ex_iff)
  from Cons.IH [OF b ok this] Cons.prems(4) obtain new where
    "scan_ok t'" "sx_events t' = sx_events t1 @ new" "written [(c, all_signals)] (sx_events t1) new" by auto
  then show ?case using w e(1) by (intro conjI exI [of _ "e # new"]) simp_all
qed

lemma commit_rows_ok:
  assumes "commit_rows states session_start rows t = Inr (xs, t')" "scan_ok t"
    and "\<And>symbol es. (symbol, es) \<in> set states \<Longrightarrow> remembers es (sx_events t)"
  shows "scan_ok t' \<and> (\<exists>new. sx_events t' = sx_events t @ new \<and> written rows (sx_events t) new)"
  using assms
proof (induction rows arbitrary: t xs)
  case Nil
  then show ?case by simp
next
  case (Cons row rows)
  obtain ys t1 zs where a: "persist_generated_signals (fst row) (row_state states session_start row (sx_events t)) (snd row) t = Inr (ys, t1)"
    and b: "commit_rows states session_start rows t1 = Inr (zs, t')"
    using Cons.prems(1) by (auto split: sum.splits prod.splits)
  have start: "remembers (row_state states session_start row (sx_events t)) (sx_events t)"
    by (rule row_state_remembers) (rule Cons.prems(3))
  from persist_generated_ok [OF a Cons.prems(2) start subset_refl] obtain new1 where one: "scan_ok t1" "sx_events t1 = sx_events t @ new1" "written [(fst row, snd row)] (sx_events t) new1" by blast
  have "scan_ok t' \<and> (\<exists>new. sx_events t' = sx_events t1 @ new \<and> written rows (sx_events t1) new)"
  proof (rule Cons.IH [OF b one(1)])
    fix symbol es assume "(symbol, es) \<in> set states"
    from Cons.prems(3) [OF this] show "remembers es (sx_events t1)" unfolding one(2) by (rule remembers_append)
  qed
  then obtain new2 where
    two: "scan_ok t'" "sx_events t' = sx_events t1 @ new2" "written rows (sx_events t1) new2" by blast
  have "written (row # rows) (sx_events t) (new1 @ new2)"
    using written_more [OF one(3), of "row # rows"] written_more [OF two(3), of "row # rows"] one(2) by (auto intro: written_append)
  then show ?case using one(2) two(1,2) by auto
qed

lemma commit_scan_ok:
  "commit_scan session_start rows t = Inr (xs, t') \<Longrightarrow> scan_ok t
    \<Longrightarrow> scan_ok t' \<and> (\<exists>new. sx_events t' = sx_events t @ new \<and> written rows (sx_events t) new)"
  unfolding commit_scan_def by (rule commit_rows_ok) (auto intro: batch_remembers)

lemma committed_ok: "scan_ok t \<Longrightarrow> scan_ok (committed t (commit_scan session_start rows t))"
  using commit_scan_ok unfolding committed_def by (auto split: sum.splits prod.splits)

lemma mark_alerted_ok:
  assumes "scan_ok t" "e \<in> set (sx_events t)" "proposed_event e"
  shows "scan_ok (mark_event_alerted (xe_id e) t)"
proof -
  define f where "f = (\<lambda>x :: scan_event. if xe_id x = xe_id e then x\<lparr>xe_state := ''alerted''\<rparr> else x)"
  have f: "xe_id (f x) = xe_id x" "event_ok A x \<Longrightarrow> event_ok A (f x)" for x A by (auto simp: f_def event_ok_def split: option.splits)
  have same: "proposed_event (f x) = proposed_event x" if "x \<in> set (sx_events t)" for x
  proof (cases "xe_id x = xe_id e")
    case True
    then have "x = e" using assms(1,2) that by (auto simp: scan_ok_def distinct_map dest: inj_onD)
    then show ?thesis using assms(3) by (simp add: f_def proposed_event_def)
  qed (simp add: f_def)
  have kept: "filter proposed_event (map f (sx_events t)) = map f (filter proposed_event (sx_events t))"
    using same by (induction "sx_events t" arbitrary: t) (simp_all add: filter_map comp_def cong: filter_cong)
  have ids: "xe_id ` set (filter proposed_event (map f (sx_events t))) = xe_id ` set (filter proposed_event (sx_events t))"
    unfolding kept by (simp add: image_image f(1) del: set_filter)
  have distinct_ids: "distinct (map xe_id (map f (sx_events t)))" using assms(1) by (simp add: scan_ok_def comp_def f(1))
  have below: "\<forall>x \<in> set (map f (sx_events t)). xe_id x < ld_next (sx_ledger t)" using assms(1) by (simp add: scan_ok_def f(1))
  have rows: "\<forall>x \<in> set (map f (sx_events t)). event_ok (ep_id ` set (sx_episodes t)) x"
    using assms(1) f(2) by (simp add: scan_ok_def)
  have parts: "sx_events (mark_event_alerted (xe_id e) t) = map f (sx_events t)"
    "sx_ledger (mark_event_alerted (xe_id e) t) = sx_ledger t" "sx_episodes (mark_event_alerted (xe_id e) t) = sx_episodes t"
    "sx_next (mark_event_alerted (xe_id e) t) = sx_next t"
    by (simp_all add: mark_event_alerted_def f_def)
  show ?thesis using assms(1) distinct_ids below rows unfolding scan_ok_def parts ids by blast
qed

lemma clear_ok: "scan_ok t \<Longrightarrow> scan_ok (t\<lparr>sx_episodes := snd (clear_stale_signal_episodes symbols at_time (sx_episodes t))\<rparr>)"
proof -
  assume ok: "scan_ok t"
  let ?table = "snd (clear_stale_signal_episodes symbols at_time (sx_episodes t))"
  have ids: "ep_id ` set ?table = ep_id ` set (sx_episodes t)"
    by (simp add: clear_stale_signal_episodes_def)
  have "episode_step (sc_digest undefined) (sx_episodes t) ?table" by (rule episode_step.clear) (rule surjective_pairing)
  from episode_step_ok [OF this] have "episodes_ok ?table" using ok by (simp add: scan_ok_def)
  moreover have "\<forall>e \<in> set ?table. ep_id e < sx_next t"
  proof
    fix e assume "e \<in> set ?table"
    then have "ep_id e \<in> ep_id ` set (sx_episodes t)" unfolding ids [symmetric] by (rule imageI)
    then show "ep_id e < sx_next t" using ok by (auto simp: scan_ok_def)
  qed
  ultimately show ?thesis using ok by (simp add: scan_ok_def ids)
qed

lemma scan_reachable_ok: "scan_reachable t \<Longrightarrow> scan_ok t"
proof (induction rule: scan_reachable.induct)
  case (start instruments)
  then show ?case by (simp add: scan_ok_def empty_tables_def empty_ledger_def episodes_ok_def)
next
  case (step t t')
  from step.hyps(2) step.IH show ?case
    by cases (simp_all add: committed_ok mark_alerted_ok clear_ok)
qed

lemma written_in: "written rows stored new \<Longrightarrow> e \<in> set new \<Longrightarrow> \<exists>xs ys. new = xs @ e # ys \<and> written_event rows (stored @ xs) e"
proof (induction rows stored new rule: written.induct)
  case (2 rows stored e' new)
  show ?case
  proof (cases "e \<in> set new")
    case True
    with 2 obtain xs ys where "new = xs @ e # ys" "written_event rows (stored @ e' # xs) e" by auto
    then show ?thesis by (metis append_Cons)
  next
    case False
    then show ?thesis using 2 by (metis append_Nil append_Nil2 set_ConsD written.simps(2))
  qed
qed simp

lemma fold_newest_max:
  "x \<in> insert e (set es)
    \<Longrightarrow> xe_observed x \<le> xe_observed (fold (\<lambda>x found. if xe_observed found < xe_observed x then x else found) es e)"
  for e :: scan_event
proof (induction es arbitrary: e x)
  case (Cons a es)
  let ?next = "if xe_observed e < xe_observed a then a else e"
  have "xe_observed x \<le> xe_observed ?next \<or> x \<in> set es" using Cons.prems by auto
  then show ?case
  proof
    assume "xe_observed x \<le> xe_observed ?next"
    also have "\<dots> \<le> xe_observed (fold (\<lambda>x found. if xe_observed found < xe_observed x then x else found) es ?next)"
      by (rule Cons.IH) simp
    finally show ?thesis by (simp only: fold_simps)
  next
    assume "x \<in> set es"
    then have "x \<in> insert ?next (set es)" by blast
    from Cons.IH [OF this] show ?thesis by (simp only: fold_simps)
  qed
qed simp

lemma newest_max:
  assumes "newest events = Some e" "x \<in> set events"
  shows "xe_observed x \<le> xe_observed e"
proof (cases events)
  case (Cons a es)
  then have "e = fold (\<lambda>x found. if xe_observed found < xe_observed x then x else found) es a" "x \<in> insert a (set es)"
    using assms by (simp_all add: newest_def)
  then show ?thesis using fold_newest_max by blast
qed (use assms in simp)

lemma recent_newest:
  assumes "within_window key observed_at events"
  shows "recent observed_at CONFIRMATION_WINDOW (map_option xe_observed (newest (filter (\<lambda>e. xe_key e = key) events)))"
proof -
  obtain e where e: "e \<in> set events" "xe_key e = key" "observed_at - xe_observed e \<le> CONFIRMATION_WINDOW"
    using assms by (auto simp: within_window_def list_ex_iff)
  then have mem: "e \<in> set (filter (\<lambda>e. xe_key e = key) events)" by simp
  then have "filter (\<lambda>e. xe_key e = key) events \<noteq> []" by (metis list.distinct(1) list.set_cases)
  then have "newest (filter (\<lambda>e. xe_key e = key) events) \<noteq> None" unfolding newest_cases(1) .
  then obtain n where "newest (filter (\<lambda>e. xe_key e = key) events) = Some n" unfolding not_None_eq by blast
  with newest_max [OF this mem] e(3) show ?thesis by (simp add: recent_def)
qed

text \<open>The states of a basket are the states its names would read on their own.\<close>

lemma batch_state:
  assumes "(symbol, keys) \<in> set (nonempty_keys wanted)" "distinct (map fst wanted)"
  shows "map_of (load_intraday_signal_event_states wanted session_start events) symbol
    = Some (load_intraday_signal_event_state keys symbol session_start events)"
proof -
  have "distinct (map fst (nonempty_keys wanted))"
    using assms(2) by (simp add: nonempty_keys_def distinct_map_filter comp_def case_prod_beta)
  then have at_symbol: "map_of (nonempty_keys wanted) symbol = Some keys" using assms(1) by simp
  have some: "keys \<noteq> []" "filter (\<lambda>k. k \<noteq> []) keys = keys" using assms(1) by (auto simp: nonempty_keys_def filter_id_conv)
  have known: "k \<in> set (concat (map snd (nonempty_keys wanted)))" if "k \<in> set keys" for k using assms(1) that by force
  have listed: "symbol \<in> set (map fst (nonempty_keys wanted))" using assms(1) by force
  have "map_of (map (\<lambda>(s, ks). (s, g s ks)) xs) symbol = map_option (g symbol) (map_of xs symbol)" for g :: "string \<Rightarrow> string list \<Rightarrow> event_state" and xs
    by (induction xs) auto
  then show ?thesis
    unfolding load_intraday_signal_event_states_def load_intraday_signal_event_state_def Let_def
    using at_symbol some known listed by (auto simp: fun_eq_iff)
qed

text \<open>What a scan of one signal knows.\<close>

definition newest_alert :: "string \<Rightarrow> instant \<Rightarrow> scan_event list \<Rightarrow> scan_event option" where
  "newest_alert key session_start events =
     newest (filter (\<lambda>e. xe_key e = key \<and> xe_state e = ''alerted'' \<and> session_start \<le> xe_observed e) events)"

lemma load_one:
  assumes "key \<noteq> []"
  shows "es_latest (load_intraday_signal_event_state [key] symbol session_start events) key
      = map_option xe_observed (newest (filter (\<lambda>e. xe_key e = key) events))"
    "es_alerted (load_intraday_signal_event_state [key] symbol session_start events) key
      = map_option as_alert (newest_alert key session_start events)"
    "es_watch (load_intraday_signal_event_state [key] symbol session_start events) = map_option xe_observed
      (newest (filter (\<lambda>e. xe_symbol e = symbol \<and> xe_type e = ''watch'' \<and> xe_state e = ''alerted'') events))"
  using assms by (simp_all add: load_intraday_signal_event_state_def newest_alert_def Let_def)

lemma commit_one: "commit_scan session_start [(c, signals)] t
    = persist_generated_signals c (load_intraday_signal_event_state (map rs_key signals) (sc_symbol c) session_start (sx_events t)) signals t"
proof -
  let ?wanted = "signal_keys_by_symbol [(c, signals)]"
  let ?states = "load_intraday_signal_event_states ?wanted session_start (sx_events t)"
  let ?own = "load_intraday_signal_event_state (map rs_key signals) (sc_symbol c) session_start (sx_events t)"
  have "row_state ?states session_start (c, signals) (sx_events t) = ?own"
  proof (cases "signals \<noteq> [] \<and> sc_symbol c \<noteq> [] \<and> filter (\<lambda>k. k \<noteq> []) (map rs_key signals) \<noteq> []")
    case True
    then have "nonempty_keys ?wanted = [(sc_symbol c, filter (\<lambda>k. k \<noteq> []) (map rs_key signals))]" "distinct (map fst ?wanted)"
      by (simp_all add: signal_keys_by_symbol_def nonempty_keys_def)
    with batch_state [of "sc_symbol c" _ ?wanted session_start "sx_events t"] show ?thesis
      by (simp add: row_state_def load_intraday_signal_event_state_def)
  next
    case False
    then have "nonempty_keys ?wanted = []" by (auto simp: signal_keys_by_symbol_def nonempty_keys_def)
    then show ?thesis by (simp add: row_state_def load_intraday_signal_event_states_def)
  qed
  then show ?thesis by (simp add: commit_scan_def split: sum.splits prod.splits)
qed

lemma scan_one:
  "commit_scan session_start [(c, [s])] t = Inr ([(event_id, state)], t')
    \<Longrightarrow> state = scan_state c (load_intraday_signal_event_state [rs_key s] (sc_symbol c) session_start (sx_events t)) s"
  unfolding commit_one by (auto simp: persist_signal_def Let_def split: sum.splits prod.splits)

text \<open>Nothing of a scan fails on the names of the instrument table and the types of the event table.\<close>

definition storable :: "scan_signal \<Rightarrow> bool" where
  "storable s = (rs_type s \<in> set EVENT_TYPES \<and> rs_severity s \<in> set EVENT_SEVERITIES)"

definition storable_row :: "string list \<Rightarrow> scan_row \<Rightarrow> bool" where
  "storable_row instruments row =
     (sc_symbol (fst row) \<noteq> [] \<and> sc_symbol (fst row) \<in> set instruments \<and> list_all storable (snd row))"

lemma gate_weight: "0 \<le> rd_weight (scan_gate c s) \<and> rd_weight (scan_gate c s) \<le> 1"
proof -
  have "0 \<le> rl_max_weight house_risk_limits \<and> rl_max_weight house_risk_limits \<le> 1" by code_simp
  then show ?thesis by (simp add: scan_gate_def paper_risk_gate_def Let_def)
qed

lemma episode_total:
  assumes "sc_symbol c \<noteq> []"
  shows "\<exists>link t1. scan_episode c s state t = Inr (link, t1) \<and> sx_ledger t1 = sx_ledger t"
proof -
  have "str_or (Some (sc_symbol c)) x = sc_symbol c" for x using assms by (simp add: str_or_def)
  then show ?thesis using assms
    by (auto simp: scan_episode_def ensure_signal_episode_def Let_def split: option.splits)
qed

lemma persist_signal_total:
  assumes "sc_symbol c \<noteq> []" "sc_symbol c \<in> set (ld_instruments (sx_ledger t))" "storable s"
  shows "\<exists>event_id t'. persist_signal c es s t = Inr ((event_id, scan_state c es s), t')
    \<and> ld_instruments (sx_ledger t') = ld_instruments (sx_ledger t)"
proof -
  let ?state = "scan_state c es s"
  obtain link t1 where a: "scan_episode c s ?state t = Inr (link, t1)" "sx_ledger t1 = sx_ledger t" using episode_total [OF assms(1)] by blast
  obtain event_id t2 where b: "insert_event c s ?state link t1 = Inr (event_id, t2)"
    using assms(2,3) by (simp add: insert_event_def storable_def Let_def a(2))
  then have l2: "ld_instruments (sx_ledger t2) = ld_instruments (sx_ledger t)" "event_id \<in> set (map ev_id (ld_events (sx_ledger t2)))"
    by (auto simp: insert_event_def Let_def a(2) split: if_split_asm)
  have p: "py_symbol (scan_payload c s x) = sc_symbol c" "py_target_quantity (scan_payload c s x) = 0"
    "py_target_weight (scan_payload c s x) = rd_weight (scan_gate c s)" for x
    by (simp_all add: scan_payload_def paper_decision_payload_def Let_def)
  have "\<exists>t3. propose c s ?state event_id t2 = Inr t3 \<and> ld_instruments (sx_ledger t3) = ld_instruments (sx_ledger t2)"
    using gate_weight [of c s] assms(2) l2 by (auto simp: propose_def persist_paper_decision_def p not_less)
  then show ?thesis using a(1) b l2(1) by (auto simp: persist_signal_def Let_def)
qed

lemma persist_generated_total:
  assumes "sc_symbol c \<noteq> []" "sc_symbol c \<in> set (ld_instruments (sx_ledger t))" "list_all storable signals"
  shows "\<exists>xs t'. persist_generated_signals c es signals t = Inr (xs, t') \<and> length xs = length signals
    \<and> ld_instruments (sx_ledger t') = ld_instruments (sx_ledger t)"
  using assms
proof (induction signals arbitrary: es t)
  case (Cons s signals)
  have "storable s" using Cons.prems(3) by simp
  from persist_signal_total [OF Cons.prems(1,2) this] obtain event_id t1 where
    a: "persist_signal c es s t = Inr ((event_id, scan_state c es s), t1)" "ld_instruments (sx_ledger t1) = ld_instruments (sx_ledger t)" by blast
  have "\<exists>xs t'. persist_generated_signals c (noted c s es) signals t1 = Inr (xs, t') \<and> length xs = length signals
    \<and> ld_instruments (sx_ledger t') = ld_instruments (sx_ledger t1)"
    by (rule Cons.IH) (use Cons.prems a(2) in simp_all)
  then show ?case using a by auto
qed simp

lemma commit_rows_total:
  assumes "list_all (storable_row (ld_instruments (sx_ledger t))) rows"
  shows "\<exists>xs t'. commit_rows states session_start rows t = Inr (xs, t') \<and> length xs = length (concat (map snd rows))"
  using assms
proof (induction rows arbitrary: t)
  case (Cons row rows)
  have ok: "sc_symbol (fst row) \<noteq> []" "sc_symbol (fst row) \<in> set (ld_instruments (sx_ledger t))" "list_all storable (snd row)"
    using Cons.prems by (simp_all add: storable_row_def)
  from persist_generated_total [OF ok] obtain xs t1 where
    a: "persist_generated_signals (fst row) (row_state states session_start row (sx_events t)) (snd row) t = Inr (xs, t1)"
    "length xs = length (snd row)" "ld_instruments (sx_ledger t1) = ld_instruments (sx_ledger t)" by blast
  obtain ys t2 where "commit_rows states session_start rows t1 = Inr (ys, t2)" "length ys = length (concat (map snd rows))"
    using Cons.IH [of t1] Cons.prems unfolding a(3) list.pred_inject(2) by blast
  then show ?case using a by simp
qed simp

lemma commit_one_total:
  assumes "storable_row (ld_instruments (sx_ledger t)) (c, [s])"
  shows "\<exists>event_id state t'. commit_scan session_start [(c, [s])] t = Inr ([(event_id, state)], t')"
proof -
  let ?es = "load_intraday_signal_event_state (map rs_key [s]) (sc_symbol c) session_start (sx_events t)"
  have "sc_symbol c \<noteq> []" "sc_symbol c \<in> set (ld_instruments (sx_ledger t))" "storable s"
    using assms by (simp_all add: storable_row_def)
  from persist_signal_total [OF this] obtain event_id t' where "persist_signal c ?es s t = Inr ((event_id, scan_state c ?es s), t')" by blast
  then show ?thesis unfolding commit_one by simp
qed

section \<open>Examples\<close>

definition example_context :: "instant \<Rightarrow> scan_context" where
  "example_context t =
     \<lparr>sc_observed = t, sc_clock = t, sc_symbol = ''600000.SH'',
      sc_watch = \<lparr>pw_symbol = Some ''600000.SH'', pw_available = 0, pw_has_entry = False\<rparr>,
      sc_quote = Some example_gate_args,
      sc_factors = \<lparr>pf_status = Some ''available'', pf_constraints = \<lparr>tc_suspended = False, tc_limit_up = None,
        tc_limit_down = None, tc_is_st = None, tc_limit_day = None\<rparr>\<rparr>,
      sc_market = \<lparr>pm_status = Some ''available'', pm_state = Some ''neutral'', pm_board_age = CNull\<rparr>,
      sc_mismatch = False, sc_weight = CNull, sc_snapshot = example_snapshot, sc_sectors = [], sc_digest = (\<lambda>p. [])\<rparr>"

definition example_exit :: "bool \<Rightarrow> scan_signal" where
  "example_exit hard = of_rule ((new_signal ''600000.SH'' ''stop'' ''exit'' ''critical'' 90 empty_conditions None [])\<lparr>rs_hard := hard\<rparr>)"

definition example_tables :: scan_tables where
  "example_tables = committed (empty_tables [''600000.SH''])
     (commit_scan 0 [(example_context 0, [example_exit True])] (empty_tables [''600000.SH'']))"

definition example_alerted :: scan_tables where
  "example_alerted = mark_event_alerted 0 example_tables"

lemma example_scan: "\<exists>t'. commit_scan 0 [(example_context 0, [example_exit True])] (empty_tables [''600000.SH'']) = Inr ([(0, ''confirmed'')], t')"
proof -
  have "(case commit_scan 0 [(example_context 0, [example_exit True])] (empty_tables [''600000.SH'']) of
      Inl e \<Rightarrow> False | Inr (xs, t') \<Rightarrow> xs = [(0, ''confirmed'')])" by code_simp
  then show ?thesis by (auto split: sum.splits prod.splits)
qed

lemma example_tables_reachable: "scan_reachable example_tables"
  unfolding example_tables_def by (rule scan_reachable.step [OF scan_reachable.start scan_step.scan])

lemma example_rows: "map (\<lambda>e. (xe_id e, xe_key e, xe_state e)) (sx_events example_tables) = [(0, ''600000.SH:exit:stop'', ''confirmed'')]"
  by code_simp

lemma example_key: "rs_key (example_exit hard) = ''600000.SH:exit:stop''"
  by (simp add: example_exit_def of_rule_def new_signal_def rule_signal.defs)

lemma example_storable:
  "storable_row (ld_instruments (sx_ledger example_tables)) (example_context t, [example_exit hard])"
  "storable_row (ld_instruments (sx_ledger example_alerted)) (example_context t, [example_exit hard])"
proof -
  have "ld_instruments (sx_ledger example_tables) = [''600000.SH'']" by code_simp
  moreover have "storable (example_exit hard)"
    by (simp add: example_exit_def of_rule_def new_signal_def rule_signal.defs storable_def EVENT_TYPES_def EVENT_SEVERITIES_def)
  ultimately show "storable_row (ld_instruments (sx_ledger example_tables)) (example_context t, [example_exit hard])"
    "storable_row (ld_instruments (sx_ledger example_alerted)) (example_context t, [example_exit hard])"
    by (simp_all add: storable_row_def example_context_def example_alerted_def mark_event_alerted_def)
qed

section \<open>Properties\<close>

text \<open>
  C9. Whatever the scans, deliveries and clearings of a day do one after the other, the tables agree:
  event ids are unique, every event has a type, severity and state the table allows, every event except
  an issue of the data belongs to a stored episode, a key has at most one active episode, and exactly
  the events that were confirmed, alerted or not, have a paper decision, each of them one.
\<close>

theorem scan_tables_consistent:
  assumes "scan_reachable t"
  shows "distinct (map xe_id (sx_events t)) \<and> episodes_ok (sx_episodes t)
    \<and> list_all (event_ok (ep_id ` set (sx_episodes t))) (sx_events t)
    \<and> distinct (map dc_event (ld_decisions (sx_ledger t)))
    \<and> dc_event ` set (ld_decisions (sx_ledger t)) = xe_id ` set (filter proposed_event (sx_events t))"
  using scan_reachable_ok [OF assms] unfolding scan_ok_def list_all_iff by blast

lemma scan_tables_consistent_witness:
  "distinct (map xe_id (sx_events example_tables)) \<and> map xe_id (sx_events example_tables) = [0]
    \<and> dc_event ` set (ld_decisions (sx_ledger example_tables)) = xe_id ` set (filter proposed_event (sx_events example_tables))"
proof -
  have "map xe_id (sx_events example_tables) = [0]" by code_simp
  then show ?thesis using scan_tables_consistent [OF example_tables_reachable] by blast
qed

text \<open>
  C12. A confirmation needs a second look. An event that a scan confirms comes from a signal the policy
  gate allows, that is not a shadow signal, and whose prices agree across sources unless a teacher asked
  for it; and the signal is a hard stop, independently confirmed, meant for its first observation, or
  its key was already stored by another event in the five minutes before.
\<close>

theorem confirmation_justified:
  assumes "scan_reachable t" "commit_scan session_start rows t = Inr (xs, t')"
    and e: "e \<in> set (sx_events t')" "e \<notin> set (sx_events t)" "xe_state e = ''confirmed''"
  shows "\<exists>(c, signals) \<in> set rows. \<exists>s \<in> set signals. rs_key s = xe_key e \<and> sc_symbol c = xe_symbol e
    \<and> \<not> ss_shadow s \<and> pv_allow (scan_policy c s) \<and> (sc_mismatch c \<longrightarrow> ss_profile s = Some ''teacher_review'')
    \<and> (rs_hard s \<or> rs_independent s \<or> rs_first s
       \<or> (\<exists>e' \<in> set (sx_events t'). e' \<noteq> e \<and> xe_key e' = xe_key e \<and> xe_observed e - xe_observed e' \<le> 5 * us_minute))"
proof -
  obtain new where ok: "scan_ok t'" and new: "sx_events t' = sx_events t @ new" "written rows (sx_events t) new"
    using commit_scan_ok [OF assms(2) scan_reachable_ok [OF assms(1)]] by blast
  then have "e \<in> set new" using e by simp
  from written_in [OF new(2) this] obtain ys zs where s: "new = ys @ e # zs" and w: "written_event rows (sx_events t @ ys) e" by blast
  have "distinct (sx_events t')" using ok by (simp add: scan_ok_def distinct_map)
  then have other: "e' \<noteq> e" if "e' \<in> set (sx_events t @ ys)" for e' using that by (auto simp: new(1) s)
  obtain c signals sig where row: "(c, signals) \<in> set rows" "sig \<in> set signals" "xe_key e = rs_key sig" "sc_symbol c = xe_symbol e"
    "xe_observed e = sc_observed c" and j: "justified c sig (sx_events t @ ys)"
    using w e(3) unfolding written_event_def by auto
  have "\<exists>e' \<in> set (sx_events t'). e' \<noteq> e \<and> xe_key e' = xe_key e \<and> xe_observed e - xe_observed e' \<le> 5 * us_minute"
    if near: "within_window (rs_key sig) (sc_observed c) (sx_events t @ ys)"
  proof -
    obtain e' where e': "e' \<in> set (sx_events t @ ys)" "xe_key e' = rs_key sig" "sc_observed c - xe_observed e' \<le> CONFIRMATION_WINDOW"
      using near unfolding within_window_def list_ex_iff by blast
    then have "e' \<in> set (sx_events t')" by (auto simp: new(1) s)
    with e' other [OF e'(1)] row show ?thesis by (auto simp: CONFIRMATION_WINDOW_def)
  qed
  then have "rs_hard sig \<or> rs_independent sig \<or> rs_first sig
      \<or> (\<exists>e' \<in> set (sx_events t'). e' \<noteq> e \<and> xe_key e' = xe_key e \<and> xe_observed e - xe_observed e' \<le> 5 * us_minute)"
    using j unfolding justified_def by blast
  then have "rs_key sig = xe_key e \<and> sc_symbol c = xe_symbol e
    \<and> \<not> ss_shadow sig \<and> pv_allow (scan_policy c sig) \<and> (sc_mismatch c \<longrightarrow> ss_profile sig = Some ''teacher_review'')
    \<and> (rs_hard sig \<or> rs_independent sig \<or> rs_first sig
       \<or> (\<exists>e' \<in> set (sx_events t'). e' \<noteq> e \<and> xe_key e' = xe_key e \<and> xe_observed e - xe_observed e' \<le> 5 * us_minute))"
    using j row(3) [symmetric] row(4) unfolding justified_def by (intro conjI) simp_all
  then show ?thesis using row(1,2) by (intro bexI [OF _ row(1)]) auto
qed

lemma confirmation_justified_witness:
  "\<exists>s \<in> {example_exit True}. rs_key s = ''600000.SH:exit:stop'' \<and> \<not> ss_shadow s \<and> pv_allow (scan_policy (example_context 0) s)"
proof -
  obtain t' where t': "commit_scan 0 [(example_context 0, [example_exit True])] (empty_tables [''600000.SH'']) = Inr ([(0, ''confirmed'')], t')"
    using example_scan by blast
  then have "t' = example_tables" by (simp add: example_tables_def committed_def)
  then obtain e where e: "e \<in> set (sx_events t')" "xe_key e = ''600000.SH:exit:stop''" "xe_state e = ''confirmed''"
    using example_rows by (cases "sx_events example_tables") auto
  have "e \<notin> set (sx_events (empty_tables [''600000.SH'']))" by (simp add: empty_tables_def)
  from confirmation_justified [OF scan_reachable.start t' e(1) this e(3)] e(2) show ?thesis by auto
qed

text \<open>
  Reading the event states of a whole basket at once changes nothing: each name whose signals have
  keys gets exactly the state its own three reads would give.
\<close>

theorem batch_states_agree:
  assumes "distinct (map fst wanted)" "(symbol, keys) \<in> set wanted" "symbol \<noteq> []" "filter (\<lambda>k. k \<noteq> []) keys \<noteq> []"
  shows "map_of (load_intraday_signal_event_states wanted session_start events) symbol
    = Some (load_intraday_signal_event_state keys symbol session_start events)"
proof -
  have "(symbol, filter (\<lambda>k. k \<noteq> []) keys) \<in> set (nonempty_keys wanted)" using assms(2-4) by (force simp: nonempty_keys_def)
  from batch_state [OF this assms(1)] show ?thesis by (simp add: load_intraday_signal_event_state_def)
qed

lemma batch_states_agree_witness:
  "map_of (load_intraday_signal_event_states [(''600000.SH'', [''a'', []]), (''000001.SZ'', [''b''])] 0 []) ''600000.SH''
    = Some (load_intraday_signal_event_state [''a'', []] ''600000.SH'' 0 [])"
  by (rule batch_states_agree) simp_all





text \<open>
  But only a delivered alert counts. While no alert of a key has been delivered in this session,
  every further scan within five minutes confirms the key again, and each of these events gets an alert
  of its own: a channel that fails for a while is followed by a burst of alerts for one setup.
\<close>

theorem undelivered_alert_repeats:
  assumes "commit_scan session_start [(c, [s])] t = Inr ([(event_id, state)], t')" "rs_key s \<noteq> []"
    and "newest_alert (rs_key s) session_start (sx_events t) = None"
    and "rs_type s = ''watch'' \<Longrightarrow> filter (\<lambda>e. xe_symbol e = sc_symbol c \<and> xe_type e = ''watch'' \<and> xe_state e = ''alerted'') (sx_events t) = []"
    and "within_window (rs_key s) (sc_observed c) (sx_events t)"
    and "\<not> ss_shadow s" "pv_allow (scan_policy c s)" "\<not> sc_mismatch c"
  shows "state = ''confirmed''"
proof -
  have "\<not> symbol_watch_duplicate s (sc_observed c) (map_option xe_observed
      (newest (filter (\<lambda>e. xe_symbol e = sc_symbol c \<and> xe_type e = ''watch'' \<and> xe_state e = ''alerted'') (sx_events t))))"
    using assms(4) by (auto simp: symbol_watch_duplicate_def recent_def newest_def)
  then show ?thesis
    unfolding scan_one [OF assms(1)] scan_state_def load_one [OF assms(2)] assms(3)
    using recent_newest [OF assms(5)] assms(6-8) by (simp add: signal_event_state_def key_duplicate_def downgraded_def Let_def)
qed

lemma undelivered_alert_repeats_witness:
  "\<exists>event_id t'. commit_scan 0 [(example_context us_minute, [example_exit False])] example_tables = Inr ([(event_id, ''confirmed'')], t')"
proof -
  obtain event_id state t' where
    run: "commit_scan 0 [(example_context us_minute, [example_exit False])] example_tables = Inr ([(event_id, state)], t')"
    using commit_one_total [OF example_storable(1)] by blast
  have quiet: "newest_alert (rs_key (example_exit False)) 0 (sx_events example_tables) = None"
    unfolding example_key by code_simp
  have near: "within_window (rs_key (example_exit False)) (sc_observed (example_context us_minute)) (sx_events example_tables)"
    unfolding example_key by code_simp
  have gates: "rs_key (example_exit False) \<noteq> []" "\<not> ss_shadow (example_exit False)" "rs_type (example_exit False) \<noteq> ''watch''"
    "\<not> sc_mismatch (example_context us_minute)"
    by (simp_all add: example_key) (simp_all add: example_exit_def of_rule_def new_signal_def rule_signal.defs example_context_def)
  have allow: "pv_allow (scan_policy (example_context us_minute) (example_exit False))" by code_simp
  from undelivered_alert_repeats [OF run gates(1) quiet _ near gates(2) allow gates(4)] gates(3) run show ?thesis by blast
qed

end
