(* ===== verification/AlertOutbox.thy ===== *)
theory AlertOutbox
  imports SignalEvents
begin

text \<open>
  How a confirmed event reaches a reader: the three transports of \<open>quant-service/app/alert_transport.py\<close>
  and \<open>feishu_direct_alert.py\<close>, the outbox of \<open>intraday_alert_delivery_service.py\<close> and
  \<open>async_intraday_alert_outbox_repository.py\<close>, and the retries of \<open>main.py\<close>. What the network answers, the
  readings of the clocks, and the rows of the two other tables of the channel are arguments.
\<close>

section \<open>Transports\<close>

datatype delivery_status = DeliveryPending | DeliverySent | DeliveryFailed | DeliveryDisabled

text \<open>What a request ends with: an error before the message can have arrived, one after which it may
  have, or an answer with a good or a bad HTTP status. \<open>BodyBadCode\<close> is a \<open>code\<close> that is no number,
  \<open>BodyList\<close> a JSON value that is no object.\<close>

datatype answer_body = BodyUnreadable | BodyList | BodyBadCode | BodyCode int

datatype http_result = Unreachable | Interrupted | Answered bool answer_body

record post_outcome =
  po_status :: delivery_status
  po_ambiguous :: bool

text \<open>The one exception a transport does not catch.\<close>

datatype send_error = AttributeError

type_synonym 'a attempt = "send_error + 'a"

definition disabled :: post_outcome where
  "disabled = \<lparr>po_status = DeliveryDisabled, po_ambiguous = False\<rparr>"

definition delivery_failure :: "bool \<Rightarrow> post_outcome" where
  "delivery_failure ambiguous = \<lparr>po_status = DeliveryFailed, po_ambiguous = ambiguous\<rparr>"

definition delivered :: post_outcome where
  "delivered = \<lparr>po_status = DeliverySent, po_ambiguous = False\<rparr>"

text \<open>The answer of a Feishu route: the code of the body decides; a body without \<open>get\<close> raises.\<close>

definition feishu_answer :: "http_result \<Rightarrow> post_outcome attempt" where
  "feishu_answer r =
     (case r of
        Unreachable \<Rightarrow> Inr (delivery_failure False)
      | Interrupted \<Rightarrow> Inr (delivery_failure True)
      | Answered ok body \<Rightarrow>
          if \<not> ok then Inr (delivery_failure False)
          else (case body of
              BodyUnreadable \<Rightarrow> Inr (delivery_failure False)
            | BodyList \<Rightarrow> Inl AttributeError
            | BodyBadCode \<Rightarrow> Inr (delivery_failure False)
            | BodyCode code \<Rightarrow> Inr (if code \<noteq> 0 then delivery_failure False else delivered)))"

definition post_feishu_bot_webhook_text :: "bool \<Rightarrow> http_result \<Rightarrow> post_outcome attempt" where
  "post_feishu_bot_webhook_text configured r = (if \<not> configured then Inr disabled else feishu_answer r)"

definition post_adapter_webhook_text :: "bool \<Rightarrow> http_result \<Rightarrow> post_outcome attempt" where
  "post_adapter_webhook_text configured r =
     (if \<not> configured then Inr disabled
      else case r of
        Unreachable \<Rightarrow> Inr (delivery_failure False)
      | Interrupted \<Rightarrow> Inr (delivery_failure True)
      | Answered ok body \<Rightarrow> Inr (if ok \<and> body \<noteq> BodyUnreadable then delivered else delivery_failure False))"

text \<open>The tenant token of the application identity, cached until a minute before it expires; times are
  seconds of the event loop.\<close>

record token_cache =
  tk_app :: string
  tk_token :: string
  tk_expires :: int

datatype token_answer = TokenLost http_result | TokenBody int "string option" int

definition empty_cache :: token_cache where
  "empty_cache = \<lparr>tk_app = [], tk_token = [], tk_expires = 0\<rparr>"

definition cached_token :: "token_cache \<Rightarrow> string \<Rightarrow> int \<Rightarrow> bool" where
  "cached_token cache app now = (tk_app cache = app \<and> tk_token cache \<noteq> [] \<and> now < tk_expires cache)"

text \<open>\<open>Inl\<close> is the way the request for a token failed, as the sender sees it.\<close>

definition tenant_token :: "token_cache \<Rightarrow> string \<Rightarrow> int \<Rightarrow> token_answer \<Rightarrow> (post_outcome attempt + string) \<times> token_cache" where
  "tenant_token cache app now answer =
     (if cached_token cache app now then (Inr (tk_token cache), cache)
      else case answer of
        TokenLost r \<Rightarrow> (Inl (if r = Answered True BodyList then Inl AttributeError else Inr (delivery_failure (r = Interrupted))), cache)
      | TokenBody code token expire \<Rightarrow>
          if code \<noteq> 0 \<or> str_or token [] = [] then (Inl (Inr (delivery_failure False)), cache)
          else (Inr (str_or token []),
            \<lparr>tk_app = app, tk_token = str_or token [], tk_expires = now + max 120 (if expire = 0 then 7200 else expire) - 60\<rparr>))"

text \<open>The configuration of the direct route, as far as a send depends on it.\<close>

definition direct_feishu_alert_config :: "string option \<Rightarrow> string option \<Rightarrow> string option \<Rightarrow> string option \<Rightarrow> string option" where
  "direct_feishu_alert_config enabled app_id app_secret receive_id =
     (if py_lower (py_strip (str_or enabled ''false'')) \<notin> {''1'', ''true'', ''yes'', ''on''} then None
      else let app = py_strip (str_or app_id []) in
        if app = [] \<or> py_strip (str_or app_secret []) = [] \<or> py_strip (str_or receive_id []) = [] then None else Some app)"

definition post_direct_feishu_alert_text ::
    "string option \<Rightarrow> int \<Rightarrow> token_answer \<Rightarrow> http_result \<Rightarrow> token_cache \<Rightarrow> post_outcome attempt \<times> token_cache" where
  "post_direct_feishu_alert_text config now token r cache =
     (case config of
        None \<Rightarrow> (Inr disabled, cache)
      | Some app \<Rightarrow>
          (case tenant_token cache app now token of
             (Inl failure, cache') \<Rightarrow> (failure, cache')
           | (Inr t, cache') \<Rightarrow> (feishu_answer r, cache')))"

text \<open>The transports in their order; the first that accepts the message or leaves it unclear ends the
  attempt. The result carries what the earlier transports, and an unclear one, reported.\<close>

type_synonym transport = "token_cache \<Rightarrow> post_outcome attempt \<times> token_cache"

fun first_transport :: "transport list \<Rightarrow> post_outcome list \<Rightarrow> token_cache \<Rightarrow> (post_outcome \<times> post_outcome list) attempt \<times> token_cache" where
  "first_transport [] attempts cache =
     (Inr (if list_ex (\<lambda>o1. po_status o1 = DeliveryFailed) attempts then delivery_failure False else disabled, attempts), cache)"
| "first_transport (transport # transports) attempts cache =
     (case transport cache of
        (Inl e, cache') \<Rightarrow> (Inl e, cache')
      | (Inr outcome, cache') \<Rightarrow>
          if po_status outcome = DeliverySent then (Inr (outcome, attempts), cache')
          else if po_ambiguous outcome then (Inr (delivery_failure True, attempts @ [outcome]), cache')
          else first_transport transports (attempts @ [outcome]) cache')"

record alert_channel =
  ac_webhook :: bool
  ac_direct :: "string option"
  ac_adapter :: bool

record alert_network =
  an_webhook :: http_result
  an_token :: token_answer
  an_direct :: http_result
  an_adapter :: http_result

definition transports :: "alert_channel \<Rightarrow> alert_network \<Rightarrow> int \<Rightarrow> transport list" where
  "transports ch net now =
     [\<lambda>cache. (post_feishu_bot_webhook_text (ac_webhook ch) (an_webhook net), cache)]
     @ (if ac_direct ch \<noteq> None then [post_direct_feishu_alert_text (ac_direct ch) now (an_token net) (an_direct net)] else [])
     @ [\<lambda>cache. (post_adapter_webhook_text (ac_adapter ch) (an_adapter net), cache)]"

definition post_feishu_alert_text ::
    "alert_channel \<Rightarrow> alert_network \<Rightarrow> int \<Rightarrow> token_cache \<Rightarrow> (post_outcome \<times> post_outcome list) attempt \<times> token_cache" where
  "post_feishu_alert_text ch net now cache = first_transport (transports ch net now) [] cache"

section \<open>The outbox\<close>

record delivery =
  dl_id :: nat
  dl_event :: nat
  dl_status :: delivery_status
  dl_text :: string
  dl_attempts :: nat
  dl_next :: "instant option"
  dl_created :: instant

datatype health_type = FailureStreak | Recovered

record health_event =
  he_id :: nat
  he_type :: health_type
  he_source :: nat
  he_streak :: nat
  he_status :: "delivery_status option"

text \<open>\<open>he_status\<close> is \<^const>\<open>None\<close> for \<open>observed\<close>.\<close>

record outbox =
  ox_scan :: scan_tables
  ox_rows :: "delivery list"
  ox_health :: "health_event list"
  ox_next :: nat

definition FIRST_ATTEMPT_LEASE :: int where "FIRST_ATTEMPT_LEASE = 60 * us_second"
definition RETRY_DELAY :: int where "RETRY_DELAY = 30 * us_second"
definition INTRADAY_ALERT_MAX_ATTEMPTS :: nat where "INTRADAY_ALERT_MAX_ATTEMPTS = 3"

definition create_pending :: "instant \<Rightarrow> nat \<Rightarrow> string \<Rightarrow> outbox \<Rightarrow> ledger_error + nat \<times> outbox" where
  "create_pending now event_id text ox =
     (if event_id \<notin> set (map xe_id (sx_events (ox_scan ox))) then Inl ForeignKeyViolation
      else Inr (ox_next ox,
        ox\<lparr>ox_rows := ox_rows ox @ [\<lparr>dl_id = ox_next ox, dl_event = event_id, dl_status = DeliveryPending, dl_text = text,
             dl_attempts = 0, dl_next = Some (now + FIRST_ATTEMPT_LEASE), dl_created = now\<rparr>],
           ox_next := Suc (ox_next ox)\<rparr>))"

definition event_sent :: "delivery list \<Rightarrow> nat \<Rightarrow> bool" where
  "event_sent rows event_id = list_ex (\<lambda>d. dl_event d = event_id \<and> dl_status d = DeliverySent) rows"

definition due_delivery :: "nat \<Rightarrow> instant \<Rightarrow> delivery list \<Rightarrow> delivery \<Rightarrow> bool" where
  "due_delivery max_attempts now rows d =
     (dl_status d \<in> {DeliveryPending, DeliveryFailed} \<and> dl_text d \<noteq> [] \<and> dl_attempts d < max_attempts
      \<and> (case dl_next d of None \<Rightarrow> dl_created d | Some t \<Rightarrow> t) \<le> now \<and> \<not> event_sent rows (dl_event d))"

definition claimed_rows :: "instant \<Rightarrow> nat \<Rightarrow> int \<Rightarrow> delivery list \<Rightarrow> delivery list" where
  "claimed_rows now max_attempts limit rows =
     take (nat (max 1 (min limit 10))) (sort_key dl_created (filter (due_delivery max_attempts now rows) rows))"

definition lease_row :: "instant \<Rightarrow> delivery \<Rightarrow> delivery" where
  "lease_row now d = d\<lparr>dl_next := Some (now + FIRST_ATTEMPT_LEASE)\<rparr>"

definition due_deliveries :: "instant \<Rightarrow> nat \<Rightarrow> int \<Rightarrow> outbox \<Rightarrow> delivery list \<times> outbox" where
  "due_deliveries now max_attempts limit ox =
     (let claimed = claimed_rows now max_attempts limit (ox_rows ox) in
      (claimed, ox\<lparr>ox_rows := map (\<lambda>d. if dl_id d \<in> dl_id ` set claimed then lease_row now d else d) (ox_rows ox)\<rparr>))"

text \<open>The latest twenty statuses of the channel, newest first, and the failures at their head.\<close>

definition channel_history :: "nat \<Rightarrow> (delivery_status \<times> instant) list \<Rightarrow> delivery list \<Rightarrow> delivery_status list" where
  "channel_history delivery_id others rows =
     take 20 (map fst (sort_key (\<lambda>(status, t). - t)
       (map (\<lambda>d. (dl_status d, dl_created d)) (filter (\<lambda>d. dl_id d \<noteq> delivery_id) rows) @ others)))"

fun failed_streak :: "delivery_status list \<Rightarrow> nat" where
  "failed_streak [] = 0"
| "failed_streak (status # history) =
     (case status of DeliveryPending \<Rightarrow> failed_streak history | DeliveryFailed \<Rightarrow> Suc (failed_streak history) | _ \<Rightarrow> 0)"

definition attempted_row :: "instant \<Rightarrow> nat \<Rightarrow> delivery_status \<Rightarrow> delivery \<Rightarrow> delivery" where
  "attempted_row now max_attempts outcome d =
     d\<lparr>dl_status := outcome, dl_attempts := Suc (dl_attempts d),
       dl_next := (if outcome = DeliveryFailed \<and> Suc (dl_attempts d) < max_attempts then Some (now + RETRY_DELAY) else None)\<rparr>"

definition add_health :: "health_type \<Rightarrow> nat \<Rightarrow> nat \<Rightarrow> delivery_status option \<Rightarrow> outbox \<Rightarrow> health_event option \<times> outbox" where
  "add_health kind source streak status ox =
     (if list_ex (\<lambda>h. he_type h = kind \<and> he_source h = source) (ox_health ox) then (None, ox)
      else let h = \<lparr>he_id = ox_next ox, he_type = kind, he_source = source, he_streak = streak, he_status = status\<rparr> in
        (Some h, ox\<lparr>ox_health := ox_health ox @ [h], ox_next := Suc (ox_next ox)\<rparr>))"

definition persist_delivery_attempt ::
    "instant \<Rightarrow> nat \<Rightarrow> (delivery_status \<times> instant) list \<Rightarrow> nat \<Rightarrow> nat \<Rightarrow> delivery_status \<Rightarrow> outbox \<Rightarrow> health_event option \<times> outbox" where
  "persist_delivery_attempt now max_attempts others delivery_id event_id outcome ox =
     (let streak = failed_streak (channel_history delivery_id others (ox_rows ox));
          ox1 = ox\<lparr>ox_rows := map (\<lambda>d. if dl_id d = delivery_id then attempted_row now max_attempts outcome d else d) (ox_rows ox),
                   ox_scan := (if outcome = DeliverySent then mark_event_alerted event_id (ox_scan ox) else ox_scan ox)\<rparr>
      in if outcome = DeliveryFailed \<and> streak + 1 = 3 then add_health FailureStreak delivery_id (streak + 1) None ox1
         else if outcome = DeliverySent \<and> 3 \<le> streak then add_health Recovered delivery_id streak (Some DeliveryPending) ox1
         else (None, ox1))"

definition persist_health_event_attempt :: "nat \<Rightarrow> delivery_status \<Rightarrow> outbox \<Rightarrow> outbox" where
  "persist_health_event_attempt health_id outcome ox =
     ox\<lparr>ox_health := map (\<lambda>h. if he_id h = health_id then h\<lparr>he_status := Some outcome\<rparr> else h) (ox_health ox)\<rparr>"

text \<open>An attempt: what the transports answered for the alert and, where a recovery is reported, for that
  report. An exception of the first leaves the tables alone.\<close>

definition attempt_delivery ::
    "instant \<Rightarrow> nat \<Rightarrow> (delivery_status \<times> instant) list \<Rightarrow> nat \<Rightarrow> nat \<Rightarrow> post_outcome attempt \<Rightarrow> post_outcome attempt \<Rightarrow> outbox \<Rightarrow> post_outcome attempt \<times> outbox" where
  "attempt_delivery now max_attempts others delivery_id event_id posted reported ox =
     (case posted of
        Inl e \<Rightarrow> (Inl e, ox)
      | Inr outcome \<Rightarrow>
          (case persist_delivery_attempt now max_attempts others delivery_id event_id (po_status outcome) ox of
             (None, ox1) \<Rightarrow> (Inr outcome, ox1)
           | (Some h, ox1) \<Rightarrow>
               if he_type h \<noteq> Recovered then (Inr outcome, ox1)
               else (case reported of
                   Inl e \<Rightarrow> (Inl e, ox1)
                 | Inr report \<Rightarrow> (Inr outcome, persist_health_event_attempt (he_id h) (po_status report) ox1))))"

section \<open>The transports\<close>

lemma feishu_answer_cases: "feishu_answer r = Inr o1 \<Longrightarrow> o1 \<in> {delivered, delivery_failure False, delivery_failure True}"
  by (auto simp: feishu_answer_def split: http_result.splits answer_body.splits if_split_asm)

lemma outcome_simps [simp]:
  "po_status disabled = DeliveryDisabled" "po_status delivered = DeliverySent" "po_status (delivery_failure b) = DeliveryFailed"
  "\<not> po_ambiguous disabled" "\<not> po_ambiguous delivered" "po_ambiguous (delivery_failure b) = b"
  by (simp_all add: disabled_def delivered_def delivery_failure_def)

lemma transport_status:
  assumes "transport \<in> set (transports ch net now)" "transport cache = (Inr o1, cache')"
  shows "po_status o1 \<noteq> DeliveryPending \<and> (po_ambiguous o1 \<longrightarrow> po_status o1 = DeliveryFailed)"
  using assms feishu_answer_cases [of _ o1]
  by (fastforce simp: transports_def post_feishu_bot_webhook_text_def post_adapter_webhook_text_def post_direct_feishu_alert_text_def
      tenant_token_def Let_def split: if_split_asm option.splits http_result.splits sum.splits token_answer.splits prod.splits)

text \<open>At most one transport accepted the message or left it unclear.\<close>

definition risky :: "post_outcome \<Rightarrow> bool" where
  "risky o1 = (po_status o1 = DeliverySent \<or> po_ambiguous o1)"

definition tried :: "post_outcome \<times> post_outcome list \<Rightarrow> post_outcome list" where
  "tried answer = snd answer @ (if po_status (fst answer) = DeliverySent then [fst answer] else [])"

lemma first_transport_spec:
  assumes "first_transport ts attempts cache = (Inr answer, cache')"
    and "\<And>transport c o1 c'. transport \<in> set ts \<Longrightarrow> transport c = (Inr o1, c')
      \<Longrightarrow> po_status o1 \<noteq> DeliveryPending \<and> (po_ambiguous o1 \<longrightarrow> po_status o1 = DeliveryFailed)"
    and "list_all (\<lambda>o1. \<not> risky o1 \<and> po_status o1 \<noteq> DeliveryPending) attempts"
  shows "length (filter risky (tried answer)) \<le> 1
    \<and> po_status (fst answer) = (if list_ex (\<lambda>o1. po_status o1 = DeliverySent) (tried answer) then DeliverySent
        else if list_ex (\<lambda>o1. po_status o1 = DeliveryFailed) (tried answer) then DeliveryFailed else DeliveryDisabled)
    \<and> (po_ambiguous (fst answer) \<longleftrightarrow> list_ex po_ambiguous (tried answer))"
  using assms
proof (induction ts arbitrary: attempts cache)
  case Nil
  have none: "filter risky attempts = []" "\<not> list_ex (\<lambda>o1. po_status o1 = DeliverySent) attempts" "\<not> list_ex po_ambiguous attempts"
    using Nil.prems(3) by (auto simp: list_all_iff list_ex_iff filter_empty_conv risky_def)
  show ?case using Nil.prems(1) none by (auto simp: tried_def)
next
  case (Cons transport ts)
  obtain r c1 where r: "transport cache = (r, c1)" by (cases "transport cache")
  then obtain o1 where o1: "r = Inr o1" using Cons.prems(1) by (cases r) auto
  have status: "po_status o1 \<noteq> DeliveryPending" "po_ambiguous o1 \<Longrightarrow> po_status o1 = DeliveryFailed"
    using Cons.prems(2) [of transport cache o1 c1] r o1 by auto
  have none: "filter risky attempts = []" "\<not> list_ex (\<lambda>o1. po_status o1 = DeliverySent) attempts" "\<not> list_ex po_ambiguous attempts"
    using Cons.prems(3) by (auto simp: list_all_iff list_ex_iff filter_empty_conv risky_def)
  consider (sent) "po_status o1 = DeliverySent" | (unclear) "po_status o1 \<noteq> DeliverySent" "po_ambiguous o1"
    | (next_one) "po_status o1 \<noteq> DeliverySent" "\<not> po_ambiguous o1" by blast
  then show ?case
  proof cases
    case sent
    then have "answer = (o1, attempts)" using Cons.prems(1) r o1 by simp
    moreover have "\<not> po_ambiguous o1" "risky o1" using sent status(2) by (auto simp: risky_def)
    ultimately show ?thesis using none sent by (simp add: tried_def)
  next
    case unclear
    then have "answer = (delivery_failure True, attempts @ [o1])" using Cons.prems(1) r o1 by simp
    moreover have "risky o1" "risky o1 \<Longrightarrow> filter risky [o1] = [o1]" using unclear by (simp_all add: risky_def)
    ultimately show ?thesis using none unclear status(2) by (simp add: tried_def)
  next
    case next_one
    have "first_transport ts (attempts @ [o1]) c1 = (Inr answer, cache')" using Cons.prems(1) r o1 next_one by simp
    then show ?thesis
    proof (rule Cons.IH)
      show "list_all (\<lambda>o1. \<not> risky o1 \<and> po_status o1 \<noteq> DeliveryPending) (attempts @ [o1])"
        using Cons.prems(3) next_one status(1) by (simp add: risky_def)
    qed (use Cons.prems(2) in auto)
  qed
qed

lemma post_status:
  assumes "post_feishu_alert_text ch net now cache = (Inr answer, cache')"
  shows "po_status (fst answer) \<noteq> DeliveryPending"
proof -
  have "po_status (fst answer) = (if list_ex (\<lambda>o1. po_status o1 = DeliverySent) (tried answer) then DeliverySent
        else if list_ex (\<lambda>o1. po_status o1 = DeliveryFailed) (tried answer) then DeliveryFailed else DeliveryDisabled)"
    using first_transport_spec [OF assms [unfolded post_feishu_alert_text_def] transport_status] by simp
  then show ?thesis by simp
qed

section \<open>The processes that send\<close>

text \<open>
  A process that was given a row sends it and reports within the lease of the row, or is lost; \<open>al_flights\<close>
  are the rows in the hands of a process with the end of their leases. Scans and clearings go on beside.
\<close>

record alert_system =
  al_box :: outbox
  al_flights :: "(nat \<times> instant) list"
  al_now :: instant

definition in_time :: "instant \<Rightarrow> alert_system \<Rightarrow> bool" where
  "in_time now s = (al_now s \<le> now \<and> list_all (\<lambda>(i, deadline). now < deadline) (al_flights s))"

definition drop_flight :: "nat \<Rightarrow> (nat \<times> instant) list \<Rightarrow> (nat \<times> instant) list" where
  "drop_flight i flights = filter (\<lambda>(j, deadline). j \<noteq> i) flights"

definition posted_by :: "(post_outcome \<times> post_outcome list) attempt \<Rightarrow> post_outcome attempt" where
  "posted_by answer = (case answer of Inl e \<Rightarrow> Inl e | Inr a \<Rightarrow> Inr (fst a))"

inductive alert_step :: "alert_system \<Rightarrow> alert_system \<Rightarrow> bool" where
  scan: "in_time now s
    \<Longrightarrow> alert_step s (s\<lparr>al_box := (al_box s)\<lparr>ox_scan := committed (ox_scan (al_box s)) (commit_scan session_start rows (ox_scan (al_box s)))\<rparr>,
          al_now := now\<rparr>)"
| deliver: "in_time now s \<Longrightarrow> e \<in> set (sx_events (ox_scan (al_box s))) \<Longrightarrow> xe_state e = ''confirmed''
    \<Longrightarrow> create_pending now (xe_id e) text (al_box s) = Inr (i, box)
    \<Longrightarrow> alert_step s (s\<lparr>al_box := box, al_flights := al_flights s @ [(i, now + FIRST_ATTEMPT_LEASE)], al_now := now\<rparr>)"
| retry: "in_time now s \<Longrightarrow> due_deliveries now INTRADAY_ALERT_MAX_ATTEMPTS limit (al_box s) = (rows, box)
    \<Longrightarrow> alert_step s (s\<lparr>al_box := box, al_flights := al_flights s @ map (\<lambda>d. (dl_id d, now + FIRST_ATTEMPT_LEASE)) rows, al_now := now\<rparr>)"
| finish: "in_time now s \<Longrightarrow> (dl_id d, deadline) \<in> set (al_flights s) \<Longrightarrow> d \<in> set (ox_rows (al_box s))
    \<Longrightarrow> attempt_delivery now INTRADAY_ALERT_MAX_ATTEMPTS others (dl_id d) (dl_event d)
          (posted_by (fst (post_feishu_alert_text ch net clock cache))) reported (al_box s) = (answer, box)
    \<Longrightarrow> alert_step s (s\<lparr>al_box := box, al_flights := drop_flight (dl_id d) (al_flights s), al_now := now\<rparr>)"
| lost: "alert_step s (s\<lparr>al_flights := drop_flight i (al_flights s)\<rparr>)"

definition idle_system :: "scan_tables \<Rightarrow> instant \<Rightarrow> alert_system" where
  "idle_system t now = \<lparr>al_box = \<lparr>ox_scan = t, ox_rows = [], ox_health = [], ox_next = 0\<rparr>, al_flights = [], al_now = now\<rparr>"

inductive alert_reachable :: "alert_system \<Rightarrow> bool" where
  start: "alert_reachable (idle_system (empty_tables instruments) now)"
| step: "alert_reachable s \<Longrightarrow> alert_step s s' \<Longrightarrow> alert_reachable s'"

text \<open>A row, the events it belongs to, and the flights.\<close>

definition row_ok :: "instant \<Rightarrow> delivery \<Rightarrow> bool" where
  "row_ok now d =
     (dl_attempts d \<le> INTRADAY_ALERT_MAX_ATTEMPTS
      \<and> (dl_next d \<noteq> None \<longleftrightarrow> dl_status d \<in> {DeliveryPending, DeliveryFailed} \<and> dl_attempts d < INTRADAY_ALERT_MAX_ATTEMPTS)
      \<and> (case dl_next d of None \<Rightarrow> True | Some t \<Rightarrow> t \<le> now + FIRST_ATTEMPT_LEASE))"

definition rows_good :: "instant \<Rightarrow> outbox \<Rightarrow> bool" where
  "rows_good now ox =
     (distinct (map dl_id (ox_rows ox)) \<and> (\<forall>d \<in> set (ox_rows ox). dl_id d < ox_next ox \<and> row_ok now d))"

definition linked :: "scan_event list \<Rightarrow> delivery list \<Rightarrow> bool" where
  "linked events rows =
     ((\<forall>d \<in> set rows. \<exists>e \<in> set events. xe_id e = dl_event d \<and> proposed_event e)
      \<and> (\<forall>e \<in> set events. xe_state e = ''alerted'' \<longleftrightarrow> event_sent rows (xe_id e)))"

definition flights_ok :: "(nat \<times> instant) list \<Rightarrow> delivery list \<Rightarrow> bool" where
  "flights_ok flights rows =
     (distinct (map fst flights)
      \<and> (\<forall>(i, deadline) \<in> set flights. \<exists>d \<in> set rows. dl_id d = i \<and> dl_next d = Some deadline))"

definition alert_ok :: "alert_system \<Rightarrow> bool" where
  "alert_ok s =
     (scan_reachable (ox_scan (al_box s)) \<and> rows_good (al_now s) (al_box s)
      \<and> linked (sx_events (ox_scan (al_box s))) (ox_rows (al_box s)) \<and> flights_ok (al_flights s) (ox_rows (al_box s)))"

lemma row_ok_later: "row_ok now d \<Longrightarrow> now \<le> now' \<Longrightarrow> row_ok now' d"
  by (auto simp: row_ok_def split: option.splits)

lemma rows_good_later: "rows_good now ox \<Longrightarrow> now \<le> now' \<Longrightarrow> rows_good now' ox"
  by (auto simp: rows_good_def intro: row_ok_later)

lemma lease_row_simps [simp]:
  "dl_id (lease_row now d) = dl_id d" "dl_event (lease_row now d) = dl_event d" "dl_status (lease_row now d) = dl_status d"
  "dl_attempts (lease_row now d) = dl_attempts d" "dl_next (lease_row now d) = Some (now + FIRST_ATTEMPT_LEASE)"
  by (simp_all add: lease_row_def)

lemma attempted_row_simps [simp]:
  "dl_id (attempted_row now m outcome d) = dl_id d" "dl_event (attempted_row now m outcome d) = dl_event d"
  "dl_status (attempted_row now m outcome d) = outcome" "dl_attempts (attempted_row now m outcome d) = Suc (dl_attempts d)"
  by (simp_all add: attempted_row_def)

lemma written_not_alerted: "written rows stored new \<Longrightarrow> list_all (\<lambda>e. xe_state e \<noteq> ''alerted'') new"
  by (induction rows stored new rule: written.induct) (simp_all add: written_event_def)

lemma scan_appends:
  assumes "scan_ok t"
  shows "\<exists>new. sx_events (committed t (commit_scan session_start rows t)) = sx_events t @ new
    \<and> list_all (\<lambda>e. xe_state e \<noteq> ''alerted'') new"
proof (cases "commit_scan session_start rows t")
  case (Inl e)
  then show ?thesis by (simp add: committed_def)
next
  case (Inr answer)
  then obtain xs t' where "commit_scan session_start rows t = Inr (xs, t')" by (cases answer) auto
  with commit_scan_ok [OF this assms] written_not_alerted show ?thesis by (auto simp: committed_def)
qed

lemma linked_append:
  assumes "linked events rows" "list_all (\<lambda>e. xe_state e \<noteq> ''alerted'') new" "distinct (map xe_id (events @ new))"
  shows "linked (events @ new) rows"
proof -
  have "\<not> event_sent rows (xe_id e)" if "e \<in> set new" for e
  proof
    assume "event_sent rows (xe_id e)"
    then obtain d where "d \<in> set rows" "dl_event d = xe_id e" by (auto simp: event_sent_def list_ex_iff)
    then obtain e' where "e' \<in> set events" "xe_id e' = xe_id e" using assms(1) unfolding linked_def by metis
    then show False using assms(3) that by (auto simp: image_iff)
  qed
  then show ?thesis using assms(1,2) by (auto simp: linked_def list_all_iff)
qed

lemma linked_same:
  assumes "linked events rows" "\<And>d. dl_event (g d) = dl_event d" "\<And>d. d \<in> set rows \<Longrightarrow> (dl_status (g d) = DeliverySent) = (dl_status d = DeliverySent)"
  shows "linked events (map g rows)"
proof -
  have "event_sent (map g rows) i = event_sent rows i" for i using assms(2,3) by (auto simp: event_sent_def list_ex_iff)
  then show ?thesis using assms(1,2) by (simp add: linked_def)
qed

lemma flights_okD:
  assumes "flights_ok flights rows" "(i, deadline) \<in> set flights"
  shows "\<exists>d \<in> set rows. dl_id d = i \<and> dl_next d = Some deadline"
proof -
  have "\<forall>(i, deadline) \<in> set flights. \<exists>d \<in> set rows. dl_id d = i \<and> dl_next d = Some deadline"
    using assms(1) unfolding flights_ok_def by (rule conjunct2)
  from bspec [OF this assms(2)] show ?thesis by simp
qed

lemma flights_okI:
  assumes "distinct (map fst flights)"
    and "\<And>i deadline. (i, deadline) \<in> set flights \<Longrightarrow> \<exists>d \<in> set rows. dl_id d = i \<and> dl_next d = Some deadline"
  shows "flights_ok flights rows"
  unfolding flights_ok_def by (intro conjI ballI assms(1)) (clarify, rule assms(2))

lemma flights_same:
  assumes "flights_ok flights rows" "\<And>d. dl_id (g d) = dl_id d" "\<And>d. d \<in> set rows \<Longrightarrow> dl_id d \<in> fst ` set flights \<Longrightarrow> g d = d"
  shows "flights_ok flights (map g rows)"
proof -
  show ?thesis
  proof (rule flights_okI)
    show "distinct (map fst flights)" using assms(1) by (simp add: flights_ok_def)
    fix i deadline assume mem: "(i, deadline) \<in> set flights"
    obtain d where d: "d \<in> set rows" "dl_id d = i" "dl_next d = Some deadline" using flights_okD [OF assms(1) mem] by blast
    moreover have "i \<in> fst ` set flights" using mem by force
    ultimately have "g d = d" using assms(3) by blast
    moreover have "g d \<in> set (map g rows)" using d(1) by simp
    ultimately show "\<exists>d \<in> set (map g rows). dl_id d = i \<and> dl_next d = Some deadline" using d by (intro bexI [of _ d]) simp_all
  qed
qed

lemma flights_drop:
  assumes "flights_ok flights rows"
  shows "flights_ok (drop_flight i flights) rows"
proof (rule flights_okI)
  show "distinct (map fst (drop_flight i flights))" using assms by (simp add: flights_ok_def drop_flight_def distinct_map_filter)
  show "\<exists>d \<in> set rows. dl_id d = j \<and> dl_next d = Some deadline" if "(j, deadline) \<in> set (drop_flight i flights)" for j deadline
    using that flights_okD [OF assms] by (simp add: drop_flight_def)
qed

lemma drop_flight_gone: "i \<notin> fst ` set (drop_flight i flights)"
  by (auto simp: drop_flight_def)

text \<open>A row that is due is in nobody's hands.\<close>

lemma distinct_rows: "distinct (map dl_id rows) \<Longrightarrow> d \<in> set rows \<Longrightarrow> d' \<in> set rows \<Longrightarrow> dl_id d = dl_id d' \<Longrightarrow> d = d'"
  by (metis distinct_map inj_onD)

lemma due_not_in_flight:
  assumes "flights_ok flights rows" "list_all (\<lambda>(i, deadline). now < deadline) flights" "distinct (map dl_id rows)"
    and "d \<in> set rows" "due_delivery m now rows d"
  shows "dl_id d \<notin> fst ` set flights"
proof
  assume "dl_id d \<in> fst ` set flights"
  then obtain deadline where f: "(dl_id d, deadline) \<in> set flights" by auto
  then obtain d' where d': "d' \<in> set rows" "dl_id d' = dl_id d" "dl_next d' = Some deadline" using flights_okD [OF assms(1)] by blast
  then have "d' = d" using distinct_rows [OF assms(3) _ assms(4)] by blast
  then have "deadline \<le> now" using d'(3) assms(5) by (simp add: due_delivery_def)
  moreover have "now < deadline" using assms(2) f by (auto simp: list_all_iff)
  ultimately show False by simp
qed

lemma claimed_facts:
  "d \<in> set (claimed_rows now m limit rows) \<Longrightarrow> d \<in> set rows \<and> due_delivery m now rows d"
  "distinct (map dl_id rows) \<Longrightarrow> distinct (map dl_id (claimed_rows now m limit rows))"
proof -
  show "d \<in> set (claimed_rows now m limit rows) \<Longrightarrow> d \<in> set rows \<and> due_delivery m now rows d"
    unfolding claimed_rows_def by (drule in_set_takeD) simp
  assume "distinct (map dl_id rows)"
  then have "distinct (map dl_id (sort_key dl_created (filter (due_delivery m now rows) rows)))"
    by (auto simp: distinct_map intro: inj_on_subset)
  then show "distinct (map dl_id (claimed_rows now m limit rows))" unfolding claimed_rows_def take_map [symmetric] by (rule distinct_take)
qed

lemma scan_keeps_alert_ok:
  assumes "alert_ok s" "in_time now s"
  shows "alert_ok (s\<lparr>al_box := (al_box s)\<lparr>ox_scan := committed (ox_scan (al_box s)) (commit_scan session_start rows (ox_scan (al_box s)))\<rparr>, al_now := now\<rparr>)"
proof -
  let ?t = "ox_scan (al_box s)"
  let ?t' = "committed ?t (commit_scan session_start rows ?t)"
  have r: "scan_reachable ?t" using assms(1) by (simp add: alert_ok_def)
  have r': "scan_reachable ?t'" by (rule scan_reachable.step [OF r scan_step.scan])
  obtain new where new: "sx_events ?t' = sx_events ?t @ new" "list_all (\<lambda>e. xe_state e \<noteq> ''alerted'') new"
    using scan_appends [OF scan_reachable_ok [OF r]] by blast
  have "distinct (map xe_id (sx_events ?t @ new))" using scan_reachable_ok [OF r'] unfolding scan_ok_def new(1) by blast
  with linked_append [OF _ new(2) this] assms have "linked (sx_events ?t') (ox_rows (al_box s))" by (simp add: alert_ok_def new(1))
  moreover have "rows_good now ((al_box s)\<lparr>ox_scan := ?t'\<rparr>)"
    using rows_good_later assms by (simp add: alert_ok_def in_time_def rows_good_def) (metis row_ok_later)
  ultimately show ?thesis using r' assms(1) by (simp add: alert_ok_def)
qed

lemma deliver_keeps_alert_ok:
  assumes "alert_ok s" "in_time now s" "e \<in> set (sx_events (ox_scan (al_box s)))" "xe_state e = ''confirmed''"
    and "create_pending now (xe_id e) text (al_box s) = Inr (i, box)"
  shows "alert_ok (s\<lparr>al_box := box, al_flights := al_flights s @ [(i, now + FIRST_ATTEMPT_LEASE)], al_now := now\<rparr>)"
proof -
  let ?row = "\<lparr>dl_id = ox_next (al_box s), dl_event = xe_id e, dl_status = DeliveryPending, dl_text = text,
             dl_attempts = 0, dl_next = Some (now + FIRST_ATTEMPT_LEASE), dl_created = now\<rparr>"
  let ?rows = "ox_rows (al_box s) @ [?row]"
  have i: "i = ox_next (al_box s)" and box: "box = (al_box s)\<lparr>ox_rows := ?rows, ox_next := Suc (ox_next (al_box s))\<rparr>"
    using assms(5) by (auto simp: create_pending_def split: if_split_asm)
  have good: "rows_good now (al_box s)" and l: "linked (sx_events (ox_scan (al_box s))) (ox_rows (al_box s))"
    and fl: "flights_ok (al_flights s) (ox_rows (al_box s))"
    using assms(1,2) rows_good_later by (auto simp: alert_ok_def in_time_def)
  have fresh: "i \<notin> set (map dl_id (ox_rows (al_box s)))" using good by (auto simp: i rows_good_def)
  have "rows_good now box" using good fresh
    by (auto simp: box i rows_good_def row_ok_def INTRADAY_ALERT_MAX_ATTEMPTS_def less_SucI)
  moreover have "linked (sx_events (ox_scan (al_box s))) ?rows"
  proof -
    have "event_sent ?rows j = event_sent (ox_rows (al_box s)) j" for j by (simp add: event_sent_def)
    moreover have "proposed_event e" using assms(4) by (simp add: proposed_event_def)
    ultimately show ?thesis using l assms(3) unfolding linked_def by auto
  qed
  moreover have "flights_ok (al_flights s @ [(i, now + FIRST_ATTEMPT_LEASE)]) ?rows"
  proof (rule flights_okI)
    have "i \<notin> fst ` set (al_flights s)"
    proof
      assume "i \<in> fst ` set (al_flights s)"
      then obtain deadline where "(i, deadline) \<in> set (al_flights s)" by auto
      then show False using flights_okD [OF fl] fresh by fastforce
    qed
    then show "distinct (map fst (al_flights s @ [(i, now + FIRST_ATTEMPT_LEASE)]))" using fl by (simp add: flights_ok_def)
    show "\<exists>d \<in> set ?rows. dl_id d = j \<and> dl_next d = Some deadline"
      if "(j, deadline) \<in> set (al_flights s @ [(i, now + FIRST_ATTEMPT_LEASE)])" for j deadline
      using that flights_okD [OF fl] i by auto
  qed
  ultimately show ?thesis using assms(1) by (simp add: alert_ok_def box)
qed

lemma retry_keeps_alert_ok:
  assumes "alert_ok s" "in_time now s" "due_deliveries now INTRADAY_ALERT_MAX_ATTEMPTS limit (al_box s) = (claimed, box)"
  shows "alert_ok (s\<lparr>al_box := box, al_flights := al_flights s @ map (\<lambda>d. (dl_id d, now + FIRST_ATTEMPT_LEASE)) claimed, al_now := now\<rparr>)"
proof -
  let ?rows = "ox_rows (al_box s)"
  define g where "g = (\<lambda>d. if dl_id d \<in> dl_id ` set claimed then lease_row now d else d)"
  have c: "claimed = claimed_rows now INTRADAY_ALERT_MAX_ATTEMPTS limit ?rows" and box: "box = (al_box s)\<lparr>ox_rows := map g ?rows\<rparr>"
    using assms(3) by (auto simp: due_deliveries_def Let_def g_def)
  have good: "rows_good now (al_box s)" and l: "linked (sx_events (ox_scan (al_box s))) ?rows" and fl: "flights_ok (al_flights s) ?rows"
    and early: "list_all (\<lambda>(i, deadline). now < deadline) (al_flights s)"
    using assms(1,2) rows_good_later by (auto simp: alert_ok_def in_time_def)
  have dist: "distinct (map dl_id ?rows)" using good by (simp add: rows_good_def)
  have g: "dl_id (g d) = dl_id d" "dl_event (g d) = dl_event d" "dl_status (g d) = dl_status d" for d by (simp_all add: g_def)
  have claimed: "d \<in> set ?rows" "due_delivery INTRADAY_ALERT_MAX_ATTEMPTS now ?rows d" if "d \<in> set claimed" for d
    using claimed_facts(1) that unfolding c by blast+
  have apart: "dl_id d \<notin> fst ` set (al_flights s)" if "d \<in> set claimed" for d
    by (rule due_not_in_flight [OF fl early dist claimed(1) [OF that] claimed(2) [OF that]])
  have row: "row_ok now (g d)" if d: "d \<in> set ?rows" for d
  proof (cases "dl_id d \<in> dl_id ` set claimed")
    case True
    then obtain d' where "d' \<in> set claimed" "dl_id d' = dl_id d" by auto
    then have "due_delivery INTRADAY_ALERT_MAX_ATTEMPTS now ?rows d" using claimed distinct_rows [OF dist _ d] by metis
    then show ?thesis using True by (auto simp: g_def row_ok_def due_delivery_def)
  next
    case False
    then show ?thesis using good d by (simp add: g_def rows_good_def)
  qed
  have "rows_good now box" using good row by (simp add: box rows_good_def g comp_def)
  moreover have "linked (sx_events (ox_scan (al_box s))) (map g ?rows)" by (rule linked_same [OF l]) (simp_all add: g)
  moreover have "flights_ok (al_flights s @ map (\<lambda>d. (dl_id d, now + FIRST_ATTEMPT_LEASE)) claimed) (map g ?rows)"
  proof (rule flights_okI)
    have "distinct (map dl_id claimed)" unfolding c by (rule claimed_facts(2) [OF dist])
    moreover have "\<forall>y \<in> dl_id ` set claimed. y \<notin> fst ` set (al_flights s)" using apart by (simp del: set_map)
    then have "fst ` set (al_flights s) \<inter> dl_id ` set claimed = {}" by blast
    ultimately show "distinct (map fst (al_flights s @ map (\<lambda>d. (dl_id d, now + FIRST_ATTEMPT_LEASE)) claimed))"
      using fl by (simp add: flights_ok_def comp_def)
    have old: "flights_ok (al_flights s) (map g ?rows)"
    proof (rule flights_same [OF fl g(1)])
      fix x :: delivery assume "dl_id x \<in> fst ` set (al_flights s)"
      then have "dl_id x \<notin> dl_id ` set claimed" using apart by (metis imageE)
      then show "g x = x" by (simp add: g_def)
    qed
    show "\<exists>d \<in> set (map g ?rows). dl_id d = j \<and> dl_next d = Some deadline"
      if mem: "(j, deadline) \<in> set (al_flights s @ map (\<lambda>d. (dl_id d, now + FIRST_ATTEMPT_LEASE)) claimed)" for j deadline
    proof (cases "(j, deadline) \<in> set (al_flights s)")
      case True
      then show ?thesis by (rule flights_okD [OF old])
    next
      case False
      then obtain d where d: "d \<in> set claimed" "j = dl_id d" "deadline = now + FIRST_ATTEMPT_LEASE" using mem by auto
      then have "g d \<in> set (map g ?rows)" "dl_next (g d) = Some deadline" using claimed(1) by (simp_all add: g_def)
      then show ?thesis using d(2) g(1) by blast
    qed
  qed
  ultimately show ?thesis using assms(1) by (simp add: alert_ok_def box)
qed

lemma add_health_box:
  "add_health kind source streak status ox = (h, box)
    \<Longrightarrow> ox_rows box = ox_rows ox \<and> ox_scan box = ox_scan ox \<and> ox_next ox \<le> ox_next box"
  by (auto simp: add_health_def Let_def split: if_split_asm)

lemma attempt_box:
  assumes "attempt_delivery now m others i event_id (Inr outcome) reported ox = (answer, box)"
  shows "ox_rows box = map (\<lambda>d. if dl_id d = i then attempted_row now m (po_status outcome) d else d) (ox_rows ox)
    \<and> ox_scan box = (if po_status outcome = DeliverySent then mark_event_alerted event_id (ox_scan ox) else ox_scan ox)
    \<and> ox_next ox \<le> ox_next box"
proof -
  obtain h ox1 where p: "persist_delivery_attempt now m others i event_id (po_status outcome) ox = (h, ox1)" by fastforce
  have one: "ox_rows ox1 = map (\<lambda>d. if dl_id d = i then attempted_row now m (po_status outcome) d else d) (ox_rows ox)
    \<and> ox_scan ox1 = (if po_status outcome = DeliverySent then mark_event_alerted event_id (ox_scan ox) else ox_scan ox)
    \<and> ox_next ox \<le> ox_next ox1"
    using p add_health_box unfolding persist_delivery_attempt_def Let_def by (fastforce split: if_split_asm)
  have "ox_rows box = ox_rows ox1 \<and> ox_scan box = ox_scan ox1 \<and> ox_next box = ox_next ox1"
    using assms p by (auto simp: attempt_delivery_def persist_health_event_attempt_def split: option.splits if_split_asm sum.splits)
  then show ?thesis using one by simp
qed

lemma linked_sent:
  assumes "linked events rows" "d \<in> set rows"
    and "\<And>x. dl_event (g x) = dl_event x" "dl_status (g d) = DeliverySent" "\<And>x. x \<in> set rows \<Longrightarrow> g x \<noteq> x \<Longrightarrow> x = d"
  shows "linked (map (\<lambda>e. if xe_id e = dl_event d then e\<lparr>xe_state := ''alerted''\<rparr> else e) events) (map g rows)"
proof -
  define f where "f = (\<lambda>e :: scan_event. if xe_id e = dl_event d then e\<lparr>xe_state := ''alerted''\<rparr> else e)"
  have f: "xe_id (f e) = xe_id e" "proposed_event e \<Longrightarrow> proposed_event (f e)" for e by (simp_all add: f_def proposed_event_def)
  have here: "event_sent (map g rows) (dl_event d)" using assms(2-4) by (auto simp: event_sent_def list_ex_iff)
  have elsewhere: "event_sent (map g rows) j = event_sent rows j" if "j \<noteq> dl_event d" for j
  proof -
    have "(dl_event (g x) = j \<and> dl_status (g x) = DeliverySent) = (dl_event x = j \<and> dl_status x = DeliverySent)" if "x \<in> set rows" for x
      using assms(3) assms(5) [OF that] \<open>j \<noteq> dl_event d\<close> by (cases "g x = x") auto
    then show ?thesis by (simp add: event_sent_def list_ex_iff)
  qed
  have "linked (map f events) (map g rows)"
    unfolding linked_def
  proof (intro conjI ballI)
    fix x assume "x \<in> set (map g rows)"
    then obtain x0 where "x0 \<in> set rows" "dl_event x = dl_event x0" using assms(3) by auto
    then obtain e where e: "e \<in> set events" "xe_id e = dl_event x" "proposed_event e" using assms(1) unfolding linked_def by metis
    then have "f e \<in> set (map f events)" by simp
    moreover have "xe_id (f e) = dl_event x \<and> proposed_event (f e)" using f e by simp
    ultimately show "\<exists>e \<in> set (map f events). xe_id e = dl_event x \<and> proposed_event e" by blast
  next
    fix e assume "e \<in> set (map f events)"
    then obtain e0 where e0: "e0 \<in> set events" "e = f e0" by auto
    show "xe_state e = ''alerted'' \<longleftrightarrow> event_sent (map g rows) (xe_id e)"
    proof (cases "xe_id e0 = dl_event d")
      case True
      then show ?thesis using here by (simp add: e0(2) f_def)
    next
      case False
      then show ?thesis using elsewhere [OF False] e0(1) assms(1) unfolding linked_def by (simp add: e0(2) f_def)
    qed
  qed
  then show ?thesis by (simp only: f_def)
qed

lemma finish_keeps_alert_ok:
  assumes "alert_ok s" "in_time now s" "(dl_id d, deadline) \<in> set (al_flights s)" "d \<in> set (ox_rows (al_box s))"
    and attempt: "attempt_delivery now INTRADAY_ALERT_MAX_ATTEMPTS others (dl_id d) (dl_event d) posted reported (al_box s) = (answer, box)"
    and posted: "\<And>outcome. posted = Inr outcome \<Longrightarrow> po_status outcome \<noteq> DeliveryPending"
  shows "alert_ok (s\<lparr>al_box := box, al_flights := drop_flight (dl_id d) (al_flights s), al_now := now\<rparr>)"
proof (cases posted)
  case (Inl e)
  then have "box = al_box s" using attempt by (simp add: attempt_delivery_def)
  then show ?thesis using assms(1,2) flights_drop rows_good_later by (auto simp: alert_ok_def in_time_def)
next
  case (Inr outcome)
  let ?rows = "ox_rows (al_box s)" and ?t = "ox_scan (al_box s)"
  define g where "g = (\<lambda>x. if dl_id x = dl_id d then attempted_row now INTRADAY_ALERT_MAX_ATTEMPTS (po_status outcome) x else x)"
  have box: "ox_rows box = map g ?rows" "ox_next (al_box s) \<le> ox_next box"
    "ox_scan box = (if po_status outcome = DeliverySent then mark_event_alerted (dl_event d) ?t else ?t)"
    using attempt_box [OF attempt [unfolded Inr]] by (simp_all add: g_def)
  have r: "scan_reachable ?t" and good: "rows_good now (al_box s)" and l: "linked (sx_events ?t) ?rows" and fl: "flights_ok (al_flights s) ?rows"
    using assms(1,2) rows_good_later by (auto simp: alert_ok_def in_time_def)
  have dist: "distinct (map dl_id ?rows)" using good by (simp add: rows_good_def)
  have g: "dl_id (g x) = dl_id x" "dl_event (g x) = dl_event x" for x by (simp_all add: g_def)
  have only: "x = d" if "x \<in> set ?rows" "g x \<noteq> x" for x
    using distinct_rows [OF dist that(1) assms(4)] that(2) by (auto simp: g_def split: if_split_asm)
  obtain d' where "d' \<in> set ?rows" "dl_id d' = dl_id d" "dl_next d' = Some deadline" using flights_okD [OF fl assms(3)] by blast
  then have nxt: "dl_next d = Some deadline" using distinct_rows [OF dist _ assms(4)] by metis
  have old: "row_ok now x" "dl_id x < ox_next (al_box s)" if "x \<in> set ?rows" for x using good that by (simp_all add: rows_good_def)
  have live: "dl_status d \<in> {DeliveryPending, DeliveryFailed}" "dl_attempts d < INTRADAY_ALERT_MAX_ATTEMPTS"
    using old(1) [OF assms(4)] nxt by (simp_all add: row_ok_def)
  have "row_ok now (g d)" using live posted [OF Inr]
    by (cases "po_status outcome") (auto simp: g_def attempted_row_def row_ok_def RETRY_DELAY_def FIRST_ATTEMPT_LEASE_def us_second_def)
  then have "row_ok now (g x)" if "x \<in> set ?rows" for x using that old(1) only by (cases "g x = x") auto
  then have rows: "rows_good now box" using good box(2) unfolding rows_good_def box(1) by (auto simp: g comp_def)
  have flights: "flights_ok (drop_flight (dl_id d) (al_flights s)) (map g ?rows)"
  proof (rule flights_same [OF flights_drop [OF fl] g(1)])
    fix x :: delivery assume "dl_id x \<in> fst ` set (drop_flight (dl_id d) (al_flights s))"
    then have "dl_id x \<noteq> dl_id d" using drop_flight_gone by metis
    then show "g x = x" by (simp add: g_def)
  qed
  show ?thesis
  proof (cases "po_status outcome = DeliverySent")
    case True
    obtain e where e: "e \<in> set (sx_events ?t)" "xe_id e = dl_event d" "proposed_event e" using l assms(4) unfolding linked_def by blast
    have "scan_reachable (ox_scan box)"
      using scan_reachable.step [OF r scan_step.alert [OF e(1,3)]] True by (simp add: box(3) e(2))
    moreover have "linked (sx_events (ox_scan box)) (ox_rows box)"
      unfolding box(1,3) using linked_sent [OF l assms(4) g(2) _ only] True by (simp add: g_def mark_event_alerted_def)
    ultimately show ?thesis using rows flights by (simp add: alert_ok_def box(1))
  next
    case False
    have "linked (sx_events ?t) (map g ?rows)"
    proof (rule linked_same [OF l g(2)])
      fix x assume x: "x \<in> set ?rows"
      show "(dl_status (g x) = DeliverySent) = (dl_status x = DeliverySent)"
        using only [OF x] live False by (cases "g x = x") (auto simp: g_def)
    qed
    then show ?thesis using rows flights r False by (simp add: alert_ok_def box(1,3))
  qed
qed

lemma posted_not_pending: "posted_by (fst (post_feishu_alert_text ch net clock cache)) = Inr outcome \<Longrightarrow> po_status outcome \<noteq> DeliveryPending"
  using post_status by (cases "post_feishu_alert_text ch net clock cache") (auto simp: posted_by_def split: sum.splits)

lemma alert_step_ok: "alert_step s s' \<Longrightarrow> alert_ok s \<Longrightarrow> alert_ok s'"
proof (induction rule: alert_step.induct)
  case (finish now s d deadline others ch net clock cache reported answer box)
  show ?case by (rule finish_keeps_alert_ok [OF finish.prems finish.hyps posted_not_pending])
next
  case (lost s i)
  then show ?case using flights_drop by (simp add: alert_ok_def)
qed (simp_all only: scan_keeps_alert_ok deliver_keeps_alert_ok retry_keeps_alert_ok)

lemma alert_reachable_ok: "alert_reachable s \<Longrightarrow> alert_ok s"
proof (induction rule: alert_reachable.induct)
  case (start instruments now)
  have "sx_events (empty_tables instruments) = []" by (simp add: empty_tables_def)
  then show ?case by (simp add: alert_ok_def idle_system_def scan_reachable.start rows_good_def linked_def flights_ok_def)
qed (rule alert_step_ok)

lemma sorted_take_drop: "sorted (map f xs) \<Longrightarrow> x \<in> set (take n xs) \<Longrightarrow> y \<in> set (drop n xs) \<Longrightarrow> f x \<le> f y"
  for f :: "'a \<Rightarrow> int"
proof -
  assume s: "sorted (map f xs)" and xy: "x \<in> set (take n xs)" "y \<in> set (drop n xs)"
  have "sorted (map f (take n xs) @ map f (drop n xs))" using s by (simp flip: map_append)
  then show "f x \<le> f y" using xy by (auto simp: sorted_append)
qed

lemma claimed_oldest:
  assumes "d \<in> set rows" "due_delivery m now rows d"
  shows "d \<in> set (claimed_rows now m limit rows)
    \<or> length (claimed_rows now m limit rows) = nat (max 1 (min limit 10))
      \<and> list_all (\<lambda>x. dl_created x \<le> dl_created d) (claimed_rows now m limit rows)"
proof -
  define xs where "xs = sort_key dl_created (filter (due_delivery m now rows) rows)"
  define n where "n = nat (max 1 (min limit 10))"
  have claimed: "claimed_rows now m limit rows = take n xs" by (simp add: claimed_rows_def xs_def n_def)
  have "d \<in> set (take n xs @ drop n xs)" using assms by (simp add: xs_def)
  then consider "d \<in> set (take n xs)" | "d \<in> set (drop n xs)" unfolding set_append by blast
  then show ?thesis
  proof cases
    case 2
    then have "n < length xs" by (metis drop_all empty_iff empty_set not_less)
    moreover have "sorted (map dl_created xs)" by (simp add: xs_def)
    ultimately show ?thesis using sorted_take_drop [of dl_created xs _ n d] 2
      by (auto simp: claimed list_all_iff n_def [symmetric])
  qed (simp add: claimed)
qed

section \<open>Examples\<close>

definition example_scanned :: alert_system where
  "example_scanned = (idle_system (empty_tables [''600000.SH'']) 0)\<lparr>al_box := (al_box (idle_system (empty_tables [''600000.SH'']) 0))\<lparr>ox_scan := example_tables\<rparr>,
     al_now := 0\<rparr>"

definition example_row :: delivery where
  "example_row = \<lparr>dl_id = 0, dl_event = 0, dl_status = DeliveryPending, dl_text = ''exit'', dl_attempts = 0,
     dl_next = Some FIRST_ATTEMPT_LEASE, dl_created = 0\<rparr>"

definition example_flying :: alert_system where
  "example_flying = example_scanned\<lparr>al_box := (al_box example_scanned)\<lparr>ox_rows := [example_row], ox_next := 1\<rparr>,
     al_flights := [(0, FIRST_ATTEMPT_LEASE)], al_now := 0\<rparr>"

lemma example_scanned_reachable: "alert_reachable example_scanned"
proof -
  let ?s = "idle_system (empty_tables [''600000.SH'']) 0"
  have "in_time 0 ?s" by (simp add: in_time_def idle_system_def)
  from alert_step.scan [OF this, of 0 "[(example_context 0, [example_exit True])]"]
  have "alert_step ?s example_scanned" by (simp add: example_scanned_def example_tables_def idle_system_def)
  then show ?thesis by (rule alert_reachable.step [OF alert_reachable.start])
qed

lemma example_flying_reachable: "alert_reachable example_flying"
proof -
  obtain e where e: "e \<in> set (sx_events example_tables)" "xe_id e = 0" "xe_state e = ''confirmed''"
    using example_rows by (cases "sx_events example_tables") auto
  have early: "in_time 0 example_scanned" by (simp add: in_time_def example_scanned_def idle_system_def)
  have "0 \<in> xe_id ` set (sx_events example_tables)" using e by force
  then have "create_pending 0 (xe_id e) ''exit'' (al_box example_scanned) = Inr (0, (al_box example_scanned)\<lparr>ox_rows := [example_row], ox_next := 1\<rparr>)"
    by (simp add: create_pending_def e(2) example_scanned_def idle_system_def example_row_def)
  from alert_step.deliver [OF early _ e(3) this] e(1)
  have "alert_step example_scanned example_flying"
    by (simp add: example_flying_def example_scanned_def idle_system_def)
  then show ?thesis by (rule alert_reachable.step [OF example_scanned_reachable])
qed

lemma example_flying_simps: "ox_rows (al_box example_flying) = [example_row]" "al_flights example_flying = [(0, FIRST_ATTEMPT_LEASE)]"
  "al_now example_flying = 0" "ox_scan (al_box example_flying) = example_tables"
  by (simp_all add: example_flying_def example_scanned_def)

section \<open>Properties\<close>

text \<open>
  C13. No alert is in two hands at once. Whatever scans, first attempts, retries, failures and lost
  processes come in whatever order, as long as an attempt ends or is lost within the lease of its row,
  a row is being sent by at most one process, only while it is unsent, and at most three attempts of a
  row are ever recorded.
\<close>

theorem alert_single_flight:
  assumes "alert_reachable s"
  shows "distinct (map fst (al_flights s))
    \<and> list_all (\<lambda>(i, deadline). list_ex (\<lambda>d. dl_id d = i \<and> dl_status d \<in> {DeliveryPending, DeliveryFailed} \<and> dl_attempts d < 3)
        (ox_rows (al_box s))) (al_flights s)
    \<and> list_all (\<lambda>d. dl_attempts d \<le> 3) (ox_rows (al_box s))"
proof -
  have ok: "flights_ok (al_flights s) (ox_rows (al_box s))" "rows_good (al_now s) (al_box s)"
    using alert_reachable_ok [OF assms] by (simp_all add: alert_ok_def)
  have "list_ex (\<lambda>d. dl_id d = i \<and> dl_status d \<in> {DeliveryPending, DeliveryFailed} \<and> dl_attempts d < 3) (ox_rows (al_box s))"
    if "(i, deadline) \<in> set (al_flights s)" for i deadline
  proof -
    obtain d where "d \<in> set (ox_rows (al_box s))" "dl_id d = i" "dl_next d = Some deadline" using flights_okD [OF ok(1) \<open>(i, deadline) \<in> _\<close>] by blast
    moreover from this have "row_ok (al_now s) d" using ok(2) by (simp add: rows_good_def)
    ultimately show ?thesis by (auto simp: list_ex_iff row_ok_def INTRADAY_ALERT_MAX_ATTEMPTS_def)
  qed
  then have "list_all (\<lambda>(i, deadline). list_ex (\<lambda>d. dl_id d = i \<and> dl_status d \<in> {DeliveryPending, DeliveryFailed} \<and> dl_attempts d < 3)
        (ox_rows (al_box s))) (al_flights s)" by (auto simp: list_all_iff)
  moreover have "list_all (\<lambda>d. dl_attempts d \<le> 3) (ox_rows (al_box s))"
    using ok(2) by (auto simp: list_all_iff rows_good_def row_ok_def INTRADAY_ALERT_MAX_ATTEMPTS_def)
  ultimately show ?thesis using ok(1) by (simp add: flights_ok_def)
qed

lemma alert_single_flight_witness:
  "map fst (al_flights example_flying) = [0] \<and> distinct (map fst (al_flights example_flying))
    \<and> list_all (\<lambda>d. dl_attempts d \<le> 3) (ox_rows (al_box example_flying))"
  using alert_single_flight [OF example_flying_reachable] by (simp add: example_flying_simps)



text \<open>
  C15. An alert that was not delivered is tried again. A row that is still pending or failed, with
  attempts left and no delivery of its event sent, is due a minute after the last activity at the latest,
  whether its process failed, was lost or never answered; and a retry pass takes it, or is full of rows
  at least as old.
\<close>

theorem undelivered_alert_retried:
  assumes "alert_reachable s" "d \<in> set (ox_rows (al_box s))"
    and "dl_status d \<in> {DeliveryPending, DeliveryFailed}" "dl_attempts d < 3" "dl_text d \<noteq> []"
    and "\<not> event_sent (ox_rows (al_box s)) (dl_event d)" "al_now s + 60 * us_second \<le> now"
  shows "due_delivery 3 now (ox_rows (al_box s)) d
    \<and> (d \<in> set (fst (due_deliveries now 3 limit (al_box s)))
      \<or> length (fst (due_deliveries now 3 limit (al_box s))) = nat (max 1 (min limit 10))
        \<and> list_all (\<lambda>x. dl_created x \<le> dl_created d) (fst (due_deliveries now 3 limit (al_box s))))"
proof -
  have "row_ok (al_now s) d" using alert_reachable_ok [OF assms(1)] assms(2) by (simp add: alert_ok_def rows_good_def)
  then obtain t where t: "dl_next d = Some t" "t \<le> al_now s + FIRST_ATTEMPT_LEASE"
    using assms(3,4) by (auto simp: row_ok_def INTRADAY_ALERT_MAX_ATTEMPTS_def split: option.splits)
  then have due: "due_delivery 3 now (ox_rows (al_box s)) d" using assms(3-7) by (auto simp: due_delivery_def FIRST_ATTEMPT_LEASE_def)
  moreover have "fst (due_deliveries now 3 limit (al_box s)) = claimed_rows now 3 limit (ox_rows (al_box s))"
    by (simp add: due_deliveries_def Let_def)
  ultimately show ?thesis using claimed_oldest [OF assms(2) due] by simp
qed

lemma undelivered_alert_retried_witness:
  "due_delivery 3 (60 * us_second) [example_row] example_row"
proof -
  have rows: "ox_rows (al_box example_flying) = [example_row]" "al_now example_flying = 0" by (simp_all add: example_flying_simps)
  have "example_row \<in> set (ox_rows (al_box example_flying))" "dl_status example_row \<in> {DeliveryPending, DeliveryFailed}"
    "dl_attempts example_row < 3" "dl_text example_row \<noteq> []" "\<not> event_sent (ox_rows (al_box example_flying)) (dl_event example_row)"
    "al_now example_flying + 60 * us_second \<le> 60 * us_second"
    unfolding rows by (simp_all add: example_row_def event_sent_def)
  from undelivered_alert_retried [OF example_flying_reachable this, unfolded rows] show ?thesis by blast
qed

text \<open>
  One alert, one transport. Of the transports an attempt tried, at most one accepted the message or
  may have passed it on before its connection broke; the attempt counts as sent exactly when one accepted
  it, as failed when some failed, and as disabled, which is never retried, only when none was configured.
\<close>

theorem one_transport_delivers:
  assumes "post_feishu_alert_text ch net now cache = (Inr answer, cache')"
  shows "length (filter risky (tried answer)) \<le> 1
    \<and> po_status (fst answer) = (if list_ex (\<lambda>o1. po_status o1 = DeliverySent) (tried answer) then DeliverySent
        else if list_ex (\<lambda>o1. po_status o1 = DeliveryFailed) (tried answer) then DeliveryFailed else DeliveryDisabled)
    \<and> (po_ambiguous (fst answer) \<longleftrightarrow> list_ex po_ambiguous (tried answer))"
  using first_transport_spec [OF assms [unfolded post_feishu_alert_text_def] transport_status] by simp

lemma one_transport_delivers_witness:
  "post_feishu_alert_text \<lparr>ac_webhook = True, ac_direct = None, ac_adapter = True\<rparr>
      \<lparr>an_webhook = Interrupted, an_token = TokenLost Unreachable, an_direct = Unreachable, an_adapter = Answered True (BodyCode 0)\<rparr> 0 empty_cache
      = (Inr (delivery_failure True, [delivery_failure True]), empty_cache)
    \<and> length (filter risky (tried (delivery_failure True, [delivery_failure True]))) \<le> 1"
proof -
  have run: "post_feishu_alert_text \<lparr>ac_webhook = True, ac_direct = None, ac_adapter = True\<rparr>
      \<lparr>an_webhook = Interrupted, an_token = TokenLost Unreachable, an_direct = Unreachable, an_adapter = Answered True (BodyCode 0)\<rparr> 0 empty_cache
      = (Inr (delivery_failure True, [delivery_failure True]), empty_cache)"
    by (simp add: post_feishu_alert_text_def transports_def post_feishu_bot_webhook_text_def feishu_answer_def)
  show ?thesis using run one_transport_delivers [OF run] by blast
qed

text \<open>
  But an answer that cannot be read counts as a refusal: when the hook takes the message with a good
  status and a body that is no JSON, the same message goes to the next transport as well.
\<close>

theorem unreadable_answer_posts_twice:
  assumes "ac_webhook ch" "an_webhook net = Answered True BodyUnreadable" "ac_direct ch = None"
    and "ac_adapter ch" "an_adapter net = Answered True body" "body \<noteq> BodyUnreadable"
  shows "post_feishu_alert_text ch net now cache = (Inr (delivered, [delivery_failure False]), cache)"
  using assms by (simp add: post_feishu_alert_text_def transports_def post_feishu_bot_webhook_text_def post_adapter_webhook_text_def feishu_answer_def)

lemma unreadable_answer_posts_twice_witness:
  "post_feishu_alert_text \<lparr>ac_webhook = True, ac_direct = None, ac_adapter = True\<rparr>
      \<lparr>an_webhook = Answered True BodyUnreadable, an_token = TokenLost Unreachable, an_direct = Unreachable, an_adapter = Answered True (BodyCode 0)\<rparr> 0 empty_cache
      = (Inr (delivered, [delivery_failure False]), empty_cache)"
  by (rule unreadable_answer_posts_twice [where body = "BodyCode 0"]) simp_all

end
