(* ===== verification/HistoryRange.thy ===== *)
theory HistoryRange
  imports Prelude PyNumbers "HOL-Library.Product_Lexorder"
begin

text \<open>
  \<open>feishu-relay/bridge/history_range.py\<close> and what \<open>bridge.py\<close> puts around it: the gateway serves the
  messages of a chat by position, an export asks for a range of times. \<open>probe\<close> finds the first
  message at or after a position, a bisection over it finds the ends of the range, and the range is
  read in pages. The gateway is an argument (\<open>pull_times\<close>, \<open>pull_raw\<close>); what the proofs use of it is
  \<open>reads_history\<close>. A time is the rational a float stands for; the code only compares times.
\<close>

section \<open>The search\<close>

definition PROBE_WINDOW :: int where "PROBE_WINDOW = 20"
definition MAX_PROBE_SPAN :: int where "MAX_PROBE_SPAN = 2000"
definition PAGE_SIZE :: int where "PAGE_SIZE = 50"
definition MAX_EXPORT_POSITIONS :: int where "MAX_EXPORT_POSITIONS = 20000"

type_synonym message_time = "int \<times> rat"
type_synonym pull_times = "int \<Rightarrow> int \<Rightarrow> message_time list"

datatype history_error = EndBeforeStart | RangeTooLarge int | NotPageBounds

text \<open>What one call of the gateway finds, in order; the messages before \<open>position\<close> are dropped.\<close>

definition found_between :: "pull_times \<Rightarrow> int \<Rightarrow> int \<Rightarrow> int \<Rightarrow> message_time list" where
  "found_between pull_times position start stop =
     sort (filter (\<lambda>(p, t). position \<le> p) (pull_times start stop))"

text \<open>
  The loop of \<open>_probe\<close>. With a window of no positions it would run forever, so the result is the
  value it returns, if it returns; \<open>probe_loop_returns\<close> shows that it does.
\<close>

partial_function (option) probe_loop ::
    "pull_times \<Rightarrow> int \<Rightarrow> int \<Rightarrow> int \<Rightarrow> int \<Rightarrow> message_time option option" where
  "probe_loop pull_times position last_position start window =
     (if start \<le> last_position \<and> start - position < MAX_PROBE_SPAN
      then let stop = min last_position (start + window - 1) in
           case found_between pull_times position start stop of
             hit # _ \<Rightarrow> Some (Some hit)
           | [] \<Rightarrow> probe_loop pull_times position last_position (stop + 1) (min (window * 2) 400)
      else Some None)"

declare probe_loop.simps [code]

definition probe :: "pull_times \<Rightarrow> int \<Rightarrow> int \<Rightarrow> message_time option" where
  "probe pull_times position last_position =
     (case probe_loop pull_times position last_position position PROBE_WINDOW of
        None \<Rightarrow> None | Some hit \<Rightarrow> hit)"

lemma found_between_set:
  "set (found_between pull_times position start stop) = {x \<in> set (pull_times start stop). position \<le> fst x}"
  by (auto simp: found_between_def)

lemma probe_loop_stop:
  "\<not> (start \<le> last_position \<and> start - position < MAX_PROBE_SPAN) \<Longrightarrow>
   probe_loop pull_times position last_position start window = Some None"
  by (subst probe_loop.simps) (simp only: if_False)

lemma probe_loop_hit:
  "\<lbrakk>start \<le> last_position; start - position < MAX_PROBE_SPAN;
    found_between pull_times position start (min last_position (start + window - 1)) = hit # rest\<rbrakk> \<Longrightarrow>
   probe_loop pull_times position last_position start window = Some (Some hit)"
  by (subst probe_loop.simps) (simp add: Let_def)

lemma probe_loop_miss:
  "\<lbrakk>start \<le> last_position; start - position < MAX_PROBE_SPAN;
    found_between pull_times position start (min last_position (start + window - 1)) = []\<rbrakk> \<Longrightarrow>
   probe_loop pull_times position last_position start window =
     probe_loop pull_times position last_position (min last_position (start + window - 1) + 1) (min (window * 2) 400)"
  by (subst probe_loop.simps) (simp add: Let_def)

lemma probe_loop_returns:
  "1 \<le> window \<Longrightarrow>
   \<exists>r. probe_loop pull_times position last_position start window = Some r
     \<and> pred_option (\<lambda>x. position \<le> fst x) r"
proof (induction "nat (MAX_PROBE_SPAN + position - start)" arbitrary: start window rule: less_induct)
  case less
  show ?case
  proof (cases "start \<le> last_position \<and> start - position < MAX_PROBE_SPAN")
    case go: True
    show ?thesis
    proof (cases "found_between pull_times position start (min last_position (start + window - 1))")
      case Nil
      with go less.prems show ?thesis
        by (subst probe_loop_miss) (simp, simp, simp, rule less.hyps, auto)
    next
      case (Cons hit rest)
      then have "position \<le> fst hit"
        using found_between_set [of pull_times position start "min last_position (start + window - 1)"] by auto
      with go Cons show ?thesis by (auto simp: probe_loop_hit)
    qed
  qed (simp add: probe_loop_stop del: de_Morgan_conj)
qed

lemma probe_eq: "probe_loop pull_times position last_position position PROBE_WINDOW
    = Some (probe pull_times position last_position)"
  using probe_loop_returns [of PROBE_WINDOW pull_times position last_position position]
  by (auto simp: probe_def PROBE_WINDOW_def)

lemma probe_at_or_after: "probe pull_times position last_position = Some x \<Longrightarrow> position \<le> fst x"
  using probe_loop_returns [of PROBE_WINDOW pull_times position last_position position]
    probe_eq [of pull_times position last_position]
  by (auto simp: PROBE_WINDOW_def)

definition late_enough :: "bool \<Rightarrow> rat \<Rightarrow> rat \<Rightarrow> bool" where
  "late_enough strictly_after moment t = (if strictly_after then moment < t else moment \<le> t)"

function bisect_positions ::
    "pull_times \<Rightarrow> int \<Rightarrow> rat \<Rightarrow> bool \<Rightarrow> int \<Rightarrow> int \<Rightarrow> int" where
  "bisect_positions pull_times last_position moment strictly_after low high =
     (if low < high
      then let middle = (low + high) div 2 in
           case probe pull_times middle last_position of
             None \<Rightarrow> bisect_positions pull_times last_position moment strictly_after low middle
           | Some (p, t) \<Rightarrow>
               if late_enough strictly_after moment t
               then bisect_positions pull_times last_position moment strictly_after low middle
               else bisect_positions pull_times last_position moment strictly_after (p + 1) high
      else low)"
  by pat_completeness auto
termination
  by (relation "measure (\<lambda>(pull_times, last_position, moment, strictly_after, low, high). nat (high - low))")
    (auto dest: probe_at_or_after)

declare bisect_positions.simps [simp del]

definition first_position_at_or_after :: "pull_times \<Rightarrow> int \<Rightarrow> int \<Rightarrow> rat \<Rightarrow> bool \<Rightarrow> int" where
  "first_position_at_or_after pull_times first_position last_position moment strictly_after =
     bisect_positions pull_times last_position moment strictly_after first_position (last_position + 1)"

record located =
  lo_start :: int
  lo_end :: int
  lo_count :: int

definition nothing_located :: located where
  "nothing_located = \<lparr>lo_start = 0, lo_end = -1, lo_count = 0\<rparr>"

definition locate_positions ::
    "pull_times \<Rightarrow> int \<Rightarrow> int \<Rightarrow> rat \<Rightarrow> rat \<Rightarrow> history_error + located" where
  "locate_positions pull_times first_position last_position from_time to_time =
     (if first_position < 1 \<or> last_position < first_position then Inr nothing_located
      else if to_time < from_time then Inl EndBeforeStart
      else let start = first_position_at_or_after pull_times first_position last_position from_time False;
               stop = first_position_at_or_after pull_times (max first_position start) last_position to_time True - 1
           in if last_position < start \<or> stop < start then Inr nothing_located
              else let n = stop - start + 1 in
                   if MAX_EXPORT_POSITIONS < n then Inl (RangeTooLarge n)
                   else Inr \<lparr>lo_start = start, lo_end = stop, lo_count = n\<rparr>)"

definition page_bounds :: "int \<Rightarrow> int \<Rightarrow> int option \<Rightarrow> int \<times> int \<times> int option" where
  "page_bounds start stop cursor =
     (let page_start = (case cursor of None \<Rightarrow> start | Some c \<Rightarrow> max start c) in
      if stop < page_start then (page_start, page_start - 1, None)
      else let page_end = min stop (page_start + PAGE_SIZE - 1) in
           (page_start, page_end, if page_end < stop then Some (page_end + 1) else None))"

section \<open>The bridge's operations\<close>

text \<open>
  \<open>_pull_raw\<close> answers a list of positions with the messages under their keys; a message may repeat its
  position and its time. The keys are the numbers they spell. \<open>x or y\<close> takes \<open>y\<close> for a missing value
  and for 0.
\<close>

record raw_message =
  rm_position :: "int option"
  rm_create_time :: "rat option"

type_synonym pull_raw = "int list \<Rightarrow> (int \<times> raw_message) list"

definition or_else :: "'a :: zero option \<Rightarrow> 'a \<Rightarrow> 'a" where
  "or_else x y = (case x of None \<Rightarrow> y | Some v \<Rightarrow> if v = 0 then y else v)"

definition raw_time :: "int \<times> raw_message \<Rightarrow> message_time" where
  "raw_time entry = (or_else (rm_position (snd entry)) (fst entry), or_else (rm_create_time (snd entry)) 0)"

definition history_times :: "pull_raw \<Rightarrow> pull_times" where
  "history_times pull_raw start stop = map raw_time (pull_raw [start..stop])"

record chat_info =
  ci_first :: "int option"
  ci_last :: "int option"

definition history_locate :: "pull_raw \<Rightarrow> chat_info \<Rightarrow> rat \<Rightarrow> rat \<Rightarrow> history_error + located" where
  "history_locate pull_raw info from_time to_time =
     (let first_position = or_else (ci_first info) 1; last_position = or_else (ci_last info) 0 in
      locate_positions (history_times pull_raw) (max 1 first_position) last_position from_time to_time)"

text \<open>One page: the positions it asks for, and what \<open>pull_history\<close> reads from their answer, in the order
  of the keys.\<close>

definition history_page :: "pull_raw \<Rightarrow> int \<Rightarrow> int \<Rightarrow> history_error + (int \<times> raw_message) list" where
  "history_page pull_raw start stop =
     (if start < 1 \<or> stop < start \<or> PAGE_SIZE < stop - start + 1 then Inl NotPageBounds
      else Inr (sort_key fst (pull_raw [start..stop])))"

text \<open>An export follows the cursor from page to page; its loop is the client's, outside the bridge.\<close>

function page_chain :: "int \<Rightarrow> int \<Rightarrow> int option \<Rightarrow> (int \<times> int) list" where
  "page_chain start stop cursor =
     (case page_bounds start stop cursor of
        (page_start, page_end, None) \<Rightarrow> [(page_start, page_end)]
      | (page_start, page_end, Some next) \<Rightarrow> (page_start, page_end) # page_chain start stop (Some next))"
  by pat_completeness auto
termination
proof (relation "measure (\<lambda>(start, stop, cursor). nat (stop + 1 - (case cursor of None \<Rightarrow> start | Some c \<Rightarrow> max start c)))")
qed (auto simp: page_bounds_def PAGE_SIZE_def Let_def split: if_splits option.splits)

declare page_chain.simps [simp del]

definition export_pages :: "pull_raw \<Rightarrow> int \<Rightarrow> int \<Rightarrow> history_error + (int \<times> raw_message) list list" where
  "export_pages pull_raw start stop =
     mapR (\<lambda>(page_start, page_end). history_page pull_raw page_start page_end) (page_chain start stop None)"

section \<open>The history behind the gateway\<close>

text \<open>
  \<open>h\<close> is the chat: the time of the message at a position, \<open>None\<close> where there is none. The gateway
  answers a range with the messages in it, in any order; times do not go back with the positions; and
  no hole is as wide as the span \<open>_probe\<close> is willing to cross.
\<close>

type_synonym history = "int \<Rightarrow> rat option"

definition reads_history :: "pull_times \<Rightarrow> history \<Rightarrow> bool" where
  "reads_history pull_times h \<longleftrightarrow>
     (\<forall>start stop p t. (p, t) \<in> set (pull_times start stop) \<longleftrightarrow> start \<le> p \<and> p \<le> stop \<and> h p = Some t)"

definition times_grow :: "history \<Rightarrow> bool" where
  "times_grow h \<longleftrightarrow> (\<forall>p q s t. p \<le> q \<longrightarrow> h p = Some s \<longrightarrow> h q = Some t \<longrightarrow> s \<le> t)"

definition no_long_hole :: "history \<Rightarrow> int \<Rightarrow> int \<Rightarrow> bool" where
  "no_long_hole h first_position last_position \<longleftrightarrow>
     (\<forall>m q. first_position \<le> m \<longrightarrow> m \<le> q \<longrightarrow> q \<le> last_position \<longrightarrow> h q \<noteq> None
        \<longrightarrow> (\<exists>p. m \<le> p \<and> p < m + MAX_PROBE_SPAN \<and> h p \<noteq> None))"

definition none_in :: "history \<Rightarrow> int \<Rightarrow> int \<Rightarrow> bool" where
  "none_in h a b \<longleftrightarrow> (\<forall>q. a \<le> q \<longrightarrow> q \<le> b \<longrightarrow> h q = None)"

definition first_from :: "history \<Rightarrow> int \<Rightarrow> int \<Rightarrow> message_time \<Rightarrow> bool" where
  "first_from h position last_position x \<longleftrightarrow>
     position \<le> fst x \<and> fst x \<le> last_position \<and> h (fst x) = Some (snd x) \<and> none_in h position (fst x - 1)"

lemma none_in_append: "none_in h a b \<Longrightarrow> none_in h (b + 1) c \<Longrightarrow> none_in h a c"
  by (auto simp: none_in_def)

lemma found_between_reads:
  "reads_history pull_times h \<Longrightarrow> x \<in> set (found_between pull_times position start stop) \<longleftrightarrow>
     position \<le> fst x \<and> start \<le> fst x \<and> fst x \<le> stop \<and> h (fst x) = Some (snd x)"
  by (cases x) (auto simp: found_between_set reads_history_def)

lemma found_between_head:
  assumes "reads_history pull_times h" "position \<le> start" "found_between pull_times position start stop = hit # rest"
  shows "start \<le> fst hit \<and> fst hit \<le> stop \<and> h (fst hit) = Some (snd hit) \<and> none_in h start (fst hit - 1)"
proof -
  have hit: "start \<le> fst hit \<and> fst hit \<le> stop \<and> h (fst hit) = Some (snd hit)"
    using found_between_reads [OF assms(1), of hit position start stop] assms(3) by simp
  have "sorted (hit # rest)"
    using assms(3) by (metis found_between_def sorted_sort)
  then have least: "fst hit \<le> fst x" if "x \<in> set (hit # rest)" for x
    using that by (cases hit, cases x) (force simp: less_eq_prod_def)
  have "h q = None" if "start \<le> q" "q \<le> fst hit - 1" for q
  proof (rule ccontr)
    assume "h q \<noteq> None"
    then obtain t where "h q = Some t" by blast
    with that hit assms(2) have "(q, t) \<in> set (hit # rest)"
      using found_between_reads [OF assms(1), of "(q, t)" position start stop] assms(3) by simp
    from least [OF this] that show False by simp
  qed
  with hit show ?thesis by (simp add: none_in_def)
qed

lemma found_between_none:
  assumes "reads_history pull_times h" "position \<le> start" "found_between pull_times position start stop = []"
  shows "none_in h start stop"
  unfolding none_in_def
proof (intro allI impI, rule ccontr)
  fix q assume "start \<le> q" "q \<le> stop" "h q \<noteq> None"
  then obtain t where "h q = Some t" by blast
  with \<open>start \<le> q\<close> \<open>q \<le> stop\<close> assms(2) show False
    using found_between_reads [OF assms(1), of "(q, t)" position start stop] assms(3) by simp
qed

lemma probe_loop_finds:
  "\<lbrakk>reads_history pull_times h; 1 \<le> window; position \<le> start; none_in h position (start - 1);
    probe_loop pull_times position last_position start window = Some r\<rbrakk> \<Longrightarrow>
   case r of Some x \<Rightarrow> first_from h position last_position x
   | None \<Rightarrow> none_in h position (min last_position (position + MAX_PROBE_SPAN - 1))"
proof (induction "nat (MAX_PROBE_SPAN + position - start)" arbitrary: start window rule: less_induct)
  case less
  let ?stop = "min last_position (start + window - 1)"
  show ?case
  proof (cases "start \<le> last_position \<and> start - position < MAX_PROBE_SPAN")
    case go: True
    show ?thesis
    proof (cases "found_between pull_times position start ?stop")
      case Nil
      have again: "probe_loop pull_times position last_position (?stop + 1) (min (window * 2) 400) = Some r"
        using less.prems(5) go Nil probe_loop_miss by simp
      have "none_in h position (?stop + 1 - 1)"
        using none_in_append [of h position "start - 1" ?stop] found_between_none [OF less.prems(1,3) Nil]
          less.prems(4) by simp
      then show ?thesis
        using go less.prems(1,2,3) by (intro less.hyps [OF _ _ _ _ _ again]) auto
    next
      case (Cons hit rest)
      have "r = Some hit"
        using less.prems(5) go Cons probe_loop_hit by simp
      moreover have "none_in h position (fst hit - 1)"
        using none_in_append [of h position "start - 1" "fst hit - 1"]
          found_between_head [OF less.prems(1,3) Cons] less.prems(4) by simp
      ultimately show ?thesis
        using found_between_head [OF less.prems(1,3) Cons] less.prems(3) by (simp add: first_from_def)
    qed
  next
    case False
    then have "r = None" using less.prems(5) probe_loop_stop by simp
    then show ?thesis using False less.prems(4) by (auto simp: none_in_def)
  qed
qed

lemma probe_meets:
  "reads_history pull_times h \<Longrightarrow>
   case probe pull_times position last_position of
     Some x \<Rightarrow> first_from h position last_position x
   | None \<Rightarrow> none_in h position (min last_position (position + MAX_PROBE_SPAN - 1))"
  by (rule probe_loop_finds [OF _ _ _ _ probe_eq]) (simp_all add: PROBE_WINDOW_def none_in_def)

text \<open>Without a hole too wide the probe finds the first message, or there is none.\<close>

lemma probe_finds:
  assumes "reads_history pull_times h" "no_long_hole h first_position last_position" "first_position \<le> position"
  shows "case probe pull_times position last_position of
           Some x \<Rightarrow> first_from h position last_position x
         | None \<Rightarrow> none_in h position last_position"
proof (cases "probe pull_times position last_position")
  case None
  with probe_meets [OF assms(1), of position last_position]
  have none: "none_in h position (min last_position (position + MAX_PROBE_SPAN - 1))" by simp
  have "h q = None" if "position \<le> q" "q \<le> last_position" for q
  proof (rule ccontr)
    assume "h q \<noteq> None"
    then obtain p where p: "position \<le> p" "p < position + MAX_PROBE_SPAN" "h p \<noteq> None"
      using assms(2,3) \<open>position \<le> q\<close> \<open>q \<le> last_position\<close> unfolding no_long_hole_def by blast
    show False
    proof (cases "p \<le> last_position")
      case True with p none show False by (simp add: none_in_def)
    next
      case False with p that none \<open>h q \<noteq> None\<close> show False by (auto simp: none_in_def)
    qed
  qed
  with None show ?thesis by (simp add: none_in_def)
next
  case (Some x)
  with probe_meets [OF assms(1), of position last_position] show ?thesis by simp
qed

section \<open>The bisection\<close>

text \<open>
  \<open>splits_at\<close>: the messages before the position are not late enough, the messages from it on are, and
  the position is the first one or follows a message.
\<close>

definition splits_at :: "history \<Rightarrow> int \<Rightarrow> int \<Rightarrow> rat \<Rightarrow> bool \<Rightarrow> int \<Rightarrow> bool" where
  "splits_at h first_position last_position moment strictly_after p \<longleftrightarrow>
     first_position \<le> p \<and> p \<le> last_position + 1 \<and> (p = first_position \<or> h (p - 1) \<noteq> None)
     \<and> (\<forall>q t. first_position \<le> q \<longrightarrow> q \<le> last_position \<longrightarrow> h q = Some t
          \<longrightarrow> (late_enough strictly_after moment t \<longleftrightarrow> p \<le> q))"

lemma late_enough_mono: "late_enough strictly_after moment s \<Longrightarrow> s \<le> t \<Longrightarrow> late_enough strictly_after moment t"
  by (auto simp: late_enough_def split: if_splits)

text \<open>What the loop knows of its two ends.\<close>

definition brackets :: "history \<Rightarrow> int \<Rightarrow> int \<Rightarrow> rat \<Rightarrow> bool \<Rightarrow> int \<Rightarrow> int \<Rightarrow> bool" where
  "brackets h first_position last_position moment strictly_after low high \<longleftrightarrow>
     first_position \<le> low \<and> low \<le> high \<and> high \<le> last_position + 1
     \<and> (low = first_position \<or> h (low - 1) \<noteq> None)
     \<and> (\<forall>q t. first_position \<le> q \<longrightarrow> q < low \<longrightarrow> h q = Some t \<longrightarrow> \<not> late_enough strictly_after moment t)
     \<and> (\<forall>q t. high \<le> q \<longrightarrow> q \<le> last_position \<longrightarrow> h q = Some t \<longrightarrow> late_enough strictly_after moment t)"

lemma brackets_done:
  "brackets h first_position last_position moment strictly_after p p \<Longrightarrow>
   splits_at h first_position last_position moment strictly_after p"
  by (auto simp: brackets_def splits_at_def)

lemma brackets_none:
  "\<lbrakk>brackets h first_position last_position moment strictly_after low high; low \<le> m; m \<le> high;
    none_in h m last_position\<rbrakk> \<Longrightarrow>
   brackets h first_position last_position moment strictly_after low m"
  by (auto simp: brackets_def none_in_def)

lemma brackets_late:
  assumes "brackets h first_position last_position moment strictly_after low high" "low \<le> m" "m \<le> high"
    "first_from h m last_position x" "late_enough strictly_after moment (snd x)" "times_grow h"
  shows "brackets h first_position last_position moment strictly_after low m"
proof -
  have "late_enough strictly_after moment t" if "m \<le> q" "h q = Some t" for q t
  proof -
    have "fst x \<le> q"
      using assms(4) that by (fastforce simp: first_from_def none_in_def)
    then have "snd x \<le> t" using assms(4,6) that unfolding first_from_def times_grow_def by blast
    then show ?thesis using assms(5) late_enough_mono by blast
  qed
  then show ?thesis using assms(1,2,3) by (auto simp: brackets_def)
qed

lemma brackets_early:
  assumes "brackets h first_position last_position moment strictly_after low high" "low \<le> m" "m < high"
    "first_from h m last_position x" "\<not> late_enough strictly_after moment (snd x)" "times_grow h"
  shows "brackets h first_position last_position moment strictly_after (fst x + 1) high"
proof -
  have hx: "h (fst x) = Some (snd x)" "m \<le> fst x" "fst x \<le> last_position"
    using assms(4) by (simp_all add: first_from_def)
  have before: "fst x < high"
    using assms(1,5) hx(1,3) unfolding brackets_def by (meson not_less)
  have "\<not> late_enough strictly_after moment t" if "q < fst x + 1" "h q = Some t" for q t
  proof -
    have "t \<le> snd x" using assms(6) hx(1) that unfolding times_grow_def by simp
    then show ?thesis using assms(5) late_enough_mono by blast
  qed
  then show ?thesis using assms(1,2,3) before hx by (auto simp: brackets_def)
qed

lemma bisect_splits:
  assumes reads: "reads_history pull_times h" and grow: "times_grow h"
    and holes: "no_long_hole h first_position last_position"
  shows "brackets h first_position last_position moment strictly_after low high \<Longrightarrow>
    splits_at h first_position last_position moment strictly_after
      (bisect_positions pull_times last_position moment strictly_after low high)"
proof (induction "nat (high - low)" arbitrary: low high rule: less_induct)
  case less
  note unfolded = bisect_positions.simps [of pull_times last_position moment strictly_after low high]
  let ?middle = "(low + high) div 2"
  show ?case
  proof (cases "low < high")
    case False
    then have "low = high" using less.prems by (simp add: brackets_def)
    have "bisect_positions pull_times last_position moment strictly_after low high = low"
      using False by (simp only: unfolded if_False)
    with less.prems \<open>low = high\<close> show ?thesis by (simp add: brackets_done)
  next
    case True
    then have middle: "low \<le> ?middle" "?middle < high" by auto
    have finds: "case probe pull_times ?middle last_position of
        Some x \<Rightarrow> first_from h ?middle last_position x | None \<Rightarrow> none_in h ?middle last_position"
      using less.prems middle by (intro probe_finds [OF reads holes]) (simp add: brackets_def)
    show ?thesis
    proof (cases "probe pull_times ?middle last_position")
      case None
      then have next_bracket: "brackets h first_position last_position moment strictly_after low ?middle"
        using brackets_none [OF less.prems middle(1)] middle(2) finds by simp
      show ?thesis using less.hyps [OF _ next_bracket] True None unfolded middle by (simp add: Let_def)
    next
      case (Some x)
      then have x: "first_from h ?middle last_position x" using finds by simp
      show ?thesis
      proof (cases "late_enough strictly_after moment (snd x)")
        case late: True
        have next_bracket: "brackets h first_position last_position moment strictly_after low ?middle"
          using brackets_late [OF less.prems middle(1) _ x late grow] middle(2) by simp
        show ?thesis
          using less.hyps [OF _ next_bracket] True Some late unfolded middle by (simp add: Let_def split_beta)
      next
        case early: False
        have "brackets h first_position last_position moment strictly_after (fst x + 1) high"
          by (rule brackets_early [OF less.prems middle x early grow])
        moreover have "nat (high - (fst x + 1)) < nat (high - low)"
          using x middle by (auto simp: first_from_def)
        ultimately show ?thesis
          using less.hyps True Some early unfolded by (simp add: Let_def split_beta)
      qed
    qed
  qed
qed

lemma first_position_splits:
  assumes "reads_history pull_times h" "times_grow h" "no_long_hole h first_position last_position"
    "first_position \<le> last_position + 1"
  shows "splits_at h first_position last_position moment strictly_after
    (first_position_at_or_after pull_times first_position last_position moment strictly_after)"
  unfolding first_position_at_or_after_def
  using assms(4) by (intro bisect_splits [OF assms(1-3)]) (auto simp: brackets_def)

section \<open>The range and its pages\<close>

definition in_range :: "rat \<Rightarrow> rat \<Rightarrow> rat \<Rightarrow> bool" where
  "in_range from_time to_time t \<longleftrightarrow> from_time \<le> t \<and> t \<le> to_time"

text \<open>
  Over a history whose times grow and that has no hole of 2000 positions, the located range holds
  exactly the messages of the asked times; it is empty when there are none; it is refused only when it
  is longer than 20000 positions.
\<close>

theorem locate_exact:
  assumes "reads_history pull_times h" "times_grow h" "no_long_hole h first_position last_position"
    "1 \<le> first_position" "first_position \<le> last_position" "from_time \<le> to_time"
  shows "case locate_positions pull_times first_position last_position from_time to_time of
      Inl e \<Rightarrow> \<exists>n > MAX_EXPORT_POSITIONS. e = RangeTooLarge n
    | Inr r \<Rightarrow> (\<forall>p t. first_position \<le> p \<longrightarrow> p \<le> last_position \<longrightarrow> h p = Some t
          \<longrightarrow> (lo_start r \<le> p \<and> p \<le> lo_end r \<longleftrightarrow> in_range from_time to_time t))
        \<and> lo_count r = lo_end r - lo_start r + 1 \<and> lo_count r \<le> MAX_EXPORT_POSITIONS
        \<and> (lo_count r = 0 \<or> first_position \<le> lo_start r \<and> lo_end r \<le> last_position \<and> h (lo_end r) \<noteq> None)"
proof -
  define start where "start = first_position_at_or_after pull_times first_position last_position from_time False"
  define stop where "stop = first_position_at_or_after pull_times (max first_position start) last_position to_time True - 1"
  have start: "splits_at h first_position last_position from_time False start"
    unfolding start_def using assms(5) by (intro first_position_splits [OF assms(1-3)]) simp
  then have bounds: "first_position \<le> start" "start \<le> last_position + 1" by (simp_all add: splits_at_def)
  then have "no_long_hole h start last_position"
    using assms(3) by (fastforce simp: no_long_hole_def)
  with bounds have stop: "splits_at h start last_position to_time True (stop + 1)"
    using first_position_splits [OF assms(1,2)] by (simp add: stop_def max_absorb2)
  have between: "start \<le> p \<and> p \<le> stop \<longleftrightarrow> in_range from_time to_time t"
    if "first_position \<le> p" "p \<le> last_position" "h p = Some t" for p t
  proof -
    have "start \<le> p \<longleftrightarrow> from_time \<le> t"
      using start that by (auto simp: splits_at_def late_enough_def)
    moreover have "p \<le> stop \<longleftrightarrow> t \<le> to_time" if "start \<le> p"
      using stop \<open>p \<le> last_position\<close> \<open>h p = Some t\<close> that by (fastforce simp: splits_at_def late_enough_def)
    ultimately show ?thesis unfolding in_range_def by blast
  qed
  have ends: "stop \<le> last_position" "start \<le> stop \<Longrightarrow> h stop \<noteq> None"
    using stop by (auto simp: splits_at_def)
  note located = locate_positions_def [of pull_times first_position last_position from_time to_time,
      folded start_def, unfolded Let_def, folded start_def, folded stop_def]
  show ?thesis
  proof (cases "last_position < start \<or> stop < start")
    case True
    then have "locate_positions pull_times first_position last_position from_time to_time = Inr nothing_located"
      using assms(4-6) by (simp add: located)
    moreover have "\<not> in_range from_time to_time t"
      if "first_position \<le> p" "p \<le> last_position" "h p = Some t" for p t
      using between [OF that] True that(2) by auto
    ultimately show ?thesis by (auto simp: nothing_located_def MAX_EXPORT_POSITIONS_def)
  next
    case False
    then show ?thesis
      using assms(4-6) between ends bounds by (auto simp: located)
  qed
qed

definition dense_chat :: history where
  "dense_chat p = (if 1 \<le> p \<and> p \<le> 40 \<and> p mod 7 \<noteq> 0 then Some (of_int (p * 60)) else None)"

definition dense_gateway :: pull_times where
  "dense_gateway start stop = rev (map (\<lambda>p. (p, the (dense_chat p))) (filter (\<lambda>p. dense_chat p \<noteq> None) [start..stop]))"

lemma dense_gateway_reads: "reads_history dense_gateway dense_chat"
  by (auto simp: reads_history_def dense_gateway_def)

lemma dense_chat_grows: "times_grow dense_chat"
  by (auto simp: times_grow_def dense_chat_def split: if_splits)

lemma dense_chat_holes: "no_long_hole dense_chat 1 40"
  by (auto simp: no_long_hole_def MAX_PROBE_SPAN_def)

lemma dense_chat_located:
  "locate_positions dense_gateway 1 40 600 1300 = Inr \<lparr>lo_start = 10, lo_end = 20, lo_count = 11\<rparr>"
  by code_simp

theorem locate_exact_witness:
  "locate_positions dense_gateway 1 40 600 1300 = Inr \<lparr>lo_start = 10, lo_end = 20, lo_count = 11\<rparr>
   \<and> (dense_chat 21 = None \<and> \<not> in_range 600 1300 1320 \<and> dense_chat 20 \<noteq> None)"
proof -
  have at: "(10 \<le> p \<and> p \<le> 20) = in_range 600 1300 t" if "1 \<le> p" "p \<le> 40" "dense_chat p = Some t" for p t
    using locate_exact [OF dense_gateway_reads dense_chat_grows dense_chat_holes, of 600 1300] that
    by (simp add: dense_chat_located)
  show ?thesis
    using at [of 22 1320] by (simp add: dense_chat_located dense_chat_def)
qed

section \<open>The pages\<close>

lemma page_chain_from:
  "start \<le> c \<Longrightarrow> c \<le> stop \<Longrightarrow>
   concat (map (\<lambda>(a, b). [a..b]) (page_chain start stop (Some c))) = [c..stop]
   \<and> (\<forall>x\<in>set (page_chain start stop (Some c)). c \<le> fst x \<and> fst x \<le> snd x \<and> snd x - fst x + 1 \<le> PAGE_SIZE)"
proof (induction "nat (stop - c)" arbitrary: c rule: less_induct)
  case less
  have bounds: "page_bounds start stop (Some c) =
      (c, min stop (c + PAGE_SIZE - 1), if c + PAGE_SIZE \<le> stop then Some (c + PAGE_SIZE) else None)"
    using less.prems by (auto simp: page_bounds_def Let_def)
  show ?case
  proof (cases "c + PAGE_SIZE \<le> stop")
    case True
    have chain: "page_chain start stop (Some c) = (c, c + PAGE_SIZE - 1) # page_chain start stop (Some (c + PAGE_SIZE))"
      using True bounds by (subst page_chain.simps) simp
    have "[c..stop] = [c..c + PAGE_SIZE - 1] @ [c + PAGE_SIZE..stop]"
      using True upto_split2 [of c "c + PAGE_SIZE - 1" stop] by (simp add: PAGE_SIZE_def add.commute)
    then show ?thesis
      using less.hyps [of "c + PAGE_SIZE"] less.prems True chain by (auto simp: PAGE_SIZE_def)
  next
    case False
    then have "page_chain start stop (Some c) = [(c, stop)]"
      using bounds less.prems by (subst page_chain.simps) (simp add: PAGE_SIZE_def)
    then show ?thesis using False less.prems by simp
  qed
qed

lemma page_chain_start: "page_chain start stop None = page_chain start stop (Some start)"
  by (subst (1 2) page_chain.simps) (simp add: page_bounds_def)

text \<open>The law of the gateway: a request is answered with the messages at its positions, one for each.\<close>

definition serves :: "pull_raw \<Rightarrow> (int \<Rightarrow> raw_message option) \<Rightarrow> bool" where
  "serves pull_raw chat \<longleftrightarrow>
     (\<forall>positions. distinct (map fst (pull_raw positions))
        \<and> (\<forall>p m. (p, m) \<in> set (pull_raw positions) \<longleftrightarrow> p \<in> set positions \<and> chat p = Some m))"

definition positions_agree :: "(int \<Rightarrow> raw_message option) \<Rightarrow> bool" where
  "positions_agree chat \<longleftrightarrow> (\<forall>p m. chat p = Some m \<longrightarrow> fst (raw_time (p, m)) = p)"

definition time_of :: "raw_message \<Rightarrow> rat" where
  "time_of m = or_else (rm_create_time m) 0"

definition times_of :: "(int \<Rightarrow> raw_message option) \<Rightarrow> history" where
  "times_of chat p = map_option time_of (chat p)"

definition messages_at :: "(int \<Rightarrow> raw_message option) \<Rightarrow> int list \<Rightarrow> (int \<times> raw_message) list" where
  "messages_at chat positions = map (\<lambda>p. (p, the (chat p))) (filter (\<lambda>p. chat p \<noteq> None) positions)"

lemma history_times_reads:
  assumes "serves pull_raw chat" "positions_agree chat"
  shows "reads_history (history_times pull_raw) (times_of chat)"
proof -
  have raw: "raw_time (p, m) = (p, time_of m)" if "chat p = Some m" for p m
    using assms(2) that by (auto simp: positions_agree_def raw_time_def time_of_def)
  have "(p, t) \<in> set (history_times pull_raw start stop) \<longleftrightarrow> start \<le> p \<and> p \<le> stop \<and> times_of chat p = Some t"
    for start stop p t
  proof -
    have "(p, t) \<in> set (history_times pull_raw start stop) \<longleftrightarrow>
        (\<exists>q m. q \<in> set [start..stop] \<and> chat q = Some m \<and> raw_time (q, m) = (p, t))"
      using assms(1) by (force simp: history_times_def serves_def image_iff)
    then show ?thesis using raw by (auto simp: times_of_def)
  qed
  then show ?thesis by (simp add: reads_history_def)
qed

lemma page_messages:
  assumes "serves pull_raw chat"
  shows "sort_key fst (pull_raw [a..b]) = messages_at chat [a..b]"
proof (rule map_sorted_distinct_set_unique [of fst])
  have same: "set (messages_at chat [a..b]) = set (pull_raw [a..b])"
    using assms by (auto simp: serves_def messages_at_def image_iff)
  then show "set (sort_key fst (pull_raw [a..b])) = set (messages_at chat [a..b])" by simp
  have keys: "distinct (map fst (pull_raw [a..b]))" using assms by (simp add: serves_def)
  then show "distinct (map fst (sort_key fst (pull_raw [a..b])))"
    by (simp add: distinct_map)
  show "inj_on fst (set (sort_key fst (pull_raw [a..b])) \<union> set (messages_at chat [a..b]))"
    using keys same by (simp add: distinct_map)
  have "map fst (messages_at chat [a..b]) = filter (\<lambda>p. chat p \<noteq> None) [a..b]"
    by (simp add: messages_at_def comp_def)
  then show "sorted (map fst (messages_at chat [a..b]))" "distinct (map fst (messages_at chat [a..b]))"
    by (simp_all add: sorted_wrt_filter)
qed simp

lemma messages_at_concat:
  "concat (map (\<lambda>x. messages_at chat (f x)) xs) = messages_at chat (concat (map f xs))"
  by (induction xs) (auto simp: messages_at_def)

lemma export_pages_messages:
  assumes "serves pull_raw chat" "1 \<le> start" "start \<le> stop"
  shows "\<exists>pages. export_pages pull_raw start stop = Inr pages \<and> concat pages = messages_at chat [start..stop]"
proof -
  have chain: "concat (map (\<lambda>(a, b). [a..b]) (page_chain start stop None)) = [start..stop]"
    "\<forall>x\<in>set (page_chain start stop None). start \<le> fst x \<and> fst x \<le> snd x \<and> snd x - fst x + 1 \<le> PAGE_SIZE"
    using page_chain_from [of start start stop] assms(3) by (simp_all add: page_chain_start)
  have "export_pages pull_raw start stop = Inr (map (\<lambda>x. messages_at chat [fst x..snd x]) (page_chain start stop None))"
    unfolding export_pages_def
    using chain(2) assms(2) by (intro mapR_total) (fastforce simp: history_page_def page_messages [OF assms(1)] split_beta)
  moreover have "concat (map (\<lambda>x. messages_at chat [fst x..snd x]) (page_chain start stop None)) = messages_at chat [start..stop]"
    using chain(1) messages_at_concat [of chat "\<lambda>x. [fst x..snd x]" "page_chain start stop None"]
    by (simp add: case_prod_unfold)
  ultimately show ?thesis by blast
qed

lemma filter_messages:
  "(\<And>p m. p \<in> set ps \<Longrightarrow> chat p = Some m \<Longrightarrow> keep m \<longleftrightarrow> inside p) \<Longrightarrow>
   filter (\<lambda>(p, m). keep m) (messages_at chat ps) = messages_at chat (filter inside ps)"
proof (induction ps)
  case (Cons p ps)
  then have "filter (\<lambda>(p, m). keep m) (messages_at chat ps) = messages_at chat (filter inside ps)" by simp
  then show ?case using Cons.prems [of p] by (cases "chat p") (auto simp: messages_at_def)
qed (simp add: messages_at_def)

lemma filter_upto:
  "a \<le> s \<Longrightarrow> e \<le> b \<Longrightarrow> filter (\<lambda>p. s \<le> p \<and> p \<le> e) [a..b] = [s..e]" for a :: int
  by (rule sorted_distinct_set_unique) (auto simp: sorted_wrt_filter)


definition chat_0 :: "int \<Rightarrow> raw_message option" where
  "chat_0 p = map_option (\<lambda>t. \<lparr>rm_position = None, rm_create_time = Some t\<rparr>) (dense_chat p)"

definition gateway_0 :: pull_raw where
  "gateway_0 positions = map (\<lambda>p. (p, the (chat_0 p))) (filter (\<lambda>p. chat_0 p \<noteq> None) (rev (remdups positions)))"

definition info_0 :: chat_info where
  "info_0 = \<lparr>ci_first = None, ci_last = Some 40\<rparr>"

lemma gateway_0_serves: "serves gateway_0 chat_0"
  by (auto simp: serves_def gateway_0_def comp_def)

lemma chat_0_agrees: "positions_agree chat_0"
  by (auto simp: positions_agree_def chat_0_def raw_time_def or_else_def)

lemma chat_0_times: "times_of chat_0 = dense_chat"
  by (rule ext) (auto simp: times_of_def chat_0_def time_of_def or_else_def option.map_comp comp_def
      dense_chat_def)

lemma located_0: "history_locate gateway_0 info_0 600 1300 = Inr \<lparr>lo_start = 10, lo_end = 20, lo_count = 11\<rparr>"
  by code_simp


text \<open>
  A hole the probe does not cross ends the history for the search: of the messages on either side of
  4997 missing positions, asking for the times of the later ones finds nothing.
\<close>

definition split_gateway :: pull_times where
  "split_gateway start stop =
     filter (\<lambda>x. start \<le> fst x \<and> fst x \<le> stop) [(1, 1), (2, 2), (5000, 5000), (5001, 5001)]"

lemma long_hole_hides_messages:
  "locate_positions split_gateway 1 5001 5000 5001 = Inr nothing_located
   \<and> split_gateway 5000 5001 = [(5000, 5000), (5001, 5001)]"
  by code_simp

end
