(* ===== verification/XhsQueue.thy ===== *)
theory XhsQueue
  imports PyCells AshareReality
begin

text \<open>
  \<open>xhs-intel/store.py\<close>: the durable queue between the collector of notes and the workers that screen
  and summarise them, and the delivery of the summaries by \<open>xhs-intel/edge_api.py\<close>. A table is the
  list of its rows in the order of their insertion; each method is one transaction, so an error leaves
  the tables as they were. Instants are the floats of \<open>time.time()\<close>, arguments here. A stored JSON text
  is the value it reads back as, without the fields that are only shown or handed on to the models.
  Rows with equal sort keys are read in the order of their insertion. Left out are the queue of the daily
  digest, the marker appended to every message and the check that the address of the hook is set.
\<close>

section \<open>Tables\<close>

text \<open>A note, as far as the store reads it; \<open>no_watched\<close> is the truth of its \<open>watch_user_id\<close>.\<close>

record xhs_note =
  no_id :: string
  no_hash :: string
  no_watched :: bool

record note_row =
  nr_revision :: string
  nr_body :: xhs_note
  nr_first_seen :: rat
  nr_last_seen :: rat
  nr_job :: "string option"

datatype job_status = Pending | Processing | Ready | Completed | Sent | Failed

datatype job_type = Summary | SingleNote | DailyDigest | ClassifyNotes | ClassifyRecommendations
  | ClassifyProfiles | ManualMessage

text \<open>The notes of a payload with their \<open>_candidate_id\<close>; \<open>pl_live\<close> is \<open>fetch_source == 'live'\<close>.\<close>

record job_payload =
  pl_notes :: "(string \<times> xhs_note) list"
  pl_candidates :: "string list"
  pl_deliver :: bool
  pl_live :: bool

text \<open>
  What a worker returns. \<open>None\<close> is a summary that is not a text, an answer that is not a list, a number
  that does not convert. The decision is the lower-case text.
\<close>

record screening_decision =
  de_candidate :: string
  de_note :: string
  de_decision :: string
  de_score :: "rat option"
  de_confidence :: "rat option"

datatype screening_item = NotAnObject | Decided screening_decision

record work_result =
  wr_summary :: "string option"
  wr_model :: string
  wr_decisions :: "screening_item list option"
  wr_profiles :: "screening_item list option"

record job_row =
  jb_id :: string
  jb_status :: job_status
  jb_payload :: job_payload
  jb_created :: rat
  jb_updated :: rat
  jb_available :: rat
  jb_attempts :: nat
  jb_lease :: "string option"
  jb_lease_until :: "rat option"
  jb_worker :: "string option"
  jb_result :: "work_result option"
  jb_result_hash :: "string option"
  jb_error :: "string option"
  jb_type :: job_type
  jb_run :: "string option"
  jb_parent :: "string option"

record run_row =
  ru_id :: string
  ru_status :: string
  ru_requested :: int
  ru_fetched :: int
  ru_added :: int
  ru_classified :: nat
  ru_selected :: nat
  ru_review :: nat
  ru_rejected :: nat
  ru_error :: "string option"
  ru_finished :: "rat option"

record item_row =
  it_run :: string
  it_candidate :: string
  it_rank :: int
  it_state :: string

record store =
  st_notes :: "note_row list"
  st_jobs :: "job_row list"
  st_parts :: "(string \<times> nat) list"
  st_topics :: "(string \<times> string) list"
  st_runs :: "run_row list"
  st_items :: "item_row list"
  st_screenings :: "((string \<times> string) \<times> string) list"
  st_profiles :: "((string \<times> string) \<times> string) list"
  st_workers :: "(string \<times> rat) list"

definition empty_store :: store where
  "empty_store = \<lparr>st_notes = [], st_jobs = [], st_parts = [], st_topics = [], st_runs = [], st_items = [],
     st_screenings = [], st_profiles = [], st_workers = []\<rparr>"

datatype store_error = LeaseLost | InvalidLane | InvalidSummary | NoDecisions | NotCovering
  | InvalidDecision | InvalidScore | Unconverted | IntegrityError | BadMessage | UnknownRun | EmptyRun | NoCandidates

text \<open>
  \<open>common.digest\<close> is the SHA-256 of a JSON text; its values on lists of texts, on a text and on a result
  are arguments.
\<close>

record digests =
  dg_list :: "string list \<Rightarrow> string"
  dg_text :: "string \<Rightarrow> string"
  dg_result :: "work_result \<Rightarrow> string"

definition revision_of :: "digests \<Rightarrow> xhs_note \<Rightarrow> string" where
  "revision_of hx body = dg_list hx [no_id body, no_hash body]"

section \<open>Rows\<close>

definition find_job :: "string \<Rightarrow> store \<Rightarrow> job_row option" where
  "find_job job st = find (\<lambda>r. jb_id r = job) (st_jobs st)"

definition update_job :: "string \<Rightarrow> (job_row \<Rightarrow> job_row) \<Rightarrow> store \<Rightarrow> store" where
  "update_job job f st = st\<lparr>st_jobs := map (\<lambda>r. if jb_id r = job then f r else r) (st_jobs st)\<rparr>"

definition empty_payload :: job_payload where
  "empty_payload = \<lparr>pl_notes = [], pl_candidates = [], pl_deliver = False, pl_live = False\<rparr>"

definition new_job :: "string \<Rightarrow> job_status \<Rightarrow> job_type \<Rightarrow> job_payload \<Rightarrow> rat \<Rightarrow> job_row" where
  "new_job job status kind payload stamp =
     \<lparr>jb_id = job, jb_status = status, jb_payload = payload, jb_created = stamp, jb_updated = stamp,
      jb_available = 0, jb_attempts = 0, jb_lease = None, jb_lease_until = None, jb_worker = None,
      jb_result = None, jb_result_hash = None, jb_error = None, jb_type = kind, jb_run = None, jb_parent = None\<rparr>"

text \<open>\<open>INSERT INTO jobs\<close> with its primary key, and \<open>INSERT OR IGNORE\<close>.\<close>

definition insert_job :: "job_row \<Rightarrow> store \<Rightarrow> store_error + store" where
  "insert_job row st =
     (if find_job (jb_id row) st = None then Inr (st\<lparr>st_jobs := st_jobs st @ [row]\<rparr>) else Inl IntegrityError)"

definition insert_job_if_new :: "job_row \<Rightarrow> store \<Rightarrow> store" where
  "insert_job_if_new row st =
     (if find_job (jb_id row) st = None then st\<lparr>st_jobs := st_jobs st @ [row]\<rparr> else st)"

definition insert_note_if_new :: "note_row \<Rightarrow> store \<Rightarrow> store" where
  "insert_note_if_new row st =
     (if nr_revision row \<in> nr_revision ` set (st_notes st) then st else st\<lparr>st_notes := st_notes st @ [row]\<rparr>)"

definition update_notes :: "(note_row \<Rightarrow> bool) \<Rightarrow> (note_row \<Rightarrow> note_row) \<Rightarrow> store \<Rightarrow> store" where
  "update_notes p f st = st\<lparr>st_notes := map (\<lambda>r. if p r then f r else r) (st_notes st)\<rparr>"

definition put :: "'k \<Rightarrow> 'v \<Rightarrow> ('k \<times> 'v) list \<Rightarrow> ('k \<times> 'v) list" where
  "put k v rows = filter (\<lambda>x. fst x \<noteq> k) rows @ [(k, v)]"

section \<open>Notes\<close>

definition add_note :: "digests \<Rightarrow> xhs_note \<Rightarrow> rat \<Rightarrow> store \<Rightarrow> bool \<times> store" where
  "add_note hx body stamp st =
     (let revision = revision_of hx body;
          row = \<lparr>nr_revision = revision, nr_body = body, nr_first_seen = stamp, nr_last_seen = stamp, nr_job = None\<rparr>
      in (revision \<notin> nr_revision ` set (st_notes st),
          update_notes (\<lambda>r. nr_revision r = revision) (\<lambda>r. r\<lparr>nr_last_seen := stamp\<rparr>) (insert_note_if_new row st)))"

text \<open>\<open>payload_value\<close> is built from the call; an existing job keeps its payload but for the two flags.\<close>

definition single_payload :: "xhs_note \<Rightarrow> bool \<Rightarrow> bool \<Rightarrow> job_payload" where
  "single_payload body deliver live = \<lparr>pl_notes = [([], body)], pl_candidates = [], pl_deliver = deliver, pl_live = live\<rparr>"

definition merged_payload :: "xhs_note \<Rightarrow> bool \<Rightarrow> bool \<Rightarrow> job_payload \<Rightarrow> job_payload" where
  "merged_payload body deliver live old =
     (let p = old\<lparr>pl_deliver := deliver \<or> pl_deliver old\<rparr> in
      if live \<and> \<not> pl_live old then p\<lparr>pl_live := True, pl_notes := [([], body)]\<rparr> else p)"

definition reset_job :: "rat \<Rightarrow> job_row \<Rightarrow> job_row" where
  "reset_job stamp r = r\<lparr>jb_status := Pending, jb_available := 0, jb_attempts := 0, jb_lease := None,
     jb_lease_until := None, jb_worker := None, jb_error := None, jb_updated := stamp\<rparr>"

definition single_job_id :: "digests \<Rightarrow> xhs_note \<Rightarrow> string" where
  "single_job_id hx body = ''xhs-single-'' @ take 32 (revision_of hx body)"

definition single_update :: "xhs_note \<Rightarrow> bool \<Rightarrow> bool \<Rightarrow> rat \<Rightarrow> job_row \<Rightarrow> job_row" where
  "single_update body deliver live stamp r =
     (let p = merged_payload body deliver live (jb_payload r);
          r' = (if p = jb_payload r then r else r\<lparr>jb_payload := p, jb_updated := stamp\<rparr>) in
      if jb_status r = Failed then reset_job stamp r'
      else if jb_status r = Completed \<and> pl_deliver p then r'\<lparr>jb_status := Ready, jb_updated := stamp, jb_error := None\<rparr>
      else r')"

definition enqueue_single_note :: "digests \<Rightarrow> xhs_note \<Rightarrow> bool \<Rightarrow> bool \<Rightarrow> rat \<Rightarrow> store \<Rightarrow> store" where
  "enqueue_single_note hx body deliver live stamp st =
     (let revision = revision_of hx body; job = single_job_id hx body;
          row = \<lparr>nr_revision = revision, nr_body = body, nr_first_seen = stamp, nr_last_seen = stamp, nr_job = Some job\<rparr>;
          st1 = update_notes (\<lambda>r. nr_revision r = revision)
                  (\<lambda>r. r\<lparr>nr_last_seen := stamp, nr_job := (case nr_job r of None \<Rightarrow> Some job | Some j \<Rightarrow> Some j)\<rparr>)
                  (insert_note_if_new row st);
          st2 = insert_job_if_new (new_job job Pending SingleNote (single_payload body deliver live) stamp) st1
      in update_job job (single_update body deliver live stamp) st2)"

text \<open>One call of \<open>enqueue_pending\<close>: the watched notes of the oldest unassigned ones first, alone.\<close>

definition unassigned :: "nat \<Rightarrow> store \<Rightarrow> note_row list" where
  "unassigned max_rows st = take max_rows (sort_key nr_first_seen (filter (\<lambda>r. nr_job r = None) (st_notes st)))"

definition assign :: "string \<Rightarrow> note_row list \<Rightarrow> store \<Rightarrow> store" where
  "assign job rows = update_notes (\<lambda>r. nr_revision r \<in> nr_revision ` set rows) (\<lambda>r. r\<lparr>nr_job := Some job\<rparr>)"

definition pending_batch :: "digests \<Rightarrow> note_row list \<Rightarrow> rat \<Rightarrow> note_row list \<times> job_row" where
  "pending_batch hx rows stamp =
     (let watched = filter (\<lambda>r. no_watched (nr_body r)) rows in
      if watched \<noteq> []
      then (watched, new_job (''xhs-'' @ take 32 (dg_list hx (map nr_revision watched))) Pending Summary
             (empty_payload\<lparr>pl_notes := map (\<lambda>r. ([], nr_body r)) watched\<rparr>) stamp)
      else (rows, new_job (''xhs-screen-'' @ take 32 (dg_list hx (map nr_revision rows))) Pending ClassifyNotes
             (empty_payload\<lparr>pl_notes := map (\<lambda>r. (nr_revision r, nr_body r)) rows, pl_candidates := map nr_revision rows\<rparr>) stamp))"

definition enqueue_pending :: "digests \<Rightarrow> nat \<Rightarrow> rat \<Rightarrow> store \<Rightarrow> store_error + string option \<times> store" where
  "enqueue_pending hx max_rows stamp st =
     (let rows = unassigned max_rows st in
      if rows = [] then Inr (None, st)
      else let (batch, job) = pending_batch hx rows stamp in
           bindR (insert_job job st) (\<lambda>st'. Inr (Some (jb_id job), assign (jb_id job) batch st')))"

text \<open>\<open>while STORE.enqueue_pending(): pass\<close>.\<close>

partial_function (option) enqueue_all :: "digests \<Rightarrow> (nat \<Rightarrow> rat) \<Rightarrow> nat \<Rightarrow> store \<Rightarrow> (store_error + store) option" where
  "enqueue_all hx clock n st =
     (case enqueue_pending hx 12 (clock n) st of
        Inl e \<Rightarrow> Some (Inl e)
      | Inr (job, st') \<Rightarrow> if job = None then Some (Inr st') else enqueue_all hx clock (Suc n) st')"

section \<open>Leases\<close>

definition claimable :: "rat \<Rightarrow> job_row \<Rightarrow> bool" where
  "claimable stamp r =
     (jb_status r = Pending \<and> jb_available r \<le> stamp
      \<or> jb_status r = Processing \<and> (case jb_lease_until r of None \<Rightarrow> False | Some t \<Rightarrow> t < stamp))"

definition in_lane :: "string \<Rightarrow> job_row \<Rightarrow> bool" where
  "in_lane lane r =
     (if lane = ''interactive'' then jb_type r = SingleNote
      else if lane = ''batch'' then jb_type r \<noteq> SingleNote else True)"

definition claim_order :: "job_row \<Rightarrow> nat" where
  "claim_order r = (if jb_type r = SingleNote then 0 else 1)"

definition next_job :: "rat \<Rightarrow> string \<Rightarrow> store \<Rightarrow> job_row option" where
  "next_job stamp lane st =
     (case sort_key claim_order (sort_key jb_created (filter (\<lambda>r. claimable stamp r \<and> in_lane lane r) (st_jobs st))) of
        [] \<Rightarrow> None | r # _ \<Rightarrow> Some r)"

definition lease_job :: "string \<Rightarrow> string \<Rightarrow> rat \<Rightarrow> job_row \<Rightarrow> job_row" where
  "lease_job worker lease stamp r = r\<lparr>jb_status := Processing, jb_worker := Some worker, jb_lease := Some lease,
     jb_lease_until := Some (fadd stamp 180), jb_attempts := jb_attempts r + 1, jb_updated := stamp\<rparr>"

text \<open>The lease is a fresh \<open>uuid4\<close>, an argument.\<close>

definition claim_job ::
    "string \<Rightarrow> string option \<Rightarrow> string \<Rightarrow> rat \<Rightarrow> store \<Rightarrow> store_error + job_row option \<times> store" where
  "claim_job worker lane lease stamp st =
     (let lane = py_lower (py_strip (str_or lane [])) in
      if lane \<notin> {[], ''interactive'', ''batch''} then Inl InvalidLane
      else let st1 = st\<lparr>st_workers := put worker stamp (st_workers st)\<rparr> in
           case next_job stamp lane st of
             None \<Rightarrow> Inr (None, st1)
           | Some r \<Rightarrow> Inr (Some r, update_job (jb_id r) (lease_job worker lease stamp) st1))"

definition heartbeat :: "string \<Rightarrow> string \<Rightarrow> rat \<Rightarrow> store \<Rightarrow> store_error + store" where
  "heartbeat job lease stamp st =
     (case find_job job st of
        Some r \<Rightarrow>
          if jb_status r = Processing \<and> jb_lease r = Some lease
             \<and> (case jb_lease_until r of None \<Rightarrow> False | Some t \<Rightarrow> stamp \<le> t)
          then Inr (update_job job (\<lambda>r. r\<lparr>jb_lease_until := Some (fadd stamp 180), jb_updated := stamp\<rparr>) st)
          else Inl LeaseLost
      | None \<Rightarrow> Inl LeaseLost)"

text \<open>A row in processing has its lease and the end of it together.\<close>

definition lease_valid :: "string \<Rightarrow> rat \<Rightarrow> job_row \<Rightarrow> bool" where
  "lease_valid lease stamp r =
     (jb_lease r = Some lease \<and> jb_status r = Processing
      \<and> (case jb_lease_until r of None \<Rightarrow> False | Some t \<Rightarrow> stamp \<le> t))"

section \<open>Completions\<close>

datatype completion = Stored | Duplicate

definition update_runs :: "(run_row \<Rightarrow> bool) \<Rightarrow> (run_row \<Rightarrow> run_row) \<Rightarrow> store \<Rightarrow> store" where
  "update_runs p f st = st\<lparr>st_runs := map (\<lambda>r. if p r then f r else r) (st_runs st)\<rparr>"

definition update_items :: "(item_row \<Rightarrow> bool) \<Rightarrow> (item_row \<Rightarrow> item_row) \<Rightarrow> store \<Rightarrow> store" where
  "update_items p f st = st\<lparr>st_items := map (\<lambda>r. if p r then f r else r) (st_items st)\<rparr>"

definition finish_job :: "job_status \<Rightarrow> digests \<Rightarrow> work_result \<Rightarrow> rat \<Rightarrow> job_row \<Rightarrow> job_row" where
  "finish_job status hx result stamp r = r\<lparr>jb_status := status, jb_result := Some result,
     jb_result_hash := Some (dg_result hx result), jb_updated := stamp, jb_error := None\<rparr>"

definition has_run :: "job_row \<Rightarrow> bool" where
  "has_run r = (jb_run r \<noteq> None \<and> jb_run r \<noteq> Some [])"

definition summary_status :: "job_row \<Rightarrow> job_status" where
  "summary_status r =
     (if jb_type r \<in> {SingleNote, DailyDigest} \<and> \<not> pl_deliver (jb_payload r) then Completed else Ready)"

definition after_summary :: "digests \<Rightarrow> string \<Rightarrow> work_result \<Rightarrow> rat \<Rightarrow> job_row \<Rightarrow> store \<Rightarrow> store" where
  "after_summary hx job result stamp r st =
     (let st1 = update_job job (finish_job (summary_status r) hx result stamp) st in
      if has_run r \<and> jb_type r = Summary
      then update_runs (\<lambda>u. Some (ru_id u) = jb_run r \<and> ru_status u = ''summary_queued'')
             (\<lambda>u. u\<lparr>ru_status := ''summary_ready'', ru_finished := Some stamp, ru_error := None\<rparr>) st1
      else st1)"

definition complete_summary ::
    "digests \<Rightarrow> string \<Rightarrow> string \<Rightarrow> work_result \<Rightarrow> rat \<Rightarrow> store \<Rightarrow> store_error + completion \<times> store" where
  "complete_summary hx job lease result stamp st =
     (if wr_summary result = None \<or> py_strip (the (wr_summary result)) = []
         \<or> 20000 < length (the (wr_summary result)) \<or> wr_model result = []
      then Inl InvalidSummary
      else case find_job job st of
        None \<Rightarrow> Inl LeaseLost
      | Some r \<Rightarrow>
          if jb_lease r = Some lease \<and> jb_result_hash r = Some (dg_result hx result) then Inr (Duplicate, st)
          else if \<not> lease_valid lease stamp r then Inl LeaseLost
          else Inr (Stored, after_summary hx job result stamp r st))"

text \<open>The decisions of a screening: one for each candidate and no others, each with its numbers in range.\<close>

definition decided :: "screening_item list \<Rightarrow> screening_decision list" where
  "decided items = List.map_filter (\<lambda>i. case i of Decided d \<Rightarrow> Some d | NotAnObject \<Rightarrow> None) items"

definition covers :: "(screening_decision \<Rightarrow> string) \<Rightarrow> string list \<Rightarrow> screening_item list \<Rightarrow> bool" where
  "covers key allowed items \<longleftrightarrow>
     set (map key (decided items)) = set allowed \<and> length items = card (set allowed)"

definition check_decision :: "screening_decision \<Rightarrow> store_error + screening_decision" where
  "check_decision d =
     (if de_decision d \<notin> {''include'', ''review'', ''exclude''} then Inl InvalidDecision
      else case (de_score d, de_confidence d) of
        (Some s, Some c) \<Rightarrow> if 0 \<le> s \<and> s \<le> 1 \<and> 0 \<le> c \<and> c \<le> 1 then Inr d else Inl InvalidScore
      | _ \<Rightarrow> Inl Unconverted)"

definition checked_decisions :: "(screening_decision \<Rightarrow> string) \<Rightarrow> string list \<Rightarrow> screening_item list \<Rightarrow> store_error + screening_decision list" where
  "checked_decisions key allowed items =
     (if \<not> covers key allowed items then Inl NotCovering else mapR check_decision (decided items))"

definition put_all :: "('a \<Rightarrow> 'k) \<Rightarrow> ('a \<Rightarrow> 'v) \<Rightarrow> 'a list \<Rightarrow> ('k \<times> 'v) list \<Rightarrow> ('k \<times> 'v) list" where
  "put_all key val xs rows = foldl (\<lambda>rows x. put (key x) (val x) rows) rows xs"

definition included :: "screening_decision list \<Rightarrow> screening_decision list" where
  "included ds = filter (\<lambda>d. de_decision d = ''include'') ds"

definition tally :: "string \<Rightarrow> screening_decision list \<Rightarrow> nat" where
  "tally word ds = length (filter (\<lambda>d. de_decision d = word) ds)"

text \<open>\<open>notes_by_revision\<close>: of two notes under one id the later one counts.\<close>

definition screened_notes :: "job_payload \<Rightarrow> screening_decision list \<Rightarrow> (string \<times> xhs_note) list" where
  "screened_notes payload ds =
     List.map_filter (\<lambda>d. map_option (\<lambda>n. (de_candidate d, n)) (map_of (rev (pl_notes payload)) (de_candidate d)))
       (included ds)"

definition open_screening :: "job_type \<Rightarrow> string \<Rightarrow> string \<Rightarrow> rat \<Rightarrow> store \<Rightarrow> store_error + job_row" where
  "open_screening kind job lease stamp st =
     (case find_job job st of
        None \<Rightarrow> Inl LeaseLost
      | Some r \<Rightarrow> if jb_type r \<noteq> kind \<or> \<not> lease_valid lease stamp r then Inl LeaseLost else Inr r)"

definition screened_summary :: "digests \<Rightarrow> string \<Rightarrow> (string \<times> xhs_note) list \<Rightarrow> rat \<Rightarrow> job_row" where
  "screened_summary hx job selected stamp =
     (new_job (''xhs-screened-'' @ take 32 (dg_text hx job)) Pending Summary (empty_payload\<lparr>pl_notes := selected\<rparr>) stamp)
       \<lparr>jb_parent := Some job\<rparr>"

definition after_note_filter ::
    "digests \<Rightarrow> string \<Rightarrow> work_result \<Rightarrow> rat \<Rightarrow> job_row \<Rightarrow> screening_decision list \<Rightarrow> store \<Rightarrow> store" where
  "after_note_filter hx job result stamp r ds st =
     (let selected = screened_notes (jb_payload r) ds;
          st1 = st\<lparr>st_topics := put_all de_candidate de_decision ds (st_topics st)\<rparr>;
          st2 = (if selected \<noteq> [] then insert_job_if_new (screened_summary hx job selected stamp) st1 else st1)
      in update_job job (finish_job Completed hx result stamp) st2)"

definition complete_note_filter ::
    "digests \<Rightarrow> string \<Rightarrow> string \<Rightarrow> work_result \<Rightarrow> rat \<Rightarrow> store \<Rightarrow> store_error + store" where
  "complete_note_filter hx job lease result stamp st =
     (case wr_decisions result of
        None \<Rightarrow> Inl NoDecisions
      | Some items \<Rightarrow>
          bindR (open_screening ClassifyNotes job lease stamp st) (\<lambda>r.
          bindR (checked_decisions de_candidate (pl_candidates (jb_payload r)) items) (\<lambda>ds.
            Inr (after_note_filter hx job result stamp r ds st))))"

text \<open>The key of a recommended note: \<open>item.get('candidate_id') or item.get('note_id')\<close>.\<close>

definition filter_key :: "screening_decision \<Rightarrow> string" where
  "filter_key d = (if de_candidate d \<noteq> [] then de_candidate d else de_note d)"

text \<open>\<open>recommendation_items JOIN notes\<close> of a run and a candidate.\<close>

definition recommended_note :: "store \<Rightarrow> string \<Rightarrow> string \<Rightarrow> xhs_note option" where
  "recommended_note st run cand =
     (if \<exists>i\<in>set (st_items st). it_run i = run \<and> it_candidate i = cand
      then map_option nr_body (find (\<lambda>n. nr_revision n = cand) (st_notes st)) else None)"

definition recommended_summary :: "digests \<Rightarrow> string \<Rightarrow> job_row \<Rightarrow> xhs_note list \<Rightarrow> rat \<Rightarrow> job_row" where
  "recommended_summary hx job r selected stamp =
     (new_job (''xhs-summary-'' @ take 32 (dg_text hx (str_or (jb_run r) []))) Pending Summary
        (empty_payload\<lparr>pl_notes := map (Pair []) selected\<rparr>) stamp)\<lparr>jb_run := jb_run r, jb_parent := Some job\<rparr>"

definition selected_recommendations :: "store \<Rightarrow> string \<Rightarrow> screening_decision list \<Rightarrow> xhs_note list" where
  "selected_recommendations st run ds = List.map_filter (\<lambda>d. recommended_note st run (filter_key d)) (included ds)"

definition note_screenings :: "string \<Rightarrow> screening_decision list \<Rightarrow> store \<Rightarrow> store" where
  "note_screenings run ds st =
     foldl (\<lambda>s d. update_items (\<lambda>i. it_run i = run \<and> it_candidate i = filter_key d) (\<lambda>i. i\<lparr>it_state := de_decision d\<rparr>) s)
       (st\<lparr>st_screenings := put_all (\<lambda>d. (run, filter_key d)) de_decision ds (st_screenings st)\<rparr>) ds"

definition after_filter ::
    "digests \<Rightarrow> string \<Rightarrow> work_result \<Rightarrow> rat \<Rightarrow> job_row \<Rightarrow> screening_decision list \<Rightarrow> store \<Rightarrow> store" where
  "after_filter hx job result stamp r ds st =
     (let run = str_or (jb_run r) [];
          selected = selected_recommendations st run ds;
          st1 = note_screenings run ds st;
          st2 = (if selected \<noteq> [] then insert_job_if_new (recommended_summary hx job r selected stamp) st1 else st1);
          st3 = update_job job (finish_job Completed hx result stamp) st2
      in update_runs (\<lambda>u. ru_id u = run)
           (\<lambda>u. u\<lparr>ru_status := (if selected \<noteq> [] then ''summary_queued'' else ''filtered''),
                 ru_classified := length ds, ru_selected := tally ''include'' ds, ru_review := tally ''review'' ds,
                 ru_rejected := tally ''exclude'' ds, ru_finished := Some stamp\<rparr>) st3)"

definition complete_filter ::
    "digests \<Rightarrow> string \<Rightarrow> string \<Rightarrow> work_result \<Rightarrow> rat \<Rightarrow> store \<Rightarrow> store_error + store" where
  "complete_filter hx job lease result stamp st =
     (case wr_decisions result of
        None \<Rightarrow> Inl NoDecisions
      | Some items \<Rightarrow>
          bindR (open_screening ClassifyRecommendations job lease stamp st) (\<lambda>r.
          bindR (checked_decisions filter_key (pl_candidates (jb_payload r)) items) (\<lambda>ds.
            Inr (after_filter hx job result stamp r ds st))))"

text \<open>The candidates of a profile screening are the accounts; the scores kept on an account are left out.\<close>

definition complete_profile_filter ::
    "digests \<Rightarrow> string \<Rightarrow> string \<Rightarrow> work_result \<Rightarrow> rat \<Rightarrow> store \<Rightarrow> store_error + store" where
  "complete_profile_filter hx job lease result stamp st =
     (case wr_profiles result of
        None \<Rightarrow> Inl NoDecisions
      | Some items \<Rightarrow>
          bindR (open_screening ClassifyProfiles job lease stamp st) (\<lambda>r.
          bindR (checked_decisions de_candidate (pl_candidates (jb_payload r)) items) (\<lambda>ds.
            let st1 = st\<lparr>st_profiles := put_all (\<lambda>d. (str_or (jb_run r) [], de_candidate d)) de_decision ds (st_profiles st)\<rparr>
            in Inr (update_job job (finish_job Completed hx result stamp) st1))))"

text \<open>
  The type of a job is read in a transaction of its own; no method changes it afterwards, so the
  dispatch and the completion are one step here.
\<close>

definition complete_job ::
    "digests \<Rightarrow> string \<Rightarrow> string \<Rightarrow> work_result \<Rightarrow> rat \<Rightarrow> store \<Rightarrow> store_error + completion \<times> store" where
  "complete_job hx job lease result stamp st =
     (case map_option jb_type (find_job job st) of
        Some ClassifyRecommendations \<Rightarrow> bindR (complete_filter hx job lease result stamp st) (\<lambda>s. Inr (Stored, s))
      | Some ClassifyProfiles \<Rightarrow> bindR (complete_profile_filter hx job lease result stamp st) (\<lambda>s. Inr (Stored, s))
      | Some ClassifyNotes \<Rightarrow> bindR (complete_note_filter hx job lease result stamp st) (\<lambda>s. Inr (Stored, s))
      | _ \<Rightarrow> complete_summary hx job lease result stamp st)"

section \<open>Failures and retries\<close>

definition backoff :: "nat \<Rightarrow> rat" where
  "backoff attempts = of_nat (min 3600 (60 * 2 ^ min attempts 6))"

definition failed_row :: "rat \<Rightarrow> string \<Rightarrow> job_row \<Rightarrow> job_row" where
  "failed_row stamp error r = r\<lparr>jb_status := (if 5 \<le> jb_attempts r then Failed else Pending),
     jb_available := fadd stamp (backoff (jb_attempts r)), jb_updated := stamp, jb_error := Some (take 120 error)\<rparr>"

definition fail_job :: "string \<Rightarrow> string \<Rightarrow> string \<Rightarrow> rat \<Rightarrow> store \<Rightarrow> store_error + store" where
  "fail_job job lease error stamp st =
     (case find_job job st of
        None \<Rightarrow> Inl LeaseLost
      | Some r \<Rightarrow>
          if jb_status r \<noteq> Processing \<or> jb_lease r \<noteq> Some lease then Inl LeaseLost
          else let st1 = update_job job (failed_row stamp error) st in
               if 5 \<le> jb_attempts r \<and> jb_type r = ClassifyRecommendations \<and> has_run r
               then Inr (update_items (\<lambda>i. Some (it_run i) = jb_run r \<and> it_state i = ''filter_queued'')
                           (\<lambda>i. i\<lparr>it_state := ''filter_failed''\<rparr>)
                         (update_runs (\<lambda>u. Some (ru_id u) = jb_run r \<and> ru_status u = ''filter_queued'')
                           (\<lambda>u. u\<lparr>ru_status := ''filter_failed'', ru_finished := Some stamp, ru_error := Some (take 120 error)\<rparr>) st1))
               else Inr st1)"

definition retry_job :: "string \<Rightarrow> rat \<Rightarrow> store \<Rightarrow> bool \<times> store" where
  "retry_job job stamp st =
     (case find_job job st of
        None \<Rightarrow> (False, st)
      | Some r \<Rightarrow>
          if jb_status r = Failed
          then (True, update_job job (\<lambda>r. r\<lparr>jb_status := Pending, jb_available := 0, jb_attempts := 0, jb_updated := stamp\<rparr>) st)
          else (False, st))"

definition retry_recommendation_filter :: "string \<Rightarrow> rat \<Rightarrow> store \<Rightarrow> bool \<times> store" where
  "retry_recommendation_filter run stamp st =
     (case rev (sort_key jb_created (filter (\<lambda>r. jb_run r = Some run \<and> jb_type r = ClassifyRecommendations) (st_jobs st))) of
        [] \<Rightarrow> (False, st)
      | r # _ \<Rightarrow>
          if jb_status r \<noteq> Failed then (False, st)
          else (True,
            update_items (\<lambda>i. it_run i = run \<and> it_state i = ''filter_failed'') (\<lambda>i. i\<lparr>it_state := ''filter_queued''\<rparr>)
           (update_runs (\<lambda>u. ru_id u = run \<and> ru_status u = ''filter_failed'')
              (\<lambda>u. u\<lparr>ru_status := ''filter_queued'', ru_finished := None, ru_error := None\<rparr>)
           (update_job (jb_id r) (reset_job stamp) st))))"

section \<open>Recommendations, profiles and messages\<close>

definition create_recommendation_run :: "string \<Rightarrow> int \<Rightarrow> store \<Rightarrow> store" where
  "create_recommendation_run run requested st =
     (if \<exists>u\<in>set (st_runs st). ru_id u = run then st
      else st\<lparr>st_runs := st_runs st @ [\<lparr>ru_id = run, ru_status = ''running'', ru_requested = requested, ru_fetched = 0,
             ru_added = 0, ru_classified = 0, ru_selected = 0, ru_review = 0, ru_rejected = 0, ru_error = None, ru_finished = None\<rparr>]\<rparr>)"

definition add_recommendation_item :: "digests \<Rightarrow> string \<Rightarrow> xhs_note \<Rightarrow> int \<Rightarrow> store \<Rightarrow> bool \<times> store" where
  "add_recommendation_item hx run body rank st =
     (let revision = revision_of hx body;
          known = (\<exists>i\<in>set (st_items st). it_run i = run \<and> it_candidate i = revision);
          row = \<lparr>it_run = run, it_candidate = revision, it_rank = rank, it_state = ''pending''\<rparr>;
          st1 = (if known then st else st\<lparr>st_items := st_items st @ [row]\<rparr>)
      in (\<not> known, update_notes (\<lambda>n. nr_revision n = revision \<and> nr_job n = None)
                      (\<lambda>n. n\<lparr>nr_job := Some (''xhs-recommendation:'' @ run)\<rparr>) st1))"

definition finish_recommendation_collection :: "string \<Rightarrow> int \<Rightarrow> int \<Rightarrow> string option \<Rightarrow> rat \<Rightarrow> store \<Rightarrow> store" where
  "finish_recommendation_collection run fetched added error stamp =
     update_runs (\<lambda>u. ru_id u = run)
       (\<lambda>u. u\<lparr>ru_fetched := fetched, ru_added := added, ru_finished := Some stamp, ru_error := error,
             ru_status := (if error = None \<or> error = Some [] then ''collected'' else ''failed'')\<rparr>)"

definition run_candidates :: "string \<Rightarrow> store \<Rightarrow> (string \<times> xhs_note) list" where
  "run_candidates run st =
     List.map_filter (\<lambda>i. map_option (\<lambda>n. (it_candidate i, nr_body n)) (find (\<lambda>n. nr_revision n = it_candidate i) (st_notes st)))
       (sort_key it_rank (filter (\<lambda>i. it_run i = run) (st_items st)))"

definition queue_recommendation_filter :: "digests \<Rightarrow> string \<Rightarrow> rat \<Rightarrow> store \<Rightarrow> store_error + string \<times> store" where
  "queue_recommendation_filter hx run stamp st =
     (let job = ''xhs-filter-'' @ take 32 (dg_text hx run); items = run_candidates run st in
      if \<not> (\<exists>u\<in>set (st_runs st). ru_id u = run) then Inl UnknownRun
      else if items = [] then Inl EmptyRun
      else if find_job job st \<noteq> None then Inr (job, st)
      else bindR (insert_job ((new_job job Pending ClassifyRecommendations
               (empty_payload\<lparr>pl_notes := items, pl_candidates := map fst items\<rparr>) stamp)\<lparr>jb_run := Some run\<rparr>) st)
             (\<lambda>st1. Inr (job,
                update_items (\<lambda>i. it_run i = run) (\<lambda>i. i\<lparr>it_state := ''filter_queued''\<rparr>)
               (update_runs (\<lambda>u. ru_id u = run) (\<lambda>u. u\<lparr>ru_status := ''filter_queued''\<rparr>) st1))))"

definition queue_following_filter :: "digests \<Rightarrow> string list \<Rightarrow> rat \<Rightarrow> store \<Rightarrow> store_error + string \<times> store" where
  "queue_following_filter hx users stamp st =
     (let run = ''xhs-profile-'' @ take 24 (dg_list hx users);
          job = ''xhs-profile-filter-'' @ take 32 (dg_text hx run) in
      if users = [] then Inl NoCandidates
      else if find_job job st \<noteq> None then Inr (job, st)
      else bindR (insert_job ((new_job job Pending ClassifyProfiles (empty_payload\<lparr>pl_candidates := users\<rparr>) stamp)\<lparr>jb_run := Some run\<rparr>) st)
             (\<lambda>st1. Inr (job, st1)))"

definition message_result :: "string \<Rightarrow> string \<Rightarrow> work_result" where
  "message_result text model = \<lparr>wr_summary = Some text, wr_model = model, wr_decisions = None, wr_profiles = None\<rparr>"

definition enqueue_manual_message :: "digests \<Rightarrow> string \<Rightarrow> string \<Rightarrow> rat \<Rightarrow> store \<Rightarrow> store_error + bool \<times> store" where
  "enqueue_manual_message hx text request stamp st =
     (let text = py_strip text; request = py_strip request;
          job = ''xhs-dashboard-'' @ take 32 (dg_text hx request);
          row = (new_job job Ready ManualMessage empty_payload stamp)\<lparr>jb_result := Some (message_result text ''xhs-dashboard'')\<rparr>
      in if text = [] \<or> 12000 < length text \<or> request = [] \<or> 160 < length request then Inl BadMessage
         else Inr (find_job job st \<noteq> None, insert_job_if_new row st))"

definition command_result :: "digests \<Rightarrow> string \<Rightarrow> string \<Rightarrow> rat \<Rightarrow> store \<Rightarrow> store" where
  "command_result hx message text stamp st =
     insert_job_if_new ((new_job (''xhs-cmd-'' @ take 32 (dg_text hx message)) Ready Summary empty_payload stamp)
       \<lparr>jb_result := Some (message_result text ''command'')\<rparr>) st"

section \<open>Deliveries\<close>

definition ready_deliveries :: "store \<Rightarrow> job_row list" where
  "ready_deliveries st = take 10 (sort_key jb_created (filter (\<lambda>r. jb_status r = Ready) (st_jobs st)))"

definition record_delivery :: "string \<Rightarrow> nat \<Rightarrow> store \<Rightarrow> store" where
  "record_delivery job part st =
     (if (job, part) \<in> set (st_parts st) then st else st\<lparr>st_parts := st_parts st @ [(job, part)]\<rparr>)"

definition delivered_job :: "string \<Rightarrow> rat \<Rightarrow> store \<Rightarrow> store" where
  "delivered_job job stamp st =
     (case find_job job st of
        None \<Rightarrow> st
      | Some r \<Rightarrow>
          if jb_status r \<noteq> Ready then st
          else let st1 = update_job job (\<lambda>r. r\<lparr>jb_status := Sent, jb_updated := stamp, jb_error := None\<rparr>) st in
               if has_run r \<and> jb_type r = Summary
               then update_runs (\<lambda>u. Some (ru_id u) = jb_run r \<and> ru_status u \<in> {''summary_ready'', ''summary_queued''})
                      (\<lambda>u. u\<lparr>ru_status := ''sent'', ru_finished := Some stamp, ru_error := None\<rparr>) st1
               else st1)"

definition delivery_error :: "string \<Rightarrow> string \<Rightarrow> rat \<Rightarrow> store \<Rightarrow> store" where
  "delivery_error job error stamp = update_job job (\<lambda>r. r\<lparr>jb_error := Some (take 120 error), jb_updated := stamp\<rparr>)"

text \<open>
  The Feishu hook: the body of its answer with the code it reports, 0 for a message it took, or the
  request raises (whether or not the message arrived).
\<close>

datatype post_answer = Answered int | Raised string

text \<open>A text is the list of its code points.\<close>

type_synonym code_text = "nat list"

definition FEISHU_MAX_CHARS :: nat where "FEISHU_MAX_CHARS = 3000"

fun pieces :: "nat \<Rightarrow> code_text \<Rightarrow> code_text list" where
  "pieces n text = (if n = 0 \<or> text = [] then [] else take n text # pieces n (drop n text))"

declare pieces.simps [simp del]

definition LINK_TITLE :: code_text where "LINK_TITLE = [21407, 25991, 30452, 38142]"
definition link_line :: "code_text \<Rightarrow> code_text" where "link_line url = LINK_TITLE @ [65306] @ url"

fun link_chunks :: "code_text \<Rightarrow> code_text list \<Rightarrow> code_text list" where
  "link_chunks current [] = (if current = [] then [] else [current])"
| "link_chunks current (url # urls) =
     (let candidate = current @ [10] @ link_line url in
      if FEISHU_MAX_CHARS < length candidate \<and> current \<noteq> [] then current # link_chunks (link_line url) urls
      else link_chunks candidate urls)"

definition delivery_chunks :: "code_text \<Rightarrow> code_text list \<Rightarrow> code_text list" where
  "delivery_chunks text urls =
     (if text = [] then [text] else pieces FEISHU_MAX_CHARS text) @ (if urls = [] then [] else link_chunks LINK_TITLE urls)"

text \<open>The parts of a job from one on: the posts made, the error that stopped them, and the tables.\<close>

fun deliver_parts ::
    "string \<Rightarrow> nat \<Rightarrow> code_text list \<Rightarrow> (nat \<Rightarrow> post_answer) \<Rightarrow> store \<Rightarrow> (nat \<times> code_text) list \<times> string option \<times> store" where
  "deliver_parts job part [] hook st = ([], None, st)"
| "deliver_parts job part (c # cs) hook st =
     (if (job, part) \<in> set (st_parts st) then deliver_parts job (Suc part) cs hook st
      else case hook part of
        Raised e \<Rightarrow> ([(part, c)], Some e, st)
      | Answered _ \<Rightarrow>
          let (posts, err, st') = deliver_parts job (Suc part) cs hook (record_delivery job part st)
          in ((part, c) # posts, err, st'))"

definition deliver_one ::
    "code_text list \<Rightarrow> string \<Rightarrow> (nat \<Rightarrow> post_answer) \<Rightarrow> rat \<Rightarrow> store \<Rightarrow> (nat \<times> code_text) list \<times> string option \<times> store" where
  "deliver_one chunks job hook stamp st =
     (let (posts, err, st') = deliver_parts job 1 chunks hook st in
      (posts, err, if err = None then delivered_job job stamp st' else st'))"

text \<open>One round of \<open>delivery_loop\<close> over the jobs it read at its start.\<close>

fun deliver_jobs ::
    "(string \<Rightarrow> code_text list) \<Rightarrow> (string \<Rightarrow> nat \<Rightarrow> post_answer) \<Rightarrow> rat \<Rightarrow> string list \<Rightarrow> store
      \<Rightarrow> (string \<times> nat) list \<times> store" where
  "deliver_jobs chunks hook stamp [] st = ([], st)"
| "deliver_jobs chunks hook stamp (job # jobs) st =
     (let (posts, err, st1) = deliver_one (chunks job) job (hook job) stamp st;
          st2 = (case err of None \<Rightarrow> st1 | Some e \<Rightarrow> delivery_error job e stamp st1);
          (rest, st3) = deliver_jobs chunks hook stamp jobs st2
      in (map (\<lambda>p. (job, fst p)) posts @ rest, st3))"

definition delivery_round ::
    "(string \<Rightarrow> code_text list) \<Rightarrow> (string \<Rightarrow> nat \<Rightarrow> post_answer) \<Rightarrow> rat \<Rightarrow> store \<Rightarrow> (string \<times> nat) list \<times> store" where
  "delivery_round chunks hook stamp st = deliver_jobs chunks hook stamp (map jb_id (ready_deliveries st)) st"

end
