(* ===== verification/XhsInvariants.thy ===== *)
theory XhsInvariants
  imports XhsQueue
begin

text \<open>
  What the transactions of \<open>XhsQueue\<close> keep. \<open>rows_kept\<close> says how a transaction may change the job table;
  one lemma per operation shows that it does no more, and the invariants of the reachable stores follow
  from it once.
\<close>

section \<open>How the job table changes\<close>

definition done_status :: "job_status \<Rightarrow> bool" where
  "done_status s \<longleftrightarrow> s = Ready \<or> s = Completed \<or> s = Sent"

definition job_row_ok :: "job_row \<Rightarrow> bool" where
  "job_row_ok r \<longleftrightarrow> (jb_result r \<noteq> None \<longleftrightarrow> done_status (jb_status r))"

definition id_typed :: "job_row \<Rightarrow> bool" where
  "id_typed r \<longleftrightarrow> (take 11 (jb_id r) = ''xhs-single-'' \<longrightarrow> jb_type r = SingleNote)"

definition row_step :: "job_row \<Rightarrow> job_row \<Rightarrow> bool" where
  "row_step r r' \<longleftrightarrow>
     jb_id r' = jb_id r \<and> jb_type r' = jb_type r \<and> jb_created r' = jb_created r \<and> jb_parent r' = jb_parent r
     \<and> job_row_ok r' \<and> (jb_result r \<noteq> None \<longrightarrow> jb_result r' = jb_result r)
     \<and> (jb_status r = Sent \<longrightarrow> jb_status r' = Sent)
     \<and> (jb_type r \<noteq> SingleNote \<longrightarrow> jb_payload r' = jb_payload r \<and> (jb_status r = Completed \<longrightarrow> jb_status r' = Completed))"

definition row_kept :: "job_row \<Rightarrow> job_row \<Rightarrow> bool" where
  "row_kept r r' \<longleftrightarrow> row_step r r' \<and> (jb_lease r' = jb_lease r \<or> jb_lease r' = None)"

definition fresh_row :: "job_row \<Rightarrow> bool" where
  "fresh_row r \<longleftrightarrow> job_row_ok r \<and> id_typed r \<and> jb_lease r = None"

definition table_ok :: "job_row list \<Rightarrow> bool" where
  "table_ok js \<longleftrightarrow> distinct (map jb_id js) \<and> (\<forall>r\<in>set js. job_row_ok r \<and> id_typed r)"

definition rows_kept :: "job_row list \<Rightarrow> job_row list \<Rightarrow> bool" where
  "rows_kept js js' \<longleftrightarrow>
     distinct (map jb_id js')
     \<and> (\<forall>r'\<in>set js'. (\<exists>r\<in>set js. row_kept r r') \<or> fresh_row r' \<and> jb_id r' \<notin> jb_id ` set js)
     \<and> (\<forall>r\<in>set js. \<exists>r'\<in>set js'. row_kept r r')"

lemma row_kept_refl: "job_row_ok r \<Longrightarrow> row_kept r r"
  by (simp add: row_kept_def row_step_def)

lemma row_step_trans: "row_step a b \<Longrightarrow> row_step b c \<Longrightarrow> row_step a c"
  unfolding row_step_def by (elim conjE) (intro conjI impI; simp)

lemma row_kept_trans: "row_kept a b \<Longrightarrow> row_kept b c \<Longrightarrow> row_kept a c"
  unfolding row_kept_def by (elim conjE) (intro conjI, rule row_step_trans, assumption+, elim disjE, simp_all)

lemma row_kept_id: "row_kept r r' \<Longrightarrow> jb_id r' = jb_id r"
  by (simp add: row_kept_def row_step_def)

lemma fresh_row_kept: "fresh_row r \<Longrightarrow> row_kept r r' \<Longrightarrow> fresh_row r'"
  by (auto simp: fresh_row_def row_kept_def row_step_def id_typed_def)

lemma row_kept_ok: "row_kept r r' \<Longrightarrow> id_typed r \<Longrightarrow> job_row_ok r' \<and> id_typed r'"
  by (simp add: row_kept_def row_step_def id_typed_def)

lemma rows_kept_cases:
  assumes "rows_kept js js'" "r' \<in> set js'"
  obtains (old) r where "r \<in> set js" "row_kept r r'" | (new) "fresh_row r'" "jb_id r' \<notin> jb_id ` set js"
  using assms unfolding rows_kept_def by blast

lemma rows_kept_table:
  assumes "table_ok js" "rows_kept js js'"
  shows "table_ok js'"
  unfolding table_ok_def
proof (intro conjI ballI)
  show "distinct (map jb_id js')" using assms(2) by (simp add: rows_kept_def)
  fix r' assume "r' \<in> set js'"
  with assms(2) have "job_row_ok r' \<and> id_typed r'"
  proof (cases rule: rows_kept_cases)
    case (old r)
    then show ?thesis using assms(1) row_kept_ok by (simp add: table_ok_def)
  next
    case new
    then show ?thesis by (simp add: fresh_row_def)
  qed
  then show "job_row_ok r'" "id_typed r'" by simp_all
qed

lemma rows_kept_refl:
  assumes "table_ok js"
  shows "rows_kept js js"
proof -
  have "row_kept r r" if "r \<in> set js" for r
    using assms that row_kept_refl by (simp add: table_ok_def)
  then have "\<exists>q\<in>set js. row_kept q r" "\<exists>q\<in>set js. row_kept r q" if "r \<in> set js" for r
    using that by blast+
  with assms show ?thesis by (simp add: rows_kept_def table_ok_def)
qed

lemma rows_kept_trans:
  assumes "rows_kept a b" "rows_kept b c"
  shows "rows_kept a c"
  unfolding rows_kept_def
proof (intro conjI ballI)
  show "distinct (map jb_id c)" using assms(2) by (simp add: rows_kept_def)
  have ids: "jb_id ` set a \<subseteq> jb_id ` set b"
  proof
    fix i assume "i \<in> jb_id ` set a"
    then obtain r where "r \<in> set a" "i = jb_id r" by blast
    moreover then obtain r' where "r' \<in> set b" "row_kept r r'"
      using assms(1) unfolding rows_kept_def by blast
    ultimately show "i \<in> jb_id ` set b" using row_kept_id by (metis imageI)
  qed
  fix r' assume "r' \<in> set c"
  with assms(2) show "(\<exists>r\<in>set a. row_kept r r') \<or> fresh_row r' \<and> jb_id r' \<notin> jb_id ` set a"
  proof (cases rule: rows_kept_cases)
    case (old r)
    from assms(1) old(1) show ?thesis
    proof (cases rule: rows_kept_cases)
      case old_q: (old q)
      then show ?thesis using old(2) row_kept_trans by blast
    next
      case new
      then show ?thesis using old(2) fresh_row_kept row_kept_id by simp
    qed
  next
    case new
    with ids show ?thesis by blast
  qed
next
  fix r assume "r \<in> set a"
  with assms show "\<exists>r'\<in>set c. row_kept r r'"
    unfolding rows_kept_def using row_kept_trans by meson
qed

section \<open>The table operations\<close>

lemma st_jobs_update [simp]: "st_jobs (update_job job f st) = map (\<lambda>r. if jb_id r = job then f r else r) (st_jobs st)"
  by (simp add: update_job_def)

lemma st_jobs_same [simp]:
  "st_jobs (update_notes p g st) = st_jobs st" "st_jobs (update_runs p2 g2 st) = st_jobs st"
  "st_jobs (update_items p3 g3 st) = st_jobs st" "st_jobs (insert_note_if_new n st) = st_jobs st"
  "st_jobs (assign job rows st) = st_jobs st"
  by (simp_all add: update_notes_def update_runs_def update_items_def insert_note_if_new_def assign_def)

lemma st_notes_same [simp]:
  "st_notes (update_job job f st) = st_notes st" "st_notes (update_runs p2 g2 st) = st_notes st"
  "st_notes (update_items p3 g3 st) = st_notes st"
  by (simp_all add: update_job_def update_runs_def update_items_def)

lemma update_items_all [simp]:
  "st_jobs (foldl (\<lambda>s d. update_items (p d) (g d) s) st ds) = st_jobs st"
  "st_notes (foldl (\<lambda>s d. update_items (p d) (g d) s) st ds) = st_notes st"
  by (induction ds arbitrary: st) simp_all

lemma find_job_Some: "find_job job st = Some r \<Longrightarrow> r \<in> set (st_jobs st) \<and> jb_id r = job"
  by (auto simp: find_job_def find_Some_iff)

lemma find_job_None: "find_job job st = None \<longleftrightarrow> job \<notin> jb_id ` set (st_jobs st)"
  by (auto simp: find_job_def find_None_iff)

lemma find_distinct:
  "distinct (map f xs) \<Longrightarrow> x \<in> set xs \<Longrightarrow> find (\<lambda>y. f y = f x) xs = Some x"
  by (induction xs) (auto simp: rev_image_eqI)

lemma find_job_in:
  "table_ok (st_jobs st) \<Longrightarrow> r \<in> set (st_jobs st) \<Longrightarrow> find_job (jb_id r) st = Some r"
  by (simp add: table_ok_def find_job_def find_distinct)

lemma update_job_kept:
  assumes "table_ok (st_jobs st)" "\<And>r. find_job job st = Some r \<Longrightarrow> row_kept r (f r)"
  shows "rows_kept (st_jobs st) (st_jobs (update_job job f st))"
proof -
  have kept: "row_kept q (if jb_id q = job then f q else q)" if "q \<in> set (st_jobs st)" for q
    using find_job_in [OF assms(1) that] assms that row_kept_refl by (auto simp: table_ok_def)
  then have ids: "map jb_id (st_jobs (update_job job f st)) = map jb_id (st_jobs st)"
    using row_kept_id by (auto simp: comp_def)
  show ?thesis
    unfolding rows_kept_def
  proof (intro conjI ballI)
    show "distinct (map jb_id (st_jobs (update_job job f st)))"
      using assms(1) unfolding ids by (simp add: table_ok_def)
  next
    fix r' assume "r' \<in> set (st_jobs (update_job job f st))"
    then obtain q where "q \<in> set (st_jobs st)" "r' = (if jb_id q = job then f q else q)" by auto
    with kept show "(\<exists>r\<in>set (st_jobs st). row_kept r r') \<or> fresh_row r' \<and> jb_id r' \<notin> jb_id ` set (st_jobs st)"
      by blast
  next
    fix r assume "r \<in> set (st_jobs st)"
    with kept show "\<exists>r'\<in>set (st_jobs (update_job job f st)). row_kept r r'"
      by (intro bexI [of _ "if jb_id r = job then f r else r"]) auto
  qed
qed

lemma append_kept:
  assumes "table_ok js" "fresh_row r" "jb_id r \<notin> jb_id ` set js"
  shows "rows_kept js (js @ [r])"
  unfolding rows_kept_def
proof (intro conjI ballI)
  show "distinct (map jb_id (js @ [r]))" using assms by (auto simp: table_ok_def)
next
  fix r' assume "r' \<in> set (js @ [r])"
  with assms show "(\<exists>q\<in>set js. row_kept q r') \<or> fresh_row r' \<and> jb_id r' \<notin> jb_id ` set js"
    using row_kept_refl by (auto simp: table_ok_def)
next
  fix q assume "q \<in> set js"
  with assms show "\<exists>r'\<in>set (js @ [r]). row_kept q r'"
    using row_kept_refl by (auto simp: table_ok_def)
qed

lemma insert_if_new_kept:
  "table_ok (st_jobs st) \<Longrightarrow> fresh_row r \<Longrightarrow> rows_kept (st_jobs st) (st_jobs (insert_job_if_new r st))"
  by (simp add: insert_job_if_new_def find_job_None append_kept rows_kept_refl)

lemma insert_job_kept:
  "table_ok (st_jobs st) \<Longrightarrow> fresh_row r \<Longrightarrow> insert_job r st = Inr st' \<Longrightarrow> rows_kept (st_jobs st) (st_jobs st')"
  by (auto simp: insert_job_def find_job_None append_kept split: if_splits)

section \<open>The operations\<close>

text \<open>The digests are texts of hexadecimal digits.\<close>

definition hex_digests :: "digests \<Rightarrow> bool" where
  "hex_digests hx \<longleftrightarrow>
     (\<forall>x. set (dg_list hx x) \<subseteq> set ''0123456789abcdef'') \<and> (\<forall>x. set (dg_text hx x) \<subseteq> set ''0123456789abcdef'')"

lemma take_hex: "set x \<subseteq> set ''0123456789abcdef'' \<Longrightarrow> take 11 (''xhs-'' @ take 32 x) \<noteq> ''xhs-single-''"
  by (cases x) auto

lemma new_job_simps [simp]:
  "jb_id (new_job job status kind payload stamp) = job" "jb_status (new_job job status kind payload stamp) = status"
  "jb_type (new_job job status kind payload stamp) = kind" "jb_payload (new_job job status kind payload stamp) = payload"
  "jb_lease (new_job job status kind payload stamp) = None" "jb_result (new_job job status kind payload stamp) = None"
  "jb_parent (new_job job status kind payload stamp) = None" "jb_run (new_job job status kind payload stamp) = None"
  by (simp_all add: new_job_def)

lemma fresh_new_job:
  "\<not> done_status status \<Longrightarrow> (take 11 job = ''xhs-single-'' \<Longrightarrow> kind = SingleNote) \<Longrightarrow>
   fresh_row (new_job job status kind payload stamp)"
  "\<not> done_status status \<Longrightarrow> (take 11 job = ''xhs-single-'' \<Longrightarrow> kind = SingleNote) \<Longrightarrow>
   fresh_row ((new_job job status kind payload stamp)\<lparr>jb_parent := parent\<rparr>)"
  "\<not> done_status status \<Longrightarrow> (take 11 job = ''xhs-single-'' \<Longrightarrow> kind = SingleNote) \<Longrightarrow>
   fresh_row ((new_job job status kind payload stamp)\<lparr>jb_run := run\<rparr>)"
  "\<not> done_status status \<Longrightarrow> (take 11 job = ''xhs-single-'' \<Longrightarrow> kind = SingleNote) \<Longrightarrow>
   fresh_row ((new_job job status kind payload stamp)\<lparr>jb_run := run, jb_parent := parent\<rparr>)"
  "done_status status \<Longrightarrow> (take 11 job = ''xhs-single-'' \<Longrightarrow> kind = SingleNote) \<Longrightarrow>
   fresh_row ((new_job job status kind payload stamp)\<lparr>jb_result := Some result\<rparr>)"
  by (simp_all add: fresh_row_def job_row_ok_def id_typed_def)

lemma add_note_jobs [simp]: "st_jobs (snd (add_note hx body stamp st)) = st_jobs st"
  by (simp add: add_note_def Let_def)

lemma single_update_kept:
  assumes "job_row_ok r" "jb_type r = SingleNote"
  shows "row_kept r (single_update body deliver live stamp r)"
  using assms
  by (auto simp: row_kept_def row_step_def job_row_ok_def single_update_def reset_job_def done_status_def Let_def)

lemma enqueue_single_kept:
  assumes "table_ok (st_jobs st)"
  shows "rows_kept (st_jobs st) (st_jobs (enqueue_single_note hx body deliver live stamp st))"
proof -
  let ?job = "single_job_id hx body"
  let ?st2 = "insert_job_if_new (new_job ?job Pending SingleNote (single_payload body deliver live) stamp) st"
  have first: "rows_kept (st_jobs st) (st_jobs ?st2)"
    using assms by (intro insert_if_new_kept fresh_new_job) (simp_all add: done_status_def)
  have "rows_kept (st_jobs ?st2) (st_jobs (update_job ?job (single_update body deliver live stamp) ?st2))"
  proof (rule update_job_kept)
    show ok: "table_ok (st_jobs ?st2)" by (rule rows_kept_table [OF assms first])
    fix r assume "find_job ?job ?st2 = Some r"
    then have "r \<in> set (st_jobs ?st2)" "jb_id r = ?job" using find_job_Some by blast+
    with ok show "row_kept r (single_update body deliver live stamp r)"
      by (intro single_update_kept) (auto simp: table_ok_def id_typed_def single_job_id_def)
  qed
  moreover have "st_jobs (enqueue_single_note hx body deliver live stamp st)
      = st_jobs (update_job ?job (single_update body deliver live stamp) ?st2)"
    by (simp add: enqueue_single_note_def Let_def insert_job_if_new_def find_job_def)
  ultimately show ?thesis using first rows_kept_trans by simp
qed

lemma pending_batch_fresh: "hex_digests hx \<Longrightarrow> fresh_row (snd (pending_batch hx rows stamp))"
  using take_hex [of "dg_list hx (map nr_revision (filter (\<lambda>r. no_watched (nr_body r)) rows))"]
  by (auto simp: pending_batch_def Let_def hex_digests_def done_status_def intro!: fresh_new_job)

lemma enqueue_pending_kept:
  assumes "table_ok (st_jobs st)" "hex_digests hx" "enqueue_pending hx n stamp st = Inr (job, st')"
  shows "rows_kept (st_jobs st) (st_jobs st')"
proof (cases "unassigned n st = []")
  case True
  with assms show ?thesis by (simp add: enqueue_pending_def rows_kept_refl)
next
  case False
  with assms(3) obtain st1 where
    "insert_job (snd (pending_batch hx (unassigned n st) stamp)) st = Inr st1" "st_jobs st' = st_jobs st1"
    by (auto simp: enqueue_pending_def Let_def split_beta)
  with insert_job_kept [OF assms(1) pending_batch_fresh [OF assms(2)]] show ?thesis by simp
qed

lemmas update_map_kept = update_job_kept [unfolded st_jobs_update]

lemma found_ok: "table_ok (st_jobs st) \<Longrightarrow> find_job job st = Some r \<Longrightarrow> job_row_ok r \<and> id_typed r \<and> jb_id r = job"
  using find_job_Some by (fastforce simp: table_ok_def)

lemma running_kept:
  "job_row_ok r \<Longrightarrow> jb_status r = Processing \<Longrightarrow> done_status status \<Longrightarrow> row_kept r (finish_job status hx result stamp r)"
  by (auto simp: row_kept_def row_step_def job_row_ok_def finish_job_def done_status_def)

lemma heartbeat_kept:
  assumes "table_ok (st_jobs st)" "heartbeat job lease stamp st = Inr st'"
  shows "rows_kept (st_jobs st) (st_jobs st')"
proof -
  have "st' = update_job job (\<lambda>r. r\<lparr>jb_lease_until := Some (fadd stamp 180), jb_updated := stamp\<rparr>) st"
    using assms(2) by (auto simp: heartbeat_def split: option.splits if_splits)
  then show ?thesis
    using found_ok [OF assms(1)] assms(1)
    by (auto intro!: update_map_kept simp: row_kept_def row_step_def job_row_ok_def)
qed

lemma finish_kept:
  assumes "table_ok (st_jobs st)" "find_job job st = Some r" "jb_status r = Processing" "done_status status"
  shows "rows_kept (st_jobs st) (map (\<lambda>r. if jb_id r = job then finish_job status hx result stamp r else r) (st_jobs st))"
  using assms found_ok [OF assms(1,2)] by (intro update_map_kept running_kept) auto

lemma after_summary_jobs [simp]:
  "st_jobs (after_summary hx job result stamp r st) = st_jobs (update_job job (finish_job (summary_status r) hx result stamp) st)"
  by (simp add: after_summary_def Let_def)

lemma complete_summary_Inr:
  assumes "complete_summary hx job lease result stamp st = Inr (c, st')"
  obtains (duplicate) r where "find_job job st = Some r" "jb_lease r = Some lease"
      "jb_result_hash r = Some (dg_result hx result)" "c = Duplicate" "st' = st"
  | (stored) r where "find_job job st = Some r" "lease_valid lease stamp r" "c = Stored"
      "st' = after_summary hx job result stamp r st"
  using assms by (auto simp: complete_summary_def split: option.splits if_splits)

lemma complete_summary_kept:
  assumes "table_ok (st_jobs st)" "complete_summary hx job lease result stamp st = Inr (c, st')"
  shows "rows_kept (st_jobs st) (st_jobs st')"
  using assms(2)
proof (cases rule: complete_summary_Inr)
  case (duplicate r)
  then show ?thesis using assms(1) rows_kept_refl by simp
next
  case (stored r)
  then show ?thesis
    using assms(1) by (auto simp: lease_valid_def done_status_def summary_status_def intro!: finish_kept)
qed

text \<open>A screening opened, perhaps a summary queued, the screening finished.\<close>

lemma open_screening_Inr:
  "open_screening kind job lease stamp st = Inr r \<longleftrightarrow>
   find_job job st = Some r \<and> jb_type r = kind \<and> lease_valid lease stamp r"
  by (auto simp: open_screening_def split: option.splits if_splits)

lemma find_job_insert_other:
  "find_job job st = Some r \<Longrightarrow> find_job job (insert_job_if_new row st) = Some r"
  by (auto simp: insert_job_if_new_def find_job_def find_Some_iff nth_append)

lemma screening_kept:
  assumes "table_ok (st_jobs st)" "find_job job st = Some r" "jb_status r = Processing"
    "st_jobs st1 = st_jobs st" "fresh_row row" "st2 = (if q then insert_job_if_new row st1 else st1)"
  shows "rows_kept (st_jobs st) (map (\<lambda>r. if jb_id r = job then finish_job Completed hx result stamp r else r) (st_jobs st2))"
proof -
  have found: "find_job job st1 = Some r" using assms(2,4) by (simp add: find_job_def)
  have first: "rows_kept (st_jobs st) (st_jobs st2)"
    using insert_if_new_kept [of st1 row] assms by (simp add: rows_kept_refl)
  have "find_job job st2 = Some r" using find_job_insert_other [OF found] found assms(6) by simp
  with rows_kept_table [OF assms(1) first] show ?thesis
    by (intro rows_kept_trans [OF first] finish_kept) (use assms(3) in \<open>simp_all add: done_status_def\<close>)
qed

lemma complete_note_filter_Inr:
  assumes "complete_note_filter hx job lease result stamp st = Inr st'"
  obtains items r ds where "wr_decisions result = Some items" "find_job job st = Some r" "jb_type r = ClassifyNotes"
    "lease_valid lease stamp r" "checked_decisions de_candidate (pl_candidates (jb_payload r)) items = Inr ds"
    "st' = after_note_filter hx job result stamp r ds st"
  using assms by (auto simp: complete_note_filter_def open_screening_Inr split: option.splits)

lemma complete_filter_Inr:
  assumes "complete_filter hx job lease result stamp st = Inr st'"
  obtains items r ds where "wr_decisions result = Some items" "find_job job st = Some r" "jb_type r = ClassifyRecommendations"
    "lease_valid lease stamp r" "checked_decisions filter_key (pl_candidates (jb_payload r)) items = Inr ds"
    "st' = after_filter hx job result stamp r ds st"
  using assms by (auto simp: complete_filter_def open_screening_Inr split: option.splits)

lemma lease_valid_running: "lease_valid lease stamp r \<Longrightarrow> jb_status r = Processing"
  by (simp add: lease_valid_def)

lemma complete_note_filter_kept:
  assumes "table_ok (st_jobs st)" "complete_note_filter hx job lease result stamp st = Inr st'"
  shows "rows_kept (st_jobs st) (st_jobs st')"
  using assms(2)
proof (cases rule: complete_note_filter_Inr)
  case (1 items r ds)
  show ?thesis
    unfolding 1(6) after_note_filter_def Let_def st_jobs_update
    by (rule screening_kept [OF assms(1) 1(2) lease_valid_running [OF 1(4)] _ _ refl])
      (auto simp: screened_summary_def done_status_def intro!: fresh_new_job)
qed

lemma note_screenings_same [simp]:
  "st_jobs (note_screenings run ds st) = st_jobs st" "st_notes (note_screenings run ds st) = st_notes st"
  by (simp_all add: note_screenings_def)

lemma complete_filter_kept:
  assumes "table_ok (st_jobs st)" "complete_filter hx job lease result stamp st = Inr st'"
  shows "rows_kept (st_jobs st) (st_jobs st')"
  using assms(2)
proof (cases rule: complete_filter_Inr)
  case (1 items r ds)
  show ?thesis
    unfolding 1(6) after_filter_def Let_def st_jobs_update st_jobs_same
    by (rule screening_kept [OF assms(1) 1(2) lease_valid_running [OF 1(4)] _ _ refl])
      (auto simp: recommended_summary_def done_status_def intro!: fresh_new_job)
qed

lemma complete_profile_filter_kept:
  assumes "table_ok (st_jobs st)" "complete_profile_filter hx job lease result stamp st = Inr st'"
  shows "rows_kept (st_jobs st) (st_jobs st')"
proof -
  obtain r where found: "find_job job st = Some r" "jb_status r = Processing"
    and st': "st_jobs st' = map (\<lambda>r. if jb_id r = job then finish_job Completed hx result stamp r else r) (st_jobs st)"
    using assms(2)
    by (auto simp: complete_profile_filter_def open_screening_Inr lease_valid_def Let_def split: option.splits)
  show ?thesis
    unfolding st' using assms(1) found by (intro finish_kept) (auto simp: done_status_def)
qed

lemma complete_job_kept:
  assumes "table_ok (st_jobs st)" "complete_job hx job lease result stamp st = Inr (c, st')"
  shows "rows_kept (st_jobs st) (st_jobs st')"
  using assms complete_filter_kept complete_note_filter_kept complete_profile_filter_kept complete_summary_kept
  by (auto simp: complete_job_def split: option.splits job_type.splits)

lemma failed_row_kept: "job_row_ok r \<Longrightarrow> jb_status r = Processing \<Longrightarrow> row_kept r (failed_row stamp error r)"
  by (auto simp: row_kept_def row_step_def job_row_ok_def failed_row_def done_status_def)

lemma reset_row_kept:
  "job_row_ok r \<Longrightarrow> jb_status r = Failed \<Longrightarrow> row_kept r (reset_job stamp r)"
  "job_row_ok r \<Longrightarrow> jb_status r = Failed \<Longrightarrow>
     row_kept r (r\<lparr>jb_status := Pending, jb_available := 0, jb_attempts := 0, jb_updated := stamp\<rparr>)"
  by (auto simp: row_kept_def row_step_def job_row_ok_def reset_job_def done_status_def)

lemma sent_row_kept:
  "job_row_ok r \<Longrightarrow> jb_status r = Ready \<Longrightarrow> row_kept r (r\<lparr>jb_status := Sent, jb_updated := stamp, jb_error := None\<rparr>)"
  "job_row_ok r \<Longrightarrow> row_kept r (r\<lparr>jb_error := error, jb_updated := stamp\<rparr>)"
  by (auto simp: row_kept_def row_step_def job_row_ok_def done_status_def)

lemma fail_job_kept:
  assumes "table_ok (st_jobs st)" "fail_job job lease error stamp st = Inr st'"
  shows "rows_kept (st_jobs st) (st_jobs st')"
proof -
  obtain r where "find_job job st = Some r" "jb_status r = Processing"
    "st_jobs st' = st_jobs (update_job job (failed_row stamp error) st)"
    using assms(2) by (auto simp: fail_job_def Let_def split: option.splits if_splits)
  then show ?thesis
    using found_ok [OF assms(1)] assms(1) failed_row_kept by (auto intro!: update_map_kept)
qed

lemma retry_job_kept:
  assumes "table_ok (st_jobs st)"
  shows "rows_kept (st_jobs st) (st_jobs (snd (retry_job job stamp st)))"
proof (cases "\<exists>r. find_job job st = Some r \<and> jb_status r = Failed")
  case True
  then show ?thesis
    using found_ok [OF assms] assms reset_row_kept(2) by (auto simp: retry_job_def intro!: update_map_kept)
next
  case False
  then show ?thesis
    using assms rows_kept_refl by (auto simp: retry_job_def split: option.splits)
qed

lemma retry_filter_kept:
  assumes "table_ok (st_jobs st)"
  shows "rows_kept (st_jobs st) (st_jobs (snd (retry_recommendation_filter run stamp st)))"
proof (cases "rev (sort_key jb_created (filter (\<lambda>r. jb_run r = Some run \<and> jb_type r = ClassifyRecommendations) (st_jobs st)))")
  case Nil
  then show ?thesis using assms rows_kept_refl by (simp add: retry_recommendation_filter_def)
next
  case (Cons r rs)
  then have "r \<in> set (rev (sort_key jb_created (filter (\<lambda>r. jb_run r = Some run \<and> jb_type r = ClassifyRecommendations) (st_jobs st))))"
    by simp
  then have "r \<in> set (st_jobs st)" by simp
  then have found: "find_job (jb_id r) st = Some r" by (rule find_job_in [OF assms])
  show ?thesis
  proof (cases "jb_status r = Failed")
    case True
    then show ?thesis
      using found_ok [OF assms found] found assms reset_row_kept(1)
      by (auto simp: retry_recommendation_filter_def Cons intro!: update_map_kept)
  next
    case False
    then show ?thesis using assms rows_kept_refl by (simp add: retry_recommendation_filter_def Cons)
  qed
qed

lemma delivered_job_kept:
  assumes "table_ok (st_jobs st)"
  shows "rows_kept (st_jobs st) (st_jobs (delivered_job job stamp st))"
proof (cases "\<exists>r. find_job job st = Some r \<and> jb_status r = Ready")
  case True
  then show ?thesis
    using found_ok [OF assms] assms sent_row_kept(1) by (auto simp: delivered_job_def Let_def intro!: update_map_kept)
next
  case False
  then show ?thesis
    using assms rows_kept_refl by (auto simp: delivered_job_def split: option.splits)
qed

lemma delivery_error_kept:
  "table_ok (st_jobs st) \<Longrightarrow> rows_kept (st_jobs st) (st_jobs (delivery_error job error stamp st))"
  using found_ok sent_row_kept(2) by (auto simp: delivery_error_def intro!: update_map_kept)

lemma record_delivery_jobs [simp]: "st_jobs (record_delivery job part st) = st_jobs st"
  "st_notes (record_delivery job part st) = st_notes st"
  by (simp_all add: record_delivery_def)

lemma queue_filter_kept:
  assumes "table_ok (st_jobs st)" "queue_recommendation_filter hx run stamp st = Inr (job, st')"
  shows "rows_kept (st_jobs st) (st_jobs st')"
proof -
  have fresh: "fresh_row ((new_job (''xhs-filter-'' @ take 32 (dg_text hx run)) Pending ClassifyRecommendations
      payload stamp)\<lparr>jb_run := Some run\<rparr>)" for payload
    by (rule fresh_new_job) (simp_all add: done_status_def)
  show ?thesis
    using assms(2) insert_job_kept [OF assms(1) fresh] rows_kept_refl [OF assms(1)]
    by (auto simp: queue_recommendation_filter_def Let_def split: if_splits)
qed

lemma queue_following_kept:
  assumes "table_ok (st_jobs st)" "queue_following_filter hx users stamp st = Inr (job, st')"
  shows "rows_kept (st_jobs st) (st_jobs st')"
proof -
  have fresh: "fresh_row ((new_job (''xhs-profile-filter-'' @ take 32 (dg_text hx run)) Pending ClassifyProfiles
      payload stamp)\<lparr>jb_run := Some run'\<rparr>)" for payload run run'
    by (rule fresh_new_job) (simp_all add: done_status_def)
  show ?thesis
    using assms(2) insert_job_kept [OF assms(1) fresh] rows_kept_refl [OF assms(1)]
    by (auto simp: queue_following_filter_def Let_def split: if_splits)
qed

lemma messages_kept:
  assumes "table_ok (st_jobs st)"
  shows "enqueue_manual_message hx text request stamp st = Inr (known, st') \<Longrightarrow> rows_kept (st_jobs st) (st_jobs st')"
    "rows_kept (st_jobs st) (st_jobs (command_result hx message text stamp st))"
  using insert_if_new_kept [OF assms]
  by (auto simp: enqueue_manual_message_def command_result_def Let_def done_status_def split: if_splits
      intro!: insert_if_new_kept [OF assms] fresh_new_job)

lemma other_jobs [simp]:
  "st_jobs (create_recommendation_run run requested st) = st_jobs st"
  "st_jobs (snd (add_recommendation_item hx run body rank st)) = st_jobs st"
  "st_jobs (finish_recommendation_collection run fetched added error2 stamp st) = st_jobs st"
  by (simp_all add: create_recommendation_run_def add_recommendation_item_def finish_recommendation_collection_def Let_def)

end
