(* ===== verification/XhsReach.thy ===== *)
theory XhsReach
  imports XhsInvariants
begin

text \<open>
  The reachable stores of \<open>XhsQueue\<close> and what holds in them: the leases that were granted, the results,
  the notes a job was made of and the screening that let a note through.
\<close>

section \<open>Workers and stores\<close>

text \<open>\<open>qs_grants\<close> is the list of the leases given out, the newest first: which job, under which token.\<close>

record queue_system =
  qs_store :: store
  qs_grants :: "(string \<times> string) list"

definition empty_system :: queue_system where
  "empty_system = \<lparr>qs_store = empty_store, qs_grants = []\<rparr>"

text \<open>Every transaction but a claim, with whatever arguments it is called with.\<close>

inductive store_op :: "digests \<Rightarrow> store \<Rightarrow> store \<Rightarrow> bool" for hx where
  note_added: "store_op hx st (snd (add_note hx body stamp st))"
| single_queued: "store_op hx st (enqueue_single_note hx body deliver live stamp st)"
| pending_queued: "enqueue_pending hx n stamp st = Inr (job, st') \<Longrightarrow> store_op hx st st'"
| beaten: "heartbeat name lease stamp st = Inr st' \<Longrightarrow> store_op hx st st'"
| stored: "complete_job hx name lease result stamp st = Inr (c, st') \<Longrightarrow> store_op hx st st'"
| failed: "fail_job name lease error stamp st = Inr st' \<Longrightarrow> store_op hx st st'"
| retried: "store_op hx st (snd (retry_job name stamp st))"
| filter_retried: "store_op hx st (snd (retry_recommendation_filter run stamp st))"
| run_created: "store_op hx st (create_recommendation_run run requested st)"
| item_added: "store_op hx st (snd (add_recommendation_item hx run body rank st))"
| collected: "store_op hx st (finish_recommendation_collection run fetched added reason stamp st)"
| filter_queued: "queue_recommendation_filter hx run stamp st = Inr (name, st') \<Longrightarrow> store_op hx st st'"
| following_queued: "queue_following_filter hx users stamp st = Inr (name, st') \<Longrightarrow> store_op hx st st'"
| message_queued: "enqueue_manual_message hx text request stamp st = Inr (known, st') \<Longrightarrow> store_op hx st st'"
| command_answered: "store_op hx st (command_result hx message text stamp st)"
| part_recorded: "store_op hx st (record_delivery name part st)"
| delivered: "store_op hx st (delivered_job name stamp st)"
| not_delivered: "store_op hx st (delivery_error name error stamp st)"

text \<open>A claim gives out a token that was not given out before.\<close>

inductive queue_step :: "digests \<Rightarrow> queue_system \<Rightarrow> queue_system \<Rightarrow> bool" for hx where
  transaction: "store_op hx (qs_store s) st' \<Longrightarrow> queue_step hx s (s\<lparr>qs_store := st'\<rparr>)"
| nothing_claimed: "claim_job worker lane lease stamp (qs_store s) = Inr (None, st') \<Longrightarrow> queue_step hx s (s\<lparr>qs_store := st'\<rparr>)"
| claimed: "claim_job worker lane lease stamp (qs_store s) = Inr (Some r, st') \<Longrightarrow> lease \<notin> snd ` set (qs_grants s) \<Longrightarrow>
    queue_step hx s \<lparr>qs_store = st', qs_grants = (jb_id r, lease) # qs_grants s\<rparr>"

inductive queue_reachable :: "digests \<Rightarrow> queue_system \<Rightarrow> bool" for hx where
  start: "queue_reachable hx empty_system"
| step: "queue_reachable hx s \<Longrightarrow> queue_step hx s s' \<Longrightarrow> queue_reachable hx s'"

lemma store_op_kept:
  assumes "store_op hx st st'" "hex_digests hx" "table_ok (st_jobs st)"
  shows "rows_kept (st_jobs st) (st_jobs st')"
  using assms
proof (cases rule: store_op.cases)
  case (pending_queued n stamp job)
  then show ?thesis using enqueue_pending_kept assms by blast
qed (auto intro: rows_kept_refl enqueue_single_kept heartbeat_kept complete_job_kept fail_job_kept retry_job_kept
    retry_filter_kept queue_filter_kept queue_following_kept messages_kept delivered_job_kept delivery_error_kept)

text \<open>A claim changes one row.\<close>

lemma next_job_in: "next_job stamp lane st = Some r \<Longrightarrow> r \<in> set (st_jobs st) \<and> claimable stamp r \<and> in_lane lane r"
proof -
  let ?rows = "sort_key claim_order (sort_key jb_created (filter (\<lambda>r. claimable stamp r \<and> in_lane lane r) (st_jobs st)))"
  assume "next_job stamp lane st = Some r"
  then obtain rs where "?rows = r # rs" by (auto simp: next_job_def split: list.splits)
  then have "r \<in> set ?rows" by (simp only: list.set_intros)
  then show ?thesis by simp
qed

lemma claim_job_Some:
  assumes "claim_job worker lane lease stamp st = Inr (Some r, st')"
  shows "r \<in> set (st_jobs st)" "claimable stamp r" "st_notes st' = st_notes st"
    "st_jobs st' = map (\<lambda>q. if jb_id q = jb_id r then lease_job worker lease stamp q else q) (st_jobs st)"
  using assms next_job_in by (auto simp: claim_job_def Let_def update_job_def split: if_splits option.splits)

lemma claim_job_None:
  assumes "claim_job worker lane lease stamp st = Inr (None, st')"
  shows "st_jobs st' = st_jobs st" "st_notes st' = st_notes st"
  using assms by (auto simp: claim_job_def Let_def split: if_splits option.splits)

lemma lease_job_step: "job_row_ok r \<Longrightarrow> claimable stamp r \<Longrightarrow> row_step r (lease_job worker lease stamp r)"
  by (auto simp: row_step_def job_row_ok_def claimable_def lease_job_def done_status_def)

definition rows_step :: "job_row list \<Rightarrow> job_row list \<Rightarrow> bool" where
  "rows_step js js' \<longleftrightarrow>
     table_ok js' \<and> (\<forall>r'\<in>set js'. (\<exists>r\<in>set js. row_step r r') \<or> jb_id r' \<notin> jb_id ` set js)
     \<and> (\<forall>r\<in>set js. \<exists>r'\<in>set js'. row_step r r')"

lemma rows_kept_step: "table_ok js \<Longrightarrow> rows_kept js js' \<Longrightarrow> rows_step js js'"
  using rows_kept_table unfolding rows_step_def rows_kept_def row_kept_def by blast

lemma claimed_rows_step:
  assumes "table_ok js" "r \<in> set js" "claimable stamp r"
  shows "rows_step js (map (\<lambda>q. if jb_id q = jb_id r then lease_job worker lease stamp q else q) js)"
proof -
  let ?f = "\<lambda>q. if jb_id q = jb_id r then lease_job worker lease stamp q else q"
  have step: "row_step q (?f q)" if "q \<in> set js" for q
  proof (cases "jb_id q = jb_id r")
    case True
    then have "q = r" using assms(1,2) that by (auto simp: table_ok_def distinct_map inj_on_def)
    then show ?thesis using assms lease_job_step by (simp add: table_ok_def)
  next
    case False
    then show ?thesis using assms(1) that row_kept_refl by (simp add: table_ok_def row_kept_def)
  qed
  then have ids: "map jb_id (map ?f js) = map jb_id js" by (auto simp: row_step_def)
  have "table_ok (map ?f js)"
    unfolding table_ok_def
  proof (intro conjI ballI)
    show "distinct (map jb_id (map ?f js))" unfolding ids using assms(1) by (simp add: table_ok_def)
    fix r' assume "r' \<in> set (map ?f js)"
    then obtain q where "q \<in> set js" "r' = ?f q" by auto
    with step [of q] assms(1) show "job_row_ok r'" "id_typed r'"
      by (simp_all add: row_step_def id_typed_def table_ok_def)
  qed
  moreover have "\<exists>q\<in>set js. row_step q r'" if "r' \<in> set (map ?f js)" for r'
    using that step by (metis (no_types, lifting) image_iff set_map)
  moreover have "\<exists>r'\<in>set (map ?f js). row_step q r'" if "q \<in> set js" for q
    using step [OF that] that by (intro bexI [of _ "?f q"], simp) (simp only: set_map, rule imageI)
  ultimately show ?thesis unfolding rows_step_def by blast
qed

lemma queue_step_rows:
  assumes "queue_step hx s s'" "hex_digests hx" "table_ok (st_jobs (qs_store s))"
  shows "rows_step (st_jobs (qs_store s)) (st_jobs (qs_store s'))"
  using assms(1)
proof cases
  case (transaction st')
  then show ?thesis using rows_kept_step store_op_kept assms by simp
next
  case (nothing_claimed worker lane lease stamp st')
  then show ?thesis using rows_kept_step rows_kept_refl assms claim_job_None by simp
next
  case (claimed worker lane lease stamp r st')
  then show ?thesis using claimed_rows_step assms claim_job_Some by simp
qed

lemma reachable_table:
  "queue_reachable hx s \<Longrightarrow> hex_digests hx \<Longrightarrow> table_ok (st_jobs (qs_store s))"
proof (induction rule: queue_reachable.induct)
  case start
  then show ?case by (simp add: empty_system_def empty_store_def table_ok_def)
next
  case (step s s')
  then show ?case using queue_step_rows by (simp add: rows_step_def)
qed

section \<open>Results\<close>

lemma rows_step_found:
  assumes "table_ok (st_jobs st)" "rows_step (st_jobs st) (st_jobs st')" "find_job job st = Some r"
  shows "\<exists>r'. find_job job st' = Some r' \<and> row_step r r'"
proof -
  obtain r' where r': "r' \<in> set (st_jobs st')" "row_step r r'"
    using assms(2) find_job_Some [OF assms(3)] unfolding rows_step_def by blast
  moreover have "jb_id r' = job" using r'(2) find_job_Some [OF assms(3)] by (simp add: row_step_def)
  ultimately show ?thesis
    using find_job_in [of st' r'] assms(2) unfolding rows_step_def by blast
qed

text \<open>
  A result is stored once: whatever workers, deliveries and retries do afterwards, the job keeps it,
  never goes back to the queue, and stays sent once it is sent.
\<close>

theorem results_final:
  assumes "hex_digests hx" "queue_reachable hx s" "(queue_step hx)\<^sup>*\<^sup>* s s'"
    "find_job job (qs_store s) = Some r" "jb_result r = Some result"
  shows "\<exists>r'. find_job job (qs_store s') = Some r' \<and> jb_result r' = Some result \<and> done_status (jb_status r')
    \<and> (jb_status r = Sent \<longrightarrow> jb_status r' = Sent)"
  using assms(3,1,2,4,5)
proof (induction)
  case base
  then show ?case
    using reachable_table [OF base(2,1)] found_ok by (fastforce simp: job_row_ok_def)
next
  case (step y z)
  have y: "queue_reachable hx y"
    using step.hyps(1) step.prems(2) by (induction) (auto intro: queue_reachable.step)
  note ok = reachable_table [OF y step.prems(1)]
  obtain r' where r': "find_job job (qs_store y) = Some r'" "jb_result r' = Some result"
      "jb_status r = Sent \<longrightarrow> jb_status r' = Sent"
    using step by blast
  obtain r'' where r'': "find_job job (qs_store z) = Some r''" "row_step r' r''"
    using rows_step_found [OF ok queue_step_rows [OF step.hyps(2) step.prems(1) ok] r'(1)] by blast
  then show ?case using r' by (auto simp: row_step_def job_row_ok_def)
qed

section \<open>Leases\<close>

definition leases_granted :: "queue_system \<Rightarrow> bool" where
  "leases_granted s \<longleftrightarrow>
     (\<forall>r\<in>set (st_jobs (qs_store s)). jb_lease r = None \<or> jb_lease r = map_of (qs_grants s) (jb_id r))"

lemma kept_leases:
  assumes "rows_kept (st_jobs (qs_store s)) (st_jobs st')" "leases_granted s"
  shows "leases_granted (s\<lparr>qs_store := st'\<rparr>)"
  unfolding leases_granted_def
proof
  fix r' assume "r' \<in> set (st_jobs (qs_store (s\<lparr>qs_store := st'\<rparr>)))"
  then have "r' \<in> set (st_jobs st')" by simp
  with assms(1) show "jb_lease r' = None \<or> jb_lease r' = map_of (qs_grants (s\<lparr>qs_store := st'\<rparr>)) (jb_id r')"
  proof (cases rule: rows_kept_cases)
    case (old r)
    then show ?thesis using assms(2) by (auto simp: leases_granted_def row_kept_def row_step_def)
  next
    case new
    then show ?thesis by (simp add: fresh_row_def)
  qed
qed

lemma reachable_leases:
  "queue_reachable hx s \<Longrightarrow> hex_digests hx \<Longrightarrow> leases_granted s"
proof (induction rule: queue_reachable.induct)
  case start
  then show ?case by (simp add: leases_granted_def empty_system_def empty_store_def)
next
  case (step s s')
  note ok = reachable_table [OF step.hyps(1) step.prems]
  from step.hyps(2) show ?case
  proof cases
    case (transaction st')
    then show ?thesis using kept_leases store_op_kept [OF _ step.prems ok] step by simp
  next
    case (nothing_claimed worker lane lease stamp st')
    then show ?thesis
      using kept_leases [of s st'] rows_kept_refl [OF ok] claim_job_None(1) [OF nothing_claimed(2)] step by simp
  next
    case (claimed worker lane lease stamp r st')
    then show ?thesis
      using step claim_job_Some(4) [OF claimed(2)] by (auto simp: leases_granted_def lease_job_def)
  qed
qed

lemma open_screening_lease: "open_screening kind job lease stamp st = Inr r \<Longrightarrow> find_job job st = Some r \<and> jb_lease r = Some lease"
  by (simp add: open_screening_Inr lease_valid_def)

lemma complete_job_lease:
  assumes "complete_job hx job lease result stamp st = Inr (c, st')"
  shows "\<exists>r. find_job job st = Some r \<and> jb_lease r = Some lease"
proof -
  have "\<exists>r. find_job job st = Some r \<and> jb_lease r = Some lease"
    if "complete_summary hx job lease result stamp st = Inr (c, st')"
    using that by (cases rule: complete_summary_Inr) (auto simp: lease_valid_def)
  with assms open_screening_lease show ?thesis
    by (auto simp: complete_job_def complete_filter_def complete_note_filter_def complete_profile_filter_def
        split: option.splits job_type.splits)
qed

text \<open>
  C20. Only the worker that was granted a job last can do anything with it: a heartbeat, a failure or a
  result that comes with any other token is refused, also when it comes late.
\<close>

theorem lease_fenced:
  assumes "hex_digests hx" "queue_reachable hx s" "map_of (qs_grants s) job \<noteq> Some lease"
  shows "heartbeat job lease stamp (qs_store s) = Inl LeaseLost
    \<and> fail_job job lease error stamp (qs_store s) = Inl LeaseLost
    \<and> (\<exists>e. complete_job hx job lease result stamp (qs_store s) = Inl e)"
proof -
  have other: "jb_lease r \<noteq> Some lease" if "find_job job (qs_store s) = Some r" for r
    using reachable_leases [OF assms(2,1)] find_job_Some [OF that] assms(3) by (auto simp: leases_granted_def)
  have "\<exists>e. complete_job hx job lease result stamp (qs_store s) = Inl e"
    using complete_job_lease [of hx job lease result stamp "qs_store s"] other
    by (cases "complete_job hx job lease result stamp (qs_store s)") auto
  moreover have "heartbeat job lease stamp (qs_store s) = Inl LeaseLost"
    using other by (auto simp: heartbeat_def split: option.splits)
  moreover have "fail_job job lease error stamp (qs_store s) = Inl LeaseLost"
    using other by (auto simp: fail_job_def split: option.splits)
  ultimately show ?thesis by blast
qed

section \<open>Notes\<close>

definition note_table_ok :: "digests \<Rightarrow> note_row list \<Rightarrow> bool" where
  "note_table_ok hx ns \<longleftrightarrow> distinct (map nr_revision ns) \<and> (\<forall>n\<in>set ns. nr_revision n = revision_of hx (nr_body n))"

definition notes_kept :: "note_row list \<Rightarrow> note_row list \<Rightarrow> bool" where
  "notes_kept ns ns' \<longleftrightarrow>
     (\<forall>n\<in>set ns. \<exists>n'\<in>set ns'. nr_revision n' = nr_revision n \<and> (nr_job n \<noteq> None \<longrightarrow> nr_job n' = nr_job n))"

definition note_kept :: "note_row \<Rightarrow> note_row \<Rightarrow> bool" where
  "note_kept n n' \<longleftrightarrow> nr_revision n' = nr_revision n \<and> nr_body n' = nr_body n \<and> (nr_job n \<noteq> None \<longrightarrow> nr_job n' = nr_job n)"

lemma notes_kept_refl: "notes_kept ns ns"
  by (auto simp: notes_kept_def)

lemma notes_kept_trans: "notes_kept a b \<Longrightarrow> notes_kept b c \<Longrightarrow> notes_kept a c"
  unfolding notes_kept_def by metis

lemma update_notes_keeps:
  assumes "note_table_ok hx (st_notes st)" "\<And>n. n \<in> set (st_notes st) \<Longrightarrow> p n \<Longrightarrow> note_kept n (f n)"
  shows "note_table_ok hx (st_notes (update_notes p f st)) \<and> notes_kept (st_notes st) (st_notes (update_notes p f st))"
proof -
  have revisions: "map nr_revision (st_notes (update_notes p f st)) = map nr_revision (st_notes st)"
    using assms(2) by (auto simp: update_notes_def note_kept_def)
  have "note_table_ok hx (st_notes (update_notes p f st))"
    unfolding note_table_ok_def revisions
    using assms by (auto simp: note_table_ok_def update_notes_def note_kept_def)
  moreover have "notes_kept (st_notes st) (st_notes (update_notes p f st))"
    unfolding notes_kept_def
  proof
    fix n assume "n \<in> set (st_notes st)"
    then show "\<exists>n'\<in>set (st_notes (update_notes p f st)). nr_revision n' = nr_revision n \<and> (nr_job n \<noteq> None \<longrightarrow> nr_job n' = nr_job n)"
      using assms(2) [of n] by (intro bexI [of _ "if p n then f n else n"]) (auto simp: update_notes_def note_kept_def)
  qed
  ultimately show ?thesis ..
qed

lemma insert_note_keeps:
  "note_table_ok hx (st_notes st) \<Longrightarrow> nr_revision row = revision_of hx (nr_body row) \<Longrightarrow>
   note_table_ok hx (st_notes (insert_note_if_new row st)) \<and> notes_kept (st_notes st) (st_notes (insert_note_if_new row st))"
  by (auto simp: insert_note_if_new_def note_table_ok_def notes_kept_def)

lemma st_notes_insert_if_new [simp]: "st_notes (insert_job_if_new row st) = st_notes st"
  by (simp add: insert_job_if_new_def)

lemma insert_job_Inr:
  assumes "insert_job row st = Inr st'"
  shows "st_notes st' = st_notes st" "st_jobs st' = st_jobs st @ [row]"
  using assms by (auto simp: insert_job_def split: if_splits)

definition notes_safe :: "digests \<Rightarrow> store \<Rightarrow> store \<Rightarrow> bool" where
  "notes_safe hx st st' \<longleftrightarrow> note_table_ok hx (st_notes st') \<and> notes_kept (st_notes st) (st_notes st')"

lemma notes_safe_same: "note_table_ok hx (st_notes st) \<Longrightarrow> st_notes st' = st_notes st \<Longrightarrow> notes_safe hx st st'"
  by (simp add: notes_safe_def notes_kept_refl)

lemma update_insert_safe:
  assumes "note_table_ok hx (st_notes st)" "nr_revision row = revision_of hx (nr_body row)"
    "\<And>n. n \<in> set (st_notes (insert_note_if_new row st)) \<Longrightarrow> p n \<Longrightarrow> note_kept n (f n)"
    "st_notes st' = st_notes (update_notes p f (insert_note_if_new row st))"
  shows "notes_safe hx st st'"
  using insert_note_keeps [OF assms(1,2)] update_notes_keeps [of hx "insert_note_if_new row st" p f] assms(3,4)
    notes_kept_trans by (simp add: notes_safe_def) blast

lemma st_notes_completions [simp]:
  "st_notes (after_summary hx job result stamp r st) = st_notes st"
  "st_notes (after_note_filter hx job result stamp r ds st) = st_notes st"
  "st_notes (after_filter hx job result stamp r ds st) = st_notes st"
  by (simp_all add: after_summary_def after_note_filter_def after_filter_def Let_def)

lemma complete_job_notes:
  assumes "complete_job hx job lease result stamp st = Inr (c, st')"
  shows "st_notes st' = st_notes st"
proof -
  have "st_notes st' = st_notes st" if "complete_summary hx job lease result stamp st = Inr (c, st')"
    using that by (cases rule: complete_summary_Inr) auto
  with assms show ?thesis
    by (auto simp: complete_job_def complete_filter_def complete_note_filter_def complete_profile_filter_def Let_def
        split: option.splits job_type.splits)
qed

lemma pending_batch_subset: "set (fst (pending_batch hx rows stamp)) \<subseteq> set rows"
  by (auto simp: pending_batch_def Let_def)

lemma unassigned_rows: "set (unassigned n st) \<subseteq> {r \<in> set (st_notes st). nr_job r = None}"
  unfolding unassigned_def by (rule subset_trans [OF set_take_subset]) auto

lemma enqueue_pending_Inr:
  assumes "enqueue_pending hx n stamp st = Inr (job, st')" "unassigned n st \<noteq> []"
  obtains st1 where "insert_job (snd (pending_batch hx (unassigned n st) stamp)) st = Inr st1"
    "st' = assign (jb_id (snd (pending_batch hx (unassigned n st) stamp))) (fst (pending_batch hx (unassigned n st) stamp)) st1"
    "job = Some (jb_id (snd (pending_batch hx (unassigned n st) stamp)))"
  using assms by (auto simp: enqueue_pending_def Let_def split_beta)

lemma store_op_notes:
  assumes "store_op hx st st'" "note_table_ok hx (st_notes st)"
  shows "notes_safe hx st st'"
  using assms(1)
proof cases
  case (note_added body stamp)
  show ?thesis
    unfolding note_added
    by (rule update_insert_safe [OF assms(2)]) (auto simp: add_note_def Let_def note_kept_def)
next
  case (single_queued body deliver live stamp)
  show ?thesis
    unfolding single_queued
    by (rule update_insert_safe [OF assms(2)])
      (auto simp: enqueue_single_note_def Let_def note_kept_def split: option.splits)
next
  case (pending_queued n stamp job)
  show ?thesis
  proof (cases "unassigned n st = []")
    case True
    with pending_queued assms(2) show ?thesis by (simp add: enqueue_pending_def notes_safe_same)
  next
    case False
    let ?batch = "fst (pending_batch hx (unassigned n st) stamp)" and ?name = "jb_id (snd (pending_batch hx (unassigned n st) stamp))"
    from pending_queued False obtain st1 where
      st1: "insert_job (snd (pending_batch hx (unassigned n st) stamp)) st = Inr st1" "st' = assign ?name ?batch st1"
      by (rule enqueue_pending_Inr)
    note same = insert_job_Inr(1) [OF st1(1)]
    have free: "nr_job m = None" if "m \<in> set (st_notes st1)" "nr_revision m \<in> nr_revision ` set ?batch" for m
    proof -
      obtain b where b: "b \<in> set ?batch" "nr_revision m = nr_revision b"
        using \<open>nr_revision m \<in> nr_revision ` set ?batch\<close> by blast
      have "b \<in> set (st_notes st)" "nr_job b = None"
        using b(1) pending_batch_subset unassigned_rows by blast+
      moreover then have "m = b"
        using assms(2) that b same by (auto simp: note_table_ok_def distinct_map inj_on_def)
      ultimately show ?thesis by simp
    qed
    have "note_table_ok hx (st_notes st1)" using assms(2) same by simp
    from update_notes_keeps [OF this, of "\<lambda>r. nr_revision r \<in> nr_revision ` set ?batch" "\<lambda>r. r\<lparr>nr_job := Some ?name\<rparr>"] free
    show ?thesis by (simp add: notes_safe_def st1(2) assign_def note_kept_def same)
  qed
next
  case (item_added run body rank)
  have safe: "note_table_ok hx (st_notes (update_notes p f st2)) \<and> notes_kept (st_notes st) (st_notes (update_notes p f st2))"
    if "st_notes st2 = st_notes st" "p = (\<lambda>n. nr_revision n = revision_of hx body \<and> nr_job n = None)"
      "f = (\<lambda>n. n\<lparr>nr_job := Some (''xhs-recommendation:'' @ run)\<rparr>)" for st2 p f
    using update_notes_keeps [of hx st2 p f] assms(2) that by (simp add: note_kept_def)
  show ?thesis
    unfolding notes_safe_def item_added by (simp add: add_recommendation_item_def Let_def safe)
qed (use assms(2) complete_job_notes in \<open>auto intro!: notes_safe_same dest: insert_job_Inr(1) simp: heartbeat_def fail_job_def retry_job_def Let_def
    retry_recommendation_filter_def create_recommendation_run_def finish_recommendation_collection_def
    queue_recommendation_filter_def queue_following_filter_def enqueue_manual_message_def command_result_def
    delivered_job_def delivery_error_def split: option.splits if_splits list.splits\<close>)

section \<open>Where the notes of a job come from\<close>

definition queued :: "store \<Rightarrow> string \<Rightarrow> string \<Rightarrow> bool" where
  "queued st revision job \<longleftrightarrow> (\<exists>n\<in>set (st_notes st). nr_revision n = revision \<and> nr_job n = Some job)"

text \<open>A completed screening whose stored result includes the note.\<close>

definition included_by :: "digests \<Rightarrow> job_row list \<Rightarrow> string \<Rightarrow> xhs_note \<Rightarrow> bool" where
  "included_by hx js parent body \<longleftrightarrow>
     (\<exists>q\<in>set js. jb_id q = parent \<and> jb_type q \<in> {ClassifyNotes, ClassifyRecommendations} \<and> jb_status q = Completed
        \<and> (\<exists>result items d. jb_result q = Some result \<and> wr_decisions result = Some items
             \<and> d \<in> set (included (decided items))
             \<and> (de_candidate d = revision_of hx body \<or> filter_key d = revision_of hx body)))"

definition job_sound :: "digests \<Rightarrow> store \<Rightarrow> job_row \<Rightarrow> bool" where
  "job_sound hx st r \<longleftrightarrow>
     (\<forall>c body. (c, body) \<in> set (pl_notes (jb_payload r)) \<longrightarrow>
        (case jb_type r of
           ClassifyNotes \<Rightarrow> c = revision_of hx body \<and> queued st (revision_of hx body) (jb_id r)
         | ClassifyRecommendations \<Rightarrow> c = revision_of hx body
         | Summary \<Rightarrow>
             (case jb_parent r of
                None \<Rightarrow> no_watched body \<and> queued st (revision_of hx body) (jb_id r)
              | Some parent \<Rightarrow> included_by hx (st_jobs st) parent body)
         | _ \<Rightarrow> True))"

lemma included_by_step: "included_by hx js parent body \<Longrightarrow> rows_step js js' \<Longrightarrow> included_by hx js' parent body"
proof -
  assume "included_by hx js parent body" and step: "rows_step js js'"
  then obtain q result items d where q: "q \<in> set js" "jb_id q = parent" "jb_type q \<in> {ClassifyNotes, ClassifyRecommendations}"
    "jb_status q = Completed" "jb_result q = Some result" "wr_decisions result = Some items"
    "d \<in> set (included (decided items))" "de_candidate d = revision_of hx body \<or> filter_key d = revision_of hx body"
    unfolding included_by_def by blast
  obtain q' where q': "q' \<in> set js'" "row_step q q'" using step q(1) unfolding rows_step_def by blast
  then have "jb_id q' = parent" "jb_type q' = jb_type q" "jb_status q' = Completed" "jb_result q' = Some result"
    using q(2-5) by (auto simp: row_step_def)
  then show ?thesis unfolding included_by_def using q' q(3,6-8) by metis
qed

lemma queued_kept: "queued st v job \<Longrightarrow> notes_kept (st_notes st) (st_notes st') \<Longrightarrow> queued st' v job"
  unfolding queued_def notes_kept_def by (metis option.distinct(1))

lemma job_sound_step:
  assumes "job_sound hx st r" "row_step r r'" "rows_step (st_jobs st) (st_jobs st')"
    "notes_kept (st_notes st) (st_notes st')"
  shows "job_sound hx st' r'"
proof (cases "jb_type r = SingleNote")
  case True
  then show ?thesis using assms(2) by (simp add: job_sound_def row_step_def)
next
  case False
  with assms(2) have same: "jb_payload r' = jb_payload r" "jb_type r' = jb_type r" "jb_id r' = jb_id r" "jb_parent r' = jb_parent r"
    by (simp_all add: row_step_def)
  show ?thesis
    using assms(1) queued_kept [OF _ assms(4)] included_by_step [OF _ assms(3)]
    unfolding job_sound_def same by (fastforce split: job_type.splits option.splits)
qed

definition queue_sound :: "digests \<Rightarrow> store \<Rightarrow> bool" where
  "queue_sound hx st \<longleftrightarrow>
     table_ok (st_jobs st) \<and> note_table_ok hx (st_notes st) \<and> (\<forall>r\<in>set (st_jobs st). job_sound hx st r)"

text \<open>What is left to show of a transaction: the jobs it adds are sound.\<close>

definition adds_sound :: "digests \<Rightarrow> store \<Rightarrow> store \<Rightarrow> bool" where
  "adds_sound hx st st' \<longleftrightarrow> (\<forall>r\<in>set (st_jobs st'). jb_id r \<notin> jb_id ` set (st_jobs st) \<longrightarrow> job_sound hx st' r)"

lemma queue_sound_step:
  assumes "queue_sound hx st" "rows_step (st_jobs st) (st_jobs st')" "notes_safe hx st st'" "adds_sound hx st st'"
  shows "queue_sound hx st'"
  unfolding queue_sound_def
proof (intro conjI ballI)
  show "table_ok (st_jobs st')" using assms(2) by (simp add: rows_step_def)
  show "note_table_ok hx (st_notes st')" using assms(3) by (simp add: notes_safe_def)
  fix r' assume r': "r' \<in> set (st_jobs st')"
  show "job_sound hx st' r'"
  proof (cases "jb_id r' \<in> jb_id ` set (st_jobs st)")
    case True
    then obtain r where "r \<in> set (st_jobs st)" "row_step r r'"
      using assms(2) r' unfolding rows_step_def by blast
    then show ?thesis
      using assms(1,2,3) job_sound_step [of hx st r r' st'] by (simp add: queue_sound_def notes_safe_def)
  next
    case False
    then show ?thesis using assms(4) r' by (simp add: adds_sound_def)
  qed
qed

lemma adds_nothing: "jb_id ` set (st_jobs st') \<subseteq> jb_id ` set (st_jobs st) \<Longrightarrow> adds_sound hx st st'"
  by (auto simp: adds_sound_def)

lemma adds_one:
  assumes "st_jobs st' = map f (st_jobs st @ [row])" "\<And>r. jb_id (f r) = jb_id r"
    "jb_id row \<notin> jb_id ` set (st_jobs st) \<Longrightarrow> job_sound hx st' (f row)"
  shows "adds_sound hx st st'"
  using assms by (auto simp: adds_sound_def image_iff)

lemma adds_updated:
  "st_jobs st' = map f (st_jobs st) \<Longrightarrow> (\<And>r. jb_id (f r) = jb_id r) \<Longrightarrow> adds_sound hx st st'"
  by (rule adds_nothing) (auto simp: image_iff)

lemma adds_if_new:
  assumes "st_jobs st' = map f (st_jobs (insert_job_if_new row st1))" "st_jobs st1 = st_jobs st"
    "\<And>r. jb_id (f r) = jb_id r" "job_sound hx st' (f row)"
  shows "adds_sound hx st st'"
proof (cases "find_job (jb_id row) st1 = None")
  case True
  then show ?thesis using assms by (intro adds_one [of st' f st row]) (simp_all add: insert_job_if_new_def)
next
  case False
  then show ?thesis using assms by (intro adds_updated [of st' f]) (simp_all add: insert_job_if_new_def)
qed

lemma job_sound_plain: "jb_type r \<notin> {ClassifyNotes, ClassifyRecommendations, Summary} \<Longrightarrow> job_sound hx st r"
  by (auto simp: job_sound_def split: job_type.splits)

lemma job_sound_empty: "pl_notes (jb_payload r) = [] \<Longrightarrow> job_sound hx st r"
  by (simp add: job_sound_def)

lemma pending_adds:
  assumes "enqueue_pending hx n stamp st = Inr (job, st')" "note_table_ok hx (st_notes st)"
  shows "adds_sound hx st st'"
proof (cases "unassigned n st = []")
  case True
  with assms show ?thesis by (simp add: enqueue_pending_def adds_nothing)
next
  case False
  let ?batch = "fst (pending_batch hx (unassigned n st) stamp)" and ?row = "snd (pending_batch hx (unassigned n st) stamp)"
  from assms(1) False obtain st1 where
    st1: "insert_job ?row st = Inr st1" "st' = assign (jb_id ?row) ?batch st1"
    by (rule enqueue_pending_Inr)
  have from_batch: "\<exists>b\<in>set ?batch. body = nr_body b \<and> (jb_type ?row = ClassifyNotes \<and> c = nr_revision b
      \<or> jb_type ?row = Summary \<and> jb_parent ?row = None \<and> no_watched body)"
    if "(c, body) \<in> set (pl_notes (jb_payload ?row))" for c body
    using that by (auto simp: pending_batch_def Let_def empty_payload_def split: if_splits)
  have "job_sound hx st' ?row"
    unfolding job_sound_def
  proof (intro allI impI)
    fix c body assume "(c, body) \<in> set (pl_notes (jb_payload ?row))"
    then obtain b where b: "b \<in> set ?batch" "body = nr_body b" and kind: "jb_type ?row = ClassifyNotes \<and> c = nr_revision b
        \<or> jb_type ?row = Summary \<and> jb_parent ?row = None \<and> no_watched body"
      using from_batch by blast
    have "b \<in> set (st_notes st)" using b(1) pending_batch_subset unassigned_rows by blast
    then have revision: "nr_revision b = revision_of hx body" using assms(2) b(2) by (simp add: note_table_ok_def)
    have "queued st' (revision_of hx body) (jb_id ?row)"
      unfolding queued_def using \<open>b \<in> set (st_notes st)\<close> b(1) revision
      by (intro bexI [of _ "b\<lparr>nr_job := Some (jb_id ?row)\<rparr>"])
        (auto simp: st1(2) assign_def update_notes_def insert_job_Inr(1) [OF st1(1)] image_iff intro!: bexI [of _ b])
    with kind revision show "case jb_type ?row of ClassifyNotes \<Rightarrow> c = revision_of hx body \<and> queued st' (revision_of hx body) (jb_id ?row)
         | ClassifyRecommendations \<Rightarrow> c = revision_of hx body
         | Summary \<Rightarrow> (case jb_parent ?row of
                None \<Rightarrow> no_watched body \<and> queued st' (revision_of hx body) (jb_id ?row)
              | Some parent \<Rightarrow> included_by hx (st_jobs st') parent body)
         | _ \<Rightarrow> True"
      by auto
  qed
  moreover have "st_jobs st' = map id (st_jobs st @ [?row])" by (simp add: st1(2) insert_job_Inr(2) [OF st1(1)])
  ultimately show ?thesis by (intro adds_one [of _ id]) simp_all
qed

lemma finish_job_id [simp]: "jb_id (finish_job status hx result stamp r) = jb_id r"
  "jb_type (finish_job status hx result stamp r) = jb_type r" "jb_parent (finish_job status hx result stamp r) = jb_parent r"
  "jb_payload (finish_job status hx result stamp r) = jb_payload r"
  by (simp_all add: finish_job_def)

lemma mapR_check: "mapR check_decision ds = Inr ds' \<Longrightarrow> ds' = ds"
  by (induction ds arbitrary: ds') (auto simp: check_decision_def split: if_splits option.splits)

lemma checked_decisions_Inr:
  assumes "checked_decisions key allowed items = Inr ds"
  shows "ds = decided items" "covers key allowed items"
  using assms mapR_check by (auto simp: checked_decisions_def split: if_splits)

lemma map_filter_in: "y \<in> set (List.map_filter f xs) \<longleftrightarrow> (\<exists>x\<in>set xs. f x = Some y)"
  by (induction xs) (auto simp: List.map_filter_simps split: option.splits)

lemma found_in: "find P xs = Some x \<Longrightarrow> x \<in> set xs \<and> P x"
  by (auto simp: find_Some_iff)

lemma screened_notes_in:
  "(c, body) \<in> set (screened_notes payload ds) \<Longrightarrow>
   \<exists>d\<in>set (included ds). de_candidate d = c \<and> (c, body) \<in> set (pl_notes payload)"
  by (auto simp: screened_notes_def map_filter_in dest!: map_of_SomeD)

text \<open>The finished screening is the row that vouches for the notes it let through.\<close>

lemma finished_vouches:
  assumes "r \<in> set js" "jb_id r = job" "jb_type r \<in> {ClassifyNotes, ClassifyRecommendations}"
    "wr_decisions result = Some items" "d \<in> set (included (decided items))"
    "de_candidate d = revision_of hx body \<or> filter_key d = revision_of hx body"
    "finish_job Completed hx result stamp r \<in> set js'"
  shows "included_by hx js' job body"
  unfolding included_by_def
  using assms by (intro bexI [OF _ assms(7)]) (auto simp: finish_job_def)

lemma note_filter_adds:
  assumes "queue_sound hx st" "complete_note_filter hx job lease result stamp st = Inr st'"
  shows "adds_sound hx st st'"
  using assms(2)
proof (cases rule: complete_note_filter_Inr)
  case (1 items r ds)
  let ?selected = "screened_notes (jb_payload r) ds"
  let ?row = "screened_summary hx job ?selected stamp"
  let ?st1 = "st\<lparr>st_topics := put_all de_candidate de_decision ds (st_topics st)\<rparr>"
  let ?f = "\<lambda>q. if jb_id q = job then finish_job Completed hx result stamp q else q"
  have r: "r \<in> set (st_jobs st)" "jb_id r = job" using find_job_Some [OF 1(2)] by simp_all
  show ?thesis
  proof (cases "?selected = []")
    case True
    then have "st_jobs st' = map ?f (st_jobs st)" by (simp add: 1(6) after_note_filter_def Let_def)
    then show ?thesis by (rule adds_updated) simp
  next
    case False
    then have jobs: "st_jobs st' = map ?f (st_jobs (insert_job_if_new ?row ?st1))"
      by (simp add: 1(6) after_note_filter_def Let_def)
    have "job_sound hx st' (?f ?row)"
      unfolding job_sound_def
    proof (intro allI impI)
      fix c body assume "(c, body) \<in> set (pl_notes (jb_payload (?f ?row)))"
      then have "(c, body) \<in> set ?selected" by (simp add: screened_summary_def split: if_splits)
      then obtain d where d: "d \<in> set (included ds)" "de_candidate d = c" "(c, body) \<in> set (pl_notes (jb_payload r))"
        using screened_notes_in by blast
      have "c = revision_of hx body"
        using assms(1) r(1) d(3) 1(3) by (fastforce simp: queue_sound_def job_sound_def)
      moreover have "finish_job Completed hx result stamp r \<in> set (st_jobs st')"
        using r unfolding jobs by (force simp: insert_job_if_new_def)
      ultimately have "included_by hx (st_jobs st') job body"
        using finished_vouches [OF r(1,2) _ 1(1)] d 1(3) checked_decisions_Inr(1) [OF 1(5)] by simp
      then show "case jb_type (?f ?row) of ClassifyNotes \<Rightarrow> c = revision_of hx body \<and> queued st' (revision_of hx body) (jb_id (?f ?row))
           | ClassifyRecommendations \<Rightarrow> c = revision_of hx body
           | Summary \<Rightarrow> (case jb_parent (?f ?row) of
                  None \<Rightarrow> no_watched body \<and> queued st' (revision_of hx body) (jb_id (?f ?row))
                | Some parent \<Rightarrow> included_by hx (st_jobs st') parent body)
           | _ \<Rightarrow> True"
        by (simp add: screened_summary_def)
    qed
    with jobs show ?thesis by (intro adds_if_new [OF jobs]) simp_all
  qed
qed

lemma recommended_in:
  "body \<in> set (selected_recommendations st run ds) \<Longrightarrow>
   \<exists>d\<in>set (included ds). \<exists>n\<in>set (st_notes st). nr_revision n = filter_key d \<and> nr_body n = body"
  by (auto simp: selected_recommendations_def map_filter_in recommended_note_def split: if_splits dest!: found_in)

lemma filter_adds:
  assumes "queue_sound hx st" "complete_filter hx job lease result stamp st = Inr st'"
  shows "adds_sound hx st st'"
  using assms(2)
proof (cases rule: complete_filter_Inr)
  case (1 items r ds)
  let ?run = "str_or (jb_run r) []"
  let ?selected = "selected_recommendations st ?run ds"
  let ?row = "recommended_summary hx job r ?selected stamp"
  let ?f = "\<lambda>q. if jb_id q = job then finish_job Completed hx result stamp q else q"
  have r: "r \<in> set (st_jobs st)" "jb_id r = job" using find_job_Some [OF 1(2)] by simp_all
  show ?thesis
  proof (cases "?selected = []")
    case True
    then have "st_jobs st' = map ?f (st_jobs st)" by (simp add: 1(6) after_filter_def Let_def)
    then show ?thesis by (rule adds_updated) simp
  next
    case False
    then have jobs: "st_jobs st' = map ?f (st_jobs (insert_job_if_new ?row (note_screenings ?run ds st)))"
      by (simp add: 1(6) after_filter_def Let_def)
    have "job_sound hx st' (?f ?row)"
      unfolding job_sound_def
    proof (intro allI impI)
      fix c body assume "(c, body) \<in> set (pl_notes (jb_payload (?f ?row)))"
      then have "body \<in> set ?selected" by (auto simp: recommended_summary_def split: if_splits)
      then obtain d n where d: "d \<in> set (included ds)" "n \<in> set (st_notes st)" "nr_revision n = filter_key d" "nr_body n = body"
        using recommended_in by blast
      have "filter_key d = revision_of hx body"
        using assms(1) d(2-4) by (simp add: queue_sound_def note_table_ok_def)
      moreover have "finish_job Completed hx result stamp r \<in> set (st_jobs st')"
        using r unfolding jobs by (force simp: insert_job_if_new_def)
      ultimately have "included_by hx (st_jobs st') job body"
        using finished_vouches [OF r(1,2) _ 1(1)] d(1) 1(3) checked_decisions_Inr(1) [OF 1(5)] by simp
      then show "case jb_type (?f ?row) of ClassifyNotes \<Rightarrow> c = revision_of hx body \<and> queued st' (revision_of hx body) (jb_id (?f ?row))
           | ClassifyRecommendations \<Rightarrow> c = revision_of hx body
           | Summary \<Rightarrow> (case jb_parent (?f ?row) of
                  None \<Rightarrow> no_watched body \<and> queued st' (revision_of hx body) (jb_id (?f ?row))
                | Some parent \<Rightarrow> included_by hx (st_jobs st') parent body)
           | _ \<Rightarrow> True"
        by (simp add: recommended_summary_def)
    qed
    with jobs show ?thesis by (intro adds_if_new [OF jobs]) simp_all
  qed
qed

lemma complete_job_adds:
  assumes "queue_sound hx st" "complete_job hx job lease result stamp st = Inr (c, st')"
  shows "adds_sound hx st st'"
proof -
  have "adds_sound hx st st'" if "complete_summary hx job lease result stamp st = Inr (c, st')"
    using that
  proof (cases rule: complete_summary_Inr)
    case (duplicate r)
    then show ?thesis by (simp add: adds_nothing)
  next
    case (stored r)
    then show ?thesis
      by (intro adds_updated [where f = "\<lambda>q. if jb_id q = job then finish_job (summary_status r) hx result stamp q else q"]) simp_all
  qed
  moreover have "adds_sound hx st st'" if "complete_profile_filter hx job lease result stamp st = Inr st'"
    using that by (auto simp: complete_profile_filter_def Let_def split: option.splits
        intro!: adds_updated [where f = "\<lambda>q. if jb_id q = job then finish_job Completed hx result stamp q else q"])
  ultimately show ?thesis
    using assms filter_adds note_filter_adds
    by (auto simp: complete_job_def split: option.splits job_type.splits)
qed

lemma run_candidates_in:
  "(c, body) \<in> set (run_candidates run st) \<Longrightarrow> \<exists>n\<in>set (st_notes st). nr_revision n = c \<and> nr_body n = body"
  by (auto simp: run_candidates_def map_filter_in dest!: found_in)

lemma queue_filter_adds:
  assumes "queue_sound hx st" "queue_recommendation_filter hx run stamp st = Inr (job, st')"
  shows "adds_sound hx st st'"
proof (cases "find_job (''xhs-filter-'' @ take 32 (dg_text hx run)) st = None")
  case True
  let ?row = "(new_job (''xhs-filter-'' @ take 32 (dg_text hx run)) Pending ClassifyRecommendations
      (empty_payload\<lparr>pl_notes := run_candidates run st, pl_candidates := map fst (run_candidates run st)\<rparr>) stamp)\<lparr>jb_run := Some run\<rparr>"
  have "st_jobs st' = map id (st_jobs st @ [?row])"
    using assms(2) True insert_job_Inr(2) by (auto simp: queue_recommendation_filter_def Let_def split: if_splits)
  moreover have "job_sound hx st' (id ?row)"
    using run_candidates_in assms(1) by (fastforce simp: job_sound_def queue_sound_def note_table_ok_def)
  ultimately show ?thesis by (intro adds_one [of st' id st ?row]) simp_all
next
  case False
  then have "st' = st"
    using assms(2) by (auto simp: queue_recommendation_filter_def Let_def split: if_splits)
  then show ?thesis by (simp add: adds_nothing)
qed

lemma plain_insert_adds:
  "insert_job row st = Inr st' \<Longrightarrow> jb_type row \<notin> {ClassifyNotes, ClassifyRecommendations, Summary} \<Longrightarrow> adds_sound hx st st'"
  by (rule adds_one [of st' id st row]) (simp_all add: insert_job_Inr job_sound_plain)

lemma merged_type [simp]: "jb_type (single_update body deliver live stamp r) = jb_type r"
  "jb_id (single_update body deliver live stamp r) = jb_id r"
  by (simp_all add: single_update_def reset_job_def Let_def)

lemma single_adds: "adds_sound hx st (enqueue_single_note hx body deliver live stamp st)"
proof -
  let ?job = "single_job_id hx body"
  let ?f = "\<lambda>q. if jb_id q = ?job then single_update body deliver live stamp q else q"
  let ?row = "new_job ?job Pending SingleNote (single_payload body deliver live) stamp"
  have "st_jobs (enqueue_single_note hx body deliver live stamp st) = map ?f (st_jobs (insert_job_if_new ?row st))"
    by (simp add: enqueue_single_note_def Let_def insert_job_if_new_def find_job_def)
  then show ?thesis by (rule adds_if_new) (simp_all add: job_sound_plain)
qed

lemma store_op_adds:
  assumes "store_op hx st st'" "queue_sound hx st"
  shows "adds_sound hx st st'"
  using assms(1)
proof cases
  case (single_queued body deliver live stamp)
  then show ?thesis using single_adds by simp
next
  case (pending_queued n stamp job)
  then show ?thesis using pending_adds assms(2) by (simp add: queue_sound_def)
next
  case (stored name lease result stamp c)
  then show ?thesis using complete_job_adds assms(2) by blast
next
  case (filter_queued run stamp name)
  then show ?thesis using queue_filter_adds assms(2) by blast
next
  case (following_queued users stamp name)
  then show ?thesis
    by (auto simp: queue_following_filter_def Let_def intro: adds_nothing plain_insert_adds split: if_splits)
next
  case (message_queued content request stamp known)
  then show ?thesis
    by (auto simp: enqueue_manual_message_def Let_def intro!: adds_if_new [where f = id] job_sound_plain split: if_splits)
next
  case (command_answered message content stamp)
  then show ?thesis
    by (auto simp: command_result_def empty_payload_def intro!: adds_if_new [where f = id] job_sound_empty)
next
  case (retried name stamp)
  then show ?thesis
    by (auto simp: retry_job_def intro!: adds_nothing split: option.splits)
next
  case (filter_retried run stamp)
  then show ?thesis
    by (auto simp: retry_recommendation_filter_def reset_job_def adds_nothing split: list.splits
        intro: adds_updated [of _ "\<lambda>r. if jb_id r = job then reset_job stamp r else r" for job, unfolded reset_job_def])
next
  case (beaten name lease stamp)
  then show ?thesis
    by (auto simp: heartbeat_def intro!: adds_nothing split: option.splits if_splits)
next
  case (failed name lease error stamp)
  then show ?thesis
    by (auto simp: fail_job_def failed_row_def Let_def intro!: adds_nothing split: option.splits if_splits)
next
  case (delivered name stamp)
  then show ?thesis
    by (auto simp: delivered_job_def Let_def intro!: adds_nothing split: option.splits)
next
  case (not_delivered name error stamp)
  then show ?thesis
    by (auto simp: delivery_error_def intro!: adds_nothing)
qed (simp_all add: adds_nothing)

lemma reachable_sound:
  "queue_reachable hx s \<Longrightarrow> hex_digests hx \<Longrightarrow> queue_sound hx (qs_store s)"
proof (induction rule: queue_reachable.induct)
  case start
  then show ?case
    by (simp add: queue_sound_def empty_system_def empty_store_def table_ok_def note_table_ok_def)
next
  case (step s s')
  then have sound: "queue_sound hx (qs_store s)" by blast
  have rows: "rows_step (st_jobs (qs_store s)) (st_jobs (qs_store s'))"
    using queue_step_rows step.hyps(2) step.prems sound by (simp add: queue_sound_def)
  have noted: "note_table_ok hx (st_notes (qs_store s))" using sound by (simp add: queue_sound_def)
  from step.hyps(2) show ?case
  proof cases
    case (transaction st')
    then show ?thesis
      using queue_sound_step [OF sound rows] store_op_notes noted store_op_adds sound by simp
  next
    case (nothing_claimed worker lane lease stamp st')
    then show ?thesis
      using queue_sound_step [OF sound rows] notes_safe_same noted claim_job_None
      by (simp add: adds_nothing)
  next
    case (claimed worker lane lease stamp r st')
    have "jb_id ` set (st_jobs st') \<subseteq> jb_id ` set (st_jobs (qs_store s))"
      using claim_job_Some(1,4) [OF claimed(2)] by (auto simp: lease_job_def intro: rev_image_eqI)
    then show ?thesis
      using queue_sound_step [OF sound rows] notes_safe_same noted claim_job_Some(3) [OF claimed(2)] claimed(1)
      by (simp add: adds_nothing)
  qed
qed

text \<open>
  C21. Every note a summary is made of was either written by a watched user or let through by a screening:
  the job that screened it is completed, and its stored result includes the note.
\<close>

theorem summaries_screened:
  assumes "hex_digests hx" "queue_reachable hx s" "find_job job (qs_store s) = Some r" "jb_type r = Summary"
    "(c, body) \<in> set (pl_notes (jb_payload r))"
  shows "no_watched body \<or>
    (\<exists>parent q result items d. jb_parent r = Some parent \<and> find_job parent (qs_store s) = Some q \<and> jb_status q = Completed
       \<and> jb_result q = Some result \<and> wr_decisions result = Some items \<and> d \<in> set (decided items)
       \<and> de_decision d = ''include'' \<and> (de_candidate d = revision_of hx body \<or> filter_key d = revision_of hx body))"
proof -
  have sound: "queue_sound hx (qs_store s)" by (rule reachable_sound [OF assms(2,1)])
  have "job_sound hx (qs_store s) r"
    using sound find_job_Some [OF assms(3)] by (simp add: queue_sound_def)
  with assms(4,5) have "no_watched body \<or> (\<exists>parent. jb_parent r = Some parent \<and> included_by hx (st_jobs (qs_store s)) parent body)"
    unfolding job_sound_def by (fastforce split: option.splits)
  moreover have "find_job (jb_id q) (qs_store s) = Some q" if "q \<in> set (st_jobs (qs_store s))" for q
    using find_job_in that sound by (simp add: queue_sound_def)
  ultimately show ?thesis
    unfolding included_by_def included_def by (auto simp del: split_paired_Ex)
qed

text \<open>The jobs \<open>enqueue_pending\<close> makes: screenings, and summaries that no screening made.\<close>

definition pending_lane :: "job_row \<Rightarrow> bool" where
  "pending_lane r \<longleftrightarrow> jb_type r = ClassifyNotes \<or> jb_type r = Summary \<and> jb_parent r = None"


section \<open>A run of the queue\<close>

definition hex_only :: "string \<Rightarrow> string" where
  "hex_only = filter (\<lambda>c. c \<in> set ''0123456789abcdef'')"

definition plain_digests :: digests where
  "plain_digests = \<lparr>dg_list = (\<lambda>xs. hex_only (concat xs)), dg_text = hex_only, dg_result = (\<lambda>r. wr_model r)\<rparr>"

lemma plain_digests_hex: "hex_digests plain_digests"
  by (auto simp: hex_digests_def plain_digests_def hex_only_def)

definition note_0 :: xhs_note where "note_0 = \<lparr>no_id = ''a1'', no_hash = ''b2'', no_watched = False\<rparr>"
definition job_0 :: string where "job_0 = ''xhs-screen-a1b2''"
definition summary_0 :: string where "summary_0 = ''xhs-screened-ceea1b2''"

definition decision_0 :: screening_decision where
  "decision_0 = \<lparr>de_candidate = ''a1b2'', de_note = [], de_decision = ''include'', de_score = Some 1, de_confidence = Some 1\<rparr>"

definition result_0 :: work_result where
  "result_0 = \<lparr>wr_summary = None, wr_model = ''m'', wr_decisions = Some [Decided decision_0], wr_profiles = None\<rparr>"

definition store_1 :: store where "store_1 = snd (add_note plain_digests note_0 1 empty_store)"
definition store_2 :: store where "store_2 = snd (projr (enqueue_pending plain_digests 12 2 store_1))"
definition store_3 :: store where "store_3 = snd (projr (claim_job ''first'' None ''t1'' 100 store_2))"
definition store_4 :: store where "store_4 = snd (projr (claim_job ''second'' None ''t2'' 400 store_3))"
definition store_5 :: store where "store_5 = snd (projr (complete_job plain_digests job_0 ''t2'' result_0 450 store_4))"

definition system_4 :: queue_system where "system_4 = \<lparr>qs_store = store_4, qs_grants = [(job_0, ''t2''), (job_0, ''t1'')]\<rparr>"
definition system_5 :: queue_system where "system_5 = \<lparr>qs_store = store_5, qs_grants = [(job_0, ''t2''), (job_0, ''t1'')]\<rparr>"

lemma run_0:
  "enqueue_pending plain_digests 12 2 store_1 = Inr (Some job_0, store_2)"
  "claim_job ''first'' None ''t1'' 100 store_2 = Inr (Some (hd (st_jobs store_2)), store_3)"
  "claim_job ''second'' None ''t2'' 400 store_3 = Inr (Some (hd (st_jobs store_3)), store_4)"
  "complete_job plain_digests job_0 ''t2'' result_0 450 store_4 = Inr (Stored, store_5)"
  "jb_id (hd (st_jobs store_2)) = job_0" "jb_id (hd (st_jobs store_3)) = job_0"
  by code_simp+

lemma system_3_reachable: "queue_reachable plain_digests \<lparr>qs_store = store_3, qs_grants = [(job_0, ''t1'')]\<rparr>"
proof -
  have "queue_reachable plain_digests (empty_system\<lparr>qs_store := store_1\<rparr>)"
    unfolding store_1_def
    by (rule queue_reachable.step [OF queue_reachable.start queue_step.transaction])
      (simp add: empty_system_def store_op.note_added)
  then have "queue_reachable plain_digests (empty_system\<lparr>qs_store := store_1\<rparr>\<lparr>qs_store := store_2\<rparr>)"
    by (rule queue_reachable.step) (rule queue_step.transaction, simp, rule store_op.pending_queued [OF run_0(1)])
  then show ?thesis
    by (rule queue_reachable.step)
      (use queue_step.claimed [of "''first''" None "''t1''" 100 "\<lparr>qs_store = store_2, qs_grants = []\<rparr>" "hd (st_jobs store_2)" store_3 plain_digests] run_0
        in \<open>simp add: empty_system_def\<close>)
qed

lemma system_4_reachable: "queue_reachable plain_digests system_4"
  unfolding system_4_def
  by (rule queue_reachable.step [OF system_3_reachable])
    (use queue_step.claimed [of "''second''" None "''t2''" 400 "\<lparr>qs_store = store_3, qs_grants = [(job_0, ''t1'')]\<rparr>"
      "hd (st_jobs store_3)" store_4 plain_digests] run_0 in simp)

lemma system_5_reachable: "queue_reachable plain_digests system_5"
proof -
  have "queue_step plain_digests system_4 (system_4\<lparr>qs_store := store_5\<rparr>)"
    by (rule queue_step.transaction) (simp add: system_4_def store_op.stored [OF run_0(4)])
  then show ?thesis
    using queue_reachable.step [OF system_4_reachable] by (simp add: system_4_def system_5_def)
qed

lemma lease_fenced_witness:
  "heartbeat job_0 ''t1'' 401 store_4 = Inl LeaseLost
    \<and> fail_job job_0 ''t1'' ''late'' 401 store_4 = Inl LeaseLost
    \<and> (\<exists>e. complete_job plain_digests job_0 ''t1'' result_0 401 store_4 = Inl e)"
  using lease_fenced [OF plain_digests_hex system_4_reachable, of job_0 "''t1''" 401 "''late''" result_0]
  by (simp add: system_4_def)

lemma found_0:
  "find_job job_0 store_5 = Some (hd (st_jobs store_5))" "jb_result (hd (st_jobs store_5)) = Some result_0"
  "jb_type (hd (st_jobs store_5)) = ClassifyNotes" "pl_notes (jb_payload (hd (st_jobs store_5))) = [(''a1b2'', note_0)]"
  "find_job summary_0 store_5 = Some (last (st_jobs store_5))" "jb_type (last (st_jobs store_5)) = Summary"
  "pl_notes (jb_payload (last (st_jobs store_5))) = [(''a1b2'', note_0)]" "no_watched note_0 = False"
  by code_simp+

lemma results_final_witness:
  "\<exists>r'. find_job job_0 (snd (add_note plain_digests note_0 500 store_5)) = Some r' \<and> jb_result r' = Some result_0
     \<and> done_status (jb_status r')"
proof -
  have "queue_step plain_digests system_5 (system_5\<lparr>qs_store := snd (add_note plain_digests note_0 500 store_5)\<rparr>)"
    by (rule queue_step.transaction) (simp add: system_5_def store_op.note_added)
  then have later: "(queue_step plain_digests)\<^sup>*\<^sup>* system_5 (system_5\<lparr>qs_store := snd (add_note plain_digests note_0 500 store_5)\<rparr>)"
    by (rule r_into_rtranclp)
  show ?thesis
    using results_final [OF plain_digests_hex system_5_reachable later, of job_0 _ result_0] found_0(1,2)
    by (simp add: system_5_def) blast
qed

lemma summaries_screened_witness:
  "\<exists>parent q result items d. find_job parent store_5 = Some q \<and> jb_status q = Completed
     \<and> jb_result q = Some result \<and> wr_decisions result = Some items \<and> d \<in> set (decided items)
     \<and> de_decision d = ''include''"
  using summaries_screened [OF plain_digests_hex system_5_reachable, of summary_0 _ "''a1b2''" note_0] found_0(5-8)
  by (simp add: system_5_def) blast


section \<open>What the queue does with its notes and its workers\<close>

text \<open>A screening decides every candidate, once.\<close>

lemma decided_length: "length (decided items) \<le> length items"
  by (induction items) (auto simp: decided_def List.map_filter_simps split: screening_item.splits)

lemma covers_once:
  assumes "covers key allowed items"
  shows "distinct (map key (decided items))" "length (decided items) = length items"
proof -
  have "card (set allowed) \<le> length (decided items)"
    using assms card_length [of "map key (decided items)"] by (simp add: covers_def)
  with assms decided_length [of items] show len: "length (decided items) = length items"
    by (simp add: covers_def)
  then have "card (set (map key (decided items))) = length (map key (decided items))"
    using assms by (simp add: covers_def)
  then show "distinct (map key (decided items))" by (rule card_distinct)
qed

lemma map_of_put: "map_of (put k v rows) x = (if x = k then Some v else map_of rows x)"
proof -
  have "map_of (filter (\<lambda>y. fst y \<noteq> k) rows) x = (if x = k then None else map_of rows x)"
    by (induction rows) auto
  then show ?thesis by (simp add: put_def map_add_def split: option.split)
qed

lemma map_of_put_all:
  "distinct (map key xs) \<Longrightarrow> x \<in> set xs \<Longrightarrow> map_of (put_all key val xs rows) (key x) = Some (val x)"
proof (induction xs arbitrary: rows)
  case (Cons y ys)
  have other: "map_of (put_all key val ys rows') k = map_of rows' k" if "k \<notin> key ` set ys" for rows' k
    using that by (induction ys arbitrary: rows') (auto simp: put_all_def map_of_put)
  have step: "put_all key val (y # ys) rows = put_all key val ys (put (key y) (val y) rows)"
    by (simp add: put_all_def)
  show ?case
  proof (cases "x = y")
    case True
    then have "key x \<notin> key ` set ys" using Cons.prems(1) by simp
    then show ?thesis using True unfolding step by (simp add: other map_of_put)
  next
    case False
    then show ?thesis unfolding step using Cons by simp
  qed
qed simp

lemma checked_in_range:
  "checked_decisions key allowed items = Inr ds \<Longrightarrow> d \<in> set ds \<Longrightarrow>
   de_decision d \<in> {''include'', ''review'', ''exclude''} \<and> (\<exists>s c. de_score d = Some s \<and> de_confidence d = Some c
     \<and> 0 \<le> s \<and> s \<le> 1 \<and> 0 \<le> c \<and> c \<le> 1)"
proof -
  assume checked: "checked_decisions key allowed items = Inr ds" and d: "d \<in> set ds"
  then have "mapR check_decision ds = Inr ds"
    using checked_decisions_Inr(1) [OF checked] by (simp add: checked_decisions_def split: if_splits)
  with d obtain i where "i < length ds" "ds ! i = d" "check_decision d = Inr d"
    using mapR_nth by (metis in_set_conv_nth)
  then show ?thesis by (auto simp: check_decision_def split: if_splits option.splits)
qed

text \<open>
  A screening of notes that is taken decided each candidate exactly once and nothing else, with a known
  verdict and numbers in range, its verdicts are stored, and the notes selected from it are ones it included.
\<close>

theorem screening_exact:
  assumes "complete_note_filter hx job lease result stamp st = Inr st'"
  shows "\<exists>r ds. find_job job st = Some r \<and> distinct (map de_candidate ds)
    \<and> set (map de_candidate ds) = set (pl_candidates (jb_payload r))
    \<and> (\<forall>d\<in>set ds. de_decision d \<in> {''include'', ''review'', ''exclude''} \<and> map_of (st_topics st') (de_candidate d) = Some (de_decision d))
    \<and> set (screened_notes (jb_payload r) ds) \<subseteq> set (pl_notes (jb_payload r))
    \<and> (\<forall>c body. (c, body) \<in> set (screened_notes (jb_payload r) ds) \<longrightarrow> map_of (st_topics st') c = Some ''include'')"
  using assms
proof (cases rule: complete_note_filter_Inr)
  case (1 items r ds)
  note ds = checked_decisions_Inr [OF 1(5)]
  have distinct: "distinct (map de_candidate ds)" using covers_once(1) ds by simp
  have topics: "st_topics st' = put_all de_candidate de_decision ds (st_topics st)"
    by (simp add: 1(6) after_note_filter_def Let_def update_job_def insert_job_if_new_def)
  then have stored: "map_of (st_topics st') (de_candidate d) = Some (de_decision d)" if "d \<in> set ds" for d
    using map_of_put_all [OF distinct that] by simp
  have notes_in: "\<exists>d\<in>set ds. de_decision d = ''include'' \<and> de_candidate d = c \<and> (c, body) \<in> set (pl_notes (jb_payload r))"
    if "(c, body) \<in> set (screened_notes (jb_payload r) ds)" for c body
    using screened_notes_in [OF that] by (auto simp: included_def)
  show ?thesis
  proof (intro exI conjI)
    show "find_job job st = Some r" by (rule 1(2))
    show "distinct (map de_candidate ds)" by (rule distinct)
    show "set (map de_candidate ds) = set (pl_candidates (jb_payload r))" using ds by (simp add: covers_def)
    show "\<forall>d\<in>set ds. de_decision d \<in> {''include'', ''review'', ''exclude''} \<and> map_of (st_topics st') (de_candidate d) = Some (de_decision d)"
      using checked_in_range [OF 1(5)] stored by blast
    show "set (screened_notes (jb_payload r) ds) \<subseteq> set (pl_notes (jb_payload r))" using notes_in by auto
    show "\<forall>c body. (c, body) \<in> set (screened_notes (jb_payload r) ds) \<longrightarrow> map_of (st_topics st') c = Some ''include''"
      using notes_in stored by metis
  qed
qed

text \<open>Filling the queue ends: every call takes a note from the unassigned ones.\<close>

lemma filter_map_less:
  "(\<And>x. P (g x) \<Longrightarrow> P x) \<Longrightarrow> x \<in> set xs \<Longrightarrow> P x \<Longrightarrow> \<not> P (g x) \<Longrightarrow> length (filter P (map g xs)) < length (filter P xs)"
proof (induction xs)
  case (Cons y ys)
  have le: "length (filter P (map g ys)) \<le> length (filter P ys)" for ys
    using Cons.prems(1) by (induction ys) (auto intro: le_SucI)
  show ?case
  proof (cases "x = y")
    case True
    then show ?thesis using Cons.prems(3,4) le [of ys] by auto
  next
    case False
    then have "length (filter P (map g ys)) < length (filter P ys)" using Cons by simp
    then show ?thesis using Cons.prems(1) [of y] by auto
  qed
qed simp

definition free_notes :: "store \<Rightarrow> note_row list" where
  "free_notes st = filter (\<lambda>r. nr_job r = None) (st_notes st)"

lemma enqueue_pending_less:
  assumes "enqueue_pending hx n stamp st = Inr (Some job, st')"
  shows "length (free_notes st') < length (free_notes st)"
proof -
  have some: "unassigned n st \<noteq> []" using assms by (auto simp: enqueue_pending_def)
  let ?batch = "fst (pending_batch hx (unassigned n st) stamp)" and ?row = "snd (pending_batch hx (unassigned n st) stamp)"
  from assms some obtain st1 where st1: "insert_job ?row st = Inr st1" "st' = assign (jb_id ?row) ?batch st1"
    by (rule enqueue_pending_Inr)
  have "?batch \<noteq> []" using some by (simp add: pending_batch_def Let_def)
  then obtain b where b: "b \<in> set ?batch" by (meson list.set_sel(1))
  then have "b \<in> set (st_notes st)" "nr_job b = None" using pending_batch_subset unassigned_rows by blast+
  then have "length (filter (\<lambda>r. nr_job r = None)
        (map (\<lambda>r. if nr_revision r \<in> nr_revision ` set ?batch then r\<lparr>nr_job := Some (jb_id ?row)\<rparr> else r) (st_notes st)))
      < length (filter (\<lambda>r. nr_job r = None) (st_notes st))"
    using b by (intro filter_map_less [of _ _ b]) (auto split: if_splits)
  moreover have "st_notes st' = map (\<lambda>r. if nr_revision r \<in> nr_revision ` set ?batch
      then r\<lparr>nr_job := Some (jb_id ?row)\<rparr> else r) (st_notes st)"
    by (simp add: st1(2) assign_def update_notes_def insert_job_Inr(1) [OF st1(1)])
  ultimately show ?thesis unfolding free_notes_def by (simp only:)
qed

text \<open>
  Filling the queue from the collected notes returns whatever the store holds, and when it returns
  without an error every note is assigned.
\<close>

theorem enqueue_all_returns:
  "\<exists>r. enqueue_all hx clock n st = Some r \<and> (case r of Inl e \<Rightarrow> e = IntegrityError | Inr st' \<Rightarrow> free_notes st' = [])"
proof (induction "length (free_notes st)" arbitrary: n st rule: less_induct)
  case less
  show ?case
  proof (cases "enqueue_pending hx 12 (clock n) st")
    case (Inl e)
    then have "e = IntegrityError"
      by (auto simp: enqueue_pending_def insert_job_def Let_def bindR_def split: if_splits prod.splits)
    then show ?thesis using Inl by (subst enqueue_all.simps) simp
  next
    case (Inr x)
    obtain job st' where x: "x = (job, st')" by (cases x)
    show ?thesis
    proof (cases job)
      case None
      then have "unassigned 12 st = []" "st' = st"
        using Inr x by (auto simp: enqueue_pending_def Let_def bindR_def split: if_splits prod.splits sum.splits)
      then have "sort_key nr_first_seen (free_notes st) = []" by (simp add: unassigned_def free_notes_def)
      then have "free_notes st = []" by (metis set_empty set_sort)
      with \<open>st' = st\<close> None Inr x show ?thesis by (subst enqueue_all.simps) simp
    next
      case (Some j)
      then have "length (free_notes st') < length (free_notes st)"
        using enqueue_pending_less Inr x by blast
      from less.hyps [OF this] Some Inr x show ?thesis by (subst enqueue_all.simps) simp
    qed
  qed
qed

lemma screening_0:
  "complete_note_filter plain_digests job_0 ''t2'' result_0 450 store_4 = Inr store_5"
  "find_job job_0 store_4 = Some (hd (st_jobs store_4))" "pl_candidates (jb_payload (hd (st_jobs store_4))) = [''a1b2'']"
  "map_of (st_topics store_5) ''a1b2'' = Some ''include''"
  by code_simp+

lemma screening_exact_witness:
  "\<exists>ds :: screening_decision list. distinct (map de_candidate ds) \<and> set (map de_candidate ds) = {''a1b2''}
     \<and> map_of (st_topics store_5) ''a1b2'' = Some ''include''"
proof -
  obtain r and ds :: "screening_decision list" where "find_job job_0 store_4 = Some r" "distinct (map de_candidate ds)"
      "set (map de_candidate ds) = set (pl_candidates (jb_payload r))"
    using screening_exact [OF screening_0(1)] by blast
  then show ?thesis using screening_0(2-4) by (intro exI [of _ ds]) simp
qed

lemma lone_claim:
  assumes "st_jobs st = [r]" "jb_status r = Processing" "jb_lease_until r = Some t"
  shows "\<exists>st'. claim_job worker None lease (t + 1) st = Inr (Some r, st') \<and> st_jobs st' = [lease_job worker lease (t + 1) r]"
proof -
  have "next_job (t + 1) [] st = Some r"
    using assms by (simp add: next_job_def claimable_def in_lane_def)
  then show ?thesis
    using assms(1) by (simp add: claim_job_def str_or_def py_strip_def py_lower_def Let_def update_job_def)
qed

text \<open>
  Attempts end a job only when its worker reports a failure. A job whose worker is lost each time is
  handed out again whenever its lease has run out, however many attempts it has had.
\<close>

theorem lost_workers_never_end_a_job:
  "\<exists>s r. queue_reachable plain_digests s \<and> st_jobs (qs_store s) = [r] \<and> jb_status r = Processing \<and> jb_attempts r = Suc n"
proof -
  have "\<exists>s r t. queue_reachable plain_digests s \<and> st_jobs (qs_store s) = [r] \<and> jb_status r = Processing
      \<and> jb_lease_until r = Some t \<and> jb_attempts r = Suc n"
  proof (induction n)
    case 0
    have "st_jobs store_3 = [hd (st_jobs store_3)]" "jb_status (hd (st_jobs store_3)) = Processing"
      "jb_lease_until (hd (st_jobs store_3)) = Some 280" "jb_attempts (hd (st_jobs store_3)) = Suc 0"
      by code_simp+
    then show ?case
      using system_3_reachable
      by (intro exI [of _ "\<lparr>qs_store = store_3, qs_grants = [(job_0, ''t1'')]\<rparr>"] exI [of _ "hd (st_jobs store_3)"]
          exI [of _ 280] conjI) (simp_all only: queue_system.select_convs)
  next
    case (Suc n)
    then obtain s r t where s: "queue_reachable plain_digests s" "st_jobs (qs_store s) = [r]" "jb_status r = Processing"
        "jb_lease_until r = Some t" "jb_attempts r = Suc n" by blast
    obtain lease :: string where "lease \<notin> snd ` set (qs_grants s)"
      using ex_new_if_finite [OF infinite_UNIV_listI, of "snd ` set (qs_grants s)"] by auto
    moreover obtain st' where st': "claim_job ''w'' None lease (t + 1) (qs_store s) = Inr (Some r, st')"
        "st_jobs st' = [lease_job ''w'' lease (t + 1) r]"
      using lone_claim [OF s(2-4)] by blast
    ultimately have "queue_reachable plain_digests \<lparr>qs_store = st', qs_grants = (jb_id r, lease) # qs_grants s\<rparr>"
      using queue_reachable.step [OF s(1)] queue_step.claimed by blast
    then show ?case
      using st'(2) s(5) by (intro exI [of _ "\<lparr>qs_store = st', qs_grants = (jb_id r, lease) # qs_grants s\<rparr>"]
          exI [of _ "lease_job ''w'' lease (t + 1) r"] exI [of _ "fadd (t + 1) 180"]) (simp add: lease_job_def)
  qed
  then show ?thesis by blast
qed

end
