(* ===== verification/XhsDelivery.thy ===== *)
theory XhsDelivery
  imports XhsInvariants
begin

text \<open>
  The deliveries of \<open>xhs-intel/edge_api.py\<close>: the pieces a summary is cut into, what a round posts and
  records, and what a delivery that always fails does to the others.
\<close>

section \<open>The pieces\<close>

lemma pieces_concat: "0 < n \<Longrightarrow> concat (pieces n body) = body"
  by (induction n body rule: pieces.induct) (subst pieces.simps, simp)

lemma pieces_length: "c \<in> set (pieces n body) \<Longrightarrow> 0 < length c \<and> length c \<le> n"
proof (induction n body rule: pieces.induct)
  case (1 n body)
  show ?case
  proof (cases "n = 0 \<or> body = []")
    case True
    with 1(2) show ?thesis by (subst (asm) pieces.simps) simp
  next
    case False
    then have "c = take n body \<or> c \<in> set (pieces n (drop n body))"
      using 1(2) by (subst (asm) pieces.simps) simp
    with False 1(1) show ?thesis by auto
  qed
qed

definition holds_line :: "code_text list \<Rightarrow> code_text \<Rightarrow> bool" where
  "holds_line chunks url \<longleftrightarrow> (\<exists>c\<in>set chunks. \<exists>before after. c = before @ link_line url @ after)"

lemma link_chunks_current: "current \<noteq> [] \<Longrightarrow> \<exists>c\<in>set (link_chunks current urls). \<exists>after. c = current @ after"
proof (induction current urls rule: link_chunks.induct)
  case (2 current url urls)
  show ?case
  proof (cases "FEISHU_MAX_CHARS < length (current @ [10] @ link_line url)")
    case True
    then show ?thesis using 2(3) by (auto simp: Let_def)
  next
    case False
    then have "\<exists>c\<in>set (link_chunks (current @ [10] @ link_line url) urls). \<exists>after. c = (current @ [10] @ link_line url) @ after"
      using 2(2) by (simp add: Let_def)
    then show ?thesis using False by (auto simp: Let_def)
  qed
qed simp

lemma link_line_nonempty [simp]: "link_line url \<noteq> []"
  by (simp add: link_line_def LINK_TITLE_def)

lemma link_chunks_lines:
  "current \<noteq> [] \<Longrightarrow> url \<in> set urls \<Longrightarrow> holds_line (link_chunks current urls) url"
proof (induction current urls rule: link_chunks.induct)
  case (2 current first urls)
  let ?whole = "current @ [10] @ link_line first"
  show ?case
  proof (cases "FEISHU_MAX_CHARS < length ?whole")
    case True
    then have chunks: "link_chunks current (first # urls) = current # link_chunks (link_line first) urls"
      using 2(3) by (simp add: Let_def)
    show ?thesis
    proof (cases "url = first")
      case True
      with link_chunks_current [of "link_line first" urls] show ?thesis
        unfolding chunks holds_line_def by (metis append_Nil link_line_nonempty list.set_intros(2))
    next
      case False
      then have "holds_line (link_chunks (link_line first) urls) url"
        using 2(1) 2(3,4) True by (simp add: Let_def)
      then show ?thesis unfolding chunks holds_line_def by auto
    qed
  next
    case False
    then have chunks: "link_chunks current (first # urls) = link_chunks ?whole urls" by (simp add: Let_def)
    show ?thesis
    proof (cases "url = first")
      case True
      with link_chunks_current [of ?whole urls] show ?thesis
        unfolding chunks holds_line_def by (metis append.assoc append_is_Nil_conv link_line_nonempty)
    next
      case url: False
      then show ?thesis unfolding chunks using 2(2) 2(4) False by (simp add: Let_def)
    qed
  qed
qed simp

lemma link_chunks_length:
  "\<lbrakk>current \<noteq> []; length current \<le> FEISHU_MAX_CHARS; \<And>url. url \<in> set urls \<Longrightarrow> length (link_line url) \<le> FEISHU_MAX_CHARS;
    c \<in> set (link_chunks current urls)\<rbrakk> \<Longrightarrow> length c \<le> FEISHU_MAX_CHARS"
proof (induction current urls rule: link_chunks.induct)
  case (1 current)
  then show ?case by (simp split: if_splits)
next
  case (2 current url urls)
  show ?case
  proof (cases "FEISHU_MAX_CHARS < length (current @ [10] @ link_line url) \<and> current \<noteq> []")
    case True
    then have "c = current \<or> c \<in> set (link_chunks (link_line url) urls)"
      using 2(6) by (simp add: Let_def)
    then show ?thesis using 2(1) 2(4,5) True by (auto simp: Let_def)
  next
    case False
    then have "link_chunks current (url # urls) = link_chunks (current @ [10] @ link_line url) urls"
      by (auto simp: Let_def)
    then show ?thesis using 2(2) 2(3-6) False by (auto simp: Let_def)
  qed
qed

text \<open>
  The pieces of a summary, before the marker that is appended to each of them, are its text, cut at 3000
  characters, followed by the links; every link is whole inside one piece, and no piece is longer than 3000
  characters unless a single link is.
\<close>

theorem delivery_chunks_whole:
  "(\<exists>n. concat (take n (delivery_chunks body urls)) = body)
   \<and> (\<forall>url\<in>set urls. holds_line (delivery_chunks body urls) url)
   \<and> ((\<forall>url\<in>set urls. length (link_line url) \<le> FEISHU_MAX_CHARS)
        \<longrightarrow> (\<forall>c\<in>set (delivery_chunks body urls). length c \<le> FEISHU_MAX_CHARS))"
proof (intro conjI)
  let ?cut = "if body = [] then [body] else pieces FEISHU_MAX_CHARS body"
  have cut: "concat ?cut = body" by (simp add: pieces_concat FEISHU_MAX_CHARS_def)
  then show "\<exists>n. concat (take n (delivery_chunks body urls)) = body"
    by (intro exI [of _ "length ?cut"]) (simp add: delivery_chunks_def)
  have title: "LINK_TITLE \<noteq> []" "length LINK_TITLE \<le> FEISHU_MAX_CHARS"
    by (simp_all add: LINK_TITLE_def FEISHU_MAX_CHARS_def)
  show "\<forall>url\<in>set urls. holds_line (delivery_chunks body urls) url"
  proof
    fix url assume "url \<in> set urls"
    then have "holds_line (link_chunks LINK_TITLE urls) url" "urls \<noteq> []"
      using link_chunks_lines title by auto
    then show "holds_line (delivery_chunks body urls) url"
      by (auto simp: delivery_chunks_def holds_line_def)
  qed
  show "(\<forall>url\<in>set urls. length (link_line url) \<le> FEISHU_MAX_CHARS)
      \<longrightarrow> (\<forall>c\<in>set (delivery_chunks body urls). length c \<le> FEISHU_MAX_CHARS)"
    using link_chunks_length [OF title] pieces_length [of _ FEISHU_MAX_CHARS body]
    by (auto simp: delivery_chunks_def split: if_splits)
qed

section \<open>The parts of a job\<close>

lemma record_delivery_parts [simp]:
  "set (st_parts (record_delivery job part st)) = insert (job, part) (set (st_parts st))"
  by (auto simp: record_delivery_def)

text \<open>What a run over the parts from one on posts, and what it leaves recorded.\<close>

definition parts_delivered ::
    "string \<Rightarrow> nat \<Rightarrow> code_text list \<Rightarrow> store \<Rightarrow> (nat \<times> code_text) list \<Rightarrow> string option \<Rightarrow> store \<Rightarrow> bool" where
  "parts_delivered job part chunks st posts err st' \<longleftrightarrow>
     sorted_wrt (<) (map fst posts)
     \<and> (\<forall>x\<in>set posts. (job, fst x) \<notin> set (st_parts st) \<and> part \<le> fst x \<and> fst x < part + length chunks
          \<and> snd x = chunks ! (fst x - part))
     \<and> set (st_parts st) \<subseteq> set (st_parts st')
     \<and> (err = None \<longrightarrow> (\<forall>p. part \<le> p \<longrightarrow> p < part + length chunks \<longrightarrow> (job, p) \<in> set (st_parts st')))
     \<and> (\<forall>x. err \<noteq> None \<longrightarrow> x \<in> set posts \<longrightarrow> x \<noteq> last posts \<longrightarrow> (job, fst x) \<in> set (st_parts st'))
     \<and> st_jobs st' = st_jobs st"

lemma deliver_parts_spec:
  "deliver_parts job part chunks hook st = (posts, err, st') \<Longrightarrow> parts_delivered job part chunks st posts err st'"
proof (induction job part chunks hook st arbitrary: posts err st' rule: deliver_parts.induct)
  case (1 job part hook st)
  then show ?case by (simp add: parts_delivered_def)
next
  case (2 job part c cs hook st)
  show ?case
  proof (cases "(job, part) \<in> set (st_parts st)")
    case True
    with 2 have rest: "parts_delivered job (Suc part) cs st posts err st'" by simp
    have "snd x = (c # cs) ! (fst x - part)" if "x \<in> set posts" for x
      using rest that by (auto simp: parts_delivered_def nth_Cons' )
    with rest have posts: "\<forall>x\<in>set posts. (job, fst x) \<notin> set (st_parts st) \<and> part \<le> fst x \<and> fst x < part + length (c # cs)
        \<and> snd x = (c # cs) ! (fst x - part)"
      by (auto simp: parts_delivered_def)
    have all: "err = None \<longrightarrow> (\<forall>p. part \<le> p \<longrightarrow> p < part + length (c # cs) \<longrightarrow> (job, p) \<in> set (st_parts st'))"
    proof (intro impI allI)
      fix p assume "err = None" "part \<le> p" "p < part + length (c # cs)"
      with rest True show "(job, p) \<in> set (st_parts st')"
        by (cases "p = part") (auto simp: parts_delivered_def)
    qed
    show ?thesis
      using rest [unfolded parts_delivered_def] posts all
      unfolding parts_delivered_def by (elim conjE) (intro conjI, assumption+)
  next
    case False
    show ?thesis
    proof (cases "hook part")
      case (Raised e)
      with 2(3) False show ?thesis by (auto simp: parts_delivered_def)
    next
      case (Answered code)
      obtain posts' where rest: "parts_delivered job (Suc part) cs (record_delivery job part st) posts' err st'"
          "posts = (part, c) # posts'"
        using 2(2) 2(3) False Answered by (auto split: prod.splits)
      have order: "sorted_wrt (<) (map fst posts)"
        using rest by (auto simp: parts_delivered_def)
      have posts: "\<forall>x\<in>set posts. (job, fst x) \<notin> set (st_parts st) \<and> part \<le> fst x \<and> fst x < part + length (c # cs)
          \<and> snd x = (c # cs) ! (fst x - part)"
        using rest False by (auto simp: parts_delivered_def)
      have kept: "set (st_parts st) \<subseteq> set (st_parts st')" "(job, part) \<in> set (st_parts st')" "st_jobs st' = st_jobs st"
        using rest(1) by (auto simp: parts_delivered_def)
      have all: "err = None \<longrightarrow> (\<forall>p. part \<le> p \<longrightarrow> p < part + length (c # cs) \<longrightarrow> (job, p) \<in> set (st_parts st'))"
      proof (intro impI allI)
        fix p assume "err = None" "part \<le> p" "p < part + length (c # cs)"
        with rest(1) kept(2) show "(job, p) \<in> set (st_parts st')"
          by (cases "p = part") (auto simp: parts_delivered_def)
      qed
      have recorded: "\<forall>x. err \<noteq> None \<longrightarrow> x \<in> set posts \<longrightarrow> x \<noteq> last posts \<longrightarrow> (job, fst x) \<in> set (st_parts st')"
        using rest kept(2) by (auto simp: parts_delivered_def split: if_splits)
      show ?thesis
        unfolding parts_delivered_def using order posts kept(1,3) all recorded by (intro conjI)
    qed
  qed
qed

lemma delivered_job_parts [simp]: "st_parts (delivered_job job stamp st) = st_parts st"
  by (auto simp: delivered_job_def update_job_def update_runs_def Let_def split: option.splits)

text \<open>
  C40. A delivery takes up where the last one stopped: it posts only parts that are not recorded, each once
  and in order with its own text, records every part it posted but the one whose post raised, and marks
  the job as sent only with all parts recorded.
\<close>

theorem delivery_resumes:
  assumes "deliver_one chunks job hook stamp st = (posts, err, st')"
  shows "sorted_wrt (<) (map fst posts)
    \<and> (\<forall>x\<in>set posts. (job, fst x) \<notin> set (st_parts st) \<and> 1 \<le> fst x \<and> fst x \<le> length chunks
         \<and> snd x = chunks ! (fst x - 1))
    \<and> (\<forall>x\<in>set posts. err = None \<or> x \<noteq> last posts \<longrightarrow> (job, fst x) \<in> set (st_parts st'))
    \<and> (if err = None then \<forall>p. 1 \<le> p \<longrightarrow> p \<le> length chunks \<longrightarrow> (job, p) \<in> set (st_parts st')
       else st_jobs st' = st_jobs st)"
proof -
  obtain st1 where parts: "parts_delivered job 1 chunks st posts err st1"
    and st': "st' = (if err = None then delivered_job job stamp st1 else st1)"
    using assms deliver_parts_spec by (fastforce simp: deliver_one_def split: prod.splits)
  then show ?thesis
    by (auto simp: parts_delivered_def less_Suc_eq_le)
qed

lemma answered_parts:
  "(\<And>p. part \<le> p \<Longrightarrow> p < part + length chunks \<Longrightarrow> \<exists>code. hook p = Answered code) \<Longrightarrow>
   \<exists>posts st'. deliver_parts job part chunks hook st = (posts, None, st')"
proof (induction chunks arbitrary: part st)
  case (Cons c cs)
  have rest: "\<exists>posts st'. deliver_parts job (Suc part) cs hook st2 = (posts, None, st')" for st2
    by (rule Cons.IH) (rule Cons.prems, auto)
  obtain code where "hook part = Answered code" using Cons.prems [of part] by auto
  with rest [of st] rest [of "record_delivery job part st"] show ?case by auto
qed simp

lemma find_map:
  "(\<And>q. jb_id (f q) = jb_id q) \<Longrightarrow>
   find (\<lambda>q. jb_id q = job) (map f qs) = map_option f (find (\<lambda>q. jb_id q = job) qs)"
  by (induction qs) auto

lemma delivered_job_sent:
  assumes "find_job job st = Some r" "jb_status r = Ready"
  shows "\<exists>r'. find_job job (delivered_job job stamp st) = Some r' \<and> jb_status r' = Sent"
proof -
  let ?f = "\<lambda>q. if jb_id q = job then q\<lparr>jb_status := Sent, jb_updated := stamp, jb_error := None\<rparr> else q"
  have "st_jobs (delivered_job job stamp st) = map ?f (st_jobs st)"
    using assms by (simp add: delivered_job_def Let_def)
  then have "find_job job (delivered_job job stamp st) = map_option ?f (find_job job st)"
    using find_map [of ?f job "st_jobs st"] by (simp add: find_job_def)
  then show ?thesis using assms(1) find_job_Some by fastforce
qed

text \<open>
  The body of an answer is not looked at: a hook that answers every post with an error code still has
  the job marked as sent, with all its parts recorded as delivered.
\<close>

theorem refused_parts_count_as_sent:
  assumes "\<And>p. 1 \<le> p \<Longrightarrow> p \<le> length chunks \<Longrightarrow> \<exists>code. hook p = Answered code \<and> code \<noteq> 0"
    "find_job job st = Some r" "jb_status r = Ready"
  shows "\<exists>posts st'. deliver_one chunks job hook stamp st = (posts, None, st')
    \<and> (\<exists>r'. find_job job st' = Some r' \<and> jb_status r' = Sent)
    \<and> (\<forall>p. 1 \<le> p \<longrightarrow> p \<le> length chunks \<longrightarrow> (job, p) \<in> set (st_parts st'))"
proof -
  have "\<exists>code. hook p = Answered code" if "1 \<le> p" "p < 1 + length chunks" for p
    using assms(1) [of p] that by auto
  then obtain posts st1 where run: "deliver_parts job 1 chunks hook st = (posts, None, st1)"
    using answered_parts by blast
  then have parts: "parts_delivered job 1 chunks st posts None st1" by (rule deliver_parts_spec)
  then have found: "find_job job st1 = Some r"
    using assms(2) by (simp add: parts_delivered_def find_job_def)
  have sent: "\<exists>r'. find_job job (delivered_job job stamp st1) = Some r' \<and> jb_status r' = Sent"
    using delivered_job_sent [OF found assms(3)] .
  show ?thesis
    using run parts sent by (auto simp: deliver_one_def parts_delivered_def less_Suc_eq_le)
qed

section \<open>Rounds\<close>

lemma sort_key_map: "sort_key k (map f xs) = map f (sort_key (\<lambda>x. k (f x)) xs)"
proof (induction xs)
  case (Cons x xs)
  have "insort_key k (f x) (map f ys) = map f (insort_key (\<lambda>x. k (f x)) x ys)" for ys
    by (induction ys) auto
  with Cons show ?case by simp
qed simp

definition same_queue :: "store \<Rightarrow> store \<Rightarrow> bool" where
  "same_queue st st' \<longleftrightarrow>
     (\<exists>f. st_jobs st' = map f (st_jobs st)
        \<and> (\<forall>r. jb_id (f r) = jb_id r \<and> jb_status (f r) = jb_status r \<and> jb_created (f r) = jb_created r))
     \<and> st_parts st' = st_parts st"

lemma same_queue_refl: "same_queue st st"
  by (auto simp: same_queue_def intro: exI [of _ id])

lemma same_queue_trans: "same_queue a b \<Longrightarrow> same_queue b c \<Longrightarrow> same_queue a c"
proof -
  assume ab: "same_queue a b" and bc: "same_queue b c"
  from ab obtain f where f: "st_jobs b = map f (st_jobs a)" "st_parts b = st_parts a"
      "\<forall>r. jb_id (f r) = jb_id r \<and> jb_status (f r) = jb_status r \<and> jb_created (f r) = jb_created r"
    unfolding same_queue_def by blast
  from bc obtain g where "st_jobs c = map g (st_jobs b)" "st_parts c = st_parts b"
      "\<forall>r. jb_id (g r) = jb_id r \<and> jb_status (g r) = jb_status r \<and> jb_created (g r) = jb_created r"
    unfolding same_queue_def by blast
  with f show ?thesis unfolding same_queue_def by (intro conjI exI [of _ "g \<circ> f"]) simp_all
qed

lemma same_queue_ready: "same_queue st st' \<Longrightarrow> map jb_id (ready_deliveries st') = map jb_id (ready_deliveries st)"
proof -
  assume "same_queue st st'"
  then obtain f where f: "st_jobs st' = map f (st_jobs st)"
      "\<And>r. jb_id (f r) = jb_id r" "\<And>r. jb_status (f r) = jb_status r" "\<And>r. jb_created (f r) = jb_created r"
    unfolding same_queue_def by blast
  show ?thesis
    by (simp add: ready_deliveries_def f sort_key_map filter_map comp_def take_map)
qed

lemma delivery_error_same: "same_queue st (delivery_error job e stamp st)"
  by (auto simp: same_queue_def delivery_error_def update_job_def
      intro!: exI [of _ "\<lambda>r. if jb_id r = job then r\<lparr>jb_error := Some (take 120 e), jb_updated := stamp\<rparr> else r"])

definition stuck_job :: "(string \<Rightarrow> code_text list) \<Rightarrow> (string \<Rightarrow> nat \<Rightarrow> post_answer) \<Rightarrow> store \<Rightarrow> string \<Rightarrow> bool" where
  "stuck_job chunks hook st job \<longleftrightarrow> chunks job \<noteq> [] \<and> (job, 1) \<notin> set (st_parts st) \<and> (\<exists>e. hook job 1 = Raised e)"

lemma stuck_deliver_one:
  assumes "stuck_job chunks hook st job"
  shows "\<exists>c e. deliver_one (chunks job) job (hook job) stamp st = ([(Suc 0, c)], Some e, st)"
  using assms by (cases "chunks job") (auto simp: stuck_job_def deliver_one_def)

lemma stuck_jobs_round:
  "(\<And>job. job \<in> set jobs \<Longrightarrow> stuck_job chunks hook st job) \<Longrightarrow>
   same_queue st (snd (deliver_jobs chunks hook stamp jobs st))
   \<and> fst ` set (fst (deliver_jobs chunks hook stamp jobs st)) \<subseteq> set jobs"
proof (induction jobs arbitrary: st)
  case (Cons job jobs)
  obtain c e where one: "deliver_one (chunks job) job (hook job) stamp st = ([(Suc 0, c)], Some e, st)"
    using stuck_deliver_one [OF Cons.prems [of job], of stamp] by auto
  let ?st2 = "delivery_error job e stamp st"
  have same: "same_queue st ?st2" by (rule delivery_error_same)
  then have "stuck_job chunks hook ?st2 j" if "j \<in> set jobs" for j
    using Cons.prems [of j] that by (auto simp: stuck_job_def same_queue_def)
  from Cons.IH [OF this] same_queue_trans [OF same] show ?case
    by (auto simp: one split_beta Let_def)
qed (simp add: same_queue_refl)

fun delivery_rounds ::
    "nat \<Rightarrow> (string \<Rightarrow> code_text list) \<Rightarrow> (nat \<Rightarrow> string \<Rightarrow> nat \<Rightarrow> post_answer) \<Rightarrow> (nat \<Rightarrow> rat) \<Rightarrow> store \<Rightarrow> (string \<times> nat) list \<times> store" where
  "delivery_rounds 0 chunks hook clock st = ([], st)"
| "delivery_rounds (Suc n) chunks hook clock st =
     (let (posts, st1) = delivery_rounds n chunks hook clock st;
          (more_posts, st2) = delivery_round chunks (hook n) (clock n) st1
      in (posts @ more_posts, st2))"

lemma stuck_rounds:
  assumes "\<And>n job. job \<in> jb_id ` set (ready_deliveries st) \<Longrightarrow> stuck_job chunks (hook n) st job"
  shows "same_queue st (snd (delivery_rounds n chunks hook clock st))
    \<and> fst ` set (fst (delivery_rounds n chunks hook clock st)) \<subseteq> jb_id ` set (ready_deliveries st)"
proof (induction n)
  case 0
  then show ?case by (simp add: same_queue_refl)
next
  case (Suc n)
  let ?st1 = "snd (delivery_rounds n chunks hook clock st)"
  have same: "same_queue st ?st1" using Suc.IH by blast
  note ids = same_queue_ready [OF same]
  have "set (map jb_id (ready_deliveries ?st1)) = jb_id ` set (ready_deliveries st)"
    unfolding ids by simp
  moreover have "stuck_job chunks (hook n) ?st1 job" if "job \<in> jb_id ` set (ready_deliveries st)" for job
    using assms [OF that, of n] same by (auto simp: stuck_job_def same_queue_def)
  ultimately have "same_queue ?st1 (snd (delivery_round chunks (hook n) (clock n) ?st1))
      \<and> fst ` set (fst (delivery_round chunks (hook n) (clock n) ?st1)) \<subseteq> jb_id ` set (ready_deliveries st)"
    using stuck_jobs_round [of "map jb_id (ready_deliveries ?st1)" chunks "hook n" ?st1 "clock n"]
    by (simp add: delivery_round_def)
  then show ?case
    using Suc.IH same_queue_trans [OF same] by (auto simp: split_beta)
qed

text \<open>
  A round tries the ten oldest ready jobs only, and a failed one stays ready: while their posts raise,
  no other job is posted in any number of rounds, and none of them is given up.
\<close>

theorem stuck_deliveries_block:
  assumes "\<And>n job. job \<in> jb_id ` set (ready_deliveries st) \<Longrightarrow> stuck_job chunks (hook n) st job"
    "job \<notin> jb_id ` set (ready_deliveries st)" "find_job job st = Some r" "jb_status r = Ready"
  shows "job \<notin> fst ` set (fst (delivery_rounds n chunks hook clock st))
    \<and> (\<exists>r'. find_job job (snd (delivery_rounds n chunks hook clock st)) = Some r' \<and> jb_status r' = Ready)"
proof -
  have rounds: "same_queue st (snd (delivery_rounds n chunks hook clock st))"
    "fst ` set (fst (delivery_rounds n chunks hook clock st)) \<subseteq> jb_id ` set (ready_deliveries st)"
    using stuck_rounds [of st chunks hook n clock] assms(1) by blast+
  from rounds(1) obtain f where f: "st_jobs (snd (delivery_rounds n chunks hook clock st)) = map f (st_jobs st)"
      "\<And>r. jb_id (f r) = jb_id r" "\<And>r. jb_status (f r) = jb_status r"
    unfolding same_queue_def by blast
  have "find_job job (snd (delivery_rounds n chunks hook clock st)) = Some (f r)"
    using assms(3) find_map [of f job "st_jobs st"] by (simp add: find_job_def f(1,2))
  with rounds(2) assms(2,4) f(3) show ?thesis by auto
qed

section \<open>A full queue\<close>

definition message_job :: "char \<Rightarrow> string" where "message_job c = ''xhs-dashboard-'' @ [c]"

text \<open>Eleven messages as \<open>enqueue_manual_message\<close> stores them.\<close>

definition message_row :: "char \<times> nat \<Rightarrow> job_row" where
  "message_row x = (new_job (message_job (fst x)) Ready ManualMessage empty_payload (of_nat (snd x)))
     \<lparr>jb_result := Some (message_result ''hello'' ''xhs-dashboard'')\<rparr>"

definition full_queue :: store where
  "full_queue = empty_store\<lparr>st_jobs := map message_row (zip ''0123456789a'' [0..<11])\<rparr>"

definition hello :: "string \<Rightarrow> code_text list" where "hello job = [[104, 101, 108, 108, 111]]"

definition refusing :: "nat \<Rightarrow> string \<Rightarrow> nat \<Rightarrow> post_answer" where
  "refusing n job part = (if job = message_job (CHR ''a'') then Answered 0 else Raised ''HTTPError:400'')"

lemma full_queue_ready:
  "map jb_id (ready_deliveries full_queue) = map message_job ''0123456789''"
  "find_job (message_job (CHR ''a'')) full_queue = Some (last (st_jobs full_queue))"
  "jb_status (last (st_jobs full_queue)) = Ready" "st_parts full_queue = []"
  by code_simp+

lemma stuck_deliveries_block_witness:
  "message_job (CHR ''a'') \<notin> fst ` set (fst (delivery_rounds 100 hello refusing of_nat full_queue))
   \<and> (\<exists>r'. find_job (message_job (CHR ''a'')) (snd (delivery_rounds 100 hello refusing of_nat full_queue)) = Some r'
        \<and> jb_status r' = Ready)"
proof -
  have ids: "jb_id ` set (ready_deliveries full_queue) = message_job ` set ''0123456789''"
    by (metis full_queue_ready(1) set_map)
  show ?thesis
  proof (rule stuck_deliveries_block [OF _ _ full_queue_ready(2,3)])
    show "message_job (CHR ''a'') \<notin> jb_id ` set (ready_deliveries full_queue)"
      unfolding ids by (simp add: message_job_def)
    show "stuck_job hello (refusing n) full_queue job" if "job \<in> jb_id ` set (ready_deliveries full_queue)" for n job
      using that unfolding ids
      by (auto simp: stuck_job_def hello_def refusing_def full_queue_ready(4) message_job_def)
  qed
qed

lemma refused_parts_count_as_sent_witness:
  "\<exists>posts st'. deliver_one (hello []) (message_job (CHR ''a'')) (\<lambda>p. Answered 11232) 5 full_queue = (posts, None, st')
     \<and> (\<exists>r'. find_job (message_job (CHR ''a'')) st' = Some r' \<and> jb_status r' = Sent)
     \<and> (message_job (CHR ''a''), 1) \<in> set (st_parts st')"
  using refused_parts_count_as_sent [OF _ full_queue_ready(2,3), of "hello []" "\<lambda>p. Answered 11232" 5]
  by (auto simp: hello_def)

definition two_parts :: "code_text list" where "two_parts = [[104], [105]]"

definition second_fails :: "nat \<Rightarrow> post_answer" where
  "second_fails p = (if p = 1 then Answered 0 else Raised ''TimeoutError'')"

definition half_sent :: store where
  "half_sent = snd (snd (deliver_one two_parts (message_job (CHR ''0'')) second_fails 5 full_queue))"

lemma half_sent_run:
  "deliver_one two_parts (message_job (CHR ''0'')) (\<lambda>p. Answered 0) 6 half_sent
     = ([(2, [105])], None, snd (snd (deliver_one two_parts (message_job (CHR ''0'')) (\<lambda>p. Answered 0) 6 half_sent)))"
  by code_simp

lemma delivery_resumes_witness:
  "(message_job (CHR ''0''), 2) \<notin> set (st_parts half_sent)
   \<and> (message_job (CHR ''0''), 2) \<in> set (st_parts (snd (snd (deliver_one two_parts (message_job (CHR ''0'')) (\<lambda>p. Answered 0) 6 half_sent))))"
  using delivery_resumes [OF half_sent_run] by (auto simp: two_parts_def)

lemma delivery_chunks_whole_witness:
  "holds_line (delivery_chunks [104, 105] [[47]]) [47]
   \<and> list_all (\<lambda>c. length c \<le> FEISHU_MAX_CHARS) (delivery_chunks [104, 105] [[47]])"
  using delivery_chunks_whole [of "[104, 105]" "[[47]]"]
  by (simp add: list_all_iff link_line_def LINK_TITLE_def FEISHU_MAX_CHARS_def)

end
