(* ===== verification/Spec2Isabelle.thy ===== *)
theory Spec2Isabelle
  imports MarketRules AshareReality T1Settlement TacticExits TdxWire TdxClient ProtoWire TrialHistory
    IntradayClock PaperPlan Episodes RuntimeLeases SendGate UrgentAlerts PaperLedger OutcomeSettlement
    PaperRisk StrategyLifecycle RequestPacing SpoolInvariants AlertOutbox
    HistoryRange XhsReach XhsDelivery
begin

text \<open>
  The trading harness collects quotes of the Chinese stock market, derives signals and ideas from
  them, and judges the ideas against what the market would have let a trader do. This development
  models the parts of its Python code that decide: the market's rules, the settlement of an idea,
  the tactics and their records, the gates before a proposal, the planned orders and the paper ledger
  they are placed on, the episodes and the outcomes of the signals, the leases, slots and audited
  sends the processes coordinate with, and the two binary protocols the data comes through.

  How the parts interact. \<open>market_rules\<close> says on which board a symbol trades, how far a price may
  move and when a session is open; \<open>ashare_reality\<close> and \<open>t1_settlement\<close> ask it for the limits.
  \<open>t1_settlement\<close> walks a rule over the price path of an idea; \<open>tactic_exits\<close> gives it twelve rules.
  \<open>limit_up_risk\<close> decodes the limit-up lists, \<open>tactic_conditions\<close> turns a day into rows and evaluates
  the registered conditions on them, and \<open>tactic_trials\<close> evaluates the tactics, reduces each day to a
  digest and folds the digests into a history. \<open>intraday_clock\<close> and \<open>intraday_schedule\<close> place the
  intraday scans in time, \<open>intraday_signal_rules\<close> turns a quote into signals, \<open>episode_lifecycle\<close> joins
  them into episodes, \<open>intraday_signal_event_persistence\<close> confirms and stores them,
  \<open>intraday_alert_delivery_service\<close> tells a reader about the confirmed ones, \<open>live_policy\<close> and
  \<open>paper_portfolio\<close> decide whether one may become a proposal, and \<open>intraday_outcome_settlement\<close>
  settles it later from stored prices. \<open>paper_auto_execution\<close> turns candidates into simulated orders;
  \<open>paper_order_bridge\<close> places them in one transaction through \<open>paper_execution_service\<close>, which keeps
  accounts, positions and fills. \<open>tdx_protocol\<close> fetches quotes over TCP under the pacing of the
  provider slots, \<open>proto_wire\<close> decodes the messages of the Feishu bridge, and \<open>send_gate\<close> and
  \<open>urgent_alerts\<close> limit what it sends. Apart from them, \<open>xhs-intel\<close> collects notes of a social network, has
  workers screen and summarise them, and posts the summaries.

  The theories, each with its source under \<open>src/\<close> (\<open>app/\<close> is \<open>quant-service/app/\<close>):

  \<^item> \<open>Prelude\<close>: results with errors, Python's string and sequence operations, dates as ordinals,
    instants as microseconds of UTC, the clock of Shanghai (a fixed eight hours ahead).
  \<^item> \<open>PyNumbers\<close>, \<open>PyStats\<close>, \<open>PyBytes\<close>, \<open>PyCells\<close>: numbers and bytes. A \<open>Decimal\<close> and a \<open>float\<close> are
    the rationals they stand for, each operation rounded once (28 decimal, 53 binary digits, half to
    even). The exponents are not bounded, so there is no overflow, infinity or \<open>nan\<close>. The locale
    \<open>rounding\<close> states what the proofs use of a rounding; it is interpreted for both types.
  \<^item> \<open>MarketRules\<close>: \<open>app/market_rules.py\<close>, \<open>app/market_session_rules.py\<close>.
  \<^item> \<open>AshareReality\<close>: \<open>app/ashare_reality.py\<close>: lots, limit state, tradability, costs.
  \<^item> \<open>T1Settlement\<close>: \<open>app/t1_settlement.py\<close>. A rule is a function from its state, the index and the
    bar to a decision and a new state; \<open>walk_exit\<close> runs it, \<open>roll_exit\<close> looks for the first
    session that can sell, \<open>settle\<close> judges an idea.
  \<^item> \<open>TacticExits\<close>: \<open>app/tactic_exits.py\<close>: the twelve sell rules as one step function on
    \<open>exit_state\<close>, the session cap, the evaluation of a pick. The locale \<open>stepping_exit\<close> carries the
    facts every capped rule shares and is interpreted on them.
  \<^item> \<open>TdxWire\<close>, \<open>TdxClient\<close>: \<open>app/datasources/sources/tdx_protocol.py\<close> with its host and code tables:
    requests, parsers, framing on a list of received chunks, failover as a function of what each
    host answers.
  \<^item> \<open>ProtoWire\<close>: \<open>feishu-relay/bridge/proto_wire.py\<close>: the schema-tolerant field reader and what
    is decoded with it.
  \<^item> \<open>LimitUpRisk\<close>: \<open>app/limit_up_risk.py\<close>, the symbol rule of \<open>app/datasources/http.py\<close>.
  \<^item> \<open>TacticConditions\<close>: \<open>app/tactic_conditions.py\<close>.
  \<^item> \<open>TacticTrials\<close>, \<open>TrialHistory\<close>: \<open>app/tactic_trials.py\<close>, \<open>bh_q_values\<close> of \<open>app/research_trials.py\<close>.
  \<^item> \<open>IntradayClock\<close>: \<open>app/intraday_clock.py\<close>, \<open>app/intraday_schedule.py\<close>.
  \<^item> \<open>PaperPlan\<close>: \<open>app/paper_auto_execution.py\<close>. The sells fold over the sorted holdings, the buys
    over the intents with the cash that is left.
  \<^item> \<open>Episodes\<close>: \<open>app/episode_lifecycle.py\<close>. The table is a list of rows; \<open>episode_step\<close> is the relation
    of the module's transactions and \<open>episode_reachable\<close> the tables they build one after the other.
  \<^item> \<open>SignalRules\<close>: \<open>app/intraday_signal_rules.py\<close>, \<open>app/strategy_thresholds.py\<close>,
    \<open>app/intraday_breakout.py\<close>: a quote read into \<open>rule_facts\<close>, one predicate and one score per setup, and the
    list of signals built in the order of the code.
  \<^item> \<open>SignalEvents\<close>: \<open>app/intraday_signal_generation.py\<close>, \<open>app/intraday_signal_policy.py\<close>,
    \<open>app/intraday_signal_event_persistence.py\<close>, the event states of \<open>app/intraday_scan_repository.py\<close> and the
    writing transaction of \<open>app/intraday_scan_signal_persistence.py\<close>. \<open>scan_tables\<close> holds the events, the
    episodes and the ledger; \<open>scan_step\<close> is the relation of scans, deliveries and clearings.
  \<^item> \<open>AlertOutbox\<close>: \<open>app/alert_transport.py\<close>, \<open>app/feishu_direct_alert.py\<close>,
    \<open>app/intraday_alert_delivery_service.py\<close>, \<open>app/async_intraday_alert_outbox_repository.py\<close>. A transport is a
    function of what the network answers; \<open>alert_step\<close> is the relation of processes that send the rows of the
    outbox, report within their lease or are lost, beside the scans of \<open>SignalEvents\<close>.
  \<^item> \<open>PaperLedger\<close>: \<open>app/paper_execution_service.py\<close>, \<open>app/paper_order_bridge.py\<close>, the wrappers of
    \<open>app/paper_execution.py\<close> and the placing transaction of \<open>app/paper_auto_execution_runtime.py\<close>. A
    \<open>ledger\<close> is the tables; an operation returns an error or a result with the tables it leaves. A
    \<open>conn\<close> is a transaction that an error of the database aborts. The locale \<open>decision_ledger\<close> is what
    the bridge needs of the two steps it is given, interpreted on the services.
  \<^item> \<open>PaperRisk\<close>: \<open>app/paper_portfolio.py\<close>, \<open>app/live_policy.py\<close>, \<open>app/intraday_state_machine.py\<close> and
    the proposal of \<open>app/paper_execution.py\<close>.
  \<^item> \<open>OutcomeSettlement\<close>: \<open>app/intraday_outcome_settlement.py\<close>, \<open>app/intraday_outcomes.py\<close> and the
    barrier label of \<open>app/paper_execution.py\<close>, over lists of stored rows.
  \<^item> \<open>StrategyLifecycle\<close>: \<open>app/strategy_lifecycle.py\<close>.
  \<^item> \<open>RuntimeLeases\<close>: \<open>app/runtime_leases.py\<close>: the table, and the relation of processes that acquire,
    renew, release and rely on what they were told.
  \<^item> \<open>RequestPacing\<close>: \<open>app/public_provider_rate_limits.py\<close>, \<open>app/provider_rate_limits.py\<close>. The locale
    \<open>pacer\<close> is interpreted on the limiter of a process and on the slots of the database.
  \<^item> \<open>SendGate\<close>, \<open>UrgentAlerts\<close>: \<open>feishu-relay/bridge/send_gate.py\<close>, \<open>urgent_alerts.py\<close>: the audit table
    with its limits and keys, and the urgent send over what the gateway answers.
  \<^item> \<open>EventSpool\<close>, \<open>SpoolInvariants\<close>: \<open>feishu-relay/bridge/event_spool.py\<close>: its tables as lists of rows, what
    every operation answers and leaves, and the relation of the calls a relay makes. A stored JSON text
    is what it reads back as; its length is an argument of \<open>enqueue\<close>.
  \<^item> \<open>HistoryRange\<close>: \<open>feishu-relay/bridge/history_range.py\<close> and its callers in \<open>bridge.py\<close>: the bisection of
    a chat's positions for a range of times, over a gateway that is an argument, and the pages of an export.
  \<^item> \<open>XhsQueue\<close>: the queue of \<open>xhs-intel/store.py\<close> and the delivery rounds of \<open>xhs-intel/edge_api.py\<close>: one
    function per transaction over the lists of the tables. \<open>XhsInvariants\<close> says how a transaction may change
    the job table, \<open>XhsReach\<close> has the relation \<open>queue_step\<close> of collectors, workers and deliveries with the
    leases they were granted, \<open>XhsDelivery\<close> the pieces of a message and the rounds that post them.

  What the lemmas show. Settlement: no sale before the second session, at the first session that
  could sell, independent of later bars, never an exception on positive prices; every capped rule
  sells, and at which price. Prices and costs: limit prices bracket the previous close, costs are
  bounded, a quote is tradable exactly when nothing blocks it. Wire formats: the readers invert the
  encodings, end on every input, and isolate a malformed entry. The client: one healthy host is
  enough, and an answer is a listed host's. Trials: three-valued evaluation is exactly agreement of
  all completions, the incremental history equals the record of all days, ranks and q values equal
  their textbook definitions. Time: outcome windows never leave their session, the rotation reaches
  every symbol. Paper orders: sells and buys respect lots, holdings, budgets and cash. Episodes: a
  key has at most one active episode. Ledger: whatever is configured, captured, proposed, accepted and
  placed, nothing is sold before the day after its purchase, balances agree with the fills, and a fill
  knows nothing captured after it. Gates: a proposed entry passed every limit. Signals: a stop dominates every
  other rule, no entry is asked of a held or overextended name, and the rules always answer. Events: a
  confirmation needs a gate and a second look, exactly the confirmed events have a proposal, and a
  delivered alert is not repeated. Alerts: a row is in one process's hands at a time, is retried until it is
  sent or has failed three times, and an event counts as alerted exactly when one was sent. Outcomes: a matured
  outcome is final and reads only its own session; the barrier loop means what its label says.
  Spool: the counts of a chat are its events, the cursor is the delivered prefix, no accepted event is
  lost, and the gap report is exact. Export: the located range read page by page is exactly the messages of
  the asked times. Notes: only the worker granted a job last can end it, a note is queued once and summarised
  only if its author is watched or a screening let it in, and a delivery resumes where it stopped. Coordination: leases exclude each other and are taken over, granted requests are spaced, sends stay
  within their windows and go out once per key. Some theorems state behaviour the surrounding documentation
  denies; the manifest lists them as findings.

  Fuel and bounds. \<open>roll_exit\<close> recurses on the sessions it may still roll, the bound the code has.
  \<open>read_until\<close> of \<open>ProtoWire\<close> has the length of its input as fuel; the theorem on its termination says
  that it never runs out, since every field takes at least a byte. \<open>pull_member_ids\<close> follows the cursors
  of the gateway and may not return; it is a partial function, and \<open>send_urgent\<close> is undefined with it.
  \<open>probe_loop\<close> is a partial function too, proved to return from the window the code starts with, and
  \<open>enqueue_all\<close> one that is proved to return on every store. \<open>MAX_DEPTH\<close> is the code's own
  bound on nested groups. All other functions terminate by structure or with a measure.

  Parameters. The content decoder of a message, the answers of the hosts and the clock of the
  client, \<open>pow\<close> and \<open>erfc\<close> of the C library, the benchmark of a settlement, environment variables, the
  current time, the digest of a material payload or of a sent text, the readings of the database's
  clock, the answers of the gateway and of the hook, the digests of the note queue, and the ids the database draws are arguments.

  Not modelled. The HTTP service, the task runtime, PostgreSQL and SQLite statements other than those of
  the modelled tables, the upgrades of older tables of the spool, the clients of remote feeds, the relays, the Xiaohongshu collector and
  the watched users, topics and read queries of its store are I/O or wiring. Display texts, and characters outside Latin-1, are left out: a text is a list of bytes.
  Concurrent transactions on one table are not modelled: the statements of a transaction run as one
  step. That is what the row locks of the ledger, the lease and the slots enforce; no unique index
  protects the episode table there.
  The minute features the rules read, the texts of an alert, the evidence stored with an event, the
  research models and the read models are inputs or outputs of the parts above.
\<close>

end
